(* ===== verification/Hive_Prelude.thy ===== *)
theory Hive_Prelude
  imports Complex_Main "HOL-Library.AList" "HOL-Library.Char_ord" "HOL-Library.List_Lexorder"
    "HOL-Library.Product_Lexorder" "HOL-Library.Multiset"
begin

text \<open>
  Shared vocabulary of the development: Python exceptions as values, results, operations that
  thread a state and may raise, dictionaries as association lists in insertion order, dynamic
  (JSON) values, the text checks that many modules repeat, and \<open>min\<close> with a key.
  The simplification rules of these helpers are collected in \<open>result_simps\<close>.
\<close>

named_theorems result_simps \<open>unfolding of results and state-threading operations\<close>

subsection \<open>Exceptions and results\<close>

text \<open>
  One constructor per exception class of the modelled modules, carrying the message string the
  code passes, and the built-in exceptions the code relies on (\<open>ValueErrorOf\<close> where the message
  matters). \<open>OtherError\<close> stands for any exception class an injected callback may raise.
\<close>

datatype exn =
    AdmissionError string
  | SelectionError string
  | SelectionServiceError string
  | RetryableSelectionError string
  | SelectionDeniedError string
  | DynamicPoolBindingError string
  | PrincipalError string
  | RepositoryError string
  | AuthorityError string
  | HiveValidationError string
  | HiveMessageError string
  | HiveDispatchError string
  | HiveAdmissionError string
  | HiveStateError string
  | CapabilityError string
  | QueueError string
  | AnchorError string
  | TaskClassificationError string
  | ResourceStateError string
  | DecisionError string
  | HiveBusContractError string
  | ModelPolicyError string
  | AllocationDenied
  | SpawnDenied string
  | ResumeDenied string
  | CompletionJournalError string
  | HiveEventError string
  | KeyError
  | TypeError
  | ValueError
  | ValueErrorOf string
  | OverflowError
  | AttributeError
  | OtherError string

type_synonym 'a result = "exn + 'a"

fun and_then :: "'a result \<Rightarrow> ('a \<Rightarrow> 'b result) \<Rightarrow> 'b result" where
  "and_then (Inl e) f = Inl e"
| "and_then (Inr x) f = f x"

definition check :: "bool \<Rightarrow> exn \<Rightarrow> unit result" where
  "check b e = (if b then Inr () else Inl e)"

text \<open>A \<open>try\<close> block whose handler looks at the exception.\<close>

fun rescue :: "'a result \<Rightarrow> (exn \<Rightarrow> 'a result) \<Rightarrow> 'a result" where
  "rescue (Inl e) h = h e"
| "rescue (Inr x) h = Inr x"

fun map_result :: "('a \<Rightarrow> 'b result) \<Rightarrow> 'a list \<Rightarrow> 'b list result" where
  "map_result f [] = Inr []"
| "map_result f (x # xs) =
     and_then (f x) (\<lambda>y. and_then (map_result f xs) (\<lambda>ys. Inr (y # ys)))"

fun is_ok :: "'a result \<Rightarrow> bool" where
  "is_ok (Inl e) = False"
| "is_ok (Inr x) = True"

lemma and_then_eq_Inr [result_simps]:
  "and_then m f = Inr y \<longleftrightarrow> (\<exists>x. m = Inr x \<and> f x = Inr y)"
  by (cases m) auto

lemma and_then_eq_Inl [result_simps]:
  "and_then m f = Inl e \<longleftrightarrow> m = Inl e \<or> (\<exists>x. m = Inr x \<and> f x = Inl e)"
  by (cases m) auto

lemma check_eq_Inr [result_simps]: "check b e = Inr u \<longleftrightarrow> b"
  by (simp add: check_def)

lemma check_eq_Inl [result_simps]: "check b e = Inl e' \<longleftrightarrow> \<not> b \<and> e' = e"
  by (auto simp: check_def)

lemma check_simps [simp]: "check True e = Inr ()" "check False e = Inl e"
  by (simp_all add: check_def)

lemma rescue_eq_Inr [result_simps]:
  "rescue m h = Inr y \<longleftrightarrow> m = Inr y \<or> (\<exists>e. m = Inl e \<and> h e = Inr y)"
  by (cases m) auto

lemma rescue_eq_Inl [result_simps]:
  "rescue m h = Inl e' \<longleftrightarrow> (\<exists>e. m = Inl e \<and> h e = Inl e')"
  by (cases m) auto

lemma is_ok_iff: "is_ok m \<longleftrightarrow> (\<exists>x. m = Inr x)"
  by (cases m) auto

lemma map_result_Inr_list_all2:
  "map_result f xs = Inr ys \<Longrightarrow> list_all2 (\<lambda>x y. f x = Inr y) xs ys"
  by (induction xs arbitrary: ys) (auto simp: result_simps)

lemma map_result_map:
  "(\<And>x. x \<in> set xs \<Longrightarrow> f (g x) = Inr (h x)) \<Longrightarrow> map_result f (map g xs) = Inr (map h xs)"
  by (induction xs) auto

lemma map_result_all_Inr:
  "(\<And>x. x \<in> set xs \<Longrightarrow> f x = Inr (h x)) \<Longrightarrow> map_result f xs = Inr (map h xs)"
  using map_result_map [where g = "\<lambda>x. x" and f = f and h = h and xs = xs] by simp

lemma map_result_Inr_iff:
  "map_result f xs = Inr ys \<longleftrightarrow> (\<forall>x \<in> set xs. is_ok (f x)) \<and> ys = map (\<lambda>x. projr (f x)) xs"
proof (induction xs arbitrary: ys)
  case (Cons x xs)
  then show ?case by (cases "f x") (auto simp: result_simps)
qed auto

lemma map_result_Inl_ex:
  "map_result f xs = Inl e \<Longrightarrow> \<exists>x \<in> set xs. f x = Inl e"
  by (induction xs) (auto simp: result_simps)

subsection \<open>Operations on a state\<close>

text \<open>
  A method that mutates an object and may raise is a function from the state to the outcome and
  the new state: the state is kept on the error branch too, since a Python exception does not undo
  what the method has already written.
\<close>

type_synonym ('s, 'a) op = "'s \<Rightarrow> 'a result \<times> 's"

definition op_bind :: "('s, 'a) op \<Rightarrow> ('a \<Rightarrow> ('s, 'b) op) \<Rightarrow> ('s, 'b) op" where
  "op_bind m f s = (case m s of (Inl e, s') \<Rightarrow> (Inl e, s') | (Inr x, s') \<Rightarrow> f x s')"

definition op_lift :: "'a result \<Rightarrow> ('s, 'a) op" where
  "op_lift r s = (r, s)"

lemma op_bind_simps [simp]:
  "m s = (Inl e, s') \<Longrightarrow> op_bind m f s = (Inl e, s')"
  "m s = (Inr x, s') \<Longrightarrow> op_bind m f s = f x s'"
  by (simp_all add: op_bind_def)

lemma op_lift_simp [simp]: "op_lift r s = (r, s)"
  by (simp add: op_lift_def)

lemma op_bind_InrE:
  assumes "op_bind m f s = (Inr y, s'')"
  obtains x s' where "m s = (Inr x, s')" and "f x s' = (Inr y, s'')"
  using assms by (auto simp: op_bind_def split: prod.splits sum.splits)

lemma op_bind_cases:
  "op_bind m f s = (r, s'') \<longleftrightarrow>
     (\<exists>e. m s = (Inl e, s'') \<and> r = Inl e) \<or> (\<exists>x s'. m s = (Inr x, s') \<and> f x s' = (r, s''))"
  by (auto simp: op_bind_def split: prod.splits sum.splits)

subsection \<open>Dictionaries\<close>

text \<open>
  A \<open>dict\<close> keeps insertion order: it is an association list, written by
  \<^const>\<open>AList.update\<close> (in place, or appended at the end) and \<^const>\<open>AList.delete\<close>, read by
  \<^const>\<open>map_of\<close>.
\<close>

type_synonym ('k, 'v) dict = "('k \<times> 'v) list"

abbreviation dict_wf :: "('k, 'v) dict \<Rightarrow> bool" where
  "dict_wf d \<equiv> distinct (map fst d)"

lemma map_of_update [simp]: "map_of (AList.update k v d) j = (if j = k then Some v else map_of d j)"
  by (simp add: update_conv')

lemma dict_wf_update [intro, simp]: "dict_wf d \<Longrightarrow> dict_wf (AList.update k v d)"
  by (simp add: distinct_update)

lemma snd_update_fresh: "k \<notin> set (map fst d) \<Longrightarrow> map snd (AList.update k v d) = map snd d @ [v]"
  by (induction d) auto

lemma update_fresh: "k \<notin> set (map fst d) \<Longrightarrow> AList.update k v d = d @ [(k, v)]"
  by (induction d) auto

lemma dict_values_lookup:
  "dict_wf d \<Longrightarrow> v \<in> snd ` set d \<longleftrightarrow> (\<exists>k. map_of d k = Some v)"
  by (force simp: map_of_eq_Some_iff)

text \<open>\<open>dict.fromkeys(xs)\<close> as a sequence: the first occurrences, in their order.\<close>

definition dict_fromkeys :: "'a list \<Rightarrow> 'a list" where
  "dict_fromkeys xs = rev (remdups (rev xs))"

lemma dict_fromkeys_simps [simp]:
  "set (dict_fromkeys xs) = set xs" "distinct (dict_fromkeys xs)"
  by (simp_all add: dict_fromkeys_def)

lemma length_dict_fromkeys: "length (dict_fromkeys xs) \<le> length xs"
  using length_remdups_leq [of "rev xs"] by (simp add: dict_fromkeys_def)

text \<open>The dictionary \<open>{f(x): x for x in xs}\<close>: a later item replaces an earlier one.\<close>

definition last_by :: "('a \<Rightarrow> 'k) \<Rightarrow> 'a list \<Rightarrow> 'k \<Rightarrow> 'a option" where
  "last_by f xs = map_of (rev (map (\<lambda>x. (f x, x)) xs))"

lemma last_by_Some: "last_by f xs k = Some x \<Longrightarrow> x \<in> set xs \<and> f x = k"
  by (auto simp: last_by_def dest!: map_of_SomeD)

lemma last_by_None: "last_by f xs k = None \<longleftrightarrow> k \<notin> f ` set xs"
  by (auto simp: last_by_def map_of_eq_None_iff image_image)

lemma update_present:
  "map_of d k = Some w \<Longrightarrow> dict_wf d \<Longrightarrow>
     AList.update k v d = map (\<lambda>(j, x). if j = k then (j, v) else (j, x)) d"
proof (induction d)
  case Nil
  then show ?case by simp
next
  case (Cons p d)
  obtain j x where p: "p = (j, x)" by (cases p)
  show ?case
  proof (cases "j = k")
    case True
    with Cons.prems p have "k \<notin> fst ` set d" by simp
    then have "map (\<lambda>(j, x). if j = k then (j, v) else (j, x)) d = d"
      by (intro map_idI) force
    with True p show ?thesis by simp
  next
    case False
    with Cons p show ?thesis by simp
  qed
qed

subsection \<open>Dynamic values\<close>

text \<open>
  The values of \<open>json.loads\<close>, and of the \<open>object\<close> arguments that the code inspects with
  \<open>isinstance\<close>. Floats are finite rationals; \<open>PObject\<close> is any value of another class.
\<close>

datatype pyval =
    PNone
  | PBool bool
  | PInt int
  | PFloat rat
  | PStr string
  | PList "pyval list"
  | PDict "(string \<times> pyval) list"
  | PObject string

text \<open>Equality with a string or an integer, as \<open>==\<close> decides it (\<open>True == 1\<close>, \<open>1.0 == 1\<close>).\<close>

fun py_eq_str :: "pyval \<Rightarrow> string \<Rightarrow> bool" where
  "py_eq_str (PStr s) t = (s = t)"
| "py_eq_str _ t = False"

fun py_eq_int :: "pyval \<Rightarrow> int \<Rightarrow> bool" where
  "py_eq_int (PInt i) n = (i = n)"
| "py_eq_int (PBool b) n = ((if b then 1 else 0) = n)"
| "py_eq_int (PFloat q) n = (q = of_int n)"
| "py_eq_int _ n = False"

text \<open>Membership in a set literal of strings hashes the value first.\<close>

fun py_hashable :: "pyval \<Rightarrow> bool" where
  "py_hashable (PList _) = False"
| "py_hashable (PDict _) = False"
| "py_hashable _ = True"

definition py_in_strs :: "pyval \<Rightarrow> string list \<Rightarrow> bool result" where
  "py_in_strs v xs = (if \<not> py_hashable v then Inl TypeError else Inr (list_ex (py_eq_str v) xs))"

text \<open>Subscription \<open>d[k]\<close> and \<open>d.get(k)\<close> of a dictionary value.\<close>

definition py_item :: "(string \<times> pyval) list \<Rightarrow> string \<Rightarrow> pyval result" where
  "py_item d k = (case map_of d k of None \<Rightarrow> Inl KeyError | Some v \<Rightarrow> Inr v)"

definition py_get :: "(string \<times> pyval) list \<Rightarrow> string \<Rightarrow> pyval \<Rightarrow> pyval" where
  "py_get d k dflt = (case map_of d k of None \<Rightarrow> dflt | Some v \<Rightarrow> v)"

fun opt_str :: "string option \<Rightarrow> pyval" where
  "opt_str None = PNone"
| "opt_str (Some s) = PStr s"

text \<open>The recurring test \<open>not bool, int, lo <= v <= hi\<close>, yielding the integer.\<close>

fun py_bounded_int :: "pyval \<Rightarrow> int \<Rightarrow> int \<Rightarrow> int option" where
  "py_bounded_int (PInt i) lo hi = (if lo \<le> i \<and> i \<le> hi then Some i else None)"
| "py_bounded_int _ lo hi = None"

fun py_bool :: "pyval \<Rightarrow> bool option" where
  "py_bool (PBool b) = Some b"
| "py_bool _ = None"

fun py_str :: "pyval \<Rightarrow> string option" where
  "py_str (PStr s) = Some s"
| "py_str _ = None"

definition need :: "'a option \<Rightarrow> exn \<Rightarrow> 'a result" where
  "need x e = (case x of None \<Rightarrow> Inl e | Some y \<Rightarrow> Inr y)"

lemma need_Inr [result_simps]: "need x e = Inr y \<longleftrightarrow> x = Some y"
  by (simp add: need_def split: option.splits)

lemma need_Inl [result_simps]: "need x e = Inl e' \<longleftrightarrow> x = None \<and> e' = e"
  by (auto simp: need_def split: option.splits)

lemma need_simps [simp]: "need (Some y) e = Inr y" "need None e = Inl e"
  by (simp_all add: need_def)

lemma py_bounded_int_Some [result_simps]:
  "py_bounded_int v lo hi = Some i \<longleftrightarrow> v = PInt i \<and> lo \<le> i \<and> i \<le> hi"
  by (cases v) auto

lemma py_bool_Some [result_simps]: "py_bool v = Some b \<longleftrightarrow> v = PBool b"
  by (cases v) auto

lemma py_str_Some [result_simps]: "py_str v = Some s \<longleftrightarrow> v = PStr s"
  by (cases v) auto

lemma py_eq_str_iff [result_simps]: "py_eq_str v t \<longleftrightarrow> v = PStr t"
  by (cases v) auto

lemma py_in_strs_Inr [result_simps]:
  "py_in_strs v xs = Inr True \<longleftrightarrow> (\<exists>s \<in> set xs. v = PStr s)"
  by (cases v) (auto simp: py_in_strs_def list_ex_iff)

subsection \<open>Text\<close>

definition printable :: "string \<Rightarrow> bool" where
  "printable s = list_all (\<lambda>c. (of_char c :: nat) \<ge> 32) s"

definition text_ok :: "nat \<Rightarrow> string \<Rightarrow> bool" where
  "text_ok n s = (1 \<le> length s \<and> length s \<le> n \<and> printable s)"

definition starts_with :: "string \<Rightarrow> string \<Rightarrow> bool" where
  "starts_with p s = (take (length p) s = p)"

fun contains :: "string \<Rightarrow> string \<Rightarrow> bool" where
  "contains p [] = (p = [])"
| "contains p (c # s) = (starts_with p (c # s) \<or> contains p s)"

text \<open>\<open>s.split(c)\<close> for a one-character separator: never empty.\<close>

fun split_on :: "char \<Rightarrow> string \<Rightarrow> string list" where
  "split_on c [] = [[]]"
| "split_on c (x # xs) =
     (if x = c then [] # split_on c xs
      else (case split_on c xs of [] \<Rightarrow> [[x]] | p # ps \<Rightarrow> (x # p) # ps))"

lemma split_on_ne [simp]: "split_on c s \<noteq> []"
  by (induction s) (auto split: list.splits)

fun join_with :: "string \<Rightarrow> string list \<Rightarrow> string" where
  "join_with sep [] = []"
| "join_with sep [x] = x"
| "join_with sep (x # y # ys) = x @ sep @ join_with sep (y # ys)"

lemma join_split: "join_with [c] (split_on c s) = s"
proof (induction s)
  case Nil
  then show ?case by simp
next
  case (Cons x xs)
  obtain p ps where "split_on c xs = p # ps"
    by (cases "split_on c xs") auto
  with Cons show ?case by (cases ps) auto
qed

lemma join_with_append:
  "xs \<noteq> [] \<Longrightarrow> ys \<noteq> [] \<Longrightarrow> join_with sep (xs @ ys) = join_with sep xs @ sep @ join_with sep ys"
  by (induction sep xs rule: join_with.induct) (auto simp: neq_Nil_conv)

lemma starts_with_iff: "starts_with p s \<longleftrightarrow> (\<exists>t. s = p @ t)"
  by (auto simp: starts_with_def) (metis append_take_drop_id)

lemma split_on_append_sep: "split_on c (s @ c # t) = split_on c s @ split_on c t"
proof (induction s)
  case Nil
  then show ?case by simp
next
  case (Cons x xs)
  obtain p ps where "split_on c xs = p # ps"
    by (cases "split_on c xs") auto
  with Cons show ?case by simp
qed

definition removesuffix :: "string \<Rightarrow> string \<Rightarrow> string" where
  "removesuffix suffix s =
     (if suffix \<noteq> [] \<and> length suffix \<le> length s \<and> drop (length s - length suffix) s = suffix
      then take (length s - length suffix) s else s)"

definition lower_char :: "char \<Rightarrow> char" where
  "lower_char c =
     (let n = of_char c :: nat
      in if (65 \<le> n \<and> n \<le> 90) \<or> (192 \<le> n \<and> n \<le> 222 \<and> n \<noteq> 215) then char_of (n + 32) else c)"

definition char_in_range :: "char \<Rightarrow> char \<Rightarrow> char \<Rightarrow> bool" where
  "char_in_range lo hi c = ((of_char lo :: nat) \<le> of_char c \<and> (of_char c :: nat) \<le> of_char hi)"

definition is_lower :: "char \<Rightarrow> bool" where
  "is_lower c = char_in_range CHR ''a'' CHR ''z'' c"

definition is_upper :: "char \<Rightarrow> bool" where
  "is_upper c = char_in_range CHR ''A'' CHR ''Z'' c"

definition is_digit :: "char \<Rightarrow> bool" where
  "is_digit c = char_in_range CHR ''0'' CHR ''9'' c"

definition is_hex :: "char \<Rightarrow> bool" where
  "is_hex c = (is_digit c \<or> char_in_range CHR ''a'' CHR ''f'' c)"

text \<open>The digest pattern \<open>sha256:[0-9a-f]{64}\<close> shared by several modules.\<close>

definition is_sha256_digest :: "string \<Rightarrow> bool" where
  "is_sha256_digest s =
     (starts_with ''sha256:'' s \<and> length (drop 7 s) = 64 \<and> list_all is_hex (drop 7 s))"

subsection \<open>\<open>min\<close> with a key\<close>

text \<open>\<open>min(xs, key=f)\<close> returns the first element whose key is least.\<close>

fun min_by :: "('a \<Rightarrow> 'k::linorder) \<Rightarrow> 'a list \<Rightarrow> 'a option" where
  "min_by f [] = None"
| "min_by f (x # xs) =
     (case min_by f xs of None \<Rightarrow> Some x | Some y \<Rightarrow> if f x \<le> f y then Some x else Some y)"

lemma min_by_None [simp]: "min_by f xs = None \<longleftrightarrow> xs = []"
  by (cases xs) (auto split: option.splits)

lemma min_by_mem: "min_by f xs = Some x \<Longrightarrow> x \<in> set xs"
  by (induction xs arbitrary: x) (auto split: option.splits if_splits)

lemma min_by_least: "min_by f xs = Some x \<Longrightarrow> y \<in> set xs \<Longrightarrow> f x \<le> f y"
  by (induction xs arbitrary: x) (fastforce split: option.splits if_splits)+

end
