(* ===== verification/Hive_Time.thy ===== *)
theory Hive_Time
  imports Hive_Prelude
begin

text \<open>
  The part of Python's \<open>datetime\<close> that the code uses. A \<open>datetime\<close> is its wall-clock reading,
  as microseconds since 0001-01-01T00:00:00, and its UTC offset, if it has one; this is the same
  information as the year, month, \<dots>, microsecond fields. Aware values are compared and subtracted
  through their UTC instant, additions and conversions leave the supported range with an
  \<open>OverflowError\<close>. A \<open>timedelta\<close> is its number of microseconds; the comparisons of
  \<open>total_seconds()\<close> with integer bounds are comparisons of microseconds.
\<close>

record py_datetime =
  local_us :: int
  utc_offset_us :: "int option"

definition us_per_second :: int where
  "us_per_second = 1000000"

definition us_per_day :: int where
  "us_per_day = 86400 * us_per_second"

text \<open>\<open>datetime.max\<close> is the last microsecond of 9999-12-31, day number 3652059.\<close>

definition max_us :: int where
  "max_us = 3652059 * us_per_day"

definition aware :: "py_datetime \<Rightarrow> bool" where
  "aware d = (utc_offset_us d \<noteq> None)"

definition instant :: "py_datetime \<Rightarrow> int" where
  "instant d = local_us d - (case utc_offset_us d of None \<Rightarrow> 0 | Some o' \<Rightarrow> o')"

definition dt_valid :: "py_datetime \<Rightarrow> bool" where
  "dt_valid d =
     (0 \<le> local_us d \<and> local_us d < max_us \<and>
      (case utc_offset_us d of None \<Rightarrow> True | Some o' \<Rightarrow> - us_per_day < o' \<and> o' < us_per_day))"

text \<open>A constructor for examples: an instant in seconds, in UTC.\<close>

definition utc_at :: "int \<Rightarrow> py_datetime" where
  "utc_at s = \<lparr>local_us = s * us_per_second, utc_offset_us = Some 0\<rparr>"

text \<open>\<open>value.astimezone(timezone.utc)\<close> of an aware value.\<close>

definition as_utc :: "py_datetime \<Rightarrow> py_datetime result" where
  "as_utc d =
     (if 0 \<le> instant d \<and> instant d < max_us
      then Inr \<lparr>local_us = instant d, utc_offset_us = Some 0\<rparr>
      else Inl OverflowError)"

text \<open>\<open>value + timedelta(seconds=n)\<close> keeps the offset.\<close>

definition plus_seconds :: "py_datetime \<Rightarrow> int \<Rightarrow> py_datetime result" where
  "plus_seconds d n =
     (let u = local_us d + n * us_per_second
      in if 0 \<le> u \<and> u < max_us then Inr (d\<lparr>local_us := u\<rparr>) else Inl OverflowError)"

text \<open>\<open>int(x.total_seconds())\<close> truncates towards zero.\<close>

definition trunc_seconds :: "int \<Rightarrow> int" where
  "trunc_seconds us = (if 0 \<le> us then us div us_per_second else - ((- us) div us_per_second))"

text \<open>\<open>int(value.timestamp())\<close>: 1970-01-01 is 719162 days after 0001-01-01.\<close>

definition epoch_us :: int where
  "epoch_us = 719162 * us_per_day"

definition timestamp_seconds :: "py_datetime \<Rightarrow> int" where
  "timestamp_seconds d = trunc_seconds (instant d - epoch_us)"

lemmas time_consts = us_per_second_def us_per_day_def max_us_def epoch_us_def

lemma aware_utc_at [simp]: "aware (utc_at s)"
  by (simp add: aware_def utc_at_def)

lemma instant_utc_at [simp]: "instant (utc_at s) = s * us_per_second"
  by (simp add: instant_def utc_at_def)

lemma us_per_second_pos [simp]: "0 < us_per_second"
  by (simp add: us_per_second_def)

lemma as_utc_Inr:
  "as_utc d = Inr u \<Longrightarrow> instant u = instant d \<and> aware u \<and> utc_offset_us u = Some 0"
  by (auto simp: as_utc_def instant_def aware_def split: if_splits)

lemma plus_seconds_Inr:
  "plus_seconds d n = Inr e \<Longrightarrow>
     instant e = instant d + n * us_per_second \<and> aware e = aware d \<and> utc_offset_us e = utc_offset_us d"
  by (auto simp: plus_seconds_def Let_def instant_def aware_def split: if_splits)

lemma trunc_seconds_mono: "a \<le> b \<Longrightarrow> trunc_seconds a \<le> trunc_seconds b"
proof (cases "0 \<le> a")
  case True
  assume "a \<le> b"
  with True show ?thesis by (simp add: trunc_seconds_def zdiv_mono1)
next
  case False
  assume ab: "a \<le> b"
  show ?thesis
  proof (cases "0 \<le> b")
    case True
    have "0 \<le> (- a) div us_per_second" and "0 \<le> b div us_per_second"
      using False True by (simp_all add: pos_imp_zdiv_nonneg_iff)
    with False True show ?thesis by (simp add: trunc_seconds_def)
  next
    case neg: False
    have "(- b) div us_per_second \<le> (- a) div us_per_second"
      using ab by (simp add: zdiv_mono1)
    with False neg show ?thesis by (simp add: trunc_seconds_def)
  qed
qed

end
