(* ===== verification/Hive_Types.thy ===== *)
theory Hive_Types
  imports Hive_Time
begin

text \<open>
  The shared domain primitives of \<open>hive/types.py\<close> (identifiers, UTC timestamps, dispatch
  priorities, task complexity).
\<close>

definition identifier_tail_char :: "char \<Rightarrow> bool" where
  "identifier_tail_char c = (is_lower c \<or> is_digit c \<or> c = CHR ''_'' \<or> c = CHR ''-'')"

text \<open>The pattern \<open>[a-z][a-z0-9_-]{0,127}\<close>.\<close>

fun identifier_re :: "string \<Rightarrow> bool" where
  "identifier_re [] = False"
| "identifier_re (c # cs) = (is_lower c \<and> length cs \<le> 127 \<and> list_all identifier_tail_char cs)"

fun validate_identifier :: "pyval \<Rightarrow> string \<Rightarrow> string result" where
  "validate_identifier (PStr s) fld =
     (if identifier_re s then Inr s else Inl (HiveValidationError (''invalid_'' @ fld)))"
| "validate_identifier _ fld = Inl (HiveValidationError (''invalid_'' @ fld))"

definition validate_utc_datetime :: "py_datetime \<Rightarrow> string \<Rightarrow> py_datetime result" where
  "validate_utc_datetime d fld =
     (if \<not> aware d then Inl (HiveValidationError (''invalid_'' @ fld))
      else case as_utc d of
             Inl e \<Rightarrow> Inl (HiveValidationError (''invalid_'' @ fld))
           | Inr u \<Rightarrow> Inr u)"

datatype DispatchPriority = DP0 | DP1 | DP2 | DP3

fun DispatchPriority_value :: "DispatchPriority \<Rightarrow> string" where
  "DispatchPriority_value DP0 = ''DP0''"
| "DispatchPriority_value DP1 = ''DP1''"
| "DispatchPriority_value DP2 = ''DP2''"
| "DispatchPriority_value DP3 = ''DP3''"

text \<open>\<open>DispatchPriority(value)\<close> raises \<open>ValueError\<close> for a value that names no member.\<close>

definition DispatchPriority_of :: "pyval \<Rightarrow> DispatchPriority result" where
  "DispatchPriority_of v =
     (if py_eq_str v ''DP0'' then Inr DP0 else if py_eq_str v ''DP1'' then Inr DP1
      else if py_eq_str v ''DP2'' then Inr DP2 else if py_eq_str v ''DP3'' then Inr DP3
      else Inl ValueError)"

datatype TaskComplexity = SIMPLE | MEDIUM | COMPLEX | UNKNOWN

fun TaskComplexity_value :: "TaskComplexity \<Rightarrow> string" where
  "TaskComplexity_value SIMPLE = ''simple''"
| "TaskComplexity_value MEDIUM = ''medium''"
| "TaskComplexity_value COMPLEX = ''complex''"
| "TaskComplexity_value UNKNOWN = ''unknown''"

definition TaskComplexity_of :: "pyval \<Rightarrow> TaskComplexity result" where
  "TaskComplexity_of v =
     (if py_eq_str v ''simple'' then Inr SIMPLE else if py_eq_str v ''medium'' then Inr MEDIUM
      else if py_eq_str v ''complex'' then Inr COMPLEX
      else if py_eq_str v ''unknown'' then Inr UNKNOWN else Inl ValueError)"

lemma validate_identifier_Inr [result_simps]:
  "validate_identifier v fld = Inr s \<longleftrightarrow> v = PStr s \<and> identifier_re s"
  by (cases v) auto

lemma validate_identifier_Inl [result_simps]:
  "validate_identifier v fld = Inl e \<longleftrightarrow>
     e = HiveValidationError (''invalid_'' @ fld) \<and> \<not> (\<exists>s. v = PStr s \<and> identifier_re s)"
  by (cases v) auto

lemma identifier_re_length: "identifier_re s \<Longrightarrow> 1 \<le> length s \<and> length s \<le> 128"
  by (cases s) auto

lemma identifier_tail_printable: "identifier_tail_char c \<Longrightarrow> (32::nat) \<le> of_char c"
  by (auto simp: identifier_tail_char_def is_lower_def is_digit_def char_in_range_def)

lemma identifier_re_text_ok: "identifier_re s \<Longrightarrow> text_ok 128 s"
proof (cases s)
  case (Cons c cs)
  assume "identifier_re s"
  with Cons have c: "is_lower c" and cs: "length cs \<le> 127" "list_all identifier_tail_char cs"
    by auto
  from c have "identifier_tail_char c" by (simp add: identifier_tail_char_def)
  with cs have "list_all (\<lambda>c. (32::nat) \<le> of_char c) (c # cs)"
    by (auto simp: list_all_iff identifier_tail_printable)
  with Cons cs show ?thesis by (simp add: text_ok_def printable_def)
qed simp

lemma validate_utc_datetime_Inr:
  "validate_utc_datetime d fld = Inr u \<Longrightarrow> instant u = instant d \<and> aware u \<and> aware d"
  by (auto simp: validate_utc_datetime_def dest: as_utc_Inr split: if_splits sum.splits)

lemma DispatchPriority_of_value [simp]: "DispatchPriority_of (PStr (DispatchPriority_value p)) = Inr p"
  by (cases p) (simp_all add: DispatchPriority_of_def)

lemma TaskComplexity_of_value [simp]: "TaskComplexity_of (PStr (TaskComplexity_value c)) = Inr c"
  by (cases c) (simp_all add: TaskComplexity_of_def)

end
