(* ===== verification/Dynamic_Pool.thy ===== *)
theory Dynamic_Pool
  imports Hive_Types
begin

text \<open>
  \<open>dynamic_pool.py\<close>: immutable account/pool bindings, their exact payload codec, the explicit
  inventory that resolves a selected agent to its binding, and the revalidation of a binding
  against fresh usage evidence. Values that reach a constructor from a payload are dynamic values;
  the constructor is the function that checks them.
\<close>

definition account_char :: "char \<Rightarrow> bool" where
  "account_char c =
     (is_lower c \<or> is_upper c \<or> is_digit c \<or> c = CHR ''_'' \<or> c = CHR ''.'' \<or> c = CHR ''-'')"

definition ACCOUNT_RE :: "string \<Rightarrow> bool" where
  "ACCOUNT_RE s = (1 \<le> length s \<and> length s \<le> 64 \<and> list_all account_char s)"

definition pool_tail_char :: "char \<Rightarrow> bool" where
  "pool_tail_char c =
     (is_lower c \<or> is_digit c \<or> c = CHR ''.'' \<or> c = CHR ''_'' \<or> c = CHR ''-'')"

fun POOL_RE :: "string \<Rightarrow> bool" where
  "POOL_RE [] = False"
| "POOL_RE (c # cs) =
     ((is_lower c \<or> is_digit c) \<and> length cs \<le> 63 \<and> list_all pool_tail_char cs)"

fun PROVIDER_RE :: "string \<Rightarrow> bool" where
  "PROVIDER_RE [] = False"
| "PROVIDER_RE (c # cs) =
     (is_lower c \<and> length cs \<le> 31 \<and>
      list_all (\<lambda>x. is_lower x \<or> is_digit x \<or> x = CHR ''-'') cs)"

fun RUNTIME_PROVIDER_RE :: "string \<Rightarrow> bool" where
  "RUNTIME_PROVIDER_RE [] = False"
| "RUNTIME_PROVIDER_RE (c # cs) =
     (is_lower c \<and> length cs \<le> 63 \<and>
      list_all (\<lambda>x. is_lower x \<or> is_digit x \<or> x = CHR ''_'' \<or> x = CHR ''-'') cs)"

definition AGENT_RE :: "string \<Rightarrow> bool" where
  "AGENT_RE s = (1 \<le> length s \<and> length s \<le> 128 \<and> list_all account_char s)"

record AccountPoolBindingV1 =
  pb_account_id :: string
  pb_pool_id :: string
  pb_authority_provider :: string
  pb_runtime_provider :: "string option"

text \<open>\<open>AccountPoolBindingV1(...)\<close> with its \<open>__post_init__\<close>.\<close>

definition account_id_check :: "pyval \<Rightarrow> string result" where
  "account_id_check v =
     (case v of
        PStr s \<Rightarrow> if s = ''.'' \<or> s = ''..'' \<or> \<not> ACCOUNT_RE s
                  then Inl (DynamicPoolBindingError ''invalid_dynamic_pool_account'') else Inr s
      | _ \<Rightarrow> Inl (DynamicPoolBindingError ''invalid_dynamic_pool_account''))"

definition pool_id_check :: "pyval \<Rightarrow> string result" where
  "pool_id_check v =
     (case v of
        PStr s \<Rightarrow> if POOL_RE s then Inr s
                  else Inl (DynamicPoolBindingError ''invalid_dynamic_pool_id'')
      | _ \<Rightarrow> Inl (DynamicPoolBindingError ''invalid_dynamic_pool_id''))"

definition authority_provider_check :: "pyval \<Rightarrow> string result" where
  "authority_provider_check v =
     (case v of
        PStr s \<Rightarrow> if PROVIDER_RE s then Inr s
                  else Inl (DynamicPoolBindingError ''invalid_dynamic_pool_authority_provider'')
      | _ \<Rightarrow> Inl (DynamicPoolBindingError ''invalid_dynamic_pool_authority_provider''))"

definition runtime_provider_check :: "pyval \<Rightarrow> string option result" where
  "runtime_provider_check v =
     (case v of
        PNone \<Rightarrow> Inr None
      | PStr s \<Rightarrow> if RUNTIME_PROVIDER_RE s then Inr (Some s)
                  else Inl (DynamicPoolBindingError ''invalid_dynamic_pool_runtime_provider'')
      | _ \<Rightarrow> Inl (DynamicPoolBindingError ''invalid_dynamic_pool_runtime_provider''))"

definition make_account_pool_binding_v1 ::
  "pyval \<Rightarrow> pyval \<Rightarrow> pyval \<Rightarrow> pyval \<Rightarrow> AccountPoolBindingV1 result" where
  "make_account_pool_binding_v1 account_id pool_id authority_provider runtime_provider =
     and_then (account_id_check account_id) (\<lambda>a.
     and_then (pool_id_check pool_id) (\<lambda>p.
     and_then (authority_provider_check authority_provider) (\<lambda>ap.
     and_then (runtime_provider_check runtime_provider) (\<lambda>rp.
       Inr \<lparr>pb_account_id = a, pb_pool_id = p, pb_authority_provider = ap,
            pb_runtime_provider = rp\<rparr>))))"

text \<open>The values a binding can have: every constructed binding satisfies this.\<close>

definition binding_wf :: "AccountPoolBindingV1 \<Rightarrow> bool" where
  "binding_wf b =
     (ACCOUNT_RE (pb_account_id b) \<and> pb_account_id b \<noteq> ''.'' \<and> pb_account_id b \<noteq> ''..'' \<and>
      POOL_RE (pb_pool_id b) \<and> PROVIDER_RE (pb_authority_provider b) \<and>
      (case pb_runtime_provider b of None \<Rightarrow> True | Some r \<Rightarrow> RUNTIME_PROVIDER_RE r))"

definition account_pool_binding_payload :: "AccountPoolBindingV1 \<Rightarrow> pyval" where
  "account_pool_binding_payload b =
     PDict [(''account_id'', PStr (pb_account_id b)), (''pool_id'', PStr (pb_pool_id b)),
            (''authority_provider'', PStr (pb_authority_provider b)),
            (''runtime_provider'', opt_str (pb_runtime_provider b))]"

definition account_pool_binding_from_payload :: "pyval \<Rightarrow> AccountPoolBindingV1 result" where
  "account_pool_binding_from_payload raw =
     (case raw of
        PDict d \<Rightarrow>
          (if set (map fst d) \<noteq>
                set [''account_id'', ''pool_id'', ''authority_provider'', ''runtime_provider'']
           then Inl (DynamicPoolBindingError ''invalid_dynamic_pool_binding'')
           else
             and_then (py_item d ''account_id'') (\<lambda>a.
             and_then (py_item d ''pool_id'') (\<lambda>p.
             and_then (py_item d ''authority_provider'') (\<lambda>ap.
             and_then (py_item d ''runtime_provider'') (\<lambda>rp.
               make_account_pool_binding_v1 a p ap rp)))))
      | _ \<Rightarrow> Inl (DynamicPoolBindingError ''invalid_dynamic_pool_binding''))"

text \<open>
  Inventory entries carry the same four fields and run the same constructor as a check, so an
  entry is represented by the binding it yields.
\<close>

type_synonym DynamicPoolInventoryEntryV1 = AccountPoolBindingV1

type_synonym DynamicPoolInventoryV1 = "(string, DynamicPoolInventoryEntryV1) dict"

definition DynamicPoolInventoryV1_init ::
  "(string, DynamicPoolInventoryEntryV1) dict \<Rightarrow> DynamicPoolInventoryV1 result" where
  "DynamicPoolInventoryV1_init entries_by_agent =
     (if length entries_by_agent > 256
      then Inl (DynamicPoolBindingError ''invalid_dynamic_pool_inventory'')
      else if list_ex (\<lambda>(agent_id, _). \<not> AGENT_RE agent_id) entries_by_agent
      then Inl (DynamicPoolBindingError ''invalid_dynamic_pool_inventory'')
      else Inr entries_by_agent)"

definition entry_for :: "DynamicPoolInventoryV1 \<Rightarrow> string \<Rightarrow> DynamicPoolInventoryEntryV1 result" where
  "entry_for inventory agent_id =
     (if \<not> AGENT_RE agent_id then Inl (DynamicPoolBindingError ''dynamic_pool_binding_missing'')
      else case map_of inventory agent_id of
             None \<Rightarrow> Inl (DynamicPoolBindingError ''dynamic_pool_binding_missing'')
           | Some entry \<Rightarrow> Inr entry)"

record PoolAuthorityV2 =
  pa_account_id :: string
  pa_pool_id :: string
  pa_provider :: string
  pa_hive_available :: bool

record UsageEvidenceV2 =
  ue_status :: string
  ue_pool_authorities :: "PoolAuthorityV2 list"

text \<open>The reader is the outcome of calling it: a raised exception is an error value.\<close>

definition exact_pool_authority_revalidation ::
  "AccountPoolBindingV1 \<Rightarrow> UsageEvidenceV2 result \<Rightarrow> bool" where
  "exact_pool_authority_revalidation binding reader =
     (case reader of
        Inl e \<Rightarrow> False
      | Inr evidence \<Rightarrow>
          (if ue_status evidence \<noteq> ''complete'' then False
           else
             (let matches = filter (\<lambda>authority.
                    pa_account_id authority = pb_account_id binding \<and>
                    pa_pool_id authority = pb_pool_id binding \<and>
                    pa_provider authority = pb_authority_provider binding)
                  (ue_pool_authorities evidence)
              in (case matches of [m] \<Rightarrow> pa_hive_available m | _ \<Rightarrow> False))))"

subsection \<open>Facts\<close>

lemmas binding_checks =
  account_id_check_def pool_id_check_def authority_provider_check_def runtime_provider_check_def

lemma make_binding_wf:
  "make_account_pool_binding_v1 a p ap rp = Inr b \<Longrightarrow> binding_wf b"
  by (auto simp: make_account_pool_binding_v1_def binding_checks binding_wf_def result_simps
      split: pyval.splits if_splits)

lemma make_binding_of_fields:
  "binding_wf b \<Longrightarrow>
     make_account_pool_binding_v1 (PStr (pb_account_id b)) (PStr (pb_pool_id b))
       (PStr (pb_authority_provider b)) (opt_str (pb_runtime_provider b)) = Inr b"
  by (cases "pb_runtime_provider b")
     (auto simp: make_account_pool_binding_v1_def binding_checks binding_wf_def)

lemma from_payload_wf: "account_pool_binding_from_payload raw = Inr b \<Longrightarrow> binding_wf b"
  by (auto simp: account_pool_binding_from_payload_def result_simps
      split: pyval.splits if_splits dest: make_binding_wf)

lemma binding_payload_roundtrip:
  "binding_wf b \<Longrightarrow> account_pool_binding_from_payload (account_pool_binding_payload b) = Inr b"
  by (simp add: account_pool_binding_payload_def account_pool_binding_from_payload_def py_item_def
      make_binding_of_fields)

lemma payload_not_none [simp]: "account_pool_binding_payload b \<noteq> PNone"
  by (simp add: account_pool_binding_payload_def)

text \<open>
  A dynamic pool binding is accepted by revalidation exactly when the freshly read evidence is
  complete and holds one and only one authority entry with the binding's account, pool and
  provider, and that entry is available; a failing reader, incomplete evidence, a missing entry
  and a duplicated entry are all refused.
\<close>

theorem revalidation_iff_unique_available:
  "exact_pool_authority_revalidation b reader \<longleftrightarrow>
     (\<exists>ev m. reader = Inr ev \<and> ue_status ev = ''complete'' \<and> pa_hive_available m \<and>
        filter (\<lambda>a. (pa_account_id a, pa_pool_id a, pa_provider a) =
                    (pb_account_id b, pb_pool_id b, pb_authority_provider b))
               (ue_pool_authorities ev) = [m])"
  by (cases reader)
     (auto simp: exact_pool_authority_revalidation_def Let_def split: list.splits)

end
