(* ===== verification/Selection.thy ===== *)
theory Selection
  imports Dynamic_Pool
begin

text \<open>
  \<open>selection.py\<close>: the read-only resource-selection planner. Usage observations and limit
  windows are decoded from dynamic payloads, fairness is a fixed-point exponential decay with a
  seven-day half-life, candidates are filtered, banded and ordered by a key, and an admission
  preview binds the outcome to explicit gates.
\<close>

definition MICRO :: int where "MICRO = 1000000"
definition HALF_LIFE_SECONDS :: int where "HALF_LIFE_SECONDS = 7 * 24 * 60 * 60"
definition MAX_SERVICE_MICRO :: int where "MAX_SERVICE_MICRO = 10 ^ 18"
definition MAX_USAGE_WINDOWS :: nat where "MAX_USAGE_WINDOWS = 64"
definition MAX_USAGE_QUANTITY :: int where "MAX_USAGE_QUANTITY = 10 ^ 18"

definition USAGE_FIELDS :: "string list" where
  "USAGE_FIELDS = [''semantics'', ''unit'', ''value'', ''reset_kind'', ''confidence'',
     ''observed_at'', ''stale_after_seconds'']"

datatype TaskKind = TK_SIMPLE | TK_COMPLEX | TK_UNKNOWN
datatype ModelRole = PRIMARY | SECONDARY_SIMPLE
datatype SelectionBand = SP0 | SP1A | SP1B | SP2 | SP3
datatype AdmissionMode = MODE_OFF | MODE_SHADOW | MODE_ENFORCED

fun BAND_RANK :: "SelectionBand \<Rightarrow> int" where
  "BAND_RANK SP0 = 0"
| "BAND_RANK SP1A = 1"
| "BAND_RANK SP1B = 2"
| "BAND_RANK SP2 = 3"
| "BAND_RANK SP3 = 4"

definition sel_aware :: "py_datetime \<Rightarrow> string \<Rightarrow> py_datetime result" where
  "sel_aware d code = (if aware d then Inr d else Inl (SelectionError code))"

subsection \<open>Usage observations\<close>

record UsageObservation =
  uo_semantics :: string
  uo_unit :: string
  uo_value :: int
  uo_reset_kind :: string
  uo_confidence :: string
  uo_observed_at :: py_datetime
  uo_stale_after_seconds :: int

text \<open>A set-literal membership test that raises the given error when it fails.\<close>

definition one_of :: "pyval \<Rightarrow> string list \<Rightarrow> exn \<Rightarrow> string result" where
  "one_of v xs e = and_then (py_in_strs v xs) (\<lambda>b. if b then need (py_str v) e else Inl e)"

definition UsageObservation_init ::
  "pyval \<Rightarrow> pyval \<Rightarrow> pyval \<Rightarrow> pyval \<Rightarrow> pyval \<Rightarrow> py_datetime \<Rightarrow> pyval \<Rightarrow> UsageObservation result" where
  "UsageObservation_init semantics unit' val reset_kind confidence observed_at stale_after =
     and_then (one_of semantics [''remaining'', ''used''] (SelectionError ''invalid_usage_semantics''))
       (\<lambda>sem.
     and_then (check (py_eq_str unit' ''percent'') (SelectionError ''invalid_usage_unit'')) (\<lambda>_.
     and_then (need (py_bounded_int val 0 100) (SelectionError ''invalid_usage_value'')) (\<lambda>n.
     and_then (one_of reset_kind [''rolling_unanchored'', ''rolling_anchored'', ''fixed'']
                 (SelectionError ''invalid_usage_reset_kind'')) (\<lambda>rk.
     and_then (one_of confidence [''verified'', ''observed'', ''unknown'']
                 (SelectionError ''invalid_usage_confidence'')) (\<lambda>conf.
     and_then (sel_aware observed_at ''invalid_usage_timestamp'') (\<lambda>obs.
     and_then (need (py_bounded_int stale_after 1 86400) (SelectionError ''invalid_usage_freshness''))
       (\<lambda>st.
       Inr \<lparr>uo_semantics = sem, uo_unit = ''percent'', uo_value = n, uo_reset_kind = rk,
            uo_confidence = conf, uo_observed_at = obs, uo_stale_after_seconds = st\<rparr>)))))))"

definition is_fresh :: "UsageObservation \<Rightarrow> py_datetime \<Rightarrow> bool result" where
  "is_fresh o' now =
     and_then (sel_aware now ''invalid_selection_time'') (\<lambda>now.
       (let age = instant now - instant (uo_observed_at o')
        in Inr (0 \<le> age \<and> age \<le> uo_stale_after_seconds o' * us_per_second)))"

definition is_passive_sp0_due :: "UsageObservation \<Rightarrow> py_datetime \<Rightarrow> bool result" where
  "is_passive_sp0_due o' now =
     (if uo_semantics o' = ''remaining'' \<and> uo_unit o' = ''percent'' \<and> uo_value o' = 100 \<and>
         uo_reset_kind o' = ''rolling_unanchored'' \<and> uo_confidence o' = ''verified''
      then is_fresh o' now else Inr False)"

text \<open>
  The timestamp parser \<open>datetime.fromisoformat(value.replace("Z", "+00:00"))\<close> is an argument:
  \<open>None\<close> is its \<open>ValueError\<close>.
\<close>

type_synonym iso_parser = "string \<Rightarrow> py_datetime option"

definition usage_datetime :: "iso_parser \<Rightarrow> pyval \<Rightarrow> py_datetime result" where
  "usage_datetime fromiso v =
     (case v of
        PStr s \<Rightarrow>
          (if 1 \<le> length s \<and> length s \<le> 40
           then and_then (need (fromiso s) (SelectionError ''invalid_usage_timestamp''))
                  (\<lambda>parsed. sel_aware parsed ''invalid_usage_timestamp'')
           else Inl (SelectionError ''invalid_usage_timestamp''))
      | _ \<Rightarrow> Inl (SelectionError ''invalid_usage_timestamp''))"

definition normalize_usage_observation :: "iso_parser \<Rightarrow> pyval \<Rightarrow> UsageObservation option result" where
  "normalize_usage_observation fromiso payload =
     (case payload of
        PDict d \<Rightarrow>
          (if \<not> list_ex (\<lambda>f. map_of d f \<noteq> None) USAGE_FIELDS then Inr None
           else if \<not> set (map fst d) \<subseteq> set USAGE_FIELDS
           then Inl (SelectionError ''invalid_usage_payload'')
           else if \<not> list_all (\<lambda>f. map_of d f \<noteq> None) [''semantics'', ''unit'', ''value'',
                      ''reset_kind'', ''confidence'', ''observed_at'']
           then Inr None
           else
             and_then (usage_datetime fromiso (py_get d ''observed_at'' PNone)) (\<lambda>parsed.
             and_then (UsageObservation_init (py_get d ''semantics'' PNone) (py_get d ''unit'' PNone)
                (py_get d ''value'' PNone) (py_get d ''reset_kind'' PNone)
                (py_get d ''confidence'' PNone) parsed (py_get d ''stale_after_seconds'' (PInt 900)))
               (\<lambda>u. Inr (Some u))))
      | _ \<Rightarrow> Inl (SelectionError ''invalid_usage_payload''))"

subsection \<open>Limit windows\<close>

record LimitWindow =
  lw_window_id :: string
  lw_budget_key :: string
  lw_applies_to_model_ids :: "string list"
  lw_applies_to_model_roles :: "string list"
  lw_quantity_semantics :: string
  lw_quantity_unit :: string
  lw_quantity_value :: int
  lw_capacity :: "int option"
  lw_absolute_remaining :: "int option"
  lw_window_kind :: string
  lw_constraint_relation :: string
  lw_reset_at_utc :: "py_datetime option"
  lw_reset_kind :: "string option"
  lw_observed_at_utc :: py_datetime
  lw_source :: string
  lw_confidence :: string
  lw_includes_inflight_usage :: bool
  lw_blocked :: bool
  lw_exhausted :: bool

definition usage_text :: "pyval \<Rightarrow> nat \<Rightarrow> string \<Rightarrow> string result" where
  "usage_text v maximum code =
     (case v of
        PStr s \<Rightarrow> if text_ok maximum s then Inr s else Inl (SelectionError code)
      | _ \<Rightarrow> Inl (SelectionError code))"

text \<open>An optional quantity: \<open>None\<close>, or an integer (not a bool) between 0 and the maximum.\<close>

definition optional_quantity :: "pyval \<Rightarrow> string \<Rightarrow> int option result" where
  "optional_quantity v code =
     (if v = PNone then Inr None
      else and_then (need (py_bounded_int v 0 MAX_USAGE_QUANTITY) (SelectionError code))
             (\<lambda>n. Inr (Some n)))"

definition optional_reset_kind :: "pyval \<Rightarrow> string option result" where
  "optional_reset_kind v =
     (if v = PNone then Inr None
      else and_then (one_of v [''rolling'', ''fixed'', ''unanchored'']
                       (SelectionError ''invalid_usage_reset_kind'')) (\<lambda>s. Inr (Some s)))"

definition optional_aware :: "py_datetime option \<Rightarrow> py_datetime option result" where
  "optional_aware d =
     (case d of
        None \<Rightarrow> Inr None
      | Some t \<Rightarrow> and_then (sel_aware t ''invalid_usage_timestamp'') (\<lambda>t. Inr (Some t)))"

definition usage_flag :: "pyval \<Rightarrow> bool result" where
  "usage_flag v = need (py_bool v) (SelectionError ''invalid_usage_flags'')"

text \<open>
  \<open>LimitWindow(...)\<close> with its \<open>__post_init__\<close>, in the order of its checks. The first four and
  the timestamp arguments arrive already converted; the others are raw payload values.
\<close>

definition LimitWindow_init ::
  "string \<Rightarrow> string \<Rightarrow> string list \<Rightarrow> string list \<Rightarrow> pyval \<Rightarrow> pyval \<Rightarrow> pyval \<Rightarrow> pyval \<Rightarrow> pyval \<Rightarrow>
   pyval \<Rightarrow> pyval \<Rightarrow> py_datetime option \<Rightarrow> pyval \<Rightarrow> py_datetime \<Rightarrow> string \<Rightarrow> pyval \<Rightarrow> pyval \<Rightarrow>
   pyval \<Rightarrow> pyval \<Rightarrow> LimitWindow result" where
  "LimitWindow_init window_id budget_key model_ids model_roles semantics unit' qvalue cap
     absolute_remaining window_kind relation reset_at reset_kind observed_at src confidence
     inflight blocked exhausted =
     and_then (usage_text (PStr window_id) 128 ''invalid_usage_window_id'') (\<lambda>_.
     and_then (usage_text (PStr budget_key) 128 ''invalid_usage_budget_key'') (\<lambda>_.
     and_then (usage_text (PStr src) 64 ''invalid_usage_source'') (\<lambda>_.
     and_then (check (length model_ids \<le> 64 \<and> length model_roles \<le> 16)
                 (SelectionError ''invalid_usage_model_scope'')) (\<lambda>_.
     and_then (check (list_all (text_ok 128) (model_ids @ model_roles))
                 (SelectionError ''invalid_usage_model_scope'')) (\<lambda>_.
     and_then (one_of semantics [''remaining'', ''consumed'']
                 (SelectionError ''invalid_usage_semantics'')) (\<lambda>sem.
     and_then (one_of unit' [''percent'', ''tokens'', ''credits'', ''requests'']
                 (SelectionError ''invalid_usage_unit'')) (\<lambda>un.
     and_then (need (py_bounded_int qvalue 0 MAX_USAGE_QUANTITY)
                 (SelectionError ''invalid_usage_value'')) (\<lambda>q.
     and_then (check (\<not> (un = ''percent'' \<and> q > 100)) (SelectionError ''invalid_usage_value'')) (\<lambda>_.
     and_then (optional_quantity cap ''invalid_usage_capacity'') (\<lambda>c.
     and_then (optional_quantity absolute_remaining ''invalid_usage_remaining'') (\<lambda>rem.
     and_then (one_of window_kind [''rolling_5h'', ''rolling_unanchored'', ''fixed'']
                 (SelectionError ''invalid_usage_window_kind'')) (\<lambda>wk.
     and_then (one_of relation [''conjunctive'', ''alternative'']
                 (SelectionError ''invalid_usage_relation'')) (\<lambda>rel.
     and_then (optional_reset_kind reset_kind) (\<lambda>rk.
     and_then (sel_aware observed_at ''invalid_usage_timestamp'') (\<lambda>obs.
     and_then (optional_aware reset_at) (\<lambda>ra.
     and_then (one_of confidence [''verified'', ''observed'', ''unknown'']
                 (SelectionError ''invalid_usage_confidence'')) (\<lambda>conf.
     and_then (usage_flag inflight) (\<lambda>inf.
     and_then (usage_flag blocked) (\<lambda>bl.
     and_then (usage_flag exhausted) (\<lambda>ex.
       Inr \<lparr>lw_window_id = window_id, lw_budget_key = budget_key,
            lw_applies_to_model_ids = model_ids, lw_applies_to_model_roles = model_roles,
            lw_quantity_semantics = sem, lw_quantity_unit = un, lw_quantity_value = q,
            lw_capacity = c, lw_absolute_remaining = rem, lw_window_kind = wk,
            lw_constraint_relation = rel, lw_reset_at_utc = ra, lw_reset_kind = rk,
            lw_observed_at_utc = obs, lw_source = src, lw_confidence = conf,
            lw_includes_inflight_usage = inf, lw_blocked = bl, lw_exhausted = ex\<rparr>
     ))))))))))))))))))))"

definition lw_is_fresh :: "LimitWindow \<Rightarrow> py_datetime \<Rightarrow> int \<Rightarrow> bool result" where
  "lw_is_fresh w now max_age_seconds =
     and_then (sel_aware now ''invalid_selection_time'') (\<lambda>now.
       if \<not> (1 \<le> max_age_seconds \<and> max_age_seconds \<le> 86400)
       then Inl (SelectionError ''invalid_usage_freshness'')
       else (let age = instant now - instant (lw_observed_at_utc w)
             in Inr (0 \<le> age \<and> age \<le> max_age_seconds * us_per_second)))"

definition usable_for_sp1 :: "LimitWindow \<Rightarrow> py_datetime \<Rightarrow> int \<Rightarrow> bool result" where
  "usable_for_sp1 w now max_age_seconds =
     and_then (sel_aware now ''invalid_selection_time'') (\<lambda>now.
       if lw_quantity_semantics w = ''remaining'' \<and> lw_quantity_value w > 0 \<and>
          (lw_window_kind w = ''rolling_5h'' \<or> lw_window_kind w = ''fixed'') \<and>
          lw_constraint_relation w = ''conjunctive'' \<and> lw_confidence w = ''verified'' \<and>
          \<not> lw_blocked w \<and> \<not> lw_exhausted w \<and>
          (case lw_reset_at_utc w of None \<Rightarrow> True | Some r \<Rightarrow> instant r > instant now)
       then lw_is_fresh w now max_age_seconds else Inr False)"

text \<open>\<open>all(f(x) for x in xs)\<close> with a test that may raise, evaluated left to right.\<close>

fun all_result :: "('a \<Rightarrow> bool result) \<Rightarrow> 'a list \<Rightarrow> bool result" where
  "all_result f [] = Inr True"
| "all_result f (x # xs) = and_then (f x) (\<lambda>b. if b then all_result f xs else Inr False)"

definition usage_windows_usable_for_sp1 ::
  "LimitWindow list \<Rightarrow> py_datetime \<Rightarrow> int \<Rightarrow> bool result" where
  "usage_windows_usable_for_sp1 windows now max_age_seconds =
     (if windows = [] \<or> list_ex (\<lambda>w. lw_constraint_relation w \<noteq> ''conjunctive'') windows \<or>
         \<not> list_ex (\<lambda>w. lw_window_kind w = ''rolling_5h'') windows
      then Inr False
      else all_result (\<lambda>w. usable_for_sp1 w now max_age_seconds) windows)"

definition WINDOW_REQUIRED :: "string list" where
  "WINDOW_REQUIRED = [''window_id'', ''budget_key'', ''quantity_semantics'', ''quantity_unit'',
     ''quantity_value'', ''window_kind'', ''constraint_relation'', ''observed_at_utc'', ''source'',
     ''confidence'', ''includes_inflight_usage'', ''blocked'', ''exhausted'']"

definition WINDOW_ALLOWED :: "string list" where
  "WINDOW_ALLOWED = WINDOW_REQUIRED @ [''applies_to_model_ids'', ''applies_to_model_roles'',
     ''capacity'', ''absolute_remaining'', ''reset_at_utc'', ''reset_kind'']"

text \<open>One iteration of the loop over \<open>limit_windows\<close>, its arguments evaluated in order.\<close>

definition usage_window :: "iso_parser \<Rightarrow> pyval \<Rightarrow> LimitWindow result" where
  "usage_window fromiso raw =
     (case raw of
        PDict d \<Rightarrow>
          (if \<not> set (map fst d) \<subseteq> set WINDOW_ALLOWED \<or>
              \<not> list_all (\<lambda>f. map_of d f \<noteq> None) WINDOW_REQUIRED
           then Inl (SelectionError ''invalid_usage_window'')
           else
             (case (py_get d ''applies_to_model_ids'' (PList []),
                    py_get d ''applies_to_model_roles'' (PList [])) of
                (PList model_ids, PList model_roles) \<Rightarrow>
                  (let item = (\<lambda>k. py_get d k PNone) in
                   and_then (usage_text (item ''window_id'') 128 ''invalid_usage_window_id'') (\<lambda>wid.
                   and_then (usage_text (item ''budget_key'') 128 ''invalid_usage_budget_key'') (\<lambda>bk.
                   and_then (map_result (\<lambda>v. usage_text v 128 ''invalid_usage_model_scope'') model_ids)
                     (\<lambda>ids.
                   and_then (map_result (\<lambda>v. usage_text v 128 ''invalid_usage_model_scope'') model_roles)
                     (\<lambda>roles.
                   and_then (if item ''reset_at_utc'' = PNone then Inr None
                             else and_then (usage_datetime fromiso (item ''reset_at_utc''))
                                    (\<lambda>t. Inr (Some t))) (\<lambda>ra.
                   and_then (usage_datetime fromiso (item ''observed_at_utc'')) (\<lambda>obs.
                   and_then (usage_text (item ''source'') 64 ''invalid_usage_source'') (\<lambda>src.
                     LimitWindow_init wid bk ids roles (item ''quantity_semantics'')
                       (item ''quantity_unit'') (item ''quantity_value'') (item ''capacity'')
                       (item ''absolute_remaining'') (item ''window_kind'')
                       (item ''constraint_relation'') ra (item ''reset_kind'') obs src
                       (item ''confidence'') (item ''includes_inflight_usage'') (item ''blocked'')
                       (item ''exhausted'')))))))))
              | _ \<Rightarrow> Inl (SelectionError ''invalid_usage_model_scope'')))
      | _ \<Rightarrow> Inl (SelectionError ''invalid_usage_window''))"

definition normalize_usage_v2 :: "iso_parser \<Rightarrow> pyval \<Rightarrow> LimitWindow list option result" where
  "normalize_usage_v2 fromiso payload =
     (case payload of
        PDict d \<Rightarrow>
          (let version = py_get d ''schema_version'' (PInt 1) in
           if py_eq_int version 1 then Inr None
           else if \<not> py_eq_int version 2 \<or>
                   \<not> set (map fst d) \<subseteq> set [''schema_version'', ''limit_windows'']
           then Inl (SelectionError ''invalid_usage_payload'')
           else
             (case py_get d ''limit_windows'' PNone of
                PList raw_windows \<Rightarrow>
                  (if length raw_windows > MAX_USAGE_WINDOWS
                   then Inl (SelectionError ''invalid_usage_windows'')
                   else and_then (map_result (usage_window fromiso) raw_windows) (\<lambda>ws. Inr (Some ws)))
              | _ \<Rightarrow> Inl (SelectionError ''invalid_usage_windows'')))
      | _ \<Rightarrow> Inl (SelectionError ''invalid_usage_payload''))"

end
