(* ===== verification/Hive_Contracts.thy ===== *)
theory Hive_Contracts
  imports Hive_Types
begin

text \<open>
  The contracts that several components share, as locales: an ordering key that identifies its
  item, a store updated under a version check, and a transition graph with a region that is left
  for good. Each is interpreted on the definitions of the components that promise it.
\<close>

subsection \<open>A key that identifies its item\<close>

locale identifying_key =
  fixes key :: "'a \<Rightarrow> 'k::linorder"
    and ident :: "'a \<Rightarrow> 'i"
    and proper :: "'a \<Rightarrow> bool"
  assumes key_ident: "proper x \<Longrightarrow> proper y \<Longrightarrow> key x = key y \<Longrightarrow> ident x = ident y"
begin

lemma key_inj_on:
  assumes "distinct (map ident xs)" and "list_all proper xs"
  shows "inj_on key (set xs)"
proof (rule inj_onI)
  fix x y
  assume xy: "x \<in> set xs" "y \<in> set xs" and "key x = key y"
  with assms(2) have "ident x = ident y" by (auto simp: list_all_iff intro: key_ident)
  with assms(1) xy show "x = y" by (metis distinct_map inj_onD)
qed

lemma min_by_perm:
  assumes perm: "mset xs = mset ys" and dist: "distinct (map ident xs)" and ok: "list_all proper xs"
  shows "min_by key xs = min_by key ys"
proof (cases "min_by key xs")
  case None
  then have "xs = []" by simp
  with perm have "ys = []" by simp
  with \<open>xs = []\<close> show ?thesis by simp
next
  case (Some x)
  then have "xs \<noteq> []" by auto
  with perm have "ys \<noteq> []" by auto
  then obtain y where y: "min_by key ys = Some y" by (cases "min_by key ys") auto
  have sets: "set xs = set ys" using perm by (rule mset_eq_setD)
  have "x \<in> set xs" "y \<in> set xs"
    using min_by_mem [OF Some] min_by_mem [OF y] sets by auto
  moreover have "key x = key y"
    using min_by_least [OF Some, of y] min_by_least [OF y, of x] calculation sets by auto
  ultimately have "x = y" using key_inj_on [OF dist ok] by (auto dest: inj_onD)
  with Some y show ?thesis by simp
qed

lemma sort_key_perm:
  assumes perm: "mset xs = mset ys" and dist: "distinct (map ident xs)" and ok: "list_all proper xs"
  shows "sort_key key xs = sort_key key ys"
proof (rule map_inj_on)
  have sets: "set xs = set ys" using perm by (rule mset_eq_setD)
  show "inj_on key (set (sort_key key xs) \<union> set (sort_key key ys))"
    using key_inj_on [OF dist ok] sets by simp
  have "sort (map key xs) = map key (sort_key key xs)"
    by (rule properties_for_sort) simp_all
  moreover have "sort (map key xs) = map key (sort_key key ys)"
    by (rule properties_for_sort) (simp_all add: perm)
  ultimately show "map key (sort_key key xs) = map key (sort_key key ys)" by simp
qed

end

subsection \<open>A region that is left for good\<close>

locale one_way =
  fixes edge :: "'s \<Rightarrow> 's \<Rightarrow> bool"
    and live :: "'s \<Rightarrow> bool"
  assumes dead_stays: "edge x y \<Longrightarrow> \<not> live x \<Longrightarrow> \<not> live y"
begin

lemma dead_forever: "edge\<^sup>*\<^sup>* x y \<Longrightarrow> \<not> live x \<Longrightarrow> \<not> live y"
  by (induction rule: rtranclp_induct) (auto dest: dead_stays)

lemma live_path: "edge\<^sup>*\<^sup>* x y \<Longrightarrow> live y \<Longrightarrow> live x"
  using dead_forever by blast

end

subsection \<open>Updates under a version check\<close>

text \<open>Running a list of requests \<open>(id, expected version, argument)\<close>, with the outcome of each.\<close>

fun run_puts ::
  "('i \<Rightarrow> int \<Rightarrow> 'a \<Rightarrow> ('s, 'r) op) \<Rightarrow> ('i \<times> int \<times> 'a) list \<Rightarrow> 's \<Rightarrow> ('i \<times> bool) list \<times> 's" where
  "run_puts put [] s = ([], s)"
| "run_puts put ((i, v, a) # xs) s =
     (case put i v a s of
        (r, s1) \<Rightarrow> (case run_puts put xs s1 of (rs, s2) \<Rightarrow> ((i, is_ok r) # rs, s2)))"

definition successes :: "'i \<Rightarrow> ('i \<times> bool) list \<Rightarrow> nat" where
  "successes i rs = length (filter (\<lambda>(j, b). j = i \<and> b) rs)"

locale versioned_store =
  fixes put :: "'i \<Rightarrow> int \<Rightarrow> 'a \<Rightarrow> ('s, 'r) op"
    and ver :: "'s \<Rightarrow> 'i \<Rightarrow> int option"
    and ok :: "'s \<Rightarrow> bool"
  assumes put_checked: "ok s \<Longrightarrow> put i v a s = (Inr r, s') \<Longrightarrow> ver s i = Some v"
    and put_bumps: "ok s \<Longrightarrow> put i v a s = (Inr r, s') \<Longrightarrow> ver s' i = Some (v + 1)"
    and put_frame: "ok s \<Longrightarrow> put i v a s = (res, s') \<Longrightarrow> j \<noteq> i \<Longrightarrow> ver s' j = ver s j"
    and put_error: "put i v a s = (Inl e, s') \<Longrightarrow> s' = s"
    and put_ok: "ok s \<Longrightarrow> put i v a s = (res, s') \<Longrightarrow> ok s'"
begin

lemma no_lost_update:
  assumes "ok s" and "put i v a s = (Inr r, s')"
  shows "\<exists>e. put i v b s' = (Inl e, s')"
proof -
  obtain r2 s2 where p: "put i v b s' = (r2, s2)" by (cases "put i v b s'")
  have "ok s'" and "ver s' i = Some (v + 1)"
    using assms put_ok put_bumps by blast+
  then have "r2 \<noteq> Inr x" for x using put_checked p by fastforce
  with p show ?thesis using put_error by (cases r2) auto
qed

lemma version_counts:
  "ok s \<Longrightarrow> ver s i = Some n \<Longrightarrow> run_puts put xs s = (rs, s') \<Longrightarrow>
     ok s' \<and> ver s' i = Some (n + int (successes i rs))"
proof (induction xs arbitrary: s n rs)
  case Nil
  then show ?case by (simp add: successes_def)
next
  case (Cons x xs)
  obtain j v a where x: "x = (j, v, a)" by (cases x)
  obtain r s1 where p: "put j v a s = (r, s1)" by (cases "put j v a s")
  obtain rs' where run: "run_puts put xs s1 = (rs', s')" and rs: "rs = (j, is_ok r) # rs'"
    using Cons.prems(3) x p by (auto split: prod.splits)
  have ok1: "ok s1" using Cons.prems(1) p by (rule put_ok)
  show ?case
  proof (cases r)
    case (Inl e)
    then have "s1 = s" using p put_error by blast
    then show ?thesis
      using Cons.IH [OF ok1 _ run] Cons.prems(2) Inl rs by (simp add: successes_def)
  next
    case (Inr y)
    have "ver s1 i = Some (if j = i then n + 1 else n)"
      using put_bumps put_checked put_frame Cons.prems(1,2) p Inr by fastforce
    then show ?thesis
      using Cons.IH [OF ok1 _ run] Inr rs by (simp add: successes_def)
  qed
qed

lemma none_after:
  assumes "ok s" and "ver s i = Some m" and "v < m" and "run_puts put xs s = (rs, s')"
    and "\<forall>(j, w, a) \<in> set xs. j = i \<longrightarrow> w = v"
  shows "successes i rs = 0"
  using assms
proof (induction xs arbitrary: s rs)
  case Nil
  then show ?case by (simp add: successes_def)
next
  case (Cons x xs)
  obtain j w a where x: "x = (j, w, a)" by (cases x)
  obtain r s1 where p: "put j w a s = (r, s1)" by (cases "put j w a s")
  obtain rs' where run: "run_puts put xs s1 = (rs', s')" and rs: "rs = (j, is_ok r) # rs'"
    using Cons.prems(4) x p by (auto split: prod.splits)
  have ok1: "ok s1" using Cons.prems(1) p by (rule put_ok)
  have no: "\<not> (j = i \<and> is_ok r)"
  proof
    assume j: "j = i \<and> is_ok r"
    then obtain y where "r = Inr y" by (cases r) auto
    with p j have "ver s i = Some w" using put_checked Cons.prems(1) by blast
    moreover have "w = v" using Cons.prems(5) x j by auto
    ultimately show False using Cons.prems(2,3) by simp
  qed
  have "ver s1 i = Some m"
  proof (cases r)
    case (Inl e)
    then show ?thesis using p put_error Cons.prems(2) by blast
  next
    case (Inr y)
    with no have "j \<noteq> i" by auto
    then show ?thesis using put_frame [OF Cons.prems(1) p] Cons.prems(2) by simp
  qed
  then have "successes i rs' = 0"
    using Cons.IH [OF ok1 _ Cons.prems(3) run] Cons.prems(5) by simp
  with no rs show ?case by (auto simp: successes_def)
qed

text \<open>Of any number of requests for one item that hold the same version, at most one succeeds.\<close>

lemma at_most_one_success:
  assumes "ok s" and "run_puts put xs s = (rs, s')" and "\<forall>(j, w, a) \<in> set xs. j = i \<longrightarrow> w = v"
  shows "successes i rs \<le> 1"
  using assms
proof (induction xs arbitrary: s rs)
  case Nil
  then show ?case by (simp add: successes_def)
next
  case (Cons x xs)
  obtain j w a where x: "x = (j, w, a)" by (cases x)
  obtain r s1 where p: "put j w a s = (r, s1)" by (cases "put j w a s")
  obtain rs' where run: "run_puts put xs s1 = (rs', s')" and rs: "rs = (j, is_ok r) # rs'"
    using Cons.prems(2) x p by (auto split: prod.splits)
  have ok1: "ok s1" using Cons.prems(1) p by (rule put_ok)
  have same: "\<forall>(j, w, a) \<in> set xs. j = i \<longrightarrow> w = v" using Cons.prems(3) by simp
  show ?case
  proof (cases "j = i \<and> is_ok r")
    case False
    then show ?thesis using Cons.IH [OF ok1 run same] rs by (auto simp: successes_def)
  next
    case True
    then obtain y where y: "r = Inr y" by (cases r) auto
    have "ver s1 i = Some (v + 1)" using put_bumps Cons.prems(1,3) p True x y by fastforce
    then have "successes i rs' = 0" using none_after [OF ok1 _ _ run same] by simp
    then show ?thesis using rs by (simp add: successes_def)
  qed
qed

end

end
