(* ===== verification/Selection_Planner.thy ===== *)
theory Selection_Planner
  imports Selection Hive_Contracts
begin

text \<open>
  The second half of \<open>selection.py\<close>: the fairness ledger, the candidates with their feature
  bands and ordering key, the selection preview and the admission preview.
\<close>

subsection \<open>Fairness\<close>

record FairnessRecord =
  fr_service_micro :: int
  fr_capacity_weight_micro :: int
  fr_last_updated :: py_datetime
  fr_last_selected :: "py_datetime option"

definition FairnessRecord_init ::
  "int \<Rightarrow> int \<Rightarrow> py_datetime \<Rightarrow> py_datetime option \<Rightarrow> FairnessRecord result" where
  "FairnessRecord_init service_micro capacity_weight_micro last_updated last_selected =
     and_then (check (0 \<le> service_micro \<and> service_micro \<le> MAX_SERVICE_MICRO)
                 (SelectionError ''invalid_fairness_service'')) (\<lambda>_.
     and_then (check (0 \<le> capacity_weight_micro \<and> capacity_weight_micro \<le> MAX_SERVICE_MICRO)
                 (SelectionError ''invalid_fairness_capacity'')) (\<lambda>_.
     and_then (sel_aware last_updated ''invalid_fairness_timestamp'') (\<lambda>_.
     and_then (case last_selected of None \<Rightarrow> Inr ()
               | Some t \<Rightarrow> check (aware t) (SelectionError ''invalid_fairness_timestamp'')) (\<lambda>_.
       Inr \<lparr>fr_service_micro = service_micro, fr_capacity_weight_micro = capacity_weight_micro,
            fr_last_updated = last_updated, fr_last_selected = last_selected\<rparr>))))"

text \<open>The loop \<open>for _ in range(periods): value //= 2\<close>.\<close>

fun halve_times :: "nat \<Rightarrow> int \<Rightarrow> int" where
  "halve_times 0 v = v"
| "halve_times (Suc n) v = halve_times n (v div 2)"

text \<open>The body of \<open>decayed_service\<close> once the elapsed seconds are known.\<close>

definition decay :: "int \<Rightarrow> int \<Rightarrow> int" where
  "decay service_micro elapsed =
     (let periods = elapsed div HALF_LIFE_SECONDS; remainder = elapsed mod HALF_LIFE_SECONDS
      in if periods \<ge> 64 then 0
         else
           (let v = halve_times (nat periods) service_micro;
                factor = MICRO - (remainder * MICRO div (2 * HALF_LIFE_SECONDS))
            in v * factor div MICRO))"

definition decayed_service :: "FairnessRecord \<Rightarrow> py_datetime \<Rightarrow> int result" where
  "decayed_service r now =
     and_then (sel_aware now ''invalid_selection_time'') (\<lambda>now.
       (let elapsed = max 0 (trunc_seconds (instant now - instant (fr_last_updated r)))
        in Inr (decay (fr_service_micro r) elapsed)))"

definition fr_normalized_service :: "FairnessRecord \<Rightarrow> py_datetime \<Rightarrow> int result" where
  "fr_normalized_service r now =
     (let cap = max (fr_capacity_weight_micro r) 1
      in and_then (decayed_service r now) (\<lambda>d. Inr (min MAX_SERVICE_MICRO (d * MICRO div cap))))"

type_synonym FairnessLedger = "(string, FairnessRecord) dict"

definition normalized_service :: "FairnessLedger \<Rightarrow> string \<Rightarrow> py_datetime \<Rightarrow> int result" where
  "normalized_service records account_key now =
     (case map_of records account_key of
        Some r \<Rightarrow> fr_normalized_service r now
      | None \<Rightarrow>
          and_then (map_result (\<lambda>(_, r). fr_normalized_service r now) records) (\<lambda>vs.
            (let known = sort vs
             in if known = [] then Inr 0 else Inr (known ! ((length known - 1) div 2)))))"

definition last_selected_epoch :: "FairnessLedger \<Rightarrow> string \<Rightarrow> int" where
  "last_selected_epoch records account_key =
     (case map_of records account_key of
        None \<Rightarrow> - 1
      | Some r \<Rightarrow> (case fr_last_selected r of None \<Rightarrow> - 1 | Some t \<Rightarrow> timestamp_seconds t))"

subsection \<open>Policies, candidates, results\<close>

record SelectionPolicy =
  sp0 :: bool
  sp1a :: bool
  sp1b :: bool
  sp2 :: bool
  sp3 :: bool

record SelectionCandidate =
  sc_agent_id :: string
  sc_account_key :: string
  sc_model_id :: string
  sc_task_kind :: TaskKind
  sc_model_role :: ModelRole
  sc_enabled :: bool
  sc_authenticated :: bool
  sc_account_ready :: bool
  sc_account_capacity_available :: bool
  sc_model_capacity_available :: bool
  sc_lease_available :: bool
  sc_usage :: "UsageObservation option"
  sc_sp1a_eligible :: bool
  sc_sp1b_eligible :: bool
  sc_sp2_eligible :: bool
  sc_sp1a_bucket :: int
  sc_sp1b_bucket :: int
  sc_sp2_bucket :: int
  sc_repository_affinity :: int
  sc_warm_home :: bool
  sc_recent_failure :: bool
  sc_rotation_distance :: int

text \<open>\<open>SelectionCandidate.__post_init__\<close> on a candidate with well-typed fields.\<close>

definition SelectionCandidate_init :: "SelectionCandidate \<Rightarrow> SelectionCandidate result" where
  "SelectionCandidate_init c =
     (if \<not> list_all (text_ok 128) [sc_agent_id c, sc_account_key c, sc_model_id c]
      then Inl (SelectionError ''invalid_selection_candidate'')
      else if \<not> list_all (\<lambda>n. 0 \<le> n) [sc_sp1a_bucket c, sc_sp1b_bucket c, sc_sp2_bucket c,
                 sc_repository_affinity c, sc_rotation_distance c]
      then Inl (SelectionError ''invalid_selection_bucket'')
      else Inr c)"

record SelectionResult =
  sr_agent_id :: string
  sr_model_id :: string
  sr_band :: SelectionBand
  sr_fairness_micro :: int
  sr_account_pool_binding :: "AccountPoolBindingV1 option"

record SelectionPreview =
  pv_selected :: "SelectionResult option"
  pv_eligible_count :: nat
  pv_exclusions :: "(string \<times> string) list"

record AdmissionPolicy =
  ap_mode :: AdmissionMode
  ap_pilot_repository_allowed :: bool
  ap_principal_verified :: bool
  ap_scope_allowed :: bool
  ap_account_verified :: bool
  ap_model_verified :: bool
  ap_reservation_available :: bool
  ap_execute_enabled :: bool

definition missing_gates :: "AdmissionPolicy \<Rightarrow> string list" where
  "missing_gates p =
     map fst (filter (\<lambda>(_, enabled). \<not> enabled)
       [(''pilot_repository'', ap_pilot_repository_allowed p),
        (''principal'', ap_principal_verified p), (''scope'', ap_scope_allowed p),
        (''account'', ap_account_verified p), (''model'', ap_model_verified p),
        (''reservation'', ap_reservation_available p), (''execute'', ap_execute_enabled p)])"

record AdmissionPreview =
  av_selection :: SelectionPreview
  av_mode :: AdmissionMode
  av_planned :: bool
  av_executable :: bool
  av_reason :: string
  av_missing_gates :: "string list"

text \<open>\<open>AdmissionPreview(...)\<close> with its \<open>__post_init__\<close>.\<close>

definition AdmissionPreview_init ::
  "SelectionPreview \<Rightarrow> AdmissionMode \<Rightarrow> bool \<Rightarrow> bool \<Rightarrow> string \<Rightarrow> string list \<Rightarrow>
   AdmissionPreview result" where
  "AdmissionPreview_init sel mode planned executable reason missing =
     (if reason = [] \<or> list_ex (\<lambda>g. g = []) missing \<or> (executable \<and> \<not> planned)
      then Inl (SelectionError ''invalid_admission_preview'')
      else Inr \<lparr>av_selection = sel, av_mode = mode, av_planned = planned,
                av_executable = executable, av_reason = reason, av_missing_gates = missing\<rparr>)"

subsection \<open>Eligibility, band, key\<close>

definition eligibility_reason :: "SelectionCandidate \<Rightarrow> string option" where
  "eligibility_reason c =
     (if \<not> sc_enabled c then Some ''disabled''
      else if \<not> sc_authenticated c then Some ''unauthenticated''
      else if \<not> sc_account_ready c then Some ''account_unready''
      else if \<not> sc_account_capacity_available c then Some ''account_capacity''
      else if \<not> sc_model_capacity_available c then Some ''model_capacity''
      else if \<not> sc_lease_available c then Some ''lease_busy''
      else if sc_task_kind c \<noteq> TK_SIMPLE \<and> sc_model_role c = SECONDARY_SIMPLE
      then Some ''secondary_requires_simple_task''
      else None)"

definition band :: "SelectionCandidate \<Rightarrow> SelectionPolicy \<Rightarrow> py_datetime \<Rightarrow> SelectionBand option result" where
  "band c policy now =
     and_then (case sc_usage c of
                 Some u \<Rightarrow> if sp0 policy then is_passive_sp0_due u now else Inr False
               | None \<Rightarrow> Inr False) (\<lambda>due.
       if due then Inr (Some SP0)
       else if sp1a policy \<and> sc_sp1a_eligible c then Inr (Some SP1A)
       else if sp1b policy \<and> sc_sp1b_eligible c then Inr (Some SP1B)
       else if sp2 policy \<and> sc_sp2_eligible c \<and> sc_task_kind c = TK_SIMPLE \<and>
               sc_model_role c = SECONDARY_SIMPLE then Inr (Some SP2)
       else if sp3 policy then Inr (Some SP3)
       else Inr None)"

type_synonym selection_key =
  "int \<times> int \<times> int \<times> int \<times> int \<times> int \<times> int \<times> int \<times> int \<times> string"

definition bucket_of :: "SelectionCandidate \<Rightarrow> SelectionBand \<Rightarrow> int" where
  "bucket_of c b =
     (case b of SP1A \<Rightarrow> sc_sp1a_bucket c | SP1B \<Rightarrow> sc_sp1b_bucket c | SP2 \<Rightarrow> sc_sp2_bucket c
      | _ \<Rightarrow> 0)"

definition candidate_key ::
  "SelectionCandidate \<Rightarrow> SelectionBand \<Rightarrow> FairnessLedger \<Rightarrow> py_datetime \<Rightarrow> selection_key result" where
  "candidate_key c b ledger now =
     (let due_since = (case (b, sc_usage c) of
                         (SP0, Some u) \<Rightarrow> timestamp_seconds (uo_observed_at u)
                       | _ \<Rightarrow> 2 ^ 63 - 1)
      in and_then (normalized_service ledger (sc_account_key c) now) (\<lambda>service.
           Inr (BAND_RANK b, due_since, bucket_of c b, service,
                last_selected_epoch ledger (sc_account_key c), - sc_repository_affinity c,
                - (if sc_warm_home c then 1 else 0), (if sc_recent_failure c then 1 else 0),
                sc_rotation_distance c, sc_agent_id c)))"

subsection \<open>Preview\<close>

type_synonym eligible = "selection_key \<times> SelectionCandidate \<times> SelectionBand"

text \<open>The loop over the candidates: the eligible ones with key and band, and the exclusions.\<close>

fun preview_loop ::
  "SelectionPolicy \<Rightarrow> py_datetime \<Rightarrow> FairnessLedger \<Rightarrow> SelectionCandidate list \<Rightarrow>
   (eligible list \<times> (string \<times> string) list) result" where
  "preview_loop policy now ledger [] = Inr ([], [])"
| "preview_loop policy now ledger (c # cs) =
     (case eligibility_reason c of
        Some reason \<Rightarrow>
          and_then (preview_loop policy now ledger cs) (\<lambda>(el, ex).
            Inr (el, (sc_agent_id c, reason) # ex))
      | None \<Rightarrow>
          and_then (band c policy now) (\<lambda>b.
            (case b of
               None \<Rightarrow>
                 and_then (preview_loop policy now ledger cs) (\<lambda>(el, ex).
                   Inr (el, (sc_agent_id c, ''feature_disabled'') # ex))
             | Some b \<Rightarrow>
                 and_then (candidate_key c b ledger now) (\<lambda>k.
                 and_then (preview_loop policy now ledger cs) (\<lambda>(el, ex).
                   Inr ((k, c, b) # el, ex))))))"

definition preview_selection ::
  "SelectionCandidate list \<Rightarrow> SelectionPolicy \<Rightarrow> py_datetime \<Rightarrow> FairnessLedger option \<Rightarrow>
   SelectionPreview result" where
  "preview_selection candidates policy now ledger_opt =
     and_then (sel_aware now ''invalid_selection_time'') (\<lambda>now.
       (let ledger = (case ledger_opt of None \<Rightarrow> [] | Some l \<Rightarrow> l) in
        and_then (preview_loop policy now ledger candidates) (\<lambda>(eligible, exclusions).
          (case min_by fst eligible of
             None \<Rightarrow>
               Inr \<lparr>pv_selected = None, pv_eligible_count = 0, pv_exclusions = exclusions\<rparr>
           | Some (_, c, b) \<Rightarrow>
               and_then (normalized_service ledger (sc_account_key c) now) (\<lambda>service.
                 Inr \<lparr>pv_selected = Some \<lparr>sr_agent_id = sc_agent_id c, sr_model_id = sc_model_id c,
                        sr_band = b, sr_fairness_micro = service, sr_account_pool_binding = None\<rparr>,
                      pv_eligible_count = length eligible, pv_exclusions = exclusions\<rparr>)))))"

definition preview_selection_admission ::
  "SelectionCandidate list \<Rightarrow> SelectionPolicy \<Rightarrow> AdmissionPolicy \<Rightarrow> py_datetime \<Rightarrow>
   FairnessLedger option \<Rightarrow> AdmissionPreview result" where
  "preview_selection_admission candidates selection_policy admission_policy now ledger =
     and_then (preview_selection candidates selection_policy now ledger) (\<lambda>sel.
       (let missing = missing_gates admission_policy; mode = ap_mode admission_policy in
        if mode = MODE_OFF
        then AdmissionPreview_init sel mode False False ''admission_disabled'' missing
        else if pv_selected sel = None
        then AdmissionPreview_init sel mode False False ''no_eligible_candidate'' missing
        else if mode = MODE_SHADOW
        then AdmissionPreview_init sel mode True False ''shadow_only'' missing
        else if missing \<noteq> []
        then AdmissionPreview_init sel mode False False ''admission_gate_blocked'' missing
        else AdmissionPreview_init sel mode True True ''admitted'' []))"

text \<open>\<open>resolve_dynamic_pool_selection\<close> of \<open>dynamic_pool.py\<close>, on a selection result.\<close>

definition resolve_dynamic_pool_selection ::
  "SelectionResult \<Rightarrow> DynamicPoolInventoryV1 \<Rightarrow> SelectionResult result" where
  "resolve_dynamic_pool_selection selection inventory =
     and_then (entry_for inventory (sr_agent_id selection)) (\<lambda>entry.
     and_then (make_account_pool_binding_v1 (PStr (pb_account_id entry)) (PStr (pb_pool_id entry))
                 (PStr (pb_authority_provider entry)) (opt_str (pb_runtime_provider entry))) (\<lambda>b.
       Inr (selection\<lparr>sr_account_pool_binding := Some b\<rparr>)))"

subsection \<open>Fairness decay\<close>

lemma halve_times_eq: "halve_times n v = v div 2 ^ n"
  by (induction n arbitrary: v) (simp_all add: zdiv_zmult2_eq)

definition decay_factor :: "int \<Rightarrow> int" where
  "decay_factor remainder = MICRO - (remainder * MICRO div (2 * HALF_LIFE_SECONDS))"

lemma decay_unfold:
  "decay v e =
     (if e div HALF_LIFE_SECONDS \<ge> 64 then 0
      else (v div 2 ^ nat (e div HALF_LIFE_SECONDS)) *
           decay_factor (e mod HALF_LIFE_SECONDS) div MICRO)"
  by (simp add: decay_def decay_factor_def halve_times_eq Let_def)

lemma decay_factor_bounds:
  assumes "0 \<le> r" "r < HALF_LIFE_SECONDS"
  shows "MICRO div 2 \<le> decay_factor r" "decay_factor r \<le> MICRO"
proof -
  have "r * MICRO div (2 * HALF_LIFE_SECONDS) \<le> (HALF_LIFE_SECONDS * MICRO) div (2 * HALF_LIFE_SECONDS)"
    using assms by (intro zdiv_mono1) (auto simp: MICRO_def HALF_LIFE_SECONDS_def)
  then show "MICRO div 2 \<le> decay_factor r"
    by (simp add: decay_factor_def MICRO_def HALF_LIFE_SECONDS_def)
  have "0 \<le> r * MICRO div (2 * HALF_LIFE_SECONDS)"
    using assms by (simp add: pos_imp_zdiv_nonneg_iff MICRO_def HALF_LIFE_SECONDS_def)
  then show "decay_factor r \<le> MICRO" by (simp add: decay_factor_def)
qed

lemma decay_factor_antimono:
  "r \<le> s \<Longrightarrow> decay_factor s \<le> decay_factor r"
  by (simp add: decay_factor_def zdiv_mono1 MICRO_def HALF_LIFE_SECONDS_def)

lemma half_life_pos [simp]: "0 < HALF_LIFE_SECONDS"
  by (simp add: HALF_LIFE_SECONDS_def)

lemma scaled_bounds:
  fixes w :: int
  assumes "0 \<le> w" "MICRO div 2 \<le> f" "f \<le> MICRO"
  shows "w div 2 \<le> w * f div MICRO" "w * f div MICRO \<le> w"
proof -
  have "w * (MICRO div 2) div MICRO \<le> w * f div MICRO"
    using assms by (intro zdiv_mono1 mult_left_mono) (auto simp: MICRO_def)
  then show "w div 2 \<le> w * f div MICRO" by (simp add: MICRO_def)
  have "w * f div MICRO \<le> w * MICRO div MICRO"
    using assms by (intro zdiv_mono1 mult_left_mono) (auto simp: MICRO_def)
  then show "w * f div MICRO \<le> w" by (simp add: MICRO_def)
qed

lemma decay_between_anchors:
  assumes "0 \<le> v" "0 \<le> e" "e div HALF_LIFE_SECONDS < 64"
  shows "v div 2 ^ Suc (nat (e div HALF_LIFE_SECONDS)) \<le> decay v e"
    and "decay v e \<le> v div 2 ^ nat (e div HALF_LIFE_SECONDS)"
proof -
  let ?w = "v div 2 ^ nat (e div HALF_LIFE_SECONDS)"
  have w: "0 \<le> ?w" using assms(1) by (simp add: pos_imp_zdiv_nonneg_iff)
  note f = decay_factor_bounds [of "e mod HALF_LIFE_SECONDS"]
  have eq: "decay v e = ?w * decay_factor (e mod HALF_LIFE_SECONDS) div MICRO"
    using assms(3) by (simp add: decay_unfold)
  have "?w div 2 = v div 2 ^ Suc (nat (e div HALF_LIFE_SECONDS))"
    by (metis mult.commute power_Suc zdiv_zmult2_eq zero_le_numeral zero_le_power)
  then show "v div 2 ^ Suc (nat (e div HALF_LIFE_SECONDS)) \<le> decay v e"
    using scaled_bounds(1) [OF w f] by (simp add: eq)
  show "decay v e \<le> ?w" using scaled_bounds(2) [OF w f] by (simp add: eq)
qed

lemma div_power_bounds:
  fixes v :: int
  assumes "0 \<le> v"
  shows "0 \<le> v div 2 ^ n" "v div 2 ^ n \<le> v"
  using assms zdiv_mono2 [of v 1 "2 ^ n"] by (simp_all add: pos_imp_zdiv_nonneg_iff)

lemma div_power_antimono:
  fixes v :: int
  assumes "0 \<le> v" "m \<le> n"
  shows "v div 2 ^ n \<le> v div 2 ^ m"
  using assms by (intro zdiv_mono2) (simp_all add: power_increasing)

lemma decay_bounds:
  assumes "0 \<le> v" "0 \<le> e"
  shows "0 \<le> decay v e" "decay v e \<le> v"
proof -
  have "0 \<le> decay v e \<and> decay v e \<le> v"
  proof (cases "e div HALF_LIFE_SECONDS < 64")
    case True
    from decay_between_anchors [OF assms True] show ?thesis
      using div_power_bounds [OF assms(1)] by (meson order_trans)
  next
    case False
    with assms show ?thesis by (simp add: decay_unfold)
  qed
  then show "0 \<le> decay v e" "decay v e \<le> v" by auto
qed

lemma decay_antimono:
  assumes v: "0 \<le> v" and e: "0 \<le> e" "e \<le> e'"
  shows "decay v e' \<le> decay v e"
proof -
  let ?p = "e div HALF_LIFE_SECONDS" and ?p' = "e' div HALF_LIFE_SECONDS"
  have le: "?p \<le> ?p'" and e': "0 \<le> e'" and p0: "0 \<le> ?p"
    using e by (simp_all add: zdiv_mono1 pos_imp_zdiv_nonneg_iff)
  consider (cut) "64 \<le> ?p'" | (same) "?p' < 64" "?p = ?p'" | (later) "?p' < 64" "?p < ?p'"
    using le by linarith
  then show ?thesis
  proof cases
    case cut
    then have "decay v e' = 0" by (simp add: decay_unfold)
    then show ?thesis using decay_bounds(1) [OF v e(1)] by simp
  next
    case same
    have "e mod HALF_LIFE_SECONDS \<le> e' mod HALF_LIFE_SECONDS"
      using e(2) same(2) by (metis add_le_cancel_left mult_div_mod_eq)
    then have "decay_factor (e' mod HALF_LIFE_SECONDS) \<le> decay_factor (e mod HALF_LIFE_SECONDS)"
      by (rule decay_factor_antimono)
    then show ?thesis
      using same v by (simp add: decay_unfold zdiv_mono1 mult_left_mono div_power_bounds MICRO_def)
  next
    case later
    have "decay v e' \<le> v div 2 ^ nat ?p'"
      using decay_between_anchors(2) [OF v e'] later by simp
    also have "\<dots> \<le> v div 2 ^ Suc (nat ?p)"
      using later p0 by (intro div_power_antimono [OF v]) linarith
    also have "\<dots> \<le> decay v e"
      using decay_between_anchors(1) [OF v e(1)] later by simp
    finally show ?thesis .
  qed
qed

lemma decayed_service_aware:
  "aware now \<Longrightarrow> decayed_service r now =
     Inr (decay (fr_service_micro r) (max 0 (trunc_seconds (instant now - instant (fr_last_updated r)))))"
  by (simp add: decayed_service_def sel_aware_def)

text \<open>
  The recorded service of an account never grows by waiting: at every later selection time the
  decayed service is at most the earlier one, and it always lies between zero and the recorded
  service. Times before the last update count as no time elapsed.
\<close>

theorem decayed_service_antimono:
  assumes "0 \<le> fr_service_micro r" and "aware now" and "aware later"
    and "instant now \<le> instant later"
  shows "\<exists>d d'. decayed_service r now = Inr d \<and> decayed_service r later = Inr d' \<and>
           0 \<le> d' \<and> d' \<le> d \<and> d \<le> fr_service_micro r"
proof -
  let ?e = "\<lambda>t. max 0 (trunc_seconds (instant t - instant (fr_last_updated r)))"
  have "?e now \<le> ?e later" using assms(4) by (intro max.mono trunc_seconds_mono) simp_all
  then show ?thesis
    using assms by (simp add: decayed_service_aware decay_antimono decay_bounds)
qed

theorem decayed_service_antimono_witness:
  "\<exists>d d'. decayed_service \<lparr>fr_service_micro = 1000, fr_capacity_weight_micro = 1,
       fr_last_updated = utc_at 0, fr_last_selected = None\<rparr> (utc_at 604800) = Inr d \<and>
     decayed_service \<lparr>fr_service_micro = 1000, fr_capacity_weight_micro = 1,
       fr_last_updated = utc_at 0, fr_last_selected = None\<rparr> (utc_at 907200) = Inr d' \<and>
     0 \<le> d' \<and> d' \<le> d \<and> d \<le> 1000"
  using decayed_service_antimono [of "\<lparr>fr_service_micro = 1000, fr_capacity_weight_micro = 1,
       fr_last_updated = utc_at 0, fr_last_selected = None\<rparr>" "utc_at 604800" "utc_at 907200"]
  by simp

text \<open>
  At every whole number of half-lives after the last update the decayed service is exactly the
  recorded service halved (rounding down) that many times, and from sixty-four half-lives on it is
  zero: the linear interpolation meets the exponential at its anchor points.
\<close>

theorem decayed_service_half_lives:
  assumes "aware now" and "instant now = instant (fr_last_updated r) + int k * HALF_LIFE_SECONDS * us_per_second"
  shows "decayed_service r now =
           Inr (if k < 64 then fr_service_micro r div 2 ^ k else 0)"
proof -
  have "trunc_seconds (instant now - instant (fr_last_updated r)) = int k * HALF_LIFE_SECONDS"
    using assms(2) by (simp add: trunc_seconds_def HALF_LIFE_SECONDS_def us_per_second_def)
  then show ?thesis
    using assms(1)
    by (simp add: decayed_service_aware decay_unfold decay_factor_def HALF_LIFE_SECONDS_def MICRO_def)
qed

theorem decayed_service_half_lives_witness:
  "decayed_service \<lparr>fr_service_micro = 1001, fr_capacity_weight_micro = 1,
       fr_last_updated = utc_at 0, fr_last_selected = None\<rparr> (utc_at 1814400) = Inr 125"
  using decayed_service_half_lives [of "utc_at 1814400" "\<lparr>fr_service_micro = 1001,
       fr_capacity_weight_micro = 1, fr_last_updated = utc_at 0, fr_last_selected = None\<rparr>" 3]
  by (simp add: HALF_LIFE_SECONDS_def)

subsection \<open>The preview loop\<close>

text \<open>What the loop does with one candidate: admit it with its key and band, or exclude it.\<close>

definition judge ::
  "SelectionPolicy \<Rightarrow> py_datetime \<Rightarrow> FairnessLedger \<Rightarrow> SelectionCandidate \<Rightarrow> eligible + string \<times> string" where
  "judge policy now ledger c =
     (case eligibility_reason c of
        Some reason \<Rightarrow> Inr (sc_agent_id c, reason)
      | None \<Rightarrow>
          (case band c policy now of
             Inr (Some b) \<Rightarrow>
               (case candidate_key c b ledger now of
                  Inr k \<Rightarrow> Inl (k, c, b) | Inl _ \<Rightarrow> Inr (sc_agent_id c, []))
           | _ \<Rightarrow> Inr (sc_agent_id c, ''feature_disabled'')))"

definition judged_in :: "(eligible + string \<times> string) \<Rightarrow> eligible option" where
  "judged_in x = (case x of Inl y \<Rightarrow> Some y | Inr _ \<Rightarrow> None)"

definition judged_out :: "(eligible + string \<times> string) \<Rightarrow> (string \<times> string) option" where
  "judged_out x = (case x of Inl _ \<Rightarrow> None | Inr y \<Rightarrow> Some y)"

definition admitted ::
  "SelectionPolicy \<Rightarrow> py_datetime \<Rightarrow> FairnessLedger \<Rightarrow> SelectionCandidate list \<Rightarrow> eligible list" where
  "admitted policy now ledger = List.map_filter (\<lambda>c. judged_in (judge policy now ledger c))"

definition excluded ::
  "SelectionPolicy \<Rightarrow> py_datetime \<Rightarrow> FairnessLedger \<Rightarrow> SelectionCandidate list \<Rightarrow> (string \<times> string) list" where
  "excluded policy now ledger = List.map_filter (\<lambda>c. judged_out (judge policy now ledger c))"

lemmas judging = admitted_def excluded_def map_filter_simps judge_def judged_in_def judged_out_def

lemma fr_normalized_service_ok: "aware now \<Longrightarrow> \<exists>n. fr_normalized_service r now = Inr n"
  by (simp add: fr_normalized_service_def decayed_service_aware Let_def)

lemma map_result_ok: "(\<And>x. x \<in> set xs \<Longrightarrow> \<exists>y. f x = Inr y) \<Longrightarrow> \<exists>ys. map_result f xs = Inr ys"
proof (induction xs)
  case (Cons x xs)
  then obtain y ys where "f x = Inr y" "map_result f xs = Inr ys" by fastforce
  then show ?case by simp
qed simp

lemma normalized_service_ok: "aware now \<Longrightarrow> \<exists>n. normalized_service l a now = Inr n"
proof -
  assume aw: "aware now"
  then obtain vs where "map_result (\<lambda>(_, r). fr_normalized_service r now) l = Inr vs"
    using map_result_ok [of l "\<lambda>(_, r). fr_normalized_service r now"] fr_normalized_service_ok
    by fastforce
  with aw show ?thesis
    by (auto simp: normalized_service_def fr_normalized_service_ok Let_def split: option.splits)
qed

lemma candidate_key_ok: "aware now \<Longrightarrow> \<exists>k. candidate_key c b l now = Inr k"
  using normalized_service_ok [of now l "sc_account_key c"] by (auto simp: candidate_key_def)

lemma band_ok: "aware now \<Longrightarrow> \<exists>b. band c policy now = Inr b"
  by (auto simp: band_def is_passive_sp0_due_def is_fresh_def sel_aware_def split: option.splits)

lemma preview_loop_eq:
  assumes "aware now"
  shows "preview_loop policy now ledger cs =
           Inr (admitted policy now ledger cs, excluded policy now ledger cs)"
proof (induction cs)
  case Nil
  then show ?case by (simp add: judging)
next
  case (Cons c cs)
  from assms obtain b where b: "band c policy now = Inr b" using band_ok by blast
  show ?case
  proof (cases "eligibility_reason c")
    case None
    show ?thesis
    proof (cases b)
      case no_band: None
      with None Cons b show ?thesis by (simp add: judging)
    next
      case (Some b')
      obtain k where "candidate_key c b' ledger now = Inr k" using candidate_key_ok [OF assms] by blast
      with None Some Cons b show ?thesis by (simp add: judging)
    qed
  next
    case (Some reason)
    with Cons show ?thesis by (simp add: judging)
  qed
qed

lemma map_filter_member: "y \<in> set (List.map_filter f xs) \<longleftrightarrow> (\<exists>x \<in> set xs. f x = Some y)"
  by (induction xs) (auto simp: map_filter_simps split: option.splits)

lemma judged_in_Some: "judged_in x = Some y \<longleftrightarrow> x = Inl y"
  by (cases x) (simp_all add: judged_in_def)

lemma admitted_member:
  "(k, c, b) \<in> set (admitted policy now ledger cs) \<longleftrightarrow>
     c \<in> set cs \<and> eligibility_reason c = None \<and> band c policy now = Inr (Some b) \<and>
     candidate_key c b ledger now = Inr k"
proof -
  have j: "judge policy now ledger x = Inl (k, c, b) \<longleftrightarrow>
          x = c \<and> eligibility_reason c = None \<and> band c policy now = Inr (Some b) \<and>
          candidate_key c b ledger now = Inr k" for x
    by (auto simp: judge_def split: option.splits sum.splits)
  show ?thesis unfolding admitted_def map_filter_member judged_in_Some j by blast
qed

lemma admitted_Nil:
  assumes "admitted policy now ledger cs = []" "aware now" "c \<in> set cs" "eligibility_reason c = None"
  shows "band c policy now = Inr None"
proof (rule ccontr)
  assume "band c policy now \<noteq> Inr None"
  then obtain b where b: "band c policy now = Inr (Some b)"
    using band_ok [OF assms(2), of c policy] by (metis not_None_eq)
  obtain k where "candidate_key c b ledger now = Inr k" using candidate_key_ok [OF assms(2)] by blast
  with b assms(3,4) have "(k, c, b) \<in> set (admitted policy now ledger cs)"
    by (simp add: admitted_member)
  with assms(1) show False by simp
qed

lemma length_judged:
  "length (admitted policy now ledger cs) + length (excluded policy now ledger cs) = length cs"
  by (induction cs)
     (auto simp: admitted_def excluded_def map_filter_simps judged_in_def judged_out_def split: sum.splits)

lemma admitted_agents:
  "map (\<lambda>(k, c, b). sc_agent_id c) (admitted policy now ledger cs) =
     map sc_agent_id (filter (\<lambda>c. judged_in (judge policy now ledger c) \<noteq> None) cs)"
  by (induction cs)
     (auto simp: judging split: sum.splits option.splits)

lemma mset_map_filter: "mset xs = mset ys \<Longrightarrow> mset (List.map_filter f xs) = mset (List.map_filter f ys)"
  by (simp add: map_filter_def)

lemma candidate_key_agent:
  "candidate_key c b ledger now = Inr k \<Longrightarrow>
     snd (snd (snd (snd (snd (snd (snd (snd (snd k)))))))) = sc_agent_id c"
  by (auto simp: candidate_key_def result_simps)

interpretation cand: identifying_key "fst :: eligible \<Rightarrow> selection_key"
  "\<lambda>(k, c, b). sc_agent_id c" "\<lambda>(k, c, b). candidate_key c b ledger now = Inr k"
  for ledger :: FairnessLedger and now :: py_datetime
  by unfold_locales (auto dest!: candidate_key_agent)

lemma admitted_perm_facts:
  assumes "distinct (map sc_agent_id cs)"
  shows "distinct (map (\<lambda>(k, c, b). sc_agent_id c) (admitted policy now ledger cs))"
    and "list_all (\<lambda>(k, c, b). candidate_key c b ledger now = Inr k) (admitted policy now ledger cs)"
  using assms
  by (auto simp: admitted_agents list_all_iff admitted_member distinct_map_filter)

text \<open>What a preview reports, in terms of the admitted and excluded candidates.\<close>

definition preview_facts ::
  "SelectionPolicy \<Rightarrow> py_datetime \<Rightarrow> FairnessLedger \<Rightarrow> SelectionCandidate list \<Rightarrow> SelectionPreview \<Rightarrow> bool" where
  "preview_facts policy now ledger cs pv =
     (pv_exclusions pv = excluded policy now ledger cs \<and>
      pv_eligible_count pv = length (admitted policy now ledger cs) \<and>
      (case min_by fst (admitted policy now ledger cs) of
         None \<Rightarrow> pv_selected pv = None
       | Some (k, c, b) \<Rightarrow> \<exists>n. normalized_service ledger (sc_account_key c) now = Inr n \<and>
           pv_selected pv = Some \<lparr>sr_agent_id = sc_agent_id c, sr_model_id = sc_model_id c,
             sr_band = b, sr_fairness_micro = n, sr_account_pool_binding = None\<rparr>))"

lemma preview_selection_eq:
  assumes "aware now"
  shows "\<exists>pv. preview_selection cs policy now l = Inr pv \<and>
     preview_facts policy now (case l of None \<Rightarrow> [] | Some l \<Rightarrow> l) cs pv"
proof -
  define ledger where "ledger = (case l of None \<Rightarrow> [] | Some l \<Rightarrow> l)"
  note defs = preview_selection_def sel_aware_def preview_loop_eq [OF assms] Let_def
  show ?thesis
  proof (cases "min_by fst (admitted policy now ledger cs)")
    case None
    then have "admitted policy now ledger cs = []" by simp
    with None assms show ?thesis by (simp add: defs preview_facts_def flip: ledger_def)
  next
    case (Some kcb)
    obtain k c b where kcb: "kcb = (k, c, b)" by (cases kcb)
    obtain n where "normalized_service ledger (sc_account_key c) now = Inr n"
      using normalized_service_ok [OF assms] by blast
    with Some kcb assms show ?thesis by (simp add: defs preview_facts_def flip: ledger_def)
  qed
qed

text \<open>
  C14. A selection preview is a total function of the candidates whenever the time is
  timezone-aware: every candidate is either eligible or excluded with a reason, the selected one
  (if any) is an eligible candidate of the request whose ordering key is least among all eligible
  candidates, and nothing is selected only when no candidate is eligible.
\<close>

theorem preview_selection_optimal:
  assumes "aware now"
  shows "\<exists>pv. preview_selection cs policy now (Some ledger) = Inr pv \<and>
     pv_eligible_count pv + length (pv_exclusions pv) = length cs \<and>
     (case pv_selected pv of
        None \<Rightarrow> \<forall>c \<in> set cs. eligibility_reason c \<noteq> None \<or> band c policy now = Inr None
      | Some r \<Rightarrow>
          \<exists>c \<in> set cs. \<exists>k. eligibility_reason c = None \<and> band c policy now = Inr (Some (sr_band r)) \<and>
            sr_agent_id r = sc_agent_id c \<and> sr_model_id r = sc_model_id c \<and>
            candidate_key c (sr_band r) ledger now = Inr k \<and>
            (\<forall>d \<in> set cs. \<forall>b k'. eligibility_reason d = None \<and> band d policy now = Inr (Some b) \<and>
               candidate_key d b ledger now = Inr k' \<longrightarrow> k \<le> k'))"
proof -
  let ?el = "admitted policy now ledger cs"
  obtain pv where pv: "preview_selection cs policy now (Some ledger) = Inr pv"
    and ex: "pv_exclusions pv = excluded policy now ledger cs"
    and cnt: "pv_eligible_count pv = length ?el"
    and sel: "case min_by fst ?el of
         None \<Rightarrow> pv_selected pv = None
       | Some (k, c, b) \<Rightarrow> \<exists>n. normalized_service ledger (sc_account_key c) now = Inr n \<and>
           pv_selected pv = Some \<lparr>sr_agent_id = sc_agent_id c, sr_model_id = sc_model_id c,
             sr_band = b, sr_fairness_micro = n, sr_account_pool_binding = None\<rparr>"
    using preview_selection_eq [OF assms, of cs policy "Some ledger"]
    by (auto simp only: preview_facts_def option.case)
  show ?thesis
  proof (cases "min_by fst ?el")
    case None
    then have nil: "?el = []" by simp
    have "eligibility_reason c \<noteq> None \<or> band c policy now = Inr None" if "c \<in> set cs" for c
      using admitted_Nil [OF nil assms that] by blast
    with None sel pv ex cnt length_judged [of policy now ledger cs] show ?thesis by simp
  next
    case (Some kcb)
    obtain k c b where kcb: "kcb = (k, c, b)" by (cases kcb)
    have mem: "(k, c, b) \<in> set ?el" using min_by_mem [OF Some] kcb by simp
    have least: "k \<le> k'" if "(k', d, b') \<in> set ?el" for k' d b'
      using min_by_least [OF Some that] kcb by simp
    from mem have c: "c \<in> set cs" "eligibility_reason c = None" "band c policy now = Inr (Some b)"
      "candidate_key c b ledger now = Inr k" by (simp_all add: admitted_member)
    from least have "k \<le> k'" if "d \<in> set cs" "eligibility_reason d = None"
      "band d policy now = Inr (Some b')" "candidate_key d b' ledger now = Inr k'" for k' d b'
      using that by (simp add: admitted_member)
    moreover from Some kcb sel obtain n where "pv_selected pv = Some \<lparr>sr_agent_id = sc_agent_id c,
        sr_model_id = sc_model_id c, sr_band = b, sr_fairness_micro = n,
        sr_account_pool_binding = None\<rparr>" by auto
    ultimately show ?thesis
      using pv ex cnt c length_judged [of policy now ledger cs]
      by (intro exI [of _ pv]) (simp del: split_paired_Ex split_paired_All, blast)
  qed
qed

text \<open>
  The preview is deterministic: presenting the same candidates (with distinct agent ids) in any
  other order selects the same agent, model, band and fairness value, counts the same number of
  eligible candidates and excludes the same agents for the same reasons.
\<close>

theorem preview_selection_order_independent:
  assumes "aware now" and "mset cs = mset cs'" and "distinct (map sc_agent_id cs)"
  shows "\<exists>pv pv'. preview_selection cs policy now (Some ledger) = Inr pv \<and>
           preview_selection cs' policy now (Some ledger) = Inr pv' \<and>
           pv_selected pv = pv_selected pv' \<and> pv_eligible_count pv = pv_eligible_count pv' \<and>
           mset (pv_exclusions pv) = mset (pv_exclusions pv')"
proof -
  have perm: "mset (admitted policy now ledger cs) = mset (admitted policy now ledger cs')"
    "mset (excluded policy now ledger cs) = mset (excluded policy now ledger cs')"
    unfolding admitted_def excluded_def by (rule mset_map_filter [OF assms(2)])+
  have same: "min_by fst (admitted policy now ledger cs) = min_by fst (admitted policy now ledger cs')"
    by (rule cand.min_by_perm [OF perm(1) admitted_perm_facts [OF assms(3)]])
  obtain pv where pv: "preview_selection cs policy now (Some ledger) = Inr pv"
    and f: "preview_facts policy now ledger cs pv"
    using preview_selection_eq [OF assms(1), of cs policy "Some ledger"] unfolding option.case by blast
  obtain pv' where pv': "preview_selection cs' policy now (Some ledger) = Inr pv'"
    and f': "preview_facts policy now ledger cs' pv'"
    using preview_selection_eq [OF assms(1), of cs' policy "Some ledger"] unfolding option.case by blast
  have "pv_selected pv = pv_selected pv'"
    using f f' same
    by (cases "min_by fst (admitted policy now ledger cs')") (auto simp: preview_facts_def)
  moreover have "pv_eligible_count pv = pv_eligible_count pv'"
    "mset (pv_exclusions pv) = mset (pv_exclusions pv')"
    using f f' perm mset_eq_length [OF perm(1)] by (simp_all add: preview_facts_def)
  ultimately show ?thesis using pv pv' by simp
qed

text \<open>
  An admission preview is executable exactly when the mode is enforced, a candidate was selected
  and no gate is missing; in shadow mode it is planned but never executable, and when the mode is
  off it is neither.
\<close>

theorem admission_preview_executable_iff:
  assumes "aware now"
  shows "\<exists>av. preview_selection_admission cs policy ap now ledger = Inr av \<and>
     (av_executable av \<longleftrightarrow> ap_mode ap = MODE_ENFORCED \<and> pv_selected (av_selection av) \<noteq> None \<and>
        ap_pilot_repository_allowed ap \<and> ap_principal_verified ap \<and> ap_scope_allowed ap \<and>
        ap_account_verified ap \<and> ap_model_verified ap \<and> ap_reservation_available ap \<and>
        ap_execute_enabled ap) \<and>
     (ap_mode ap = MODE_SHADOW \<longrightarrow> (av_planned av \<longleftrightarrow> pv_selected (av_selection av) \<noteq> None)) \<and>
     (ap_mode ap = MODE_OFF \<longrightarrow> \<not> av_planned av)"
proof -
  obtain pv where pv: "preview_selection cs policy now ledger = Inr pv"
    using preview_selection_eq [OF assms] by blast
  have gates: "list_ex (\<lambda>g. g = []) (missing_gates ap) = False"
    by (simp add: missing_gates_def)
  show ?thesis
    by (cases "ap_mode ap"; cases "pv_selected pv"; cases "missing_gates ap")
       (use pv gates in \<open>auto simp: preview_selection_admission_def AdmissionPreview_init_def Let_def
          missing_gates_def split: if_splits\<close>)
qed

subsection \<open>Instances\<close>

definition sample_candidate :: "string \<Rightarrow> int \<Rightarrow> SelectionCandidate" where
  "sample_candidate agent rotation =
     \<lparr>sc_agent_id = agent, sc_account_key = ''acct'', sc_model_id = ''model'',
      sc_task_kind = TK_SIMPLE, sc_model_role = PRIMARY, sc_enabled = True,
      sc_authenticated = True, sc_account_ready = True, sc_account_capacity_available = True,
      sc_model_capacity_available = True, sc_lease_available = True, sc_usage = None,
      sc_sp1a_eligible = True, sc_sp1b_eligible = True, sc_sp2_eligible = False,
      sc_sp1a_bucket = 0, sc_sp1b_bucket = 0, sc_sp2_bucket = 0, sc_repository_affinity = 0,
      sc_warm_home = False, sc_recent_failure = False, sc_rotation_distance = rotation\<rparr>"

definition sample_policy :: SelectionPolicy where
  "sample_policy = \<lparr>sp0 = False, sp1a = True, sp1b = False, sp2 = False, sp3 = False\<rparr>"

definition sample_admission_policy :: AdmissionPolicy where
  "sample_admission_policy =
     \<lparr>ap_mode = MODE_ENFORCED, ap_pilot_repository_allowed = True, ap_principal_verified = True,
      ap_scope_allowed = True, ap_account_verified = True, ap_model_verified = True,
      ap_reservation_available = True, ap_execute_enabled = True\<rparr>"

lemma sample_preview:
  "preview_selection [sample_candidate ''b'' 1, sample_candidate ''a'' 0] sample_policy (utc_at 0) (Some []) =
     Inr \<lparr>pv_selected = Some \<lparr>sr_agent_id = ''a'', sr_model_id = ''model'', sr_band = SP1A,
            sr_fairness_micro = 0, sr_account_pool_binding = None\<rparr>,
          pv_eligible_count = 2, pv_exclusions = []\<rparr>"
  by (simp add: preview_selection_def sel_aware_def eligibility_reason_def band_def
      candidate_key_def normalized_service_def last_selected_epoch_def bucket_of_def
      sample_candidate_def sample_policy_def)

theorem preview_selection_optimal_witness:
  "\<exists>pv. preview_selection [sample_candidate ''b'' 1, sample_candidate ''a'' 0] sample_policy
      (utc_at 0) (Some []) = Inr pv \<and>
    pv_eligible_count pv + length (pv_exclusions pv) = 2 \<and>
    map_option sr_agent_id (pv_selected pv) = Some ''a''"
  using preview_selection_optimal [of "utc_at 0" "[sample_candidate ''b'' 1, sample_candidate ''a'' 0]"
      sample_policy "[]"]
  by (simp add: sample_preview)

theorem preview_selection_order_independent_witness:
  "\<exists>pv'. preview_selection [sample_candidate ''a'' 0, sample_candidate ''b'' 1] sample_policy
      (utc_at 0) (Some []) = Inr pv' \<and> map_option sr_agent_id (pv_selected pv') = Some ''a''"
proof -
  have m: "mset [sample_candidate ''b'' 1, sample_candidate ''a'' 0] =
          mset [sample_candidate ''a'' 0, sample_candidate ''b'' 1]" by simp
  have d: "distinct (map sc_agent_id [sample_candidate ''b'' 1, sample_candidate ''a'' 0])"
    by (simp add: sample_candidate_def)
  from preview_selection_order_independent [OF aware_utc_at [of 0] m d, where policy = sample_policy
      and ledger = "[]"]
  obtain pv pv' where pv: "preview_selection [sample_candidate ''b'' 1, sample_candidate ''a'' 0]
        sample_policy (utc_at 0) (Some []) = Inr pv"
    and pv': "preview_selection [sample_candidate ''a'' 0, sample_candidate ''b'' 1]
        sample_policy (utc_at 0) (Some []) = Inr pv'"
    and same: "pv_selected pv = pv_selected pv'"
    by blast
  from pv have "map_option sr_agent_id (pv_selected pv) = Some ''a''" by (auto simp: sample_preview)
  with pv' same show ?thesis by simp
qed

theorem admission_preview_executable_iff_witness:
  "\<exists>av. preview_selection_admission [sample_candidate ''b'' 1, sample_candidate ''a'' 0] sample_policy
      sample_admission_policy (utc_at 0) (Some []) = Inr av \<and> av_executable av"
  using admission_preview_executable_iff [of "utc_at 0"
      "[sample_candidate ''b'' 1, sample_candidate ''a'' 0]" sample_policy sample_admission_policy
      "Some []"]
  by (auto simp: preview_selection_admission_def sample_preview sample_admission_policy_def
      AdmissionPreview_init_def missing_gates_def)

end
