(* ===== verification/Hive_Iso.thy ===== *)
theory Hive_Iso
  imports Hive_Time
begin

text \<open>
  \<open>datetime.isoformat\<close> and \<open>datetime.fromisoformat\<close>: the proleptic Gregorian calendar, the text
  that \<open>isoformat\<close> writes, and a reader for that text. \<open>fromisoformat\<close> accepts more spellings of
  ISO 8601 than \<open>isoformat\<close> writes; they are a parameter of \<open>fromisoformat\<close> below. Its round
  trip is proved, so what the code persists with \<open>isoformat\<close> it reads back.
\<close>

subsection \<open>The calendar\<close>

definition is_leap :: "nat \<Rightarrow> bool" where
  "is_leap y = (y mod 4 = 0 \<and> (y mod 100 \<noteq> 0 \<or> y mod 400 = 0))"

text \<open>Days before 1 January of the year, and before the first of the month.\<close>

definition days_before_year :: "nat \<Rightarrow> nat" where
  "days_before_year y = (y - 1) * 365 + (y - 1) div 4 - (y - 1) div 100 + (y - 1) div 400"

definition days_before_month :: "bool \<Rightarrow> nat \<Rightarrow> nat" where
  "days_before_month leap m =
     [0, 0, 31, 59, 90, 120, 151, 181, 212, 243, 273, 304, 334, 365] ! m + (if leap \<and> m > 2 then 1 else 0)"

definition days_in_month :: "bool \<Rightarrow> nat \<Rightarrow> nat" where
  "days_in_month leap m = days_before_month leap (m + 1) - days_before_month leap m"

definition day_number :: "nat \<Rightarrow> nat \<Rightarrow> nat \<Rightarrow> nat" where
  "day_number y m d = days_before_year y + days_before_month (is_leap y) m + (d - 1)"

text \<open>The year of a day number and the day within that year.\<close>

definition year_of :: "nat \<Rightarrow> nat \<times> nat" where
  "year_of n =
     (let n400 = n div 146097; a = n mod 146097;
          n100 = min 3 (a div 36524); b = a - n100 * 36524;
          n4 = b div 1461; c = b mod 1461;
          n1 = min 3 (c div 365)
      in (n400 * 400 + n100 * 100 + n4 * 4 + n1 + 1, c - n1 * 365))"

definition month_of :: "bool \<Rightarrow> nat \<Rightarrow> nat" where
  "month_of leap r =
     (if r < 31 then 1
      else let r = (if leap then r - 1 else r) in
        if r < 59 then 2 else if r < 90 then 3 else if r < 120 then 4
        else if r < 151 then 5 else if r < 181 then 6 else if r < 212 then 7 else if r < 243 then 8
        else if r < 273 then 9 else if r < 304 then 10 else if r < 334 then 11 else 12)"

lemma days_before_year_split:
  assumes "p \<le> 3" "q \<le> 24" "s \<le> 3"
  shows "days_before_year (k * 400 + p * 100 + q * 4 + s + 1) = k * 146097 + p * 36524 + q * 1461 + s * 365"
proof -
  have "(k * 400 + p * 100 + q * 4 + s) div 4 = k * 100 + p * 25 + q"
    "(k * 400 + p * 100 + q * 4 + s) div 100 = k * 4 + p"
    "(k * 400 + p * 100 + q * 4 + s) div 400 = k"
    using assms by (auto intro!: div_nat_eqI)
  then show ?thesis by (simp add: days_before_year_def)
qed

lemma year_of_spec:
  assumes "year_of n = (y, r)"
  shows "days_before_year y + r = n" "r < 365 \<or> (is_leap y \<and> r = 365)" "1 \<le> y"
    "n < 3652059 \<Longrightarrow> y < 10 ^ 4"
proof -
  define k a where "k = n div 146097" and "a = n mod 146097"
  define p b where "p = min 3 (a div 36524)" and "b = a - p * 36524"
  define q c where "q = b div 1461" and "c = b mod 1461"
  define s where "s = min 3 (c div 365)"
  have y: "y = k * 400 + p * 100 + q * 4 + s + 1" and r: "r = c - s * 365"
    using assms by (auto simp: year_of_def Let_def k_def a_def p_def b_def q_def c_def s_def)
  have n: "n = k * 146097 + a" "a < 146097" by (simp_all add: k_def a_def)
  have a: "a = p * 36524 + b" "p \<le> 3" "b < 36524 \<or> (p = 3 \<and> b = 36524)"
    using n(2) unfolding p_def b_def by linarith+
  have b: "b = q * 1461 + c" "c < 1461" by (simp_all add: q_def c_def)
  have q: "q \<le> 24" using a(3) b(1) by linarith
  have c: "c = s * 365 + r" "s \<le> 3" "r < 365 \<or> (s = 3 \<and> r = 365)"
    using b(2) r unfolding s_def by linarith+
  show "1 \<le> y" using y by simp
  show "y < 10 ^ 4" if "n < 3652059"
  proof -
    have "k \<le> 24" using that n(1) by linarith
    then show ?thesis using that n(1) a(1,2) b(1) c(1,2) q y by (simp; linarith)
  qed
  show "days_before_year y + r = n"
    using days_before_year_split [OF a(2) q c(2), of k] y n a b c by simp
  show "r < 365 \<or> (is_leap y \<and> r = 365)"
  proof (cases "r = 365")
    case True
    with c have s: "s = 3" by auto
    have "y = 4 * (k * 100 + p * 25 + q + 1)" using y s by simp
    then have "y mod 4 = 0" by simp
    moreover have "q = 24" if "y mod 100 = 0"
    proof (rule ccontr)
      assume "q \<noteq> 24"
      then have small: "q * 4 + 4 < 100" using q by simp
      have "y = q * 4 + 4 + 100 * (k * 4 + p)" using y s by simp
      then have "y mod 100 = (q * 4 + 4) mod 100" by (simp only: mod_mult_self2)
      with small that show False by simp
    qed
    moreover have "y mod 400 = 0" if "q = 24"
    proof -
      have "b \<ge> 36524" using that b(1) c True s by simp
      then have "p = 3" using a(3) by auto
      then have "y = 400 * (k + 1)" using that s y by simp
      then show ?thesis by simp
    qed
    ultimately have "y mod 4 = 0 \<and> (y mod 100 \<noteq> 0 \<or> y mod 400 = 0)"
      by (cases "y mod 100 = 0") simp_all
    then show ?thesis using True by (simp add: is_leap_def)
  qed (use c in auto)
qed

lemma month_of_spec:
  assumes "r < 365 \<or> (leap \<and> r = 365)"
  shows "1 \<le> month_of leap r \<and> month_of leap r \<le> 12 \<and>
    days_before_month leap (month_of leap r) \<le> r \<and> r < days_before_month leap (month_of leap r + 1)"
  using assms
  by (cases leap) (auto simp: month_of_def days_before_month_def Let_def nth_Cons' split: if_splits)

subsection \<open>Zero-padded numbers\<close>

fun pad :: "nat \<Rightarrow> nat \<Rightarrow> string" where
  "pad 0 n = []"
| "pad (Suc k) n = pad k (n div 10) @ [char_of (48 + n mod 10)]"

definition number :: "string \<Rightarrow> nat" where
  "number s = foldl (\<lambda>a c. a * 10 + (of_char c - 48)) 0 s"

definition read_digits :: "nat \<Rightarrow> string \<Rightarrow> (nat \<times> string) option" where
  "read_digits k s =
     (if k \<le> length s \<and> list_all is_digit (take k s) then Some (number (take k s), drop k s) else None)"

fun read_char :: "char \<Rightarrow> string \<Rightarrow> string option" where
  "read_char c [] = None"
| "read_char c (x # xs) = (if x = c then Some xs else None)"

lemma length_pad [simp]: "length (pad k n) = k"
  by (induction k arbitrary: n) auto

lemma digit_char: "n < 10 \<Longrightarrow> (of_char (char_of (48 + n) :: char) :: nat) = 48 + n"
  by simp

lemma is_digit_char: "n < 10 \<Longrightarrow> is_digit (char_of (48 + n :: nat))"
  by (simp add: is_digit_def char_in_range_def digit_char del: of_char_of)

lemma pad_digits: "list_all is_digit (pad k n)"
  by (induction k arbitrary: n) (auto intro: is_digit_char)

lemma number_pad: "n < 10 ^ k \<Longrightarrow> number (pad k n) = n"
proof (induction k arbitrary: n)
  case 0
  then show ?case by (simp add: number_def)
next
  case (Suc k)
  then have "number (pad k (n div 10)) = n div 10"
    by (intro Suc.IH) (simp add: less_mult_imp_div_less mult.commute)
  then show ?case by (simp add: number_def digit_char del: of_char_of)
qed

lemma read_pad [simp]: "n < 10 ^ k \<Longrightarrow> read_digits k (pad k n @ rest) = Some (n, rest)"
  by (simp add: read_digits_def pad_digits number_pad)

lemma read_digits_ok: "read_digits k s = Some (n, rest) \<Longrightarrow> \<exists>p. s = p @ rest \<and> length p = k"
  by (auto simp: read_digits_def split: if_splits) (metis append_take_drop_id length_take min.absorb2)

subsection \<open>\<open>isoformat\<close>\<close>

definition us_nat :: nat where "us_nat = 1000000"

definition time_text :: "nat \<Rightarrow> string" where
  "time_text secs = pad 2 (secs div 3600) @ '':'' @ pad 2 (secs div 60 mod 60)"

definition fraction_text :: "nat \<Rightarrow> string" where
  "fraction_text us = (if us = 0 then [] else ''.'' @ pad 6 us)"

definition offset_text :: "nat \<Rightarrow> string" where
  "offset_text us =
     time_text (us div us_nat) @
     (if us div us_nat mod 60 = 0 \<and> us mod us_nat = 0 then []
      else '':'' @ pad 2 (us div us_nat mod 60) @ fraction_text (us mod us_nat))"

definition isoformat :: "py_datetime \<Rightarrow> string" where
  "isoformat d =
     (let n = nat (local_us d); days = n div (86400 * us_nat); us = n mod (86400 * us_nat);
          secs = us div us_nat; (y, r) = year_of days; m = month_of (is_leap y) r
      in pad 4 y @ ''-'' @ pad 2 m @ ''-'' @ pad 2 (r - days_before_month (is_leap y) m + 1) @ ''T'' @
         time_text secs @ '':'' @ pad 2 (secs mod 60) @ fraction_text (us mod us_nat) @
         (case utc_offset_us d of
            None \<Rightarrow> []
          | Some off \<Rightarrow> (if off < 0 then ''-'' else ''+'') @ offset_text (nat \<bar>off\<bar>)))"

subsection \<open>The reader for that text\<close>

definition read_time :: "string \<Rightarrow> (nat \<times> string) option" where
  "read_time s =
     Option.bind (read_digits 2 s) (\<lambda>(h, s).
     Option.bind (read_char CHR '':'' s) (\<lambda>s.
     Option.bind (read_digits 2 s) (\<lambda>(m, s).
       if h < 24 \<and> m < 60 then Some (h * 3600 + m * 60, s) else None)))"

definition read_fraction :: "string \<Rightarrow> (nat \<times> string) option" where
  "read_fraction s =
     (case s of [] \<Rightarrow> Some (0, s)
      | c # t \<Rightarrow> if c = CHR ''.'' then read_digits 6 t else Some (0, s))"

definition read_seconds :: "string \<Rightarrow> (nat \<times> string) option" where
  "read_seconds s =
     Option.bind (read_char CHR '':'' s) (\<lambda>s.
     Option.bind (read_digits 2 s) (\<lambda>(sec, s).
     Option.bind (read_fraction s) (\<lambda>(us, s).
       if sec < 60 then Some (sec * us_nat + us, s) else None)))"

definition read_offset :: "string \<Rightarrow> int option option" where
  "read_offset s =
     (case s of
        [] \<Rightarrow> Some None
      | c # t \<Rightarrow>
          if c \<noteq> CHR ''+'' \<and> c \<noteq> CHR ''-'' then None
          else
            Option.bind (read_time t) (\<lambda>(hm, t).
            Option.bind (if t = [] then Some (0, []) else read_seconds t) (\<lambda>(us, t).
              if t \<noteq> [] then None
              else let off = int (hm * us_nat + us) in Some (Some (if c = CHR ''-'' then - off else off)))))"

definition iso_extended :: "string \<Rightarrow> py_datetime option" where
  "iso_extended s =
     Option.bind (read_digits 4 s) (\<lambda>(y, s).
     Option.bind (read_char CHR ''-'' s) (\<lambda>s.
     Option.bind (read_digits 2 s) (\<lambda>(m, s).
     Option.bind (read_char CHR ''-'' s) (\<lambda>s.
     Option.bind (read_digits 2 s) (\<lambda>(d, s).
     Option.bind (read_char CHR ''T'' s) (\<lambda>s.
     Option.bind (read_time s) (\<lambda>(hm, s).
     Option.bind (read_seconds s) (\<lambda>(us, s).
     Option.bind (read_offset s) (\<lambda>off.
       if 1 \<le> y \<and> 1 \<le> m \<and> m \<le> 12 \<and> 1 \<le> d \<and> d \<le> days_in_month (is_leap y) m
       then Some \<lparr>local_us = int ((day_number y m d * 86400 + hm) * us_nat + us), utc_offset_us = off\<rparr>
       else None)))))))))"

text \<open>\<open>other\<close> reads the spellings that \<open>isoformat\<close> does not write.\<close>

definition fromisoformat :: "(string \<Rightarrow> py_datetime option) \<Rightarrow> string \<Rightarrow> py_datetime option" where
  "fromisoformat other s = (case iso_extended s of Some d \<Rightarrow> Some d | None \<Rightarrow> other s)"

text \<open>\<open>datetime.fromisoformat(value.replace("Z", "+00:00"))\<close>, as the modules write it.\<close>

definition replace_Z :: "string \<Rightarrow> string" where
  "replace_Z s = concat (map (\<lambda>c. if c = CHR ''Z'' then ''+00:00'' else [c]) s)"

definition parse_iso :: "(string \<Rightarrow> py_datetime option) \<Rightarrow> string \<Rightarrow> py_datetime option" where
  "parse_iso other s = fromisoformat other (replace_Z s)"

subsection \<open>Round trip\<close>

lemma minutes_split: "secs div 3600 * 3600 + secs div 60 mod 60 * 60 = secs div 60 * (60::nat)"
proof -
  have "secs div 3600 = secs div 60 div 60" by (simp add: div_mult2_eq [symmetric])
  then show ?thesis using div_mult_mod_eq [of "secs div 60" 60] by linarith
qed

lemma read_time_text [simp]:
  assumes "secs < 86400"
  shows "read_time (time_text secs @ rest) = Some (secs div 60 * 60, rest)"
proof -
  have h: "secs div 3600 < 24" and m: "secs div 60 mod 60 < 60"
    using assms by (simp_all add: div_less_iff_less_mult)
  then have "secs div 3600 < 10 ^ 2" "secs div 60 mod 60 < 10 ^ 2" by simp_all
  then show ?thesis
    using h m minutes_split [of secs] by (simp add: read_time_def time_text_def)
qed

definition no_dot :: "string \<Rightarrow> bool" where
  "no_dot s = (case s of [] \<Rightarrow> True | c # _ \<Rightarrow> c \<noteq> CHR ''.'')"

lemma read_fraction_text [simp]:
  "us < us_nat \<Longrightarrow> no_dot rest \<Longrightarrow> read_fraction (fraction_text us @ rest) = Some (us, rest)"
  by (auto simp: read_fraction_def fraction_text_def no_dot_def us_nat_def split: list.splits)

lemma read_seconds_text [simp]:
  assumes "sec < 60" and "us < us_nat" and "no_dot rest"
  shows "read_seconds (CHR '':'' # pad 2 sec @ fraction_text us @ rest) = Some (sec * us_nat + us, rest)"
proof -
  have "sec < 10 ^ 2" using assms(1) by simp
  then show ?thesis using assms by (simp add: read_seconds_def)
qed

lemma offset_parts:
  assumes "us < 86400 * us_nat"
  shows "us div us_nat < 86400" "us mod us_nat < us_nat" "us div us_nat mod 60 < 60"
    "us div us_nat div 60 * 60 * us_nat + (us div us_nat mod 60 * us_nat + us mod us_nat) = us"
proof -
  show "us div us_nat < 86400" using assms by (simp add: us_nat_def div_less_iff_less_mult)
  show "us mod us_nat < us_nat" "us div us_nat mod 60 < 60" by (simp_all add: us_nat_def)
  have "us div us_nat div 60 * 60 * us_nat + us div us_nat mod 60 * us_nat =
      (us div us_nat div 60 * 60 + us div us_nat mod 60) * us_nat"
    by (simp only: add_mult_distrib)
  then show "us div us_nat div 60 * 60 * us_nat + (us div us_nat mod 60 * us_nat + us mod us_nat) = us"
    by (metis add.assoc div_mult_mod_eq)
qed

lemma read_offset_text:
  assumes "nat \<bar>off\<bar> < 86400 * us_nat"
  shows "read_offset ((if off < 0 then ''-'' else ''+'') @ offset_text (nat \<bar>off\<bar>)) = Some (Some off)"
proof -
  let ?us = "nat \<bar>off\<bar>"
  note pts = offset_parts [OF assms]
  have signed: "(if off < 0 then - int ?us else int ?us) = off" by simp
  show ?thesis
  proof (cases "?us div us_nat mod 60 = 0 \<and> ?us mod us_nat = 0")
    case True
    then have "offset_text ?us = time_text (?us div us_nat) @ []" by (simp add: offset_text_def)
    moreover have "?us div us_nat div 60 * 60 * us_nat = ?us" using pts(4) True by (simp only: mult_0 add_0_right)
    ultimately show ?thesis
      using pts(1) signed by (auto simp: read_offset_def Let_def simp del: append_Nil2)
  next
    case False
    then have shape: "offset_text ?us = time_text (?us div us_nat) @
        CHR '':'' # pad 2 (?us div us_nat mod 60) @ fraction_text (?us mod us_nat) @ []"
      by (auto simp: offset_text_def)
    have "read_seconds (CHR '':'' # pad 2 (?us div us_nat mod 60) @ fraction_text (?us mod us_nat) @ []) =
        Some (?us div us_nat mod 60 * us_nat + ?us mod us_nat, [])"
      using pts(2,3) by (intro read_seconds_text) (auto simp: no_dot_def)
    then show ?thesis
      using pts(1,4) signed unfolding shape
      by (auto simp: read_offset_def Let_def simp del: append_Nil2)
  qed
qed

lemma date_parts:
  assumes "n < 3652059" and "year_of n = (y, r)" and "m = month_of (is_leap y) r"
  shows "1 \<le> y" "y < 10 ^ 4" "1 \<le> m" "m \<le> 12"
    "r - days_before_month (is_leap y) m + 1 \<le> days_in_month (is_leap y) m"
    "days_in_month (is_leap y) m < 10 ^ 2"
    "day_number y m (r - days_before_month (is_leap y) m + 1) = n"
proof -
  note y = year_of_spec [OF assms(2)] and m = month_of_spec [of r "is_leap y", folded assms(3)]
  show "1 \<le> y" "1 \<le> m" "m \<le> 12" using y m by auto
  show "r - days_before_month (is_leap y) m + 1 \<le> days_in_month (is_leap y) m"
    using y m by (auto simp: days_in_month_def)
  show "day_number y m (r - days_before_month (is_leap y) m + 1) = n"
    using y m by (auto simp: day_number_def)
  show "y < 10 ^ 4" using y(4) assms(1) .
  have "1 \<le> m \<and> m \<le> 12" using m y by auto
  then have "m = 1 \<or> m = 2 \<or> m = 3 \<or> m = 4 \<or> m = 5 \<or> m = 6 \<or> m = 7 \<or> m = 8 \<or> m = 9 \<or> m = 10 \<or>
      m = 11 \<or> m = 12" by presburger
  then show "days_in_month (is_leap y) m < 10 ^ 2"
    by (elim disjE) (simp_all add: days_in_month_def days_before_month_def)
qed

lemma iso_extended_isoformat:
  assumes "dt_valid d"
  shows "iso_extended (isoformat d) = Some d"
proof -
  define n where "n = nat (local_us d)"
  define days us where "days = n div (86400 * us_nat)" and "us = n mod (86400 * us_nat)"
  obtain y r where yr: "year_of days = (y, r)" by (cases "year_of days")
  define m day where "m = month_of (is_leap y) r" and "day = r - days_before_month (is_leap y) m + 1"
  have valid: "0 \<le> local_us d" "local_us d < max_us"
    "\<And>off. utc_offset_us d = Some off \<Longrightarrow> \<bar>off\<bar> < us_per_day"
    using assms by (auto simp: dt_valid_def)
  have days: "days < 3652059"
    using valid(1,2) by (simp add: days_def n_def us_nat_def max_us_def us_per_day_def us_per_second_def
        div_less_iff_less_mult nat_less_iff)
  note date = date_parts [OF days yr m_def, folded day_def]
  have us: "us < 86400 * us_nat" by (simp add: us_def us_nat_def)
  note clock = offset_parts [OF us]
  define tail where "tail = (case utc_offset_us d of None \<Rightarrow> []
      | Some off \<Rightarrow> (if off < 0 then ''-'' else ''+'') @ offset_text (nat \<bar>off\<bar>))"
  have shape: "isoformat d = pad 4 y @ CHR ''-'' # pad 2 m @ CHR ''-'' # pad 2 day @ CHR ''T'' #
      time_text (us div us_nat) @ CHR '':'' # pad 2 (us div us_nat mod 60) @
      fraction_text (us mod us_nat) @ tail"
    using yr by (simp add: isoformat_def Let_def n_def days_def us_def m_def day_def tail_def)
  have tail: "no_dot tail" by (auto simp: tail_def no_dot_def split: option.splits)
  have offset: "read_offset tail = Some (utc_offset_us d)"
  proof (cases "utc_offset_us d")
    case None
    then show ?thesis by (simp add: tail_def read_offset_def)
  next
    case (Some off)
    then have "nat \<bar>off\<bar> < 86400 * us_nat"
      using valid(3) by (simp add: us_nat_def us_per_day_def us_per_second_def nat_less_iff)
    then show ?thesis using Some read_offset_text by (simp add: tail_def)
  qed
  have "m < 10 ^ 2" "day < 10 ^ 2" "1 \<le> day" using date by (auto simp: day_def)
  moreover have "int ((days * 86400 + us div us_nat div 60 * 60) * us_nat +
      (us div us_nat mod 60 * us_nat + us mod us_nat)) = local_us d"
  proof -
    have "(days * 86400 + us div us_nat div 60 * 60) * us_nat +
        (us div us_nat mod 60 * us_nat + us mod us_nat) = days * (86400 * us_nat) + us"
      using clock(4) by (simp only: add_mult_distrib mult.assoc add.assoc)
    also have "\<dots> = n" unfolding days_def us_def by (rule div_mult_mod_eq)
    finally show ?thesis using valid(1) by (simp only: n_def)
  qed
  ultimately show ?thesis
    unfolding iso_extended_def shape using date clock tail offset by simp
qed

text \<open>The text is short and has no \<open>Z\<close>, so the code's normalisation of \<open>Z\<close> does not touch it.\<close>

lemma length_isoformat: "length (isoformat d) \<le> 42"
  by (auto simp: isoformat_def Let_def time_text_def fraction_text_def offset_text_def
      split: prod.splits option.splits)

lemma length_isoformat_pos: "0 < length (isoformat d)"
  by (simp add: isoformat_def Let_def split: prod.splits)

lemma pad_no_Z: "CHR ''Z'' \<notin> set (pad k n)"
  using pad_digits [of k n] by (auto simp: list_all_iff is_digit_def char_in_range_def)

lemma isoformat_no_Z: "CHR ''Z'' \<notin> set (isoformat d)"
  by (auto simp: isoformat_def Let_def time_text_def fraction_text_def offset_text_def pad_no_Z
      split: prod.splits option.splits)

lemma fromisoformat_isoformat:
  "dt_valid d \<Longrightarrow> fromisoformat other (isoformat d) = Some d"
  by (simp add: fromisoformat_def iso_extended_isoformat)

lemma replace_Z_idle: "CHR ''Z'' \<notin> set s \<Longrightarrow> replace_Z s = s"
  by (induction s) (auto simp: replace_Z_def)

lemma parse_iso_isoformat [simp]: "dt_valid d \<Longrightarrow> parse_iso other (isoformat d) = Some d"
  by (simp add: parse_iso_def replace_Z_idle isoformat_no_Z fromisoformat_isoformat)

lemma pad_mem: "c \<in> set (pad k n) \<Longrightarrow> is_digit c"
  using pad_digits [of k n] by (auto simp: list_all_iff)

definition iso_char :: "char \<Rightarrow> bool" where
  "iso_char c = (is_digit c \<or> c \<in> set ''-:T.+'')"

lemma iso_parts:
  "list_all iso_char (pad k n)" "list_all iso_char (time_text secs)"
  "list_all iso_char (fraction_text us)" "list_all iso_char (offset_text us)"
proof -
  show p: "list_all iso_char (pad k n)" for k n
    using pad_digits [of k n] by (auto simp: list_all_iff iso_char_def)
  have c: "iso_char CHR '':''" "iso_char CHR ''.''" by (simp_all add: iso_char_def)
  show t: "list_all iso_char (time_text secs)" for secs by (simp add: time_text_def p c)
  show f: "list_all iso_char (fraction_text us)" for us by (simp add: fraction_text_def p c)
  show "list_all iso_char (offset_text us)" by (simp add: offset_text_def p c t f)
qed

lemma isoformat_chars: "list_all iso_char (isoformat d)"
proof -
  have "iso_char CHR '':''" "iso_char CHR ''-''" "iso_char CHR ''+''" "iso_char CHR ''T''"
    by (simp_all add: iso_char_def)
  then show ?thesis
    by (simp add: isoformat_def Let_def iso_parts split: prod.split option.split)
qed

end
