(* ===== verification/Admission.thy ===== *)
theory Admission
  imports Selection_Planner Hive_Iso
begin

text \<open>
  \<open>admission.py\<close>, first part: execution-admission records, their state machine, and the
  in-process \<open>AdmissionStore\<close> with its capacity and scope conflict checks. A record field of a
  fixed type needs no \<open>isinstance\<close> test; the value checks of every \<open>__post_init__\<close> are kept, in
  the order of the code. The store's mapping keeps insertion order, and every operation returns
  the store also when it raises.
\<close>

definition DEFAULT_RESERVATION_TTL_SECONDS :: int where "DEFAULT_RESERVATION_TTL_SECONDS = 30"
definition MAX_RESERVATION_TTL_SECONDS :: int where "MAX_RESERVATION_TTL_SECONDS = 120"
definition MAX_ADMISSION_ID_LENGTH :: nat where "MAX_ADMISSION_ID_LENGTH = 128"
definition MAX_SCOPE_PATHS :: nat where "MAX_SCOPE_PATHS = 256"
definition MAX_SCOPE_PATH_LENGTH :: nat where "MAX_SCOPE_PATH_LENGTH = 512"
definition MAX_RESOURCE_USAGE_MICRO :: int where "MAX_RESOURCE_USAGE_MICRO = 10 ^ 18"

datatype AdmissionState =
    PLANNED | RESERVED | REVALIDATING | ADMITTED | EXECUTING | PAUSED | FINALIZED | CONFLICT
  | EXPIRED | DENIED | EXECUTION_FAILED | COMPENSATING | FAILED_FINAL | RECOVERED_AFTER_CRASH
  | CANCELLED | COMPENSATED

fun AdmissionState_value :: "AdmissionState \<Rightarrow> string" where
  "AdmissionState_value PLANNED = ''planned''"
| "AdmissionState_value RESERVED = ''reserved''"
| "AdmissionState_value REVALIDATING = ''revalidating''"
| "AdmissionState_value ADMITTED = ''admitted''"
| "AdmissionState_value EXECUTING = ''executing''"
| "AdmissionState_value PAUSED = ''paused''"
| "AdmissionState_value FINALIZED = ''finalized''"
| "AdmissionState_value CONFLICT = ''conflict''"
| "AdmissionState_value EXPIRED = ''expired''"
| "AdmissionState_value DENIED = ''denied''"
| "AdmissionState_value EXECUTION_FAILED = ''execution_failed''"
| "AdmissionState_value COMPENSATING = ''compensating''"
| "AdmissionState_value FAILED_FINAL = ''failed_final''"
| "AdmissionState_value RECOVERED_AFTER_CRASH = ''recovered_after_crash''"
| "AdmissionState_value CANCELLED = ''cancelled''"
| "AdmissionState_value COMPENSATED = ''compensated''"

definition all_admission_states :: "AdmissionState list" where
  "all_admission_states = [PLANNED, RESERVED, REVALIDATING, ADMITTED, EXECUTING, PAUSED, FINALIZED,
     CONFLICT, EXPIRED, DENIED, EXECUTION_FAILED, COMPENSATING, FAILED_FINAL,
     RECOVERED_AFTER_CRASH, CANCELLED, COMPENSATED]"

definition ACTIVE_STATES :: "AdmissionState list" where
  "ACTIVE_STATES = [PLANNED, RESERVED, REVALIDATING, ADMITTED, EXECUTING, PAUSED]"

definition EXPIRABLE_STATES :: "AdmissionState list" where
  "EXPIRABLE_STATES = [PLANNED, RESERVED, REVALIDATING, ADMITTED, PAUSED]"

fun ALLOWED_TRANSITIONS :: "AdmissionState \<Rightarrow> AdmissionState list" where
  "ALLOWED_TRANSITIONS PLANNED = [RESERVED, EXPIRED, CANCELLED]"
| "ALLOWED_TRANSITIONS RESERVED = [REVALIDATING, CONFLICT, EXPIRED, CANCELLED]"
| "ALLOWED_TRANSITIONS REVALIDATING = [ADMITTED, DENIED, EXPIRED, CANCELLED]"
| "ALLOWED_TRANSITIONS ADMITTED = [EXECUTING, EXECUTION_FAILED, EXPIRED, CANCELLED]"
| "ALLOWED_TRANSITIONS EXECUTING = [PAUSED, FINALIZED, RECOVERED_AFTER_CRASH, EXECUTION_FAILED]"
| "ALLOWED_TRANSITIONS PAUSED = [EXECUTING, EXPIRED, CANCELLED]"
| "ALLOWED_TRANSITIONS RECOVERED_AFTER_CRASH = [FINALIZED]"
| "ALLOWED_TRANSITIONS CONFLICT = [COMPENSATED]"
| "ALLOWED_TRANSITIONS EXPIRED = [COMPENSATED]"
| "ALLOWED_TRANSITIONS DENIED = [COMPENSATED]"
| "ALLOWED_TRANSITIONS CANCELLED = [COMPENSATED]"
| "ALLOWED_TRANSITIONS EXECUTION_FAILED = [COMPENSATING]"
| "ALLOWED_TRANSITIONS COMPENSATING = [FAILED_FINAL]"
| "ALLOWED_TRANSITIONS FINALIZED = []"
| "ALLOWED_TRANSITIONS COMPENSATED = []"
| "ALLOWED_TRANSITIONS FAILED_FINAL = []"

subsection \<open>Field checks\<close>

fun bounded_text :: "pyval \<Rightarrow> string \<Rightarrow> nat \<Rightarrow> string result" where
  "bounded_text (PStr s) code maximum = (if text_ok maximum s then Inr s else Inl (AdmissionError code))"
| "bounded_text _ code maximum = Inl (AdmissionError code)"

definition bounded_int :: "pyval \<Rightarrow> string \<Rightarrow> int \<Rightarrow> int \<Rightarrow> int result" where
  "bounded_int v code minimum maximum =
     need (py_bounded_int v minimum maximum) (AdmissionError code)"

definition adm_aware :: "py_datetime \<Rightarrow> string \<Rightarrow> py_datetime result" where
  "adm_aware d code = (if aware d then Inr d else Inl (AdmissionError code))"

subsection \<open>Bindings\<close>

record ScopeBinding =
  sb_mode :: string
  sb_paths :: "string list"
  sb_canonical_digest :: string

definition scope_path_ok :: "string \<Rightarrow> bool" where
  "scope_path_ok path =
     (text_ok MAX_SCOPE_PATH_LENGTH path \<and> \<not> starts_with ''/'' path \<and> \<not> starts_with ''~'' path \<and>
      CHR 0x5C \<notin> set path \<and>
      \<not> list_ex (\<lambda>part. part = '''' \<or> part = ''.'' \<or> part = ''..'') (split_on CHR ''/'' path))"

definition ScopeBinding_init :: "ScopeBinding \<Rightarrow> ScopeBinding result" where
  "ScopeBinding_init s =
     and_then (check (sb_mode s = ''read'' \<or> sb_mode s = ''write'')
                 (AdmissionError ''invalid_scope_mode'')) (\<lambda>_.
     and_then (check (1 \<le> length (sb_paths s) \<and> length (sb_paths s) \<le> MAX_SCOPE_PATHS)
                 (AdmissionError ''invalid_scope_paths'')) (\<lambda>_.
     and_then (check (list_all scope_path_ok (sb_paths s))
                 (AdmissionError ''invalid_scope_paths'')) (\<lambda>_.
     and_then (bounded_text (PStr (sb_canonical_digest s)) ''invalid_scope_digest'' 192) (\<lambda>_.
       Inr s))))"

record ResourceBinding =
  rb_agent_id :: string
  rb_account_key :: string
  rb_budget_key :: string
  rb_model_id :: string
  rb_expected_usage_micro :: int
  rb_account_pool_binding :: "AccountPoolBindingV1 option"

definition ResourceBinding_init :: "ResourceBinding \<Rightarrow> ResourceBinding result" where
  "ResourceBinding_init r =
     and_then (bounded_text (PStr (rb_agent_id r)) ''invalid_resource_agent'' 128) (\<lambda>_.
     and_then (bounded_text (PStr (rb_account_key r)) ''invalid_resource_account'' 128) (\<lambda>_.
     and_then (bounded_text (PStr (rb_budget_key r)) ''invalid_resource_budget'' 128) (\<lambda>_.
     and_then (bounded_text (PStr (rb_model_id r)) ''invalid_resource_model'' 128) (\<lambda>_.
     and_then (bounded_int (PInt (rb_expected_usage_micro r)) ''invalid_resource_usage'' 0
                 MAX_RESOURCE_USAGE_MICRO) (\<lambda>_.
       Inr r)))))"

record LeaseBinding =
  lb_expected_state :: string
  lb_lease_id :: "string option"

definition LeaseBinding_init :: "LeaseBinding \<Rightarrow> LeaseBinding result" where
  "LeaseBinding_init l =
     and_then (bounded_text (PStr (lb_expected_state l)) ''invalid_lease_state'' 64) (\<lambda>_.
     and_then (case lb_lease_id l of None \<Rightarrow> Inr '''' | Some i \<Rightarrow> bounded_text (PStr i) ''invalid_lease_id'' 128)
       (\<lambda>_. Inr l))"

record AdmissionPriority =
  pr_dispatch :: string
  pr_selection_reason :: string

definition AdmissionPriority_init :: "AdmissionPriority \<Rightarrow> AdmissionPriority result" where
  "AdmissionPriority_init p =
     and_then (check (pr_dispatch p \<in> set [''DP0'', ''DP1'', ''DP2'', ''DP3''])
                 (AdmissionError ''invalid_dispatch_priority'')) (\<lambda>_.
     and_then (bounded_text (PStr (pr_selection_reason p)) ''invalid_selection_reason'' 128) (\<lambda>_.
       Inr p))"

subsection \<open>Admission records\<close>

text \<open>
  \<open>schema_version\<close> is only compared with 1, so it stays a dynamic value (a decoded \<open>True\<close> or
  \<open>1.0\<close> passes that comparison and is kept as it is).
\<close>

record AdmissionRecord =
  ar_schema_version :: pyval
  ar_admission_id :: string
  ar_request_id :: string
  ar_dispatch_id :: string
  ar_workpackage_id :: string
  ar_assignment_intent_id :: string
  ar_repo_id :: string
  ar_principal_id :: string
  ar_parent_principal_id :: string
  ar_grant_id :: string
  ar_grant_digest :: string
  ar_work_item_version :: int
  ar_scope :: ScopeBinding
  ar_resource :: ResourceBinding
  ar_lease_context :: LeaseBinding
  ar_priority :: AdmissionPriority
  ar_state :: AdmissionState
  ar_created_at_utc :: py_datetime
  ar_expires_at_utc :: py_datetime
  ar_revision :: int

text \<open>The nine bounded identifiers of a record with their error codes, in the order of the code.\<close>

definition record_ids :: "AdmissionRecord \<Rightarrow> (string \<times> string) list" where
  "record_ids r =
     [(ar_admission_id r, ''invalid_admission_id''), (ar_request_id r, ''invalid_request_id''),
      (ar_dispatch_id r, ''invalid_dispatch_id''), (ar_workpackage_id r, ''invalid_workpackage_id''),
      (ar_assignment_intent_id r, ''invalid_assignment_intent_id''),
      (ar_repo_id r, ''invalid_repo_id''), (ar_principal_id r, ''invalid_principal_id''),
      (ar_parent_principal_id r, ''invalid_parent_principal_id''),
      (ar_grant_id r, ''invalid_grant_id'')]"

definition AdmissionRecord_init :: "AdmissionRecord \<Rightarrow> AdmissionRecord result" where
  "AdmissionRecord_init r =
     and_then (check (py_eq_int (ar_schema_version r) 1)
                 (AdmissionError ''unsupported_admission_schema'')) (\<lambda>_.
     and_then (map_result (\<lambda>(v, code). bounded_text (PStr v) code MAX_ADMISSION_ID_LENGTH)
                 (record_ids r)) (\<lambda>_.
     and_then (bounded_text (PStr (ar_grant_digest r)) ''invalid_grant_digest'' 192) (\<lambda>_.
     and_then (bounded_int (PInt (ar_work_item_version r)) ''invalid_work_item_version'' 1 (10 ^ 12))
       (\<lambda>_.
     and_then (adm_aware (ar_created_at_utc r) ''invalid_created_timestamp'') (\<lambda>created.
     and_then (adm_aware (ar_expires_at_utc r) ''invalid_expiry_timestamp'') (\<lambda>expires.
     and_then (let ttl = instant expires - instant created
               in check (\<not> (ttl \<le> 0 \<or> ttl > MAX_RESERVATION_TTL_SECONDS * us_per_second))
                    (AdmissionError ''invalid_reservation_ttl'')) (\<lambda>_.
     and_then (bounded_int (PInt (ar_revision r)) ''invalid_admission_revision'' 0 (10 ^ 12)) (\<lambda>_.
       Inr r))))))))"

definition active :: "AdmissionRecord \<Rightarrow> bool" where
  "active r = (ar_state r \<in> set ACTIVE_STATES)"

definition is_expired :: "AdmissionRecord \<Rightarrow> py_datetime \<Rightarrow> bool result" where
  "is_expired r now =
     and_then (adm_aware now ''invalid_admission_time'') (\<lambda>now.
       Inr (instant now \<ge> instant (ar_expires_at_utc r)))"

text \<open>\<open>replace(self, state=target, revision=self.revision + 1)\<close> runs \<open>__post_init__\<close> again.\<close>

definition advance :: "AdmissionRecord \<Rightarrow> AdmissionState \<Rightarrow> py_datetime \<Rightarrow> AdmissionRecord result" where
  "advance r target now =
     and_then (adm_aware now ''invalid_admission_time'') (\<lambda>now.
     and_then (check (target \<in> set (ALLOWED_TRANSITIONS (ar_state r)))
                 (AdmissionError (''invalid_transition:'' @ AdmissionState_value (ar_state r) @ ''->'' @
                    AdmissionState_value target))) (\<lambda>_.
     and_then (is_expired r now) (\<lambda>expired.
     and_then (check (\<not> (ar_state r \<in> set EXPIRABLE_STATES \<and> expired \<and>
                          target \<notin> set [EXPIRED, COMPENSATED]))
                 (AdmissionError ''admission_expired'')) (\<lambda>_.
       AdmissionRecord_init (r\<lparr>ar_state := target, ar_revision := ar_revision r + 1\<rparr>)))))"

text \<open>The public view of a record: no account, scope path, grant, principal or lease identifier.\<close>

definition public :: "AdmissionRecord \<Rightarrow> pyval" where
  "public r = PDict
     [(''schema_version'', ar_schema_version r),
      (''admission_id'', PStr (ar_admission_id r)),
      (''request_id'', PStr (ar_request_id r)),
      (''dispatch_id'', PStr (ar_dispatch_id r)),
      (''workpackage_id'', PStr (ar_workpackage_id r)),
      (''repo_id'', PStr (ar_repo_id r)),
      (''work_item_version'', PInt (ar_work_item_version r)),
      (''scope'', PDict [(''mode'', PStr (sb_mode (ar_scope r))),
                        (''path_count'', PInt (int (length (sb_paths (ar_scope r)))))]),
      (''resource'', PDict
         [(''agent_id'', PStr (rb_agent_id (ar_resource r))),
          (''budget_key'', PStr (rb_budget_key (ar_resource r))),
          (''model_id'', PStr (rb_model_id (ar_resource r))),
          (''expected_usage_micro'', PInt (rb_expected_usage_micro (ar_resource r)))]),
      (''lease_context'', PDict [(''expected_state'', PStr (lb_expected_state (ar_lease_context r)))]),
      (''priority'', PDict
         [(''dispatch'', PStr (pr_dispatch (ar_priority r))),
          (''selection_reason'', PStr (pr_selection_reason (ar_priority r)))]),
      (''state'', PStr (AdmissionState_value (ar_state r))),
      (''created_at_utc'', PStr (isoformat (ar_created_at_utc r))),
      (''expires_at_utc'', PStr (isoformat (ar_expires_at_utc r))),
      (''revision'', PInt (ar_revision r))]"

type_synonym id_text = string

definition create_admission ::
  "id_text \<Rightarrow> id_text \<Rightarrow> id_text \<Rightarrow> id_text \<Rightarrow> id_text \<Rightarrow> id_text \<Rightarrow> id_text \<Rightarrow> id_text \<Rightarrow> id_text \<Rightarrow>
   string \<Rightarrow> int \<Rightarrow>
   ScopeBinding \<Rightarrow> ResourceBinding \<Rightarrow> LeaseBinding \<Rightarrow> AdmissionPriority \<Rightarrow> py_datetime \<Rightarrow> int \<Rightarrow>
   AdmissionRecord result" where
  "create_admission admission_id request_id dispatch_id workpackage_id assignment_intent_id repo_id
     principal_id parent_principal_id grant_id grant_digest work_item_version scope resource
     lease_context priority now ttl_seconds =
     and_then (adm_aware now ''invalid_admission_time'') (\<lambda>now.
     and_then (bounded_int (PInt ttl_seconds) ''invalid_reservation_ttl'' 1 MAX_RESERVATION_TTL_SECONDS)
       (\<lambda>ttl.
     and_then (plus_seconds now ttl) (\<lambda>expires.
       AdmissionRecord_init
         \<lparr>ar_schema_version = PInt 1, ar_admission_id = admission_id, ar_request_id = request_id,
          ar_dispatch_id = dispatch_id, ar_workpackage_id = workpackage_id,
          ar_assignment_intent_id = assignment_intent_id, ar_repo_id = repo_id,
          ar_principal_id = principal_id, ar_parent_principal_id = parent_principal_id,
          ar_grant_id = grant_id, ar_grant_digest = grant_digest,
          ar_work_item_version = work_item_version, ar_scope = scope, ar_resource = resource,
          ar_lease_context = lease_context, ar_priority = priority, ar_state = PLANNED,
          ar_created_at_utc = now, ar_expires_at_utc = expires, ar_revision = 0\<rparr>)))"

subsection \<open>Scope overlap\<close>

definition scope_paths_overlap :: "string \<Rightarrow> string \<Rightarrow> bool" where
  "scope_paths_overlap left right =
     (left = right \<or> starts_with (right @ ''/'') left \<or> starts_with (left @ ''/'') right)"

definition scope_conflicts :: "AdmissionRecord \<Rightarrow> AdmissionRecord \<Rightarrow> bool" where
  "scope_conflicts left right =
     (if ar_repo_id left \<noteq> ar_repo_id right then False
      else if sb_mode (ar_scope left) = ''read'' \<and> sb_mode (ar_scope right) = ''read'' then False
      else list_ex (\<lambda>left_path. list_ex (scope_paths_overlap left_path) (sb_paths (ar_scope right)))
             (sb_paths (ar_scope left)))"

subsection \<open>The store\<close>

record AdmissionStore =
  st_records :: "(string, AdmissionRecord) dict"
  st_agent_capacity :: int
  st_account_capacity :: int
  st_account_model_capacity :: int

definition AdmissionStore_init :: "int \<Rightarrow> int \<Rightarrow> int \<Rightarrow> AdmissionStore result" where
  "AdmissionStore_init agent_capacity account_capacity account_model_capacity =
     and_then (bounded_int (PInt agent_capacity) ''invalid_agent_capacity'' 1 256) (\<lambda>_.
     and_then (bounded_int (PInt account_capacity) ''invalid_account_capacity'' 1 256) (\<lambda>_.
     and_then (bounded_int (PInt account_model_capacity) ''invalid_account_model_capacity'' 1 256) (\<lambda>_.
       Inr \<lparr>st_records = [], st_agent_capacity = agent_capacity,
            st_account_capacity = account_capacity,
            st_account_model_capacity = account_model_capacity\<rparr>)))"

abbreviation records_of :: "AdmissionStore \<Rightarrow> AdmissionRecord list" where
  "records_of s \<equiv> map snd (st_records s)"

abbreviation actives :: "AdmissionStore \<Rightarrow> AdmissionRecord list" where
  "actives s \<equiv> filter active (records_of s)"

definition put_record :: "AdmissionRecord \<Rightarrow> AdmissionStore \<Rightarrow> AdmissionStore" where
  "put_record r s = s\<lparr>st_records := AList.update (ar_admission_id r) r (st_records s)\<rparr>"

definition account_key_of :: "AdmissionRecord \<Rightarrow> string \<times> string" where
  "account_key_of r = (rb_account_key (ar_resource r), rb_budget_key (ar_resource r))"

definition model_key_of :: "AdmissionRecord \<Rightarrow> string \<times> string \<times> string" where
  "model_key_of r =
     (rb_account_key (ar_resource r), rb_budget_key (ar_resource r), rb_model_id (ar_resource r))"

definition agent_of :: "AdmissionRecord \<Rightarrow> string" where
  "agent_of r = rb_agent_id (ar_resource r)"

definition reservation_conflict :: "AdmissionStore \<Rightarrow> AdmissionRecord \<Rightarrow> string option" where
  "reservation_conflict s r =
     (let act = actives s in
      if list_ex (\<lambda>current. agent_of current = agent_of r) act then Some ''agent_conflict''
      else if int (length (filter (\<lambda>current. account_key_of current = account_key_of r) act))
                \<ge> st_account_capacity s then Some ''account_capacity_conflict''
      else if int (length (filter (\<lambda>current. model_key_of current = model_key_of r) act))
                \<ge> st_account_model_capacity s then Some ''account_model_capacity_conflict''
      else if list_ex (\<lambda>current. scope_conflicts current r) act then Some ''scope_conflict''
      else None)"

text \<open>The loop of \<open>_expire_locked\<close> over the snapshot of the records.\<close>

fun expire_loop ::
  "py_datetime \<Rightarrow> AdmissionRecord list \<Rightarrow> (AdmissionStore, AdmissionRecord list) op" where
  "expire_loop now [] s = (Inr [], s)"
| "expire_loop now (r # rs) s =
     (case is_expired r now of
        Inl e \<Rightarrow> (if ar_state r \<in> set EXPIRABLE_STATES then (Inl e, s) else expire_loop now rs s)
      | Inr expired \<Rightarrow>
          (if ar_state r \<in> set EXPIRABLE_STATES \<and> expired
           then (case advance r EXPIRED now of
                   Inl e \<Rightarrow> (Inl e, s)
                 | Inr updated \<Rightarrow>
                     op_bind (expire_loop now rs) (\<lambda>us. op_lift (Inr (updated # us))) (put_record updated s))
           else expire_loop now rs s))"

definition expire_locked :: "py_datetime \<Rightarrow> (AdmissionStore, AdmissionRecord list) op" where
  "expire_locked now s = expire_loop now (records_of s) s"

definition reserve :: "AdmissionRecord \<Rightarrow> py_datetime \<Rightarrow> (AdmissionStore, AdmissionRecord) op" where
  "reserve r now =
     op_bind (op_lift (adm_aware now ''invalid_admission_time'')) (\<lambda>now.
     op_bind (op_lift (check (ar_state r = PLANNED) (AdmissionError ''record_must_be_planned''))) (\<lambda>_.
     op_bind (expire_locked now) (\<lambda>_ s.
       if map_of (st_records s) (ar_admission_id r) \<noteq> None
       then (Inl (AdmissionError ''duplicate_admission_id''), s)
       else (case reservation_conflict s r of
               Some conflict \<Rightarrow> (Inl (AdmissionError conflict), s)
             | None \<Rightarrow>
                 (case advance r RESERVED now of
                    Inl e \<Rightarrow> (Inl e, s)
                  | Inr reserved \<Rightarrow> (Inr reserved, put_record reserved s))))))"

definition get :: "string \<Rightarrow> (AdmissionStore, AdmissionRecord) op" where
  "get admission_id s =
     (case map_of (st_records s) admission_id of
        None \<Rightarrow> (Inl (AdmissionError ''admission_not_found''), s)
      | Some r \<Rightarrow> (Inr r, s))"

definition transition_locked ::
  "AdmissionRecord \<Rightarrow> AdmissionState \<Rightarrow> int \<Rightarrow> py_datetime \<Rightarrow> (AdmissionStore, AdmissionRecord) op" where
  "transition_locked r target expected_revision now s =
     (case bounded_int (PInt expected_revision) ''invalid_admission_revision'' 0 (10 ^ 12) of
        Inl e \<Rightarrow> (Inl e, s)
      | Inr _ \<Rightarrow>
          (if ar_revision r \<noteq> expected_revision
           then (Inl (AdmissionError ''stale_admission_revision''), s)
           else (case advance r target now of
                   Inl e \<Rightarrow> (Inl e, s)
                 | Inr updated \<Rightarrow> (Inr updated, put_record updated s))))"

definition transition ::
  "string \<Rightarrow> AdmissionState \<Rightarrow> int \<Rightarrow> py_datetime \<Rightarrow> (AdmissionStore, AdmissionRecord) op" where
  "transition admission_id target expected_revision now s =
     (case adm_aware now ''invalid_admission_time'' of
        Inl e \<Rightarrow> (Inl e, s)
      | Inr now \<Rightarrow>
          (case map_of (st_records s) admission_id of
             None \<Rightarrow> (Inl (AdmissionError ''admission_not_found''), s)
           | Some r \<Rightarrow> transition_locked r target expected_revision now s))"

text \<open>
  The named transitions. They call \<open>self.transition\<close> and \<open>self.get\<close>, which a subclass overrides,
  so those are arguments: \<open>tr\<close> and \<open>gt\<close>.
\<close>

type_synonym 's transition_op = "string \<Rightarrow> AdmissionState \<Rightarrow> int \<Rightarrow> py_datetime \<Rightarrow> ('s, AdmissionRecord) op"

definition begin_revalidation ::
  "'s transition_op \<Rightarrow> string \<Rightarrow> int \<Rightarrow> py_datetime \<Rightarrow> ('s, AdmissionRecord) op" where
  "begin_revalidation tr admission_id expected_revision now = tr admission_id REVALIDATING expected_revision now"

definition complete_revalidation ::
  "'s transition_op \<Rightarrow> string \<Rightarrow> int \<Rightarrow> bool \<Rightarrow> py_datetime \<Rightarrow> ('s, AdmissionRecord) op" where
  "complete_revalidation tr admission_id expected_revision valid now =
     tr admission_id (if valid then ADMITTED else DENIED) expected_revision now"

definition begin_execution ::
  "'s transition_op \<Rightarrow> string \<Rightarrow> int \<Rightarrow> py_datetime \<Rightarrow> ('s, AdmissionRecord) op" where
  "begin_execution tr admission_id expected_revision now = tr admission_id EXECUTING expected_revision now"

definition finalize ::
  "(string \<Rightarrow> ('s, AdmissionRecord) op) \<Rightarrow> 's transition_op \<Rightarrow> string \<Rightarrow> int \<Rightarrow> py_datetime \<Rightarrow>
   ('s, AdmissionRecord) op" where
  "finalize gt tr admission_id expected_revision now =
     op_bind (gt admission_id) (\<lambda>r.
       if ar_state r = FINALIZED then op_lift (Inr r) else tr admission_id FINALIZED expected_revision now)"

definition mark_execution_failed ::
  "'s transition_op \<Rightarrow> string \<Rightarrow> int \<Rightarrow> py_datetime \<Rightarrow> ('s, AdmissionRecord) op" where
  "mark_execution_failed tr admission_id expected_revision now = tr admission_id EXECUTION_FAILED expected_revision now"

definition begin_compensation ::
  "'s transition_op \<Rightarrow> string \<Rightarrow> int \<Rightarrow> py_datetime \<Rightarrow> ('s, AdmissionRecord) op" where
  "begin_compensation tr admission_id expected_revision now = tr admission_id COMPENSATING expected_revision now"

definition compensate ::
  "'s transition_op \<Rightarrow> string \<Rightarrow> int \<Rightarrow> py_datetime \<Rightarrow> ('s, AdmissionRecord) op" where
  "compensate tr admission_id expected_revision now = tr admission_id COMPENSATED expected_revision now"

definition finish_compensation ::
  "'s transition_op \<Rightarrow> string \<Rightarrow> int \<Rightarrow> py_datetime \<Rightarrow> ('s, AdmissionRecord) op" where
  "finish_compensation tr admission_id expected_revision now = tr admission_id FAILED_FINAL expected_revision now"

definition cancel ::
  "'s transition_op \<Rightarrow> string \<Rightarrow> int \<Rightarrow> py_datetime \<Rightarrow> ('s, AdmissionRecord) op" where
  "cancel tr admission_id expected_revision now = tr admission_id CANCELLED expected_revision now"

definition recover_after_crash ::
  "'s transition_op \<Rightarrow> string \<Rightarrow> int \<Rightarrow> py_datetime \<Rightarrow> ('s, AdmissionRecord) op" where
  "recover_after_crash tr admission_id expected_revision now = tr admission_id RECOVERED_AFTER_CRASH expected_revision now"

definition expire :: "py_datetime \<Rightarrow> (AdmissionStore, AdmissionRecord list) op" where
  "expire now =
     op_bind (op_lift (adm_aware now ''invalid_admission_time'')) (\<lambda>now. expire_locked now)"

definition prune_expired :: "py_datetime \<Rightarrow> (AdmissionStore, string list) op" where
  "prune_expired now = op_bind (expire now) (\<lambda>rs. op_lift (Inr (map ar_admission_id rs)))"

definition public_snapshot :: "(AdmissionStore, pyval list) op" where
  "public_snapshot s = (Inr (map public (records_of s)), s)"

definition records_snapshot :: "(AdmissionStore, AdmissionRecord list) op" where
  "records_snapshot s = (Inr (records_of s), s)"

subsection \<open>Records and the transition graph\<close>

lemma bounded_text_Inr [result_simps]:
  "bounded_text (PStr s) code n = Inr t \<longleftrightarrow> text_ok n s \<and> t = s"
  by auto

lemma bounded_int_Inr [result_simps]:
  "bounded_int (PInt i) code lo hi = Inr j \<longleftrightarrow> lo \<le> i \<and> i \<le> hi \<and> j = i"
  by (auto simp: bounded_int_def result_simps)

lemma adm_aware_Inr [result_simps]: "adm_aware d code = Inr d' \<longleftrightarrow> aware d \<and> d' = d"
  by (auto simp: adm_aware_def)

lemma adm_aware_simp [simp]: "aware d \<Longrightarrow> adm_aware d code = Inr d"
  by (simp add: adm_aware_def)

text \<open>The conditions under which a record can be constructed.\<close>

definition record_wf :: "AdmissionRecord \<Rightarrow> bool" where
  "record_wf r =
     (py_eq_int (ar_schema_version r) 1 \<and> list_all (\<lambda>(v, _). text_ok MAX_ADMISSION_ID_LENGTH v) (record_ids r) \<and>
      text_ok 192 (ar_grant_digest r) \<and> 1 \<le> ar_work_item_version r \<and> ar_work_item_version r \<le> 10 ^ 12 \<and>
      aware (ar_created_at_utc r) \<and> aware (ar_expires_at_utc r) \<and>
      0 < instant (ar_expires_at_utc r) - instant (ar_created_at_utc r) \<and>
      instant (ar_expires_at_utc r) - instant (ar_created_at_utc r)
        \<le> MAX_RESERVATION_TTL_SECONDS * us_per_second \<and>
      0 \<le> ar_revision r \<and> ar_revision r \<le> 10 ^ 12)"

lemma AdmissionRecord_init_Inr [result_simps]:
  "AdmissionRecord_init r = Inr r' \<longleftrightarrow> record_wf r \<and> r' = r"
  by (auto simp: AdmissionRecord_init_def record_wf_def record_ids_def result_simps Let_def)

lemma advance_Inr:
  "advance r target now = Inr u \<longleftrightarrow>
     aware now \<and> target \<in> set (ALLOWED_TRANSITIONS (ar_state r)) \<and>
     (ar_state r \<in> set EXPIRABLE_STATES \<and> instant (ar_expires_at_utc r) \<le> instant now \<longrightarrow>
        target = EXPIRED \<or> target = COMPENSATED) \<and>
     u = r\<lparr>ar_state := target, ar_revision := ar_revision r + 1\<rparr> \<and> record_wf u"
  by (auto simp: advance_def is_expired_def result_simps)

lemma record_wf_advanced:
  "record_wf r \<Longrightarrow> record_wf (r\<lparr>ar_state := t, ar_revision := ar_revision r + 1\<rparr>) \<longleftrightarrow>
     ar_revision r < 10 ^ 12"
  by (auto simp: record_wf_def record_ids_def)

definition edge :: "AdmissionState \<Rightarrow> AdmissionState \<Rightarrow> bool" where
  "edge s t = (t \<in> set (ALLOWED_TRANSITIONS s))"

lemma inactive_stays: "edge x y \<Longrightarrow> x \<notin> set ACTIVE_STATES \<Longrightarrow> y \<notin> set ACTIVE_STATES"
  by (cases x) (auto simp: edge_def ACTIVE_STATES_def)

interpretation released: one_way edge "\<lambda>s. s \<in> set ACTIVE_STATES"
  by unfold_locales (rule inactive_stays)

text \<open>The fields that no transition changes and that the conflict checks read.\<close>

definition same_claim :: "AdmissionRecord \<Rightarrow> AdmissionRecord \<Rightarrow> bool" where
  "same_claim r u =
     (ar_admission_id u = ar_admission_id r \<and> ar_resource u = ar_resource r \<and>
      ar_scope u = ar_scope r \<and> ar_repo_id u = ar_repo_id r)"

lemma advance_same_claim: "advance r t now = Inr u \<Longrightarrow> same_claim r u"
  by (auto simp: advance_Inr same_claim_def)

lemma advance_active: "advance r t now = Inr u \<Longrightarrow> active u \<Longrightarrow> active r"
  using released.dead_stays [of "ar_state r" t]
  by (auto simp: advance_Inr active_def edge_def)

lemma scope_paths_overlap_sym: "scope_paths_overlap l r = scope_paths_overlap r l"
  by (auto simp: scope_paths_overlap_def)

lemma scope_conflicts_sym: "scope_conflicts l r = scope_conflicts r l"
proof -
  have "list_ex (\<lambda>p. list_ex (scope_paths_overlap p) qs) ps =
          list_ex (\<lambda>q. list_ex (scope_paths_overlap q) ps) qs" for ps qs
    unfolding list_ex_iff using scope_paths_overlap_sym by blast
  then show ?thesis by (auto simp: scope_conflicts_def)
qed

lemma scope_conflicts_claim:
  "same_claim a a' \<Longrightarrow> same_claim b b' \<Longrightarrow> scope_conflicts a' b' = scope_conflicts a b"
  by (simp add: scope_conflicts_def same_claim_def)

subsection \<open>Exclusiveness of the active records\<close>

definition exclusive_list :: "int \<Rightarrow> int \<Rightarrow> AdmissionRecord list \<Rightarrow> bool" where
  "exclusive_list account_capacity model_capacity rs =
     (distinct (map agent_of rs) \<and>
      (\<forall>k. int (length (filter (\<lambda>r. account_key_of r = k) rs)) \<le> account_capacity) \<and>
      (\<forall>k. int (length (filter (\<lambda>r. model_key_of r = k) rs)) \<le> model_capacity) \<and>
      sorted_wrt (\<lambda>a b. \<not> scope_conflicts a b) rs)"

definition exclusive :: "AdmissionStore \<Rightarrow> bool" where
  "exclusive s = exclusive_list (st_account_capacity s) (st_account_model_capacity s) (actives s)"

definition store_wf :: "AdmissionStore \<Rightarrow> bool" where
  "store_wf s =
     (dict_wf (st_records s) \<and> (\<forall>(k, r) \<in> set (st_records s). k = ar_admission_id r \<and> record_wf r))"

definition store_inv :: "AdmissionStore \<Rightarrow> bool" where
  "store_inv s = (store_wf s \<and> exclusive s)"

lemma length_filter_filter: "length (filter Q (filter P xs)) \<le> length (filter Q xs)"
  by (induction xs) auto

lemma exclusive_list_filter:
  assumes "exclusive_list ac mc rs"
  shows "exclusive_list ac mc (filter P rs)"
proof -
  have "int (length (filter Q (filter P rs))) \<le> int (length (filter Q rs))" for Q
    using length_filter_filter [of Q P rs] by (simp only: of_nat_le_iff)
  with assms show ?thesis
    unfolding exclusive_list_def
    by (meson distinct_map_filter order_trans sorted_wrt_filter)
qed

lemma claim_views:
  assumes "same_claim r u"
  shows "agent_of u = agent_of r" "account_key_of u = account_key_of r"
    "model_key_of u = model_key_of r"
  using assms by (simp_all add: same_claim_def agent_of_def account_key_of_def model_key_of_def)

lemma exclusive_list_claims:
  assumes "list_all2 same_claim rs us" and "exclusive_list ac mc rs"
  shows "exclusive_list ac mc us"
proof -
  have len: "length us = length rs" using assms(1) by (simp add: list_all2_lengthD)
  have nth: "same_claim (rs ! i) (us ! i)" if "i < length rs" for i
    using assms(1) that by (simp add: list_all2_conv_all_nth)
  have m: "map f us = map f rs" if "\<And>r u. same_claim r u \<Longrightarrow> f u = f r" for f :: "AdmissionRecord \<Rightarrow> 'b"
    using len nth that by (intro nth_equalityI) auto
  have cnt: "length (filter (\<lambda>r. f r = k) us) = length (filter (\<lambda>r. f r = k) rs)"
    if "\<And>r u. same_claim r u \<Longrightarrow> f u = f r" for f :: "AdmissionRecord \<Rightarrow> 'b" and k
  proof -
    have "length (filter (\<lambda>r. f r = k) xs) = length (filter (\<lambda>y. y = k) (map f xs))" for xs
      by (simp add: filter_map comp_def)
    then show ?thesis by (simp only: m [OF that])
  qed
  have "sorted_wrt (\<lambda>a b. \<not> scope_conflicts a b) us"
    unfolding sorted_wrt_iff_nth_less
  proof (intro allI impI)
    fix i j
    assume ij: "i < j" "j < length us"
    then have "\<not> scope_conflicts (rs ! i) (rs ! j)"
      using assms(2) len by (simp add: exclusive_list_def sorted_wrt_iff_nth_less)
    then show "\<not> scope_conflicts (us ! i) (us ! j)"
      using scope_conflicts_claim [OF nth [of i] nth [of j]] ij len by simp
  qed
  moreover have "map agent_of us = map agent_of rs"
    by (rule m) (simp add: claim_views)
  moreover have "length (filter (\<lambda>r. account_key_of r = k) us) =
      length (filter (\<lambda>r. account_key_of r = k) rs)" for k
    by (rule cnt) (simp add: claim_views)
  moreover have "length (filter (\<lambda>r. model_key_of r = k) us) =
      length (filter (\<lambda>r. model_key_of r = k) rs)" for k
    by (rule cnt) (simp add: claim_views)
  ultimately show ?thesis using assms(2) by (simp add: exclusive_list_def)
qed

lemma exclusive_actives:
  assumes "exclusive_list ac mc (filter active rs)"
    and "\<And>r. r \<in> set rs \<Longrightarrow> active (g r) \<Longrightarrow> active r"
    and "\<And>r. r \<in> set rs \<Longrightarrow> same_claim r (g r)"
  shows "exclusive_list ac mc (filter active (map g rs))"
proof -
  have eq: "filter active (map g rs) = map g (filter (\<lambda>r. active (g r)) (filter active rs))"
    using assms(2) by (induction rs) auto
  have "list_all2 same_claim xs (map g xs)" if "set xs \<subseteq> set rs" for xs
    using that assms(3) by (auto simp: list_all2_conv_all_nth) (meson nth_mem subset_code(1))
  then have "list_all2 same_claim (filter (\<lambda>r. active (g r)) (filter active rs))
      (map g (filter (\<lambda>r. active (g r)) (filter active rs)))"
    by (rule meta_mp) auto
  then show ?thesis
    unfolding eq by (rule exclusive_list_claims) (intro exclusive_list_filter assms(1))
qed

lemma same_claim_refl [simp]: "same_claim r r"
  by (simp add: same_claim_def)

lemma store_wf_lookups:
  "store_wf s \<longleftrightarrow> dict_wf (st_records s) \<and>
     (\<forall>k r. map_of (st_records s) k = Some r \<longrightarrow> k = ar_admission_id r \<and> record_wf r)"
  by (auto simp: store_wf_def map_of_eq_Some_iff)

lemma store_wf_lookup:
  "store_wf s \<Longrightarrow> map_of (st_records s) i = Some r \<Longrightarrow> ar_admission_id r = i \<and> record_wf r"
  by (auto simp: store_wf_def dest!: map_of_SomeD)

lemma store_wf_put: "store_wf s \<Longrightarrow> record_wf u \<Longrightarrow> store_wf (put_record u s)"
  by (auto simp: store_wf_lookups put_record_def split: if_splits)

lemma records_put_present:
  assumes "store_wf s" and "map_of (st_records s) (ar_admission_id u) = Some r"
  shows "records_of (put_record u s) =
           map (\<lambda>x. if ar_admission_id x = ar_admission_id u then u else x) (records_of s)"
  using assms by (auto simp: store_wf_def put_record_def update_present)

lemma put_advanced_inv:
  assumes inv: "store_inv s" and r: "map_of (st_records s) (ar_admission_id r) = Some r"
    and adv: "advance r t now = Inr u"
  shows "store_inv (put_record u s)"
proof -
  have wf: "store_wf s" using inv by (simp add: store_inv_def)
  have claim: "same_claim r u" using adv by (rule advance_same_claim)
  then have id: "ar_admission_id u = ar_admission_id r" by (simp add: same_claim_def)
  have uniq: "x = r" if "x \<in> set (records_of s)" "ar_admission_id x = ar_admission_id r" for x
  proof -
    from that(1) obtain k where "(k, x) \<in> set (st_records s)" by auto
    with wf that(2) have "map_of (st_records s) (ar_admission_id r) = Some x"
      by (auto simp: store_wf_def)
    with r show ?thesis by simp
  qed
  have ex: "exclusive_list (st_account_capacity s) (st_account_model_capacity s) (actives s)"
    using inv by (simp add: store_inv_def exclusive_def)
  have "exclusive_list (st_account_capacity s) (st_account_model_capacity s)
     (filter active (map (\<lambda>x. if ar_admission_id x = ar_admission_id u then u else x) (records_of s)))"
    by (rule exclusive_actives [OF ex])
      (use uniq id claim advance_active [OF adv] in \<open>auto split: if_splits\<close>)
  then have "exclusive (put_record u s)"
    using records_put_present [OF wf, of u r] r id
    by (simp add: exclusive_def put_record_def)
  moreover have "store_wf (put_record u s)"
    using wf adv by (intro store_wf_put) (auto simp: advance_Inr)
  ultimately show ?thesis by (simp add: store_inv_def)
qed

lemma exclusive_append:
  assumes "exclusive_list ac mc rs" and "\<forall>r \<in> set rs. agent_of r \<noteq> agent_of u"
    and "int (length (filter (\<lambda>r. account_key_of r = account_key_of u) rs)) < ac"
    and "int (length (filter (\<lambda>r. model_key_of r = model_key_of u) rs)) < mc"
    and "\<forall>r \<in> set rs. \<not> scope_conflicts r u"
  shows "exclusive_list ac mc (rs @ [u])"
  using assms by (auto simp: exclusive_list_def sorted_wrt_append)

lemma put_reserved_inv:
  assumes inv: "store_inv s" and fresh: "map_of (st_records s) (ar_admission_id r) = None"
    and free: "reservation_conflict s r = None" and adv: "advance r t now = Inr u"
  shows "store_inv (put_record u s)"
proof -
  have claim: "same_claim r u" using adv by (rule advance_same_claim)
  then have id: "ar_admission_id u = ar_admission_id r" by (simp add: same_claim_def)
  have recs: "records_of (put_record u s) = records_of s @ [u]"
    using fresh by (simp add: put_record_def id snd_update_fresh map_of_eq_None_iff)
  have ex: "exclusive_list (st_account_capacity s) (st_account_model_capacity s) (actives s)"
    using inv by (simp add: store_inv_def exclusive_def)
  have "exclusive_list (st_account_capacity s) (st_account_model_capacity s) (actives s @ [u])"
    using free claim_views [OF claim] scope_conflicts_claim [OF same_claim_refl claim]
    by (intro exclusive_append [OF ex])
      (auto simp: reservation_conflict_def Let_def list_ex_iff not_le split: if_splits)
  then have "exclusive (put_record u s)"
    using ex unfolding exclusive_def recs by (simp add: put_record_def)
  moreover have "store_wf (put_record u s)"
    using inv adv by (intro store_wf_put) (auto simp: advance_Inr store_inv_def)
  ultimately show ?thesis by (simp add: store_inv_def)
qed

subsection \<open>Operations on a well-formed store\<close>

text \<open>How a stored record may have changed: by as many transitions as its revision counts.\<close>

definition evolves :: "AdmissionRecord \<Rightarrow> AdmissionRecord \<Rightarrow> bool" where
  "evolves r u =
     (same_claim r u \<and>
      (\<exists>n. (edge ^^ n) (ar_state r) (ar_state u) \<and> ar_revision u = ar_revision r + int n))"

lemma evolves_refl [simp]: "evolves r r"
  by (auto simp: evolves_def intro: exI [of _ 0])

lemma evolves_trans: "evolves r u \<Longrightarrow> evolves u w \<Longrightarrow> evolves r w"
proof -
  assume "evolves r u" "evolves u w"
  then obtain m n where "same_claim r u" "same_claim u w"
    and path: "(edge ^^ m) (ar_state r) (ar_state u)" "(edge ^^ n) (ar_state u) (ar_state w)"
    and "ar_revision u = ar_revision r + int m" "ar_revision w = ar_revision u + int n"
    by (auto simp: evolves_def)
  moreover have "(edge ^^ (m + n)) (ar_state r) (ar_state w)"
    using path by (auto simp: relpowp_add)
  ultimately show "evolves r w"
    by (auto simp: evolves_def same_claim_def intro!: exI [of _ "m + n"])
qed

lemma advance_evolves: "advance r t now = Inr u \<Longrightarrow> evolves r u"
  unfolding evolves_def
  by (auto simp: advance_same_claim advance_Inr edge_def same_claim_def intro!: exI [of _ 1])

text \<open>What every operation keeps: the capacities, the invariant, and the history of each record.\<close>

definition keeps :: "AdmissionStore \<Rightarrow> AdmissionStore \<Rightarrow> bool" where
  "keeps s s' =
     (st_account_capacity s' = st_account_capacity s \<and>
      st_account_model_capacity s' = st_account_model_capacity s \<and>
      (store_inv s \<longrightarrow> store_inv s') \<and>
      (\<forall>i r. map_of (st_records s) i = Some r \<longrightarrow>
         (\<exists>u. map_of (st_records s') i = Some u \<and> evolves r u)))"

lemma keeps_refl [simp]: "keeps s s"
  by (simp add: keeps_def)

lemma keeps_trans: "keeps s t \<Longrightarrow> keeps t u \<Longrightarrow> keeps s u"
  unfolding keeps_def by (smt (verit) evolves_trans)

lemma put_advanced_keeps:
  assumes "map_of (st_records s) (ar_admission_id r) = Some r" and adv: "advance r t now = Inr u"
  shows "keeps s (put_record u s)"
proof -
  have "ar_admission_id u = ar_admission_id r"
    using advance_same_claim [OF adv] by (simp add: same_claim_def)
  then show ?thesis
    using assms put_advanced_inv [OF _ assms] advance_evolves [OF adv]
    by (auto simp: keeps_def put_record_def)
qed

lemma put_reserved_keeps:
  assumes "map_of (st_records s) (ar_admission_id r) = None" and "reservation_conflict s r = None"
    and adv: "advance r t now = Inr u"
  shows "keeps s (put_record u s)"
proof -
  have "ar_admission_id u = ar_admission_id r"
    using advance_same_claim [OF adv] by (simp add: same_claim_def)
  then show ?thesis
    using assms put_reserved_inv [OF _ assms] by (auto simp: keeps_def put_record_def)
qed

lemma expire_loop_keeps:
  "distinct (map ar_admission_id rs) \<Longrightarrow>
   \<forall>r \<in> set rs. map_of (st_records s) (ar_admission_id r) = Some r \<Longrightarrow>
   expire_loop now rs s = (res, s') \<Longrightarrow> keeps s s'"
proof (induction rs arbitrary: s res)
  case Nil
  then show ?case by simp
next
  case (Cons r rs)
  consider (skip) "expire_loop now rs s = (res, s')" | (err) "s' = s"
    | (step) u res' where "advance r EXPIRED now = Inr u"
        "expire_loop now rs (put_record u s) = (res', s')"
    using Cons.prems(3) by (auto simp: op_bind_cases split: sum.splits if_splits)
  then show ?case
  proof cases
    case skip
    then show ?thesis using Cons by simp
  next
    case step
    have id: "ar_admission_id u = ar_admission_id r"
      using advance_same_claim [OF step(1)] by (simp add: same_claim_def)
    have "ar_admission_id x \<noteq> ar_admission_id r" if "x \<in> set rs" for x
      using Cons.prems(1) that by (auto simp: image_iff)
    then have "\<forall>x \<in> set rs. map_of (st_records (put_record u s)) (ar_admission_id x) = Some x"
      using Cons.prems(2) id by (simp add: put_record_def)
    then have "keeps (put_record u s) s'"
      using Cons.IH [OF _ _ step(2)] Cons.prems(1) by simp
    moreover have "keeps s (put_record u s)"
      using Cons.prems(2) step(1) by (intro put_advanced_keeps) auto
    ultimately show ?thesis by (rule keeps_trans [rotated])
  next
    case err
    then show ?thesis by simp
  qed
qed

lemma store_wf_snapshot:
  assumes "store_wf s"
  shows "distinct (map ar_admission_id (records_of s))"
    "\<forall>r \<in> set (records_of s). map_of (st_records s) (ar_admission_id r) = Some r"
proof -
  have "map ar_admission_id (records_of s) = map fst (st_records s)"
    using assms by (auto simp: store_wf_def)
  then show "distinct (map ar_admission_id (records_of s))"
    using assms unfolding store_wf_def by (simp only:)
  show "\<forall>r \<in> set (records_of s). map_of (st_records s) (ar_admission_id r) = Some r"
    using assms by (auto simp: store_wf_def)
qed

lemma expire_locked_keeps:
  "store_wf s \<Longrightarrow> expire_locked now s = (res, s') \<Longrightarrow> keeps s s'"
  unfolding expire_locked_def using expire_loop_keeps store_wf_snapshot by blast

lemma reserve_keeps:
  assumes "store_inv s" and "reserve r now s = (res, s')"
  shows "keeps s s'"
proof -
  have wf: "store_wf s" using assms(1) by (simp add: store_inv_def)
  consider "s' = s" | (swept) res1 where "expire_locked now s = (res1, s')"
    | (put) res1 s1 u where "expire_locked now s = (res1, s1)" "advance r RESERVED now = Inr u"
        "map_of (st_records s1) (ar_admission_id r) = None" "reservation_conflict s1 r = None"
        "s' = put_record u s1"
    using assms(2)
    by (auto simp: reserve_def op_bind_cases result_simps adm_aware_def
        split: if_splits option.splits sum.splits)
  then show ?thesis
  proof cases
    case swept
    then show ?thesis using expire_locked_keeps [OF wf] by blast
  next
    case put
    then show ?thesis
      using expire_locked_keeps [OF wf put(1)] put_reserved_keeps [OF put(3,4,2)] keeps_trans by blast
  qed simp
qed

lemma transition_keeps:
  "store_wf s \<Longrightarrow> transition i t v now s = (res, s') \<Longrightarrow> keeps s s'"
  using put_advanced_keeps store_wf_lookup
  by (fastforce simp: transition_def transition_locked_def split: sum.splits option.splits if_splits)

lemma expire_keeps: "store_wf s \<Longrightarrow> expire now s = (res, s') \<Longrightarrow> keeps s s'"
  using expire_locked_keeps by (auto simp: expire_def op_bind_cases adm_aware_def split: if_splits)

end
