(* ===== verification/Admission_Properties.thy ===== *)
theory Admission_Properties
  imports Admission
begin

text \<open>
  What the in-process admission store guarantees over any sequence of operations: exclusiveness of
  the active reservations, the one-way life of a record, the revision check against lost updates,
  the exact effect of the expiry sweep and of a reservation.
\<close>

subsection \<open>Reachable stores\<close>

inductive store_step :: "AdmissionStore \<Rightarrow> AdmissionStore \<Rightarrow> bool" where
  step_reserve: "reserve r now s = (res, s') \<Longrightarrow> store_step s s'"
| step_transition: "transition i target v now s = (res, s') \<Longrightarrow> store_step s s'"
| step_finalize: "finalize get transition i v now s = (res, s') \<Longrightarrow> store_step s s'"
| step_expire: "expire now s = (res, s') \<Longrightarrow> store_step s s'"

inductive_cases store_stepE: "store_step s s'"

lemma finalize_keeps:
  "store_wf s \<Longrightarrow> finalize get transition i v now s = (res, s') \<Longrightarrow> keeps s s'"
  using transition_keeps
  by (auto simp: finalize_def get_def op_bind_def split: option.splits if_splits)

lemma store_step_keeps: "store_step s s' \<Longrightarrow> store_inv s \<Longrightarrow> keeps s s'"
  by (erule store_stepE)
    (auto simp: store_inv_def intro: reserve_keeps transition_keeps finalize_keeps expire_keeps)

lemma store_run_keeps:
  assumes "store_step\<^sup>*\<^sup>* s s'" and "store_inv s"
  shows "keeps s s'"
  using assms
proof (induction rule: rtranclp_induct)
  case base
  then show ?case by simp
next
  case (step t u)
  then have "keeps s t" by simp
  moreover from this step.prems have "store_inv t" by (simp add: keeps_def)
  ultimately show ?case using step.hyps(2) store_step_keeps keeps_trans by blast
qed

lemma store_inv_init: "AdmissionStore_init a c m = Inr s \<Longrightarrow> store_inv s"
  by (auto simp: AdmissionStore_init_def result_simps store_inv_def store_wf_def exclusive_def
      exclusive_list_def)

lemma init_capacities:
  "AdmissionStore_init a c m = Inr s \<Longrightarrow> st_account_capacity s = c \<and> st_account_model_capacity s = m"
  by (auto simp: AdmissionStore_init_def result_simps)

text \<open>A sample reservation request for the witnesses.\<close>

definition sample_now :: py_datetime where
  "sample_now = utc_at 63900000000"

definition sample_record :: AdmissionRecord where
  "sample_record =
     \<lparr>ar_schema_version = PInt 1, ar_admission_id = ''adm-1'', ar_request_id = ''req-1'',
      ar_dispatch_id = ''dsp-1'', ar_workpackage_id = ''wp-1'', ar_assignment_intent_id = ''int-1'',
      ar_repo_id = ''repo-1'', ar_principal_id = ''pri-1'', ar_parent_principal_id = ''pri-0'',
      ar_grant_id = ''gra-1'', ar_grant_digest = ''digest'', ar_work_item_version = 1,
      ar_scope = \<lparr>sb_mode = ''write'', sb_paths = [''src''], sb_canonical_digest = ''d''\<rparr>,
      ar_resource = \<lparr>rb_agent_id = ''agent-1'', rb_account_key = ''acc'', rb_budget_key = ''bud'',
        rb_model_id = ''model'', rb_expected_usage_micro = 0, rb_account_pool_binding = None\<rparr>,
      ar_lease_context = \<lparr>lb_expected_state = ''free'', lb_lease_id = None\<rparr>,
      ar_priority = \<lparr>pr_dispatch = ''DP1'', pr_selection_reason = ''fair''\<rparr>,
      ar_state = PLANNED, ar_created_at_utc = sample_now,
      ar_expires_at_utc = utc_at (63900000000 + 30), ar_revision = 0\<rparr>"

definition sample_store :: AdmissionStore where
  "sample_store = \<lparr>st_records = [], st_agent_capacity = 1, st_account_capacity = 1,
     st_account_model_capacity = 1\<rparr>"

definition reserved_store :: AdmissionStore where
  "reserved_store = snd (reserve sample_record sample_now sample_store)"

definition reserved_record :: AdmissionRecord where
  "reserved_record = sample_record\<lparr>ar_state := RESERVED, ar_revision := 1\<rparr>"

lemma sample_init: "AdmissionStore_init 1 1 1 = Inr sample_store"
  by code_simp

lemma sample_reserve: "reserve sample_record sample_now sample_store = (Inr reserved_record, reserved_store)"
  by code_simp

lemma reserved_store_records: "st_records reserved_store = [(''adm-1'', reserved_record)]"
  by code_simp

lemma sample_step: "store_step sample_store reserved_store"
  using sample_reserve by (rule step_reserve)

text \<open>
  C1. Exclusiveness. From the freshly constructed store, after any sequence of reservations,
  transitions, finalizations and expiry sweeps, successful or not: no two active records share an
  agent, no account and budget carries more active records than the account capacity, no account,
  budget and model more than the model capacity, and no two active records have conflicting scopes
  (overlapping paths in one repository with a writer among them).
\<close>

theorem active_records_exclusive:
  assumes "AdmissionStore_init a c m = Inr s0" and "store_step\<^sup>*\<^sup>* s0 s"
  shows "distinct (map agent_of (actives s)) \<and>
    (\<forall>k. int (length (filter (\<lambda>r. account_key_of r = k) (actives s))) \<le> c) \<and>
    (\<forall>k. int (length (filter (\<lambda>r. model_key_of r = k) (actives s))) \<le> m) \<and>
    sorted_wrt (\<lambda>x y. \<not> scope_conflicts x y) (actives s)"
proof -
  have "keeps s0 s" and "store_inv s0"
    using store_run_keeps [OF assms(2)] store_inv_init [OF assms(1)] by auto
  then show ?thesis
    using init_capacities [OF assms(1)]
    by (auto simp: keeps_def store_inv_def exclusive_def exclusive_list_def)
qed

theorem active_records_exclusive_witness:
  "map agent_of (actives reserved_store) = [''agent-1''] \<and>
   distinct (map agent_of (actives reserved_store))"
proof
  show "distinct (map agent_of (actives reserved_store))"
    using active_records_exclusive [OF sample_init r_into_rtranclp, OF sample_step] by blast
  show "map agent_of (actives reserved_store) = [''agent-1'']"
    by (simp add: reserved_store_records) code_simp
qed

text \<open>
  Life of a record. Whatever operations run, a stored record stays stored under its
  identifier with the same resource, scope and repository; its revision counts exactly the allowed
  transitions it has made; and once it is inactive (so its capacity is released) it is never active
  again.
\<close>

theorem record_history:
  assumes "store_inv s" and "store_step\<^sup>*\<^sup>* s s'" and "map_of (st_records s) i = Some r"
  shows "\<exists>u. map_of (st_records s') i = Some u \<and> same_claim r u \<and> ar_revision r \<le> ar_revision u \<and>
    (edge ^^ nat (ar_revision u - ar_revision r)) (ar_state r) (ar_state u) \<and>
    (\<not> active r \<longrightarrow> \<not> active u)"
proof -
  obtain u n where u: "map_of (st_records s') i = Some u" "same_claim r u"
      "(edge ^^ n) (ar_state r) (ar_state u)" "ar_revision u = ar_revision r + int n"
    using store_run_keeps [OF assms(2,1)] assms(3) by (fastforce simp: keeps_def evolves_def)
  then have "\<not> active r \<Longrightarrow> \<not> active u"
    using released.dead_forever relpowp_imp_rtranclp by (fastforce simp: active_def)
  with u show ?thesis by auto
qed

theorem record_history_witness:
  "\<exists>u. map_of (st_records reserved_store) ''adm-1'' = Some u \<and> same_claim reserved_record u \<and>
     (\<not> active reserved_record \<longrightarrow> \<not> active u)"
proof -
  have "store_inv reserved_store"
    using store_step_keeps [OF sample_step] store_inv_init [OF sample_init] by (simp add: keeps_def)
  from record_history [OF this rtranclp.rtrancl_refl] show ?thesis
    by (fastforce simp: reserved_store_records)
qed

subsection \<open>The revision check\<close>

definition stored_revision :: "AdmissionStore \<Rightarrow> string \<Rightarrow> int option" where
  "stored_revision s i = map_option ar_revision (map_of (st_records s) i)"

definition transition_put ::
  "string \<Rightarrow> int \<Rightarrow> AdmissionState \<times> py_datetime \<Rightarrow> (AdmissionStore, AdmissionRecord) op" where
  "transition_put i v a = transition i (fst a) v (snd a)"

lemma advance_aware: "advance r t now = Inr u \<Longrightarrow> aware now"
  by (simp add: advance_Inr)

lemma transition_Inr:
  "transition i t v now s = (Inr u, s') \<longleftrightarrow>
     (\<exists>r. map_of (st_records s) i = Some r \<and> 0 \<le> v \<and> v \<le> 10 ^ 12 \<and> ar_revision r = v \<and>
        advance r t now = Inr u \<and> s' = put_record u s)"
  by (auto simp: transition_def transition_locked_def bounded_int_def need_def adm_aware_def
      dest: advance_aware split: option.splits sum.splits if_splits)

lemma transition_Inl: "transition i t v now s = (Inl e, s') \<Longrightarrow> s' = s"
  by (auto simp: transition_def transition_locked_def split: option.splits sum.splits if_splits)

lemma advanced_view:
  "advance r t now = Inr u \<Longrightarrow> ar_admission_id u = ar_admission_id r \<and> ar_revision u = ar_revision r + 1"
  by (auto simp: advance_Inr)

lemma transition_put_ok:
  assumes wf: "store_wf s" and put: "transition_put i v a s = (Inr u, s')"
  shows "stored_revision s i = Some v" "stored_revision s' i = Some (v + 1)"
    "j \<noteq> i \<Longrightarrow> stored_revision s' j = stored_revision s j" "store_wf s'"
proof -
  obtain r where r: "map_of (st_records s) i = Some r" "ar_revision r = v"
      and adv: "advance r (fst a) (snd a) = Inr u" and s': "s' = put_record u s"
    using put by (auto simp: transition_put_def transition_Inr)
  have id: "ar_admission_id u = i" "ar_revision u = v + 1"
    using advanced_view [OF adv] store_wf_lookup [OF wf r(1)] r(2) by auto
  show "stored_revision s i = Some v" using r by (simp add: stored_revision_def)
  show "stored_revision s' i = Some (v + 1)"
    using s' id by (simp add: stored_revision_def put_record_def)
  show "stored_revision s' j = stored_revision s j" if "j \<noteq> i"
    using s' id that by (simp add: stored_revision_def put_record_def)
  show "store_wf s'" using s' store_wf_put [OF wf, of u] adv by (auto simp: advance_Inr)
qed

lemma transition_put_error: "transition_put i v a s = (Inl e, s') \<Longrightarrow> s' = s"
  using transition_Inl by (simp add: transition_put_def)

interpretation cas: versioned_store transition_put stored_revision store_wf
proof
  fix s s' i v a j and res :: "AdmissionRecord result"
  assume wf: "store_wf s" and put: "transition_put i v a s = (res, s')"
  have "stored_revision s' j = stored_revision s j \<or> j = i" and "store_wf s'"
    using transition_put_ok(3,4) [OF wf] transition_put_error wf put
    by (cases res; blast)+
  then show "j \<noteq> i \<Longrightarrow> stored_revision s' j = stored_revision s j" and "store_wf s'"
    by blast+
qed (fact transition_put_ok transition_put_error)+

text \<open>
  C25. No lost update. Run any list of transition requests, for any records, targets and times: of
  the requests that name one record and hold the same expected revision, at most one succeeds, and
  the record's revision afterwards is its old revision plus the number of its successes.
\<close>

theorem transition_compare_and_set:
  assumes "store_wf s" and "run_puts transition_put reqs s = (outcomes, s')"
    and "stored_revision s i = Some n" and "\<forall>(j, w, _) \<in> set reqs. j = i \<longrightarrow> w = v"
  shows "successes i outcomes \<le> 1 \<and>
    stored_revision s' i = Some (n + int (successes i outcomes))"
  using cas.at_most_one_success [OF assms(1,2,4)] cas.version_counts [OF assms(1,3,2)] by blast

definition racing_requests :: "(string \<times> int \<times> AdmissionState \<times> py_datetime) list" where
  "racing_requests = [(''adm-1'', 1, REVALIDATING, sample_now), (''adm-1'', 1, CANCELLED, sample_now)]"

lemma reserved_store_inv: "store_inv reserved_store"
  using store_step_keeps [OF sample_step] store_inv_init [OF sample_init] by (simp add: keeps_def)

theorem transition_compare_and_set_witness:
  "fst (run_puts transition_put racing_requests reserved_store) = [(''adm-1'', True), (''adm-1'', False)]
   \<and> successes ''adm-1'' (fst (run_puts transition_put racing_requests reserved_store)) \<le> 1"
proof
  let ?run = "run_puts transition_put racing_requests reserved_store"
  have wf: "store_wf reserved_store" using reserved_store_inv by (simp add: store_inv_def)
  have rev: "stored_revision reserved_store ''adm-1'' = Some 1" by code_simp
  show "successes ''adm-1'' (fst ?run) \<le> 1"
    using transition_compare_and_set [OF wf prod.collapse [symmetric] rev, of racing_requests 1]
    by (simp add: racing_requests_def)
  show "fst ?run = [(''adm-1'', True), (''adm-1'', False)]" by code_simp
qed

subsection \<open>The expiry sweep\<close>

definition expirable_at :: "py_datetime \<Rightarrow> AdmissionRecord \<Rightarrow> bool" where
  "expirable_at now r = (ar_state r \<in> set EXPIRABLE_STATES \<and> instant (ar_expires_at_utc r) \<le> instant now)"

definition expired_copy :: "AdmissionRecord \<Rightarrow> AdmissionRecord" where
  "expired_copy r = r\<lparr>ar_state := EXPIRED, ar_revision := ar_revision r + 1\<rparr>"

text \<open>The store after the sweep, computed record by record.\<close>

definition swept :: "py_datetime \<Rightarrow> AdmissionStore \<Rightarrow> AdmissionStore" where
  "swept now s = s\<lparr>st_records :=
     map (\<lambda>(k, r). (k, if expirable_at now r then expired_copy r else r)) (st_records s)\<rparr>"

lemma update_middle:
  "k \<notin> fst ` set xs \<Longrightarrow> AList.update k v (xs @ (k, w) # ys) = xs @ (k, v) # ys"
  by (induction xs) auto

lemma advance_expired:
  assumes "aware now" and "expirable_at now r" and "record_wf r" and "ar_revision r < 10 ^ 12"
  shows "advance r EXPIRED now = Inr (expired_copy r)"
proof -
  have "EXPIRED \<in> set (ALLOWED_TRANSITIONS (ar_state r))"
    using assms(2) by (cases "ar_state r") (auto simp: expirable_at_def EXPIRABLE_STATES_def)
  then show ?thesis
    using assms record_wf_advanced [of r EXPIRED] by (simp add: advance_Inr expired_copy_def)
qed

lemma expire_loop_aware:
  "aware now \<Longrightarrow> expire_loop now (r # rs) s =
     (if expirable_at now r
      then (case advance r EXPIRED now of
              Inl e \<Rightarrow> (Inl e, s)
            | Inr u \<Rightarrow> op_bind (expire_loop now rs) (\<lambda>us. op_lift (Inr (u # us))) (put_record u s))
      else expire_loop now rs s)"
  by (simp add: is_expired_def expirable_at_def)

lemma expire_loop_exact:
  assumes "aware now" and "st_records s = prev @ todo" and "dict_wf (prev @ todo)"
    and "\<forall>(k, r) \<in> set todo. k = ar_admission_id r \<and> record_wf r \<and> ar_revision r < 10 ^ 12"
  shows "expire_loop now (map snd todo) s =
    (Inr (map expired_copy (filter (expirable_at now) (map snd todo))),
     s\<lparr>st_records := prev @ map (\<lambda>(k, r). (k, if expirable_at now r then expired_copy r else r)) todo\<rparr>)"
  using assms
proof (induction todo arbitrary: prev s)
  case Nil
  then show ?case by simp
next
  case (Cons p todo)
  obtain k r where p: "p = (k, r)" by (cases p)
  have r: "k = ar_admission_id r" "record_wf r" "ar_revision r < 10 ^ 12"
    using Cons.prems(4) p by auto
  show ?case
  proof (cases "expirable_at now r")
    case False
    have "expire_loop now (map snd todo) s =
        (Inr (map expired_copy (filter (expirable_at now) (map snd todo))),
         s\<lparr>st_records := (prev @ [p]) @
            map (\<lambda>(k, r). (k, if expirable_at now r then expired_copy r else r)) todo\<rparr>)"
      using Cons.prems by (intro Cons.IH) auto
    with False p Cons.prems(1) show ?thesis by (simp add: expire_loop_aware del: expire_loop.simps)
  next
    case True
    let ?s = "put_record (expired_copy r) s"
    have s: "?s = s\<lparr>st_records := (prev @ [(k, expired_copy r)]) @ todo\<rparr>"
      using Cons.prems(2,3) p r(1)
      by (auto simp: put_record_def expired_copy_def intro!: arg_cong [where f = "\<lambda>x. s\<lparr>st_records := x\<rparr>"]
          update_middle)
    have "expire_loop now (map snd todo) ?s =
        (Inr (map expired_copy (filter (expirable_at now) (map snd todo))),
         ?s\<lparr>st_records := (prev @ [(k, expired_copy r)]) @
            map (\<lambda>(k, r). (k, if expirable_at now r then expired_copy r else r)) todo\<rparr>)"
      using Cons.prems p by (intro Cons.IH) (auto simp: s)
    then show ?thesis
      using True p Cons.prems(1) advance_expired [OF Cons.prems(1) True r(2,3)]
      by (simp add: expire_loop_aware s del: expire_loop.simps)
  qed
qed

text \<open>Revisions are bounded by \<open>10**12\<close>; a record at the bound can no longer be advanced.\<close>

definition revisions_left :: "AdmissionStore \<Rightarrow> bool" where
  "revisions_left s = list_all (\<lambda>(k, r). ar_revision r < 10 ^ 12) (st_records s)"

lemma expire_locked_exact:
  assumes "store_wf s" and "revisions_left s" and "aware now"
  shows "expire_locked now s =
    (Inr (map expired_copy (filter (expirable_at now) (records_of s))), swept now s)"
  using expire_loop_exact [OF assms(3), of s "[]" "st_records s"] assms
  by (fastforce simp: expire_locked_def swept_def store_wf_def revisions_left_def list_all_iff)

text \<open>
  The expiry sweep returns, in store order, exactly the records that were in an expirable
  state with their deadline reached, moved to \<open>EXPIRED\<close> with the next revision, and leaves every
  other record and the order of the store as they were; afterwards the only active records past
  their deadline are the executing ones.
\<close>

theorem expire_sweep_exact:
  assumes "store_wf s" and "revisions_left s" and "aware now"
  shows "expire now s =
      (Inr (map expired_copy (filter (expirable_at now) (records_of s))), swept now s) \<and>
    (\<forall>r \<in> set (actives (swept now s)).
       instant (ar_expires_at_utc r) \<le> instant now \<longrightarrow> ar_state r = EXECUTING)"
proof
  show "expire now s =
      (Inr (map expired_copy (filter (expirable_at now) (records_of s))), swept now s)"
    using expire_locked_exact [OF assms] assms(3) by (simp add: expire_def)
  show "\<forall>r \<in> set (actives (swept now s)).
      instant (ar_expires_at_utc r) \<le> instant now \<longrightarrow> ar_state r = EXECUTING"
    by (auto simp: swept_def expirable_at_def expired_copy_def active_def ACTIVE_STATES_def
        EXPIRABLE_STATES_def split: if_splits)
qed

theorem expire_sweep_exact_witness:
  "fst (expire (utc_at (63900000000 + 30)) reserved_store) = Inr [expired_copy reserved_record] \<and>
   actives (swept (utc_at (63900000000 + 30)) reserved_store) = []"
proof
  have wf: "store_wf reserved_store"
    using reserved_store_inv by (simp add: store_inv_def)
  have "revisions_left reserved_store" "aware (utc_at (63900000000 + 30))"
    by code_simp+
  from expire_sweep_exact [OF wf this]
  show "fst (expire (utc_at (63900000000 + 30)) reserved_store) = Inr [expired_copy reserved_record]"
    by (auto simp: reserved_store_records expirable_at_def reserved_record_def sample_record_def
        EXPIRABLE_STATES_def utc_at_def instant_def)
  show "actives (swept (utc_at (63900000000 + 30)) reserved_store) = []"
    by code_simp
qed

subsection \<open>Reservations\<close>

lemma advance_reserved:
  assumes "aware now" and "ar_state r = PLANNED" and "record_wf r" and "ar_revision r < 10 ^ 12"
  shows "advance r RESERVED now =
    (if instant (ar_expires_at_utc r) \<le> instant now then Inl (AdmissionError ''admission_expired'')
     else Inr (r\<lparr>ar_state := RESERVED, ar_revision := ar_revision r + 1\<rparr>))"
  using assms record_wf_advanced [of r RESERVED] AdmissionRecord_init_Inr
  by (auto simp: advance_def is_expired_def EXPIRABLE_STATES_def)

lemma reserve_outcome_swept:
  assumes "store_wf s" and "revisions_left s" and "aware now"
    and "ar_state r = PLANNED" and "record_wf r" and "ar_revision r < 10 ^ 12"
  shows "reserve r now s =
    (if map_of (st_records s) (ar_admission_id r) \<noteq> None
     then (Inl (AdmissionError ''duplicate_admission_id''), swept now s)
     else case reservation_conflict (swept now s) r of
            Some c \<Rightarrow> (Inl (AdmissionError c), swept now s)
          | None \<Rightarrow>
              if instant (ar_expires_at_utc r) \<le> instant now
              then (Inl (AdmissionError ''admission_expired''), swept now s)
              else let u = r\<lparr>ar_state := RESERVED, ar_revision := ar_revision r + 1\<rparr>
                   in (Inr u, put_record u (swept now s)))"
proof -
  have "map_of (st_records (swept now s)) i = None \<longleftrightarrow> map_of (st_records s) i = None" for i
    by (simp add: swept_def map_of_eq_None_iff split_def image_image)
  then show ?thesis
    using expire_locked_exact [OF assms(1,2,3)] advance_reserved [OF assms(3-6)] assms(3,4)
    by (simp add: reserve_def Let_def del: not_None_eq split: option.splits)
qed

text \<open>
  A reservation in full: the sweep runs first and stays in effect whatever follows; then the
  first failing test decides the error, in the order duplicate identifier, conflict with the
  surviving active records, own deadline; otherwise the record is stored as \<open>RESERVED\<close>. In
  particular a request is granted exactly when its identifier is new, nothing active conflicts
  after the sweep, and its own deadline is not reached.
\<close>

theorem reserve_granted_iff:
  assumes "store_wf s" and "revisions_left s" and "aware now"
    and "ar_state r = PLANNED" and "record_wf r" and "ar_revision r < 10 ^ 12"
  shows "is_ok (fst (reserve r now s)) \<longleftrightarrow>
      map_of (st_records s) (ar_admission_id r) = None \<and>
      (\<forall>x \<in> set (actives (swept now s)). agent_of x \<noteq> agent_of r \<and> \<not> scope_conflicts x r) \<and>
      int (length (filter (\<lambda>x. account_key_of x = account_key_of r) (actives (swept now s))))
        < st_account_capacity s \<and>
      int (length (filter (\<lambda>x. model_key_of x = model_key_of r) (actives (swept now s))))
        < st_account_model_capacity s \<and>
      instant now < instant (ar_expires_at_utc r)"
proof -
  have caps: "st_account_capacity (swept now s) = st_account_capacity s"
      "st_account_model_capacity (swept now s) = st_account_model_capacity s"
    by (simp_all add: swept_def)
  have "reservation_conflict (swept now s) r = None \<longleftrightarrow>
      (\<forall>x \<in> set (actives (swept now s)). agent_of x \<noteq> agent_of r \<and> \<not> scope_conflicts x r) \<and>
      int (length (filter (\<lambda>x. account_key_of x = account_key_of r) (actives (swept now s))))
        < st_account_capacity s \<and>
      int (length (filter (\<lambda>x. model_key_of x = model_key_of r) (actives (swept now s))))
        < st_account_model_capacity s"
    unfolding reservation_conflict_def Let_def list_ex_iff caps [symmetric] by auto
  then show ?thesis
    unfolding reserve_outcome_swept [OF assms] by (auto simp: Let_def split: option.splits)
qed

lemma sample_record_wf: "record_wf sample_record"
  by code_simp

theorem reserve_granted_iff_witness: "is_ok (fst (reserve sample_record sample_now sample_store))"
proof -
  have "store_wf sample_store" by (simp add: store_wf_def sample_store_def)
  moreover have "revisions_left sample_store" "aware sample_now" "ar_state sample_record = PLANNED"
    "ar_revision sample_record < 10 ^ 12"
    by code_simp+
  ultimately show ?thesis
    using reserve_granted_iff [of sample_store sample_now sample_record] sample_record_wf
    by (simp add: swept_def sample_store_def)
      (simp add: sample_record_def sample_now_def utc_at_def instant_def us_per_second_def)
qed

text \<open>
  Two scope paths overlap exactly when one is a prefix of the other as sequences of path
  components: \<open>src\<close> overlaps \<open>src/a\<close> but not \<open>srcs\<close>.
\<close>

theorem scope_paths_overlap_components:
  "scope_paths_overlap l r \<longleftrightarrow>
     (\<exists>xs. split_on CHR ''/'' l = split_on CHR ''/'' r @ xs \<or>
           split_on CHR ''/'' r = split_on CHR ''/'' l @ xs)"
proof -
  have sw: "starts_with (p @ ''/'') q \<longleftrightarrow> (\<exists>xs. xs \<noteq> [] \<and> split_on CHR ''/'' q = split_on CHR ''/'' p @ xs)"
    for p q
  proof
    assume "starts_with (p @ ''/'') q"
    then obtain t where "q = p @ CHR ''/'' # t" by (auto simp: starts_with_iff)
    then show "\<exists>xs. xs \<noteq> [] \<and> split_on CHR ''/'' q = split_on CHR ''/'' p @ xs"
      using split_on_append_sep by auto
  next
    assume "\<exists>xs. xs \<noteq> [] \<and> split_on CHR ''/'' q = split_on CHR ''/'' p @ xs"
    then obtain x xs where "split_on CHR ''/'' q = split_on CHR ''/'' p @ x # xs"
      by (metis neq_Nil_conv)
    then have "q = join_with ''/'' (split_on CHR ''/'' p @ x # xs)"
      using join_split [of "CHR ''/''" q] by simp
    also have "\<dots> = p @ ''/'' @ join_with ''/'' (x # xs)"
      using join_with_append [of "split_on CHR ''/'' p" "x # xs" "''/''"] join_split [of "CHR ''/''" p]
      by simp
    finally show "starts_with (p @ ''/'') q" by (auto simp: starts_with_iff)
  qed
  show ?thesis
    unfolding scope_paths_overlap_def sw by (metis append_Nil2 join_split)
qed

text \<open>
  Finalization is idempotent: once \<open>finalize\<close> has returned a record, calling it again, with
  any expected revision and at any time, returns the same record and changes nothing.
\<close>

theorem finalize_idempotent:
  assumes "store_wf s" and "finalize get transition i v now s = (Inr r, s')"
  shows "finalize get transition i v' now' s' = (Inr r, s')"
proof -
  have "map_of (st_records s') i = Some r \<and> ar_state r = FINALIZED"
    using assms store_wf_lookup [OF assms(1)]
    by (auto simp: finalize_def get_def op_bind_cases transition_Inr put_record_def advance_Inr
        split: option.splits if_splits)
  then show ?thesis by (simp add: finalize_def get_def op_bind_def)
qed

definition executing_record :: AdmissionRecord where
  "executing_record = sample_record\<lparr>ar_state := EXECUTING, ar_revision := 4\<rparr>"

definition executing_store :: AdmissionStore where
  "executing_store = put_record executing_record sample_store"

lemma executing_store_wf: "store_wf executing_store"
proof -
  have "record_wf executing_record" by code_simp
  moreover have "store_wf sample_store" by (simp add: store_wf_def sample_store_def)
  ultimately show ?thesis by (simp add: executing_store_def store_wf_put)
qed

theorem finalize_idempotent_witness:
  "let (res, s') = finalize get transition ''adm-1'' 4 sample_now executing_store
   in is_ok res \<and> finalize get transition ''adm-1'' 99 (utc_at 0) s' = (res, s')"
proof -
  obtain r s' where fin: "finalize get transition ''adm-1'' 4 sample_now executing_store = (Inr r, s')"
  proof -
    have "is_ok (fst (finalize get transition ''adm-1'' 4 sample_now executing_store))" by code_simp
    then show ?thesis using that by (metis is_ok_iff prod.collapse)
  qed
  with finalize_idempotent [OF executing_store_wf fin] show ?thesis by simp
qed

end
