(* ===== verification/Hive_Json.thy ===== *)
theory Hive_Json
  imports Hive_Iso
begin

text \<open>
  Reading fields of decoded JSON documents, and the number of bytes that \<open>json.dumps\<close> with
  \<open>ensure_ascii=True\<close> and compact separators writes.
\<close>

subsection \<open>Fields\<close>

fun py_int :: "pyval \<Rightarrow> int option" where
  "py_int (PInt i) = Some i"
| "py_int _ = None"

fun py_dict :: "pyval \<Rightarrow> (string \<times> pyval) list option" where
  "py_dict (PDict d) = Some d"
| "py_dict _ = None"

fun py_list :: "pyval \<Rightarrow> pyval list option" where
  "py_list (PList xs) = Some xs"
| "py_list _ = None"

fun opt_str_of :: "pyval \<Rightarrow> string option option" where
  "opt_str_of PNone = Some None"
| "opt_str_of (PStr s) = Some (Some s)"
| "opt_str_of _ = None"

subsection \<open>The encoded size\<close>

definition json_char_size :: "char \<Rightarrow> int" where
  "json_char_size c =
     (let n = of_char c :: nat in
      if n = 34 \<or> n = 92 \<or> n \<in> {8, 9, 10, 12, 13} then 2 else if 32 \<le> n \<and> n \<le> 126 then 1 else 6)"

definition json_str_size :: "string \<Rightarrow> int" where
  "json_str_size s = 2 + sum_list (map json_char_size s)"

function digits_of :: "int \<Rightarrow> int" where
  "digits_of n = (if n < 10 then 1 else 1 + digits_of (n div 10))"
  by auto
termination
  by (relation "measure nat") (auto simp: nat_less_iff)

declare digits_of.simps [simp del]

text \<open>
  The text of a float is the shortest decimal that reads back as the same double, in positional
  notation for a decimal exponent from \<open>-4\<close> to \<open>15\<close>. \<open>decimal_point q\<close> is the least \<open>k\<close> with
  \<open>q < 10\<^sup>k\<close>, \<open>to_double\<close> rounds to 53 bits, half to even.
\<close>

definition decimal_point :: "rat \<Rightarrow> int" where
  "decimal_point q = (case List.find (\<lambda>k. q < 10 powi k) [-330..310] of None \<Rightarrow> 311 | Some k \<Rightarrow> k)"

definition binary_exponent :: "rat \<Rightarrow> int" where
  "binary_exponent q = (case List.find (\<lambda>e. q < 2 powi (e + 1)) [-1022..1023] of None \<Rightarrow> 1024 | Some e \<Rightarrow> e)"

definition to_double :: "rat \<Rightarrow> rat" where
  "to_double q =
     (let ulp = 2 powi (binary_exponent q - 52); n = \<lfloor>q / ulp\<rfloor>; d = q / ulp - of_int n
      in of_int (if d < 1 / 2 \<or> (d = 1 / 2 \<and> even n) then n else n + 1) * ulp)"

definition significant_digits :: "rat \<Rightarrow> int \<Rightarrow> int" where
  "significant_digits q k =
     (case List.find (\<lambda>n. let t = 10 powi (k - n)
                          in to_double (of_int \<lfloor>q / t\<rfloor> * t) = q \<or> to_double (of_int \<lceil>q / t\<rceil> * t) = q) [1..17] of
        None \<Rightarrow> 17 | Some n \<Rightarrow> n)"

definition float_size :: "rat \<Rightarrow> int" where
  "float_size x =
     (if x = 0 then 3
      else let q = \<bar>x\<bar>; k = decimal_point q; n = significant_digits q k
           in (if x < 0 then 1 else 0) +
              (if k \<le> -4 \<or> 16 < k
               then n + (if 1 < n then 1 else 0) + 2 + max 2 (digits_of \<bar>k - 1\<bar>)
               else if k \<le> 0 then 2 - k + n else if k < n then n + 1 else k + 2))"

text \<open>\<open>json.dumps\<close> raises for an object, so its size does not matter.\<close>

fun json_size :: "pyval \<Rightarrow> int" where
  "json_size PNone = 4"
| "json_size (PBool b) = (if b then 4 else 5)"
| "json_size (PInt i) = (if i < 0 then 1 else 0) + digits_of \<bar>i\<bar>"
| "json_size (PFloat q) = float_size q"
| "json_size (PStr s) = json_str_size s"
| "json_size (PList xs) = 2 + int (length xs - 1) + sum_list (map json_size xs)"
| "json_size (PDict d) =
     2 + int (length d - 1) + sum_list (map (\<lambda>(k, v). json_str_size k + 1 + json_size v) d)"
| "json_size (PObject _) = 0"

text \<open>\<open>json.dumps\<close> raises \<open>TypeError\<close> for a value of another class.\<close>

fun json_dumpable :: "pyval \<Rightarrow> bool" where
  "json_dumpable (PList xs) = list_all json_dumpable xs"
| "json_dumpable (PDict d) = list_all (\<lambda>(k, v). json_dumpable v) d"
| "json_dumpable (PObject _) = False"
| "json_dumpable _ = True"

subsection \<open>Files\<close>

text \<open>
  A file that is meant to hold one JSON document: its size and the value its bytes decode to.
\<close>

datatype state_file =
    No_File
  | Not_Regular
  | Bytes int "pyval option"

text \<open>Plain text takes one byte for each character, and so does a time.\<close>

lemma json_plain_size: "\<forall>c \<in> set s. json_char_size c = 1 \<Longrightarrow> json_str_size s = 2 + int (length s)"
  unfolding json_str_size_def by (induction s) auto

lemma json_digit_size: "is_digit c \<Longrightarrow> json_char_size c = 1"
  by (auto simp: is_digit_def char_in_range_def json_char_size_def Let_def)

lemma json_pad_chars: "\<forall>c \<in> set (pad k n). json_char_size c = 1"
  using pad_digits [of k n] by (auto simp: list_all_iff intro: json_digit_size)

lemma json_pad_size: "json_str_size (pad k n) = 2 + int k"
  using json_plain_size [OF json_pad_chars] by simp

lemma json_iso_size: "json_str_size (isoformat d) \<le> 44"
proof -
  have "list_all (\<lambda>c. json_char_size c = 1) ''-:T.+''" by code_simp
  then have "\<forall>c \<in> set (isoformat d). json_char_size c = 1"
    using isoformat_chars [of d] json_digit_size by (auto simp: list_all_iff iso_char_def)
  from json_plain_size [OF this] show ?thesis using length_isoformat [of d] by simp
qed

end
