(* ===== verification/File_Admission.thy ===== *)
theory File_Admission
  imports Admission_Properties Hive_Json
begin

text \<open>
  \<open>admission.py\<close>, second part: \<open>FileAdmissionStore\<close>. The state file is absent, something that is
  not a regular file, or a number of bytes with the JSON value they decode to (none if they do not
  decode). Operating-system failures are an argument of every operation. The size of what
  \<open>json.dumps\<close> writes is computed by \<open>json_size\<close>; that \<open>json.loads\<close> returns the dumped value is
  part of this representation (key order, which \<open>sort_keys\<close> changes, is not observed by the
  decoder).
\<close>

definition MAX_ADMISSION_STATE_BYTES :: int where "MAX_ADMISSION_STATE_BYTES = 4 * 1024 * 1024"
definition MAX_STORED_ADMISSIONS :: int where "MAX_STORED_ADMISSIONS = 4096"

subsection \<open>Payloads\<close>

definition record_to_payload :: "AdmissionRecord \<Rightarrow> pyval" where
  "record_to_payload r = PDict
     [(''schema_version'', ar_schema_version r),
      (''admission_id'', PStr (ar_admission_id r)),
      (''request_id'', PStr (ar_request_id r)),
      (''dispatch_id'', PStr (ar_dispatch_id r)),
      (''workpackage_id'', PStr (ar_workpackage_id r)),
      (''assignment_intent_id'', PStr (ar_assignment_intent_id r)),
      (''repo_id'', PStr (ar_repo_id r)),
      (''principal_id'', PStr (ar_principal_id r)),
      (''parent_principal_id'', PStr (ar_parent_principal_id r)),
      (''grant_id'', PStr (ar_grant_id r)),
      (''grant_digest'', PStr (ar_grant_digest r)),
      (''work_item_version'', PInt (ar_work_item_version r)),
      (''scope'', PDict
         [(''mode'', PStr (sb_mode (ar_scope r))),
          (''paths'', PList (map PStr (sb_paths (ar_scope r)))),
          (''canonical_digest'', PStr (sb_canonical_digest (ar_scope r)))]),
      (''resource'', PDict
         [(''agent_id'', PStr (rb_agent_id (ar_resource r))),
          (''account_key'', PStr (rb_account_key (ar_resource r))),
          (''budget_key'', PStr (rb_budget_key (ar_resource r))),
          (''model_id'', PStr (rb_model_id (ar_resource r))),
          (''expected_usage_micro'', PInt (rb_expected_usage_micro (ar_resource r))),
          (''account_pool_binding'',
             case rb_account_pool_binding (ar_resource r) of
               None \<Rightarrow> PNone | Some b \<Rightarrow> account_pool_binding_payload b)]),
      (''lease_context'', PDict
         [(''expected_state'', PStr (lb_expected_state (ar_lease_context r))),
          (''lease_id'', opt_str (lb_lease_id (ar_lease_context r)))]),
      (''priority'', PDict
         [(''dispatch'', PStr (pr_dispatch (ar_priority r))),
          (''selection_reason'', PStr (pr_selection_reason (ar_priority r)))]),
      (''state'', PStr (AdmissionState_value (ar_state r))),
      (''created_at_utc'', PStr (isoformat (ar_created_at_utc r))),
      (''expires_at_utc'', PStr (isoformat (ar_expires_at_utc r))),
      (''revision'', PInt (ar_revision r))]"

text \<open>
  Decoding. A value of the wrong type makes a constructor raise, and every exception class that
  can be raised in the block is caught and turned into one error, so the tests for the type of a
  field raise that error directly.
\<close>

definition bad_state :: exn where
  "bad_state = AdmissionError ''invalid_admission_state''"

definition item_str :: "(string \<times> pyval) list \<Rightarrow> string \<Rightarrow> string result" where
  "item_str d k = and_then (py_item d k) (\<lambda>v. need (py_str v) bad_state)"

definition item_int :: "(string \<times> pyval) list \<Rightarrow> string \<Rightarrow> int result" where
  "item_int d k = and_then (py_item d k) (\<lambda>v. need (py_int v) bad_state)"

definition AdmissionState_of :: "string \<Rightarrow> AdmissionState option" where
  "AdmissionState_of v = List.find (\<lambda>st. AdmissionState_value st = v) all_admission_states"

definition parse_timestamp ::
  "(string \<Rightarrow> py_datetime option) \<Rightarrow> pyval \<Rightarrow> string \<Rightarrow> py_datetime result" where
  "parse_timestamp other v code =
     and_then (need (py_str v) (AdmissionError code)) (\<lambda>s.
     and_then (check (1 \<le> length s \<and> length s \<le> 64) (AdmissionError code)) (\<lambda>_.
     and_then (need (parse_iso other s) (AdmissionError code)) (\<lambda>parsed. adm_aware parsed code)))"

definition scope_from_payload :: "(string \<times> pyval) list \<Rightarrow> pyval list \<Rightarrow> ScopeBinding result" where
  "scope_from_payload scope raw_paths =
     and_then (item_str scope ''mode'') (\<lambda>mode.
     and_then (map_result (\<lambda>v. need (py_str v) bad_state) raw_paths) (\<lambda>paths.
     and_then (item_str scope ''canonical_digest'') (\<lambda>digest.
       ScopeBinding_init \<lparr>sb_mode = mode, sb_paths = paths, sb_canonical_digest = digest\<rparr>)))"

definition resource_from_payload :: "(string \<times> pyval) list \<Rightarrow> ResourceBinding result" where
  "resource_from_payload resource =
     and_then (item_str resource ''agent_id'') (\<lambda>agent_id.
     and_then (item_str resource ''account_key'') (\<lambda>account_key.
     and_then (item_str resource ''budget_key'') (\<lambda>budget_key.
     and_then (item_str resource ''model_id'') (\<lambda>model_id.
     and_then (item_int resource ''expected_usage_micro'') (\<lambda>usage.
     and_then (if py_get resource ''account_pool_binding'' PNone \<noteq> PNone
               then and_then (account_pool_binding_from_payload
                                (py_get resource ''account_pool_binding'' PNone)) (\<lambda>b. Inr (Some b))
               else Inr None) (\<lambda>binding.
       ResourceBinding_init \<lparr>rb_agent_id = agent_id, rb_account_key = account_key,
         rb_budget_key = budget_key, rb_model_id = model_id, rb_expected_usage_micro = usage,
         rb_account_pool_binding = binding\<rparr>))))))"

definition lease_from_payload :: "(string \<times> pyval) list \<Rightarrow> LeaseBinding result" where
  "lease_from_payload lease_context =
     and_then (item_str lease_context ''expected_state'') (\<lambda>expected.
     and_then (need (opt_str_of (py_get lease_context ''lease_id'' PNone)) bad_state) (\<lambda>lease_id.
       LeaseBinding_init \<lparr>lb_expected_state = expected, lb_lease_id = lease_id\<rparr>))"

definition priority_from_payload :: "(string \<times> pyval) list \<Rightarrow> AdmissionPriority result" where
  "priority_from_payload priority =
     and_then (item_str priority ''dispatch'') (\<lambda>dispatch.
     and_then (item_str priority ''selection_reason'') (\<lambda>reason.
       AdmissionPriority_init \<lparr>pr_dispatch = dispatch, pr_selection_reason = reason\<rparr>))"

definition record_from_payload :: "(string \<Rightarrow> py_datetime option) \<Rightarrow> pyval \<Rightarrow> AdmissionRecord result" where
  "record_from_payload other payload =
     rescue
      (and_then (need (py_dict payload) bad_state) (\<lambda>p.
       and_then (py_item p ''scope'') (\<lambda>scope.
       and_then (py_item p ''resource'') (\<lambda>resource.
       and_then (py_item p ''lease_context'') (\<lambda>lease_context.
       and_then (py_item p ''priority'') (\<lambda>priority.
       and_then (need (py_dict scope) bad_state) (\<lambda>scope.
       and_then (need (py_dict resource) bad_state) (\<lambda>resource.
       and_then (need (py_dict lease_context) bad_state) (\<lambda>lease_context.
       and_then (need (py_dict priority) bad_state) (\<lambda>priority.
       and_then (py_item scope ''paths'') (\<lambda>paths.
       and_then (need (py_list paths) bad_state) (\<lambda>raw_paths.
       and_then (py_item p ''schema_version'') (\<lambda>schema.
       and_then (item_str p ''admission_id'') (\<lambda>admission_id.
       and_then (item_str p ''request_id'') (\<lambda>request_id.
       and_then (item_str p ''dispatch_id'') (\<lambda>dispatch_id.
       and_then (item_str p ''workpackage_id'') (\<lambda>workpackage_id.
       and_then (item_str p ''assignment_intent_id'') (\<lambda>intent_id.
       and_then (item_str p ''repo_id'') (\<lambda>repo_id.
       and_then (item_str p ''principal_id'') (\<lambda>principal_id.
       and_then (item_str p ''parent_principal_id'') (\<lambda>parent_id.
       and_then (item_str p ''grant_id'') (\<lambda>grant_id.
       and_then (item_str p ''grant_digest'') (\<lambda>grant_digest.
       and_then (item_int p ''work_item_version'') (\<lambda>version.
       and_then (scope_from_payload scope raw_paths) (\<lambda>scope.
       and_then (resource_from_payload resource) (\<lambda>resource.
       and_then (lease_from_payload lease_context) (\<lambda>lease_context.
       and_then (priority_from_payload priority) (\<lambda>priority.
       and_then (item_str p ''state'') (\<lambda>state.
       and_then (need (AdmissionState_of state) ValueError) (\<lambda>state.
       and_then (py_item p ''created_at_utc'') (\<lambda>created.
       and_then (parse_timestamp other created ''invalid_created_timestamp'') (\<lambda>created.
       and_then (py_item p ''expires_at_utc'') (\<lambda>expires.
       and_then (parse_timestamp other expires ''invalid_expiry_timestamp'') (\<lambda>expires.
       and_then (item_int p ''revision'') (\<lambda>revision.
         AdmissionRecord_init
           \<lparr>ar_schema_version = schema, ar_admission_id = admission_id, ar_request_id = request_id,
            ar_dispatch_id = dispatch_id, ar_workpackage_id = workpackage_id,
            ar_assignment_intent_id = intent_id, ar_repo_id = repo_id,
            ar_principal_id = principal_id, ar_parent_principal_id = parent_id,
            ar_grant_id = grant_id, ar_grant_digest = grant_digest,
            ar_work_item_version = version, ar_scope = scope, ar_resource = resource,
            ar_lease_context = lease_context, ar_priority = priority, ar_state = state,
            ar_created_at_utc = created, ar_expires_at_utc = expires, ar_revision = revision\<rparr>))))))))))))))))))))))))))))))))))) 
      (\<lambda>_. Inl bad_state)"

subsection \<open>The state file\<close>

datatype lock_outcome = Locked | Open_Failed | Lock_Failed

record file_io =
  io_lock :: lock_outcome
  io_stat_error :: bool
  io_read_error :: bool
  io_write_error :: bool

definition io_ok :: file_io where
  "io_ok = \<lparr>io_lock = Locked, io_stat_error = False, io_read_error = False, io_write_error = False\<rparr>"

record FileAdmissionStore =
  fs_store :: AdmissionStore
  fs_file :: state_file

fun load_loop ::
  "(string \<Rightarrow> py_datetime option) \<Rightarrow> pyval list \<Rightarrow> (string, AdmissionRecord) dict \<Rightarrow>
   (string, AdmissionRecord) dict result" where
  "load_loop other [] records = Inr records"
| "load_loop other (raw # raws) records =
     and_then (record_from_payload other raw) (\<lambda>r.
       if map_of records (ar_admission_id r) \<noteq> None
       then Inl (AdmissionError ''duplicate_admission_id'')
       else load_loop other raws (AList.update (ar_admission_id r) r records))"

definition load_document ::
  "(string \<Rightarrow> py_datetime option) \<Rightarrow> pyval \<Rightarrow> (string, AdmissionRecord) dict result" where
  "load_document other payload =
     (case payload of
        PDict d \<Rightarrow>
          if \<not> py_eq_int (py_get d ''schema_version'' PNone) 1
          then Inl (AdmissionError ''unsupported_admission_state_schema'')
          else (case py_get d ''records'' PNone of
                  PList raws \<Rightarrow>
                    if int (length raws) > MAX_STORED_ADMISSIONS
                    then Inl (AdmissionError ''invalid_admission_state_records'')
                    else load_loop other raws []
                | _ \<Rightarrow> Inl (AdmissionError ''invalid_admission_state_records''))
      | _ \<Rightarrow> Inl (AdmissionError ''unsupported_admission_state_schema''))"

definition load_records ::
  "(string \<Rightarrow> py_datetime option) \<Rightarrow> file_io \<Rightarrow> state_file \<Rightarrow> (string, AdmissionRecord) dict result" where
  "load_records other io f =
     (if io_stat_error io then Inl (AdmissionError ''could_not_read_admission_state'')
      else case f of
        No_File \<Rightarrow> Inr []
      | Not_Regular \<Rightarrow> Inl (AdmissionError ''invalid_admission_state_file'')
      | Bytes nbytes content \<Rightarrow>
          if nbytes > MAX_ADMISSION_STATE_BYTES then Inl (AdmissionError ''admission_state_too_large'')
          else if io_read_error io then Inl (AdmissionError ''invalid_admission_state'')
          else (case content of
                  None \<Rightarrow> Inl (AdmissionError ''invalid_admission_state'')
                | Some payload \<Rightarrow> load_document other payload))"

definition state_document :: "(string, AdmissionRecord) dict \<Rightarrow> pyval" where
  "state_document records =
     PDict [(''schema_version'', PInt 1), (''records'', PList (map (\<lambda>(_, r). record_to_payload r) records))]"

text \<open>The temporary file is renamed over the state file, so a failed write leaves it as it was.\<close>

definition write_records :: "file_io \<Rightarrow> (FileAdmissionStore, unit) op" where
  "write_records io fs =
     (let payload = state_document (st_records (fs_store fs)); nbytes = json_size payload + 1
      in if nbytes > MAX_ADMISSION_STATE_BYTES then (Inl (AdmissionError ''admission_state_too_large''), fs)
         else if io_write_error io then (Inl (AdmissionError ''could_not_write_admission_state''), fs)
         else (Inr (), fs\<lparr>fs_file := Bytes nbytes (Some payload)\<rparr>))"

definition file_lock :: "file_io \<Rightarrow> (FileAdmissionStore, 'a) op \<Rightarrow> (FileAdmissionStore, 'a) op" where
  "file_lock io body fs =
     (case io_lock io of
        Open_Failed \<Rightarrow> (Inl (AdmissionError ''could_not_open_admission_lock''), fs)
      | Lock_Failed \<Rightarrow> (Inl (AdmissionError ''could_not_lock_admission_state''), fs)
      | Locked \<Rightarrow> body fs)"

definition reload :: "(string \<Rightarrow> py_datetime option) \<Rightarrow> file_io \<Rightarrow> (FileAdmissionStore, unit) op" where
  "reload other io fs =
     (case load_records other io (fs_file fs) of
        Inl e \<Rightarrow> (Inl e, fs)
      | Inr records \<Rightarrow> (Inr (), fs\<lparr>fs_store := (fs_store fs)\<lparr>st_records := records\<rparr>\<rparr>))"

definition on_store :: "(AdmissionStore, 'a) op \<Rightarrow> (FileAdmissionStore, 'a) op" where
  "on_store operation fs = (case operation (fs_store fs) of (res, s) \<Rightarrow> (res, fs\<lparr>fs_store := s\<rparr>))"

definition mutate ::
  "(string \<Rightarrow> py_datetime option) \<Rightarrow> file_io \<Rightarrow> (AdmissionStore, 'a) op \<Rightarrow> (FileAdmissionStore, 'a) op" where
  "mutate other io operation =
     file_lock io
       (op_bind (reload other io) (\<lambda>_.
        op_bind (on_store operation) (\<lambda>result.
        op_bind (write_records io) (\<lambda>_. op_lift (Inr result)))))"

definition file_read ::
  "(string \<Rightarrow> py_datetime option) \<Rightarrow> file_io \<Rightarrow> (AdmissionStore, 'a) op \<Rightarrow> (FileAdmissionStore, 'a) op" where
  "file_read other io operation =
     file_lock io (op_bind (reload other io) (\<lambda>_. on_store operation))"

definition file_reserve ::
  "(string \<Rightarrow> py_datetime option) \<Rightarrow> file_io \<Rightarrow> AdmissionRecord \<Rightarrow> py_datetime \<Rightarrow>
   (FileAdmissionStore, AdmissionRecord) op" where
  "file_reserve other io r now = mutate other io (reserve r now)"

definition file_transition ::
  "(string \<Rightarrow> py_datetime option) \<Rightarrow> file_io \<Rightarrow> string \<Rightarrow> AdmissionState \<Rightarrow> int \<Rightarrow> py_datetime \<Rightarrow>
   (FileAdmissionStore, AdmissionRecord) op" where
  "file_transition other io i target v now = mutate other io (transition i target v now)"

definition file_expire ::
  "(string \<Rightarrow> py_datetime option) \<Rightarrow> file_io \<Rightarrow> py_datetime \<Rightarrow>
   (FileAdmissionStore, AdmissionRecord list) op" where
  "file_expire other io now = mutate other io (expire now)"

definition file_get ::
  "(string \<Rightarrow> py_datetime option) \<Rightarrow> file_io \<Rightarrow> string \<Rightarrow> (FileAdmissionStore, AdmissionRecord) op" where
  "file_get other io i = file_read other io (get i)"

definition file_public_snapshot ::
  "(string \<Rightarrow> py_datetime option) \<Rightarrow> file_io \<Rightarrow> (FileAdmissionStore, pyval list) op" where
  "file_public_snapshot other io = file_read other io public_snapshot"

definition file_records_snapshot ::
  "(string \<Rightarrow> py_datetime option) \<Rightarrow> file_io \<Rightarrow> (FileAdmissionStore, AdmissionRecord list) op" where
  "file_records_snapshot other io = file_read other io records_snapshot"

subsection \<open>Round trip of a record\<close>

text \<open>What holds of every constructed record, the parts included.\<close>

definition record_ok :: "AdmissionRecord \<Rightarrow> bool" where
  "record_ok r =
     (record_wf r \<and> is_ok (ScopeBinding_init (ar_scope r)) \<and>
      is_ok (ResourceBinding_init (ar_resource r)) \<and>
      (case rb_account_pool_binding (ar_resource r) of None \<Rightarrow> True | Some b \<Rightarrow> binding_wf b) \<and>
      is_ok (LeaseBinding_init (ar_lease_context r)) \<and>
      is_ok (AdmissionPriority_init (ar_priority r)) \<and>
      dt_valid (ar_created_at_utc r) \<and> dt_valid (ar_expires_at_utc r))"

lemma AdmissionState_of_value [simp]: "AdmissionState_of (AdmissionState_value st) = Some st"
  by (cases st) (simp_all add: AdmissionState_of_def all_admission_states_def)

lemma parse_timestamp_iso:
  "dt_valid d \<Longrightarrow> aware d \<Longrightarrow> parse_timestamp other (PStr (isoformat d)) code = Inr d"
  using length_isoformat [of d] length_isoformat_pos [of d] by (simp add: parse_timestamp_def Suc_le_eq)

lemma init_returns:
  "is_ok (ScopeBinding_init s) \<Longrightarrow> ScopeBinding_init s = Inr s"
  "is_ok (ResourceBinding_init r) \<Longrightarrow> ResourceBinding_init r = Inr r"
  "is_ok (LeaseBinding_init l) \<Longrightarrow> LeaseBinding_init l = Inr l"
  "is_ok (AdmissionPriority_init p) \<Longrightarrow> AdmissionPriority_init p = Inr p"
  unfolding ScopeBinding_init_def ResourceBinding_init_def LeaseBinding_init_def
    AdmissionPriority_init_def
  by (auto simp: is_ok_iff result_simps)

lemma scope_payload_roundtrip:
  "is_ok (ScopeBinding_init s) \<Longrightarrow>
   scope_from_payload [(''mode'', PStr (sb_mode s)), (''paths'', PList (map PStr (sb_paths s))),
     (''canonical_digest'', PStr (sb_canonical_digest s))] (map PStr (sb_paths s)) = Inr s"
  using map_result_map [of "sb_paths s" "\<lambda>v. need (py_str v) bad_state" PStr "\<lambda>s. s"]
  by (cases s) (simp add: scope_from_payload_def item_str_def py_item_def init_returns)

lemma resource_payload_roundtrip:
  assumes "is_ok (ResourceBinding_init r)"
    and "case rb_account_pool_binding r of None \<Rightarrow> True | Some b \<Rightarrow> binding_wf b"
  shows "resource_from_payload [(''agent_id'', PStr (rb_agent_id r)),
     (''account_key'', PStr (rb_account_key r)), (''budget_key'', PStr (rb_budget_key r)),
     (''model_id'', PStr (rb_model_id r)), (''expected_usage_micro'', PInt (rb_expected_usage_micro r)),
     (''account_pool_binding'', case rb_account_pool_binding r of
        None \<Rightarrow> PNone | Some b \<Rightarrow> account_pool_binding_payload b)] = Inr r"
  using assms
  by (cases r; cases "rb_account_pool_binding r")
    (simp_all add: resource_from_payload_def item_str_def item_int_def py_item_def py_get_def
      binding_payload_roundtrip init_returns)

lemma lease_payload_roundtrip:
  "is_ok (LeaseBinding_init l) \<Longrightarrow>
   lease_from_payload [(''expected_state'', PStr (lb_expected_state l)), (''lease_id'', opt_str (lb_lease_id l))] = Inr l"
proof -
  have "opt_str_of (opt_str x) = Some x" for x by (cases x) auto
  then show "is_ok (LeaseBinding_init l) \<Longrightarrow> ?thesis"
    by (cases l) (simp add: lease_from_payload_def item_str_def py_item_def py_get_def init_returns)
qed

lemma priority_payload_roundtrip:
  "is_ok (AdmissionPriority_init p) \<Longrightarrow>
   priority_from_payload [(''dispatch'', PStr (pr_dispatch p)), (''selection_reason'', PStr (pr_selection_reason p))]
     = Inr p"
  by (cases p) (simp add: priority_from_payload_def item_str_def py_item_def init_returns)

lemma py_item_Cons:
  "py_item ((k, v) # d) j = (if j = k then Inr v else py_item d j)"
  by (simp add: py_item_def)

lemma payload_roundtrip:
  assumes "record_ok r"
  shows "record_from_payload other (record_to_payload r) = Inr r"
proof -
  have ok: "AdmissionRecord_init r = Inr r" "aware (ar_created_at_utc r)" "aware (ar_expires_at_utc r)"
    using assms by (auto simp: record_ok_def AdmissionRecord_init_Inr record_wf_def)
  note parts = assms [unfolded record_ok_def]
  show ?thesis
    unfolding record_from_payload_def record_to_payload_def
    using parts ok
    by (cases r) (simp add: py_item_Cons item_str_def item_int_def scope_payload_roundtrip
        resource_payload_roundtrip lease_payload_roundtrip priority_payload_roundtrip parse_timestamp_iso)
qed

text \<open>
  C32. Whatever record the store holds, decoding its private payload gives the record back, field
  by field, with its nested bindings, its state and its two timestamps to the microsecond and
  offset; this holds for every way the timestamp reader treats spellings that the code never
  writes.
\<close>

theorem record_payload_roundtrip:
  assumes "record_ok r"
  shows "record_from_payload other (record_to_payload r) = Inr r"
  using assms by (rule payload_roundtrip)

lemma sample_record_ok: "record_ok sample_record"
proof -
  have "is_ok (ScopeBinding_init (ar_scope sample_record))"
    "is_ok (ResourceBinding_init (ar_resource sample_record))"
    "is_ok (LeaseBinding_init (ar_lease_context sample_record))"
    "is_ok (AdmissionPriority_init (ar_priority sample_record))"
    "dt_valid (ar_created_at_utc sample_record)" "dt_valid (ar_expires_at_utc sample_record)"
    by code_simp+
  then show ?thesis
    using sample_record_wf by (simp add: record_ok_def) (simp add: sample_record_def)
qed

theorem record_payload_roundtrip_witness:
  "record_from_payload (\<lambda>_. None) (record_to_payload sample_record) = Inr sample_record"
  using sample_record_ok by (rule record_payload_roundtrip)

subsection \<open>Round trip of the file\<close>

definition records_ok :: "(string, AdmissionRecord) dict \<Rightarrow> bool" where
  "records_ok recs = (dict_wf recs \<and> (\<forall>(k, r) \<in> set recs. k = ar_admission_id r \<and> record_ok r))"

lemma load_loop_document:
  assumes "dict_wf (acc @ recs)" and "\<forall>(k, r) \<in> set recs. k = ar_admission_id r \<and> record_ok r"
  shows "load_loop other (map (\<lambda>(_, r). record_to_payload r) recs) acc = Inr (acc @ recs)"
  using assms
proof (induction recs arbitrary: acc)
  case Nil
  then show ?case by simp
next
  case (Cons p recs)
  obtain k r where p: "p = (k, r)" by (cases p)
  then have r: "k = ar_admission_id r" "record_ok r" using Cons.prems(2) by auto
  then have fresh: "map_of acc (ar_admission_id r) = None"
    using Cons.prems(1) p by (auto simp: map_of_eq_None_iff)
  then have "AList.update (ar_admission_id r) r acc = acc @ [p]"
    using p r by (simp add: update_fresh map_of_eq_None_iff)
  moreover have "load_loop other (map (\<lambda>(_, r). record_to_payload r) recs) (acc @ [p]) = Inr ((acc @ [p]) @ recs)"
    using Cons.prems by (intro Cons.IH) auto
  ultimately show ?case
    using p r fresh payload_roundtrip [OF r(2)] by simp
qed

lemma load_document_state:
  "records_ok recs \<Longrightarrow> load_document other (state_document recs) =
     (if int (length recs) > MAX_STORED_ADMISSIONS
      then Inl (AdmissionError ''invalid_admission_state_records'') else Inr recs)"
  using load_loop_document [of "[]" recs other]
  by (simp add: load_document_def state_document_def py_get_def records_ok_def)

subsection \<open>Several processes on one state file\<close>

definition represents :: "state_file \<Rightarrow> (string, AdmissionRecord) dict \<Rightarrow> bool" where
  "represents f recs =
     (records_ok recs \<and>
      (f = No_File \<and> recs = [] \<or>
       (\<exists>n. n \<le> MAX_ADMISSION_STATE_BYTES \<and> f = Bytes n (Some (state_document recs)))))"

lemma load_represents:
  assumes "represents f recs" and "load_records other io f = Inr recs'"
  shows "recs' = recs"
  using assms load_document_state [of recs other]
  by (auto simp: represents_def load_records_def split: if_splits)

text \<open>
  \<open>file_step ac mc f f'\<close>: some process, whatever its memory held, runs one mutating operation
  on the shared state file \<open>f\<close> under the file lock, with any I/O failures, and leaves \<open>f'\<close>. The
  processes are configured with the same capacities.
\<close>

definition process_with :: "int \<Rightarrow> int \<Rightarrow> AdmissionStore \<Rightarrow> bool" where
  "process_with ac mc m = (st_account_capacity m = ac \<and> st_account_model_capacity m = mc)"

inductive file_step ::
  "(string \<Rightarrow> py_datetime option) \<Rightarrow> int \<Rightarrow> int \<Rightarrow> state_file \<Rightarrow> state_file \<Rightarrow> bool"
  for other ac mc where
  file_step_reserve: "process_with ac mc m \<Longrightarrow> record_ok r \<Longrightarrow>
    file_reserve other io r now \<lparr>fs_store = m, fs_file = f\<rparr> = (res, fs) \<Longrightarrow>
    file_step other ac mc f (fs_file fs)"
| file_step_transition: "process_with ac mc m \<Longrightarrow>
    file_transition other io i target v now \<lparr>fs_store = m, fs_file = f\<rparr> = (res, fs) \<Longrightarrow>
    file_step other ac mc f (fs_file fs)"
| file_step_expire: "process_with ac mc m \<Longrightarrow>
    file_expire other io now \<lparr>fs_store = m, fs_file = f\<rparr> = (res', fs) \<Longrightarrow>
    file_step other ac mc f (fs_file fs)"

text \<open>The stores that the operations see all hold valid records.\<close>

definition all_ok :: "AdmissionStore \<Rightarrow> bool" where
  "all_ok s = (\<forall>r \<in> set (records_of s). record_ok r)"

lemma advance_record_ok: "advance r t now = Inr u \<Longrightarrow> record_ok r \<Longrightarrow> record_ok u"
  by (auto simp: advance_Inr record_ok_def)

lemma set_update_subset: "set (AList.update k v d) \<subseteq> insert (k, v) (set d)"
  by (induction d) auto

lemma put_all_ok: "all_ok s \<Longrightarrow> record_ok u \<Longrightarrow> all_ok (put_record u s)"
  using set_update_subset [of "ar_admission_id u" u "st_records s"]
  by (fastforce simp: all_ok_def put_record_def)

lemma expire_loop_all_ok:
  "all_ok s \<Longrightarrow> \<forall>r \<in> set rs. record_ok r \<Longrightarrow> expire_loop now rs s = (res, s') \<Longrightarrow> all_ok s'"
proof (induction rs arbitrary: s res)
  case Nil
  then show ?case by simp
next
  case (Cons r rs)
  consider (skip) "expire_loop now rs s = (res, s')" | (err) "s' = s"
    | (step) u res' where "advance r EXPIRED now = Inr u"
        "expire_loop now rs (put_record u s) = (res', s')"
    using Cons.prems(3) by (auto simp: op_bind_cases split: sum.splits if_splits)
  then show ?case
  proof cases
    case step
    have "all_ok (put_record u s)"
      using Cons.prems step(1) by (intro put_all_ok) (auto intro: advance_record_ok)
    then show ?thesis using Cons.IH [OF _ _ step(2)] Cons.prems(2) by simp
  qed (use Cons in auto)
qed

lemma expire_locked_all_ok: "all_ok s \<Longrightarrow> expire_locked now s = (res, s') \<Longrightarrow> all_ok s'"
  unfolding expire_locked_def by (rule expire_loop_all_ok [of s "records_of s"]) (auto simp: all_ok_def)

lemma expire_all_ok: "all_ok s \<Longrightarrow> expire now s = (res, s') \<Longrightarrow> all_ok s'"
  using expire_locked_all_ok by (auto simp: expire_def op_bind_cases adm_aware_def split: if_splits)

lemma reserve_all_ok: "all_ok s \<Longrightarrow> record_ok r \<Longrightarrow> reserve r now s = (res, s') \<Longrightarrow> all_ok s'"
  by (auto simp: reserve_def op_bind_cases result_simps adm_aware_def
      split: if_splits option.splits sum.splits
      dest: expire_locked_all_ok intro!: put_all_ok intro: advance_record_ok)

lemma transition_all_ok: "all_ok s \<Longrightarrow> transition i t v now s = (res, s') \<Longrightarrow> all_ok s'"
proof (cases res)
  case (Inr u)
  assume s: "all_ok s" and "transition i t v now s = (res, s')"
  then obtain r where "map_of (st_records s) i = Some r" "advance r t now = Inr u" "s' = put_record u s"
    using Inr by (auto simp: transition_Inr)
  moreover then have "record_ok r" using s by (force simp: all_ok_def dest: map_of_SomeD)
  ultimately show "all_ok s'" using s by (auto intro: put_all_ok advance_record_ok)
qed (auto dest: transition_Inl)

text \<open>
  One mutation, seen from the file: either the file keeps its contents, or the in-process
  operation succeeded on the store holding exactly the file's records and the file now holds the
  resulting records.
\<close>

lemma mutate_file:
  assumes "represents f recs" and "mutate other io operation \<lparr>fs_store = m, fs_file = f\<rparr> = (res, fs)"
  shows "\<not> is_ok res \<and> fs_file fs = f \<or>
    (\<exists>x s n. res = Inr x \<and> operation (m\<lparr>st_records := recs\<rparr>) = (Inr x, s) \<and>
       n \<le> MAX_ADMISSION_STATE_BYTES \<and> fs_file fs = Bytes n (Some (state_document (st_records s))))"
  using assms(2) load_represents [OF assms(1), of other io]
  by (cases "operation (m\<lparr>st_records := recs\<rparr>)")
    (auto simp: mutate_def file_lock_def op_bind_cases reload_def on_store_def write_records_def Let_def
      split: lock_outcome.splits sum.splits prod.splits if_splits)

definition file_inv :: "int \<Rightarrow> int \<Rightarrow> state_file \<Rightarrow> bool" where
  "file_inv ac mc f =
     (\<exists>recs. represents f recs \<and> exclusive_list ac mc (filter active (map snd recs)))"

lemma records_ok_store:
  "records_ok (st_records s) \<longleftrightarrow> store_wf s \<and> all_ok s"
  by (fastforce simp: records_ok_def store_wf_def all_ok_def record_ok_def)

lemma mutate_inv:
  assumes "file_inv ac mc f" and "process_with ac mc m"
    and "mutate other io operation \<lparr>fs_store = m, fs_file = f\<rparr> = (res, fs)"
    and keep: "\<And>s x s'. store_inv s \<Longrightarrow> all_ok s \<Longrightarrow> operation s = (Inr x, s') \<Longrightarrow> keeps s s' \<and> all_ok s'"
  shows "file_inv ac mc (fs_file fs)"
proof -
  obtain recs where recs: "represents f recs" "exclusive_list ac mc (filter active (map snd recs))"
    using assms(1) by (auto simp: file_inv_def)
  let ?s = "m\<lparr>st_records := recs\<rparr>"
  have "records_ok (st_records ?s)" using recs(1) by (simp add: represents_def)
  then have ok: "store_inv ?s" "all_ok ?s"
    using recs(2) assms(2) by (simp_all only: records_ok_store)
      (simp_all add: store_inv_def exclusive_def process_with_def)
  from mutate_file [OF recs(1) assms(3)] show ?thesis
  proof
    assume "\<not> is_ok res \<and> fs_file fs = f"
    with assms(1) show ?thesis by simp
  next
    assume "\<exists>x s n. res = Inr x \<and> operation ?s = (Inr x, s) \<and>
       n \<le> MAX_ADMISSION_STATE_BYTES \<and> fs_file fs = Bytes n (Some (state_document (st_records s)))"
    then obtain x s n where op: "operation ?s = (Inr x, s)" and n: "n \<le> MAX_ADMISSION_STATE_BYTES"
        "fs_file fs = Bytes n (Some (state_document (st_records s)))" by blast
    have s: "keeps ?s s" "all_ok s" using keep [OF ok op] by auto
    then have inv: "store_inv s" using ok(1) by (simp add: keeps_def)
    then have "represents (fs_file fs) (st_records s)"
      using n s(2) records_ok_store [of s] by (auto simp: represents_def store_inv_def)
    moreover have "exclusive_list ac mc (actives s)"
      using inv s(1) assms(2) by (auto simp: store_inv_def exclusive_def keeps_def process_with_def)
    ultimately show ?thesis by (auto simp: file_inv_def)
  qed
qed

lemma file_step_inv: "file_step other ac mc f f' \<Longrightarrow> file_inv ac mc f \<Longrightarrow> file_inv ac mc f'"
proof (induction rule: file_step.induct)
  case (file_step_reserve m r io now f res fs)
  then show ?case
    unfolding file_reserve_def
    by (elim mutate_inv) (auto intro: reserve_keeps reserve_all_ok)
next
  case (file_step_transition m io i target v now f res fs)
  then show ?case
    unfolding file_transition_def
    by (elim mutate_inv) (auto simp: store_inv_def intro: transition_keeps transition_all_ok)
next
  case (file_step_expire m io now f res' fs)
  then show ?case
    unfolding file_expire_def
    by (elim mutate_inv) (auto simp: store_inv_def intro: expire_keeps expire_all_ok)
qed

lemma file_run_inv: "(file_step other ac mc)\<^sup>*\<^sup>* f f' \<Longrightarrow> file_inv ac mc f \<Longrightarrow> file_inv ac mc f'"
  by (induction rule: rtranclp_induct) (auto intro: file_step_inv)

text \<open>
  C6. Exclusiveness across processes. Any number of processes share one state file, each with its
  own stale memory, and run reservations, transitions and sweeps in any interleaving, with lock,
  read and write failures anywhere. Then the file always holds a decodable document, and its active
  records never share an agent, exceed the account or model capacity, or conflict in scope.
\<close>

theorem shared_file_exclusive:
  assumes "1 \<le> ac" and "1 \<le> mc" and "(file_step other ac mc)\<^sup>*\<^sup>* No_File f"
  shows "\<exists>recs. represents f recs \<and>
    distinct (map agent_of (filter active (map snd recs))) \<and>
    (\<forall>k. int (length (filter (\<lambda>r. account_key_of r = k) (filter active (map snd recs)))) \<le> ac) \<and>
    (\<forall>k. int (length (filter (\<lambda>r. model_key_of r = k) (filter active (map snd recs)))) \<le> mc) \<and>
    sorted_wrt (\<lambda>x y. \<not> scope_conflicts x y) (filter active (map snd recs))"
proof -
  have "file_inv ac mc No_File"
    using assms(1,2) by (auto simp: file_inv_def represents_def records_ok_def exclusive_list_def intro!: exI [of _ "[]"])
  then show ?thesis
    using file_run_inv [OF assms(3)] unfolding file_inv_def exclusive_list_def by blast
qed

subsection \<open>A state file that outgrows its reader\<close>

text \<open>A record with short fields, for the examples below.\<close>

definition tiny_record :: "nat \<Rightarrow> AdmissionState \<Rightarrow> AdmissionRecord" where
  "tiny_record i st =
     \<lparr>ar_schema_version = PInt 1, ar_admission_id = pad 4 i, ar_request_id = ''r'',
      ar_dispatch_id = ''d'', ar_workpackage_id = ''w'', ar_assignment_intent_id = ''i'',
      ar_repo_id = ''p'', ar_principal_id = ''q'', ar_parent_principal_id = ''q'',
      ar_grant_id = ''g'', ar_grant_digest = ''x'', ar_work_item_version = 1,
      ar_scope = \<lparr>sb_mode = ''read'', sb_paths = [''s''], sb_canonical_digest = ''d''\<rparr>,
      ar_resource = \<lparr>rb_agent_id = ''a'', rb_account_key = ''k'', rb_budget_key = ''b'',
        rb_model_id = ''m'', rb_expected_usage_micro = 0, rb_account_pool_binding = None\<rparr>,
      ar_lease_context = \<lparr>lb_expected_state = ''f'', lb_lease_id = None\<rparr>,
      ar_priority = \<lparr>pr_dispatch = ''DP1'', pr_selection_reason = ''f''\<rparr>,
      ar_state = st, ar_created_at_utc = sample_now,
      ar_expires_at_utc = utc_at (63900000000 + 30), ar_revision = 0\<rparr>"

lemma state_value_size: "json_str_size (AdmissionState_value st) \<le> 23"
  by (cases st; simp only: AdmissionState_value.simps; code_simp)

lemma tiny_payload_size: "json_size (record_to_payload (tiny_record i st)) \<le> 720"
  unfolding record_to_payload_def tiny_record_def
  using json_iso_size [of sample_now] json_iso_size [of "utc_at (63900000000 + 30)"]
    state_value_size [of st]
  by (simp add: json_pad_size digits_of.simps) (simp add: json_str_size_def json_char_size_def)

lemma length_update_dict:
  "length (AList.update k v d) = (if k \<in> fst ` set d then length d else Suc (length d))"
  by (induction d) auto

lemma length_put_present:
  "ar_admission_id u \<in> fst ` set (st_records s) \<Longrightarrow>
     length (st_records (put_record u s)) = length (st_records s)"
  by (simp add: put_record_def length_update_dict)

lemma expire_loop_length:
  "\<forall>r \<in> set rs. ar_admission_id r \<in> fst ` set (st_records s) \<Longrightarrow>
   expire_loop now rs s = (res, s') \<Longrightarrow> length (st_records s') = length (st_records s)"
proof (induction rs arbitrary: s res)
  case Nil
  then show ?case by simp
next
  case (Cons r rs)
  consider (skip) "expire_loop now rs s = (res, s')" | (err) "s' = s"
    | (step) u res' where "advance r EXPIRED now = Inr u"
        "expire_loop now rs (put_record u s) = (res', s')"
    using Cons.prems(2) by (auto simp: op_bind_cases split: sum.splits if_splits)
  then show ?case
  proof cases
    case step
    have id: "ar_admission_id u = ar_admission_id r"
      using advanced_view [OF step(1)] by simp
    have "\<forall>x \<in> set rs. ar_admission_id x \<in> fst ` set (st_records (put_record u s))"
      using Cons.prems(1) by (simp add: put_record_def dom_update)
    then show ?thesis
      using Cons.IH [OF _ step(2)] Cons.prems(1) id by (simp add: length_put_present)
  qed (use Cons in auto)
qed

lemma reserve_length:
  assumes "store_wf s" and "reserve r now s = (Inr u, s')"
  shows "length (st_records s') = Suc (length (st_records s))"
proof -
  obtain us s1 where "expire_locked now s = (Inr us, s1)" and s1: "advance r RESERVED now = Inr u"
      "map_of (st_records s1) (ar_admission_id r) = None" "s' = put_record u s1"
    using assms(2)
    by (auto simp: reserve_def op_bind_cases result_simps split: if_splits option.splits sum.splits)
  moreover have "\<forall>r \<in> set (records_of s). ar_admission_id r \<in> fst ` set (st_records s)"
    using assms(1) by (force simp: store_wf_def)
  ultimately have "length (st_records s1) = length (st_records s)"
    unfolding expire_locked_def using expire_loop_length by blast
  then show ?thesis
    using s1 advanced_view [OF s1(1)]
    by (auto simp: put_record_def length_update_dict map_of_eq_None_iff)
qed

text \<open>
  C40. Nothing bounds the number of records that are written, but the reader refuses more than
  4096. When a reservation succeeds on a state file that already holds 4096 records (finished ones
  count: no operation removes a record), every later operation of any process, read or write, on
  that file fails, whatever it is.
\<close>

theorem overfull_file_locks_out:
  assumes "represents f recs" and "int (length recs) = MAX_STORED_ADMISSIONS"
    and "store_inv (m\<lparr>st_records := recs\<rparr>)" and "record_ok r"
    and "file_reserve other io r now \<lparr>fs_store = m, fs_file = f\<rparr> = (Inr u, fs)"
  shows "\<not> is_ok (fst (mutate other io' operation \<lparr>fs_store = m', fs_file = fs_file fs\<rparr>)) \<and>
    \<not> is_ok (fst (file_read other io' query \<lparr>fs_store = m', fs_file = fs_file fs\<rparr>))"
proof -
  obtain s n where op: "reserve r now (m\<lparr>st_records := recs\<rparr>) = (Inr u, s)"
    and written: "fs_file fs = Bytes n (Some (state_document (st_records s)))"
    using mutate_file [OF assms(1)] assms(5) by (fastforce simp: file_reserve_def)
  have "all_ok (m\<lparr>st_records := recs\<rparr>)"
    using assms(1) records_ok_store [of "m\<lparr>st_records := recs\<rparr>"] by (simp add: represents_def)
  then have "records_ok (st_records s)"
    using reserve_keeps [OF assms(3) op] reserve_all_ok [OF _ assms(4) op] assms(3)
    by (simp add: records_ok_store keeps_def store_inv_def)
  moreover have "length (st_records s) = Suc (length recs)"
    using reserve_length [OF _ op] assms(3) by (simp add: store_inv_def)
  ultimately have "load_records other io' (fs_file fs) \<noteq> Inr x" for x
    using assms(2) by (simp add: written load_records_def load_document_state)
  then show ?thesis
    by (auto simp: mutate_def file_read_def file_lock_def op_bind_def reload_def
        split: lock_outcome.splits sum.splits)
qed

definition full_records :: "(string, AdmissionRecord) dict" where
  "full_records = map (\<lambda>i. (pad 4 i, tiny_record i FINALIZED)) [0..<4096]"

definition full_store :: AdmissionStore where
  "full_store = sample_store\<lparr>st_records := full_records\<rparr>"

lemma pad_text_ok: "text_ok 128 (pad 4 i)"
proof -
  have "list_all (\<lambda>c. (of_char c :: nat) \<ge> 32) (pad 4 i)"
    using pad_digits [of 4 i] by (auto simp: list_all_iff is_digit_def char_in_range_def)
  then show ?thesis by (simp add: text_ok_def printable_def)
qed

lemma tiny_record_ok: "record_ok (tiny_record i st)"
proof -
  have "record_wf (tiny_record i st)"
    by (simp add: record_wf_def tiny_record_def record_ids_def MAX_ADMISSION_ID_LENGTH_def pad_text_ok
        sample_now_def utc_at_def aware_def instant_def us_per_second_def MAX_RESERVATION_TTL_SECONDS_def)
      (simp add: text_ok_def printable_def)
  moreover have "is_ok (ScopeBinding_init (ar_scope (tiny_record i st)))"
    "is_ok (ResourceBinding_init (ar_resource (tiny_record i st)))"
    "is_ok (LeaseBinding_init (ar_lease_context (tiny_record i st)))"
    "is_ok (AdmissionPriority_init (ar_priority (tiny_record i st)))"
    "dt_valid (ar_created_at_utc (tiny_record i st))" "dt_valid (ar_expires_at_utc (tiny_record i st))"
    unfolding tiny_record_def AdmissionRecord.simps by code_simp+
  ultimately show ?thesis by (simp add: record_ok_def tiny_record_def)
qed

lemma full_records_ok: "records_ok full_records" "length full_records = 4096"
proof -
  have "inj_on (pad 4) (set [0..<4096])"
    by (rule inj_on_inverseI [of _ number]) (simp add: number_pad)
  then have "dict_wf full_records"
    by (simp add: full_records_def comp_def distinct_map)
  then show "records_ok full_records"
    using tiny_record_ok by (auto simp: records_ok_def full_records_def tiny_record_def)
  show "length full_records = 4096" by (simp add: full_records_def)
qed

lemma full_store_idle: "actives full_store = []"
  by (simp add: full_store_def full_records_def filter_empty_conv active_def tiny_record_def ACTIVE_STATES_def)

lemma full_store_inv: "store_inv full_store"
  using full_records_ok(1) full_store_idle records_ok_store [of full_store]
  by (simp add: store_inv_def exclusive_def exclusive_list_def full_store_def sample_store_def)

definition full_file :: state_file where
  "full_file = Bytes 0 (Some (state_document full_records))"

definition extra_record :: AdmissionRecord where
  "extra_record = tiny_record 4096 PLANNED"

definition extra_reserved :: AdmissionRecord where
  "extra_reserved = tiny_record 4096 RESERVED\<lparr>ar_revision := 1\<rparr>"

lemma extra_record_view:
  "ar_state extra_record = PLANNED" "ar_admission_id extra_record = pad 4 4096" "ar_revision extra_record = 0"
  "extra_record\<lparr>ar_state := RESERVED, ar_revision := 1\<rparr> = extra_reserved"
  "ar_admission_id extra_reserved = pad 4 4096"
  by (simp_all add: extra_record_def extra_reserved_def tiny_record_def)

lemma full_store_reserve:
  "reserve extra_record sample_now full_store =
     (Inr extra_reserved, sample_store\<lparr>st_records := full_records @ [(pad 4 4096, extra_reserved)]\<rparr>)"
proof -
  have swept: "swept sample_now full_store = full_store"
    by (simp add: swept_def full_store_def full_records_def expirable_at_def tiny_record_def EXPIRABLE_STATES_def)
  have fresh: "map_of (st_records full_store) (pad 4 4096) = None"
  proof -
    have "pad 4 4096 \<noteq> pad 4 i" if "i < 4096" for i
      using number_pad [of 4096 4] number_pad [of i 4] that by force
    then have "pad 4 4096 \<notin> fst ` set full_records" by (fastforce simp: full_records_def)
    then show ?thesis by (simp add: full_store_def map_of_eq_None_iff)
  qed
  have "reservation_conflict full_store extra_record = None"
    unfolding reservation_conflict_def full_store_idle Let_def
    by (simp add: full_store_def sample_store_def)
  moreover have "revisions_left full_store"
    by (simp add: revisions_left_def full_store_def full_records_def list_all_iff tiny_record_def)
  moreover have "aware sample_now" "\<not> instant (ar_expires_at_utc extra_record) \<le> instant sample_now"
    by (simp_all add: sample_now_def extra_record_def tiny_record_def utc_at_def aware_def instant_def us_per_second_def)
  moreover have "store_wf full_store" using full_store_inv by (simp add: store_inv_def)
  moreover have "record_wf extra_record" using tiny_record_ok [of 4096 PLANNED] by (simp add: record_ok_def extra_record_def)
  ultimately have "reserve extra_record sample_now full_store =
      (Inr extra_reserved, put_record extra_reserved full_store)"
    using reserve_outcome_swept [of full_store sample_now extra_record] fresh
    by (simp add: swept extra_record_view)
  then show ?thesis
    using fresh by (simp add: extra_record_view put_record_def full_store_def update_fresh map_of_eq_None_iff)
qed

lemma extended_document_fits:
  "json_size (state_document (full_records @ [(k, extra_reserved)])) + 1
     \<le> MAX_ADMISSION_STATE_BYTES"
proof -
  have last: "json_size (record_to_payload extra_reserved) \<le> 720"
    using tiny_payload_size [of 4096 RESERVED]
    by (simp add: record_to_payload_def extra_reserved_def tiny_record_def digits_of.simps)
  have "sum_list (map (\<lambda>i. json_size (record_to_payload (tiny_record i FINALIZED))) [0..<4096])
      \<le> sum_list (map (\<lambda>i. 720) [0..<4096])"
    by (rule sum_list_mono) (rule tiny_payload_size)
  also have "\<dots> = 4096 * 720" by (simp add: sum_list_triv)
  finally have "sum_list (map (json_size \<circ> (\<lambda>(_, r). record_to_payload r)) full_records) \<le> 4096 * 720"
    by (simp add: full_records_def comp_def)
  moreover have "json_str_size ''schema_version'' = 16" "json_str_size ''records'' = 9" by code_simp+
  ultimately show ?thesis
    using last full_records_ok(2)
    by (simp add: state_document_def MAX_ADMISSION_STATE_BYTES_def digits_of.simps)
qed

lemma full_file_represents: "represents full_file full_records"
  using full_records_ok(1) by (auto simp: represents_def full_file_def MAX_ADMISSION_STATE_BYTES_def)

lemma full_file_reserve:
  "is_ok (fst (file_reserve (\<lambda>_. None) io_ok extra_record sample_now
     \<lparr>fs_store = sample_store, fs_file = full_file\<rparr>))"
proof -
  have "load_records (\<lambda>_. None) io_ok full_file = Inr full_records"
    using full_records_ok
    by (simp add: load_records_def io_ok_def full_file_def load_document_state MAX_ADMISSION_STATE_BYTES_def
        MAX_STORED_ADMISSIONS_def)
  then have "reload (\<lambda>_. None) io_ok \<lparr>fs_store = sample_store, fs_file = full_file\<rparr> =
      (Inr (), \<lparr>fs_store = full_store, fs_file = full_file\<rparr>)"
    by (simp add: reload_def full_store_def)
  then show ?thesis
    using extended_document_fits [of "pad 4 4096"] full_store_reserve
    by (simp add: file_reserve_def mutate_def file_lock_def op_bind_def on_store_def write_records_def
        io_ok_def Let_def)
qed

theorem shared_file_exclusive_witness:
  "\<exists>f recs. (file_step (\<lambda>_. None) 1 1)\<^sup>*\<^sup>* No_File f \<and> represents f recs \<and>
     distinct (map agent_of (filter active (map snd recs)))"
proof -
  let ?run = "file_reserve (\<lambda>_. None) io_ok sample_record sample_now
     \<lparr>fs_store = sample_store, fs_file = No_File\<rparr>"
  have "process_with 1 1 sample_store" by (simp add: process_with_def sample_store_def)
  then have "file_step (\<lambda>_. None) 1 1 No_File (fs_file (snd ?run))"
    using file_step_reserve [OF _ sample_record_ok prod.collapse [symmetric]] by blast
  then have run: "(file_step (\<lambda>_. None) 1 1)\<^sup>*\<^sup>* No_File (fs_file (snd ?run))" by blast
  from shared_file_exclusive [OF _ _ this] run show ?thesis by auto
qed

theorem overfull_file_locks_out_witness:
  "\<exists>u fs. file_reserve (\<lambda>_. None) io_ok extra_record sample_now
      \<lparr>fs_store = sample_store, fs_file = full_file\<rparr> = (Inr u, fs) \<and>
    \<not> is_ok (fst (file_get (\<lambda>_. None) io_ok (pad 4 0) fs))"
proof -
  obtain u fs where ok: "file_reserve (\<lambda>_. None) io_ok extra_record sample_now
      \<lparr>fs_store = sample_store, fs_file = full_file\<rparr> = (Inr u, fs)"
    using full_file_reserve by (metis is_ok_iff prod.collapse)
  have "int (length full_records) = MAX_STORED_ADMISSIONS"
    using full_records_ok(2) by (simp add: MAX_STORED_ADMISSIONS_def)
  moreover have "store_inv (sample_store\<lparr>st_records := full_records\<rparr>)"
    using full_store_inv by (simp only: full_store_def)
  moreover have "record_ok extra_record" using tiny_record_ok by (simp only: extra_record_def)
  ultimately have "\<not> is_ok (fst (file_read (\<lambda>_. None) io_ok (get (pad 4 0))
      \<lparr>fs_store = fs_store fs, fs_file = fs_file fs\<rparr>))"
    using overfull_file_locks_out [OF full_file_represents _ _ _ ok] by blast
  then have "\<not> is_ok (fst (file_get (\<lambda>_. None) io_ok (pad 4 0) fs))"
    by (cases fs) (simp add: file_get_def)
  with ok show ?thesis by blast
qed

end
