(* ===== verification/Selection_Service.thy ===== *)
theory Selection_Service
  imports File_Admission
begin

text \<open>
  \<open>selection_service.py\<close>: the hand-off from a planned admission to an injected runtime, with
  bounded retry, compensation and crash reconciliation. The injected parts (runtime, clock,
  sleeper, plan factory) are functions on an arbitrary world state; the store is any backend with
  the four methods the service calls, so the same definitions run on the in-process and on the file
  store. The local variable \<open>current\<close> of an attempt is part of the state, because the exception
  handlers read it.
\<close>

definition MAX_EXECUTION_ATTEMPTS :: nat where "MAX_EXECUTION_ATTEMPTS = 3"
definition MAX_OPERATION_LENGTH :: nat where "MAX_OPERATION_LENGTH = 128"
definition RETRY_BACKOFF_SECONDS :: "rat list" where "RETRY_BACKOFF_SECONDS = [1 / 20, 1 / 10, 1 / 5]"

record 'w SelectionRuntime =
  rt_revalidate :: "AdmissionRecord \<Rightarrow> ('w, bool) op"
  rt_revalidate_before_begin_execution :: "(AdmissionRecord \<Rightarrow> ('w, bool) op) option"
  rt_execute :: "AdmissionRecord \<Rightarrow> string \<Rightarrow> ('w, pyval) op"
  rt_execution_completed :: "AdmissionRecord \<Rightarrow> ('w, bool) op"

text \<open>The methods of \<open>AdmissionStore\<close> that the service reaches.\<close>

record 's backend =
  be_reserve :: "AdmissionRecord \<Rightarrow> py_datetime \<Rightarrow> ('s, AdmissionRecord) op"
  be_get :: "string \<Rightarrow> ('s, AdmissionRecord) op"
  be_transition :: "'s transition_op"
  be_records_snapshot :: "('s, AdmissionRecord list) op"

record SelectionRequest =
  rq_candidates :: "SelectionCandidate list"
  rq_selection_policy :: SelectionPolicy
  rq_now :: py_datetime
  rq_ledger :: "FairnessLedger option"

definition SelectionRequest_init :: "SelectionRequest \<Rightarrow> SelectionRequest result" where
  "SelectionRequest_init r =
     (if aware (rq_now r) then Inr r
      else Inl (SelectionServiceError ''selection time must be timezone-aware''))"

record ('s, 'w) SelectionService =
  ss_store :: "'s backend"
  ss_runtime :: "'w SelectionRuntime option"
  ss_now :: "'w \<Rightarrow> py_datetime \<times> 'w"
  ss_sleep :: "rat \<Rightarrow> 'w \<Rightarrow> 'w"
  ss_backoff :: "rat list"

definition SelectionService_init :: "('s, 'w) SelectionService \<Rightarrow> ('s, 'w) SelectionService result" where
  "SelectionService_init svc =
     (if \<not> list_all (\<lambda>delay. delay \<ge> 0) (ss_backoff svc)
      then Inl (SelectionServiceError ''invalid retry backoff'')
      else if length (ss_backoff svc) \<noteq> MAX_EXECUTION_ATTEMPTS
      then Inl (SelectionServiceError ''retry backoff must contain three delays'')
      else Inr svc)"

record ('s, 'w) service_state =
  sv_store :: 's
  sv_world :: 'w
  sv_current :: "AdmissionRecord option"

definition preview :: "SelectionRequest \<Rightarrow> SelectionPreview result" where
  "preview request =
     preview_selection (rq_candidates request) (rq_selection_policy request) (rq_now request)
       (rq_ledger request)"

definition admission_preview :: "SelectionRequest \<Rightarrow> AdmissionPolicy \<Rightarrow> AdmissionPreview result" where
  "admission_preview request admission_policy =
     preview_selection_admission (rq_candidates request) (rq_selection_policy request)
       admission_policy (rq_now request) (rq_ledger request)"

subsection \<open>Effects\<close>

definition in_world :: "('w, 'a) op \<Rightarrow> (('s, 'w) service_state, 'a) op" where
  "in_world f st = (case f (sv_world st) of (res, w) \<Rightarrow> (res, st\<lparr>sv_world := w\<rparr>))"

definition in_store :: "('s, 'a) op \<Rightarrow> (('s, 'w) service_state, 'a) op" where
  "in_store f st = (case f (sv_store st) of (res, s) \<Rightarrow> (res, st\<lparr>sv_store := s\<rparr>))"

text \<open>A store call whose keyword argument \<open>now=self._now()\<close> is evaluated first.\<close>

definition timed ::
  "('s, 'w) SelectionService \<Rightarrow> (py_datetime \<Rightarrow> ('s, 'a) op) \<Rightarrow> (('s, 'w) service_state, 'a) op" where
  "timed svc f st =
     (case ss_now svc (sv_world st) of (now, w) \<Rightarrow> in_store (f now) (st\<lparr>sv_world := w\<rparr>))"

definition assign :: "AdmissionRecord \<Rightarrow> (('s, 'w) service_state, AdmissionRecord) op" where
  "assign r st = (Inr r, st\<lparr>sv_current := Some r\<rparr>)"

text \<open>\<open>current = self._store.<transition>(current.admission_id, expected_revision=current.revision, now=self._now())\<close>\<close>

definition move ::
  "('s, 'w) SelectionService \<Rightarrow> (string \<Rightarrow> int \<Rightarrow> py_datetime \<Rightarrow> ('s, AdmissionRecord) op) \<Rightarrow>
   AdmissionRecord \<Rightarrow> (('s, 'w) service_state, AdmissionRecord) op" where
  "move svc tr current =
     op_bind (timed svc (tr (ar_admission_id current) (ar_revision current))) assign"

definition plan_admission :: "('w, AdmissionRecord) op \<Rightarrow> ('w, AdmissionRecord) op" where
  "plan_admission plan_factory =
     op_bind plan_factory (\<lambda>r.
       op_lift (if ar_state r \<noteq> PLANNED
                then Inl (SelectionServiceError ''admission plan must be planned'') else Inr r))"

subsection \<open>One attempt\<close>

record execution_response =
  er_result :: "(string \<times> pyval) list"
  er_admission :: pyval
  er_attempt :: nat
  er_raw_output :: string

definition revalidation_stage ::
  "('s, 'w) SelectionService \<Rightarrow> 'w SelectionRuntime \<Rightarrow> AdmissionRecord \<Rightarrow>
   (('s, 'w) service_state, AdmissionRecord) op" where
  "revalidation_stage svc rt current =
     (let tr = be_transition (ss_store svc) in
      op_bind (in_world (rt_revalidate rt current)) (\<lambda>valid.
        if \<not> valid
        then op_bind (move svc (\<lambda>i v. complete_revalidation tr i v False) current) (\<lambda>current.
             op_bind (move svc (compensate tr) current) (\<lambda>_.
               op_lift (Inl (SelectionDeniedError ''admission revalidation denied''))))
        else move svc (\<lambda>i v. complete_revalidation tr i v True) current))"

definition pool_stage ::
  "('s, 'w) SelectionService \<Rightarrow> 'w SelectionRuntime \<Rightarrow> AdmissionRecord \<Rightarrow>
   (('s, 'w) service_state, AdmissionRecord) op" where
  "pool_stage svc rt current =
     (let tr = be_transition (ss_store svc) in
      if rb_account_pool_binding (ar_resource current) = None then op_lift (Inr current)
      else
        op_bind (case rt_revalidate_before_begin_execution rt of
                   None \<Rightarrow> op_lift (Inr False)
                 | Some fresh_check \<Rightarrow> in_world (fresh_check current)) (\<lambda>fresh.
          if \<not> fresh
          then op_bind (move svc (cancel tr) current) (\<lambda>current.
               op_bind (timed svc (compensate tr (ar_admission_id current) (ar_revision current))) (\<lambda>_.
                 op_lift (Inl (SelectionDeniedError ''pool authority revalidation denied''))))
          else op_lift (Inr current)))"

definition execution_stage ::
  "('s, 'w) SelectionService \<Rightarrow> 'w SelectionRuntime \<Rightarrow> string \<Rightarrow> nat \<Rightarrow> AdmissionRecord \<Rightarrow>
   (('s, 'w) service_state, execution_response) op" where
  "execution_stage svc rt operation attempt current =
     (let be = ss_store svc; tr = be_transition be in
      op_bind (move svc (begin_execution tr) current) (\<lambda>current.
      op_bind (in_world (rt_execute rt current operation)) (\<lambda>result.
        case result of
          PDict d \<Rightarrow>
            op_bind (move svc (finalize (be_get be) tr) current) (\<lambda>current.
              op_lift (Inr \<lparr>er_result = d, er_admission = public current, er_attempt = attempt + 1,
                            er_raw_output = ''not_returned''\<rparr>))
        | _ \<Rightarrow> op_lift (Inl (SelectionServiceError ''runtime result must be a mapping'')))))"

definition attempt_body ::
  "('s, 'w) SelectionService \<Rightarrow> 'w SelectionRuntime \<Rightarrow> ('w, AdmissionRecord) op \<Rightarrow> string \<Rightarrow> nat \<Rightarrow>
   (('s, 'w) service_state, execution_response) op" where
  "attempt_body svc rt plan_factory operation attempt =
     op_bind (in_world (plan_admission plan_factory)) (\<lambda>planned.
     op_bind (op_bind (timed svc (be_reserve (ss_store svc) planned)) assign) (\<lambda>current.
     op_bind (move svc (begin_revalidation (be_transition (ss_store svc))) current) (\<lambda>current.
     op_bind (revalidation_stage svc rt current) (\<lambda>current.
     op_bind (pool_stage svc rt current) (\<lambda>current.
       execution_stage svc rt operation attempt current)))))"

subsection \<open>Compensation\<close>

definition compensate_cancel ::
  "('s, 'w) SelectionService \<Rightarrow> AdmissionRecord \<Rightarrow> (('s, 'w) service_state, AdmissionRecord) op" where
  "compensate_cancel svc current =
     (let tr = be_transition (ss_store svc) in
      if ar_state current \<in> set [RESERVED, REVALIDATING, ADMITTED]
      then timed svc (cancel tr (ar_admission_id current) (ar_revision current))
      else op_lift (Inr current))"

definition compensate_settle ::
  "('s, 'w) SelectionService \<Rightarrow> AdmissionRecord \<Rightarrow> (('s, 'w) service_state, AdmissionRecord) op" where
  "compensate_settle svc current =
     (let tr = be_transition (ss_store svc) in
      if ar_state current \<in> set [CANCELLED, CONFLICT, EXPIRED, DENIED]
      then timed svc (compensate tr (ar_admission_id current) (ar_revision current))
      else if ar_state current \<in> set [EXECUTING, ADMITTED]
      then timed svc (mark_execution_failed tr (ar_admission_id current) (ar_revision current))
      else op_lift (Inr current))"

definition compensate_finish ::
  "('s, 'w) SelectionService \<Rightarrow> AdmissionRecord \<Rightarrow> (('s, 'w) service_state, AdmissionRecord) op" where
  "compensate_finish svc current =
     (let tr = be_transition (ss_store svc) in
      op_bind (if ar_state current = EXECUTION_FAILED
               then timed svc (begin_compensation tr (ar_admission_id current) (ar_revision current))
               else op_lift (Inr current)) (\<lambda>current.
      if ar_state current = COMPENSATING
      then timed svc (finish_compensation tr (ar_admission_id current) (ar_revision current))
      else op_lift (Inr current)))"

text \<open>An \<open>AdmissionError\<close> of the clean-up is swallowed; any other exception would replace the cause.\<close>

definition swallow_admission_error :: "'a result \<times> 'st \<Rightarrow> unit result \<times> 'st" where
  "swallow_admission_error p =
     (case p of
        (Inl (AdmissionError m), st) \<Rightarrow> (Inr (), st)
      | (Inl e, st) \<Rightarrow> (Inl e, st)
      | (Inr x, st) \<Rightarrow> (Inr (), st))"

definition compensate_record ::
  "('s, 'w) SelectionService \<Rightarrow> AdmissionRecord option \<Rightarrow> (('s, 'w) service_state, unit) op" where
  "compensate_record svc current st =
     (case current of
        None \<Rightarrow> (Inr (), st)
      | Some r \<Rightarrow>
          swallow_admission_error
            (op_bind (compensate_cancel svc r) (\<lambda>r.
             op_bind (compensate_settle svc r) (compensate_finish svc)) st))"

definition is_retryable_admission_error :: "string \<Rightarrow> bool" where
  "is_retryable_admission_error message =
     list_ex (\<lambda>marker. contains marker message)
       [''conflict'', ''capacity'', ''stale_admission_revision'', ''admission_expired'']"

subsection \<open>The retry loop\<close>

definition pause ::
  "('s, 'w) SelectionService \<Rightarrow> nat \<Rightarrow> ('s, 'w) service_state \<Rightarrow> ('s, 'w) service_state" where
  "pause svc attempt st =
     (if attempt < MAX_EXECUTION_ATTEMPTS - 1
      then st\<lparr>sv_world := ss_sleep svc (ss_backoff svc ! attempt) (sv_world st)\<rparr> else st)"

text \<open>What the \<open>except\<close> clauses do with an exception: go on to the next attempt, or raise.\<close>

definition handle ::
  "('s, 'w) SelectionService \<Rightarrow> exn \<Rightarrow> ('s, 'w) service_state \<Rightarrow> unit result \<times> ('s, 'w) service_state" where
  "handle svc e st =
     (case e of
        RetryableSelectionError m \<Rightarrow> compensate_record svc (sv_current st) st
      | SelectionDeniedError m \<Rightarrow> (Inl e, st)
      | AdmissionError m \<Rightarrow>
          if sv_current st = None \<and> is_retryable_admission_error m then (Inr (), st)
          else op_bind (compensate_record svc (sv_current st)) (\<lambda>_.
                 op_lift (Inl (SelectionServiceError ''admission execution failed''))) st
      | _ \<Rightarrow> op_bind (compensate_record svc (sv_current st)) (\<lambda>_. op_lift (Inl e)) st)"

fun attempts ::
  "('s, 'w) SelectionService \<Rightarrow> 'w SelectionRuntime \<Rightarrow> ('w, AdmissionRecord) op \<Rightarrow> string \<Rightarrow> nat list \<Rightarrow>
   (('s, 'w) service_state, execution_response) op" where
  "attempts svc rt plan_factory operation [] st =
     (Inl (SelectionServiceError ''admission retry exhausted''), st)"
| "attempts svc rt plan_factory operation (k # ks) st =
     (case attempt_body svc rt plan_factory operation k (st\<lparr>sv_current := None\<rparr>) of
        (Inr response, st) \<Rightarrow> (Inr response, st)
      | (Inl e, st) \<Rightarrow>
          (case handle svc e st of
             (Inl e', st) \<Rightarrow> (Inl e', st)
           | (Inr _, st) \<Rightarrow> attempts svc rt plan_factory operation ks (pause svc k st)))"

definition execute_with_retry ::
  "('s, 'w) SelectionService \<Rightarrow> ('w, AdmissionRecord) op \<Rightarrow> string \<Rightarrow>
   (('s, 'w) service_state, execution_response) op" where
  "execute_with_retry svc plan_factory operation st =
     (if \<not> (1 \<le> length operation \<and> length operation \<le> MAX_OPERATION_LENGTH)
      then (Inl (SelectionServiceError ''invalid operation''), st)
      else case ss_runtime svc of
             None \<Rightarrow> (Inl (SelectionServiceError ''selection runtime is unavailable''), st)
           | Some rt \<Rightarrow> attempts svc rt plan_factory operation [0..<MAX_EXECUTION_ATTEMPTS] st)"

subsection \<open>Reconciliation\<close>

record reconcile_counts =
  rc_recovered :: nat
  rc_compensated :: nat
  rc_unresolved :: nat

fun reconcile_loop ::
  "('s, 'w) SelectionService \<Rightarrow> 'w SelectionRuntime \<Rightarrow> AdmissionRecord list \<Rightarrow> reconcile_counts \<Rightarrow>
   (('s, 'w) service_state, reconcile_counts) op" where
  "reconcile_loop svc rt [] n st = (Inr n, st)"
| "reconcile_loop svc rt (r # rs) n st =
     (let be = ss_store svc; tr = be_transition be in
      if ar_state r = EXECUTING
      then op_bind (in_world (rt_execution_completed rt r)) (\<lambda>completed.
             if completed
             then op_bind (timed svc (recover_after_crash tr (ar_admission_id r) (ar_revision r))) (\<lambda>rec.
                  op_bind (timed svc (finalize (be_get be) tr (ar_admission_id rec) (ar_revision rec))) (\<lambda>_.
                    reconcile_loop svc rt rs (n\<lparr>rc_recovered := rc_recovered n + 1\<rparr>)))
             else reconcile_loop svc rt rs (n\<lparr>rc_unresolved := rc_unresolved n + 1\<rparr>)) st
      else if ar_state r \<in> set [CONFLICT, EXPIRED, DENIED, CANCELLED]
      then op_bind (timed svc (compensate tr (ar_admission_id r) (ar_revision r))) (\<lambda>_.
             reconcile_loop svc rt rs (n\<lparr>rc_compensated := rc_compensated n + 1\<rparr>)) st
      else reconcile_loop svc rt rs n st)"

definition reconcile_incomplete ::
  "('s, 'w) SelectionService \<Rightarrow> (('s, 'w) service_state, reconcile_counts) op" where
  "reconcile_incomplete svc =
     (case ss_runtime svc of
        None \<Rightarrow> op_lift (Inl (SelectionServiceError ''selection runtime is unavailable''))
      | Some rt \<Rightarrow>
          op_bind (in_store (be_records_snapshot (ss_store svc))) (\<lambda>rs.
            reconcile_loop svc rt rs \<lparr>rc_recovered = 0, rc_compensated = 0, rc_unresolved = 0\<rparr>))"

end
