(* ===== verification/Service_Backend.thy ===== *)
theory Service_Backend
  imports Selection_Service
begin

text \<open>
  The contract between \<open>SelectionService\<close> and an admission store, as a locale: what a successful
  and a failed call do to the records that the store holds. It is interpreted on the in-process
  store and on the file store with arbitrary I/O failures, so what is proved of the service from
  the contract holds for both. The contract of a store whose transitions cannot fail for outside
  reasons extends it and is interpreted on the in-process store.
\<close>

locale admission_backend =
  fixes be :: "'s backend"
    and view :: "'s \<Rightarrow> string \<Rightarrow> AdmissionRecord option"
    and ok :: "'s \<Rightarrow> bool"
  assumes view_id: "ok s \<Longrightarrow> view s i = Some r \<Longrightarrow> ar_admission_id r = i"
    and transition_done: "ok s \<Longrightarrow> be_transition be i t v now s = (Inr u, s') \<Longrightarrow>
      ok s' \<and> view s' = (view s)(i \<mapsto> u) \<and>
      (\<exists>r. view s i = Some r \<and> ar_revision r = v \<and> advance r t now = Inr u)"
    and transition_failed: "ok s \<Longrightarrow> be_transition be i t v now s = (Inl e, s') \<Longrightarrow>
      ok s' \<and> view s' = view s"
    and reserve_done: "ok s \<Longrightarrow> record_ok r \<Longrightarrow> be_reserve be r now s = (Inr u, s') \<Longrightarrow>
      ok s' \<and> view s (ar_admission_id r) = None \<and> view s' (ar_admission_id r) = Some u \<and>
      advance r RESERVED now = Inr u \<and>
      (\<forall>j x. j \<noteq> ar_admission_id r \<and> view s' j = Some x \<and> active x \<longrightarrow> view s j = Some x)"
    and reserve_failed: "ok s \<Longrightarrow> record_ok r \<Longrightarrow> be_reserve be r now s = (Inl e, s') \<Longrightarrow>
      ok s' \<and> (\<forall>j x. view s' j = Some x \<and> active x \<longrightarrow> view s j = Some x)"
    and get_result: "ok s \<Longrightarrow> be_get be i s = (res, s') \<Longrightarrow>
      ok s' \<and> view s' = view s \<and> (\<forall>r. res = Inr r \<longrightarrow> view s i = Some r)"
begin

lemma finalize_done:
  assumes "ok s" and "finalize (be_get be) (be_transition be) i v now s = (Inr u, s')"
  shows "ok s' \<and> ar_state u = FINALIZED \<and> view s' = (view s)(i \<mapsto> u)"
proof -
  obtain r s1 where get: "be_get be i s = (Inr r, s1)"
    and rest: "(if ar_state r = FINALIZED then op_lift (Inr r) else be_transition be i FINALIZED v now) s1 = (Inr u, s')"
    using assms(2) by (auto simp: finalize_def elim: op_bind_InrE)
  have s1: "ok s1" "view s1 = view s" "view s i = Some r" using get_result [OF assms(1) get] by auto
  show ?thesis
  proof (cases "ar_state r = FINALIZED")
    case True
    with rest s1 show ?thesis by auto
  next
    case False
    with rest have "be_transition be i FINALIZED v now s1 = (Inr u, s')" by simp
    from transition_done [OF s1(1) this] s1 show ?thesis by (auto simp: advance_Inr)
  qed
qed

lemma finalize_failed:
  "ok s \<Longrightarrow> finalize (be_get be) (be_transition be) i v now s = (Inl e, s') \<Longrightarrow> ok s' \<and> view s' = view s"
proof -
  assume ok: "ok s" and fin: "finalize (be_get be) (be_transition be) i v now s = (Inl e, s')"
  obtain res s1 where get: "be_get be i s = (res, s1)" by (cases "be_get be i s")
  have s1: "ok s1" "view s1 = view s" using get_result [OF ok get] by auto
  consider "s' = s1" | "be_transition be i FINALIZED v now s1 = (Inl e, s')"
    using fin get by (cases res) (auto simp: finalize_def op_bind_def split: if_splits)
  then show "ok s' \<and> view s' = view s" using s1 transition_failed by cases auto
qed

lemma transition_keeps_id:
  "ok s \<Longrightarrow> be_transition be i t v now s = (Inr u, s') \<Longrightarrow> ar_admission_id u = i \<and> ar_state u = t"
  using transition_done view_id by (fastforce simp: advance_Inr)

end

subsection \<open>The in-process store\<close>

definition memory_backend :: "AdmissionStore backend" where
  "memory_backend = \<lparr>be_reserve = reserve, be_get = get, be_transition = transition,
     be_records_snapshot = records_snapshot\<rparr>"

definition memory_view :: "AdmissionStore \<Rightarrow> string \<Rightarrow> AdmissionRecord option" where
  "memory_view s = map_of (st_records s)"

definition memory_ok :: "AdmissionStore \<Rightarrow> bool" where
  "memory_ok s = (store_inv s \<and> all_ok s)"

lemma expire_loop_actives:
  "expire_loop now rs s = (res, s') \<Longrightarrow> map_of (st_records s') j = Some x \<Longrightarrow> active x \<Longrightarrow>
     map_of (st_records s) j = Some x"
proof (induction rs arbitrary: s res)
  case Nil
  then show ?case by simp
next
  case (Cons r rs)
  consider (skip) "expire_loop now rs s = (res, s')" | (err) "s' = s"
    | (step) u res' where "advance r EXPIRED now = Inr u"
        "expire_loop now rs (put_record u s) = (res', s')"
    using Cons.prems(1) by (auto simp: op_bind_cases split: sum.splits if_splits)
  then show ?case
  proof cases
    case step
    then have "\<not> active u" by (auto simp: advance_Inr active_def ACTIVE_STATES_def)
    moreover have "map_of (st_records (put_record u s)) j = Some x"
      using Cons.IH [OF step(2)] Cons.prems by blast
    ultimately show ?thesis using Cons.prems(3) by (auto simp: put_record_def split: if_splits)
  qed (use Cons in auto)
qed

lemma reserve_cases:
  assumes "reserve r now s = (res, s')"
  shows "(\<forall>j x. j \<noteq> ar_admission_id r \<and> map_of (st_records s') j = Some x \<and> active x \<longrightarrow>
            map_of (st_records s) j = Some x) \<and>
    (case res of
       Inl e \<Rightarrow> \<forall>j x. map_of (st_records s') j = Some x \<and> active x \<longrightarrow> map_of (st_records s) j = Some x
     | Inr u \<Rightarrow> advance r RESERVED now = Inr u \<and> map_of (st_records s') (ar_admission_id r) = Some u)"
proof -
  consider (same) e where "res = Inl e" "s' = s"
    | (swept) e res1 where "res = Inl e" "expire_locked now s = (res1, s')"
    | (put) res1 s1 u where "res = Inr u" "expire_locked now s = (res1, s1)" "advance r RESERVED now = Inr u"
        "map_of (st_records s1) (ar_admission_id r) = None" "s' = put_record u s1"
    using assms
    by (auto simp: reserve_def op_bind_cases result_simps adm_aware_def
        split: if_splits option.splits sum.splits)
  then show ?thesis
  proof cases
    case swept
    then show ?thesis using expire_loop_actives by (auto simp: expire_locked_def)
  next
    case put
    have "ar_admission_id u = ar_admission_id r" using advanced_view [OF put(3)] by simp
    then show ?thesis
      using put expire_loop_actives [of now "records_of s" s res1 s1]
      by (auto simp: expire_locked_def put_record_def)
  qed auto
qed

lemma keepsD:
  "keeps s s' \<Longrightarrow> map_of (st_records s) i = Some r \<Longrightarrow> \<exists>u. map_of (st_records s') i = Some u \<and> evolves r u"
  by (simp add: keeps_def)

lemma reserve_fresh:
  assumes "store_wf s" and "reserve r now s = (Inr u, s')"
  shows "map_of (st_records s) (ar_admission_id r) = None"
proof -
  obtain res1 s1 where "expire_locked now s = (res1, s1)" "map_of (st_records s1) (ar_admission_id r) = None"
    using assms(2)
    by (auto simp: reserve_def op_bind_cases result_simps split: if_splits option.splits sum.splits)
  with keepsD [OF expire_locked_keeps [OF assms(1) this(1)]] show ?thesis
    by (cases "map_of (st_records s) (ar_admission_id r)") fastforce+
qed

interpretation memory: admission_backend memory_backend memory_view memory_ok
proof
  fix s s' :: AdmissionStore and i t v now u e r and res :: "AdmissionRecord result"
  assume s: "memory_ok s"
  then have wf: "store_wf s" and inv: "store_inv s" and ok: "all_ok s"
    by (auto simp: memory_ok_def store_inv_def)
  show "ar_admission_id r = i" if "memory_view s i = Some r"
    using store_wf_lookup [OF wf] that by (auto simp: memory_view_def)
  show "memory_ok s' \<and> memory_view s' = (memory_view s)(i \<mapsto> u) \<and>
      (\<exists>r. memory_view s i = Some r \<and> ar_revision r = v \<and> advance r t now = Inr u)"
    if "be_transition memory_backend i t v now s = (Inr u, s')"
  proof -
    have tr: "transition i t v now s = (Inr u, s')" using that by (simp add: memory_backend_def)
    then obtain r where r: "map_of (st_records s) i = Some r" "ar_revision r = v" "advance r t now = Inr u"
        "s' = put_record u s" by (auto simp: transition_Inr)
    have "ar_admission_id u = i" using advanced_view [OF r(3)] store_wf_lookup [OF wf r(1)] by simp
    then have "memory_view s' = (memory_view s)(i \<mapsto> u)"
      using r(4) by (auto simp: memory_view_def put_record_def)
    moreover have "memory_ok s'"
      using transition_keeps [OF wf tr] transition_all_ok [OF ok tr] inv by (simp add: memory_ok_def keeps_def)
    ultimately show ?thesis using r by (auto simp: memory_view_def)
  qed
  show "memory_ok s' \<and> memory_view s' = memory_view s"
    if "be_transition memory_backend i t v now s = (Inl e, s')"
    using transition_Inl [of i t v now s e s'] that s by (simp add: memory_backend_def)
  show "memory_ok s' \<and> memory_view s' = memory_view s \<and> (\<forall>r. res = Inr r \<longrightarrow> memory_view s i = Some r)"
    if "be_get memory_backend i s = (res, s')"
    using that s by (auto simp: memory_backend_def get_def memory_view_def split: option.splits)
  assume r: "record_ok r"
  have keep: "memory_ok s'" if "reserve r now s = (res, s')" for res
    using reserve_keeps [OF inv that] reserve_all_ok [OF ok r that] inv by (simp add: memory_ok_def keeps_def)
  show "memory_ok s' \<and> memory_view s (ar_admission_id r) = None \<and>
      memory_view s' (ar_admission_id r) = Some u \<and> advance r RESERVED now = Inr u \<and>
      (\<forall>j x. j \<noteq> ar_admission_id r \<and> memory_view s' j = Some x \<and> active x \<longrightarrow> memory_view s j = Some x)"
    if "be_reserve memory_backend r now s = (Inr u, s')"
    using that keep reserve_fresh [OF wf] reserve_cases by (fastforce simp: memory_backend_def memory_view_def)
  show "memory_ok s' \<and> (\<forall>j x. memory_view s' j = Some x \<and> active x \<longrightarrow> memory_view s j = Some x)"
    if "be_reserve memory_backend r now s = (Inl e, s')"
    using that keep reserve_cases [of r now s "Inl e" s'] by (auto simp: memory_backend_def memory_view_def)
qed

subsection \<open>The file store\<close>

text \<open>The state carries the I/O outcomes of the coming calls; when the list ends, calls succeed.\<close>

definition with_io ::
  "(file_io \<Rightarrow> (FileAdmissionStore, 'a) op) \<Rightarrow> (FileAdmissionStore \<times> file_io list, 'a) op" where
  "with_io f st =
     (case snd st of
        [] \<Rightarrow> (case f io_ok (fst st) of (res, fs) \<Rightarrow> (res, fs, []))
      | io # ios \<Rightarrow> (case f io (fst st) of (res, fs) \<Rightarrow> (res, fs, ios)))"

definition file_backend ::
  "(string \<Rightarrow> py_datetime option) \<Rightarrow> (FileAdmissionStore \<times> file_io list) backend" where
  "file_backend other =
     \<lparr>be_reserve = (\<lambda>r now. with_io (\<lambda>io. file_reserve other io r now)),
      be_get = (\<lambda>i. with_io (\<lambda>io. file_get other io i)),
      be_transition = (\<lambda>i t v now. with_io (\<lambda>io. file_transition other io i t v now)),
      be_records_snapshot = with_io (\<lambda>io. file_records_snapshot other io)\<rparr>"

text \<open>The records in a state file, however many there are.\<close>

definition file_contents :: "(string \<Rightarrow> py_datetime option) \<Rightarrow> state_file \<Rightarrow> (string, AdmissionRecord) dict" where
  "file_contents other f =
     (case f of
        Bytes n (Some (PDict d)) \<Rightarrow>
          (case py_get d ''records'' PNone of
             PList raws \<Rightarrow> (case load_loop other raws [] of Inr recs \<Rightarrow> recs | Inl _ \<Rightarrow> [])
           | _ \<Rightarrow> [])
      | _ \<Rightarrow> [])"

definition file_view ::
  "(string \<Rightarrow> py_datetime option) \<Rightarrow> FileAdmissionStore \<times> file_io list \<Rightarrow> string \<Rightarrow> AdmissionRecord option" where
  "file_view other st = map_of (file_contents other (fs_file (fst st)))"

definition file_ok :: "FileAdmissionStore \<times> file_io list \<Rightarrow> bool" where
  "file_ok st =
     (\<exists>recs. represents (fs_file (fst st)) recs \<and> store_inv ((fs_store (fst st))\<lparr>st_records := recs\<rparr>))"

lemma represents_contents: "represents f recs \<Longrightarrow> file_contents other f = recs"
  using load_loop_document [of "[]" recs other]
  by (auto simp: represents_def records_ok_def file_contents_def state_document_def py_get_def)

lemma with_io_call: "with_io f st = (res, st') \<Longrightarrow> \<exists>io. f io (fst st) = (res, fst st')"
  by (auto simp: with_io_def split: list.splits prod.splits)

lemma file_backend_ops:
  "be_reserve (file_backend other) r now = with_io (\<lambda>io. mutate other io (reserve r now))"
  "be_get (file_backend other) i = with_io (\<lambda>io. file_get other io i)"
  "be_transition (file_backend other) i t v now = with_io (\<lambda>io. mutate other io (transition i t v now))"
  by (simp_all add: file_backend_def file_reserve_def file_transition_def)

lemma store_inv_cong:
  "st_records s' = st_records s \<Longrightarrow> st_account_capacity s' = st_account_capacity s \<Longrightarrow>
   st_account_model_capacity s' = st_account_model_capacity s \<Longrightarrow> store_inv s' = store_inv s"
  by (simp add: store_inv_def store_wf_def exclusive_def)

lemma represents_store:
  "represents f recs \<Longrightarrow> store_inv (m\<lparr>st_records := recs\<rparr>) \<Longrightarrow> memory_ok (m\<lparr>st_records := recs\<rparr>)"
  using records_ok_store [of "m\<lparr>st_records := recs\<rparr>"] by (simp add: represents_def memory_ok_def)

text \<open>The memory of the process after a mutation has the capacities it had before.\<close>

lemma mutate_capacities:
  assumes "represents (fs_file fs) recs" and "store_inv ((fs_store fs)\<lparr>st_records := recs\<rparr>)"
    and "mutate other io operation fs = (res, fs')"
    and keep: "\<And>s r s'. memory_ok s \<Longrightarrow> operation s = (r, s') \<Longrightarrow> keeps s s'"
  shows "st_account_capacity (fs_store fs') = st_account_capacity (fs_store fs) \<and>
    st_account_model_capacity (fs_store fs') = st_account_model_capacity (fs_store fs)"
proof -
  let ?s = "(fs_store fs)\<lparr>st_records := recs\<rparr>"
  obtain r s' where op: "operation ?s = (r, s')" by (cases "operation ?s")
  have "keeps ?s s'" using keep [OF represents_store [OF assms(1,2)] op] .
  then have "st_account_capacity s' = st_account_capacity (fs_store fs)"
    "st_account_model_capacity s' = st_account_model_capacity (fs_store fs)"
    by (simp_all add: keeps_def)
  moreover have "fs_store fs' \<in> {fs_store fs, s'}"
    using assms(3) op load_represents [OF assms(1)]
    by (cases r) (auto simp: mutate_def file_lock_def op_bind_cases reload_def on_store_def write_records_def Let_def
        split: lock_outcome.splits sum.splits prod.splits if_splits)
  ultimately show ?thesis by auto
qed

text \<open>A mutation of the file store, as seen through the view.\<close>

lemma mutate_view:
  assumes "file_ok (fs, ios)" and "mutate other io operation fs = (res, fs')"
    and keep: "\<And>s r s'. memory_ok s \<Longrightarrow> operation s = (r, s') \<Longrightarrow> keeps s s' \<and> all_ok s'"
  obtains (failed) e where "res = Inl e" "file_contents other (fs_file fs') = file_contents other (fs_file fs)"
      "file_ok (fs', ios')"
  | (moved) s x s' where "res = Inr x" "memory_ok s" "operation s = (Inr x, s')"
      "file_contents other (fs_file fs) = st_records s" "file_contents other (fs_file fs') = st_records s'"
      "file_ok (fs', ios')"
proof -
  obtain recs where recs: "represents (fs_file fs) recs" "store_inv ((fs_store fs)\<lparr>st_records := recs\<rparr>)"
    using assms(1) by (auto simp: file_ok_def)
  let ?s = "(fs_store fs)\<lparr>st_records := recs\<rparr>"
  have mem: "memory_ok ?s" using recs by (rule represents_store)
  note caps = mutate_capacities [OF recs assms(2) conjunct1 [OF keep]]
  have "fs = \<lparr>fs_store = fs_store fs, fs_file = fs_file fs\<rparr>" by simp
  from mutate_file [OF recs(1), of other io operation "fs_store fs" res fs', folded this, OF assms(2)]
  show ?thesis
  proof
    assume same: "\<not> is_ok res \<and> fs_file fs' = fs_file fs"
    have "store_inv ((fs_store fs')\<lparr>st_records := recs\<rparr>)"
      using recs(2) caps by (subst store_inv_cong [of _ ?s]) auto
    then have "file_ok (fs', ios')" using recs(1) same by (auto simp: file_ok_def)
    with same show ?thesis using failed by (cases res) auto
  next
    assume "\<exists>x s n. res = Inr x \<and> operation ?s = (Inr x, s) \<and>
       n \<le> MAX_ADMISSION_STATE_BYTES \<and> fs_file fs' = Bytes n (Some (state_document (st_records s)))"
    then obtain x s n where x: "res = Inr x" "operation ?s = (Inr x, s)"
        "n \<le> MAX_ADMISSION_STATE_BYTES" "fs_file fs' = Bytes n (Some (state_document (st_records s)))"
      by blast
    have s: "keeps ?s s" "all_ok s" using keep [OF mem x(2)] by auto
    then have inv: "store_inv s" using mem by (simp add: keeps_def memory_ok_def)
    then have rep: "represents (fs_file fs') (st_records s)"
      using x s(2) records_ok_store [of s] by (auto simp: represents_def store_inv_def)
    have "store_inv ((fs_store fs')\<lparr>st_records := st_records s\<rparr>)"
      using inv caps s(1) by (subst store_inv_cong [of _ s]) (auto simp: keeps_def)
    then have "file_ok (fs', ios')" using rep by (auto simp: file_ok_def)
    with x mem show ?thesis
      using moved [of x ?s s] represents_contents [OF recs(1)] represents_contents [OF rep] by simp
  qed
qed

definition preserving :: "(AdmissionStore, 'a) op \<Rightarrow> bool" where
  "preserving operation =
     (\<forall>s r s'. memory_ok s \<longrightarrow> operation s = (r, s') \<longrightarrow> keeps s s' \<and> all_ok s')"

lemma preservingD: "preserving operation \<Longrightarrow> memory_ok s \<Longrightarrow> operation s = (r, s') \<Longrightarrow> keeps s s' \<and> all_ok s'"
  by (simp add: preserving_def)

lemma mutate_moved:
  assumes "file_ok st" and "mutate other io operation (fst st) = (Inr x, fst st')"
    and "preserving operation"
  shows "\<exists>s s'. memory_ok s \<and> operation s = (Inr x, s') \<and> file_view other st = memory_view s \<and>
    file_view other st' = memory_view s' \<and> file_ok st'"
  using assms(1)
  by (cases rule: mutate_view [where ios = "snd st" and ios' = "snd st'", OF _ assms(2) preservingD [OF assms(3)]])
    (auto simp: file_view_def memory_view_def)

lemma mutate_failed:
  assumes "file_ok st" and "mutate other io operation (fst st) = (Inl e, fst st')"
    and "preserving operation"
  shows "file_view other st' = file_view other st \<and> file_ok st'"
  using assms(1)
  by (cases rule: mutate_view [where ios = "snd st" and ios' = "snd st'", OF _ assms(2) preservingD [OF assms(3)]])
    (auto simp: file_view_def)

lemma file_get_view:
  assumes "file_ok (fs, ios)" and "file_get other io i fs = (res, fs')"
  shows "file_ok (fs', ios') \<and> fs_file fs' = fs_file fs \<and>
    (\<forall>r. res = Inr r \<longrightarrow> map_of (file_contents other (fs_file fs)) i = Some r)"
proof -
  obtain recs where recs: "represents (fs_file fs) recs" "store_inv ((fs_store fs)\<lparr>st_records := recs\<rparr>)"
    using assms(1) by (auto simp: file_ok_def)
  have "fs_file fs' = fs_file fs \<and> fs_store fs' \<in> {fs_store fs, (fs_store fs)\<lparr>st_records := recs\<rparr>} \<and>
      (\<forall>r. res = Inr r \<longrightarrow> map_of recs i = Some r)"
    using assms(2) load_represents [OF recs(1)]
    by (auto simp: file_get_def file_read_def file_lock_def op_bind_cases reload_def on_store_def get_def
        split: lock_outcome.splits sum.splits prod.splits option.splits)
  then show ?thesis
    using recs represents_contents [OF recs(1), of other] by (auto simp: file_ok_def)
qed

lemma preserving_ops:
  "preserving (transition i t v now)"
  "record_ok r \<Longrightarrow> preserving (reserve r now)"
proof -
  show "preserving (transition i t v now)"
    using transition_keeps transition_all_ok unfolding preserving_def memory_ok_def store_inv_def by blast
  show "preserving (reserve r now)" if "record_ok r"
    using reserve_keeps reserve_all_ok [OF _ that] unfolding preserving_def memory_ok_def by blast
qed

interpretation disk: admission_backend "file_backend other" "file_view other" file_ok
  for other
proof
  fix st st' :: "FileAdmissionStore \<times> file_io list" and i t v now u e r and res :: "AdmissionRecord result"
  assume st: "file_ok st"
  show "ar_admission_id r = i" if "file_view other st i = Some r"
  proof -
    obtain recs where "represents (fs_file (fst st)) recs" using st by (auto simp: file_ok_def)
    then have "map_of recs i = Some r" "records_ok recs"
      using that represents_contents by (auto simp: file_view_def represents_def)
    then show ?thesis by (auto simp: records_ok_def dest!: map_of_SomeD)
  qed
  show "file_ok st' \<and> file_view other st' = (file_view other st)(i \<mapsto> u) \<and>
      (\<exists>r. file_view other st i = Some r \<and> ar_revision r = v \<and> advance r t now = Inr u)"
    if call: "be_transition (file_backend other) i t v now st = (Inr u, st')"
  proof -
    obtain io where "mutate other io (transition i t v now) (fst st) = (Inr u, fst st')"
      using with_io_call [OF call [unfolded file_backend_ops]] by blast
    from mutate_moved [OF st this preserving_ops(1)]
    obtain s s' where "memory_ok s" "transition i t v now s = (Inr u, s')"
        "file_view other st = memory_view s" "file_view other st' = memory_view s'" "file_ok st'"
      by blast
    then show ?thesis using memory.transition_done [of s i t v now u s'] by (simp add: memory_backend_def)
  qed
  show "file_ok st' \<and> file_view other st' = file_view other st"
    if call: "be_transition (file_backend other) i t v now st = (Inl e, st')"
    using with_io_call [OF call [unfolded file_backend_ops]] mutate_failed [OF st _ preserving_ops(1)]
    by blast
  show "file_ok st' \<and> file_view other st' = file_view other st \<and> (\<forall>r. res = Inr r \<longrightarrow> file_view other st i = Some r)"
    if call: "be_get (file_backend other) i st = (res, st')"
  proof -
    obtain io where "file_get other io i (fst st) = (res, fst st')"
      using with_io_call [OF call [unfolded file_backend_ops]] by blast
    from file_get_view [OF _ this, where ios = "snd st" and ios' = "snd st'"] st
    show ?thesis by (simp add: file_view_def)
  qed
  assume r: "record_ok r"
  show "file_ok st' \<and> file_view other st (ar_admission_id r) = None \<and>
      file_view other st' (ar_admission_id r) = Some u \<and> advance r RESERVED now = Inr u \<and>
      (\<forall>j x. j \<noteq> ar_admission_id r \<and> file_view other st' j = Some x \<and> active x \<longrightarrow> file_view other st j = Some x)"
    if call: "be_reserve (file_backend other) r now st = (Inr u, st')"
  proof -
    obtain io where "mutate other io (reserve r now) (fst st) = (Inr u, fst st')"
      using with_io_call [OF call [unfolded file_backend_ops]] by blast
    from mutate_moved [OF st this preserving_ops(2) [OF r]]
    obtain s s' where "memory_ok s" "reserve r now s = (Inr u, s')"
        "file_view other st = memory_view s" "file_view other st' = memory_view s'" "file_ok st'"
      by blast
    then show ?thesis using memory.reserve_done [OF _ r, of s now u s'] by (simp add: memory_backend_def)
  qed
  show "file_ok st' \<and> (\<forall>j x. file_view other st' j = Some x \<and> active x \<longrightarrow> file_view other st j = Some x)"
    if call: "be_reserve (file_backend other) r now st = (Inl e, st')"
    using with_io_call [OF call [unfolded file_backend_ops]] mutate_failed [OF st _ preserving_ops(2) [OF r]]
    by fastforce
qed

end
