(* ===== verification/Service_Safety.thy ===== *)
theory Service_Safety
  imports Service_Backend
begin

text \<open>
  What the service promises whatever the injected parts do: an operation runs only on an admission
  that the runtime has just revalidated, at most once per attempt and three times in all, and a
  result is returned only for a finalized admission. The runtime is instrumented with a log of the
  calls it receives. The lemmas are proved in the backend contract and hold for both stores.
\<close>

datatype service_event = Revalidated string bool | Executed string

definition on_first :: "('v, 'a) op \<Rightarrow> ('v \<times> 'l, 'a) op" where
  "on_first f w = (case f (fst w) of (res, v) \<Rightarrow> (res, v, snd w))"

definition logged :: "'v SelectionRuntime \<Rightarrow> ('v \<times> service_event list) SelectionRuntime" where
  "logged rt =
     \<lparr>rt_revalidate = (\<lambda>r w. case rt_revalidate rt r (fst w) of
        (res, v) \<Rightarrow> (res, v, snd w @ [Revalidated (ar_admission_id r) (res = Inr True)])),
      rt_revalidate_before_begin_execution =
        map_option (\<lambda>f r. on_first (f r)) (rt_revalidate_before_begin_execution rt),
      rt_execute = (\<lambda>r operation w. case rt_execute rt r operation (fst w) of
        (res, v) \<Rightarrow> (res, v, snd w @ [Executed (ar_admission_id r)])),
      rt_execution_completed = (\<lambda>r. on_first (rt_execution_completed rt r))\<rparr>"

definition logged_service ::
  "'s backend \<Rightarrow> 'v SelectionRuntime \<Rightarrow> ('v \<Rightarrow> py_datetime \<times> 'v) \<Rightarrow> (rat \<Rightarrow> 'v \<Rightarrow> 'v) \<Rightarrow>
   ('s, 'v \<times> service_event list) SelectionService" where
  "logged_service be rt clock sleep =
     \<lparr>ss_store = be, ss_runtime = Some (logged rt),
      ss_now = (\<lambda>w. case clock (fst w) of (now, v) \<Rightarrow> (now, v, snd w)),
      ss_sleep = (\<lambda>delay w. (sleep delay (fst w), snd w)),
      ss_backoff = RETRY_BACKOFF_SECONDS\<rparr>"

definition start :: "'s \<Rightarrow> 'v \<Rightarrow> ('s, 'v \<times> service_event list) service_state" where
  "start s v = \<lparr>sv_store = s, sv_world = (v, []), sv_current = None\<rparr>"

abbreviation log_of :: "('s, 'v \<times> service_event list) service_state \<Rightarrow> service_event list" where
  "log_of st \<equiv> snd (sv_world st)"

text \<open>Every execution is of an admission whose revalidation was the event just before it.\<close>

fun guarded :: "service_event list \<Rightarrow> bool" where
  "guarded [] = True"
| "guarded [e] = (case e of Revalidated i b \<Rightarrow> True | Executed i \<Rightarrow> False)"
| "guarded (e # f # es) =
     (case e of
        Executed i \<Rightarrow> False
      | Revalidated i b \<Rightarrow>
          (case f of Executed j \<Rightarrow> b \<and> j = i \<and> guarded es | Revalidated j c \<Rightarrow> guarded (f # es)))"

definition executions :: "service_event list \<Rightarrow> nat" where
  "executions es = length (filter (\<lambda>e. case e of Executed i \<Rightarrow> True | Revalidated i b \<Rightarrow> False) es)"

text \<open>The log of one attempt.\<close>

inductive attempt_log :: "service_event list \<Rightarrow> bool \<Rightarrow> bool" where
  attempt_nothing: "attempt_log [] False"
| attempt_revalidated: "attempt_log [Revalidated i b] False"
| attempt_executed: "attempt_log [Revalidated i True, Executed i] done"

lemma guarded_append: "guarded xs \<Longrightarrow> attempt_log ys b \<Longrightarrow> guarded (xs @ ys)"
proof (induction xs rule: guarded.induct)
  case 1
  then show ?case by (auto elim: attempt_log.cases)
next
  case (2 e)
  then show ?case by (auto elim!: attempt_log.cases split: service_event.splits)
next
  case (3 e f es)
  then show ?case by (auto split: service_event.splits)
qed

lemma executions_append [simp]: "executions (xs @ ys) = executions xs + executions ys"
  by (simp add: executions_def)

lemma attempt_log_once: "attempt_log ys b \<Longrightarrow> executions ys \<le> 1"
  by (auto simp: executions_def elim: attempt_log.cases)

text \<open>Every record a plan factory returns has been constructed, so its parts are valid.\<close>

definition plans_valid :: "('v, AdmissionRecord) op \<Rightarrow> bool" where
  "plans_valid plan = (\<forall>v r v'. plan v = (Inr r, v') \<longrightarrow> record_ok r)"

subsection \<open>Steps that do not call the runtime\<close>

lemma named_pointfree:
  "begin_revalidation tr = (\<lambda>i v. tr i REVALIDATING v)"
  "complete_revalidation tr i v b = tr i (if b then ADMITTED else DENIED) v"
  "begin_execution tr = (\<lambda>i v. tr i EXECUTING v)"
  "mark_execution_failed tr = (\<lambda>i v. tr i EXECUTION_FAILED v)"
  "begin_compensation tr = (\<lambda>i v. tr i COMPENSATING v)"
  "compensate tr = (\<lambda>i v. tr i COMPENSATED v)"
  "finish_compensation tr = (\<lambda>i v. tr i FAILED_FINAL v)"
  "cancel tr = (\<lambda>i v. tr i CANCELLED v)"
  "recover_after_crash tr = (\<lambda>i v. tr i RECOVERED_AFTER_CRASH v)"
  by (simp_all add: fun_eq_iff begin_revalidation_def complete_revalidation_def begin_execution_def
      mark_execution_failed_def begin_compensation_def compensate_def finish_compensation_def
      cancel_def recover_after_crash_def)

context admission_backend
begin

text \<open>Operations that keep the contract's invariant and are not logged.\<close>

definition calm :: "(('s, 'v \<times> service_event list) service_state, 'a) op \<Rightarrow> bool" where
  "calm m =
     (\<forall>st res st'. ok (sv_store st) \<longrightarrow> m st = (res, st') \<longrightarrow>
        ok (sv_store st') \<and> log_of st' = log_of st)"

lemma calm_bind: "calm m \<Longrightarrow> (\<And>x. calm (f x)) \<Longrightarrow> calm (op_bind m f)"
  unfolding calm_def op_bind_cases by metis

lemma calm_lift: "calm (op_lift r)"
  by (simp add: calm_def)

lemma calm_assign: "calm (assign r)"
  by (simp add: calm_def assign_def)

lemma calm_timed:
  assumes "\<And>now s res s'. ok s \<Longrightarrow> f now s = (res, s') \<Longrightarrow> ok s'"
  shows "calm (timed (logged_service be rt clock sleep) f)"
  using assms by (auto simp: calm_def timed_def in_store_def logged_service_def split: prod.splits)

lemma transition_ok: "ok s \<Longrightarrow> be_transition be i t v now s = (res, s') \<Longrightarrow> ok s'"
  using transition_done transition_failed by (cases res) blast+

lemma finalize_ok: "ok s \<Longrightarrow> finalize (be_get be) (be_transition be) i v now s = (res, s') \<Longrightarrow> ok s'"
  using finalize_done finalize_failed by (cases res) blast+

lemma calm_transition:
  "calm (timed (logged_service be rt clock sleep) (be_transition be i t v))"
  by (rule calm_timed) (rule transition_ok)

lemma calm_named:
  "calm (timed (logged_service be rt clock sleep) (cancel (be_transition be) i v))"
  "calm (timed (logged_service be rt clock sleep) (compensate (be_transition be) i v))"
  "calm (timed (logged_service be rt clock sleep) (mark_execution_failed (be_transition be) i v))"
  "calm (timed (logged_service be rt clock sleep) (begin_compensation (be_transition be) i v))"
  "calm (timed (logged_service be rt clock sleep) (finish_compensation (be_transition be) i v))"
  unfolding named_pointfree by (rule calm_transition)+

lemma calm_compensate_steps:
  "calm (compensate_cancel (logged_service be rt clock sleep) r)"
  "calm (compensate_settle (logged_service be rt clock sleep) r)"
  "calm (compensate_finish (logged_service be rt clock sleep) r)"
  unfolding compensate_cancel_def compensate_settle_def compensate_finish_def Let_def
  by (auto intro!: calm_bind calm_lift simp: logged_service_def calm_named [unfolded logged_service_def])

lemma calm_compensate: "calm (compensate_record (logged_service be rt clock sleep) c)"
proof (cases c)
  case None
  then show ?thesis by (simp add: calm_def compensate_record_def)
next
  case (Some r)
  have "calm (op_bind (compensate_cancel (logged_service be rt clock sleep) r) (\<lambda>r.
      op_bind (compensate_settle (logged_service be rt clock sleep) r)
        (compensate_finish (logged_service be rt clock sleep))))"
    by (intro calm_bind calm_compensate_steps)
  then show ?thesis
    using Some by (fastforce simp: calm_def compensate_record_def swallow_admission_error_def
        split: prod.splits sum.splits exn.splits)
qed

subsection \<open>The stages of an attempt\<close>

lemma calm_move_Inr:
  assumes "ok (sv_store st)"
    and "move (logged_service be rt clock sleep) (\<lambda>i. be_transition be i t) c st = (Inr u, st')"
  shows "ok (sv_store st') \<and> log_of st' = log_of st \<and> ar_admission_id u = ar_admission_id c"
  using assms transition_ok transition_keeps_id
  by (fastforce simp: move_def op_bind_cases timed_def in_store_def assign_def logged_service_def
      split: prod.splits)

lemma calm_move: "calm (move (logged_service be rt clock sleep) (\<lambda>i. be_transition be i t) c)"
  unfolding move_def by (intro calm_bind calm_assign) (rule calm_transition)

lemma calmD: "calm m \<Longrightarrow> ok (sv_store st) \<Longrightarrow> m st = (res, st') \<Longrightarrow> ok (sv_store st') \<and> log_of st' = log_of st"
  unfolding calm_def by blast

lemma logged_store [simp]: "ss_store (logged_service be rt clock sleep) = be"
  by (simp add: logged_service_def)

lemma revalidation_log:
  assumes "ok (sv_store st)"
    and "revalidation_stage (logged_service be rt clock sleep) (logged rt) c st = (res, st')"
  shows "ok (sv_store st') \<and>
    (\<exists>b. log_of st' = log_of st @ [Revalidated (ar_admission_id c) b] \<and>
       (\<forall>u. res = Inr u \<longrightarrow> b \<and> ar_admission_id u = ar_admission_id c))"
proof -
  let ?svc = "logged_service be rt clock sleep"
  obtain out v where call: "rt_revalidate rt c (fst (sv_world st)) = (out, v)"
    by (cases "rt_revalidate rt c (fst (sv_world st))")
  define st1 where "st1 = st\<lparr>sv_world := (v, log_of st @ [Revalidated (ar_admission_id c) (out = Inr True)])\<rparr>"
  have in_w: "in_world (rt_revalidate (logged rt) c) st = (out, st1)"
    using call by (simp add: in_world_def logged_def st1_def)
  have ok1: "ok (sv_store st1)" using assms(1) by (simp add: st1_def)
  have log1: "log_of st1 = log_of st @ [Revalidated (ar_admission_id c) (out = Inr True)]"
    by (simp add: st1_def)
  consider (raised) e where "out = Inl e" | (denied) "out = Inr False" | (valid) "out = Inr True"
    by (cases out) auto
  then show ?thesis
  proof cases
    case raised
    then show ?thesis using assms(2) in_w ok1 log1
      by (auto simp: revalidation_stage_def Let_def op_bind_def)
  next
    case denied
    have "calm (op_bind (move ?svc (\<lambda>i v. complete_revalidation (be_transition be) i v False) c) (\<lambda>x.
        op_bind (move ?svc (compensate (be_transition be)) x) (\<lambda>_.
          op_lift (Inl (SelectionDeniedError ''admission revalidation denied'')))))"
      unfolding named_pointfree if_False by (intro calm_bind calm_move calm_lift)
    moreover have "op_bind (move ?svc (\<lambda>i v. complete_revalidation (be_transition be) i v False) c) (\<lambda>x.
        op_bind (move ?svc (compensate (be_transition be)) x) (\<lambda>_.
          op_lift (Inl (SelectionDeniedError ''admission revalidation denied'')))) st1 = (res, st')"
      using assms(2) in_w denied by (simp add: revalidation_stage_def Let_def op_bind_def)
    ultimately have "ok (sv_store st') \<and> log_of st' = log_of st1" using calmD ok1 by blast
    moreover have "\<nexists>u. res = Inr u"
      using assms(2) in_w denied by (auto simp: revalidation_stage_def Let_def op_bind_cases)
    ultimately show ?thesis using log1 by auto
  next
    case valid
    then have mv: "move ?svc (\<lambda>i. be_transition be i ADMITTED) c st1 = (res, st')"
      using assms(2) in_w by (simp add: revalidation_stage_def Let_def op_bind_def named_pointfree)
    then have "\<forall>u. res = Inr u \<longrightarrow> ar_admission_id u = ar_admission_id c"
      using calm_move_Inr [OF ok1] by blast
    with calmD [OF calm_move ok1 mv] log1 valid show ?thesis by auto
  qed
qed

lemma calm_world_first: "calm (in_world (on_first f))"
  by (auto simp: calm_def in_world_def on_first_def split: prod.splits)

lemma calm_pool: "calm (pool_stage (logged_service be rt clock sleep) (logged rt) c)"
proof -
  have "calm (case rt_revalidate_before_begin_execution (logged rt) of None \<Rightarrow> op_lift (Inr False)
      | Some f \<Rightarrow> in_world (f c))"
    by (cases "rt_revalidate_before_begin_execution rt")
      (auto simp: logged_def intro: calm_lift calm_world_first)
  then show ?thesis
    unfolding pool_stage_def Let_def logged_store named_pointfree
    by (auto intro!: calm_bind calm_lift calm_move calm_transition)
qed

lemma pool_result:
  "pool_stage svc rt c st = (Inr u, st') \<Longrightarrow> u = c"
  by (auto simp: pool_stage_def Let_def op_bind_cases split: if_splits)

lemma execution_log:
  assumes "ok (sv_store st)"
    and "execution_stage (logged_service be rt clock sleep) (logged rt) operation k c st = (res, st')"
  shows "ok (sv_store st') \<and>
    (log_of st' = log_of st \<and> \<not> is_ok res \<or> log_of st' = log_of st @ [Executed (ar_admission_id c)]) \<and>
    (\<forall>resp. res = Inr resp \<longrightarrow> er_attempt resp = k + 1 \<and>
      (\<exists>u. view (sv_store st') (ar_admission_id c) = Some u \<and> ar_state u = FINALIZED \<and>
           er_admission resp = public u))"
proof -
  let ?svc = "logged_service be rt clock sleep"
  obtain res1 st1 where mv: "move ?svc (\<lambda>i. be_transition be i EXECUTING) c st = (res1, st1)"
    by (cases "move ?svc (\<lambda>i. be_transition be i EXECUTING) c st")
  have st1: "ok (sv_store st1)" "log_of st1 = log_of st" using calmD [OF calm_move assms(1) mv] by auto
  show ?thesis
  proof (cases res1)
    case (Inl e)
    then show ?thesis
      using assms(2) mv st1 by (auto simp: execution_stage_def Let_def named_pointfree op_bind_def)
  next
    case (Inr r)
    have id: "ar_admission_id r = ar_admission_id c"
      using calm_move_Inr [OF assms(1)] mv Inr by blast
    obtain out v where call: "rt_execute rt r operation (fst (sv_world st1)) = (out, v)"
      by (cases "rt_execute rt r operation (fst (sv_world st1))")
    define st2 where "st2 = st1\<lparr>sv_world := (v, log_of st @ [Executed (ar_admission_id c)])\<rparr>"
    have st2: "ok (sv_store st2)" "log_of st2 = log_of st @ [Executed (ar_admission_id c)]"
      using st1 by (simp_all add: st2_def)
    have "in_world (rt_execute (logged rt) r operation) st1 = (out, st2)"
      using call id st1 by (simp add: in_world_def logged_def st2_def)
    then have rest: "(case out of Inl e \<Rightarrow> (Inl e, st2) | Inr result \<Rightarrow>
        (case result of PDict d \<Rightarrow> op_bind (move ?svc (finalize (be_get be) (be_transition be)) r) (\<lambda>current.
             op_lift (Inr \<lparr>er_result = d, er_admission = public current, er_attempt = k + 1,
               er_raw_output = ''not_returned''\<rparr>)) st2
         | _ \<Rightarrow> (Inl (SelectionServiceError ''runtime result must be a mapping''), st2))) = (res, st')"
      using assms(2) mv Inr
      by (simp add: execution_stage_def Let_def named_pointfree op_bind_def
          split: sum.splits pyval.splits prod.splits)
    show ?thesis
    proof (cases "\<exists>d. out = Inr (PDict d)")
      case False
      then show ?thesis using rest st2 by (auto split: sum.splits pyval.splits)
    next
      case True
      then obtain d where fin: "op_bind (move ?svc (finalize (be_get be) (be_transition be)) r) (\<lambda>current.
             op_lift (Inr \<lparr>er_result = d, er_admission = public current, er_attempt = k + 1,
               er_raw_output = ''not_returned''\<rparr>)) st2 = (res, st')"
        using rest by auto
      obtain now v' res3 s3 where clock: "ss_now ?svc (sv_world st2) = (now, v')" "snd v' = snd (sv_world st2)"
          and call: "finalize (be_get be) (be_transition be) (ar_admission_id c) (ar_revision r) now (sv_store st2) = (res3, s3)"
        by (cases "clock (fst (sv_world st2))";
            cases "finalize (be_get be) (be_transition be) (ar_admission_id c) (ar_revision r)
              (fst (clock (fst (sv_world st2)))) (sv_store st2)")
          (simp add: logged_service_def)
      show ?thesis
      proof (cases res3)
        case (Inl e)
        with fin clock call id st2 finalize_failed [OF st2(1)] show ?thesis
          by (auto simp: move_def timed_def in_store_def op_bind_def)
      next
        case (Inr u)
        with finalize_done [OF st2(1)] call
        have "ok s3" "ar_state u = FINALIZED" "view s3 (ar_admission_id c) = Some u" by auto
        with fin clock call id st2 Inr show ?thesis
          by (auto simp: move_def timed_def in_store_def op_bind_def assign_def)
      qed
    qed
  qed
qed

subsection \<open>Attempts\<close>

lemma plan_step:
  assumes "in_world (plan_admission (on_first plan)) st = (res, st')"
  shows "sv_store st' = sv_store st \<and> log_of st' = log_of st \<and>
    (\<forall>r. res = Inr r \<longrightarrow> (\<exists>v v'. plan v = (Inr r, v')))"
  using assms
  by (auto simp: in_world_def plan_admission_def op_bind_def on_first_def
      split: prod.splits sum.splits if_splits)

lemma reserve_step:
  assumes "ok (sv_store st)" and "record_ok r"
    and "op_bind (timed (logged_service be rt clock sleep) (be_reserve be r)) assign st = (res, st')"
  shows "ok (sv_store st') \<and> log_of st' = log_of st"
proof -
  have "calm (timed (logged_service be rt clock sleep) (be_reserve be r))"
    by (rule calm_timed) (metis old.sum.exhaust reserve_done reserve_failed assms(2))
  then show ?thesis using calmD [OF calm_bind, OF _ calm_assign assms(1,3)] by blast
qed

lemma attempt_logs:
  assumes "ok (sv_store st)" and "plans_valid plan"
    and "attempt_body (logged_service be rt clock sleep) (logged rt) (on_first plan) operation k st = (res, st')"
  shows "ok (sv_store st') \<and>
    (\<exists>es. log_of st' = log_of st @ es \<and> attempt_log es (is_ok res)) \<and>
    (\<forall>resp. res = Inr resp \<longrightarrow> er_attempt resp = k + 1 \<and>
      (\<exists>i u. last (log_of st') = Executed i \<and> view (sv_store st') i = Some u \<and>
         ar_state u = FINALIZED \<and> er_admission resp = public u))"
proof -
  let ?svc = "logged_service be rt clock sleep"
  let ?quiet = "\<lambda>st'. ok (sv_store st') \<and> log_of st' = log_of st"
  consider (early) e where "res = Inl e" "?quiet st'"
    | (reval) c st1 where "?quiet st1"
        "op_bind (revalidation_stage ?svc (logged rt) c) (\<lambda>c. op_bind (pool_stage ?svc (logged rt) c)
           (execution_stage ?svc (logged rt) operation k)) st1 = (res, st')"
  proof -
    have "?quiet st1" if "in_world (plan_admission (on_first plan)) st = (x, st1)" for x st1
      using plan_step [OF that] assms(1) by simp
    moreover have "?quiet st2"
      if "in_world (plan_admission (on_first plan)) st = (Inr p, st1)"
        "op_bind (timed ?svc (be_reserve be p)) assign st1 = (y, st2)" for p st1 y st2
    proof -
      have "record_ok p" using plan_step [OF that(1)] assms(2) by (auto simp: plans_valid_def)
      with plan_step [OF that(1)] reserve_step [OF _ _ that(2)] assms(1) show ?thesis by simp
    qed
    moreover have "?quiet st3" if "?quiet st2" "move ?svc (\<lambda>i. be_transition be i REVALIDATING) c st2 = (z, st3)"
      for c st2 z st3 using calmD [OF calm_move _ that(2)] that(1) by simp
    ultimately show ?thesis
      using assms(3) early reval
      unfolding attempt_body_def logged_store named_pointfree op_bind_cases [of "in_world _"]
        op_bind_cases [of "op_bind (timed _ _) assign"] op_bind_cases [of "move _ _ _"]
      by blast
  qed
  then show ?thesis
  proof cases
    case early
    then show ?thesis by (auto intro: attempt_nothing)
  next
    case reval
    then obtain res2 st2 where rv: "revalidation_stage ?svc (logged rt) c st1 = (res2, st2)"
      by (cases "revalidation_stage ?svc (logged rt) c st1")
    from revalidation_log [OF _ this] reval(1)
    obtain b where st2: "ok (sv_store st2)" "log_of st2 = log_of st @ [Revalidated (ar_admission_id c) b]"
        "\<And>u. res2 = Inr u \<Longrightarrow> b \<and> ar_admission_id u = ar_admission_id c" by auto
    show ?thesis
    proof (cases "\<exists>u st3. res2 = Inr u \<and> pool_stage ?svc (logged rt) u st2 = (Inr u, st3)")
      case False
      then have "\<exists>e. res = Inl e \<and> ok (sv_store st') \<and> log_of st' = log_of st2"
        using reval(2) rv st2(1) calmD [OF calm_pool st2(1)] pool_result
        unfolding op_bind_cases by (metis prod.inject)
      then show ?thesis using st2(2) by (auto intro: attempt_revalidated)
    next
      case True
      then obtain u st3 where u: "res2 = Inr u" "pool_stage ?svc (logged rt) u st2 = (Inr u, st3)" by blast
      have st3: "ok (sv_store st3)" "log_of st3 = log_of st2" using calmD [OF calm_pool st2(1) u(2)] by auto
      have ex: "execution_stage ?svc (logged rt) operation k u st3 = (res, st')"
        using reval(2) rv u by (simp add: op_bind_def)
      have b: "b" "ar_admission_id u = ar_admission_id c" using st2(3) [OF u(1)] by auto
      from execution_log [OF st3(1) ex] show ?thesis
        using st2(2) st3(2) b by (auto intro: attempt_revalidated attempt_executed)
    qed
  qed
qed

lemma handle_calm:
  assumes "ok (sv_store st)" and "handle (logged_service be rt clock sleep) e st = (res, st')"
  shows "ok (sv_store st') \<and> log_of st' = log_of st"
proof -
  have comp: "ok (sv_store st') \<and> log_of st' = log_of st"
    if "compensate_record (logged_service be rt clock sleep) c st = (r, st')" for c r
    using calmD [OF calm_compensate assms(1) that] .
  have "calm (op_bind (compensate_record (logged_service be rt clock sleep) c) (\<lambda>_. op_lift (Inl x :: unit result)))"
    for c x by (intro calm_bind calm_compensate calm_lift)
  note raise = calmD [OF this assms(1)]
  show ?thesis
    using assms comp raise by (cases e) (auto simp: handle_def split: if_splits)
qed

lemma attempts_logs:
  assumes "ok (sv_store st)" and "plans_valid plan" and "guarded (log_of st)"
    and "attempts (logged_service be rt clock sleep) (logged rt) (on_first plan) operation ks st = (res, st')"
  shows "ok (sv_store st') \<and> guarded (log_of st') \<and>
    executions (log_of st') \<le> executions (log_of st) + length ks \<and>
    (\<forall>resp. res = Inr resp \<longrightarrow> er_attempt resp \<in> Suc ` set ks \<and>
      (\<exists>i u. last (log_of st') = Executed i \<and> view (sv_store st') i = Some u \<and>
         ar_state u = FINALIZED \<and> er_admission resp = public u))"
  using assms
proof (induction ks arbitrary: st)
  case Nil
  then show ?case by auto
next
  case (Cons k ks)
  let ?svc = "logged_service be rt clock sleep"
  let ?st = "st\<lparr>sv_current := None\<rparr>"
  obtain res1 st1 where body: "attempt_body ?svc (logged rt) (on_first plan) operation k ?st = (res1, st1)"
    by (cases "attempt_body ?svc (logged rt) (on_first plan) operation k ?st")
  have okst: "ok (sv_store ?st)" using Cons.prems(1) by simp
  note a = attempt_logs [OF okst Cons.prems(2) body]
  then obtain es where es: "log_of st1 = log_of st @ es" "attempt_log es (is_ok res1)" by auto
  have st1: "ok (sv_store st1)" "guarded (log_of st1)" "executions (log_of st1) \<le> executions (log_of st) + 1"
    using a es Cons.prems(3) guarded_append [OF _ es(2)] attempt_log_once [OF es(2)] by auto
  show ?case
  proof (cases res1)
    case (Inr resp)
    then have "res = Inr resp" "st' = st1" using Cons.prems(4) body by auto
    then show ?thesis using a st1 Inr by auto
  next
    case (Inl e)
    obtain res2 st2 where h: "handle ?svc e st1 = (res2, st2)" by (cases "handle ?svc e st1")
    have st2: "ok (sv_store st2)" "log_of st2 = log_of st1" using handle_calm [OF st1(1) h] by auto
    show ?thesis
    proof (cases res2)
      case (Inl e')
      then show ?thesis using Cons.prems(4) body \<open>res1 = Inl e\<close> h st1 st2 by auto
    next
      case (Inr x)
      let ?st3 = "pause ?svc k st2"
      have st3: "ok (sv_store ?st3)" "log_of ?st3 = log_of st2"
        using st2 by (auto simp: pause_def logged_service_def)
      have "attempts ?svc (logged rt) (on_first plan) operation ks ?st3 = (res, st')"
        using Cons.prems(4) body \<open>res1 = Inl e\<close> h Inr by simp
      from Cons.IH [OF st3(1) Cons.prems(2) _ this] show ?thesis using st1 st2 st3 by auto
    qed
  qed
qed

lemma executes_guarded:
  assumes "ok s" and "plans_valid plan"
    and "execute_with_retry (logged_service be rt clock sleep) (on_first plan) operation (start s v) = (res, st)"
  shows "guarded (log_of st) \<and> executions (log_of st) \<le> 3 \<and>
    (\<forall>resp. res = Inr resp \<longrightarrow> er_attempt resp \<le> 3 \<and>
      (\<exists>i u. last (log_of st) = Executed i \<and> view (sv_store st) i = Some u \<and>
         ar_state u = FINALIZED \<and> er_admission resp = public u))"
proof (cases "1 \<le> length operation \<and> length operation \<le> MAX_OPERATION_LENGTH")
  case False
  then show ?thesis using assms(3) by (auto simp: execute_with_retry_def start_def executions_def)
next
  case True
  then have "attempts (logged_service be rt clock sleep) (logged rt) (on_first plan) operation
      [0..<MAX_EXECUTION_ATTEMPTS] (start s v) = (res, st)"
    using assms(3) by (simp add: execute_with_retry_def logged_service_def)
  from attempts_logs [OF _ assms(2) _ this] assms(1) show ?thesis
    by (auto simp: start_def executions_def MAX_EXECUTION_ATTEMPTS_def)
qed

end

text \<open>
  C2. Execution is guarded, on the in-process store. For every runtime, clock, sleeper and plan
  factory and every outcome: in the log of the runtime calls each execution comes directly after a
  revalidation of the same admission that answered True, there are at most three executions, and if
  a response is returned, the last call was the execution of an admission that the store now holds
  as finalized and whose public view is in the response.
\<close>

theorem executes_only_revalidated:
  assumes "store_inv s" and "all_ok s" and "plans_valid plan"
    and "execute_with_retry (logged_service memory_backend rt clock sleep) (on_first plan) operation
           (start s v) = (res, st)"
  shows "guarded (log_of st) \<and> executions (log_of st) \<le> 3 \<and>
    (\<forall>resp. res = Inr resp \<longrightarrow> er_attempt resp \<le> 3 \<and>
      (\<exists>i u. last (log_of st) = Executed i \<and> map_of (st_records (sv_store st)) i = Some u \<and>
         ar_state u = FINALIZED \<and> er_admission resp = public u))"
  using memory.executes_guarded [OF _ assms(3,4)] assms(1,2)
  by (simp add: memory_ok_def memory_view_def)

text \<open>
  Execution is guarded in the same way on the file store, for every sequence of lock, read and
  write failures during the run.
\<close>

theorem executes_only_revalidated_file:
  assumes "file_ok fs" and "plans_valid plan"
    and "execute_with_retry (logged_service (file_backend other) rt clock sleep) (on_first plan) operation
           (start fs v) = (res, st)"
  shows "guarded (log_of st) \<and> executions (log_of st) \<le> 3 \<and>
    (\<forall>resp. res = Inr resp \<longrightarrow> er_attempt resp \<le> 3 \<and>
      (\<exists>i u. last (log_of st) = Executed i \<and>
         map_of (file_contents other (fs_file (fst (sv_store st)))) i = Some u \<and>
         ar_state u = FINALIZED \<and> er_admission resp = public u))"
  using disk.executes_guarded [OF assms] by (simp add: file_view_def)

subsection \<open>A concrete runtime\<close>

definition steady_runtime :: "unit SelectionRuntime" where
  "steady_runtime = \<lparr>rt_revalidate = (\<lambda>r w. (Inr True, w)),
     rt_revalidate_before_begin_execution = None,
     rt_execute = (\<lambda>r operation w. (Inr (PDict [(''ok'', PBool True)]), w)),
     rt_execution_completed = (\<lambda>r w. (Inr True, w))\<rparr>"

definition steady_clock :: "unit \<Rightarrow> py_datetime \<times> unit" where
  "steady_clock w = (sample_now, w)"

definition steady_sleep :: "rat \<Rightarrow> unit \<Rightarrow> unit" where
  "steady_sleep delay w = w"

definition sample_plan :: "(unit, AdmissionRecord) op" where
  "sample_plan w = (Inr sample_record, w)"

lemma sample_plans_valid: "plans_valid sample_plan"
  by (auto simp: plans_valid_def sample_plan_def sample_record_ok)

lemma sample_store_ok: "store_inv sample_store" "all_ok sample_store"
  using store_inv_init [OF sample_init] by (simp_all add: all_ok_def sample_store_def)

theorem executes_only_revalidated_witness:
  "guarded (log_of (snd (execute_with_retry
      (logged_service memory_backend steady_runtime steady_clock steady_sleep)
      (on_first sample_plan) ''run'' (start sample_store ())))) \<and>
   executions (log_of (snd (execute_with_retry
      (logged_service memory_backend steady_runtime steady_clock steady_sleep)
      (on_first sample_plan) ''run'' (start sample_store ())))) \<le> 3"
  using executes_only_revalidated [OF sample_store_ok sample_plans_valid prod.collapse [symmetric]]
  by blast

definition empty_file_store :: "FileAdmissionStore \<times> file_io list" where
  "empty_file_store = (\<lparr>fs_store = sample_store, fs_file = No_File\<rparr>, [])"

lemma empty_file_ok: "file_ok empty_file_store"
proof -
  have "represents (fs_file (fst empty_file_store)) []"
    by (simp add: represents_def records_ok_def empty_file_store_def)
  moreover have "store_inv ((fs_store (fst empty_file_store))\<lparr>st_records := []\<rparr>)"
    using sample_store_ok(1) by (simp add: empty_file_store_def sample_store_def)
  ultimately show ?thesis unfolding file_ok_def by blast
qed

theorem executes_only_revalidated_file_witness:
  "guarded (log_of (snd (execute_with_retry
      (logged_service (file_backend (\<lambda>_. None)) steady_runtime steady_clock steady_sleep)
      (on_first sample_plan) ''run'' (start empty_file_store ()))))"
  using executes_only_revalidated_file [OF empty_file_ok sample_plans_valid prod.collapse [symmetric]]
  by blast

end
