(* ===== verification/Service_Cleanup.thy ===== *)
theory Service_Cleanup
  imports Service_Safety
begin

text \<open>
  Clean-up by the service on a store whose transitions cannot fail for outside reasons: what
  \<open>_compensate\<close> reaches, that a run leaves no new active admission behind, and what
  reconciliation after a crash settles.
\<close>

locale reliable_backend = admission_backend be view ok
  for be :: "'s backend" and view and ok +
  assumes view_wf: "ok s \<Longrightarrow> view s i = Some r \<Longrightarrow> record_wf r"
    and transition_succeeds: "ok s \<Longrightarrow> view s i = Some r \<Longrightarrow> advance r t now = Inr u \<Longrightarrow>
      \<exists>s'. be_transition be i t (ar_revision r) now s = (Inr u, s')"
    and get_succeeds: "ok s \<Longrightarrow> view s i = Some r \<Longrightarrow> \<exists>s'. be_get be i s = (Inr r, s')"

interpretation memory: reliable_backend memory_backend memory_view memory_ok
proof
  fix s :: AdmissionStore and i t now u r
  assume s: "memory_ok s" and r: "memory_view s i = Some r"
  have wf: "store_wf s" using s by (simp add: memory_ok_def store_inv_def)
  have look: "map_of (st_records s) i = Some r" using r by (simp add: memory_view_def)
  show "record_wf r" using store_wf_lookup [OF wf look] by simp
  then have rev: "0 \<le> ar_revision r" "ar_revision r \<le> 10 ^ 12" by (simp_all add: record_wf_def)
  show "\<exists>s'. be_transition memory_backend i t (ar_revision r) now s = (Inr u, s')" if "advance r t now = Inr u"
    using that look rev by (auto simp: memory_backend_def transition_Inr)
  show "\<exists>s'. be_get memory_backend i s = (Inr r, s')"
    using look by (simp add: memory_backend_def get_def)
qed

text \<open>The copy of a record that a transition stores.\<close>

definition moved_to :: "AdmissionState \<Rightarrow> AdmissionRecord \<Rightarrow> AdmissionRecord" where
  "moved_to t r = r\<lparr>ar_state := t, ar_revision := ar_revision r + 1\<rparr>"

lemma moved_to_view [simp]:
  "ar_state (moved_to t r) = t" "ar_revision (moved_to t r) = ar_revision r + 1"
  "ar_admission_id (moved_to t r) = ar_admission_id r"
  "ar_expires_at_utc (moved_to t r) = ar_expires_at_utc r" "ar_resource (moved_to t r) = ar_resource r"
  by (simp_all add: moved_to_def)

text \<open>The clock of the service always reads a time before the deadline of the record.\<close>

definition timely :: "('s, 'w) SelectionService \<Rightarrow> AdmissionRecord \<Rightarrow> bool" where
  "timely svc r =
     (\<forall>w. aware (fst (ss_now svc w)) \<and> instant (fst (ss_now svc w)) < instant (ar_expires_at_utc r))"

lemma timely_moved [simp]: "timely svc (moved_to t r) = timely svc r"
  by (simp add: timely_def)

lemma advance_timely:
  assumes "record_wf r" and "timely svc r" and "edge (ar_state r) t" and "ar_revision r < 10 ^ 12"
  shows "advance r t (fst (ss_now svc w)) = Inr (moved_to t r)"
proof -
  have "aware (fst (ss_now svc w))" "\<not> instant (ar_expires_at_utc r) \<le> instant (fst (ss_now svc w))"
    using assms(2) by (simp_all add: timely_def not_le)
  then show ?thesis
    using assms record_wf_advanced [of r t] by (simp add: advance_Inr edge_def moved_to_def)
qed

text \<open>Past the admission itself the deadline no longer matters.\<close>

lemma advance_running:
  assumes "record_wf r" and "edge (ar_state r) t" and "ar_state r \<notin> set EXPIRABLE_STATES"
    and "ar_revision r < 10 ^ 12" and "aware now"
  shows "advance r t now = Inr (moved_to t r)"
  using assms record_wf_advanced [of r t] by (simp add: advance_Inr edge_def moved_to_def)

text \<open>
  Plans are fresh records with their deadline ahead of every reading of the clock, and the runtime
  leaves \<open>SelectionDeniedError\<close> to the service: an attempt that the runtime itself denies with
  that exception is not compensated.
\<close>

definition timely_plans :: "('s, 'w) SelectionService \<Rightarrow> ('w, AdmissionRecord) op \<Rightarrow> bool" where
  "timely_plans svc plan =
     (\<forall>w p w'. plan w = (Inr p, w') \<longrightarrow> record_ok p \<and> ar_revision p = 0 \<and> timely svc p)"

definition never_denies :: "('w, 'a) op \<Rightarrow> bool" where
  "never_denies f = (\<forall>w m w'. f w \<noteq> (Inl (SelectionDeniedError m), w'))"

definition leaves_denial :: "'w SelectionRuntime \<Rightarrow> bool" where
  "leaves_denial rt =
     ((\<forall>r. never_denies (rt_revalidate rt r)) \<and> (\<forall>r operation. never_denies (rt_execute rt r operation)) \<and>
      (\<forall>f r. rt_revalidate_before_begin_execution rt = Some f \<longrightarrow> never_denies (f r)))"

context reliable_backend
begin

text \<open>\<open>sees st i r\<close>: the store holds \<open>r\<close> under \<open>i\<close>; the rest of the view is named separately.\<close>

definition sees :: "('s, 'w) service_state \<Rightarrow> AdmissionRecord \<Rightarrow> bool" where
  "sees st r = (ok (sv_store st) \<and> view (sv_store st) (ar_admission_id r) = Some r)"

text \<open>One transition of a record that the store holds; then one before its deadline.\<close>

lemma timed_advance:
  assumes "sees st r" and "advance r t (fst (ss_now svc (sv_world st))) = Inr (moved_to t r)"
  obtains st' where
    "timed svc (be_transition be (ar_admission_id r) t (ar_revision r)) st = (Inr (moved_to t r), st')"
    "sees st' (moved_to t r)" "sv_current st' = sv_current st"
    "view (sv_store st') = (view (sv_store st))(ar_admission_id r \<mapsto> moved_to t r)"
proof -
  obtain now w where clock: "ss_now svc (sv_world st) = (now, w)" by (cases "ss_now svc (sv_world st)")
  have r: "ok (sv_store st)" "view (sv_store st) (ar_admission_id r) = Some r"
    using assms(1) by (auto simp: sees_def)
  have "advance r t now = Inr (moved_to t r)" using assms(2) clock by simp
  from transition_succeeds [OF r this]
  obtain s' where tr: "be_transition be (ar_admission_id r) t (ar_revision r) now (sv_store st) = (Inr (moved_to t r), s')"
    by blast
  let ?st = "st\<lparr>sv_world := w, sv_store := s'\<rparr>"
  have "ok s'" "view s' = (view (sv_store st))(ar_admission_id r \<mapsto> moved_to t r)"
    using transition_done [OF r(1) tr] by auto
  moreover have "timed svc (be_transition be (ar_admission_id r) t (ar_revision r)) st = (Inr (moved_to t r), ?st)"
    using clock tr by (simp add: timed_def in_store_def)
  ultimately show ?thesis using that [of ?st] by (simp add: sees_def)
qed

lemma timed_step:
  assumes "ss_store svc = be" and "sees st r" and "timely svc r" and "edge (ar_state r) t"
    and "ar_revision r < 10 ^ 12"
  obtains st' where
    "timed svc (be_transition be (ar_admission_id r) t (ar_revision r)) st = (Inr (moved_to t r), st')"
    "sees st' (moved_to t r)" "sv_current st' = sv_current st"
    "view (sv_store st') = (view (sv_store st))(ar_admission_id r \<mapsto> moved_to t r)"
proof -
  have "record_wf r" using assms(2) view_wf by (auto simp: sees_def)
  from timed_advance [OF assms(2) advance_timely [OF this assms(3-5)]] that show ?thesis by blast
qed

text \<open>States from which \<open>_compensate\<close> is meant to clean up.\<close>

definition compensable :: "AdmissionState set" where
  "compensable = {RESERVED, REVALIDATING, ADMITTED, EXECUTING, CANCELLED, CONFLICT, EXPIRED, DENIED,
     EXECUTION_FAILED, COMPENSATING}"

lemma settle_done:
  assumes "ss_store svc = be" and "sees st r" and "timely svc r" and "ar_revision r < 10 ^ 12"
    and "ar_state r \<in> {CANCELLED, CONFLICT, EXPIRED, DENIED}"
  obtains st' where "op_bind (compensate_settle svc r) (compensate_finish svc) st = (Inr (moved_to COMPENSATED r), st')"
    "ok (sv_store st')" "view (sv_store st') = (view (sv_store st))(ar_admission_id r \<mapsto> moved_to COMPENSATED r)"
proof -
  have "edge (ar_state r) COMPENSATED" using assms(5) by (auto simp: edge_def)
  from timed_step [OF assms(1,2,3) this assms(4)]
  obtain st' where st': "timed svc (be_transition be (ar_admission_id r) COMPENSATED (ar_revision r)) st =
      (Inr (moved_to COMPENSATED r), st')" "sees st' (moved_to COMPENSATED r)"
    "view (sv_store st') = (view (sv_store st))(ar_admission_id r \<mapsto> moved_to COMPENSATED r)" by metis
  have "op_bind (compensate_settle svc r) (compensate_finish svc) st = (Inr (moved_to COMPENSATED r), st')"
    using st'(1) assms(1,5)
    by (auto simp: compensate_settle_def compensate_finish_def named_pointfree op_bind_def)
  with st' show ?thesis using that by (simp add: sees_def)
qed

lemma finish_done:
  assumes "ss_store svc = be" and "sees st r" and "timely svc r" and "ar_revision r < 10 ^ 12 - 1"
    and "ar_state r \<in> {EXECUTION_FAILED, COMPENSATING}"
  obtains u st' where "compensate_finish svc r st = (Inr u, st')" "ar_state u = FAILED_FINAL"
    "ok (sv_store st')" "view (sv_store st') = (view (sv_store st))(ar_admission_id r \<mapsto> u)"
proof -
  obtain c st1 where c: "(if ar_state r = EXECUTION_FAILED
        then timed svc (be_transition be (ar_admission_id r) COMPENSATING (ar_revision r)) else op_lift (Inr r)) st = (Inr c, st1)"
      "sees st1 c" "ar_state c = COMPENSATING" "ar_revision c < 10 ^ 12" "timely svc c"
      "ar_admission_id c = ar_admission_id r"
      "view (sv_store st1) = (view (sv_store st))(ar_admission_id r \<mapsto> c)"
  proof (cases "ar_state r = EXECUTION_FAILED")
    case True
    have "edge (ar_state r) COMPENSATING" using True by (simp add: edge_def)
    moreover have "ar_revision r < 10 ^ 12" using assms(4) by simp
    ultimately obtain st' where "timed svc (be_transition be (ar_admission_id r) COMPENSATING (ar_revision r)) st =
        (Inr (moved_to COMPENSATING r), st')" "sees st' (moved_to COMPENSATING r)"
      "view (sv_store st') = (view (sv_store st))(ar_admission_id r \<mapsto> moved_to COMPENSATING r)"
      using timed_step [OF assms(1,2,3)] by metis
    with True that [of "moved_to COMPENSATING r" st'] assms(3,4) show ?thesis by simp
  next
    case False
    have "view (sv_store st) = (view (sv_store st))(ar_admission_id r \<mapsto> r)"
      using assms(2) by (auto simp: sees_def)
    with False that [of r st] assms show ?thesis by auto
  qed
  have "edge (ar_state c) FAILED_FINAL" using c(3) by (simp add: edge_def)
  from timed_step [OF assms(1) c(2,5) this c(4)]
  obtain st2 where st2: "timed svc (be_transition be (ar_admission_id c) FAILED_FINAL (ar_revision c)) st1 =
        (Inr (moved_to FAILED_FINAL c), st2)" "sees st2 (moved_to FAILED_FINAL c)"
      "view (sv_store st2) = (view (sv_store st1))(ar_admission_id c \<mapsto> moved_to FAILED_FINAL c)" by metis
  have "compensate_finish svc r st = (Inr (moved_to FAILED_FINAL c), st2)"
    using c(1,3) st2(1) assms(1) by (simp add: compensate_finish_def named_pointfree op_bind_def Let_def split: if_splits)
  with st2 c(6,7) show ?thesis using that by (simp add: sees_def)
qed

text \<open>The whole clean-up of a record that the store holds.\<close>

lemma compensate_done:
  assumes "ss_store svc = be" and "sees st r" and "timely svc r" and "ar_revision r < 10 ^ 12 - 3"
    and "ar_state r \<in> compensable"
  obtains u st' where "compensate_record svc (Some r) st = (Inr (), st')" "\<not> active u"
    "ar_state u = (if ar_state r \<in> {EXECUTING, EXECUTION_FAILED, COMPENSATING} then FAILED_FINAL else COMPENSATED)"
    "ok (sv_store st')" "view (sv_store st') = (view (sv_store st))(ar_admission_id r \<mapsto> u)"
proof -
  let ?outcome = "if ar_state r \<in> {EXECUTING, EXECUTION_FAILED, COMPENSATING} then FAILED_FINAL else COMPENSATED"
  have rev: "ar_revision r < 10 ^ 12" "ar_revision r < 10 ^ 12 - 1" using assms(4) by simp_all
  have "\<exists>u st'. op_bind (compensate_cancel svc r) (\<lambda>r. op_bind (compensate_settle svc r) (compensate_finish svc)) st = (Inr u, st') \<and>
      ar_state u = ?outcome \<and> ok (sv_store st') \<and>
      view (sv_store st') = (view (sv_store st))(ar_admission_id r \<mapsto> u)"
  proof -
    consider (early) "ar_state r \<in> {RESERVED, REVALIDATING, ADMITTED}"
      | (settled) "ar_state r \<in> {CANCELLED, CONFLICT, EXPIRED, DENIED}"
      | (running) "ar_state r = EXECUTING" | (failed) "ar_state r \<in> {EXECUTION_FAILED, COMPENSATING}"
      using assms(5) by (auto simp: compensable_def)
    then show ?thesis
    proof cases
      case early
      then have e: "edge (ar_state r) CANCELLED" by (auto simp: edge_def)
      obtain st1 where st1: "timed svc (be_transition be (ar_admission_id r) CANCELLED (ar_revision r)) st =
          (Inr (moved_to CANCELLED r), st1)" "sees st1 (moved_to CANCELLED r)"
        "view (sv_store st1) = (view (sv_store st))(ar_admission_id r \<mapsto> moved_to CANCELLED r)"
        using timed_step [OF assms(1,2,3) e rev(1)] by metis
      obtain st2 where "op_bind (compensate_settle svc (moved_to CANCELLED r)) (compensate_finish svc) st1 =
          (Inr (moved_to COMPENSATED (moved_to CANCELLED r)), st2)" "ok (sv_store st2)"
        "view (sv_store st2) = (view (sv_store st1))(ar_admission_id r \<mapsto> moved_to COMPENSATED (moved_to CANCELLED r))"
        using settle_done [OF assms(1) st1(2)] assms(3,4) by auto
      with st1 early assms(1) show ?thesis
        by (auto simp: compensate_cancel_def named_pointfree op_bind_def)
    next
      case settled
      then obtain st2 where "op_bind (compensate_settle svc r) (compensate_finish svc) st =
          (Inr (moved_to COMPENSATED r), st2)" "ok (sv_store st2)"
        "view (sv_store st2) = (view (sv_store st))(ar_admission_id r \<mapsto> moved_to COMPENSATED r)"
        using settle_done [OF assms(1,2,3) rev(1)] by metis
      with settled show ?thesis by (auto simp: compensate_cancel_def op_bind_def)
    next
      case running
      then have e: "edge (ar_state r) EXECUTION_FAILED" by (simp add: edge_def)
      obtain st1 where st1: "timed svc (be_transition be (ar_admission_id r) EXECUTION_FAILED (ar_revision r)) st =
          (Inr (moved_to EXECUTION_FAILED r), st1)" "sees st1 (moved_to EXECUTION_FAILED r)"
        "view (sv_store st1) = (view (sv_store st))(ar_admission_id r \<mapsto> moved_to EXECUTION_FAILED r)"
        using timed_step [OF assms(1,2,3) e rev(1)] by metis
      obtain u st2 where "compensate_finish svc (moved_to EXECUTION_FAILED r) st1 = (Inr u, st2)"
          "ar_state u = FAILED_FINAL" "ok (sv_store st2)"
          "view (sv_store st2) = (view (sv_store st1))(ar_admission_id r \<mapsto> u)"
        using finish_done [OF assms(1) st1(2)] assms(3,4) by auto
      with st1 running assms(1) show ?thesis
        by (auto simp: compensate_cancel_def compensate_settle_def named_pointfree op_bind_def)
    next
      case failed
      then obtain u st2 where "compensate_finish svc r st = (Inr u, st2)"
          "ar_state u = FAILED_FINAL" "ok (sv_store st2)"
          "view (sv_store st2) = (view (sv_store st))(ar_admission_id r \<mapsto> u)"
        using finish_done [OF assms(1,2,3) rev(2)] by metis
      with failed show ?thesis
        by (auto simp: compensate_cancel_def compensate_settle_def op_bind_def)
    qed
  qed
  then obtain u st' where u: "op_bind (compensate_cancel svc r) (\<lambda>r. op_bind (compensate_settle svc r) (compensate_finish svc)) st = (Inr u, st')"
    "ar_state u = ?outcome" "ok (sv_store st')"
    "view (sv_store st') = (view (sv_store st))(ar_admission_id r \<mapsto> u)" by blast
  moreover have "\<not> active u" using u(2) by (auto simp: active_def ACTIVE_STATES_def)
  ultimately show ?thesis
    using that [of st' u] by (simp add: compensate_record_def swallow_admission_error_def)
qed

lemma compensate_nothing:
  "ar_state r \<notin> compensable \<Longrightarrow> compensate_record svc (Some r) st = (Inr (), st)"
  by (simp add: compensable_def compensate_record_def swallow_admission_error_def compensate_cancel_def
      compensate_settle_def compensate_finish_def op_bind_def op_lift_def)

text \<open>Every active record of the state was active, unchanged, in the store the run began with.\<close>

definition clean :: "'s \<Rightarrow> ('s, 'w) service_state \<Rightarrow> bool" where
  "clean s0 st = (ok (sv_store st) \<and> (\<forall>j x. view (sv_store st) j = Some x \<and> active x \<longrightarrow> view s0 j = Some x))"

definition holding ::
  "('s, 'w) SelectionService \<Rightarrow> 's \<Rightarrow> AdmissionRecord \<Rightarrow> ('s, 'w) service_state \<Rightarrow> bool" where
  "holding svc s0 c st =
     (sees st c \<and> sv_current st = Some c \<and> timely svc c \<and> ar_revision c \<le> 10 \<and>
      (\<forall>j x. j \<noteq> ar_admission_id c \<and> view (sv_store st) j = Some x \<and> active x \<longrightarrow> view s0 j = Some x))"

lemma holding_world: "holding svc s0 c (st\<lparr>sv_world := w\<rparr>) = holding svc s0 c st"
  by (simp add: holding_def sees_def)

lemma holding_inactive: "holding svc s0 c st \<Longrightarrow> \<not> active c \<Longrightarrow> clean s0 st"
  unfolding holding_def clean_def sees_def by (metis option.inject)

lemma move_step:
  assumes "ss_store svc = be" and "holding svc s0 c st" and "edge (ar_state c) t" and "ar_revision c \<le> 9"
  obtains st' where "move svc (\<lambda>i. be_transition be i t) c st = (Inr (moved_to t c), st')"
    "holding svc s0 (moved_to t c) st'"
proof -
  have c: "sees st c" "timely svc c" "ar_revision c < 10 ^ 12"
    using assms(2) by (auto simp: holding_def)
  obtain st' where st': "timed svc (be_transition be (ar_admission_id c) t (ar_revision c)) st = (Inr (moved_to t c), st')"
    "sees st' (moved_to t c)" "view (sv_store st') = (view (sv_store st))(ar_admission_id c \<mapsto> moved_to t c)"
    using timed_step [OF assms(1) c(1,2) assms(3) c(3)] by metis
  let ?st = "st'\<lparr>sv_current := Some (moved_to t c)\<rparr>"
  have "move svc (\<lambda>i. be_transition be i t) c st = (Inr (moved_to t c), ?st)"
    using st'(1) by (simp add: move_def op_bind_def assign_def)
  moreover have "holding svc s0 (moved_to t c) ?st"
    using st'(2,3) assms(2,4) by (auto simp: holding_def sees_def)
  ultimately show ?thesis using that by blast
qed

lemma compensated_clean:
  assumes "ss_store svc = be" and "holding svc s0 c st" and "ar_state c \<in> compensable"
  obtains st' where "compensate_record svc (Some c) st = (Inr (), st')" "clean s0 st'"
proof -
  have c: "sees st c" "timely svc c" "ar_revision c < 10 ^ 12 - 3" using assms(2) by (auto simp: holding_def)
  obtain u st' where "compensate_record svc (Some c) st = (Inr (), st')" "\<not> active u" "ok (sv_store st')"
      "view (sv_store st') = (view (sv_store st))(ar_admission_id c \<mapsto> u)"
    using compensate_done [OF assms(1) c assms(3)] by metis
  moreover from this have "clean s0 st'" using assms(2) by (auto simp: clean_def holding_def split: if_splits)
  ultimately show ?thesis using that by blast
qed

text \<open>How a stage or an attempt may end.\<close>

definition ends_well ::
  "('s, 'w) SelectionService \<Rightarrow> 's \<Rightarrow> 'a result \<Rightarrow> ('s, 'w) service_state \<Rightarrow> bool" where
  "ends_well svc s0 res st =
     (case res of
        Inr x \<Rightarrow> clean s0 st
      | Inl e \<Rightarrow>
          (clean s0 st \<and> (sv_current st = None \<or> (\<exists>m. e = SelectionDeniedError m)) \<or>
           (\<exists>c. holding svc s0 c st \<and> ar_state c \<in> compensable \<and> (\<forall>m. e \<noteq> SelectionDeniedError m))))"

lemma in_world_holding:
  assumes "holding svc s0 c st" and "ar_state c \<in> compensable" and "never_denies f"
    and "in_world f st = (res, st')"
  shows "holding svc s0 c st' \<and> (\<forall>e. res = Inl e \<longrightarrow> ends_well svc s0 (Inl e :: 'a result) st')"
  using assms
  by (auto simp: in_world_def holding_world ends_well_def never_denies_def split: prod.splits)

lemma revalidation_ends:
  assumes "ss_store svc = be" and "leaves_denial rt" and "holding svc s0 c st" and "ar_state c = REVALIDATING"
    and "ar_revision c \<le> 2" and "revalidation_stage svc rt c st = (res, st')"
  shows "(\<exists>u. res = Inr u \<and> holding svc s0 u st' \<and> ar_state u = ADMITTED \<and> ar_revision u \<le> 3) \<or>
    (\<exists>e. res = Inl e \<and> ends_well svc s0 (Inl e :: execution_response result) st')"
proof -
  obtain out st1 where call: "in_world (rt_revalidate rt c) st = (out, st1)" by (cases "in_world (rt_revalidate rt c) st")
  have st1: "holding svc s0 c st1" "\<And>e. out = Inl e \<Longrightarrow> ends_well svc s0 (Inl e :: execution_response result) st1"
    using in_world_holding [OF assms(3) _ _ call] assms(2,4)
    by (auto simp: leaves_denial_def compensable_def)
  consider (raised) e where "out = Inl e" | (denied) "out = Inr False" | (valid) "out = Inr True"
    by (cases out) auto
  then show ?thesis
  proof cases
    case raised
    then show ?thesis using st1 call assms(1,6) by (auto simp: revalidation_stage_def Let_def op_bind_def)
  next
    case denied
    have e: "edge (ar_state c) DENIED" "edge DENIED COMPENSATED" using assms(4) by (simp_all add: edge_def)
    have rev: "ar_revision c \<le> 9" using assms(5) by simp
    obtain st2 where st2: "move svc (\<lambda>i. be_transition be i DENIED) c st1 = (Inr (moved_to DENIED c), st2)"
        "holding svc s0 (moved_to DENIED c) st2"
      using move_step [OF assms(1) st1(1) e(1) rev] by metis
    have e2: "edge (ar_state (moved_to DENIED c)) COMPENSATED" using e(2) by simp
    have rev2: "ar_revision (moved_to DENIED c) \<le> 9" using assms(5) by simp
    obtain st3 where st3: "move svc (\<lambda>i. be_transition be i COMPENSATED) (moved_to DENIED c) st2 =
          (Inr (moved_to COMPENSATED (moved_to DENIED c)), st3)"
        "holding svc s0 (moved_to COMPENSATED (moved_to DENIED c)) st3"
      using move_step [OF assms(1) st2(2) e2 rev2] by metis
    have "clean s0 st3" using holding_inactive [OF st3(2)] by (simp add: active_def ACTIVE_STATES_def)
    moreover have "res = Inl (SelectionDeniedError ''admission revalidation denied'') \<and> st' = st3"
      using assms(1,6) call denied st2(1) st3(1)
      by (simp add: revalidation_stage_def Let_def op_bind_def named_pointfree)
    ultimately show ?thesis by (simp add: ends_well_def)
  next
    case valid
    have e: "edge (ar_state c) ADMITTED" using assms(4) by (simp add: edge_def)
    have rev: "ar_revision c \<le> 9" using assms(5) by simp
    obtain st2 where st2: "move svc (\<lambda>i. be_transition be i ADMITTED) c st1 = (Inr (moved_to ADMITTED c), st2)"
        "holding svc s0 (moved_to ADMITTED c) st2"
      using move_step [OF assms(1) st1(1) e rev] by metis
    then show ?thesis
      using assms(1,5,6) call valid by (auto simp: revalidation_stage_def Let_def op_bind_def named_pointfree)
  qed
qed

lemma pool_ends:
  assumes "ss_store svc = be" and "leaves_denial rt" and "holding svc s0 c st" and "ar_state c = ADMITTED"
    and "ar_revision c \<le> 3" and "pool_stage svc rt c st = (res, st')"
  shows "(res = Inr c \<and> holding svc s0 c st') \<or>
    (\<exists>e. res = Inl e \<and> ends_well svc s0 (Inl e :: execution_response result) st')"
proof (cases "rb_account_pool_binding (ar_resource c) = None")
  case True
  then show ?thesis using assms by (auto simp: pool_stage_def Let_def)
next
  case bound: False
  let ?check = "case rt_revalidate_before_begin_execution rt of None \<Rightarrow> op_lift (Inr False)
      | Some fresh_check \<Rightarrow> in_world (fresh_check c)"
  obtain out st1 where call: "?check st = (out, st1)" by (cases "?check st")
  have "holding svc s0 c st1 \<and> (\<forall>e. out = Inl e \<longrightarrow> ends_well svc s0 (Inl e :: execution_response result) st1)"
  proof (cases "rt_revalidate_before_begin_execution rt")
    case None
    then show ?thesis using call assms(3) by auto
  next
    case (Some f)
    then have "never_denies (f c)" "in_world (f c) st = (out, st1)"
      using assms(2) call by (auto simp: leaves_denial_def)
    then show ?thesis using in_world_holding [OF assms(3)] assms(4) by (auto simp: compensable_def)
  qed
  then have st1: "holding svc s0 c st1" "\<And>e. out = Inl e \<Longrightarrow> ends_well svc s0 (Inl e :: execution_response result) st1"
    by auto
  consider (raised) e where "out = Inl e" | (stale) "out = Inr False" | (fresh) "out = Inr True"
    by (cases out) auto
  then show ?thesis
  proof cases
    case raised
    then show ?thesis using st1 call assms(1,6) bound by (auto simp: pool_stage_def Let_def op_bind_def)
  next
    case stale
    have e: "edge (ar_state c) CANCELLED" using assms(4) by (simp add: edge_def)
    have rev: "ar_revision c \<le> 9" using assms(5) by simp
    obtain st2 where st2: "move svc (\<lambda>i. be_transition be i CANCELLED) c st1 = (Inr (moved_to CANCELLED c), st2)"
        "holding svc s0 (moved_to CANCELLED c) st2"
      using move_step [OF assms(1) st1(1) e rev] by metis
    let ?c = "moved_to CANCELLED c"
    have c: "sees st2 ?c" "timely svc ?c" "edge (ar_state ?c) COMPENSATED" "ar_revision ?c < 10 ^ 12"
      using st2(2) assms(5) by (auto simp: holding_def edge_def)
    obtain st3 where st3: "timed svc (be_transition be (ar_admission_id ?c) COMPENSATED (ar_revision ?c)) st2 =
          (Inr (moved_to COMPENSATED ?c), st3)" "sees st3 (moved_to COMPENSATED ?c)"
        "view (sv_store st3) = (view (sv_store st2))(ar_admission_id ?c \<mapsto> moved_to COMPENSATED ?c)"
      using timed_step [OF assms(1) c] by metis
    have "clean s0 st3"
      using st2(2) st3(2,3) by (auto simp: clean_def holding_def sees_def active_def ACTIVE_STATES_def split: if_splits)
    moreover have "res = Inl (SelectionDeniedError ''pool authority revalidation denied'') \<and> st' = st3"
      using assms(1,6) call stale st2(1) st3(1) bound
      by (simp add: pool_stage_def Let_def op_bind_def named_pointfree)
    ultimately show ?thesis by (simp add: ends_well_def)
  next
    case fresh
    then show ?thesis using st1 call assms(1,6) bound by (auto simp: pool_stage_def Let_def op_bind_def)
  qed
qed

lemma execution_ends:
  assumes "ss_store svc = be" and "leaves_denial rt" and "holding svc s0 c st" and "ar_state c = ADMITTED"
    and "ar_revision c \<le> 3" and "execution_stage svc rt operation k c st = (res, st')"
  shows "ends_well svc s0 res st'"
proof -
  have e: "edge (ar_state c) EXECUTING" using assms(4) by (simp add: edge_def)
  have rev: "ar_revision c \<le> 9" using assms(5) by simp
  let ?c = "moved_to EXECUTING c"
  obtain st1 where st1: "move svc (\<lambda>i. be_transition be i EXECUTING) c st = (Inr ?c, st1)" "holding svc s0 ?c st1"
    using move_step [OF assms(1,3) e rev] by metis
  obtain out st2 where call: "in_world (rt_execute rt ?c operation) st1 = (out, st2)"
    by (cases "in_world (rt_execute rt ?c operation) st1")
  have st2: "holding svc s0 ?c st2" "\<And>e. out = Inl e \<Longrightarrow> ends_well svc s0 (Inl e :: execution_response result) st2"
    using in_world_holding [OF st1(2) _ _ call] assms(2) by (auto simp: leaves_denial_def compensable_def)
  have mapping: "ends_well svc s0 (Inl (SelectionServiceError m) :: execution_response result) st2" for m
    using st2(1) by (auto simp: ends_well_def compensable_def intro!: exI [of _ ?c])
  consider (raised) e where "out = Inl e" | (other) x where "out = Inr x" "\<nexists>d. x = PDict d" | (mapped) d where "out = Inr (PDict d)"
    by (cases out) auto
  then show ?thesis
  proof cases
    case raised
    then show ?thesis
      using st1 call st2 assms(1,6) by (auto simp: execution_stage_def Let_def op_bind_def named_pointfree)
  next
    case other
    then have "res = Inl (SelectionServiceError ''runtime result must be a mapping'') \<and> st' = st2"
      using st1 call assms(1,6)
      by (cases x) (auto simp: execution_stage_def Let_def op_bind_def named_pointfree)
    then show ?thesis using mapping by simp
  next
    case mapped
    obtain now w where clock: "ss_now svc (sv_world st2) = (now, w)" by (cases "ss_now svc (sv_world st2)")
    have ok2: "ok (sv_store st2)" "view (sv_store st2) (ar_admission_id c) = Some ?c"
      using st2(1) by (auto simp: holding_def sees_def)
    obtain s1 where get: "be_get be (ar_admission_id c) (sv_store st2) = (Inr ?c, s1)"
      using get_succeeds [OF ok2] by blast
    have s1: "ok s1" "view s1 = view (sv_store st2)" using get_result [OF ok2(1) get] by auto
    have "advance ?c FINALIZED now = Inr (moved_to FINALIZED ?c)"
      using advance_timely [OF view_wf [OF ok2], of svc FINALIZED "sv_world st2"] st2(1) clock
      by (simp add: holding_def edge_def)
    then obtain s2 where tr: "be_transition be (ar_admission_id c) FINALIZED (ar_revision ?c) now s1 =
        (Inr (moved_to FINALIZED ?c), s2)"
      using transition_succeeds [OF s1(1)] ok2(2) s1(2) by metis
    have s2: "ok s2" "view s2 = (view (sv_store st2))(ar_admission_id c \<mapsto> moved_to FINALIZED ?c)"
      using transition_done [OF s1(1) tr] s1(2) by auto
    have "finalize (be_get be) (be_transition be) (ar_admission_id c) (ar_revision ?c) now (sv_store st2) =
        (Inr (moved_to FINALIZED ?c), s2)"
      using get tr by (simp add: finalize_def op_bind_def)
    then have "is_ok res \<and> st' = st2\<lparr>sv_world := w, sv_store := s2, sv_current := Some (moved_to FINALIZED ?c)\<rparr>"
      using assms(1,6) st1(1) call mapped clock
      by (auto simp: execution_stage_def Let_def op_bind_def named_pointfree move_def timed_def in_store_def assign_def)
    moreover have "clean s0 (st2\<lparr>sv_world := w, sv_store := s2, sv_current := Some (moved_to FINALIZED ?c)\<rparr>)"
      using s2 st2(1) by (auto simp: clean_def holding_def active_def ACTIVE_STATES_def split: if_splits)
    ultimately show ?thesis by (cases res) (auto simp: ends_well_def)
  qed
qed

lemma attempt_ends:
  assumes "ss_store svc = be" and "leaves_denial rt" and "timely_plans svc plan" and "clean s0 st"
    and "sv_current st = None" and "attempt_body svc rt plan operation k st = (res, st')"
  shows "ends_well svc s0 res st'"
proof -
  obtain p st1 where plan: "in_world (plan_admission plan) st = (p, st1)" by (cases "in_world (plan_admission plan) st")
  have st1: "clean s0 st1" "sv_current st1 = None"
    using plan assms(4,5) by (auto simp: in_world_def clean_def split: prod.splits)
  show ?thesis
  proof (cases p)
    case (Inl e)
    then have "res = Inl e \<and> st' = st1" using plan assms(6) by (simp add: attempt_body_def op_bind_def)
    then show ?thesis using st1 by (simp add: ends_well_def)
  next
    case (Inr planned)
    then obtain w w' where "plan w = (Inr planned, w')" and planned: "ar_state planned = PLANNED"
      using plan by (auto simp: in_world_def plan_admission_def op_bind_def split: prod.splits sum.splits if_splits)
    then have pl: "record_ok planned" "ar_revision planned = 0" "timely svc planned"
      using assms(3) by (auto simp: timely_plans_def)
    obtain now w2 where clock: "ss_now svc (sv_world st1) = (now, w2)" by (cases "ss_now svc (sv_world st1)")
    obtain r s2 where rs: "be_reserve be planned now (sv_store st1) = (r, s2)"
      by (cases "be_reserve be planned now (sv_store st1)")
    have ok1: "ok (sv_store st1)" using st1(1) by (simp add: clean_def)
    show ?thesis
    proof (cases r)
      case (Inl e)
      then have "res = Inl e \<and> st' = st1\<lparr>sv_world := w2, sv_store := s2\<rparr>"
        using plan \<open>p = Inr planned\<close> clock rs assms(1,6)
        by (simp add: attempt_body_def op_bind_def timed_def in_store_def)
      moreover have "ok s2" "\<And>j x. view s2 j = Some x \<Longrightarrow> active x \<Longrightarrow> view (sv_store st1) j = Some x"
        using reserve_failed [OF ok1 pl(1)] rs Inl by auto
      ultimately show ?thesis using st1 by (auto simp: ends_well_def clean_def)
    next
      case (Inr c)
      let ?st2 = "st1\<lparr>sv_world := w2, sv_store := s2, sv_current := Some c\<rparr>"
      note rsvd = reserve_done [OF ok1 pl(1) rs [unfolded Inr]]
      then have c: "c = moved_to RESERVED planned" by (simp add: advance_Inr moved_to_def)
      have h2: "holding svc s0 c ?st2"
        using rsvd st1(1) pl c by (auto simp: holding_def sees_def clean_def)
      have e: "edge (ar_state c) REVALIDATING" "ar_revision c \<le> 9" using c pl by (simp_all add: edge_def)
      obtain st3 where st3: "move svc (\<lambda>i. be_transition be i REVALIDATING) c ?st2 = (Inr (moved_to REVALIDATING c), st3)"
          "holding svc s0 (moved_to REVALIDATING c) st3"
        using move_step [OF assms(1) h2 e] by metis
      obtain v st4 where rv: "revalidation_stage svc rt (moved_to REVALIDATING c) st3 = (v, st4)"
        by (cases "revalidation_stage svc rt (moved_to REVALIDATING c) st3")
      have body: "op_bind (revalidation_stage svc rt (moved_to REVALIDATING c)) (\<lambda>c.
          op_bind (pool_stage svc rt c) (execution_stage svc rt operation k)) st3 = (res, st')"
        using plan \<open>p = Inr planned\<close> clock rs Inr assms(1,6) st3(1)
        by (simp add: attempt_body_def op_bind_def timed_def in_store_def assign_def named_pointfree)
      from revalidation_ends [OF assms(1,2) st3(2) _ _ rv] c pl
      consider (stop) e where "v = Inl e" "ends_well svc s0 (Inl e :: execution_response result) st4"
        | (go) u where "v = Inr u" "holding svc s0 u st4" "ar_state u = ADMITTED" "ar_revision u \<le> 3" by auto
      then show ?thesis
      proof cases
        case stop
        then show ?thesis using body rv by (auto simp: op_bind_def)
      next
        case go
        obtain y st5 where pool: "pool_stage svc rt u st4 = (y, st5)" by (cases "pool_stage svc rt u st4")
        from pool_ends [OF assms(1,2) go(2,3,4) pool] body rv go(1) pool show ?thesis
          using execution_ends [OF assms(1,2) _ go(3,4)] by (auto simp: op_bind_def)
      qed
    qed
  qed
qed

lemma handle_clean:
  assumes "ss_store svc = be" and "ends_well svc s0 (Inl e :: execution_response result) st"
    and "handle svc e st = (res, st')"
  shows "clean s0 st'"
proof -
  consider (nothing) "clean s0 st" "sv_current st = None" | (denied) m where "clean s0 st" "e = SelectionDeniedError m"
    | (held) c where "holding svc s0 c st" "ar_state c \<in> compensable" "\<forall>m. e \<noteq> SelectionDeniedError m"
    using assms(2) by (auto simp: ends_well_def)
  then show ?thesis
  proof cases
    case held
    then obtain st1 where "compensate_record svc (Some c) st = (Inr (), st1)" "clean s0 st1"
      using compensated_clean [OF assms(1)] by metis
    moreover have "sv_current st = Some c" using held(1) by (simp add: holding_def)
    ultimately show ?thesis using assms(3) held(3) by (cases e) (simp_all add: handle_def op_bind_def)
  qed (use assms(3) in \<open>cases e; auto simp: handle_def op_bind_def compensate_record_def split: if_splits\<close>)+
qed

lemma attempts_clean:
  assumes "ss_store svc = be" and "leaves_denial rt" and "timely_plans svc plan" and "clean s0 st"
    and "attempts svc rt plan operation ks st = (res, st')"
  shows "clean s0 st'"
  using assms(4,5)
proof (induction ks arbitrary: st)
  case Nil
  then show ?case by simp
next
  case (Cons k ks)
  let ?st = "st\<lparr>sv_current := None\<rparr>"
  obtain r st1 where body: "attempt_body svc rt plan operation k ?st = (r, st1)"
    by (cases "attempt_body svc rt plan operation k ?st")
  have "clean s0 ?st" using Cons.prems(1) by (simp add: clean_def)
  then have st1: "ends_well svc s0 r st1" using attempt_ends [OF assms(1-3) _ _ body] by simp
  show ?case
  proof (cases r)
    case (Inr resp)
    then show ?thesis using body st1 Cons.prems(2) by (simp add: ends_well_def)
  next
    case (Inl e)
    obtain h st2 where h: "handle svc e st1 = (h, st2)" by (cases "handle svc e st1")
    then have "clean s0 st2" using handle_clean [OF assms(1)] st1 Inl by blast
    moreover from this have "clean s0 (pause svc k st2)" by (simp add: clean_def pause_def)
    ultimately show ?thesis using Cons.IH Cons.prems(2) body Inl h by (auto split: sum.splits)
  qed
qed

text \<open>
  Reconciliation: \<open>fin\<close> is what the runtime reports of a record, \<open>settled\<close> what becomes of it.
\<close>

definition settled :: "(AdmissionRecord \<Rightarrow> bool) \<Rightarrow> AdmissionRecord \<Rightarrow> AdmissionRecord" where
  "settled fin r =
     (if ar_state r = EXECUTING then
        (if fin r then moved_to FINALIZED (moved_to RECOVERED_AFTER_CRASH r) else r)
      else if ar_state r \<in> {CONFLICT, EXPIRED, DENIED, CANCELLED} then moved_to COMPENSATED r else r)"

lemma settled_id [simp]: "ar_admission_id (settled fin r) = ar_admission_id r"
  by (simp add: settled_def)

definition tally :: "(AdmissionRecord \<Rightarrow> bool) \<Rightarrow> AdmissionRecord list \<Rightarrow> reconcile_counts \<Rightarrow> reconcile_counts" where
  "tally fin rs n =
     n\<lparr>rc_recovered := rc_recovered n + length (filter (\<lambda>r. ar_state r = EXECUTING \<and> fin r) rs),
       rc_compensated := rc_compensated n +
         length (filter (\<lambda>r. ar_state r \<in> {CONFLICT, EXPIRED, DENIED, CANCELLED}) rs),
       rc_unresolved := rc_unresolved n + length (filter (\<lambda>r. ar_state r = EXECUTING \<and> \<not> fin r) rs)\<rparr>"

lemma finalize_recovered:
  assumes "ss_store svc = be" and "sees st r" and "ar_state r = RECOVERED_AFTER_CRASH"
    and "\<And>w. aware (fst (ss_now svc w))" and "ar_revision r < 10 ^ 12"
  obtains st' where
    "timed svc (finalize (be_get be) (be_transition be) (ar_admission_id r) (ar_revision r)) st =
       (Inr (moved_to FINALIZED r), st')"
    "ok (sv_store st')" "view (sv_store st') = (view (sv_store st))(ar_admission_id r \<mapsto> moved_to FINALIZED r)"
proof -
  obtain now w where clock: "ss_now svc (sv_world st) = (now, w)" by (cases "ss_now svc (sv_world st)")
  have r: "ok (sv_store st)" "view (sv_store st) (ar_admission_id r) = Some r"
    using assms(2) by (auto simp: sees_def)
  obtain s1 where get: "be_get be (ar_admission_id r) (sv_store st) = (Inr r, s1)" using get_succeeds [OF r] by blast
  have s1: "ok s1" "view s1 = view (sv_store st)" using get_result [OF r(1) get] by auto
  have "advance r FINALIZED now = Inr (moved_to FINALIZED r)"
    using advance_running [OF view_wf [OF r] _ _ assms(5), of FINALIZED now] assms(3) assms(4) [of "sv_world st"] clock
    by (simp add: edge_def EXPIRABLE_STATES_def)
  then obtain s2 where tr: "be_transition be (ar_admission_id r) FINALIZED (ar_revision r) now s1 =
      (Inr (moved_to FINALIZED r), s2)"
    using transition_succeeds [OF s1(1)] r(2) s1(2) by metis
  have "ok s2" "view s2 = (view (sv_store st))(ar_admission_id r \<mapsto> moved_to FINALIZED r)"
    using transition_done [OF s1(1) tr] s1(2) by auto
  moreover have "timed svc (finalize (be_get be) (be_transition be) (ar_admission_id r) (ar_revision r)) st =
      (Inr (moved_to FINALIZED r), st\<lparr>sv_world := w, sv_store := s2\<rparr>)"
    using get tr clock assms(3) by (simp add: timed_def in_store_def finalize_def op_bind_def)
  ultimately show ?thesis using that by simp
qed

lemma reconcile_step:
  assumes "ss_store svc = be" and "sees st r" and "\<And>w. aware (fst (ss_now svc w))"
    and "\<And>w. fst (rt_execution_completed rt r w) = Inr (fin r)" and "ar_revision r < 10 ^ 12 - 1"
  obtains st' where "reconcile_loop svc rt (r # rs) n st = reconcile_loop svc rt rs (tally fin [r] n) st'"
    "ok (sv_store st')" "view (sv_store st') = (view (sv_store st))(ar_admission_id r \<mapsto> settled fin r)"
proof -
  have wf: "record_wf r" using assms(2) view_wf by (auto simp: sees_def)
  have rev: "ar_revision r < 10 ^ 12" using assms(5) by simp
  have same: "view (sv_store st) = (view (sv_store st))(ar_admission_id r \<mapsto> r)"
    using assms(2) by (auto simp: sees_def)
  consider (recover) "ar_state r = EXECUTING" "fin r" | (wait) "ar_state r = EXECUTING" "\<not> fin r"
    | (comp) "ar_state r \<in> {CONFLICT, EXPIRED, DENIED, CANCELLED}"
    | (skip) "ar_state r \<notin> {EXECUTING, CONFLICT, EXPIRED, DENIED, CANCELLED}" by blast
  then show ?thesis
  proof cases
    case recover
    obtain w where w: "rt_execution_completed rt r (sv_world st) = (Inr True, w)"
      using assms(4) [of "sv_world st"] recover by (cases "rt_execution_completed rt r (sv_world st)") auto
    let ?st = "st\<lparr>sv_world := w\<rparr>" and ?r = "moved_to RECOVERED_AFTER_CRASH r"
    have "sees ?st r" using assms(2) by (simp add: sees_def)
    moreover have "advance r RECOVERED_AFTER_CRASH (fst (ss_now svc (sv_world ?st))) = Inr ?r"
      using advance_running [OF wf _ _ rev assms(3)] recover(1) by (simp add: edge_def EXPIRABLE_STATES_def)
    ultimately obtain st1 where st1: "timed svc (be_transition be (ar_admission_id r) RECOVERED_AFTER_CRASH (ar_revision r)) ?st =
        (Inr ?r, st1)" "sees st1 ?r" "view (sv_store st1) = (view (sv_store st))(ar_admission_id r \<mapsto> ?r)"
      using timed_advance [of ?st r RECOVERED_AFTER_CRASH svc] by auto
    obtain st2 where "timed svc (finalize (be_get be) (be_transition be) (ar_admission_id ?r) (ar_revision ?r)) st1 =
        (Inr (moved_to FINALIZED ?r), st2)" "ok (sv_store st2)"
        "view (sv_store st2) = (view (sv_store st1))(ar_admission_id r \<mapsto> moved_to FINALIZED ?r)"
      using finalize_recovered [OF assms(1) st1(2) _ assms(3)] assms(5) by auto
    then show ?thesis
      using that [of st2] st1 recover w assms(1)
      by (simp add: op_bind_def in_world_def named_pointfree settled_def tally_def)
  next
    case wait
    obtain w where w: "rt_execution_completed rt r (sv_world st) = (Inr False, w)"
      using assms(4) [of "sv_world st"] wait by (cases "rt_execution_completed rt r (sv_world st)") auto
    then show ?thesis
      using that [of "st\<lparr>sv_world := w\<rparr>"] wait same assms(2)
      by (simp add: op_bind_def in_world_def settled_def tally_def sees_def)
  next
    case comp
    have "advance r COMPENSATED (fst (ss_now svc (sv_world st))) = Inr (moved_to COMPENSATED r)"
      using advance_running [OF wf _ _ rev assms(3)] comp by (auto simp: edge_def EXPIRABLE_STATES_def)
    from timed_advance [OF assms(2) this]
    obtain st1 where st1: "timed svc (be_transition be (ar_admission_id r) COMPENSATED (ar_revision r)) st =
        (Inr (moved_to COMPENSATED r), st1)" "sees st1 (moved_to COMPENSATED r)"
        "view (sv_store st1) = (view (sv_store st))(ar_admission_id r \<mapsto> moved_to COMPENSATED r)" by metis
    then show ?thesis
      using that [of st1] comp assms(1)
      by (auto simp: op_bind_def named_pointfree settled_def tally_def sees_def)
  next
    case skip
    then show ?thesis using that [of st] same assms(2) by (simp add: settled_def tally_def sees_def)
  qed
qed

lemma reconcile_all:
  assumes "ss_store svc = be" and "\<And>w. aware (fst (ss_now svc w))"
    and "\<And>r w. fst (rt_execution_completed rt r w) = Inr (fin r)"
    and "ok (sv_store st)" and "\<forall>r \<in> set rs. view (sv_store st) (ar_admission_id r) = Some r \<and> ar_revision r < 10 ^ 12 - 1"
    and "distinct (map ar_admission_id rs)"
  shows "\<exists>st'. reconcile_loop svc rt rs n st = (Inr (tally fin rs n), st') \<and> ok (sv_store st') \<and>
    (\<forall>i. view (sv_store st') i =
       (if i \<in> ar_admission_id ` set rs then map_option (settled fin) (view (sv_store st) i) else view (sv_store st) i))"
  using assms(4-6)
proof (induction rs arbitrary: n st)
  case Nil
  then show ?case by (simp add: tally_def)
next
  case (Cons r rs)
  have "sees st r" "ar_revision r < 10 ^ 12 - 1" using Cons.prems(1,2) by (auto simp: sees_def)
  then obtain st1 where st1: "reconcile_loop svc rt (r # rs) n st = reconcile_loop svc rt rs (tally fin [r] n) st1"
      "ok (sv_store st1)" "view (sv_store st1) = (view (sv_store st))(ar_admission_id r \<mapsto> settled fin r)"
    using reconcile_step [where fin = fin and r = r, OF assms(1) _ assms(2,3)] by metis
  have "ar_admission_id x \<noteq> ar_admission_id r" if "x \<in> set rs" for x
    using Cons.prems(3) imageI [OF that, of ar_admission_id] by auto
  then have rest: "\<forall>x \<in> set rs. view (sv_store st1) (ar_admission_id x) = Some x \<and> ar_revision x < 10 ^ 12 - 1"
    unfolding st1(3) using Cons.prems(2) by simp
  have "distinct (map ar_admission_id rs)" using Cons.prems(3) by simp
  from Cons.IH [OF st1(2) rest this, of "tally fin [r] n"]
  obtain st2 where st2: "reconcile_loop svc rt rs (tally fin [r] n) st1 = (Inr (tally fin rs (tally fin [r] n)), st2)"
      "ok (sv_store st2)"
      "\<forall>i. view (sv_store st2) i =
         (if i \<in> ar_admission_id ` set rs then map_option (settled fin) (view (sv_store st1) i) else view (sv_store st1) i)"
    by blast
  have "tally fin rs (tally fin [r] n) = tally fin (r # rs) n" by (simp add: tally_def)
  moreover have "\<forall>i. view (sv_store st2) i =
      (if i \<in> ar_admission_id ` set (r # rs) then map_option (settled fin) (view (sv_store st) i) else view (sv_store st) i)"
    unfolding st2(3) [rule_format] st1(3) using Cons.prems(2,3) by simp
  ultimately show ?case using st1(1) st2(1,2) by metis
qed

lemma execute_clean:
  assumes "ss_store svc = be" and "ss_runtime svc = Some rt" and "leaves_denial rt" and "timely_plans svc plan"
    and "ok (sv_store st)" and "execute_with_retry svc plan operation st = (res, st')"
  shows "clean (sv_store st) st'"
proof -
  have st: "clean (sv_store st) st" using assms(5) by (simp add: clean_def)
  show ?thesis
    using st attempts_clean [OF assms(1,3,4) st] assms(2,6)
    by (auto simp: execute_with_retry_def split: if_splits)
qed

end

text \<open>
  C9. No admission leaks, on the in-process store and under three conditions: the store is well formed
  at the start, every record the plan factory returns is a valid one at revision zero whose deadline
  stays ahead of the clock throughout, and no method of the runtime itself raises
  \<open>SelectionDeniedError\<close> (the service passes that one on without cleaning up). Then a run that ends with
  a response, any other exception of the runtime, any exception of the plan factory or of the store,
  or exhausted retries leaves no active record behind that was not active, with the same contents,
  before the run.
\<close>

theorem execution_leaves_no_claim:
  assumes "store_inv s" and "all_ok s" and "ss_store svc = memory_backend" and "ss_runtime svc = Some rt"
    and "leaves_denial rt" and "timely_plans svc plan"
    and "execute_with_retry svc plan operation \<lparr>sv_store = s, sv_world = w, sv_current = None\<rparr> = (res, st)"
  shows "map_of (st_records (sv_store st)) i = Some x \<Longrightarrow> active x \<Longrightarrow> map_of (st_records s) i = Some x"
  using memory.execute_clean [OF assms(3-6) _ assms(7)] assms(1,2)
  by (simp add: memory.clean_def memory_ok_def memory_view_def)

text \<open>
  C36. \<open>_compensate\<close> settles the claim it is given, by its state. On the well-formed in-process store,
  for a record the store holds, whose deadline stays ahead of the clock and whose revision is more
  than three below the limit of \<open>10 ^ 12\<close>, the clean-up raises nothing and touches no other record. A
  record that is reserved, in revalidation, admitted, cancelled, in conflict, expired or denied ends
  compensated; one that is executing, failed in execution or being compensated ends finally failed;
  in any other state (planned, paused, recovered after a crash, or already final) the store is left
  as it is.
\<close>

theorem compensation_settles:
  assumes "store_inv s" and "all_ok s" and "ss_store svc = memory_backend"
    and "map_of (st_records s) (ar_admission_id r) = Some r" and "timely svc r"
    and "ar_revision r < 10 ^ 12 - 3"
  shows "\<exists>u st. compensate_record svc (Some r) \<lparr>sv_store = s, sv_world = w, sv_current = c\<rparr> = (Inr (), st) \<and>
    map_of (st_records (sv_store st)) = (map_of (st_records s))(ar_admission_id r \<mapsto> u) \<and>
    (if ar_state r \<in> {RESERVED, REVALIDATING, ADMITTED, CANCELLED, CONFLICT, EXPIRED, DENIED}
     then ar_state u = COMPENSATED
     else if ar_state r \<in> {EXECUTING, EXECUTION_FAILED, COMPENSATING} then ar_state u = FAILED_FINAL
     else u = r \<and> sv_store st = s)"
proof -
  let ?st = "\<lparr>sv_store = s, sv_world = w, sv_current = c\<rparr>"
  show ?thesis
  proof (cases "ar_state r \<in> memory.compensable")
    case True
    have "memory.sees ?st r" using assms(1,2,4) by (simp add: memory.sees_def memory_ok_def memory_view_def)
    then obtain u st where "compensate_record svc (Some r) ?st = (Inr (), st)"
        "ar_state u = (if ar_state r \<in> {EXECUTING, EXECUTION_FAILED, COMPENSATING} then FAILED_FINAL else COMPENSATED)"
        "memory_view (sv_store st) = (memory_view (sv_store ?st))(ar_admission_id r \<mapsto> u)"
      using memory.compensate_done [OF assms(3) _ assms(5,6) True] by metis
    then show ?thesis using True by (auto simp: memory_view_def fun_eq_iff memory.compensable_def)
  next
    case False
    then have "compensate_record svc (Some r) ?st = (Inr (), ?st)" by (rule memory.compensate_nothing)
    moreover have "(map_of (st_records s))(ar_admission_id r \<mapsto> r) = map_of (st_records s)"
      using assms(4) by (simp add: fun_upd_idem)
    ultimately show ?thesis using False by (auto simp: memory.compensable_def)
  qed
qed

text \<open>
  C26. Reconciliation after a crash settles what it can prove and nothing else. If the clock is
  aware and the runtime answers \<open>fin\<close> for each record, then whatever the deadlines say:
  executing records that ran to completion become finalized, conflicting, expired, denied and
  cancelled records become compensated, every other record is left as it was, and the counts
  returned are the numbers of those records.
\<close>

theorem reconcile_settles:
  assumes "store_inv s" and "all_ok s" and "ss_store svc = memory_backend" and "ss_runtime svc = Some rt"
    and "\<And>w. aware (fst (ss_now svc w))" and "\<And>r w. fst (rt_execution_completed rt r w) = Inr (fin r)"
    and "\<And>i r. (i, r) \<in> set (st_records s) \<Longrightarrow> ar_revision r < 10 ^ 12 - 1"
  shows "\<exists>n st. reconcile_incomplete svc \<lparr>sv_store = s, sv_world = w, sv_current = c\<rparr> = (Inr n, st) \<and>
    rc_recovered n = length (filter (\<lambda>r. ar_state r = EXECUTING \<and> fin r) (records_of s)) \<and>
    rc_compensated n =
      length (filter (\<lambda>r. ar_state r \<in> {CONFLICT, EXPIRED, DENIED, CANCELLED}) (records_of s)) \<and>
    rc_unresolved n = length (filter (\<lambda>r. ar_state r = EXECUTING \<and> \<not> fin r) (records_of s)) \<and>
    (\<forall>i. map_of (st_records (sv_store st)) i =
       map_option (\<lambda>r.
         if ar_state r = EXECUTING \<and> fin r then r\<lparr>ar_state := FINALIZED, ar_revision := ar_revision r + 2\<rparr>
         else if ar_state r \<in> {CONFLICT, EXPIRED, DENIED, CANCELLED}
         then r\<lparr>ar_state := COMPENSATED, ar_revision := ar_revision r + 1\<rparr>
         else r) (map_of (st_records s) i))"
proof -
  let ?st = "\<lparr>sv_store = s, sv_world = w, sv_current = c\<rparr>"
  let ?rs = "records_of s" and ?n = "\<lparr>rc_recovered = 0, rc_compensated = 0, rc_unresolved = 0\<rparr>"
  have wf: "store_wf s" using assms(1) by (simp add: store_inv_def)
  have recs: "\<forall>r \<in> set ?rs. memory_view s (ar_admission_id r) = Some r \<and> ar_revision r < 10 ^ 12 - 1"
    using wf assms(7) by (auto simp: store_wf_def memory_view_def)
  have ids: "map ar_admission_id ?rs = map fst (st_records s)"
    using wf by (auto simp: store_wf_def)
  have "distinct (map ar_admission_id ?rs)" unfolding ids using wf by (simp add: store_wf_def)
  moreover have "memory_ok (sv_store ?st)" using assms(1,2) by (simp add: memory_ok_def)
  ultimately obtain st where st: "reconcile_loop svc rt ?rs ?n ?st = (Inr (memory.tally fin ?rs ?n), st)"
      "\<forall>i. memory_view (sv_store st) i =
         (if i \<in> ar_admission_id ` set ?rs then map_option (memory.settled fin) (memory_view s i) else memory_view s i)"
    using memory.reconcile_all [where fin = fin and st = ?st and rs = ?rs and n = ?n, OF assms(3,5,6)] recs by auto
  have "i \<in> ar_admission_id ` set ?rs \<longleftrightarrow> map_of (st_records s) i \<noteq> None" for i
    using ids by (metis list.set_map map_of_eq_None_iff)
  then have maps: "memory_view (sv_store st) i = map_option (memory.settled fin) (memory_view s i)" for i
    using st(2) by (simp add: memory_view_def)
  have "reconcile_incomplete svc ?st = (Inr (memory.tally fin ?rs ?n), st)"
    using st(1) assms(3,4)
    by (simp add: reconcile_incomplete_def op_bind_def in_store_def memory_backend_def records_snapshot_def)
  moreover have "memory.settled fin r =
      (if ar_state r = EXECUTING \<and> fin r then r\<lparr>ar_state := FINALIZED, ar_revision := ar_revision r + 2\<rparr>
       else if ar_state r \<in> {CONFLICT, EXPIRED, DENIED, CANCELLED}
       then r\<lparr>ar_state := COMPENSATED, ar_revision := ar_revision r + 1\<rparr> else r)" for r
    by (auto simp: memory.settled_def moved_to_def)
  then have "memory.settled fin =
      (\<lambda>r. if ar_state r = EXECUTING \<and> fin r then r\<lparr>ar_state := FINALIZED, ar_revision := ar_revision r + 2\<rparr>
       else if ar_state r \<in> {CONFLICT, EXPIRED, DENIED, CANCELLED}
       then r\<lparr>ar_state := COMPENSATED, ar_revision := ar_revision r + 1\<rparr> else r)" by (rule ext)
  ultimately show ?thesis
    using maps by (intro exI [of _ "memory.tally fin ?rs ?n"] exI [of _ st])
      (simp add: memory.tally_def memory_view_def)
qed

subsection \<open>Witnesses\<close>

definition steady_service :: "(AdmissionStore, unit) SelectionService" where
  "steady_service =
     \<lparr>ss_store = memory_backend, ss_runtime = Some steady_runtime, ss_now = steady_clock,
      ss_sleep = steady_sleep, ss_backoff = RETRY_BACKOFF_SECONDS\<rparr>"

lemma steady_service_simps [simp]:
  "ss_store steady_service = memory_backend" "ss_runtime steady_service = Some steady_runtime"
  "fst (ss_now steady_service w) = sample_now" "aware sample_now"
  by (simp_all add: steady_service_def steady_clock_def sample_now_def)

lemma steady_leaves_denial: "leaves_denial steady_runtime"
  by (simp add: leaves_denial_def never_denies_def steady_runtime_def)

lemma sample_timely: "timely steady_service sample_record" "timely steady_service reserved_record"
  by (simp_all add: timely_def sample_record_def reserved_record_def sample_now_def)

lemma sample_plans_timely: "timely_plans steady_service sample_plan"
  using sample_record_ok sample_timely by (auto simp: timely_plans_def sample_plan_def sample_record_def)

lemma reserved_store_ok: "store_inv reserved_store" "all_ok reserved_store"
  using memory.reserve_done [OF _ sample_record_ok, of sample_store sample_now reserved_record reserved_store]
    sample_reserve sample_store_ok
  by (auto simp: memory_ok_def memory_backend_def)

theorem execution_leaves_no_claim_witness:
  "case execute_with_retry steady_service sample_plan ''run''
          \<lparr>sv_store = sample_store, sv_world = (), sv_current = None\<rparr> of
     (res, st) \<Rightarrow> \<forall>i x. map_of (st_records (sv_store st)) i = Some x \<longrightarrow> \<not> active x"
  using execution_leaves_no_claim
    [OF sample_store_ok steady_service_simps(1,2) steady_leaves_denial sample_plans_timely]
  by (force simp: sample_store_def split: prod.split)

theorem compensation_settles_witness:
  "\<exists>u st. compensate_record steady_service (Some reserved_record)
      \<lparr>sv_store = reserved_store, sv_world = (), sv_current = None\<rparr> = (Inr (), st) \<and>
    map_of (st_records (sv_store st)) = (map_of (st_records reserved_store))(ar_admission_id reserved_record \<mapsto> u) \<and>
    ar_state u = COMPENSATED"
proof -
  have "ar_state reserved_record = RESERVED" "ar_revision reserved_record < 10 ^ 12 - 3"
    by (simp_all add: reserved_record_def sample_record_def)
  moreover have "map_of (st_records reserved_store) (ar_admission_id reserved_record) = Some reserved_record"
    by (simp add: reserved_store_records) (simp add: reserved_record_def sample_record_def)
  ultimately show ?thesis
    using compensation_settles [OF reserved_store_ok steady_service_simps(1) _ sample_timely(2)] by simp
qed

theorem reconcile_settles_witness:
  "\<exists>n st. reconcile_incomplete steady_service \<lparr>sv_store = reserved_store, sv_world = (), sv_current = None\<rparr> =
      (Inr n, st) \<and> rc_recovered n = 0 \<and> rc_compensated n = 0 \<and> rc_unresolved n = 0"
proof -
  have "fst (rt_execution_completed steady_runtime r w) = Inr True" for r w by (simp add: steady_runtime_def)
  moreover have "ar_revision r < 10 ^ 12 - 1" if "(i, r) \<in> set (st_records reserved_store)" for i r
    using that by (simp add: reserved_store_records reserved_record_def)
  moreover have "ar_state reserved_record = RESERVED" by (simp add: reserved_record_def)
  ultimately show ?thesis
    using reconcile_settles [OF reserved_store_ok steady_service_simps(1,2), where fin = "\<lambda>r. True" and w = "()" and c = None]
    by (fastforce simp: reserved_store_records)
qed

end
