(* ===== verification/Messages.thy ===== *)
theory Messages
  imports Hive_Types Hive_Iso Hive_Json
begin

text \<open>
  \<open>hive/messages.py\<close>: the typed message envelope, the strict parser of its wire form, and the
  reduction of a child report to metadata without its payload. Constructor arguments that the parser
  passes on unchecked are dynamic values; a payload is a JSON object.
\<close>

definition MESSAGE_TYPES :: "string list" where
  "MESSAGE_TYPES =
     [''user.intent'', ''request.classified'', ''dispatch.plan'', ''delegation.request'', ''repo.plan'',
      ''workpackage.assign'', ''assignment.intent'', ''admission.planned'', ''admission.result'',
      ''progress.report'', ''result.report'', ''decision.request'', ''decision.recorded'', ''escalation'',
      ''pause.request'', ''cancel.request'', ''completion'', ''heartbeat'']"

definition MAX_MESSAGE_BYTES :: int where "MAX_MESSAGE_BYTES = 256 * 1024"
definition MAX_TEXT :: nat where "MAX_TEXT = 4096"
definition MAX_LIST :: nat where "MAX_LIST = 128"

definition REPORT_MESSAGE_TYPES :: "string list" where
  "REPORT_MESSAGE_TYPES = [''progress.report'', ''result.report'', ''decision.request'', ''escalation'', ''completion'']"

definition REPORT_STATUSES :: "string list" where
  "REPORT_STATUSES =
     [''planned'', ''queued'', ''executing'', ''integrating'', ''completed'', ''blocked'', ''decision_required'',
      ''failed'', ''paused'', ''unknown'']"

definition msg_id :: "pyval \<Rightarrow> string \<Rightarrow> string result" where
  "msg_id v fld =
     rescue (validate_identifier v fld) (\<lambda>e. case e of HiveValidationError m \<Rightarrow> Inl (HiveMessageError m) | _ \<Rightarrow> Inl e)"

definition msg_text :: "pyval \<Rightarrow> string \<Rightarrow> nat \<Rightarrow> string result" where
  "msg_text v fld maximum =
     (case v of
        PStr s \<Rightarrow> if text_ok maximum s then Inr s else Inl (HiveMessageError (''invalid_'' @ fld))
      | _ \<Rightarrow> Inl (HiveMessageError (''invalid_'' @ fld)))"

fun msg_optional_id :: "pyval \<Rightarrow> string \<Rightarrow> string option result" where
  "msg_optional_id PNone fld = Inr None"
| "msg_optional_id v fld = and_then (msg_id v fld) (\<lambda>s. Inr (Some s))"

definition msg_texts :: "pyval \<Rightarrow> string \<Rightarrow> string list result" where
  "msg_texts v fld =
     and_then (need (py_list v) (HiveMessageError (''invalid_'' @ fld))) (\<lambda>xs.
     and_then (check (length xs \<le> MAX_LIST) (HiveMessageError (''invalid_'' @ fld))) (\<lambda>_.
       map_result (\<lambda>x. msg_text x fld 1024) xs))"

text \<open>\<open>value in {None, "not_returned"}\<close>\<close>

definition raw_output_allowed :: "pyval \<Rightarrow> bool result" where
  "raw_output_allowed v =
     (if \<not> py_hashable v then Inl TypeError else Inr (v = PNone \<or> py_eq_str v ''not_returned''))"

definition msg_mapping :: "pyval \<Rightarrow> string \<Rightarrow> (string \<times> pyval) list result" where
  "msg_mapping v fld =
     and_then (need (py_dict v) (HiveMessageError (''invalid_'' @ fld))) (\<lambda>d.
     and_then (check (json_dumpable (PDict d)) (HiveMessageError (''invalid_'' @ fld))) (\<lambda>_.
     and_then (check (json_size (PDict d) \<le> MAX_MESSAGE_BYTES) (HiveMessageError (''oversize_'' @ fld))) (\<lambda>_.
     and_then (raw_output_allowed (py_get d ''raw_output'' PNone)) (\<lambda>allowed.
     and_then (check allowed (HiveMessageError ''raw_output_not_allowed'')) (\<lambda>_. Inr d)))))"

record PrincipalReference =
  pr_principal_id :: string
  pr_class_id :: string

definition PrincipalReference_init :: "pyval \<Rightarrow> pyval \<Rightarrow> PrincipalReference result" where
  "PrincipalReference_init principal_id class_id =
     and_then (msg_id principal_id ''principal'') (\<lambda>p.
     and_then (msg_id class_id ''class'') (\<lambda>c.
       Inr \<lparr>pr_principal_id = p, pr_class_id = c\<rparr>))"

record AuthorizationEvidence =
  ev_grant_id :: string
  ev_scope_digest :: string
  ev_principal_version :: int

definition AuthorizationEvidence_init :: "pyval \<Rightarrow> pyval \<Rightarrow> pyval \<Rightarrow> AuthorizationEvidence result" where
  "AuthorizationEvidence_init grant_id digest version =
     and_then (msg_id grant_id ''grant'') (\<lambda>g.
     and_then (msg_text digest ''scope_digest'' 192) (\<lambda>d.
     and_then (need (py_int version) (HiveMessageError ''invalid_principal_version'')) (\<lambda>n.
     and_then (check (1 \<le> n) (HiveMessageError ''invalid_principal_version'')) (\<lambda>_.
       Inr \<lparr>ev_grant_id = g, ev_scope_digest = d, ev_principal_version = n\<rparr>))))"

record HiveMessage =
  hm_schema_version :: pyval
  hm_message_id :: string
  hm_correlation_id :: string
  hm_causation_id :: "string option"
  hm_message_type :: string
  hm_sender :: PrincipalReference
  hm_recipient :: PrincipalReference
  hm_repo_id :: "string option"
  hm_dispatch_id :: "string option"
  hm_workpackage_id :: "string option"
  hm_dispatch_priority :: DispatchPriority
  hm_created_at_utc :: py_datetime
  hm_expires_at_utc :: py_datetime
  hm_authorization :: AuthorizationEvidence
  hm_payload :: "(string \<times> pyval) list"

text \<open>The arguments of the constructor as the parser hands them over.\<close>

record message_args =
  ma_schema_version :: pyval
  ma_message_id :: pyval
  ma_correlation_id :: pyval
  ma_causation_id :: pyval
  ma_message_type :: pyval
  ma_sender :: PrincipalReference
  ma_recipient :: PrincipalReference
  ma_repo_id :: pyval
  ma_dispatch_id :: pyval
  ma_workpackage_id :: pyval
  ma_dispatch_priority :: DispatchPriority
  ma_created_at_utc :: py_datetime
  ma_expires_at_utc :: py_datetime
  ma_authorization :: AuthorizationEvidence
  ma_payload :: pyval

definition message_ttl_check :: "py_datetime \<Rightarrow> py_datetime \<Rightarrow> unit result" where
  "message_ttl_check created_at expires_at =
     and_then (validate_utc_datetime created_at ''message_timestamp'') (\<lambda>created.
     and_then (validate_utc_datetime expires_at ''message_expiry'') (\<lambda>expires.
     and_then (check (instant created < instant expires) (HiveMessageError ''invalid_message_expiry'')) (\<lambda>_.
       check (instant expires - instant created \<le> 24 * 60 * 60 * us_per_second)
         (HiveMessageError ''message_ttl_too_long''))))"

definition HiveMessage_init :: "message_args \<Rightarrow> HiveMessage result" where
  "HiveMessage_init a =
     and_then (check (py_eq_int (ma_schema_version a) 1) (HiveMessageError ''unsupported_message_schema'')) (\<lambda>_.
     and_then (msg_id (ma_message_id a) ''message'') (\<lambda>message_id.
     and_then (msg_id (ma_correlation_id a) ''correlation'') (\<lambda>correlation_id.
     and_then (msg_optional_id (ma_causation_id a) ''causation'') (\<lambda>causation_id.
     and_then (check (causation_id \<noteq> Some message_id) (HiveMessageError ''message_self_causation'')) (\<lambda>_.
     and_then (py_in_strs (ma_message_type a) MESSAGE_TYPES) (\<lambda>known.
     and_then (check known (HiveMessageError ''unknown_message_type'')) (\<lambda>_.
     and_then (need (py_str (ma_message_type a)) (HiveMessageError ''unknown_message_type'')) (\<lambda>message_type.
     and_then (msg_optional_id (ma_repo_id a) ''repo'') (\<lambda>repo_id.
     and_then (msg_optional_id (ma_dispatch_id a) ''dispatch'') (\<lambda>dispatch_id.
     and_then (msg_optional_id (ma_workpackage_id a) ''workpackage'') (\<lambda>workpackage_id.
     and_then (message_ttl_check (ma_created_at_utc a) (ma_expires_at_utc a)) (\<lambda>_.
     and_then (msg_mapping (ma_payload a) ''payload'') (\<lambda>payload.
       Inr \<lparr>hm_schema_version = ma_schema_version a, hm_message_id = message_id,
            hm_correlation_id = correlation_id, hm_causation_id = causation_id, hm_message_type = message_type,
            hm_sender = ma_sender a, hm_recipient = ma_recipient a, hm_repo_id = repo_id,
            hm_dispatch_id = dispatch_id, hm_workpackage_id = workpackage_id,
            hm_dispatch_priority = ma_dispatch_priority a, hm_created_at_utc = ma_created_at_utc a,
            hm_expires_at_utc = ma_expires_at_utc a, hm_authorization = ma_authorization a,
            hm_payload = payload\<rparr>)))))))))))))"

definition message_public :: "HiveMessage \<Rightarrow> (string \<times> pyval) list" where
  "message_public m =
     [(''schema_version'', hm_schema_version m), (''message_id'', PStr (hm_message_id m)),
      (''correlation_id'', PStr (hm_correlation_id m)), (''causation_id'', opt_str (hm_causation_id m)),
      (''message_type'', PStr (hm_message_type m)),
      (''sender'', PDict [(''principal_id'', PStr (pr_principal_id (hm_sender m))),
                          (''class_id'', PStr (pr_class_id (hm_sender m)))]),
      (''recipient'', PDict [(''principal_id'', PStr (pr_principal_id (hm_recipient m))),
                             (''class_id'', PStr (pr_class_id (hm_recipient m)))]),
      (''repo_id'', opt_str (hm_repo_id m)), (''dispatch_id'', opt_str (hm_dispatch_id m)),
      (''workpackage_id'', opt_str (hm_workpackage_id m)),
      (''dispatch_priority'', PStr (DispatchPriority_value (hm_dispatch_priority m))),
      (''created_at_utc'', PStr (isoformat (hm_created_at_utc m))),
      (''expires_at_utc'', PStr (isoformat (hm_expires_at_utc m))),
      (''authorization'', PDict [(''grant_id'', PStr (ev_grant_id (hm_authorization m))),
                                 (''scope_digest'', PStr (ev_scope_digest (hm_authorization m))),
                                 (''principal_version'', PInt (ev_principal_version (hm_authorization m)))]),
      (''raw_output'', PStr ''not_returned'')]"

definition msg_parse_time :: "(string \<Rightarrow> py_datetime option) \<Rightarrow> pyval \<Rightarrow> string \<Rightarrow> py_datetime result" where
  "msg_parse_time other v fld =
     (case v of
        PStr s \<Rightarrow>
          if 1 \<le> length s \<and> length s \<le> 40
          then rescue (and_then (need (parse_iso other s) ValueError) (\<lambda>parsed. validate_utc_datetime parsed fld))
                 (\<lambda>_. Inl (HiveMessageError (''invalid_'' @ fld)))
          else Inl (HiveMessageError (''invalid_'' @ fld))
      | _ \<Rightarrow> Inl (HiveMessageError (''invalid_'' @ fld)))"

text \<open>A mapping with exactly the given keys.\<close>

definition exact_mapping :: "pyval \<Rightarrow> string list \<Rightarrow> string \<Rightarrow> (string \<times> pyval) list result" where
  "exact_mapping v ks code =
     (case v of
        PDict d \<Rightarrow>
          if list_all (\<lambda>k. k \<in> set ks) (map fst d) \<and> list_all (\<lambda>k. k \<in> set (map fst d)) ks then Inr d
          else Inl (HiveMessageError code)
      | _ \<Rightarrow> Inl (HiveMessageError code))"

definition MESSAGE_FIELDS :: "string list" where
  "MESSAGE_FIELDS =
     [''schema_version'', ''message_id'', ''correlation_id'', ''causation_id'', ''message_type'', ''sender'',
      ''recipient'', ''repo_id'', ''dispatch_id'', ''workpackage_id'', ''dispatch_priority'', ''created_at_utc'',
      ''expires_at_utc'', ''authorization'', ''payload'', ''raw_output'']"

definition message_reference :: "(string \<times> pyval) list \<Rightarrow> PrincipalReference result" where
  "message_reference d =
     and_then (py_item d ''principal_id'') (\<lambda>p.
     and_then (py_item d ''class_id'') (\<lambda>c. PrincipalReference_init p c))"

definition message_evidence :: "(string \<times> pyval) list \<Rightarrow> AuthorizationEvidence result" where
  "message_evidence d =
     and_then (py_item d ''grant_id'') (\<lambda>g.
     and_then (py_item d ''scope_digest'') (\<lambda>s.
     and_then (py_item d ''principal_version'') (\<lambda>v. AuthorizationEvidence_init g s v)))"

definition parse_message ::
  "(string \<Rightarrow> py_datetime option) \<Rightarrow> (string \<times> pyval) list \<Rightarrow> HiveMessage result" where
  "parse_message other d =
     and_then (py_item d ''sender'') (\<lambda>sender_raw.
     and_then (py_item d ''recipient'') (\<lambda>recipient_raw.
     and_then (py_item d ''authorization'') (\<lambda>auth_raw.
     and_then (exact_mapping sender_raw [''principal_id'', ''class_id''] ''invalid_message_sender'') (\<lambda>sender.
     and_then (exact_mapping recipient_raw [''principal_id'', ''class_id''] ''invalid_message_recipient'') (\<lambda>recipient.
     and_then (exact_mapping auth_raw [''grant_id'', ''scope_digest'', ''principal_version''] ''invalid_authorization'') (\<lambda>auth.
     and_then (py_item d ''created_at_utc'') (\<lambda>created_raw.
     and_then (msg_parse_time other created_raw ''message_timestamp'') (\<lambda>created.
     and_then (py_item d ''expires_at_utc'') (\<lambda>expires_raw.
     and_then (msg_parse_time other expires_raw ''message_expiry'') (\<lambda>expires.
     and_then (py_item d ''schema_version'') (\<lambda>schema_version.
     and_then (py_item d ''message_id'') (\<lambda>message_id.
     and_then (py_item d ''correlation_id'') (\<lambda>correlation_id.
     and_then (py_item d ''message_type'') (\<lambda>message_type.
     and_then (message_reference sender) (\<lambda>sender.
     and_then (message_reference recipient) (\<lambda>recipient.
     and_then (py_item d ''dispatch_priority'') (\<lambda>priority_raw.
     and_then (DispatchPriority_of priority_raw) (\<lambda>priority.
     and_then (message_evidence auth) (\<lambda>evidence.
     and_then (msg_mapping (py_get d ''payload'' (PDict [])) ''payload'') (\<lambda>payload.
       HiveMessage_init
         \<lparr>ma_schema_version = schema_version, ma_message_id = message_id, ma_correlation_id = correlation_id,
          ma_causation_id = py_get d ''causation_id'' PNone, ma_message_type = message_type,
          ma_sender = sender, ma_recipient = recipient, ma_repo_id = py_get d ''repo_id'' PNone,
          ma_dispatch_id = py_get d ''dispatch_id'' PNone, ma_workpackage_id = py_get d ''workpackage_id'' PNone,
          ma_dispatch_priority = priority, ma_created_at_utc = created, ma_expires_at_utc = expires,
          ma_authorization = evidence, ma_payload = PDict payload\<rparr>))))))))))))))))))))"

definition validate_message :: "(string \<Rightarrow> py_datetime option) \<Rightarrow> pyval \<Rightarrow> HiveMessage result" where
  "validate_message other v =
     and_then (need (py_dict v) (HiveMessageError ''invalid_message'')) (\<lambda>d.
     and_then (check (list_all (\<lambda>k. k \<in> set MESSAGE_FIELDS) (map fst d))
                 (HiveMessageError ''invalid_message_fields'')) (\<lambda>_.
     and_then (raw_output_allowed (py_get d ''raw_output'' PNone)) (\<lambda>allowed.
     and_then (check allowed (HiveMessageError ''invalid_message_fields'')) (\<lambda>_.
       rescue (parse_message other d)
         (\<lambda>e. case e of HiveMessageError m \<Rightarrow> Inl e | _ \<Rightarrow> Inl (HiveMessageError ''invalid_message''))))))"

definition report_status :: "HiveMessage \<Rightarrow> string" where
  "report_status m =
     (case py_get (hm_payload m) ''status'' PNone of
        PStr s \<Rightarrow>
          if s \<in> set REPORT_STATUSES \<and> s \<noteq> ''unknown'' then s
          else if hm_message_type m = ''escalation'' then ''blocked''
          else if hm_message_type m = ''decision.request'' then ''decision_required''
          else if hm_message_type m = ''result.report'' \<or> hm_message_type m = ''completion'' then ''completed''
          else if hm_message_type m = ''progress.report'' then ''executing'' else ''unknown''
      | _ \<Rightarrow>
          if hm_message_type m = ''escalation'' then ''blocked''
          else if hm_message_type m = ''decision.request'' then ''decision_required''
          else if hm_message_type m = ''result.report'' \<or> hm_message_type m = ''completion'' then ''completed''
          else if hm_message_type m = ''progress.report'' then ''executing'' else ''unknown'')"

text \<open>\<open>canonical\<close> is the sorted, compact JSON text of an object.\<close>

definition record_child_report ::
  "(string \<Rightarrow> string) \<Rightarrow> (pyval \<Rightarrow> string) \<Rightarrow> HiveMessage \<Rightarrow> (string \<times> pyval) list result" where
  "record_child_report sha256 canonical m =
     (if hm_message_type m \<notin> set REPORT_MESSAGE_TYPES then Inl (HiveMessageError ''invalid_child_report'')
      else let status = report_status m in
        Inr [(''message_id'', PStr (hm_message_id m)), (''message_type'', PStr (hm_message_type m)),
             (''report_kind'', PStr (map (\<lambda>c. if c = CHR ''.'' then CHR ''_'' else c)
                                       (removesuffix ''.report'' (hm_message_type m)))),
             (''correlation_id'', PStr (hm_correlation_id m)), (''causation_id'', opt_str (hm_causation_id m)),
             (''sender_principal_id'', PStr (pr_principal_id (hm_sender m))),
             (''recipient_principal_id'', PStr (pr_principal_id (hm_recipient m))),
             (''repo_id'', opt_str (hm_repo_id m)), (''dispatch_id'', opt_str (hm_dispatch_id m)),
             (''workpackage_id'', opt_str (hm_workpackage_id m)), (''status'', PStr status),
             (''blocked'', PBool (status \<in> {''blocked'', ''failed'', ''decision_required''} \<or>
                                 hm_message_type m = ''escalation'')),
             (''payload_digest'', PStr (''sha256:'' @ sha256 (canonical (PDict (hm_payload m))))),
             (''raw_output'', PStr ''not_returned'')])"


subsection \<open>Accepted messages\<close>

lemma msg_id_Inr [result_simps]: "msg_id v fld = Inr s \<longleftrightarrow> v = PStr s \<and> identifier_re s"
  by (cases v) (auto simp: msg_id_def)

lemma msg_text_Inr [result_simps]: "msg_text v fld n = Inr s \<longleftrightarrow> v = PStr s \<and> text_ok n s"
  by (cases v) (auto simp: msg_text_def)

lemma opt_str_inject [simp]: "opt_str x = opt_str y \<longleftrightarrow> x = y"
  by (cases x; cases y) auto

lemma msg_optional_id_Inr [result_simps]:
  "msg_optional_id v fld = Inr x \<longleftrightarrow> v = opt_str x \<and> (\<forall>s. x = Some s \<longrightarrow> identifier_re s)"
  by (cases v; cases x) (auto simp: result_simps)

lemma msg_mapping_Inr [result_simps]:
  "msg_mapping v fld = Inr d \<longleftrightarrow> v = PDict d \<and> json_dumpable v \<and> json_size v \<le> MAX_MESSAGE_BYTES \<and>
     raw_output_allowed (py_get d ''raw_output'' PNone) = Inr True"
  by (cases v) (auto simp: msg_mapping_def result_simps)

definition args_of :: "HiveMessage \<Rightarrow> message_args" where
  "args_of m =
     \<lparr>ma_schema_version = hm_schema_version m, ma_message_id = PStr (hm_message_id m),
      ma_correlation_id = PStr (hm_correlation_id m), ma_causation_id = opt_str (hm_causation_id m),
      ma_message_type = PStr (hm_message_type m), ma_sender = hm_sender m, ma_recipient = hm_recipient m,
      ma_repo_id = opt_str (hm_repo_id m), ma_dispatch_id = opt_str (hm_dispatch_id m),
      ma_workpackage_id = opt_str (hm_workpackage_id m), ma_dispatch_priority = hm_dispatch_priority m,
      ma_created_at_utc = hm_created_at_utc m, ma_expires_at_utc = hm_expires_at_utc m,
      ma_authorization = hm_authorization m, ma_payload = PDict (hm_payload m)\<rparr>"

lemma HiveMessage_init_args: "HiveMessage_init a = Inr m \<Longrightarrow> a = args_of m"
  by (cases a) (auto simp: HiveMessage_init_def args_of_def and_then_eq_Inr check_eq_Inr need_Inr
      msg_id_Inr msg_optional_id_Inr msg_mapping_Inr py_str_Some)

definition reference_wf :: "PrincipalReference \<Rightarrow> bool" where
  "reference_wf r = (identifier_re (pr_principal_id r) \<and> identifier_re (pr_class_id r))"

definition evidence_wf :: "AuthorizationEvidence \<Rightarrow> bool" where
  "evidence_wf e = (identifier_re (ev_grant_id e) \<and> text_ok 192 (ev_scope_digest e) \<and> 1 \<le> ev_principal_version e)"

text \<open>A time in UTC within the supported range.\<close>

definition utc_time :: "py_datetime \<Rightarrow> bool" where
  "utc_time t = (utc_offset_us t = Some 0 \<and> 0 \<le> local_us t \<and> local_us t < max_us)"

definition message_wf :: "HiveMessage \<Rightarrow> bool" where
  "message_wf m =
     (HiveMessage_init (args_of m) = Inr m \<and> reference_wf (hm_sender m) \<and> reference_wf (hm_recipient m) \<and>
      evidence_wf (hm_authorization m) \<and> utc_time (hm_created_at_utc m) \<and> utc_time (hm_expires_at_utc m))"

lemma msg_parse_time_utc: "msg_parse_time other v fld = Inr t \<Longrightarrow> utc_time t"
  by (cases v) (auto simp: msg_parse_time_def rescue_eq_Inr and_then_eq_Inr validate_utc_datetime_def as_utc_def
      utc_time_def split: if_splits sum.splits)

lemma message_reference_wf: "message_reference d = Inr r \<Longrightarrow> reference_wf r"
  by (auto simp: message_reference_def PrincipalReference_init_def reference_wf_def and_then_eq_Inr msg_id_Inr)

lemma message_evidence_wf: "message_evidence d = Inr e \<Longrightarrow> evidence_wf e"
  by (auto simp: message_evidence_def AuthorizationEvidence_init_def evidence_wf_def and_then_eq_Inr msg_id_Inr
      msg_text_Inr check_eq_Inr)

lemma rescue_message: "rescue x (\<lambda>e. case e of HiveMessageError m \<Rightarrow> Inl e | _ \<Rightarrow> Inl e') = Inr y \<longleftrightarrow> x = Inr y"
proof (cases x)
  case (Inl e)
  then show ?thesis by (cases e) simp_all
qed simp

lemma validate_message_Inr:
  "validate_message other v = Inr m \<longleftrightarrow>
     (\<exists>d. v = PDict d \<and> fst ` set d \<subseteq> set MESSAGE_FIELDS \<and>
        raw_output_allowed (py_get d ''raw_output'' PNone) = Inr True \<and> parse_message other d = Inr m)"
  unfolding validate_message_def and_then_eq_Inr check_eq_Inr rescue_message need_Inr
  by (cases v) (auto simp: list_all_iff)

lemma parse_message_wf:
  assumes "parse_message other d = Inr m"
  shows "message_wf m"
proof -
  obtain a s r e t u where init: "HiveMessage_init a = Inr m"
      and parts: "message_reference s = Inr (ma_sender a)" "message_reference r = Inr (ma_recipient a)"
        "message_evidence e = Inr (ma_authorization a)"
        "msg_parse_time other t ''message_timestamp'' = Inr (ma_created_at_utc a)"
        "msg_parse_time other u ''message_expiry'' = Inr (ma_expires_at_utc a)"
    using assms unfolding parse_message_def and_then_eq_Inr by fastforce
  have a: "a = args_of m" using HiveMessage_init_args [OF init] .
  show ?thesis
    using init parts message_reference_wf message_evidence_wf msg_parse_time_utc
    unfolding message_wf_def a by (auto simp: args_of_def)
qed

lemma utc_isoformat:
  assumes "utc_time t"
  shows "1 \<le> length (isoformat t) \<and> length (isoformat t) \<le> 40" "dt_valid t"
    "validate_utc_datetime t fld = Inr t"
proof -
  have "length (offset_text 0) = 5" by (simp add: offset_text_def time_text_def us_nat_def)
  then show "1 \<le> length (isoformat t) \<and> length (isoformat t) \<le> 40"
    using assms by (auto simp: isoformat_def Let_def utc_time_def time_text_def fraction_text_def split: prod.splits)
  show "dt_valid t" using assms by (simp add: utc_time_def dt_valid_def time_consts)
  show "validate_utc_datetime t fld = Inr t"
    using assms by (cases t) (simp add: utc_time_def validate_utc_datetime_def aware_def as_utc_def instant_def)
qed

lemma msg_parse_time_utc_text: "utc_time t \<Longrightarrow> msg_parse_time other (PStr (isoformat t)) fld = Inr t"
  using utc_isoformat [of t] by (simp add: msg_parse_time_def)

lemma message_reference_text:
  "reference_wf r \<Longrightarrow> message_reference [(''principal_id'', PStr (pr_principal_id r)), (''class_id'', PStr (pr_class_id r))] = Inr r"
  by (simp add: message_reference_def py_item_def PrincipalReference_init_def reference_wf_def msg_id_def)

lemma message_evidence_text:
  "evidence_wf e \<Longrightarrow> message_evidence [(''grant_id'', PStr (ev_grant_id e)), (''scope_digest'', PStr (ev_scope_digest e)),
     (''principal_version'', PInt (ev_principal_version e))] = Inr e"
  by (simp add: message_evidence_def py_item_def AuthorizationEvidence_init_def evidence_wf_def msg_id_def msg_text_def)

lemma payload_accepted: "message_wf m \<Longrightarrow> msg_mapping (PDict (hm_payload m)) ''payload'' = Inr (hm_payload m)"
proof -
  assume "message_wf m"
  then obtain p where "msg_mapping (PDict (hm_payload m)) ''payload'' = Inr p"
    unfolding message_wf_def HiveMessage_init_def and_then_eq_Inr args_of_def by auto
  moreover from this have "p = hm_payload m" by (simp add: msg_mapping_Inr)
  ultimately show ?thesis by simp
qed

lemma parse_public:
  assumes "message_wf m"
  shows "parse_message other (message_public m @ [(''payload'', PDict (hm_payload m))]) = Inr m"
proof -
  have exact: "exact_mapping (PDict [(''principal_id'', x), (''class_id'', y)]) [''principal_id'', ''class_id''] c =
      Inr [(''principal_id'', x), (''class_id'', y)]" for x y c
    by (simp add: exact_mapping_def)
  have exact3: "exact_mapping (PDict [(''grant_id'', x), (''scope_digest'', y), (''principal_version'', z)])
      [''grant_id'', ''scope_digest'', ''principal_version''] c =
      Inr [(''grant_id'', x), (''scope_digest'', y), (''principal_version'', z)]" for x y z c
    by (simp add: exact_mapping_def)
  show ?thesis
    using assms payload_accepted [OF assms]
    by (simp add: parse_message_def message_public_def py_item_def py_get_def exact exact3 message_wf_def
        message_reference_text message_evidence_text msg_parse_time_utc_text args_of_def)
qed

text \<open>
  C33. A message that is accepted can be sent on: its public envelope together with its payload is
  accepted again, by any reader, as the same message field by field, its times to the microsecond.
\<close>

theorem message_roundtrip:
  assumes "validate_message other v = Inr m"
  shows "validate_message other' (PDict (message_public m @ [(''payload'', PDict (hm_payload m))])) = Inr m"
proof -
  have wf: "message_wf m" using assms parse_message_wf by (auto simp: validate_message_Inr)
  have "fst ` set (message_public m @ [(''payload'', PDict (hm_payload m))]) \<subseteq> set MESSAGE_FIELDS"
    by (simp add: message_public_def MESSAGE_FIELDS_def)
  moreover have "raw_output_allowed (py_get (message_public m @ [(''payload'', PDict (hm_payload m))]) ''raw_output'' PNone) = Inr True"
    by (simp add: message_public_def py_get_def raw_output_allowed_def)
  ultimately show ?thesis using parse_public [OF wf] unfolding validate_message_Inr by blast
qed

text \<open>
  C37. What an accepted message guarantees its receiver: a known type, no message that causes itself,
  a life of more than nothing and at most a day, valid identifiers for both principals and the
  grant, and a payload of bounded size that carries no raw output.
\<close>

theorem accepted_message_bounded:
  assumes "validate_message other v = Inr m"
  shows "hm_message_type m \<in> set MESSAGE_TYPES \<and> hm_causation_id m \<noteq> Some (hm_message_id m) \<and>
    instant (hm_created_at_utc m) < instant (hm_expires_at_utc m) \<and>
    instant (hm_expires_at_utc m) \<le> instant (hm_created_at_utc m) + 86400 * us_per_second \<and>
    list_all identifier_re [hm_message_id m, hm_correlation_id m, pr_principal_id (hm_sender m),
      pr_principal_id (hm_recipient m), ev_grant_id (hm_authorization m)] \<and>
    json_size (PDict (hm_payload m)) \<le> 262144 \<and>
    map_of (hm_payload m) ''raw_output'' \<in> {None, Some PNone, Some (PStr ''not_returned'')}"
proof -
  have wf: "message_wf m" using assms parse_message_wf by (auto simp: validate_message_Inr)
  then have init: "HiveMessage_init (args_of m) = Inr m" by (simp add: message_wf_def)
  have "hm_message_type m \<in> set MESSAGE_TYPES" "hm_causation_id m \<noteq> Some (hm_message_id m)"
      "identifier_re (hm_message_id m)" "identifier_re (hm_correlation_id m)"
    and ttl: "message_ttl_check (hm_created_at_utc m) (hm_expires_at_utc m) = Inr ()"
    using init by (auto simp: HiveMessage_init_def args_of_def and_then_eq_Inr check_eq_Inr msg_id_Inr
        msg_optional_id_Inr py_in_strs_def list_ex_iff py_eq_str_iff)
  moreover have "instant (hm_created_at_utc m) < instant (hm_expires_at_utc m)"
      "instant (hm_expires_at_utc m) \<le> instant (hm_created_at_utc m) + 86400 * us_per_second"
    using ttl validate_utc_datetime_Inr by (fastforce simp: message_ttl_check_def and_then_eq_Inr check_eq_Inr)+
  moreover have "json_size (PDict (hm_payload m)) \<le> 262144"
      "map_of (hm_payload m) ''raw_output'' \<in> {None, Some PNone, Some (PStr ''not_returned'')}"
    using payload_accepted [OF wf]
    by (auto simp: msg_mapping_Inr MAX_MESSAGE_BYTES_def raw_output_allowed_def py_get_def py_eq_str_iff
        split: option.splits if_splits)
  ultimately show ?thesis using wf by (simp add: message_wf_def reference_wf_def evidence_wf_def)
qed

definition sample_message :: HiveMessage where
  "sample_message =
     \<lparr>hm_schema_version = PInt 1, hm_message_id = ''m'', hm_correlation_id = ''c'', hm_causation_id = None,
      hm_message_type = ''progress.report'', hm_sender = \<lparr>pr_principal_id = ''queen-1'', pr_class_id = ''queen''\<rparr>,
      hm_recipient = \<lparr>pr_principal_id = ''godbee-main'', pr_class_id = ''godbee''\<rparr>, hm_repo_id = None,
      hm_dispatch_id = None, hm_workpackage_id = Some ''w'', hm_dispatch_priority = DP1,
      hm_created_at_utc = utc_at 1, hm_expires_at_utc = utc_at 9,
      hm_authorization = \<lparr>ev_grant_id = ''g'', ev_scope_digest = ''d'', ev_principal_version = 1\<rparr>,
      hm_payload = [(''checkpoint'', PBool True), (''checkpoint_state'', PStr ''safe''),
        (''pause_requested'', PBool True), (''status'', PStr ''paused'')]\<rparr>"

definition sample_wire :: pyval where
  "sample_wire = PDict (message_public sample_message @ [(''payload'', PDict (hm_payload sample_message))])"

lemma sample_message_wf: "message_wf sample_message"
  by code_simp

lemma sample_parsed: "validate_message (\<lambda>_. None) sample_wire = Inr sample_message"
proof -
  have "validate_message (\<lambda>_. None) sample_wire =
      rescue (parse_message (\<lambda>_. None) (message_public sample_message @ [(''payload'', PDict (hm_payload sample_message))]))
        (\<lambda>e. case e of HiveMessageError m \<Rightarrow> Inl e | _ \<Rightarrow> Inl (HiveMessageError ''invalid_message''))"
    by (simp add: validate_message_def sample_wire_def message_public_def MESSAGE_FIELDS_def py_get_def
        raw_output_allowed_def)
  then show ?thesis by (simp only: parse_public [OF sample_message_wf] rescue.simps)
qed

theorem message_roundtrip_witness:
  "validate_message (\<lambda>_. Some (utc_at 1))
     (PDict (message_public sample_message @ [(''payload'', PDict (hm_payload sample_message))])) = Inr sample_message"
  by (rule message_roundtrip [OF sample_parsed])

theorem accepted_message_bounded_witness:
  "instant (utc_at 1) < instant (utc_at 9) \<and> ''progress.report'' \<in> set MESSAGE_TYPES"
  using accepted_message_bounded [OF sample_parsed] by (simp add: sample_message_def)

end
