(* ===== verification/Dispatch.thy ===== *)
theory Dispatch
  imports Messages "HOL-Library.List_Lexorder" "HOL-Library.Char_ord"
begin

text \<open>
  \<open>hive/dispatch.py\<close>, the data and the state machines: requests, repository dispatches, work
  packages, their transition tables and the versioned transitions. The optional callbacks of a saga
  and the saga itself are in \<open>Dispatch_Saga\<close>.
\<close>

type_synonym transition_table = "(string \<times> string list) list"

definition REQUEST_STATES :: "string list" where
  "REQUEST_STATES =
     [''received'', ''classified'', ''planned'', ''gated'', ''delegated'', ''executing'', ''integrating'',
      ''completed'', ''blocked'', ''cancelled'', ''failed'', ''compensating'', ''partially_completed'']"

definition DISPATCH_STATES :: "string list" where
  "DISPATCH_STATES =
     [''planned'', ''queen_accepted'', ''workpackages_ready'', ''queued'', ''executing'', ''integrating'',
      ''reporting'', ''completed'', ''decision_required'', ''blocked'', ''cooperative_pause_requested'',
      ''paused'', ''failed'', ''compensating'', ''failed_final'']"

definition WORKPACKAGE_STATES :: "string list" where
  "WORKPACKAGE_STATES =
     [''planned'', ''ready'', ''queued'', ''admission_planned'', ''conflict'', ''admitted'', ''executing'',
      ''integrating'', ''completed'', ''blocked'', ''decision_required'', ''failed'', ''compensating'',
      ''failed_final'', ''paused'']"

definition REQUEST_TRANSITIONS :: transition_table where
  "REQUEST_TRANSITIONS =
     [(''received'', [''classified'', ''cancelled'', ''failed'']),
      (''classified'', [''planned'', ''cancelled'', ''failed'']),
      (''planned'', [''gated'', ''cancelled'', ''failed'']),
      (''gated'', [''delegated'', ''blocked'', ''cancelled'', ''failed'']),
      (''delegated'', [''executing'', ''blocked'', ''cancelled'', ''failed'']),
      (''executing'', [''integrating'', ''blocked'', ''failed'', ''compensating'', ''cancelled'']),
      (''integrating'', [''completed'', ''partially_completed'', ''failed'']),
      (''blocked'', [''executing'', ''cancelled'']),
      (''failed'', [''compensating'', ''partially_completed'']),
      (''compensating'', [''partially_completed'', ''failed''])]"

definition DISPATCH_TRANSITIONS :: transition_table where
  "DISPATCH_TRANSITIONS =
     [(''planned'', [''queen_accepted'', ''blocked'', ''failed'']),
      (''queen_accepted'', [''workpackages_ready'', ''blocked'', ''failed'']),
      (''workpackages_ready'', [''queued'', ''blocked'', ''failed'']),
      (''queued'', [''executing'', ''blocked'', ''cooperative_pause_requested'', ''failed'']),
      (''executing'', [''integrating'', ''decision_required'', ''blocked'', ''cooperative_pause_requested'',
        ''failed'', ''compensating'']),
      (''integrating'', [''reporting'', ''failed'']),
      (''reporting'', [''completed'', ''failed'', ''compensating'']),
      (''decision_required'', [''executing'', ''blocked'', ''failed'']),
      (''blocked'', [''queued'', ''failed'', ''compensating'']),
      (''cooperative_pause_requested'', [''paused'', ''failed'']),
      (''paused'', [''queued'', ''failed'']),
      (''failed'', [''compensating'', ''failed_final'']),
      (''compensating'', [''failed_final'', ''failed''])]"

definition WORKPACKAGE_TRANSITIONS :: transition_table where
  "WORKPACKAGE_TRANSITIONS =
     [(''planned'', [''ready'', ''blocked'', ''failed'']),
      (''ready'', [''queued'', ''blocked'', ''failed'']),
      (''queued'', [''admission_planned'', ''blocked'', ''failed'', ''paused'']),
      (''admission_planned'', [''admitted'', ''conflict'', ''queued'', ''failed'']),
      (''conflict'', [''queued'', ''failed'']),
      (''admitted'', [''executing'', ''conflict'', ''failed'']),
      (''executing'', [''integrating'', ''blocked'', ''decision_required'', ''failed'', ''paused'', ''compensating'']),
      (''integrating'', [''completed'', ''failed'']),
      (''blocked'', [''queued'', ''failed'']),
      (''decision_required'', [''executing'', ''blocked'', ''failed'']),
      (''failed'', [''compensating'', ''failed_final'']),
      (''compensating'', [''failed_final'', ''failed'']),
      (''paused'', [''queued'', ''failed''])]"

text \<open>\<open>transitions.get(current, set())\<close>\<close>

definition successors :: "transition_table \<Rightarrow> string \<Rightarrow> string list" where
  "successors table state = (case map_of table state of None \<Rightarrow> [] | Some ts \<Rightarrow> ts)"

definition dispatch_version :: "int \<Rightarrow> unit result" where
  "dispatch_version v = check (1 \<le> v \<and> v \<le> 10 ^ 12) (HiveDispatchError ''invalid_dispatch_version'')"

definition dispatch_state :: "string \<Rightarrow> string list \<Rightarrow> string \<Rightarrow> unit result" where
  "dispatch_state v allowed fld = check (v \<in> set allowed) (HiveDispatchError (''invalid_'' @ fld @ ''_state''))"

definition mapping_safe :: "(string \<times> pyval) list \<Rightarrow> string \<Rightarrow> (string \<times> pyval) list result" where
  "mapping_safe d fld =
     rescue (msg_mapping (PDict d) fld)
       (\<lambda>e. case e of HiveMessageError m \<Rightarrow> Inl (HiveDispatchError m) | _ \<Rightarrow> Inl e)"

definition dispatch_time :: "py_datetime \<Rightarrow> string \<Rightarrow> py_datetime result" where
  "dispatch_time d fld =
     rescue (validate_utc_datetime d fld)
       (\<lambda>e. case e of HiveValidationError m \<Rightarrow> Inl (HiveDispatchError m) | _ \<Rightarrow> Inl e)"

text \<open>The checks of \<open>messages.py\<close> on values of the annotated types.\<close>

definition str_id :: "string \<Rightarrow> string \<Rightarrow> unit result" where
  "str_id s fld = and_then (msg_id (PStr s) fld) (\<lambda>_. Inr ())"

definition str_text :: "string \<Rightarrow> string \<Rightarrow> nat \<Rightarrow> unit result" where
  "str_text s fld maximum = and_then (msg_text (PStr s) fld maximum) (\<lambda>_. Inr ())"

definition str_texts :: "string list \<Rightarrow> string \<Rightarrow> unit result" where
  "str_texts xs fld = and_then (msg_texts (PList (map PStr xs)) fld) (\<lambda>_. Inr ())"

definition str_ids :: "string list \<Rightarrow> string \<Rightarrow> unit result" where
  "str_ids xs fld = and_then (map_result (\<lambda>s. str_id s fld) xs) (\<lambda>_. Inr ())"

fun named_ids :: "(string \<times> string) list \<Rightarrow> unit result" where
  "named_ids [] = Inr ()"
| "named_ids ((s, fld) # rest) = and_then (str_id s fld) (\<lambda>_. named_ids rest)"

definition opt_time :: "py_datetime option \<Rightarrow> string \<Rightarrow> unit result" where
  "opt_time t fld = (case t of None \<Rightarrow> Inr () | Some d \<Rightarrow> and_then (dispatch_time d fld) (\<lambda>_. Inr ()))"

record GlobalRequest =
  gr_request_id :: string
  gr_objective :: string
  gr_success_criteria :: "string list"
  gr_constraints :: "string list"
  gr_non_goals :: "string list"
  gr_requested_by :: string
  gr_repositories_requested :: "string list"
  gr_repositories_resolved :: "string list"
  gr_dispatch_priority :: DispatchPriority
  gr_user_gates :: "string list"
  gr_created_at_utc :: py_datetime
  gr_state :: string
  gr_version :: int

definition GlobalRequest_init :: "GlobalRequest \<Rightarrow> GlobalRequest result" where
  "GlobalRequest_init r =
     and_then (str_id (gr_request_id r) ''request'') (\<lambda>_.
     and_then (str_text (gr_objective r) ''objective'' MAX_TEXT) (\<lambda>_.
     and_then (str_texts (gr_success_criteria r) ''success_criteria'') (\<lambda>_.
     and_then (str_texts (gr_constraints r) ''constraints'') (\<lambda>_.
     and_then (str_texts (gr_non_goals r) ''non_goals'') (\<lambda>_.
     and_then (str_id (gr_requested_by r) ''requested_by'') (\<lambda>_.
     and_then (str_ids (gr_repositories_requested r @ gr_repositories_resolved r) ''repo'') (\<lambda>_.
     and_then (str_texts (gr_user_gates r) ''user_gates'') (\<lambda>_.
     and_then (dispatch_time (gr_created_at_utc r) ''request_timestamp'') (\<lambda>_.
     and_then (dispatch_state (gr_state r) REQUEST_STATES ''request'') (\<lambda>_.
     and_then (dispatch_version (gr_version r)) (\<lambda>_. Inr r)))))))))))"

record RepoDispatch =
  rd_dispatch_id :: string
  rd_request_id :: string
  rd_repo_id :: string
  rd_queen_principal_id :: string
  rd_objective :: string
  rd_success_criteria :: "string list"
  rd_constraints :: "string list"
  rd_dispatch_priority :: DispatchPriority
  rd_effective_priority :: DispatchPriority
  rd_deadline_at_utc :: "py_datetime option"
  rd_depends_on_dispatch_ids :: "string list"
  rd_budget :: "(string \<times> pyval) list"
  rd_state :: string
  rd_version :: int

definition RepoDispatch_init :: "RepoDispatch \<Rightarrow> RepoDispatch result" where
  "RepoDispatch_init r =
     and_then (named_ids [(rd_dispatch_id r, ''dispatch''), (rd_request_id r, ''request''),
       (rd_repo_id r, ''repo''), (rd_queen_principal_id r, ''queen'')]) (\<lambda>_.
     and_then (str_text (rd_objective r) ''objective'' MAX_TEXT) (\<lambda>_.
     and_then (str_texts (rd_success_criteria r) ''success_criteria'') (\<lambda>_.
     and_then (str_texts (rd_constraints r) ''constraints'') (\<lambda>_.
     and_then (opt_time (rd_deadline_at_utc r) ''deadline'') (\<lambda>_.
     and_then (check (length (rd_depends_on_dispatch_ids r) \<le> MAX_LIST)
                 (HiveDispatchError ''invalid_dispatch_dependencies'')) (\<lambda>_.
     and_then (str_ids (rd_depends_on_dispatch_ids r) ''dispatch_dependency'') (\<lambda>_.
     and_then (mapping_safe (rd_budget r) ''budget'') (\<lambda>_.
     and_then (dispatch_state (rd_state r) DISPATCH_STATES ''dispatch'') (\<lambda>_.
     and_then (dispatch_version (rd_version r)) (\<lambda>_. Inr r))))))))))"

record WorkPackage =
  wp_workpackage_id :: string
  wp_dispatch_id :: string
  wp_owner_teamlead_principal_id :: string
  wp_objective :: string
  wp_scope :: "string list"
  wp_write_paths :: "string list"
  wp_success_criteria :: "string list"
  wp_test_requirements :: "string list"
  wp_release_policy :: string
  wp_depends_on_workpackage_ids :: "string list"
  wp_resource_profile :: "(string \<times> pyval) list"
  wp_state :: string
  wp_ready_since_utc :: "py_datetime option"
  wp_version :: int

definition WorkPackage_init :: "WorkPackage \<Rightarrow> WorkPackage result" where
  "WorkPackage_init w =
     and_then (named_ids [(wp_workpackage_id w, ''workpackage''), (wp_dispatch_id w, ''dispatch''),
       (wp_owner_teamlead_principal_id w, ''teamlead'')]) (\<lambda>_.
     and_then (str_text (wp_objective w) ''objective'' MAX_TEXT) (\<lambda>_.
     and_then (str_texts (wp_scope w) ''scope'') (\<lambda>_.
     and_then (str_texts (wp_write_paths w) ''write_paths'') (\<lambda>_.
     and_then (str_texts (wp_success_criteria w) ''success_criteria'') (\<lambda>_.
     and_then (str_texts (wp_test_requirements w) ''test_requirements'') (\<lambda>_.
     and_then (str_text (wp_release_policy w) ''release_policy'' 128) (\<lambda>_.
     and_then (check (length (wp_depends_on_workpackage_ids w) \<le> MAX_LIST)
                 (HiveDispatchError ''invalid_workpackage_dependencies'')) (\<lambda>_.
     and_then (str_ids (wp_depends_on_workpackage_ids w) ''workpackage_dependency'') (\<lambda>_.
     and_then (mapping_safe (wp_resource_profile w) ''resource_profile'') (\<lambda>_.
     and_then (dispatch_state (wp_state w) WORKPACKAGE_STATES ''workpackage'') (\<lambda>_.
     and_then (opt_time (wp_ready_since_utc w) ''ready_timestamp'') (\<lambda>_.
     and_then (dispatch_version (wp_version w)) (\<lambda>_. Inr w)))))))))))))"

record AssignmentIntent =
  ai_assignment_intent_id :: string
  ai_request_id :: string
  ai_dispatch_id :: string
  ai_workpackage_id :: string
  ai_repo_id :: string
  ai_parent_principal_id :: string
  ai_grant_id :: string
  ai_class_id :: string
  ai_dispatch_priority :: DispatchPriority
  ai_task_complexity :: TaskComplexity
  ai_model_policy_constraints :: "(string \<times> pyval) list"
  ai_scope_reservation_request :: "(string \<times> pyval) list"
  ai_expected_usage_bucket :: string
  ai_decision_refs :: "string list"
  ai_context_digest :: string

definition AssignmentIntent_init :: "AssignmentIntent \<Rightarrow> AssignmentIntent result" where
  "AssignmentIntent_init a =
     and_then (named_ids [(ai_assignment_intent_id a, ''assignment_intent''), (ai_request_id a, ''request''),
       (ai_dispatch_id a, ''dispatch''), (ai_workpackage_id a, ''workpackage''), (ai_repo_id a, ''repo''),
       (ai_parent_principal_id a, ''parent_principal''), (ai_grant_id a, ''grant''), (ai_class_id a, ''class'')]) (\<lambda>_.
     and_then (mapping_safe (ai_model_policy_constraints a) ''model_policy'') (\<lambda>_.
     and_then (mapping_safe (ai_scope_reservation_request a) ''scope_reservation'') (\<lambda>_.
     and_then (str_text (ai_expected_usage_bucket a) ''usage_bucket'' 128) (\<lambda>_.
     and_then (str_texts (ai_decision_refs a) ''decision_refs'') (\<lambda>_.
     and_then (str_text (ai_context_digest a) ''context_digest'' 192) (\<lambda>_. Inr a))))))"

subsection \<open>Versioned transitions\<close>

text \<open>
  \<open>_transition\<close>: \<open>renew\<close> is \<open>replace(item, state=target, version=version + 1)\<close>, which runs the
  constructor again.
\<close>

definition versioned_transition ::
  "string \<Rightarrow> int \<Rightarrow> (string \<Rightarrow> int \<Rightarrow> 'a result) \<Rightarrow> 'a \<Rightarrow> string \<Rightarrow> int \<Rightarrow> transition_table \<Rightarrow> 'a result" where
  "versioned_transition current version renew item target expected_version transitions =
     (if expected_version \<noteq> version then Inl (HiveDispatchError ''stale_dispatch_version'')
      else if target = current then Inr item
      else if target \<notin> set (successors transitions current)
      then Inl (HiveDispatchError (''invalid_transition:'' @ current @ ''->'' @ target))
      else renew target (version + 1))"

definition transition_request :: "GlobalRequest \<Rightarrow> string \<Rightarrow> int \<Rightarrow> GlobalRequest result" where
  "transition_request r target expected_version =
     versioned_transition (gr_state r) (gr_version r)
       (\<lambda>s v. GlobalRequest_init (r\<lparr>gr_state := s, gr_version := v\<rparr>)) r target expected_version REQUEST_TRANSITIONS"

definition transition_dispatch :: "RepoDispatch \<Rightarrow> string \<Rightarrow> int \<Rightarrow> RepoDispatch result" where
  "transition_dispatch r target expected_version =
     versioned_transition (rd_state r) (rd_version r)
       (\<lambda>s v. RepoDispatch_init (r\<lparr>rd_state := s, rd_version := v\<rparr>)) r target expected_version DISPATCH_TRANSITIONS"

definition transition_workpackage :: "WorkPackage \<Rightarrow> string \<Rightarrow> int \<Rightarrow> WorkPackage result" where
  "transition_workpackage w target expected_version =
     versioned_transition (wp_state w) (wp_version w)
       (\<lambda>s v. WorkPackage_init (w\<lparr>wp_state := s, wp_version := v\<rparr>)) w target expected_version WORKPACKAGE_TRANSITIONS"

definition transition_workpackage_from_report ::
  "(string \<Rightarrow> string) \<Rightarrow> (pyval \<Rightarrow> string) \<Rightarrow> WorkPackage \<Rightarrow> HiveMessage \<Rightarrow> int \<Rightarrow> WorkPackage result" where
  "transition_workpackage_from_report sha256 canonical w m expected_version =
     and_then (check (hm_workpackage_id m = Some (wp_workpackage_id w))
                 (HiveDispatchError ''report_workpackage_mismatch'')) (\<lambda>_.
     and_then (record_child_report sha256 canonical m) (\<lambda>report.
     and_then (py_item report ''status'') (\<lambda>status.
       case status of
         PStr target \<Rightarrow>
           if target \<in> set WORKPACKAGE_STATES then transition_workpackage w target expected_version
           else Inl (HiveDispatchError ''unsupported_report_status'')
       | _ \<Rightarrow> Inl (HiveDispatchError ''unsupported_report_status''))))"

subsection \<open>Cooperative pause\<close>

definition PAUSE_FORBIDDEN_MARKERS :: "string list" where
  "PAUSE_FORBIDDEN_MARKERS =
     [''sp0'', ''sp1'', ''sp2'', ''sp3'', ''selection'', ''fairness'', ''model'', ''lease'', ''kill'', ''interrupt'', ''restart'']"

text \<open>\<open>casefold()\<close> of Latin-1 text, as far as a search for ASCII words can tell: sharp s becomes two letters.\<close>

definition casefold :: "string \<Rightarrow> string" where
  "casefold s = concat (map (\<lambda>c. if c = CHR 0xDF then ''ss'' else [lower_char c]) s)"

definition request_cooperative_pause :: "string \<Rightarrow> string \<Rightarrow> (string \<times> pyval) list result" where
  "request_cooperative_pause workpackage_id reason =
     and_then (str_id workpackage_id ''workpackage'') (\<lambda>_.
     and_then (str_text reason ''pause_reason'' 256) (\<lambda>_.
       if list_ex (\<lambda>marker. contains marker (casefold reason)) PAUSE_FORBIDDEN_MARKERS
       then Inl (HiveDispatchError ''pause_source_not_allowed'')
       else Inr
         [(''allowed'', PBool True), (''reason_code'', PStr ''cooperative_pause_requested''),
          (''workpackage_id'', PStr workpackage_id), (''reason'', PStr reason),
          (''next_state'', PStr ''cooperative_pause_requested''), (''checkpoint_required'', PBool True),
          (''report_required'', PBool True), (''hard_kill'', PBool False), (''lease_takeover'', PBool False),
          (''mutation_performed'', PBool False), (''raw_output'', PStr ''not_returned'')]))"

definition acknowledge_checkpoint ::
  "(string \<Rightarrow> string) \<Rightarrow> (pyval \<Rightarrow> string) \<Rightarrow> HiveMessage \<Rightarrow> (string \<times> pyval) list result" where
  "acknowledge_checkpoint sha256 canonical m =
     and_then (check (hm_message_type m = ''progress.report'') (HiveDispatchError ''checkpoint_report_required'')) (\<lambda>_.
     and_then (need (hm_workpackage_id m) (HiveDispatchError ''checkpoint_workpackage_required'')) (\<lambda>workpackage_id.
     and_then (check (py_get (hm_payload m) ''checkpoint'' PNone = PBool True \<and>
                  py_eq_str (py_get (hm_payload m) ''checkpoint_state'' PNone) ''safe'' \<and>
                  py_get (hm_payload m) ''pause_requested'' PNone = PBool True)
                 (HiveDispatchError ''unsafe_checkpoint'')) (\<lambda>_.
     and_then (check (list_ex (py_eq_str (py_get (hm_payload m) ''origin'' (PStr ''work_orchestration'')))
                  [''work_orchestration'', ''teamlead'', ''queen''])
                 (HiveDispatchError ''checkpoint_source_not_allowed'')) (\<lambda>_.
     and_then (record_child_report sha256 canonical m) (\<lambda>report.
     and_then (py_item report ''payload_digest'') (\<lambda>digest.
       Inr [(''allowed'', PBool True), (''reason_code'', PStr ''safe_checkpoint_acknowledged''),
            (''workpackage_id'', PStr workpackage_id), (''message_id'', PStr (hm_message_id m)),
            (''correlation_id'', PStr (hm_correlation_id m)), (''payload_digest'', digest),
            (''next_state'', PStr ''paused''), (''hard_kill'', PBool False), (''lease_takeover'', PBool False),
            (''mutation_performed'', PBool False), (''raw_output'', PStr ''not_returned'')]))))))"

definition transition_workpackage_at_checkpoint ::
  "(string \<Rightarrow> string) \<Rightarrow> (pyval \<Rightarrow> string) \<Rightarrow> WorkPackage \<Rightarrow> HiveMessage \<Rightarrow> int \<Rightarrow> WorkPackage result" where
  "transition_workpackage_at_checkpoint sha256 canonical w m expected_version =
     and_then (acknowledge_checkpoint sha256 canonical m) (\<lambda>_.
       transition_workpackage w ''paused'' expected_version)"

definition resume_paused_workpackage :: "string \<Rightarrow> (string \<times> pyval) list result" where
  "resume_paused_workpackage workpackage_id =
     and_then (str_id workpackage_id ''workpackage'') (\<lambda>_.
       Inr [(''allowed'', PBool False), (''reason_code'', PStr ''resume_revalidation_required''),
            (''workpackage_id'', PStr workpackage_id), (''next_state'', PStr ''queued''),
            (''requires_fresh_admission'', PBool True), (''requires_scope_revalidation'', PBool True),
            (''lease_takeover'', PBool False), (''hard_kill'', PBool False), (''mutation_performed'', PBool False),
            (''raw_output'', PStr ''not_returned'')])"

end
