(* ===== verification/Dispatch_Properties.thy ===== *)
theory Dispatch_Properties
  imports Dispatch
begin

text \<open>
  What the state machines of \<open>hive/dispatch.py\<close> promise: versions count the changes, no execution
  without a fresh admission, and no state without a way out.
\<close>

subsection \<open>One transition\<close>

lemma dispatch_init_returns:
  "GlobalRequest_init r = Inr r' \<Longrightarrow> r' = r"
  "RepoDispatch_init d = Inr d' \<Longrightarrow> d' = d"
  "WorkPackage_init w = Inr w' \<Longrightarrow> w' = w"
  by (auto simp: GlobalRequest_init_def RepoDispatch_init_def WorkPackage_init_def and_then_eq_Inr)

lemma versioned_transition_Inr:
  "versioned_transition current version renew item target v table = Inr item' \<longleftrightarrow>
     v = version \<and> ((target = current \<and> item' = item) \<or>
       (target \<noteq> current \<and> target \<in> set (successors table current) \<and> renew target (version + 1) = Inr item'))"
  by (auto simp: versioned_transition_def)

lemma transition_workpackage_Inr:
  "transition_workpackage w target v = Inr w' \<Longrightarrow>
     v = wp_version w \<and> wp_state w' = target \<and>
     (w' = w \<or> (target \<noteq> wp_state w \<and> target \<in> set (successors WORKPACKAGE_TRANSITIONS (wp_state w)) \<and>
        w' = w\<lparr>wp_state := target, wp_version := wp_version w + 1\<rparr>))"
  by (auto simp: transition_workpackage_def versioned_transition_Inr dest: dispatch_init_returns)

text \<open>Every report of a child names a state of the work package: the last check of
  \<open>transition_workpackage_from_report\<close> never fails.\<close>

lemma report_status_known:
  assumes "hm_message_type m \<in> set REPORT_MESSAGE_TYPES"
  shows "report_status m \<in> set WORKPACKAGE_STATES"
proof -
  have known: "s \<in> set REPORT_STATUSES \<Longrightarrow> s \<noteq> ''unknown'' \<Longrightarrow> s \<in> set WORKPACKAGE_STATES" for s
    by (auto simp: REPORT_STATUSES_def WORKPACKAGE_STATES_def)
  have derived: "x \<in> set WORKPACKAGE_STATES" if "x \<in> {''blocked'', ''decision_required'', ''completed'', ''executing''}" for x
    using that by (auto simp: WORKPACKAGE_STATES_def)
  show ?thesis
    using assms known derived
    by (auto simp: report_status_def REPORT_MESSAGE_TYPES_def split: pyval.splits)
qed

lemma report_transition:
  "transition_workpackage_from_report sha256 canonical w m v = Inr w' \<Longrightarrow>
     transition_workpackage w (report_status m) v = Inr w'"
  by (auto simp: transition_workpackage_from_report_def record_child_report_def py_item_def and_then_eq_Inr
      Let_def split: if_splits)

lemma checkpoint_transition:
  "transition_workpackage_at_checkpoint sha256 canonical w m v = Inr w' \<Longrightarrow>
     transition_workpackage w ''paused'' v = Inr w'"
  by (auto simp: transition_workpackage_at_checkpoint_def and_then_eq_Inr)

subsection \<open>Histories\<close>

text \<open>The life of a work package from its creation, with the states it went through, the last one first.\<close>

inductive workpackage_history :: "WorkPackage \<Rightarrow> string list \<Rightarrow> WorkPackage \<Rightarrow> bool" for w0 where
  created: "workpackage_history w0 [wp_state w0] w0"
| moved: "workpackage_history w0 ss w \<Longrightarrow> transition_workpackage w target v = Inr w' \<Longrightarrow>
    workpackage_history w0 (if w' = w then ss else wp_state w' # ss) w'"
| reported: "workpackage_history w0 ss w \<Longrightarrow> transition_workpackage_from_report sha256 canonical w m v = Inr w' \<Longrightarrow>
    workpackage_history w0 (if w' = w then ss else wp_state w' # ss) w'"
| paused: "workpackage_history w0 ss w \<Longrightarrow> transition_workpackage_at_checkpoint sha256 canonical w m v = Inr w' \<Longrightarrow>
    workpackage_history w0 (if w' = w then ss else wp_state w' # ss) w'"

fun table_path :: "transition_table \<Rightarrow> string list \<Rightarrow> bool" where
  "table_path table (t # s # ss) = (t \<in> set (successors table s) \<and> table_path table (s # ss))"
| "table_path table _ = True"

lemma history_step:
  assumes "table_path WORKPACKAGE_TRANSITIONS ss \<and> ss \<noteq> [] \<and> hd ss = wp_state w \<and> last ss = s0 \<and>
      wp_version w = v0 + int (length ss) - 1"
    and "transition_workpackage w target v = Inr w'" and "ss' = (if w' = w then ss else wp_state w' # ss)"
  shows "table_path WORKPACKAGE_TRANSITIONS ss' \<and> ss' \<noteq> [] \<and> hd ss' = wp_state w' \<and> last ss' = s0 \<and>
      wp_version w' = v0 + int (length ss') - 1"
proof (cases "w' = w")
  case False
  then have w': "target \<in> set (successors WORKPACKAGE_TRANSITIONS (wp_state w))"
      "w' = w\<lparr>wp_state := target, wp_version := wp_version w + 1\<rparr>"
    using transition_workpackage_Inr [OF assms(2)] by auto
  then show ?thesis using assms(1,3) False by (cases ss) auto
qed (use assms in simp)

lemma history_path:
  "workpackage_history w0 ss w \<Longrightarrow>
     table_path WORKPACKAGE_TRANSITIONS ss \<and> ss \<noteq> [] \<and> hd ss = wp_state w \<and> last ss = wp_state w0 \<and>
     wp_version w = wp_version w0 + int (length ss) - 1"
proof (induction rule: workpackage_history.induct)
  case created
  then show ?case by simp
next
  case (moved ss w target v w')
  then show ?case by (intro history_step [OF _ moved(2) refl])
next
  case (reported ss w sha256 canonical m v w')
  then show ?case by (intro history_step [OF _ report_transition [OF reported(2)] refl])
next
  case (paused ss w sha256 canonical m v w')
  then show ?case by (intro history_step [OF _ checkpoint_transition [OF paused(2)] refl])
qed

definition only_from :: "string \<Rightarrow> string list \<Rightarrow> bool" where
  "only_from t sources =
     list_all (\<lambda>(s, ts). t \<in> set ts \<longrightarrow> s \<in> set sources) WORKPACKAGE_TRANSITIONS"

lemma only_fromD: "only_from t sources \<Longrightarrow> t \<in> set (successors WORKPACKAGE_TRANSITIONS s) \<Longrightarrow> s \<in> set sources"
  by (cases "map_of WORKPACKAGE_TRANSITIONS s") (auto simp: only_from_def successors_def list_all_iff dest!: map_of_SomeD)

lemma execution_sources:
  "only_from ''executing'' [''admitted'', ''decision_required'']" "only_from ''decision_required'' [''executing'']"
  "only_from ''integrating'' [''executing'']" "only_from ''completed'' [''integrating'']"
  by (code_simp, code_simp, code_simp, code_simp)

text \<open>An unbroken stretch of execution since an admission.\<close>

definition since_admission :: "string list \<Rightarrow> bool" where
  "since_admission ss =
     (\<exists>a b. ss = a @ ''admitted'' # b \<and> set a \<subseteq> {''executing'', ''decision_required''})"

lemma path_admitted:
  assumes "table_path WORKPACKAGE_TRANSITIONS ss" and "ss \<noteq> []" and "last ss = ''planned''"
    and "hd ss \<in> {''executing'', ''decision_required''}"
  shows "since_admission ss"
  using assms
proof (induction WORKPACKAGE_TRANSITIONS ss rule: table_path.induct [case_names step nil single])
  case (step t s ss)
  have pre: "s \<in> {''admitted'', ''decision_required'', ''executing''}"
    using step.prems only_fromD [OF execution_sources(1)] only_fromD [OF execution_sources(2)] by auto
  show ?case
  proof (cases "s = ''admitted''")
    case True
    then have "t # s # ss = [t] @ ''admitted'' # ss" "set [t] \<subseteq> {''executing'', ''decision_required''}"
      using step.prems(4) by auto
    then show ?thesis unfolding since_admission_def by blast
  next
    case False
    then have "since_admission (s # ss)" using step pre by auto
    then obtain a b where "s # ss = a @ ''admitted'' # b" "set a \<subseteq> {''executing'', ''decision_required''}"
      unfolding since_admission_def by blast
    then have "t # s # ss = (t # a) @ ''admitted'' # b" "set (t # a) \<subseteq> {''executing'', ''decision_required''}"
      using step.prems(4) by auto
    then show ?thesis unfolding since_admission_def by blast
  qed
qed auto

lemma table_path_append: "table_path table (a @ b) \<Longrightarrow> table_path table b"
proof (induction a)
  case (Cons x a)
  then show ?case by (cases "a @ b") auto
qed simp

text \<open>
  C22. No execution without a fresh admission. In the life of a work package that was created as
  planned, whatever transitions, child reports and checkpoints drive it: whenever it executes, it has
  been admitted and has done nothing but execute or wait for a decision since then, so after a pause,
  a block or a conflict it must be queued and admitted again; it completes only directly after
  integrating, and integrates only directly after executing; and its version counts the changes.
\<close>

theorem execution_follows_admission:
  assumes "workpackage_history w0 ss w" and "wp_state w0 = ''planned''"
  shows "(\<forall>later earlier. ss = later @ ''executing'' # earlier \<longrightarrow> since_admission (''executing'' # earlier)) \<and>
    (\<forall>later s earlier. ss = later @ ''completed'' # s # earlier \<longrightarrow> s = ''integrating'') \<and>
    (\<forall>later s earlier. ss = later @ ''integrating'' # s # earlier \<longrightarrow> s = ''executing'') \<and>
    wp_version w = wp_version w0 + int (length ss) - 1"
proof -
  note path = history_path [OF assms(1)]
  have "since_admission (''executing'' # earlier)" if "ss = later @ ''executing'' # earlier" for later earlier
    using path_admitted [of "''executing'' # earlier"] table_path_append [of _ later] path that assms(2) by auto
  moreover have "s = ''integrating''" if "ss = later @ ''completed'' # s # earlier" for later s earlier
    using table_path_append [of _ later "''completed'' # s # earlier"] path that only_fromD [OF execution_sources(4)] by auto
  moreover have "s = ''executing''" if "ss = later @ ''integrating'' # s # earlier" for later s earlier
    using table_path_append [of _ later "''integrating'' # s # earlier"] path that only_fromD [OF execution_sources(3)] by auto
  ultimately show ?thesis using path by blast
qed

subsection \<open>No dead ends\<close>

text \<open>
  From each state a route of at most two steps to a final state; a final state has no successor.
\<close>

definition routed :: "transition_table \<Rightarrow> string list \<Rightarrow> string list \<Rightarrow> string \<Rightarrow> bool" where
  "routed table states final s =
     (if s \<in> set final then successors table s = []
      else list_ex (\<lambda>t. t \<noteq> s \<and> t \<in> set states \<and> (t \<in> set final \<or>
        list_ex (\<lambda>u. u \<noteq> t \<and> u \<in> set states \<and> u \<in> set final) (successors table t))) (successors table s))"

text \<open>Walk through a list of targets, each with the version of the step before.\<close>

fun walk :: "('a \<Rightarrow> string \<Rightarrow> int \<Rightarrow> 'a result) \<Rightarrow> ('a \<Rightarrow> int) \<Rightarrow> 'a \<Rightarrow> string list \<Rightarrow> 'a result" where
  "walk step version_of x [] = Inr x"
| "walk step version_of x (t # ts) = and_then (step x t (version_of x)) (\<lambda>y. walk step version_of y ts)"

text \<open>The contract that the three kinds of items share.\<close>

locale versioned_item =
  fixes state_of :: "'a \<Rightarrow> string"
    and version_of :: "'a \<Rightarrow> int"
    and renew :: "'a \<Rightarrow> string \<Rightarrow> int \<Rightarrow> 'a"
    and init :: "'a \<Rightarrow> 'a result"
    and step :: "'a \<Rightarrow> string \<Rightarrow> int \<Rightarrow> 'a result"
    and table :: transition_table
    and states :: "string list"
    and final :: "string list"
  assumes step_eq: "step x t v = versioned_transition (state_of x) (version_of x) (\<lambda>s v. init (renew x s v)) x t v table"
    and init_bounds: "init x = Inr x \<Longrightarrow> state_of x \<in> set states \<and> 1 \<le> version_of x"
    and init_renew: "init x = Inr x \<Longrightarrow> t \<in> set states \<Longrightarrow> 1 \<le> v \<Longrightarrow> v \<le> 10 ^ 12 \<Longrightarrow> init (renew x t v) = Inr (renew x t v)"
    and renew_state: "state_of (renew x t v) = t"
    and renew_version: "version_of (renew x t v) = v"
    and table_routed: "list_all (routed table states final) states"
begin

lemma step_moves:
  assumes "init x = Inr x" and "t \<in> set (successors table (state_of x))" and "t \<noteq> state_of x"
    and "t \<in> set states" and "version_of x < 10 ^ 12"
  shows "step x t (version_of x) = Inr (renew x t (version_of x + 1))"
    and "init (renew x t (version_of x + 1)) = Inr (renew x t (version_of x + 1))"
proof -
  show "init (renew x t (version_of x + 1)) = Inr (renew x t (version_of x + 1))"
    using init_renew [OF assms(1,4)] init_bounds [OF assms(1)] assms(5) by simp
  then show "step x t (version_of x) = Inr (renew x t (version_of x + 1))"
    using assms(2,3) by (simp add: step_eq versioned_transition_def)
qed

lemma final_rests:
  assumes "init x = Inr x" and "state_of x \<in> set final" and "step x t v = Inr y"
  shows "y = x"
proof -
  have "successors table (state_of x) = []"
    using table_routed assms(2) init_bounds [OF assms(1)] by (auto simp: list_all_iff routed_def)
  then show ?thesis using assms(3) by (auto simp: step_eq versioned_transition_Inr)
qed

lemma reaches_final:
  assumes "init x = Inr x" and "version_of x + 2 \<le> 10 ^ 12"
  shows "\<exists>ts y. length ts \<le> 2 \<and> walk step version_of x ts = Inr y \<and> state_of y \<in> set final"
proof (cases "state_of x \<in> set final")
  case True
  then show ?thesis by (intro exI [of _ "[]"]) simp
next
  case False
  have "routed table states final (state_of x)" using table_routed init_bounds [OF assms(1)] by (auto simp: list_all_iff)
  then obtain t where t: "t \<in> set (successors table (state_of x))" "t \<noteq> state_of x" "t \<in> set states"
      "t \<in> set final \<or> (\<exists>u \<in> set (successors table t). u \<noteq> t \<and> u \<in> set states \<and> u \<in> set final)"
    using False by (auto simp: routed_def list_ex_iff)
  let ?y = "renew x t (version_of x + 1)"
  note first = step_moves [OF assms(1) t(1-3)]
  show ?thesis
  proof (cases "t \<in> set final")
    case True
    then show ?thesis using first assms(2) by (intro exI [of _ "[t]"] exI [of _ ?y]) (simp add: renew_state)
  next
    case False
    then obtain u where u: "u \<in> set (successors table t)" "u \<noteq> t" "u \<in> set states" "u \<in> set final" using t(4) by auto
    have "step ?y u (version_of ?y) = Inr (renew ?y u (version_of ?y + 1))"
      using step_moves(1) [OF first(2)] u assms(2) by (simp add: renew_state renew_version)
    then show ?thesis
      using first(1) assms(2) u(4) by (intro exI [of _ "[t, u]"] exI [of _ "renew ?y u (version_of ?y + 1)"]) (simp add: renew_state)
  qed
qed

end

lemma init_checked:
  "GlobalRequest_init r = Inr r \<Longrightarrow> gr_state r \<in> set REQUEST_STATES \<and> 1 \<le> gr_version r"
  "RepoDispatch_init d = Inr d \<Longrightarrow> rd_state d \<in> set DISPATCH_STATES \<and> 1 \<le> rd_version d"
  "WorkPackage_init w = Inr w \<Longrightarrow> wp_state w \<in> set WORKPACKAGE_STATES \<and> 1 \<le> wp_version w"
  by (auto simp: GlobalRequest_init_def RepoDispatch_init_def WorkPackage_init_def and_then_eq_Inr
      dispatch_state_def dispatch_version_def check_eq_Inr)

lemma init_moved:
  "GlobalRequest_init r = Inr r \<Longrightarrow> t \<in> set REQUEST_STATES \<Longrightarrow> 1 \<le> v \<Longrightarrow> v \<le> 10 ^ 12 \<Longrightarrow>
     GlobalRequest_init (r\<lparr>gr_state := t, gr_version := v\<rparr>) = Inr (r\<lparr>gr_state := t, gr_version := v\<rparr>)"
  "RepoDispatch_init d = Inr d \<Longrightarrow> t \<in> set DISPATCH_STATES \<Longrightarrow> 1 \<le> v \<Longrightarrow> v \<le> 10 ^ 12 \<Longrightarrow>
     RepoDispatch_init (d\<lparr>rd_state := t, rd_version := v\<rparr>) = Inr (d\<lparr>rd_state := t, rd_version := v\<rparr>)"
  "WorkPackage_init w = Inr w \<Longrightarrow> t \<in> set WORKPACKAGE_STATES \<Longrightarrow> 1 \<le> v \<Longrightarrow> v \<le> 10 ^ 12 \<Longrightarrow>
     WorkPackage_init (w\<lparr>wp_state := t, wp_version := v\<rparr>) = Inr (w\<lparr>wp_state := t, wp_version := v\<rparr>)"
  by (simp_all add: GlobalRequest_init_def RepoDispatch_init_def WorkPackage_init_def and_then_eq_Inr
      dispatch_state_def dispatch_version_def check_def)

lemma tables_routed:
  "list_all (routed REQUEST_TRANSITIONS REQUEST_STATES [''completed'', ''cancelled'', ''partially_completed'']) REQUEST_STATES"
  "list_all (routed DISPATCH_TRANSITIONS DISPATCH_STATES [''completed'', ''failed_final'']) DISPATCH_STATES"
  "list_all (routed WORKPACKAGE_TRANSITIONS WORKPACKAGE_STATES [''completed'', ''failed_final'']) WORKPACKAGE_STATES"
  by (code_simp, code_simp, code_simp)

interpretation request_item: versioned_item gr_state gr_version "\<lambda>r s v. r\<lparr>gr_state := s, gr_version := v\<rparr>"
  GlobalRequest_init transition_request REQUEST_TRANSITIONS REQUEST_STATES
  "[''completed'', ''cancelled'', ''partially_completed'']"
  by unfold_locales (simp_all add: transition_request_def init_checked init_moved tables_routed)

interpretation dispatch_item: versioned_item rd_state rd_version "\<lambda>d s v. d\<lparr>rd_state := s, rd_version := v\<rparr>"
  RepoDispatch_init transition_dispatch DISPATCH_TRANSITIONS DISPATCH_STATES "[''completed'', ''failed_final'']"
  by unfold_locales (simp_all add: transition_dispatch_def init_checked init_moved tables_routed)

interpretation workpackage_item: versioned_item wp_state wp_version "\<lambda>w s v. w\<lparr>wp_state := s, wp_version := v\<rparr>"
  WorkPackage_init transition_workpackage WORKPACKAGE_TRANSITIONS WORKPACKAGE_STATES "[''completed'', ''failed_final'']"
  by unfold_locales (simp_all add: transition_workpackage_def init_checked init_moved tables_routed)

text \<open>
  C34. No state is a dead end, and a final state is final. Every valid work package, repository
  dispatch and global request whose version is at most \<open>10 ^ 12 - 2\<close> (the constructors allow versions
  up to \<open>10 ^ 12\<close>, and every transition raises the version by one) can be brought to a final state by
  at most two transitions, each with the version it then has. And whatever transition is asked of a
  valid item of any of the three kinds in a final state, if it is accepted, the item is unchanged.
\<close>

theorem no_dead_ends:
  "(WorkPackage_init w = Inr w \<longrightarrow> wp_version w + 2 \<le> 10 ^ 12 \<longrightarrow>
     (\<exists>ts w'. length ts \<le> 2 \<and> walk transition_workpackage wp_version w ts = Inr w' \<and>
        wp_state w' \<in> {''completed'', ''failed_final''})) \<and>
   (RepoDispatch_init d = Inr d \<longrightarrow> rd_version d + 2 \<le> 10 ^ 12 \<longrightarrow>
     (\<exists>ts d'. length ts \<le> 2 \<and> walk transition_dispatch rd_version d ts = Inr d' \<and>
        rd_state d' \<in> {''completed'', ''failed_final''})) \<and>
   (GlobalRequest_init r = Inr r \<longrightarrow> gr_version r + 2 \<le> 10 ^ 12 \<longrightarrow>
     (\<exists>ts r'. length ts \<le> 2 \<and> walk transition_request gr_version r ts = Inr r' \<and>
        gr_state r' \<in> {''completed'', ''cancelled'', ''partially_completed''})) \<and>
   (WorkPackage_init w = Inr w \<longrightarrow> wp_state w \<in> {''completed'', ''failed_final''} \<longrightarrow>
     transition_workpackage w t v = Inr w2 \<longrightarrow> w2 = w) \<and>
   (RepoDispatch_init d = Inr d \<longrightarrow> rd_state d \<in> {''completed'', ''failed_final''} \<longrightarrow>
     transition_dispatch d t v = Inr d2 \<longrightarrow> d2 = d) \<and>
   (GlobalRequest_init r = Inr r \<longrightarrow> gr_state r \<in> {''completed'', ''cancelled'', ''partially_completed''} \<longrightarrow>
     transition_request r t v = Inr r2 \<longrightarrow> r2 = r)"
  using workpackage_item.reaches_final [of w] dispatch_item.reaches_final [of d] request_item.reaches_final [of r]
    workpackage_item.final_rests [of w t v w2] dispatch_item.final_rests [of d t v d2] request_item.final_rests [of r t v r2]
  by auto

subsection \<open>Checkpoints\<close>

text \<open>
  C39. A checkpoint report is not tied to the work package it pauses. Whatever work package a safe
  checkpoint message names, applying it to any valid executing work package pauses that one.
\<close>

theorem checkpoint_pauses_any_package:
  assumes "acknowledge_checkpoint sha256 canonical m = Inr ack" and "WorkPackage_init w = Inr w"
    and "wp_state w = ''executing''" and "wp_version w < 10 ^ 12"
  shows "transition_workpackage_at_checkpoint sha256 canonical (w\<lparr>wp_workpackage_id := i\<rparr>) m (wp_version w) =
    (if identifier_re i then Inr (w\<lparr>wp_workpackage_id := i, wp_state := ''paused'', wp_version := wp_version w + 1\<rparr>)
     else Inl (HiveMessageError ''invalid_workpackage''))"
proof -
  have paused: "''paused'' \<in> set (successors WORKPACKAGE_TRANSITIONS ''executing'')" by code_simp
  have ok: "WorkPackage_init (w\<lparr>wp_state := ''paused'', wp_version := wp_version w + 1\<rparr>) =
      Inr (w\<lparr>wp_state := ''paused'', wp_version := wp_version w + 1\<rparr>)"
    using init_moved(3) [OF assms(2), of "''paused''"] init_checked(3) [OF assms(2)] assms(4)
    by (simp add: WORKPACKAGE_STATES_def)
  have bad: "str_id i ''workpackage'' = (if identifier_re i then Inr () else Inl (HiveMessageError ''invalid_workpackage''))"
    by (simp add: str_id_def msg_id_def)
  have "WorkPackage_init (w\<lparr>wp_workpackage_id := i, wp_state := ''paused'', wp_version := wp_version w + 1\<rparr>) =
      (if identifier_re i then Inr (w\<lparr>wp_workpackage_id := i, wp_state := ''paused'', wp_version := wp_version w + 1\<rparr>)
       else Inl (HiveMessageError ''invalid_workpackage''))"
    using ok by (auto simp: WorkPackage_init_def and_then_eq_Inr bad)
  then show ?thesis
    using assms(1,3) paused
    by (simp add: transition_workpackage_at_checkpoint_def transition_workpackage_def versioned_transition_def)
qed


subsection \<open>Witnesses\<close>

definition sample_package :: "string \<Rightarrow> int \<Rightarrow> WorkPackage" where
  "sample_package state version =
     \<lparr>wp_workpackage_id = ''w'', wp_dispatch_id = ''d'', wp_owner_teamlead_principal_id = ''lead'',
      wp_objective = ''objective'', wp_scope = [''src''], wp_write_paths = [], wp_success_criteria = [],
      wp_test_requirements = [], wp_release_policy = ''none'', wp_depends_on_workpackage_ids = [],
      wp_resource_profile = [], wp_state = state, wp_ready_since_utc = None, wp_version = version\<rparr>"

lemma sample_moves:
  "transition_workpackage (sample_package ''planned'' 1) ''ready'' 1 = Inr (sample_package ''ready'' 2)"
  "transition_workpackage (sample_package ''ready'' 2) ''queued'' 2 = Inr (sample_package ''queued'' 3)"
  "transition_workpackage (sample_package ''queued'' 3) ''admission_planned'' 3 = Inr (sample_package ''admission_planned'' 4)"
  "transition_workpackage (sample_package ''admission_planned'' 4) ''admitted'' 4 = Inr (sample_package ''admitted'' 5)"
  "transition_workpackage (sample_package ''admitted'' 5) ''executing'' 5 = Inr (sample_package ''executing'' 6)"
  by (code_simp, code_simp, code_simp, code_simp, code_simp)

lemma sample_package_simps [simp]:
  "wp_state (sample_package s v) = s" "wp_version (sample_package s v) = v"
  "sample_package s v = sample_package t u \<longleftrightarrow> s = t \<and> v = u"
  by (simp_all add: sample_package_def)

lemma sample_history:
  "workpackage_history (sample_package ''planned'' 1)
     [''executing'', ''admitted'', ''admission_planned'', ''queued'', ''ready'', ''planned''] (sample_package ''executing'' 6)"
proof -
  note start = created [of "sample_package ''planned'' 1"]
  note step = moved [where ?w0.0 = "sample_package ''planned'' 1"]
  show ?thesis
    using step [OF step [OF step [OF step [OF step [OF start sample_moves(1)] sample_moves(2)] sample_moves(3)]
          sample_moves(4)] sample_moves(5)] by simp
qed

theorem execution_follows_admission_witness:
  "since_admission [''executing'', ''admitted'', ''admission_planned'', ''queued'', ''ready'', ''planned'']"
  using execution_follows_admission [OF sample_history] by simp

lemma sample_package_valid: "WorkPackage_init (sample_package ''executing'' 6) = Inr (sample_package ''executing'' 6)"
  by code_simp

theorem no_dead_ends_witness:
  "\<exists>ts w'. length ts \<le> 2 \<and> walk transition_workpackage wp_version (sample_package ''executing'' 6) ts = Inr w' \<and>
     wp_state w' \<in> {''completed'', ''failed_final''}"
  using no_dead_ends [of "sample_package ''executing'' 6"] sample_package_valid by simp

lemma sample_checkpoint: "\<exists>ack. acknowledge_checkpoint (\<lambda>s. s) (\<lambda>_. []) sample_message = Inr ack"
proof -
  have "is_ok (acknowledge_checkpoint (\<lambda>s. s) (\<lambda>_. []) sample_message)" by code_simp
  then show ?thesis by (simp add: is_ok_iff)
qed

theorem checkpoint_pauses_any_package_witness:
  "hm_workpackage_id sample_message = Some ''w'' \<and>
   transition_workpackage_at_checkpoint (\<lambda>s. s) (\<lambda>_. []) ((sample_package ''executing'' 6)\<lparr>wp_workpackage_id := ''other''\<rparr>)
     sample_message 6 =
   Inr ((sample_package ''executing'' 6)\<lparr>wp_workpackage_id := ''other'', wp_state := ''paused'', wp_version := 7\<rparr>)"
proof -
  obtain ack where ack: "acknowledge_checkpoint (\<lambda>s. s) (\<lambda>_. []) sample_message = Inr ack" using sample_checkpoint by blast
  have "identifier_re ''other''" by code_simp
  then show ?thesis
    using checkpoint_pauses_any_package [OF ack sample_package_valid, of "''other''"] by (simp add: sample_message_def)
qed

end
