(* ===== verification/Dispatch_Saga.thy ===== *)
theory Dispatch_Saga
  imports Dispatch
begin

text \<open>
  \<open>hive/dispatch.py\<close>, global requests: planning one dispatch per repository, and the saga that
  creates and executes them through injected callbacks and compensates in reverse order. Callbacks
  are operations on a world; the clock is the outcome of its call; \<open>sha256\<close> is the hexadecimal digest.
\<close>

definition SAGA_MODES :: "string list" where "SAGA_MODES = [''shadow'', ''enforced'']"
definition GODBEE_PRINCIPAL :: string where "GODBEE_PRINCIPAL = ''godbee-main''"

record GlobalRequestPlan =
  gp_request :: GlobalRequest
  gp_dispatches :: "RepoDispatch list"
  gp_mode :: string
  gp_planning_reason :: string
  gp_user_gates :: "string list"

definition GlobalRequestPlan_init :: "GlobalRequestPlan \<Rightarrow> GlobalRequestPlan result" where
  "GlobalRequestPlan_init p =
     and_then (check (length (gp_dispatches p) \<le> MAX_LIST) (HiveDispatchError ''invalid_global_dispatches'')) (\<lambda>_.
     and_then (check (gp_mode p \<in> set SAGA_MODES) (HiveDispatchError ''invalid_saga_mode'')) (\<lambda>_.
     and_then (str_text (gp_planning_reason p) ''planning_reason'' 64) (\<lambda>_.
     and_then (str_texts (gp_user_gates p) ''user_gates'') (\<lambda>_.
     and_then (check (map rd_repo_id (gp_dispatches p) = gr_repositories_resolved (gp_request p))
                 (HiveDispatchError ''global_dispatch_repository_mismatch'')) (\<lambda>_.
     and_then (check (list_all (\<lambda>d. rd_request_id d = gr_request_id (gp_request p)) (gp_dispatches p))
                 (HiveDispatchError ''global_dispatch_request_mismatch'')) (\<lambda>_. Inr p))))))"

definition ready_for_execution :: "GlobalRequestPlan \<Rightarrow> bool" where
  "ready_for_execution p = (gp_planning_reason p = ''ready'' \<and> gr_state (gp_request p) = ''planned'')"

definition plan_public :: "GlobalRequestPlan \<Rightarrow> pyval" where
  "plan_public p = PDict
     [(''request_id'', PStr (gr_request_id (gp_request p))),
      (''actor_principal_id'', PStr (gr_requested_by (gp_request p))), (''mode'', PStr (gp_mode p)),
      (''planning_reason'', PStr (gp_planning_reason p)), (''state'', PStr (gr_state (gp_request p))),
      (''version'', PInt (gr_version (gp_request p))),
      (''repository_count'', PInt (int (length (gr_repositories_requested (gp_request p))))),
      (''resolved_repository_count'', PInt (int (length (gr_repositories_resolved (gp_request p))))),
      (''dispatches'', PList (map (\<lambda>d. PDict
         [(''dispatch_id'', PStr (rd_dispatch_id d)), (''repo_id'', PStr (rd_repo_id d)),
          (''queen_principal_id'', PStr (rd_queen_principal_id d)), (''state'', PStr (rd_state d)),
          (''version'', PInt (rd_version d)),
          (''dependency_count'', PInt (int (length (rd_depends_on_dispatch_ids d))))]) (gp_dispatches p))),
      (''user_gates'', PList (map PStr (gp_user_gates p))), (''direct_write_paths'', PStr ''not_returned''),
      (''raw_output'', PStr ''not_returned'')]"

record 'w GlobalSagaExecutionContext =
  sx_pilot_queens :: "string list"
  sx_pilot_repositories :: "string list"
  sx_confirmed_gates :: "string list"
  sx_create_global_request :: "(GlobalRequest \<Rightarrow> ('w, pyval) op) option"
  sx_create_repo_dispatch :: "(RepoDispatch \<Rightarrow> ('w, pyval) op) option"
  sx_execute_repo_dispatch :: "(RepoDispatch \<Rightarrow> ('w, pyval) op) option"
  sx_compensate :: "(string \<Rightarrow> string \<Rightarrow> pyval \<Rightarrow> ('w, pyval) op) option"
  sx_retry_dispatch :: "(string \<Rightarrow> int \<Rightarrow> ('w, pyval) op) option"
  sx_cancel_request :: "(string \<Rightarrow> int \<Rightarrow> ('w, pyval) op) option"

definition ready_for :: "'w GlobalSagaExecutionContext \<Rightarrow> GlobalRequestPlan \<Rightarrow> bool" where
  "ready_for cx p =
     (ready_for_execution p \<and>
      list_all (\<lambda>d. rd_queen_principal_id d \<in> set (sx_pilot_queens cx)) (gp_dispatches p) \<and>
      list_all (\<lambda>d. rd_repo_id d \<in> set (sx_pilot_repositories cx)) (gp_dispatches p) \<and>
      list_all (\<lambda>g. g \<in> set (sx_confirmed_gates cx)) (gp_user_gates p) \<and>
      sx_create_global_request cx \<noteq> None \<and> sx_create_repo_dispatch cx \<noteq> None \<and>
      sx_execute_repo_dispatch cx \<noteq> None \<and> sx_compensate cx \<noteq> None)"

subsection \<open>Planning\<close>

definition saga_request_digest ::
  "(string \<Rightarrow> string) \<Rightarrow> string \<Rightarrow> string \<Rightarrow> string list \<Rightarrow> DispatchPriority \<Rightarrow> string list \<Rightarrow> string list \<Rightarrow> string" where
  "saga_request_digest sha256 actor objective repositories priority success_criteria constraints =
     sha256 (join_with [CHR 0x1F]
       ([actor, objective, DispatchPriority_value priority] @ repositories @ success_criteria @ constraints))"

record plan_request =
  pq_actor_principal_id :: string
  pq_objective :: string
  pq_repositories :: "string list"
  pq_priority :: "DispatchPriority + pyval"
  pq_success_criteria :: "string list"
  pq_constraints :: "string list"
  pq_repository_queens :: "(string, string) dict"
  pq_user_gates :: "string list"
  pq_mode :: string
  pq_clock :: "py_datetime result"

definition plan_priority :: "DispatchPriority + pyval \<Rightarrow> DispatchPriority result" where
  "plan_priority p =
     (case p of
        Inl x \<Rightarrow> Inr x
      | Inr v \<Rightarrow> rescue (DispatchPriority_of v) (\<lambda>_. Inl (HiveDispatchError ''invalid_dispatch_priority'')))"

fun check_queens :: "(string, string) dict \<Rightarrow> unit result" where
  "check_queens [] = Inr ()"
| "check_queens ((repo, queen) # rest) =
     and_then (str_id repo ''repo'') (\<lambda>_. and_then (str_id queen ''queen'') (\<lambda>_. check_queens rest))"

definition plan_checks :: "plan_request \<Rightarrow> DispatchPriority result" where
  "plan_checks q =
     and_then (check (pq_actor_principal_id q = GODBEE_PRINCIPAL) (HiveDispatchError ''godbee_actor_required'')) (\<lambda>_.
     and_then (str_id (pq_actor_principal_id q) ''actor'') (\<lambda>_.
     and_then (str_text (pq_objective q) ''objective'' MAX_TEXT) (\<lambda>_.
     and_then (check (1 \<le> length (pq_repositories q) \<and> length (pq_repositories q) \<le> MAX_LIST)
                 (HiveDispatchError ''invalid_global_repositories'')) (\<lambda>_.
     and_then (str_ids (pq_repositories q) ''repo'') (\<lambda>_.
     and_then (check (distinct (pq_repositories q)) (HiveDispatchError ''duplicate_global_repository'')) (\<lambda>_.
     and_then (plan_priority (pq_priority q)) (\<lambda>priority.
     and_then (str_texts (pq_success_criteria q) ''success_criteria'') (\<lambda>_.
     and_then (str_texts (pq_constraints q) ''constraints'') (\<lambda>_.
     and_then (str_texts (pq_user_gates q) ''user_gates'') (\<lambda>_.
     and_then (check (pq_mode q \<in> set SAGA_MODES) (HiveDispatchError ''invalid_saga_mode'')) (\<lambda>_.
     and_then (check_queens (pq_repository_queens q)) (\<lambda>_. Inr priority))))))))))))"

text \<open>The gates: those the user gave, and those that the wording of the constraints asks for.\<close>

definition demanded_gates :: "string list \<Rightarrow> string list" where
  "demanded_gates constraints =
     (let lowered = map lower_char (join_with '' '' constraints)
      in (if contains ''breaking'' lowered then [''breaking_changes''] else []) @
         (if contains ''destruct'' lowered \<or> contains ''force-push'' lowered then [''global_destruction''] else []))"

definition normalized_gates :: "plan_request \<Rightarrow> string list" where
  "normalized_gates q = remdups (pq_user_gates q @ demanded_gates (pq_constraints q))"

definition planning_reason :: "plan_request \<Rightarrow> string" where
  "planning_reason q =
     (if list_ex (\<lambda>r. map_of (pq_repository_queens q) r = None) (pq_repositories q) then ''unknown_repository''
      else if list_ex (\<lambda>g. g \<notin> set (pq_user_gates q))
                (filter (\<lambda>g. g = ''breaking_changes'' \<or> g = ''global_destruction'') (normalized_gates q))
      then ''user_gate_required'' else ''ready'')"

definition plan_dispatch ::
  "(string \<Rightarrow> string) \<Rightarrow> plan_request \<Rightarrow> DispatchPriority \<Rightarrow> string \<Rightarrow> string \<Rightarrow> string \<Rightarrow> RepoDispatch result" where
  "plan_dispatch sha256 q priority digest request_id repo_id =
     (case map_of (pq_repository_queens q) repo_id of
        None \<Rightarrow> Inl KeyError
      | Some queen \<Rightarrow>
          RepoDispatch_init
            \<lparr>rd_dispatch_id = ''dispatch-'' @ take 24 (sha256 (digest @ repo_id)), rd_request_id = request_id,
             rd_repo_id = repo_id, rd_queen_principal_id = queen, rd_objective = pq_objective q,
             rd_success_criteria = pq_success_criteria q, rd_constraints = pq_constraints q,
             rd_dispatch_priority = priority, rd_effective_priority = priority, rd_deadline_at_utc = None,
             rd_depends_on_dispatch_ids = [],
             rd_budget = [(''repo_id'', PStr repo_id), (''saga'', PStr ''independent'')],
             rd_state = (if planning_reason q = ''ready'' then ''planned'' else ''blocked''), rd_version = 1\<rparr>)"

definition plan_global_request :: "(string \<Rightarrow> string) \<Rightarrow> plan_request \<Rightarrow> GlobalRequestPlan result" where
  "plan_global_request sha256 q =
     and_then (plan_checks q) (\<lambda>priority.
       let resolved = filter (\<lambda>r. map_of (pq_repository_queens q) r \<noteq> None) (pq_repositories q);
           gates = sort (normalized_gates q);
           digest = saga_request_digest sha256 (pq_actor_principal_id q) (pq_objective q) (pq_repositories q) priority
                      (pq_success_criteria q) (pq_constraints q);
           request_id = ''request-'' @ take 24 digest
       in and_then (rescue (and_then (pq_clock q) (\<lambda>sample. dispatch_time sample ''request_timestamp''))
                      (\<lambda>_. Inl (HiveDispatchError ''invalid_request_timestamp''))) (\<lambda>created_at_utc.
          and_then (GlobalRequest_init
            \<lparr>gr_request_id = request_id, gr_objective = pq_objective q, gr_success_criteria = pq_success_criteria q,
             gr_constraints = pq_constraints q, gr_non_goals = [], gr_requested_by = pq_actor_principal_id q,
             gr_repositories_requested = pq_repositories q, gr_repositories_resolved = resolved,
             gr_dispatch_priority = priority, gr_user_gates = gates, gr_created_at_utc = created_at_utc,
             gr_state = (if planning_reason q = ''ready'' then ''planned'' else ''blocked''), gr_version = 1\<rparr>) (\<lambda>request.
          and_then (map_result (plan_dispatch sha256 q priority digest request_id) resolved) (\<lambda>dispatches.
            GlobalRequestPlan_init
              \<lparr>gp_request = request, gp_dispatches = dispatches, gp_mode = pq_mode q,
               gp_planning_reason = planning_reason q, gp_user_gates = gates\<rparr>))))"

subsection \<open>Execution\<close>

type_synonym saga_step = "string \<times> string \<times> pyval"

record 'w saga =
  sg_world :: 'w
  sg_steps :: "saga_step list"

text \<open>\<open>steps.append((kind, identifier, None)); result = callback(); steps[-1] = (kind, identifier, result)\<close>\<close>

definition saga_call ::
  "string \<Rightarrow> string \<Rightarrow> ('w, pyval) op option \<Rightarrow> (pyval \<Rightarrow> pyval result) \<Rightarrow> ('w saga, unit) op" where
  "saga_call kind identifier callback accept s =
     (case callback of
        None \<Rightarrow> (Inl (HiveDispatchError ''saga_callback_unavailable''), s)
      | Some call \<Rightarrow>
          (case call (sg_world s) of
             (res, w) \<Rightarrow>
               (case and_then res accept of
                  Inl e \<Rightarrow> (Inl e, \<lparr>sg_world = w, sg_steps = sg_steps s @ [(kind, identifier, PNone)]\<rparr>)
                | Inr v \<Rightarrow> (Inr (), \<lparr>sg_world = w, sg_steps = sg_steps s @ [(kind, identifier, v)]\<rparr>))))"

text \<open>A result of a dispatch must be a mapping.\<close>

fun mapping_result :: "pyval \<Rightarrow> pyval result" where
  "mapping_result (PDict d) = Inr (PDict d)"
| "mapping_result _ = Inl (HiveDispatchError ''saga_result_invalid'')"

fun saga_dispatches :: "'w GlobalSagaExecutionContext \<Rightarrow> RepoDispatch list \<Rightarrow> ('w saga, unit) op" where
  "saga_dispatches cx [] = op_lift (Inr ())"
| "saga_dispatches cx (d # ds) =
     (if sx_create_repo_dispatch cx = None \<or> sx_execute_repo_dispatch cx = None
      then op_lift (Inl (HiveDispatchError ''saga_callback_unavailable''))
      else
        op_bind (saga_call ''repo_dispatch'' (rd_dispatch_id d)
                   (map_option (\<lambda>f. f d) (sx_create_repo_dispatch cx)) Inr) (\<lambda>_.
        op_bind (saga_call ''repo_execute'' (rd_dispatch_id d)
                   (map_option (\<lambda>f. f d) (sx_execute_repo_dispatch cx)) mapping_result) (\<lambda>_.
          saga_dispatches cx ds)))"

definition saga_forward :: "'w GlobalSagaExecutionContext \<Rightarrow> GlobalRequestPlan \<Rightarrow> ('w saga, unit) op" where
  "saga_forward cx p =
     op_bind (saga_call ''global_request'' (gr_request_id (gp_request p))
                (map_option (\<lambda>f. f (gp_request p)) (sx_create_global_request cx)) Inr) (\<lambda>_.
       saga_dispatches cx (gp_dispatches p))"

fun saga_compensate :: "'w GlobalSagaExecutionContext \<Rightarrow> saga_step list \<Rightarrow> 'w \<Rightarrow> bool \<times> 'w" where
  "saga_compensate cx [] w = (True, w)"
| "saga_compensate cx ((kind, identifier, result) # steps) w =
     (case sx_compensate cx of
        None \<Rightarrow> (case saga_compensate cx steps w of (_, w) \<Rightarrow> (False, w))
      | Some f \<Rightarrow>
          (case f kind identifier result w of
             (res, w) \<Rightarrow> (case saga_compensate cx steps w of (all_ok, w) \<Rightarrow> (is_ok res \<and> all_ok, w))))"

definition refused :: "string \<Rightarrow> GlobalRequestPlan \<Rightarrow> (string \<times> pyval) list" where
  "refused reason p =
     [(''allowed'', PBool False), (''reason_code'', PStr reason), (''mutation_performed'', PBool False),
      (''plan'', plan_public p), (''raw_output'', PStr ''not_returned'')]"

definition execute_global_request ::
  "GlobalRequestPlan \<Rightarrow> 'w GlobalSagaExecutionContext option \<Rightarrow> 'w \<Rightarrow> (string \<times> pyval) list \<times> 'w" where
  "execute_global_request p context w =
     (if gp_mode p \<noteq> ''enforced'' then (refused ''shadow_only'' p, w)
      else case context of
        None \<Rightarrow> (refused ''saga_gate_blocked'' p, w)
      | Some cx \<Rightarrow>
          if \<not> ready_for cx p then (refused ''saga_gate_blocked'' p, w)
          else case saga_forward cx p \<lparr>sg_world = w, sg_steps = []\<rparr> of
            (Inr _, s) \<Rightarrow>
              ([(''allowed'', PBool True), (''reason_code'', PStr ''saga_executed''), (''state'', PStr ''completed''),
                (''mutation_performed'', PBool True),
                (''completed_dispatch_count'', PInt (int (length (gp_dispatches p)))),
                (''plan'', plan_public p), (''raw_output'', PStr ''not_returned'')], sg_world s)
          | (Inl _, s) \<Rightarrow>
              (case saga_compensate cx (rev (sg_steps s)) (sg_world s) of
                 (all_ok, w) \<Rightarrow>
                   ([(''allowed'', PBool False), (''reason_code'', PStr ''saga_partially_completed''),
                     (''state'', PStr ''partially_completed''), (''mutation_performed'', PBool False),
                     (''completed_dispatch_count'',
                      PInt (int (length (filter (\<lambda>(kind, _, result). kind = ''repo_execute'' \<and> result \<noteq> PNone) (sg_steps s))))),
                     (''compensation_attempted'', PBool True), (''compensation_complete'', PBool all_ok),
                     (''plan'', plan_public p), (''raw_output'', PStr ''not_returned'')], w)))"

definition gate_answer :: "bool \<Rightarrow> string \<Rightarrow> string \<Rightarrow> string \<Rightarrow> (string \<times> pyval) list" where
  "gate_answer allowed reason key i =
     [(''allowed'', PBool allowed), (''reason_code'', PStr reason), (key, PStr i), (''raw_output'', PStr ''not_returned'')]"

definition retry_repo_dispatch ::
  "string \<Rightarrow> int \<Rightarrow> 'w GlobalSagaExecutionContext option \<Rightarrow> ('w, (string \<times> pyval) list) op" where
  "retry_repo_dispatch dispatch_id expected_version context =
     op_bind (op_lift (and_then (str_id dispatch_id ''dispatch'') (\<lambda>_. dispatch_version expected_version))) (\<lambda>_ w.
       case Option.bind context sx_retry_dispatch of
         None \<Rightarrow> (Inr (gate_answer False ''saga_gate_blocked'' ''dispatch_id'' dispatch_id), w)
       | Some f \<Rightarrow>
           (case f dispatch_id expected_version w of
              (Inl e, w) \<Rightarrow> (Inr (gate_answer False ''saga_retry_unavailable'' ''dispatch_id'' dispatch_id), w)
            | (Inr _, w) \<Rightarrow> (Inr (gate_answer True ''repo_dispatch_retry_requested'' ''dispatch_id'' dispatch_id), w)))"

definition cancel_global_request ::
  "string \<Rightarrow> int \<Rightarrow> 'w GlobalSagaExecutionContext option \<Rightarrow> ('w, (string \<times> pyval) list) op" where
  "cancel_global_request request_id expected_version context =
     op_bind (op_lift (and_then (str_id request_id ''request'') (\<lambda>_. dispatch_version expected_version))) (\<lambda>_ w.
       case Option.bind context sx_cancel_request of
         None \<Rightarrow> (Inr (gate_answer False ''saga_gate_blocked'' ''request_id'' request_id), w)
       | Some f \<Rightarrow>
           (case f request_id expected_version w of
              (Inl e, w) \<Rightarrow> (Inr (gate_answer False ''saga_cancel_unavailable'' ''request_id'' request_id), w)
            | (Inr _, w) \<Rightarrow> (Inr (gate_answer True ''global_request_cancel_requested'' ''request_id'' request_id), w)))"


subsection \<open>What the saga does\<close>

text \<open>
  The context with a log of the calls it receives: each callback with its outcome, each compensation
  with the value it was given and whether it succeeded.
\<close>

datatype saga_event = Called string string "pyval result" | Undone string string pyval bool

definition logged :: "('a result \<Rightarrow> saga_event) \<Rightarrow> ('w, 'a) op \<Rightarrow> ('w \<times> saga_event list, 'a) op" where
  "logged ev f s = (case s of (w, events) \<Rightarrow> (case f w of (r, w') \<Rightarrow> (r, (w', events @ [ev r]))))"

definition traced :: "'w GlobalSagaExecutionContext \<Rightarrow> ('w \<times> saga_event list) GlobalSagaExecutionContext" where
  "traced cx =
     \<lparr>sx_pilot_queens = sx_pilot_queens cx, sx_pilot_repositories = sx_pilot_repositories cx,
      sx_confirmed_gates = sx_confirmed_gates cx,
      sx_create_global_request =
        map_option (\<lambda>f r. logged (Called ''global_request'' (gr_request_id r)) (f r)) (sx_create_global_request cx),
      sx_create_repo_dispatch =
        map_option (\<lambda>f d. logged (Called ''repo_dispatch'' (rd_dispatch_id d)) (f d)) (sx_create_repo_dispatch cx),
      sx_execute_repo_dispatch =
        map_option (\<lambda>f d. logged (Called ''repo_execute'' (rd_dispatch_id d)) (f d)) (sx_execute_repo_dispatch cx),
      sx_compensate = map_option (\<lambda>f k i v. logged (\<lambda>r. Undone k i v (is_ok r)) (f k i v)) (sx_compensate cx),
      sx_retry_dispatch = None, sx_cancel_request = None\<rparr>"

text \<open>The calls of a saga that runs through.\<close>

definition dispatch_script :: "RepoDispatch list \<Rightarrow> (string \<times> string) list" where
  "dispatch_script ds =
     concat (map (\<lambda>d. [(''repo_dispatch'', rd_dispatch_id d), (''repo_execute'', rd_dispatch_id d)]) ds)"

definition saga_script :: "GlobalRequestPlan \<Rightarrow> (string \<times> string) list" where
  "saga_script p = (''global_request'', gr_request_id (gp_request p)) # dispatch_script (gp_dispatches p)"

text \<open>
  A callback failed when it raised, or when the execution of a dispatch returned something else than
  a mapping; a failed step is compensated with no result.
\<close>

definition succeeded :: "string \<Rightarrow> pyval result \<Rightarrow> bool" where
  "succeeded kind r = (case r of Inl _ \<Rightarrow> False | Inr v \<Rightarrow> kind = ''repo_execute'' \<longrightarrow> (\<exists>d. v = PDict d))"

definition step_value :: "string \<Rightarrow> pyval result \<Rightarrow> pyval" where
  "step_value kind r = (case r of Inl _ \<Rightarrow> PNone | Inr v \<Rightarrow> if succeeded kind r then v else PNone)"

type_synonym saga_calls = "(string \<times> string \<times> pyval result) list"

abbreviation call_ids :: "saga_calls \<Rightarrow> (string \<times> string) list" where
  "call_ids \<equiv> map (\<lambda>(k, i, _). (k, i))"

abbreviation call_ok :: "string \<times> string \<times> pyval result \<Rightarrow> bool" where
  "call_ok \<equiv> \<lambda>(k, _, r). succeeded k r"

definition called :: "saga_calls \<Rightarrow> saga_event list" where
  "called = map (\<lambda>(k, i, r). Called k i r)"

definition undone :: "saga_calls \<Rightarrow> bool list \<Rightarrow> saga_event list" where
  "undone calls goods = map2 (\<lambda>(k, i, r) b. Undone k i (step_value k r) b) calls goods"

text \<open>The calls follow the script up to the first failure.\<close>

definition follows :: "(string \<times> string) list \<Rightarrow> saga_calls \<Rightarrow> bool \<Rightarrow> bool" where
  "follows script calls ok =
     (call_ids calls = take (length calls) script \<and>
      (if ok then length calls = length script \<and> list_all call_ok calls
       else calls \<noteq> [] \<and> list_all call_ok (butlast calls) \<and> \<not> call_ok (last calls)))"

lemma follows_Nil: "follows [] [] True"
  by (simp add: follows_def)

lemma follows_fail: "\<not> succeeded k r \<Longrightarrow> follows ((k, i) # script) [(k, i, r)] False"
  by (simp add: follows_def)

lemma follows_Cons: "succeeded k r \<Longrightarrow> follows script calls ok \<Longrightarrow> follows ((k, i) # script) ((k, i, r) # calls) ok"
  by (auto simp: follows_def)

definition ran :: "saga_calls \<Rightarrow> ('w \<times> saga_event list) saga \<Rightarrow> ('w \<times> saga_event list) saga \<Rightarrow> bool" where
  "ran calls s s' =
     (snd (sg_world s') = snd (sg_world s) @ called calls \<and>
      sg_steps s' = sg_steps s @ map (\<lambda>(k, i, r). (k, i, step_value k r)) calls)"

lemma ran_Cons: "ran [c] s t \<Longrightarrow> ran calls t u \<Longrightarrow> ran (c # calls) s u"
  by (simp add: ran_def called_def)

text \<open>One call appends one event and one step, whether it succeeds or not.\<close>

lemma mapping_result_Inr: "mapping_result v = Inr u \<longleftrightarrow> (\<exists>d. v = PDict d) \<and> u = v"
  by (cases v) auto

lemma saga_call_traced:
  assumes "saga_call kind i (Some (logged (Called kind i) f)) accept s = (res, s')"
    and "accept = (if kind = ''repo_execute'' then mapping_result else Inr)"
  shows "\<exists>r. ran [(kind, i, r)] s s' \<and> (is_ok res \<longleftrightarrow> succeeded kind r)"
proof -
  obtain w events where w: "sg_world s = (w, events)" by (cases "sg_world s")
  obtain r w' where f: "f w = (r, w')" by (cases "f w")
  have "is_ok (and_then r accept) \<longleftrightarrow> succeeded kind r"
    "(case and_then r accept of Inl e \<Rightarrow> PNone | Inr v \<Rightarrow> v) = step_value kind r"
    using assms(2) by (cases r; auto simp: succeeded_def step_value_def is_ok_iff mapping_result_Inr split: sum.splits)+
  then show ?thesis
    using assms(1) w f
    by (intro exI [of _ r]) (auto simp: saga_call_def logged_def ran_def called_def split: sum.splits)
qed

lemma saga_dispatches_traced:
  assumes "saga_dispatches (traced cx) ds s = (res, s')"
    and "sx_create_repo_dispatch cx \<noteq> None" and "sx_execute_repo_dispatch cx \<noteq> None"
  shows "\<exists>calls. ran calls s s' \<and> follows (dispatch_script ds) calls (is_ok res)"
  using assms(1)
proof (induction ds arbitrary: s)
  case Nil
  then show ?case by (auto simp: dispatch_script_def ran_def called_def intro!: exI [of _ "[]"] follows_Nil)
next
  case (Cons d ds)
  obtain f g where f: "sx_create_repo_dispatch cx = Some f" and g: "sx_execute_repo_dispatch cx = Some g"
    using assms(2,3) by auto
  let ?i = "rd_dispatch_id d"
  have script: "dispatch_script (d # ds) = (''repo_dispatch'', ?i) # (''repo_execute'', ?i) # dispatch_script ds"
    by (simp add: dispatch_script_def)
  obtain o1 s1 where c1: "saga_call ''repo_dispatch'' ?i (Some (logged (Called ''repo_dispatch'' ?i) (f d))) Inr s = (o1, s1)"
    by force
  obtain r1 where r1: "ran [(''repo_dispatch'', ?i, r1)] s s1" "is_ok o1 \<longleftrightarrow> succeeded ''repo_dispatch'' r1"
    using saga_call_traced [OF c1] by auto
  show ?case
  proof (cases o1)
    case (Inl e)
    then have "s' = s1" "\<not> is_ok res" using Cons.prems c1 f g by (auto simp: traced_def op_bind_def)
    then show ?thesis using r1 Inl script follows_fail by fastforce
  next
    case (Inr u)
    obtain o2 s2 where c2: "saga_call ''repo_execute'' ?i (Some (logged (Called ''repo_execute'' ?i) (g d))) mapping_result s1 = (o2, s2)"
      by force
    obtain r2 where r2: "ran [(''repo_execute'', ?i, r2)] s1 s2" "is_ok o2 \<longleftrightarrow> succeeded ''repo_execute'' r2"
      using saga_call_traced [OF c2] by auto
    have ok1: "succeeded ''repo_dispatch'' r1" using r1(2) Inr by simp
    have "\<exists>calls. ran calls s1 s' \<and> follows ((''repo_execute'', ?i) # dispatch_script ds) calls (is_ok res)"
    proof (cases o2)
      case (Inl e)
      then have "s' = s2" "\<not> is_ok res" using Cons.prems c1 c2 Inr f g by (auto simp: traced_def op_bind_def)
      then show ?thesis using r2 Inl follows_fail by fastforce
    next
      case (Inr v)
      then have "saga_dispatches (traced cx) ds s2 = (res, s')"
        using Cons.prems c1 c2 \<open>o1 = Inr u\<close> f g by (simp add: traced_def op_bind_def)
      from Cons.IH [OF this] show ?thesis using ran_Cons [OF r2(1)] follows_Cons r2(2) Inr by fastforce
    qed
    then show ?thesis using ran_Cons [OF r1(1)] follows_Cons [OF ok1] script by fastforce
  qed
qed

lemma saga_forward_traced:
  assumes "saga_forward (traced cx) p s = (res, s')" and "ready_for cx p"
  shows "\<exists>calls. ran calls s s' \<and> follows (saga_script p) calls (is_ok res)"
proof -
  obtain f where f: "sx_create_global_request cx = Some f" using assms(2) by (auto simp: ready_for_def)
  have some: "sx_create_repo_dispatch cx \<noteq> None" "sx_execute_repo_dispatch cx \<noteq> None"
    using assms(2) by (simp_all add: ready_for_def)
  let ?i = "gr_request_id (gp_request p)"
  obtain o1 s1 where c1: "saga_call ''global_request'' ?i
      (Some (logged (Called ''global_request'' ?i) (f (gp_request p)))) Inr s = (o1, s1)" by force
  obtain r1 where r1: "ran [(''global_request'', ?i, r1)] s s1" "is_ok o1 \<longleftrightarrow> succeeded ''global_request'' r1"
    using saga_call_traced [OF c1] by auto
  show ?thesis
  proof (cases o1)
    case (Inl e)
    then have "s' = s1" "\<not> is_ok res" using assms(1) c1 f by (auto simp: saga_forward_def traced_def op_bind_def)
    then show ?thesis using r1 Inl follows_fail unfolding saga_script_def by fastforce
  next
    case (Inr u)
    then have "saga_dispatches (traced cx) (gp_dispatches p) s1 = (res, s')"
      using assms(1) c1 f by (simp add: saga_forward_def traced_def op_bind_def)
    from saga_dispatches_traced [OF this some] show ?thesis
      using ran_Cons [OF r1(1)] follows_Cons r1(2) Inr unfolding saga_script_def by fastforce
  qed
qed

lemma saga_compensate_traced:
  assumes "sx_compensate cx \<noteq> None"
  shows "\<exists>goods w'. length goods = length calls \<and>
    saga_compensate (traced cx) (map (\<lambda>(k, i, r). (k, i, step_value k r)) calls) (w, events) =
      (list_all (\<lambda>b. b) goods, (w', events @ undone calls goods))"
proof (induction calls arbitrary: w events)
  case Nil
  then show ?case by (simp add: undone_def)
next
  case (Cons x calls)
  obtain k i r where x: "x = (k, i, r)" by (cases x)
  obtain f where f: "sx_compensate cx = Some f" using assms by auto
  obtain b w1 where b: "f k i (step_value k r) w = (b, w1)" by force
  obtain goods w' where "length goods = length calls"
      "saga_compensate (traced cx) (map (\<lambda>(k, i, r). (k, i, step_value k r)) calls)
         (w1, events @ [Undone k i (step_value k r) (is_ok b)]) =
       (list_all (\<lambda>b. b) goods, (w', (events @ [Undone k i (step_value k r) (is_ok b)]) @ undone calls goods))"
    using Cons.IH by blast
  then show ?case
    using x f b by (intro exI [of _ "is_ok b # goods"]) (simp add: traced_def logged_def undone_def)
qed

lemma ready_for_traced [simp]: "ready_for (traced cx) p = ready_for cx p"
  by (simp add: ready_for_def traced_def)

text \<open>
  C10. The saga undoes what it began, in reverse order, exactly when a callback fails. For any
  callbacks, whatever they return or raise: outside enforced mode or when a gate is closed no
  callback is called and the answer is not allowed. Otherwise the calls follow the script (create
  the request, then create and execute each dispatch in order) up to the first failure: a callback
  that raises, or an execution that does not return a mapping. If every call succeeded, the whole
  script ran, nothing is compensated and the answer is allowed. If one failed, it is the last call,
  every begun step, the failed one first, is compensated exactly once in reverse order with the value
  its callback returned (none for the failed one), whether compensations fail or not; the answer is
  not allowed and says whether all compensations succeeded.
\<close>

theorem saga_undoes_in_reverse:
  "case execute_global_request p (Some (traced cx)) (w, []) of (r, (w', events)) \<Rightarrow>
     if gp_mode p = ''enforced'' \<and> ready_for cx p
     then \<exists>calls goods.
       calls \<noteq> [] \<and> map (\<lambda>(k, i, _). (k, i)) calls = take (length calls) (saga_script p) \<and>
       list_all (\<lambda>(k, _, outcome). succeeded k outcome) (butlast calls) \<and>
       (if (\<lambda>(k, _, outcome). succeeded k outcome) (last calls)
        then length calls = length (saga_script p) \<and> events = called calls \<and>
          map_of r ''allowed'' = Some (PBool True)
        else length goods = length calls \<and> events = called calls @ undone (rev calls) goods \<and>
          map_of r ''allowed'' = Some (PBool False) \<and>
          map_of r ''compensation_complete'' = Some (PBool (list_all (\<lambda>b. b) goods)))
     else map_of r ''allowed'' = Some (PBool False) \<and> events = []"
proof (cases "gp_mode p = ''enforced'' \<and> ready_for cx p")
  case False
  then show ?thesis by (auto simp: execute_global_request_def refused_def)
next
  case True
  let ?s = "\<lparr>sg_world = (w, []), sg_steps = []\<rparr>"
  obtain res s where run: "saga_forward (traced cx) p ?s = (res, s)" by force
  obtain calls where calls: "ran calls ?s s" "follows (saga_script p) calls (is_ok res)"
    using saga_forward_traced [OF run] True by blast
  obtain w1 where s: "sg_world s = (w1, called calls)" "sg_steps s = map (\<lambda>(k, i, r). (k, i, step_value k r)) calls"
    using calls(1) by (cases "sg_world s") (simp add: ran_def)
  have new: "calls \<noteq> []" using calls(2) by (auto simp: follows_def saga_script_def split: if_splits)
  show ?thesis
  proof (cases res)
    case (Inr u)
    then have "list_all call_ok calls" using calls(2) by (simp add: follows_def)
    then have "list_all call_ok (butlast calls)" "call_ok (last calls)"
      using new by (auto simp: list_all_iff dest: in_set_butlastD)
    moreover have "execute_global_request p (Some (traced cx)) (w, []) =
        (fst (execute_global_request p (Some (traced cx)) (w, [])), (w1, called calls))"
      "map_of (fst (execute_global_request p (Some (traced cx)) (w, []))) ''allowed'' = Some (PBool True)"
      using True run Inr s(1) by (simp_all add: execute_global_request_def)
    ultimately show ?thesis
      unfolding case_prod_unfold if_P [OF True]
      using new calls(2) Inr by (intro exI [of _ calls]) (simp add: follows_def prod_eq_iff case_prod_unfold)
  next
    case (Inl e)
    obtain goods w' where c: "length goods = length (rev calls)"
        "saga_compensate (traced cx) (map (\<lambda>(k, i, r). (k, i, step_value k r)) (rev calls)) (w1, called calls) =
           (list_all (\<lambda>b. b) goods, (w', called calls @ undone (rev calls) goods))"
      using saga_compensate_traced [of cx "rev calls"] True unfolding ready_for_def by blast
    have "execute_global_request p (Some (traced cx)) (w, []) =
        (fst (execute_global_request p (Some (traced cx)) (w, [])), (w', called calls @ undone (rev calls) goods))"
      "map_of (fst (execute_global_request p (Some (traced cx)) (w, []))) ''allowed'' = Some (PBool False)"
      "map_of (fst (execute_global_request p (Some (traced cx)) (w, []))) ''compensation_complete'' =
         Some (PBool (list_all (\<lambda>b. b) goods))"
      using True run Inl s c(2) by (simp_all add: execute_global_request_def rev_map)
    then show ?thesis
      unfolding case_prod_unfold if_P [OF True]
      using calls(2) Inl c(1) new by (intro exI [of _ calls] exI [of _ goods]) (simp add: follows_def prod_eq_iff case_prod_unfold)
  qed
qed

subsection \<open>What a plan guarantees\<close>

lemma str_id_ok [simp]: "str_id s fld = Inr u \<longleftrightarrow> identifier_re s"
  by (auto simp: str_id_def and_then_eq_Inr msg_id_Inr)

lemma map_result_member: "map_result f xs = Inr ys \<Longrightarrow> x \<in> set xs \<Longrightarrow> \<exists>y \<in> set ys. f x = Inr y"
  by (induction xs arbitrary: ys) (auto simp: and_then_eq_Inr)

lemma plan_dispatch_Inr:
  "plan_dispatch sha256 q priority digest request_id repo = Inr d \<Longrightarrow>
     rd_repo_id d = repo \<and> map_of (pq_repository_queens q) repo = Some (rd_queen_principal_id d) \<and>
     rd_request_id d = request_id"
  by (auto simp: plan_dispatch_def RepoDispatch_init_def and_then_eq_Inr split: option.splits)

lemma plan_global_request_Inr:
  assumes "plan_global_request sha256 q = Inr p"
  obtains priority digest request_id where "plan_checks q = Inr priority"
    "gp_mode p = pq_mode q" "gp_planning_reason p = planning_reason q" "gp_user_gates p = sort (normalized_gates q)"
    "gr_request_id (gp_request p) = request_id" "gr_requested_by (gp_request p) = pq_actor_principal_id q"
    "map_result (plan_dispatch sha256 q priority digest request_id)
       (filter (\<lambda>r. map_of (pq_repository_queens q) r \<noteq> None) (pq_repositories q)) = Inr (gp_dispatches p)"
proof -
  have ret: "GlobalRequest_init r = Inr r' \<Longrightarrow> r' = r" "GlobalRequestPlan_init x = Inr x' \<Longrightarrow> x' = x" for r r' x x'
    by (auto simp: GlobalRequest_init_def GlobalRequestPlan_init_def and_then_eq_Inr)
  show ?thesis
    using assms unfolding plan_global_request_def Let_def and_then_eq_Inr
    by (auto dest!: ret intro: that)
qed

text \<open>The gates that the wording asks for were given by the user when the plan is ready.\<close>

lemma ready_gates:
  assumes "planning_reason q = ''ready''"
  shows "set (demanded_gates (pq_constraints q)) \<subseteq> set (pq_user_gates q)"
    "\<forall>r \<in> set (pq_repositories q). map_of (pq_repository_queens q) r \<noteq> None"
proof -
  have "set (demanded_gates cs) \<subseteq> {''breaking_changes'', ''global_destruction''}" for cs
    by (auto simp: demanded_gates_def Let_def)
  then show "set (demanded_gates (pq_constraints q)) \<subseteq> set (pq_user_gates q)"
    using assms by (fastforce simp: planning_reason_def normalized_gates_def list_ex_iff split: if_splits)
  show "\<forall>r \<in> set (pq_repositories q). map_of (pq_repository_queens q) r \<noteq> None"
    using assms by (auto simp: planning_reason_def list_ex_iff split: if_splits)
qed

lemma saga_touches:
  assumes "execute_global_request p (Some (traced cx)) (w, []) = (r, (w', events))" and "events \<noteq> []"
  shows "gp_mode p = ''enforced'' \<and> ready_for cx p"
  using assms by (auto simp: execute_global_request_def split: if_splits)

text \<open>
  C16. Nothing global happens without its gates. When a saga planned by \<open>plan_global_request\<close> calls
  any callback, then it was planned in enforced mode by the root executive, every requested
  repository is registered with a queen, both on the pilot lists, and every gate that the wording of
  the constraints asks for (breaking changes, destruction, force-push) was given in the request and
  confirmed in the execution context.
\<close>

theorem saga_needs_its_gates:
  assumes "plan_global_request sha256 q = Inr p"
    and "execute_global_request p (Some (traced cx)) (w, []) = (r, (w', events))" and "events \<noteq> []"
  shows "pq_mode q = ''enforced'' \<and> pq_actor_principal_id q = ''godbee-main'' \<and>
    (\<forall>repo \<in> set (pq_repositories q). \<exists>queen. map_of (pq_repository_queens q) repo = Some queen \<and>
       queen \<in> set (sx_pilot_queens cx) \<and> repo \<in> set (sx_pilot_repositories cx)) \<and>
    set (demanded_gates (pq_constraints q)) \<subseteq> set (pq_user_gates q) \<inter> set (sx_confirmed_gates cx)"
proof -
  have run: "gp_mode p = ''enforced''" "ready_for cx p" using saga_touches [OF assms(2,3)] by auto
  obtain priority digest request_id where plan: "plan_checks q = Inr priority" "gp_mode p = pq_mode q"
      "gp_planning_reason p = planning_reason q" "gp_user_gates p = sort (normalized_gates q)"
      and ds: "map_result (plan_dispatch sha256 q priority digest request_id)
        (filter (\<lambda>r. map_of (pq_repository_queens q) r \<noteq> None) (pq_repositories q)) = Inr (gp_dispatches p)"
    by (rule plan_global_request_Inr [OF assms(1)])
  have reason: "planning_reason q = ''ready''" using run(2) plan(3) by (simp add: ready_for_def ready_for_execution_def)
  note gates = ready_gates [OF reason]
  have "\<exists>queen. map_of (pq_repository_queens q) repo = Some queen \<and>
       queen \<in> set (sx_pilot_queens cx) \<and> repo \<in> set (sx_pilot_repositories cx)"
    if "repo \<in> set (pq_repositories q)" for repo
  proof -
    have "repo \<in> set (filter (\<lambda>r. map_of (pq_repository_queens q) r \<noteq> None) (pq_repositories q))"
      using gates(2) that by auto
    then obtain d where "d \<in> set (gp_dispatches p)" "plan_dispatch sha256 q priority digest request_id repo = Inr d"
      using map_result_member [OF ds] by blast
    then show ?thesis using plan_dispatch_Inr run(2) by (fastforce simp: ready_for_def list_all_iff)
  qed
  moreover have "pq_actor_principal_id q = ''godbee-main''"
    using plan(1) by (auto simp: plan_checks_def and_then_eq_Inr check_eq_Inr GODBEE_PRINCIPAL_def)
  moreover have "set (demanded_gates (pq_constraints q)) \<subseteq> set (sx_confirmed_gates cx)"
    using run(2) plan(4) by (auto simp: ready_for_def list_all_iff normalized_gates_def)
  ultimately show ?thesis using run(1) plan(2) gates(1) by simp
qed

subsection \<open>Witnesses\<close>

definition sample_plan_request :: plan_request where
  "sample_plan_request =
     \<lparr>pq_actor_principal_id = ''godbee-main'', pq_objective = ''objective'', pq_repositories = [''repo''],
      pq_priority = Inl DP1, pq_success_criteria = [], pq_constraints = [''no Force-Push''],
      pq_repository_queens = [(''repo'', ''queen'')], pq_user_gates = [''global_destruction''],
      pq_mode = ''enforced'', pq_clock = Inr (utc_at 1)\<rparr>"

definition sample_context :: "nat GlobalSagaExecutionContext" where
  "sample_context =
     \<lparr>sx_pilot_queens = [''queen''], sx_pilot_repositories = [''repo''],
      sx_confirmed_gates = [''global_destruction''],
      sx_create_global_request = Some (\<lambda>_ w. (Inr PNone, w)), sx_create_repo_dispatch = Some (\<lambda>_ w. (Inr PNone, w)),
      sx_execute_repo_dispatch = Some (\<lambda>_ w. (Inl ValueError, Suc w)),
      sx_compensate = Some (\<lambda>_ _ _ w. (Inr PNone, w)), sx_retry_dispatch = None, sx_cancel_request = None\<rparr>"

definition sample_saga :: "GlobalRequestPlan \<Rightarrow> bool" where
  "sample_saga p =
     (case execute_global_request p (Some (traced sample_context)) (0, []) of
        (r, (w, events)) \<Rightarrow> length events = 6)"

lemma sample_plan: "\<exists>p. plan_global_request (\<lambda>_. ''0123'') sample_plan_request = Inr p \<and> sample_saga p"
proof -
  have "case plan_global_request (\<lambda>_. ''0123'') sample_plan_request of Inl e \<Rightarrow> False | Inr p \<Rightarrow> sample_saga p"
    by code_simp
  then show ?thesis by (auto split: sum.splits)
qed

theorem saga_needs_its_gates_witness:
  "set (demanded_gates [''no Force-Push'']) \<subseteq> set [''global_destruction''] \<inter> set (sx_confirmed_gates sample_context)"
proof -
  obtain p where p: "plan_global_request (\<lambda>_. ''0123'') sample_plan_request = Inr p" "sample_saga p"
    using sample_plan by blast
  obtain r w events where run: "execute_global_request p (Some (traced sample_context)) (0, []) = (r, (w, events))"
    by (metis surj_pair)
  then have "events \<noteq> []" using p(2) by (auto simp: sample_saga_def)
  from saga_needs_its_gates [OF p(1) run this] show ?thesis by (simp add: sample_plan_request_def)
qed

end
