(* ===== verification/Work_Queue.thy ===== *)
theory Work_Queue
  imports Dispatch Hive_Json "HOL-Library.Product_Lexorder"
begin

text \<open>
  \<open>hive/queue.py\<close>: the order in which work packages are handed out and the ledger of their costs.
  The two callbacks, \<open>dependency_done\<close> and \<open>queen_deficit\<close>, are functions that may raise; the text
  that \<open>str\<close> gives a repository id that is no string is a parameter, \<open>str_of\<close>.
\<close>

definition MAX_QUEUE_ITEMS :: int where "MAX_QUEUE_ITEMS = 4096"

definition MAX_COST_MICRO :: int where "MAX_COST_MICRO = 10 ^ 18"

definition RUNNABLE :: "string list" where "RUNNABLE = [''ready'', ''queued'']"

fun PRIORITY_RANK :: "DispatchPriority \<Rightarrow> int" where
  "PRIORITY_RANK DP0 = 0"
| "PRIORITY_RANK DP1 = 1"
| "PRIORITY_RANK DP2 = 2"
| "PRIORITY_RANK DP3 = 3"

text \<open>
  \<open>WorkPriorityKey\<close>, an ordered dataclass, compares as the tuple of its fields: priority rank,
  deadline, negated deficit, ready time, unblocked time, repository, work package.
\<close>

type_synonym WorkPriorityKey = "int \<times> int \<times> int \<times> int \<times> int \<times> string \<times> string"

record QueueDecision =
  qd_workpackage :: WorkPackage
  qd_priority_key :: WorkPriorityKey
  qd_reason_codes :: "string list"

record WorkQueue =
  wq_items :: "WorkPackage list"
  wq_dependency_done :: "string \<Rightarrow> bool result"
  wq_queen_deficit :: "WorkPackage \<Rightarrow> int result"
  wq_reserved :: "(string, int) dict"
  wq_finalized :: "(string, int option) dict"

subsection \<open>Decisions\<close>

definition decision_repo_id :: "QueueDecision \<Rightarrow> string" where
  "decision_repo_id d =
     (case map_of (wp_resource_profile (qd_workpackage d)) ''repo_id'' of
        Some (PStr s) \<Rightarrow> s | _ \<Rightarrow> ''not_returned'')"

definition queue_decision_public :: "QueueDecision \<Rightarrow> (string \<times> pyval) list" where
  "queue_decision_public d =
     [(''workpackage_id'', PStr (wp_workpackage_id (qd_workpackage d))),
      (''repo_id'', PStr (decision_repo_id d)),
      (''priority'', py_get (wp_resource_profile (qd_workpackage d)) ''dispatch_priority'' (PStr ''not_returned'')),
      (''reason_codes'', PList (map PStr (qd_reason_codes d)))]"

subsection \<open>The queue\<close>

text \<open>\<open>WorkQueue(items, dependency_done=..., queen_deficit=...)\<close>; a missing callback has its default.\<close>

definition WorkQueue_init ::
  "WorkPackage list \<Rightarrow> (string \<Rightarrow> bool result) option \<Rightarrow> (WorkPackage \<Rightarrow> int result) option \<Rightarrow>
     WorkQueue result" where
  "WorkQueue_init items dependency_done queen_deficit =
     and_then (check (int (length items) \<le> MAX_QUEUE_ITEMS) (QueueError ''invalid_queue_items'')) (\<lambda>_.
     and_then (check (distinct (map wp_workpackage_id items)) (QueueError ''duplicate_workpackage'')) (\<lambda>_.
     Inr \<lparr>wq_items = items,
          wq_dependency_done = (case dependency_done of None \<Rightarrow> (\<lambda>_. Inr False) | Some f \<Rightarrow> f),
          wq_queen_deficit = (case queen_deficit of None \<Rightarrow> (\<lambda>_. Inr 0) | Some f \<Rightarrow> f),
          wq_reserved = [], wq_finalized = []\<rparr>))"

definition queue_now :: "py_datetime \<Rightarrow> py_datetime result" where
  "queue_now now =
     rescue (validate_utc_datetime now ''queue_time'')
       (\<lambda>e. case e of HiveValidationError m \<Rightarrow> Inl (QueueError m) | _ \<Rightarrow> Inl e)"

text \<open>\<open>all(dependency_done(d) for d in \<dots>)\<close> stops at the first \<open>False\<close>; any exception is \<open>False\<close>.\<close>

fun dependencies_ready :: "(string \<Rightarrow> bool result) \<Rightarrow> string list \<Rightarrow> bool" where
  "dependencies_ready dependency_done [] = True"
| "dependencies_ready dependency_done (d # ds) =
     (case dependency_done d of
        Inl e \<Rightarrow> False
      | Inr b \<Rightarrow> b \<and> dependencies_ready dependency_done ds)"

definition item_runnable :: "WorkQueue \<Rightarrow> WorkPackage \<Rightarrow> bool" where
  "item_runnable q w =
     (wp_state w \<in> set RUNNABLE \<and>
      dependencies_ready (wq_dependency_done q) (wp_depends_on_workpackage_ids w))"

text \<open>
  \<open>int(ready.timestamp() * 1000)\<close>: the seconds since 1970 as a double, times 1000 as a double,
  truncated towards zero. Rounding is symmetric in the sign.
\<close>

definition unix_epoch_us :: int where
  "unix_epoch_us = 719162 * us_per_day"

definition timestamp_ms :: "py_datetime \<Rightarrow> int" where
  "timestamp_ms d =
     (let us = instant d - unix_epoch_us;
          ms = \<lfloor>to_double (to_double (of_int \<bar>us\<bar> / 1000000) * 1000)\<rfloor>
      in if us < 0 then - ms else ms)"

definition NO_TIME :: int where
  "NO_TIME = 2 ^ 63 - 1"

fun deadline_ms :: "pyval \<Rightarrow> int" where
  "deadline_ms (PInt i) = (if 0 \<le> i then i else NO_TIME)"
| "deadline_ms (PBool b) = (if b then 1 else 0)"
| "deadline_ms _ = NO_TIME"

text \<open>
  The handler of \<open>except (TypeError, ValueError, OverflowError)\<close>: the exception classes of the hive
  derive from \<open>ValueError\<close>, those of the selection service do not.
\<close>

fun deficit_error :: "exn \<Rightarrow> bool" where
  "deficit_error (SelectionServiceError _) = False"
| "deficit_error (RetryableSelectionError _) = False"
| "deficit_error (SelectionDeniedError _) = False"
| "deficit_error KeyError = False"
| "deficit_error AttributeError = False"
| "deficit_error (OtherError _) = False"
| "deficit_error _ = True"

definition work_key ::
  "(pyval \<Rightarrow> string) \<Rightarrow> WorkQueue \<Rightarrow> WorkPackage \<Rightarrow> py_datetime \<Rightarrow> WorkPriorityKey result" where
  "work_key str_of q w now =
     (let profile = wp_resource_profile w;
          priority = (case DispatchPriority_of (py_get profile ''dispatch_priority'' (PStr ''DP3'')) of
                        Inl e \<Rightarrow> DP3 | Inr p \<Rightarrow> p);
          deadline = py_get profile ''deadline_epoch_ms'' (PInt NO_TIME);
          ready = (case wp_ready_since_utc w of None \<Rightarrow> now | Some t \<Rightarrow> t);
          times = (case validate_utc_datetime ready ''timestamp'' of
                     Inl e \<Rightarrow> (NO_TIME, NO_TIME)
                   | Inr u \<Rightarrow> (deadline_ms deadline, timestamp_ms u));
          repo = (case py_get profile ''repo_id'' (PStr '''') of PStr s \<Rightarrow> s | v \<Rightarrow> str_of v)
      in and_then (rescue (wq_queen_deficit q w) (\<lambda>e. if deficit_error e then Inr 0 else Inl e)) (\<lambda>d.
           Inr (PRIORITY_RANK priority, fst times, - max (- MAX_COST_MICRO) (min MAX_COST_MICRO d),
                snd times, snd times, repo, wp_workpackage_id w)))"

text \<open>\<open>sorted(runnable, key=...)\<close>: every key first, in the order of the items, then a stable sort.\<close>

definition keyed_items ::
  "(pyval \<Rightarrow> string) \<Rightarrow> WorkQueue \<Rightarrow> py_datetime \<Rightarrow> (WorkPriorityKey \<times> WorkPackage) list result" where
  "keyed_items str_of q now =
     map_result (\<lambda>w. and_then (work_key str_of q w now) (\<lambda>k. Inr (k, w)))
       (filter (item_runnable q) (wq_items q))"

definition runnable_items ::
  "(pyval \<Rightarrow> string) \<Rightarrow> WorkQueue \<Rightarrow> py_datetime \<Rightarrow> WorkPackage list result" where
  "runnable_items str_of q now =
     and_then (queue_now now) (\<lambda>_.
     and_then (keyed_items str_of q now) (\<lambda>ks. Inr (map snd (sort_key fst ks))))"

text \<open>
  The limit test compares any number; a float in range fails only at the slice, a value that is not
  a number at the comparison.
\<close>

fun queue_limit :: "pyval \<Rightarrow> nat option result" where
  "queue_limit (PInt i) =
     (if 1 \<le> i \<and> i \<le> MAX_QUEUE_ITEMS then Inr (Some (nat i)) else Inl (QueueError ''invalid_queue_limit''))"
| "queue_limit (PFloat x) =
     (if 1 \<le> x \<and> x \<le> of_int MAX_QUEUE_ITEMS then Inr None else Inl (QueueError ''invalid_queue_limit''))"
| "queue_limit (PBool b) = Inl (QueueError ''invalid_queue_limit'')"
| "queue_limit _ = Inl TypeError"

definition QUEUE_REASONS :: "string list" where
  "QUEUE_REASONS = [''dispatch_priority'', ''deadline'', ''queen_fairness'', ''age'']"

definition queue_preview ::
  "(pyval \<Rightarrow> string) \<Rightarrow> WorkQueue \<Rightarrow> py_datetime \<Rightarrow> pyval \<Rightarrow> QueueDecision list result" where
  "queue_preview str_of q now limit =
     and_then (queue_limit limit) (\<lambda>l.
     and_then (runnable_items str_of q now) (\<lambda>ws.
       case l of
         None \<Rightarrow> Inl TypeError
       | Some n \<Rightarrow>
           map_result (\<lambda>w. and_then (work_key str_of q w now) (\<lambda>k.
             Inr \<lparr>qd_workpackage = w, qd_priority_key = k, qd_reason_codes = QUEUE_REASONS\<rparr>)) (take n ws)))"

definition select_next :: "(pyval \<Rightarrow> string) \<Rightarrow> WorkQueue \<Rightarrow> py_datetime \<Rightarrow> QueueDecision result" where
  "select_next str_of q now =
     and_then (queue_preview str_of q now (PInt 1)) (\<lambda>ds.
       case ds of [] \<Rightarrow> Inl (QueueError ''no_runnable_workpackage'') | d # _ \<Rightarrow> Inr d)"

subsection \<open>The cost ledger\<close>

definition reserve_cost :: "string \<Rightarrow> pyval \<Rightarrow> (WorkQueue, unit) op" where
  "reserve_cost i cost q =
     (if i \<notin> wp_workpackage_id ` set (wq_items q) then (Inl (QueueError ''unknown_workpackage''), q)
      else case py_bounded_int cost 0 MAX_COST_MICRO of
             None \<Rightarrow> (Inl (QueueError ''invalid_queue_cost''), q)
           | Some c \<Rightarrow>
               if map_of (wq_reserved q) i \<noteq> None \<or> map_of (wq_finalized q) i \<noteq> None
               then (Inl (QueueError ''queue_cost_already_recorded''), q)
               else (Inr (), q\<lparr>wq_reserved := AList.update i c (wq_reserved q)\<rparr>))"

definition finalize_cost :: "string \<Rightarrow> pyval \<Rightarrow> (WorkQueue, unit) op" where
  "finalize_cost i actual q =
     (if map_of (wq_reserved q) i = None then (Inl (QueueError ''queue_cost_not_reserved''), q)
      else let record_as = (\<lambda>c. (Inr (), q\<lparr>wq_finalized := AList.update i c (wq_finalized q),
                                           wq_reserved := AList.delete i (wq_reserved q)\<rparr>))
           in if actual = PNone then record_as None
              else case py_bounded_int actual 0 MAX_COST_MICRO of
                     None \<Rightarrow> (Inl (QueueError ''invalid_queue_cost''), q)
                   | Some c \<Rightarrow> record_as (Some c))"

definition rollback_cost :: "string \<Rightarrow> (WorkQueue, unit) op" where
  "rollback_cost i q =
     (if map_of (wq_reserved q) i = None then (Inl (QueueError ''queue_cost_not_reserved''), q)
      else (Inr (), q\<lparr>wq_reserved := AList.delete i (wq_reserved q)\<rparr>))"

end
