(* ===== verification/Work_Queue_Properties.thy ===== *)
theory Work_Queue_Properties
  imports Work_Queue Hive_Contracts
begin

text \<open>
  What the work queue promises: a preview is the best-first prefix of the runnable packages, whatever
  order the packages arrive in, and every cost is accounted for exactly once.
\<close>

subsection \<open>Keys\<close>

lemma work_key_cong: "wq_queen_deficit q' = wq_queen_deficit q \<Longrightarrow> work_key str_of q' = work_key str_of q"
  by (simp add: work_key_def fun_eq_iff)

lemma work_key_id:
  "work_key str_of q w now = Inr k \<Longrightarrow> snd (snd (snd (snd (snd (snd k))))) = wp_workpackage_id w"
  by (auto simp: work_key_def Let_def result_simps)

interpretation work: identifying_key "fst :: WorkPriorityKey \<times> WorkPackage \<Rightarrow> WorkPriorityKey"
  "\<lambda>(k, w). wp_workpackage_id w" "\<lambda>(k, w). work_key str_of q w now = Inr k"
  for str_of :: "pyval \<Rightarrow> string" and q :: WorkQueue and now :: py_datetime
  by unfold_locales (auto dest!: work_key_id)

text \<open>The runnable items with their keys, when every key exists.\<close>

definition keyed ::
  "(pyval \<Rightarrow> string) \<Rightarrow> WorkQueue \<Rightarrow> py_datetime \<Rightarrow> (WorkPriorityKey \<times> WorkPackage) list" where
  "keyed str_of q now =
     map (\<lambda>w. (projr (work_key str_of q w now), w)) (filter (item_runnable q) (wq_items q))"

definition all_keys :: "(pyval \<Rightarrow> string) \<Rightarrow> WorkQueue \<Rightarrow> py_datetime \<Rightarrow> bool" where
  "all_keys str_of q now = (\<forall>w \<in> set (filter (item_runnable q) (wq_items q)). is_ok (work_key str_of q w now))"

definition decision_of :: "WorkPriorityKey \<times> WorkPackage \<Rightarrow> QueueDecision" where
  "decision_of p = \<lparr>qd_workpackage = snd p, qd_priority_key = fst p, qd_reason_codes = QUEUE_REASONS\<rparr>"

lemma is_ok_and_then_Inr [simp]: "is_ok (and_then m (\<lambda>x. Inr (g x))) = is_ok m"
  by (cases m) auto

lemma projr_and_then_Inr: "is_ok m \<Longrightarrow> projr (and_then m (\<lambda>x. Inr (g x))) = g (projr m)"
  by (cases m) auto

lemma keyed_items_iff:
  "keyed_items str_of q now = Inr ks \<longleftrightarrow> all_keys str_of q now \<and> ks = keyed str_of q now"
  by (auto simp: keyed_items_def map_result_Inr_iff all_keys_def keyed_def projr_and_then_Inr)

lemma keyed_proper:
  "all_keys str_of q now \<Longrightarrow> list_all (\<lambda>(k, w). work_key str_of q w now = Inr k) (keyed str_of q now)"
  by (auto simp: list_all_iff keyed_def all_keys_def) (metis is_ok.elims(2) sum.sel(2))

lemma keyed_distinct:
  "distinct (map wp_workpackage_id (wq_items q)) \<Longrightarrow>
     distinct (map (\<lambda>(k, w). wp_workpackage_id w) (keyed str_of q now))"
  by (simp add: keyed_def comp_def distinct_map_filter)

text \<open>A preview is a prefix of the runnable items, sorted by key, each with its key.\<close>

lemma queue_preview_iff:
  "queue_preview str_of q now limit = Inr ds \<longleftrightarrow>
     (\<exists>n u. queue_limit limit = Inr (Some n) \<and> queue_now now = Inr u \<and> all_keys str_of q now \<and>
        ds = map decision_of (take n (sort_key fst (keyed str_of q now))))"
proof (cases "all_keys str_of q now")
  case True
  have "map_result (\<lambda>w. and_then (work_key str_of q w now) (\<lambda>k.
          Inr \<lparr>qd_workpackage = w, qd_priority_key = k, qd_reason_codes = QUEUE_REASONS\<rparr>))
          (take n (map snd (sort_key fst (keyed str_of q now)))) =
        Inr (map decision_of (take n (sort_key fst (keyed str_of q now))))" for n
    using keyed_proper [OF True] set_take_subset [of n "sort_key fst (keyed str_of q now)"]
    by (fastforce simp: map_result_Inr_iff take_map decision_of_def list_all_iff)
  with True show ?thesis
    by (auto simp: queue_preview_def runnable_items_def keyed_items_iff result_simps split: option.splits)
next
  case False
  then show ?thesis
    by (auto simp: queue_preview_def runnable_items_def keyed_items_iff result_simps)
qed

subsection \<open>The order\<close>

lemma keyed_mem:
  "p \<in> set (keyed str_of q now) \<longleftrightarrow>
     (\<exists>w \<in> set (wq_items q). item_runnable q w \<and> p = (projr (work_key str_of q w now), w))"
  by (auto simp: keyed_def)

lemma keyed_strict:
  assumes "distinct (map wp_workpackage_id (wq_items q))" and "all_keys str_of q now"
  shows "sorted_wrt (\<lambda>p r. fst p < fst r) (sort_key fst (keyed str_of q now))"
proof -
  let ?ks = "sort_key fst (keyed str_of q now)"
  have "inj_on fst (set (keyed str_of q now))"
    using work.key_inj_on [OF keyed_distinct [OF assms(1)] keyed_proper [OF assms(2)]] .
  moreover have "distinct (keyed str_of q now)"
    using keyed_distinct [OF assms(1)] by (auto simp: distinct_map)
  ultimately have "distinct (map fst ?ks)" by (simp add: distinct_map)
  then have "sorted_wrt (<) (map fst ?ks)" by (simp add: strict_sorted_iff)
  then show ?thesis by (simp add: sorted_wrt_map)
qed

lemma WorkQueue_init_Inr:
  "WorkQueue_init items dd qd = Inr q \<Longrightarrow>
     wq_items q = items \<and> distinct (map wp_workpackage_id items) \<and> wq_reserved q = [] \<and> wq_finalized q = []"
  by (auto simp: WorkQueue_init_def result_simps)

lemma sorted_wrt_take_drop:
  "sorted_wrt R xs \<Longrightarrow> x \<in> set (take n xs) \<Longrightarrow> y \<in> set (drop n xs) \<Longrightarrow> R x y"
  by (metis append_take_drop_id sorted_wrt_append)

text \<open>
  C29. A preview lists runnable packages only, at most \<open>limit\<close> of them and as many as there are,
  strictly best first by key, and no runnable package that is left out has a better key than a listed one.
\<close>

theorem preview_best_first:
  assumes "WorkQueue_init items dd qd = Inr q" and "queue_preview str_of q now (PInt n) = Inr ds"
  shows "sorted_wrt (\<lambda>d e. qd_priority_key d < qd_priority_key e) ds \<and>
     length ds = min (nat n) (length (filter (item_runnable q) items)) \<and>
     (\<forall>d \<in> set ds. qd_workpackage d \<in> set items \<and> item_runnable q (qd_workpackage d) \<and>
        work_key str_of q (qd_workpackage d) now = Inr (qd_priority_key d)) \<and>
     (\<forall>w \<in> set items. item_runnable q w \<longrightarrow> w \<notin> qd_workpackage ` set ds \<longrightarrow>
        (\<exists>k. work_key str_of q w now = Inr k \<and> (\<forall>d \<in> set ds. qd_priority_key d < k)))"
proof -
  let ?ks = "sort_key fst (keyed str_of q now)"
  note q = WorkQueue_init_Inr [OF assms(1)]
  have ok: "all_keys str_of q now" and ds: "ds = map decision_of (take (nat n) ?ks)"
    using assms(2) by (auto simp: queue_preview_iff split: if_splits)
  have strict: "sorted_wrt (\<lambda>p r. fst p < fst r) ?ks" using keyed_strict q ok by blast
  have proper: "work_key str_of q w now = Inr k" if "(k, w) \<in> set ?ks" for k w
    using keyed_proper [OF ok] that by (auto simp: list_all_iff)
  have "sorted_wrt (\<lambda>d e. qd_priority_key d < qd_priority_key e) ds"
    using sorted_wrt_take [OF strict] by (simp add: ds sorted_wrt_map decision_of_def)
  moreover have "length ds = min (nat n) (length (filter (item_runnable q) items))"
    using q by (simp add: ds keyed_def)
  moreover have "qd_workpackage d \<in> set items \<and> item_runnable q (qd_workpackage d) \<and>
        work_key str_of q (qd_workpackage d) now = Inr (qd_priority_key d)" if "d \<in> set ds" for d
    using that q proper set_take_subset [of "nat n" ?ks]
    by (fastforce simp: ds decision_of_def keyed_mem)
  moreover have "\<exists>k. work_key str_of q w now = Inr k \<and> (\<forall>d \<in> set ds. qd_priority_key d < k)"
    if w: "w \<in> set items" "item_runnable q w" "w \<notin> qd_workpackage ` set ds" for w
  proof -
    obtain k where k: "(k, w) \<in> set ?ks" using w q by (auto simp: keyed_mem)
    with w(3) have "(k, w) \<notin> set (take (nat n) ?ks)" by (force simp: ds decision_of_def)
    with k have "(k, w) \<in> set (drop (nat n) ?ks)"
      by (metis Un_iff append_take_drop_id set_append)
    then have "fst p < k" if "p \<in> set (take (nat n) ?ks)" for p
      using sorted_wrt_take_drop [OF strict that] by (metis fst_conv)
    then have "qd_priority_key d < k" if "d \<in> set ds" for d
      using that by (auto simp only: ds decision_of_def set_map image_iff QueueDecision.simps)
    then show ?thesis using proper [OF k] by blast
  qed
  ultimately show ?thesis by blast
qed

text \<open>
  The order of the packages at construction has no influence: the queue built from any
  permutation of them gives the same previews, so the selected package is the same.
\<close>

theorem queue_order_independent:
  assumes "WorkQueue_init xs dd qd = Inr q" and "mset xs = mset ys"
    and "queue_preview str_of q now limit = Inr ds"
  shows "\<exists>q'. WorkQueue_init ys dd qd = Inr q' \<and> queue_preview str_of q' now limit = Inr ds"
proof -
  have "mset (map wp_workpackage_id xs) = mset (map wp_workpackage_id ys)" using assms(2) by simp
  then have "distinct (map wp_workpackage_id ys)" using WorkQueue_init_Inr [OF assms(1)]
    by (metis mset_eq_imp_distinct_iff)
  moreover have "length ys = length xs" using assms(2) by (metis size_mset)
  ultimately have q': "WorkQueue_init ys dd qd = Inr (q\<lparr>wq_items := ys\<rparr>)"
    using assms(1) by (auto simp: WorkQueue_init_def check_def split: if_splits)
  let ?q' = "q\<lparr>wq_items := ys\<rparr>"
  have same: "work_key str_of ?q' = work_key str_of q" by (rule work_key_cong) simp
  have run: "item_runnable ?q' = item_runnable q" by (simp add: item_runnable_def fun_eq_iff)
  have items: "wq_items q = xs" "distinct (map wp_workpackage_id (wq_items q))"
    using WorkQueue_init_Inr [OF assms(1)] by auto
  obtain n u where l: "queue_limit limit = Inr (Some n)" "queue_now now = Inr u"
    and ok: "all_keys str_of q now" and ds: "ds = map decision_of (take n (sort_key fst (keyed str_of q now)))"
    using assms(3) by (auto simp: queue_preview_iff)
  have "mset (keyed str_of q now) = mset (keyed str_of ?q' now)"
    using assms(2) by (simp add: keyed_def same run items(1))
  then have "sort_key fst (keyed str_of q now) = sort_key fst (keyed str_of ?q' now)"
    by (rule work.sort_key_perm [OF _ keyed_distinct [OF items(2)] keyed_proper [OF ok]])
  moreover have "all_keys str_of ?q' now"
    using ok mset_eq_setD [OF assms(2)] by (auto simp: all_keys_def same run items(1))
  ultimately show ?thesis using q' l ds by (auto simp: queue_preview_iff)
qed

subsection \<open>The cost ledger\<close>

datatype cost_call =
    Reserve string pyval
  | Finalize string pyval
  | Rollback string

fun cost_step :: "cost_call \<Rightarrow> (WorkQueue, unit) op" where
  "cost_step (Reserve i c) = reserve_cost i c"
| "cost_step (Finalize i c) = finalize_cost i c"
| "cost_step (Rollback i) = rollback_cost i"

text \<open>The calls that succeeded, in order, and the queue after them.\<close>

fun cost_run :: "cost_call list \<Rightarrow> WorkQueue \<Rightarrow> cost_call list \<times> WorkQueue" where
  "cost_run [] q = ([], q)"
| "cost_run (c # cs) q =
     (case cost_step c q of
        (r, q1) \<Rightarrow> (case cost_run cs q1 of (ss, q2) \<Rightarrow> ((if is_ok r then c # ss else ss), q2)))"

definition reserves :: "string \<Rightarrow> cost_call list \<Rightarrow> nat" where
  "reserves i cs = length (filter (\<lambda>c. case c of Reserve j _ \<Rightarrow> j = i | _ \<Rightarrow> False) cs)"

definition finalizes :: "string \<Rightarrow> cost_call list \<Rightarrow> nat" where
  "finalizes i cs = length (filter (\<lambda>c. case c of Finalize j _ \<Rightarrow> j = i | _ \<Rightarrow> False) cs)"

definition rollbacks :: "string \<Rightarrow> cost_call list \<Rightarrow> nat" where
  "rollbacks i cs = length (filter (\<lambda>c. case c of Rollback j \<Rightarrow> j = i | _ \<Rightarrow> False) cs)"

lemmas counting = reserves_def finalizes_def rollbacks_def

definition is_reserved :: "WorkQueue \<Rightarrow> string \<Rightarrow> nat" where
  "is_reserved q i = (if map_of (wq_reserved q) i = None then 0 else 1)"

definition is_finalized :: "WorkQueue \<Rightarrow> string \<Rightarrow> nat" where
  "is_finalized q i = (if map_of (wq_finalized q) i = None then 0 else 1)"

definition ledger_ok :: "WorkQueue \<Rightarrow> bool" where
  "ledger_ok q =
     (\<forall>i. (map_of (wq_reserved q) i = None \<or> map_of (wq_finalized q) i = None) \<and>
          (\<forall>c. map_of (wq_reserved q) i = Some c \<longrightarrow>
             i \<in> wp_workpackage_id ` set (wq_items q) \<and> 0 \<le> c \<and> c \<le> MAX_COST_MICRO) \<and>
          (\<forall>c. map_of (wq_finalized q) i = Some (Some c) \<longrightarrow> 0 \<le> c \<and> c \<le> MAX_COST_MICRO))"

lemma ledger_ok_one:
  assumes "ledger_ok q"
  shows "is_reserved q i + is_finalized q i \<le> 1"
proof -
  have "map_of (wq_reserved q) i = None \<or> map_of (wq_finalized q) i = None"
    using assms by (simp add: ledger_ok_def)
  then show ?thesis by (auto simp: is_reserved_def is_finalized_def)
qed

lemmas cost_defs = reserve_cost_def finalize_cost_def rollback_cost_def Let_def

text \<open>What one call does to the ledger: nothing when it fails, one move of one entry when it succeeds.\<close>

lemma cost_step_cases:
  assumes "cost_step c q = (r, q')"
  obtains (failed) e where "r = Inl e" "q' = q"
  | (reserved) i k where "c = Reserve i (PInt k)" "r = Inr ()" "0 \<le> k" "k \<le> MAX_COST_MICRO"
      "i \<in> wp_workpackage_id ` set (wq_items q)" "map_of (wq_reserved q) i = None" "map_of (wq_finalized q) i = None"
      "q' = q\<lparr>wq_reserved := AList.update i k (wq_reserved q)\<rparr>"
  | (finalized) i v k where "c = Finalize i v" "r = Inr ()" "map_of (wq_reserved q) i \<noteq> None"
      "case k of None \<Rightarrow> True | Some x \<Rightarrow> 0 \<le> x \<and> x \<le> MAX_COST_MICRO"
      "q' = q\<lparr>wq_finalized := AList.update i k (wq_finalized q), wq_reserved := AList.delete i (wq_reserved q)\<rparr>"
  | (rolled_back) i where "c = Rollback i" "r = Inr ()" "map_of (wq_reserved q) i \<noteq> None"
      "q' = q\<lparr>wq_reserved := AList.delete i (wq_reserved q)\<rparr>"
proof (cases c)
  case (Reserve i v)
  with assms show ?thesis
    by (auto simp: cost_defs py_bounded_int_Some split: if_splits option.splits intro: failed reserved)
next
  case (Finalize i v)
  with assms show ?thesis
    by (auto simp: cost_defs py_bounded_int_Some split: if_splits option.splits
             intro: failed finalized [of _ _ None] finalized [of _ _ "Some _"])
next
  case (Rollback i)
  with assms show ?thesis
    by (auto simp: cost_defs split: if_splits intro: failed rolled_back)
qed

lemma cost_step_ledger:
  assumes "ledger_ok q" and "cost_step c q = (r, q')"
  shows "ledger_ok q'"
  using assms(2)
proof (cases rule: cost_step_cases)
  case failed
  with assms(1) show ?thesis by simp
next
  case reserved
  with assms(1) show ?thesis by (auto simp: ledger_ok_def)
next
  case (finalized i v k)
  with assms(1) show ?thesis
    by (auto simp: ledger_ok_def delete_conv' split: if_splits)
next
  case rolled_back
  with assms(1) show ?thesis by (auto simp: ledger_ok_def delete_conv')
qed

text \<open>The balance: every successful reservation is open, finalized or rolled back.\<close>

lemma cost_step_balance:
  assumes "ledger_ok q" and "cost_step c q = (r, q')" and "ss = (if is_ok r then [c] else [])"
  shows "is_reserved q i + reserves i ss = is_reserved q' i + finalizes i ss + rollbacks i ss \<and>
     is_finalized q i + finalizes i ss = is_finalized q' i \<and>
     (map_of (wq_finalized q) i = Some k \<longrightarrow> map_of (wq_finalized q') i = Some k)"
  using assms(2)
proof (cases rule: cost_step_cases)
  case failed
  with assms(3) show ?thesis by (simp add: counting)
next
  case (reserved j c)
  with assms(3) show ?thesis by (simp add: counting is_reserved_def is_finalized_def)
next
  case (finalized j v k)
  moreover have "is_reserved q j + is_finalized q j \<le> 1" using assms(1) by (rule ledger_ok_one)
  ultimately show ?thesis
    using assms(3) by (auto simp: counting is_reserved_def is_finalized_def delete_conv' split: if_splits)
next
  case (rolled_back j)
  with assms(3) show ?thesis by (simp add: counting is_reserved_def is_finalized_def delete_conv')
qed

lemma counting_append:
  "reserves i (xs @ ys) = reserves i xs + reserves i ys"
  "finalizes i (xs @ ys) = finalizes i xs + finalizes i ys"
  "rollbacks i (xs @ ys) = rollbacks i xs + rollbacks i ys"
  by (simp_all add: counting)

lemma cost_run_balance:
  assumes "ledger_ok q" and "cost_run cs q = (ss, q')"
  shows "ledger_ok q' \<and>
     is_reserved q i + reserves i ss = is_reserved q' i + finalizes i ss + rollbacks i ss \<and>
     is_finalized q i + finalizes i ss = is_finalized q' i \<and>
     (map_of (wq_finalized q) i = Some k \<longrightarrow> map_of (wq_finalized q') i = Some k)"
  using assms
proof (induction cs arbitrary: q ss)
  case Nil
  then show ?case by (simp add: counting)
next
  case (Cons c cs)
  obtain r q1 where step: "cost_step c q = (r, q1)" by (cases "cost_step c q")
  obtain ss1 where run: "cost_run cs q1 = (ss1, q')" and ss: "ss = (if is_ok r then [c] else []) @ ss1"
    using Cons.prems(2) step by (auto split: prod.splits if_splits)
  note ok1 = cost_step_ledger [OF Cons.prems(1) step]
  show ?case
    using cost_step_balance [OF Cons.prems(1) step refl, of i k] Cons.IH [OF ok1 run]
    unfolding ss counting_append by linarith
qed

text \<open>
  C30. Every cost is accounted for exactly once. After any sequence of reservations, finalizations and
  rollbacks on a new queue, the successful reservations of a package are those finalized, those
  rolled back and the open one; it is finalized at most once, and then holds no reservation; all
  amounts are within bounds; a finalized cost stays through any further calls.
\<close>

theorem cost_accounted_once:
  assumes "WorkQueue_init items dd qd = Inr q" and "cost_run cs q = (ss, q')" and "cost_run after q' = (ts, q'')"
  shows "reserves i ss = is_reserved q' i + finalizes i ss + rollbacks i ss \<and>
     finalizes i ss = is_finalized q' i \<and> is_reserved q' i + is_finalized q' i \<le> 1 \<and>
     (\<forall>c. map_of (wq_reserved q') i = Some c \<longrightarrow> 0 \<le> c \<and> c \<le> MAX_COST_MICRO) \<and>
     (\<forall>k. map_of (wq_finalized q') i = Some k \<longrightarrow> map_of (wq_finalized q'') i = Some k \<and> finalizes i ts = 0)"
proof -
  have q: "is_reserved q i = 0" "is_finalized q i = 0" "ledger_ok q"
    using WorkQueue_init_Inr [OF assms(1)] by (simp_all add: ledger_ok_def is_reserved_def is_finalized_def)
  have run: "ledger_ok q'" "reserves i ss = is_reserved q' i + finalizes i ss + rollbacks i ss"
    "finalizes i ss = is_finalized q' i"
    using cost_run_balance [OF q(3) assms(2), of i] q by auto
  have bound: "0 \<le> c \<and> c \<le> MAX_COST_MICRO" if "map_of (wq_reserved q') i = Some c" for c
    using run(1) that by (auto simp: ledger_ok_def)
  have later: "map_of (wq_finalized q'') i = Some k \<and> finalizes i ts = 0"
    if k: "map_of (wq_finalized q') i = Some k" for k
  proof -
    have "map_of (wq_finalized q'') i = Some k" "is_finalized q' i + finalizes i ts = is_finalized q'' i"
      using cost_run_balance [OF run(1) assms(3), of i k] k by auto
    then show ?thesis using k by (simp add: is_finalized_def)
  qed
  have "is_reserved q' i + is_finalized q' i \<le> 1" using run(1) by (rule ledger_ok_one)
  then show ?thesis using run bound later by blast
qed

subsection \<open>Witnesses\<close>

definition queue_package :: "string \<Rightarrow> string \<Rightarrow> WorkPackage" where
  "queue_package i priority =
     \<lparr>wp_workpackage_id = i, wp_dispatch_id = ''d'', wp_owner_teamlead_principal_id = ''lead'',
      wp_objective = ''objective'', wp_scope = [''src''], wp_write_paths = [], wp_success_criteria = [],
      wp_test_requirements = [], wp_release_policy = ''none'', wp_depends_on_workpackage_ids = [],
      wp_resource_profile = [(''dispatch_priority'', PStr priority)], wp_state = ''queued'',
      wp_ready_since_utc = None, wp_version = 1\<rparr>"

definition sample_queue :: "WorkPackage list \<Rightarrow> WorkQueue" where
  "sample_queue items =
     \<lparr>wq_items = items, wq_dependency_done = (\<lambda>_. Inr False), wq_queen_deficit = (\<lambda>_. Inr 0),
      wq_reserved = [], wq_finalized = []\<rparr>"

abbreviation later_package :: WorkPackage where
  "later_package \<equiv> queue_package ''a'' ''DP2''"

abbreviation urgent_package :: WorkPackage where
  "urgent_package \<equiv> queue_package ''b'' ''DP0''"

lemma sample_queue_init:
  "WorkQueue_init [later_package, urgent_package] None None = Inr (sample_queue [later_package, urgent_package])"
  by (simp add: WorkQueue_init_def check_def MAX_QUEUE_ITEMS_def sample_queue_def queue_package_def)

lemma sample_queue_preview:
  "\<exists>k. queue_preview (\<lambda>_. '''') (sample_queue [later_package, urgent_package]) (utc_at 63900000000) (PInt 1) =
     Inr [\<lparr>qd_workpackage = urgent_package, qd_priority_key = (0, k), qd_reason_codes = QUEUE_REASONS\<rparr>]"
proof -
  have utc: "\<exists>u. validate_utc_datetime (utc_at 63900000000) fld = Inr u" for fld
    by (simp add: validate_utc_datetime_def utc_at_def aware_def as_utc_def instant_def us_per_second_def
        max_us_def us_per_day_def)
  show ?thesis
    using utc [of "''queue_time''"] utc [of "''timestamp''"]
    by (auto simp: queue_preview_iff all_keys_def keyed_def item_runnable_def RUNNABLE_def queue_now_def MAX_QUEUE_ITEMS_def
        work_key_def sample_queue_def queue_package_def Let_def py_get_def DispatchPriority_of_def decision_of_def)
qed

theorem preview_best_first_witness:
  "\<exists>ds. queue_preview (\<lambda>_. '''') (sample_queue [later_package, urgent_package]) (utc_at 63900000000) (PInt 1) = Inr ds \<and>
     map qd_workpackage ds = [urgent_package] \<and> sorted_wrt (\<lambda>d e. qd_priority_key d < qd_priority_key e) ds \<and>
     length ds = min 1 (length (filter (item_runnable (sample_queue [later_package, urgent_package])) [later_package, urgent_package]))"
proof -
  obtain k where p: "queue_preview (\<lambda>_. '''') (sample_queue [later_package, urgent_package]) (utc_at 63900000000) (PInt 1) =
     Inr [\<lparr>qd_workpackage = urgent_package, qd_priority_key = (0, k), qd_reason_codes = QUEUE_REASONS\<rparr>]"
    using sample_queue_preview by blast
  show ?thesis using preview_best_first [OF sample_queue_init p] p by auto
qed

theorem queue_order_independent_witness:
  "\<exists>q' ds. WorkQueue_init [urgent_package, later_package] None None = Inr q' \<and>
     queue_preview (\<lambda>_. '''') q' (utc_at 63900000000) (PInt 1) = Inr ds \<and> map qd_workpackage ds = [urgent_package]"
proof -
  obtain k where p: "queue_preview (\<lambda>_. '''') (sample_queue [later_package, urgent_package]) (utc_at 63900000000) (PInt 1) =
     Inr [\<lparr>qd_workpackage = urgent_package, qd_priority_key = (0, k), qd_reason_codes = QUEUE_REASONS\<rparr>]"
    using sample_queue_preview by blast
  have "mset [later_package, urgent_package] = mset [urgent_package, later_package]" by simp
  from queue_order_independent [OF sample_queue_init this p] show ?thesis by fastforce
qed

theorem cost_accounted_once_witness:
  "\<exists>ss q'. cost_run [Reserve ''a'' (PInt 5), Rollback ''a'', Reserve ''a'' (PInt 7), Finalize ''a'' (PInt 6)]
       (sample_queue [later_package, urgent_package]) = (ss, q') \<and>
     reserves ''a'' ss = 2 \<and> rollbacks ''a'' ss = 1 \<and> finalizes ''a'' ss = 1 \<and>
     map_of (wq_finalized (snd (cost_run [Reserve ''a'' (PInt 1), Rollback ''a''] q'))) ''a'' = Some (Some 6)"
proof -
  define cs where "cs = [Reserve ''a'' (PInt 5), Rollback ''a'', Reserve ''a'' (PInt 7), Finalize ''a'' (PInt 6)]"
  obtain ss q' where run: "cost_run cs (sample_queue [later_package, urgent_package]) = (ss, q')"
    by (cases "cost_run cs (sample_queue [later_package, urgent_package])")
  obtain ts q'' where run2: "cost_run [Reserve ''a'' (PInt 1), Rollback ''a''] q' = (ts, q'')"
    by (cases "cost_run [Reserve ''a'' (PInt 1), Rollback ''a''] q'")
  have "ss = cs" and "map_of (wq_finalized q') ''a'' = Some (Some 6)"
    using run by (auto simp: cs_def cost_defs sample_queue_def queue_package_def MAX_COST_MICRO_def)
  then show ?thesis
    using cost_accounted_once [OF sample_queue_init run run2, of "''a''"] run run2
    by (auto simp: cs_def counting)
qed

end
