(* ===== verification/Queen_Assignment.thy ===== *)
theory Queen_Assignment
  imports Dispatch Selection_Planner
begin

text \<open>
  The assignment plans of \<open>hive/dispatch.py\<close>: the plan that hands one work package of the pilot queen
  to a specialist, its constructor checks and gates, and the two planners. A work package arrives
  as a mapping; its values are dynamic, or an account-pool binding.
\<close>

definition PILOT_QUEENS :: "string list" where "PILOT_QUEENS = [''queen-codex-master'']"

definition PILOT_REPOSITORIES :: "string list" where "PILOT_REPOSITORIES = [''codex-master'']"

record QueenAssignmentPlan =
  qp_queen_principal_id :: string
  qp_dispatch_id :: string
  qp_workpackage_id :: string
  qp_repo_id :: string
  qp_teamlead_principal_id :: string
  qp_specialist_principal_id :: string
  qp_writer_class_id :: string
  qp_agent_id :: string
  qp_account_key :: string
  qp_model_id :: string
  qp_model_role :: string
  qp_task_complexity :: TaskComplexity
  qp_scope :: "string list"
  qp_write_paths :: "string list"
  qp_mode :: string
  qp_pilot_enabled :: bool
  qp_account_confirmed :: bool
  qp_authority_verified :: bool
  qp_repository_verified :: bool
  qp_scope_verified :: bool
  qp_lease_available :: bool
  qp_selection_band :: string
  qp_account_pool_binding :: "AccountPoolBindingV1 option"

text \<open>A value of the work package mapping; a binding has no field that the other checks accept.\<close>

datatype plan_value =
    Plain pyval
  | Bound AccountPoolBindingV1

fun plain :: "plan_value \<Rightarrow> pyval" where
  "plain (Plain v) = v"
| "plain (Bound b) = PObject ''AccountPoolBindingV1''"

record assignment_args =
  qa_queen_principal_id :: pyval
  qa_dispatch_id :: pyval
  qa_workpackage_id :: pyval
  qa_repo_id :: pyval
  qa_teamlead_principal_id :: pyval
  qa_specialist_principal_id :: pyval
  qa_writer_class_id :: pyval
  qa_agent_id :: pyval
  qa_account_key :: pyval
  qa_model_id :: pyval
  qa_model_role :: pyval
  qa_task_complexity :: TaskComplexity
  qa_scope :: "pyval list"
  qa_write_paths :: "pyval list"
  qa_mode :: pyval
  qa_gates :: "pyval list"
  qa_selection_band :: pyval
  qa_account_pool_binding :: plan_value

text \<open>\<open>str.isalnum\<close> on the first 256 code points: letters, digits, superscripts and fractions.\<close>

definition is_alnum :: "char \<Rightarrow> bool" where
  "is_alnum c =
     (is_lower c \<or> is_upper c \<or> is_digit c \<or>
      c \<in> set [CHR 0xAA, CHR 0xB2, CHR 0xB3, CHR 0xB5, CHR 0xB9, CHR 0xBA, CHR 0xBC, CHR 0xBD, CHR 0xBE] \<or>
      char_in_range (CHR 0xC0) (CHR 0xD6) c \<or> char_in_range (CHR 0xD8) (CHR 0xF6) c \<or>
      char_in_range (CHR 0xF8) (CHR 0xFF) c)"

fun assignment_model :: "pyval \<Rightarrow> string result" where
  "assignment_model (PStr s) =
     (if 1 \<le> length s \<and> length s \<le> 128 \<and> list_all (\<lambda>c. is_alnum c \<or> c \<in> set ''._:/-'') s
      then Inr s else Inl (HiveDispatchError ''invalid_model''))"
| "assignment_model _ = Inl (HiveDispatchError ''invalid_model'')"

text \<open>\<open>value not in {\<dots>}\<close> raises the given error, or \<open>TypeError\<close> when the value cannot be hashed.\<close>

definition one_of :: "pyval \<Rightarrow> string list \<Rightarrow> exn \<Rightarrow> string result" where
  "one_of v allowed e =
     and_then (py_in_strs v allowed) (\<lambda>b. if b then need (py_str v) e else Inl e)"

fun pool_binding :: "plan_value \<Rightarrow> AccountPoolBindingV1 option result" where
  "pool_binding (Plain PNone) = Inr None"
| "pool_binding (Bound b) = Inr (Some b)"
| "pool_binding _ = Inl (HiveDispatchError ''invalid_dynamic_pool_binding'')"

definition QueenAssignmentPlan_init :: "assignment_args \<Rightarrow> QueenAssignmentPlan result" where
  "QueenAssignmentPlan_init a =
     and_then (msg_id (qa_queen_principal_id a) ''queen'') (\<lambda>queen.
     and_then (msg_id (qa_dispatch_id a) ''dispatch'') (\<lambda>dispatch.
     and_then (msg_id (qa_workpackage_id a) ''workpackage'') (\<lambda>workpackage.
     and_then (msg_id (qa_repo_id a) ''repo'') (\<lambda>repo.
     and_then (msg_id (qa_teamlead_principal_id a) ''teamlead'') (\<lambda>teamlead.
     and_then (msg_id (qa_specialist_principal_id a) ''specialist'') (\<lambda>specialist.
     and_then (msg_id (qa_writer_class_id a) ''class'') (\<lambda>writer.
     and_then (msg_id (qa_agent_id a) ''agent'') (\<lambda>agent.
     and_then (assignment_model (qa_model_id a)) (\<lambda>model.
     and_then (msg_text (qa_account_key a) ''account_key'' 256) (\<lambda>account.
     and_then (check (queen \<in> set PILOT_QUEENS \<and> repo \<in> set PILOT_REPOSITORIES)
                 (HiveDispatchError ''pilot_allowlist_denied'')) (\<lambda>_.
     and_then (check (writer \<in> set [''spezialistin'', ''specialist'']) (HiveDispatchError ''writer_role_denied'')) (\<lambda>_.
     and_then (check (py_eq_str (qa_model_role a) ''primary'') (HiveDispatchError ''primary_model_required'')) (\<lambda>_.
     and_then (msg_texts (PList (qa_scope a)) ''assignment_scope'') (\<lambda>scope.
     and_then (msg_texts (PList (qa_write_paths a)) ''assignment_write_paths'') (\<lambda>write_paths.
     and_then (one_of (qa_mode a) [''shadow'', ''enforced''] (HiveDispatchError ''invalid_assignment_mode'')) (\<lambda>mode.
     and_then (map_result (\<lambda>v. need (py_bool v) (HiveDispatchError ''invalid_assignment_gate'')) (qa_gates a)) (\<lambda>gates.
     and_then (one_of (qa_selection_band a) [''none'', ''primary''] (HiveDispatchError ''selection_feature_disabled'')) (\<lambda>band.
     and_then (check (band = ''none'') (HiveDispatchError ''selection_feature_disabled'')) (\<lambda>_.
     and_then (pool_binding (qa_account_pool_binding a)) (\<lambda>b.
       Inr \<lparr>qp_queen_principal_id = queen, qp_dispatch_id = dispatch, qp_workpackage_id = workpackage,
            qp_repo_id = repo, qp_teamlead_principal_id = teamlead, qp_specialist_principal_id = specialist,
            qp_writer_class_id = writer, qp_agent_id = agent, qp_account_key = account, qp_model_id = model,
            qp_model_role = ''primary'', qp_task_complexity = qa_task_complexity a, qp_scope = scope,
            qp_write_paths = write_paths, qp_mode = mode, qp_pilot_enabled = gates ! 0,
            qp_account_confirmed = gates ! 1, qp_authority_verified = gates ! 2,
            qp_repository_verified = gates ! 3, qp_scope_verified = gates ! 4, qp_lease_available = gates ! 5,
            qp_selection_band = band, qp_account_pool_binding = b\<rparr>))))))))))))))))))))"

definition gates_ready :: "QueenAssignmentPlan \<Rightarrow> bool" where
  "gates_ready p =
     (qp_pilot_enabled p \<and> qp_account_confirmed p \<and> qp_authority_verified p \<and> qp_repository_verified p \<and>
      qp_scope_verified p \<and> qp_lease_available p)"

definition assignment_public :: "QueenAssignmentPlan \<Rightarrow> (string \<times> pyval) list" where
  "assignment_public p =
     [(''queen_principal_id'', PStr (qp_queen_principal_id p)), (''dispatch_id'', PStr (qp_dispatch_id p)),
      (''workpackage_id'', PStr (qp_workpackage_id p)), (''repo_id'', PStr (qp_repo_id p)),
      (''teamlead_principal_id'', PStr (qp_teamlead_principal_id p)),
      (''specialist_principal_id'', PStr (qp_specialist_principal_id p)),
      (''writer_class_id'', PStr (qp_writer_class_id p)), (''agent_id'', PStr (qp_agent_id p)),
      (''model_id'', PStr (qp_model_id p)), (''model_role'', PStr (qp_model_role p)),
      (''task_complexity'', PStr (TaskComplexity_value (qp_task_complexity p))),
      (''scope'', PDict [(''path_count'', PInt (int (length (qp_scope p)))),
                         (''write_path_count'', PInt (int (length (qp_write_paths p))))]),
      (''mode'', PStr (qp_mode p)), (''pilot_enabled'', PBool (qp_pilot_enabled p)),
      (''account_confirmed'', PBool (qp_account_confirmed p)),
      (''authority_verified'', PBool (qp_authority_verified p)),
      (''repository_verified'', PBool (qp_repository_verified p)),
      (''scope_verified'', PBool (qp_scope_verified p)), (''lease_available'', PBool (qp_lease_available p)),
      (''selection_band'', PStr ''disabled''), (''account_key'', PStr ''not_returned''),
      (''raw_output'', PStr ''not_returned'')]"

record QueenAssignmentExecutionContext =
  qc_pilot_queens :: "string list"
  qc_pilot_repositories :: "string list"
  qc_confirmed_accounts :: "string list"
  qc_primary_models :: "string list"
  qc_sp_features_enabled :: bool
  qc_create_teamlead_principal :: "(QueenAssignmentPlan \<Rightarrow> pyval result) option"
  qc_create_specialist_principal :: "(QueenAssignmentPlan \<Rightarrow> pyval result) option"
  qc_issue_grant :: "(QueenAssignmentPlan \<Rightarrow> pyval result) option"
  qc_reserve_admission :: "(QueenAssignmentPlan \<Rightarrow> pyval result) option"
  qc_execute_assignment :: "(QueenAssignmentPlan \<Rightarrow> pyval result) option"
  qc_compensate :: "(string \<Rightarrow> QueenAssignmentPlan \<Rightarrow> pyval \<Rightarrow> unit result) option"

definition assignment_ready_for :: "QueenAssignmentExecutionContext \<Rightarrow> QueenAssignmentPlan \<Rightarrow> bool" where
  "assignment_ready_for c p =
     (\<not> qc_sp_features_enabled c \<and> qp_queen_principal_id p \<in> set (qc_pilot_queens c) \<and>
      qp_repo_id p \<in> set (qc_pilot_repositories c) \<and> qp_account_key p \<in> set (qc_confirmed_accounts c) \<and>
      qp_model_id p \<in> set (qc_primary_models c) \<and> gates_ready p \<and>
      qc_create_teamlead_principal c \<noteq> None \<and> qc_create_specialist_principal c \<noteq> None \<and>
      qc_issue_grant c \<noteq> None \<and> qc_reserve_admission c \<noteq> None \<and> qc_execute_assignment c \<noteq> None \<and>
      qc_compensate c \<noteq> None)"

subsection \<open>Planning\<close>

type_synonym work_mapping = "(string, plan_value) dict"

definition work_item :: "work_mapping \<Rightarrow> string \<Rightarrow> pyval result" where
  "work_item w k = (case map_of w k of None \<Rightarrow> Inl KeyError | Some v \<Rightarrow> Inr (plain v))"

definition work_get :: "work_mapping \<Rightarrow> string \<Rightarrow> pyval \<Rightarrow> pyval" where
  "work_get w k dflt = (case map_of w k of None \<Rightarrow> dflt | Some v \<Rightarrow> plain v)"

definition GATE_NAMES :: "string list" where
  "GATE_NAMES = [''pilot_enabled'', ''account_confirmed'', ''authority_verified'', ''repository_verified'',
     ''scope_verified'', ''lease_available'']"

definition invalid_plan :: exn where
  "invalid_plan = HiveDispatchError ''invalid_workpackage_plan''"

text \<open>The body of the \<open>try\<close> block.\<close>

definition assignment_body :: "pyval \<Rightarrow> pyval \<Rightarrow> work_mapping \<Rightarrow> QueenAssignmentPlan result" where
  "assignment_body queen_id dispatch_id w =
     and_then (work_item w ''task_complexity'') (\<lambda>raw.
     and_then (TaskComplexity_of raw) (\<lambda>complexity.
     and_then (work_item w ''scope'') (\<lambda>scope.
     and_then (work_item w ''write_paths'') (\<lambda>write_paths.
     and_then (need (py_list scope) invalid_plan) (\<lambda>scope.
     and_then (need (py_list write_paths) invalid_plan) (\<lambda>write_paths.
     and_then (work_item w ''workpackage_id'') (\<lambda>workpackage.
     and_then (work_item w ''repo_id'') (\<lambda>repo.
     and_then (work_item w ''teamlead_principal_id'') (\<lambda>teamlead.
     and_then (work_item w ''specialist_principal_id'') (\<lambda>specialist.
     and_then (work_item w ''writer_class_id'') (\<lambda>writer.
     and_then (work_item w ''agent_id'') (\<lambda>agent.
     and_then (work_item w ''account_key'') (\<lambda>account.
     and_then (work_item w ''model_id'') (\<lambda>model.
     and_then (work_item w ''model_role'') (\<lambda>role.
       QueenAssignmentPlan_init
         \<lparr>qa_queen_principal_id = queen_id, qa_dispatch_id = dispatch_id, qa_workpackage_id = workpackage,
          qa_repo_id = repo, qa_teamlead_principal_id = teamlead, qa_specialist_principal_id = specialist,
          qa_writer_class_id = writer, qa_agent_id = agent, qa_account_key = account, qa_model_id = model,
          qa_model_role = role, qa_task_complexity = complexity, qa_scope = scope,
          qa_write_paths = write_paths, qa_mode = work_get w ''mode'' (PStr ''shadow''),
          qa_gates = map (\<lambda>g. work_get w g (PBool False)) GATE_NAMES,
          qa_selection_band = work_get w ''selection_band'' (PStr ''none''),
          qa_account_pool_binding =
            (case map_of w ''account_pool_binding'' of None \<Rightarrow> Plain PNone | Some v \<Rightarrow> v)\<rparr>)))))))))))))))"

definition plan_queen_assignment :: "pyval \<Rightarrow> pyval \<Rightarrow> work_mapping \<Rightarrow> QueenAssignmentPlan result" where
  "plan_queen_assignment queen_id dispatch_id w =
     rescue (assignment_body queen_id dispatch_id w)
       (\<lambda>e. case e of
          HiveDispatchError m \<Rightarrow> Inl e
        | HiveMessageError m \<Rightarrow> Inl invalid_plan
        | KeyError \<Rightarrow> Inl invalid_plan
        | TypeError \<Rightarrow> Inl invalid_plan
        | ValueError \<Rightarrow> Inl invalid_plan
        | _ \<Rightarrow> Inl e)"

definition plan_queen_assignment_from_selection ::
  "pyval \<Rightarrow> pyval \<Rightarrow> work_mapping \<Rightarrow> SelectionResult \<Rightarrow> DynamicPoolInventoryV1 \<Rightarrow> QueenAssignmentPlan result" where
  "plan_queen_assignment_from_selection queen_id dispatch_id w selection inventory =
     (if map_of w ''account_pool_binding'' \<noteq> None then Inl (HiveDispatchError ''manual_dynamic_pool_binding'')
      else if work_get w ''agent_id'' PNone \<noteq> PStr (sr_agent_id selection) \<or>
              work_get w ''model_id'' PNone \<noteq> PStr (sr_model_id selection)
      then Inl (HiveDispatchError ''selection_binding_mismatch'')
      else and_then (resolve_dynamic_pool_selection selection inventory) (\<lambda>resolved.
        plan_queen_assignment queen_id dispatch_id
          (AList.update ''account_pool_binding''
             (case sr_account_pool_binding resolved of None \<Rightarrow> Plain PNone | Some b \<Rightarrow> Bound b) w)))"

end
