(* ===== verification/Hive_State.thy ===== *)
theory Hive_State
  imports Hive_Json
begin

text \<open>
  \<open>hive/state.py\<close>: the private state root. Files are named by the parts of their relative path.
  What the operating system may refuse (directories, lock, reading, writing) is an argument of
  every operation, one optional fault for each step; the contents of the files, the limits and the
  order of the checks are modelled. JSON documents come first, bounded JSON-lines logs second.
  Closing a descriptor is taken not to fail.
\<close>

definition MAX_HIVE_STATE_BYTES :: int where "MAX_HIVE_STATE_BYTES = 4 * 1024 * 1024"
definition MAX_HIVE_JSONL_RECORDS :: int where "MAX_HIVE_JSONL_RECORDS = 4096"
definition MAX_RELATIVE_STATE_PART :: nat where "MAX_RELATIVE_STATE_PART = 128"

text \<open>The faults of the descriptor-level helpers, with the code each raises.\<close>

datatype state_fault =
    Directory_Unavailable | Directory_Untrusted | Path_Escape | Lock_Unavailable | Root_Untrusted
  | Unavailable | File_Untrusted | Write_Failed

fun fault_code :: "state_fault \<Rightarrow> string" where
  "fault_code Directory_Unavailable = ''state_directory_unavailable''"
| "fault_code Directory_Untrusted = ''state_directory_untrusted''"
| "fault_code Path_Escape = ''state_path_escape''"
| "fault_code Lock_Unavailable = ''state_lock_unavailable''"
| "fault_code Root_Untrusted = ''state_root_untrusted''"
| "fault_code Unavailable = ''state_unavailable''"
| "fault_code File_Untrusted = ''state_file_untrusted''"
| "fault_code Write_Failed = ''state_write_failed''"

text \<open>
  Writing has two steps that may fail: everything up to the rename over the target (\<open>si_write\<close>), and
  the opening and \<open>fsync\<close> of the directory after it (\<open>si_unsynced\<close>).
\<close>

record state_io =
  si_lock :: "state_fault option"
  si_path :: "state_fault option"
  si_read :: "state_fault option"
  si_write :: "state_fault option"
  si_unsynced :: bool

definition no_fault :: state_io where
  "no_fault = \<lparr>si_lock = None, si_path = None, si_read = None, si_write = None,
     si_unsynced = False\<rparr>"

definition passes :: "state_fault option \<Rightarrow> unit result" where
  "passes x = (case x of None \<Rightarrow> Inr () | Some flt \<Rightarrow> Inl (HiveStateError (fault_code flt)))"

lemma passes_simps [simp]:
  "passes None = Inr ()" "passes (Some flt) = Inl (HiveStateError (fault_code flt))"
  by (simp_all add: passes_def)

lemma passes_Inr [result_simps]: "passes x = Inr u \<longleftrightarrow> x = None"
  by (cases x) simp_all

lemma passes_Inl [result_simps]: "passes x = Inl e \<longleftrightarrow> (\<exists>flt. x = Some flt \<and> e = HiveStateError (fault_code flt))"
  by (cases x) auto

lemma fault_not_missing [simp]: "fault_code flt \<noteq> ''state_not_found''" "''state_not_found'' \<noteq> fault_code flt"
  by (cases flt; simp)+

text \<open>A \<open>PurePosixPath\<close>: whether it is absolute, and its parts.\<close>

record pure_path =
  pp_absolute :: bool
  pp_parts :: "string list"

definition validate_relative :: "pure_path \<Rightarrow> pure_path result" where
  "validate_relative relative =
     (if pp_absolute relative then Inl (HiveStateError ''invalid_state_path'')
      else if pp_parts relative = [] \<or>
              list_ex (\<lambda>part. \<not> (1 \<le> length part \<and> length part \<le> MAX_RELATIVE_STATE_PART) \<or>
                              part = ''.'' \<or> part = ''..'' \<or> \<not> printable part) (pp_parts relative)
      then Inl (HiveStateError ''invalid_state_path'')
      else Inr relative)"

record HiveStateStore =
  hs_read_only :: bool
  hs_files :: "(string list, state_file) dict"

definition file_at :: "HiveStateStore \<Rightarrow> string list \<Rightarrow> state_file" where
  "file_at st path = (case map_of (hs_files st) path of None \<Rightarrow> No_File | Some f \<Rightarrow> f)"

definition write_file :: "string list \<Rightarrow> state_file \<Rightarrow> HiveStateStore \<Rightarrow> HiveStateStore" where
  "write_file path content st = st\<lparr>hs_files := AList.update path content (hs_files st)\<rparr>"

lemma file_at_write [simp]: "file_at (write_file path content st) p = (if p = path then content else file_at st p)"
  by (simp add: file_at_def write_file_def)

definition state_path :: "state_io \<Rightarrow> pure_path \<Rightarrow> string list result" where
  "state_path io relative =
     and_then (validate_relative relative) (\<lambda>relative.
     and_then (passes (si_path io)) (\<lambda>_. Inr (pp_parts relative)))"

definition validate_limit :: "int \<Rightarrow> unit result" where
  "validate_limit max_bytes =
     check (1 \<le> max_bytes \<and> max_bytes \<le> MAX_HIVE_STATE_BYTES) (HiveStateError ''invalid_state_limit'')"

definition ensure_writable :: "HiveStateStore \<Rightarrow> unit result" where
  "ensure_writable st = check (\<not> hs_read_only st) (HiveStateError ''state_read_only'')"

text \<open>\<open>with self._state.locked():\<close> around a body.\<close>

definition state_locked :: "state_io \<Rightarrow> ('s, 'a) op \<Rightarrow> ('s, 'a) op" where
  "state_locked io body = op_bind (op_lift (passes (si_lock io))) (\<lambda>_. body)"

subsection \<open>Documents\<close>

text \<open>A symbolic link or a vanished directory fails to open: that is \<open>si_read\<close>.\<close>

definition read_bytes :: "state_io \<Rightarrow> state_file \<Rightarrow> int \<Rightarrow> pyval option result" where
  "read_bytes io f max_bytes =
     (case f of
        No_File \<Rightarrow> Inl (HiveStateError ''state_not_found'')
      | Not_Regular \<Rightarrow> and_then (passes (si_read io)) (\<lambda>_. Inl (HiveStateError ''state_file_untrusted''))
      | Bytes nbytes content \<Rightarrow>
          and_then (passes (si_read io)) (\<lambda>_.
            if nbytes > max_bytes then Inl (HiveStateError ''state_oversize'') else Inr content))"

definition read_json_locked ::
  "state_io \<Rightarrow> pure_path \<Rightarrow> int \<Rightarrow> HiveStateStore \<Rightarrow> (string \<times> pyval) list result" where
  "read_json_locked io relative max_bytes st =
     and_then (state_path io relative) (\<lambda>path.
     and_then (validate_limit max_bytes) (\<lambda>_.
     and_then (read_bytes io (file_at st path) max_bytes) (\<lambda>raw.
       case raw of
         None \<Rightarrow> Inl (HiveStateError ''invalid_state_json'')
       | Some (PDict d) \<Rightarrow> Inr d
       | Some _ \<Rightarrow> Inl (HiveStateError ''invalid_state_document''))))"

definition read_json ::
  "state_io \<Rightarrow> pure_path \<Rightarrow> int \<Rightarrow> (HiveStateStore, (string \<times> pyval) list) op" where
  "read_json io relative max_bytes =
     op_bind (op_lift (validate_limit max_bytes)) (\<lambda>_.
       state_locked io (\<lambda>st. (read_json_locked io relative max_bytes st, st)))"

text \<open>\<open>_encode\<close> gives the number of bytes, the closing newline included.\<close>

definition encode :: "(string \<times> pyval) list \<Rightarrow> int result" where
  "encode payload =
     and_then (check (json_dumpable (PDict payload)) (HiveStateError ''invalid_state_document'')) (\<lambda>_.
       let nbytes = json_size (PDict payload) + 1
       in if nbytes > MAX_HIVE_STATE_BYTES then Inl (HiveStateError ''state_oversize'') else Inr nbytes)"

text \<open>
  The temporary file is renamed over the target. A failure up to the rename leaves the target as it
  was; a failure of the directory \<open>fsync\<close> after it raises the same error with the new content in
  place.
\<close>

definition directory_sync :: "state_io \<Rightarrow> unit result" where
  "directory_sync io = check (\<not> si_unsynced io) (HiveStateError (fault_code Write_Failed))"

definition atomic_replace :: "state_io \<Rightarrow> string list \<Rightarrow> state_file \<Rightarrow> (HiveStateStore, unit) op" where
  "atomic_replace io path content st =
     (case ensure_writable st of
        Inl e \<Rightarrow> (Inl e, st)
      | Inr _ \<Rightarrow>
          if file_at st path = Not_Regular then (Inl (HiveStateError ''state_file_untrusted''), st)
          else case passes (si_write io) of
                 Inl e \<Rightarrow> (Inl e, st)
               | Inr _ \<Rightarrow> (directory_sync io, write_file path content st))"

definition replace_json_locked ::
  "state_io \<Rightarrow> pure_path \<Rightarrow> (string \<times> pyval) list \<Rightarrow> (HiveStateStore, unit) op" where
  "replace_json_locked io relative payload st =
     op_bind (op_lift (ensure_writable st)) (\<lambda>_.
     op_bind (op_lift (state_path io relative)) (\<lambda>path.
     op_bind (op_lift (encode payload)) (\<lambda>nbytes.
       atomic_replace io path (Bytes nbytes (Some (PDict payload)))))) st"

definition replace_json ::
  "state_io \<Rightarrow> pure_path \<Rightarrow> (string \<times> pyval) list \<Rightarrow> (HiveStateStore, unit) op" where
  "replace_json io relative payload st =
     op_bind (op_lift (ensure_writable st)) (\<lambda>_.
     op_bind (op_lift (encode payload)) (\<lambda>_.
       state_locked io (replace_json_locked io relative payload))) st"

text \<open>The target is left as it was, or it has the new content, whatever the answer.\<close>

lemma replace_json_locked_cases:
  assumes "replace_json_locked io relative payload st = (r, st')"
  obtains (kept) "\<not> is_ok r" "st' = st"
    | (replaced) path nbytes where "state_path io relative = Inr path" "encode payload = Inr nbytes"
        "st' = write_file path (Bytes nbytes (Some (PDict payload))) st" "r = directory_sync io"
  using assms
  by (cases "ensure_writable st"; cases "si_write io")
    (auto simp: replace_json_locked_def op_bind_def atomic_replace_def split: sum.splits if_splits)

lemma encode_Inr:
  "encode payload = Inr n \<longleftrightarrow>
     json_dumpable (PDict payload) \<and> n = json_size (PDict payload) + 1 \<and> n \<le> MAX_HIVE_STATE_BYTES"
  by (auto simp: encode_def Let_def result_simps split: if_splits)

text \<open>What was written is what the next reader gets, whoever it is.\<close>

lemma read_after_replace:
  assumes "replace_json_locked io relative payload st = (Inr u, st')"
    and "state_path io' relative = Inr path" and "si_read io' = None"
  shows "read_json_locked io' relative MAX_HIVE_STATE_BYTES st' = Inr payload"
proof -
  obtain p n where p: "state_path io relative = Inr p" "encode payload = Inr n"
    "st' = write_file p (Bytes n (Some (PDict payload))) st"
    using assms(1) by (cases rule: replace_json_locked_cases) auto
  have "p = path" using p(1) assms(2) by (auto simp: state_path_def result_simps)
  then show ?thesis
    using p(2,3) assms(2,3)
    by (simp add: read_json_locked_def validate_limit_def MAX_HIVE_STATE_BYTES_def read_bytes_def encode_Inr)
qed

text \<open>A document counts as missing only if the file is not there.\<close>

lemma read_json_missing:
  assumes "read_json_locked io relative max_bytes st = Inl (HiveStateError ''state_not_found'')"
  shows "\<exists>path. state_path io relative = Inr path \<and> file_at st path = No_File"
proof -
  have "state_path io relative \<noteq> Inl (HiveStateError ''state_not_found'')"
    by (auto simp: state_path_def validate_relative_def and_then_eq_Inl passes_Inl)
  then obtain path where path: "state_path io relative = Inr path"
    using assms by (cases "state_path io relative") (auto simp: read_json_locked_def)
  have limit: "validate_limit max_bytes \<noteq> Inl (HiveStateError ''state_not_found'')"
    by (simp add: validate_limit_def check_def)
  have "file_at st path = No_File"
  proof (rule ccontr)
    assume "file_at st path \<noteq> No_File"
    then have "read_bytes io (file_at st path) max_bytes \<noteq> Inl (HiveStateError ''state_not_found'')"
      by (cases "file_at st path"; cases "si_read io") (auto simp: read_bytes_def)
    moreover have "(case raw of None \<Rightarrow> Inl (HiveStateError ''invalid_state_json'') | Some (PDict d) \<Rightarrow> Inr d
       | Some _ \<Rightarrow> Inl (HiveStateError ''invalid_state_document'')) \<noteq> Inl (HiveStateError ''state_not_found'')" for raw
      by (cases raw) (simp_all split: pyval.split)
    ultimately show False
      using assms path limit
      by (cases "validate_limit max_bytes"; cases "read_bytes io (file_at st path) max_bytes")
        (simp_all add: read_json_locked_def)
  qed
  with path show ?thesis by blast
qed

lemma read_json_found:
  assumes "read_json_locked io relative max_bytes st = Inr payload"
  shows "\<exists>path n. state_path io relative = Inr path \<and> file_at st path = Bytes n (Some (PDict payload))"
proof -
  obtain path raw where path: "state_path io relative = Inr path" "read_bytes io (file_at st path) max_bytes = Inr raw"
      and raw: "(case raw of None \<Rightarrow> Inl (HiveStateError ''invalid_state_json'') | Some (PDict d) \<Rightarrow> Inr d
       | Some _ \<Rightarrow> Inl (HiveStateError ''invalid_state_document'')) = Inr payload"
    using assms by (auto simp: read_json_locked_def and_then_eq_Inr)
  have "raw = Some (PDict payload)" using raw by (auto split: option.splits pyval.splits)
  then show ?thesis
    using path by (cases "file_at st path"; cases "si_read io") (auto simp: read_bytes_def split: if_splits)
qed

subsection \<open>Bounded JSON-lines logs\<close>

text \<open>
  A log is a list of lines; a line is blank or has a size, without its terminator, and the value it
  decodes to.
\<close>

datatype jsonl_line = Blank | Line int "pyval option"

datatype jsonl_file = No_Log | Irregular_Log | Log int "jsonl_line list"

definition validate_jsonl_limits :: "int \<Rightarrow> int \<Rightarrow> unit result" where
  "validate_jsonl_limits max_records max_bytes =
     and_then (check (1 \<le> max_records \<and> max_records \<le> MAX_HIVE_JSONL_RECORDS)
                 (HiveStateError ''invalid_state_limit'')) (\<lambda>_. validate_limit max_bytes)"

text \<open>\<open>xs[-k:]\<close>, which is the whole list for \<open>k = 0\<close>.\<close>

definition py_last :: "nat \<Rightarrow> 'a list \<Rightarrow> 'a list" where
  "py_last k xs = (if k = 0 then xs else drop (length xs - k) xs)"

definition line_size :: "jsonl_line \<Rightarrow> int" where
  "line_size l = (case l of Blank \<Rightarrow> 0 | Line n v \<Rightarrow> n)"

text \<open>The lines joined with newlines, and a closing newline.\<close>

definition candidate_size :: "jsonl_line list \<Rightarrow> int" where
  "candidate_size ls = sum_list (map (\<lambda>l. line_size l + 1) ls)"

definition read_log :: "state_io \<Rightarrow> jsonl_file \<Rightarrow> int \<Rightarrow> jsonl_line list result" where
  "read_log io f max_bytes =
     (case f of
        No_Log \<Rightarrow> Inr []
      | Irregular_Log \<Rightarrow> Inl (HiveStateError ''state_file_untrusted'')
      | Log nbytes ls \<Rightarrow>
          and_then (passes (si_read io)) (\<lambda>_.
            if nbytes > max_bytes then Inl (HiveStateError ''state_oversize'') else Inr ls))"

text \<open>The lines that stay when one is appended.\<close>

definition retained :: "int \<Rightarrow> jsonl_line list \<Rightarrow> jsonl_line list" where
  "retained max_records existing =
     (let lines = filter (\<lambda>l. l \<noteq> Blank) existing
      in if int (length lines) \<ge> max_records then py_last (nat (max_records - 1)) lines else lines)"

definition append_bounded_jsonl ::
  "state_io \<Rightarrow> bool \<Rightarrow> pure_path \<Rightarrow> (string \<times> pyval) list \<Rightarrow> int \<Rightarrow> int \<Rightarrow> (jsonl_file, unit) op" where
  "append_bounded_jsonl io read_only relative payload max_records max_bytes f =
     (case and_then (check (\<not> read_only) (HiveStateError ''state_read_only'')) (\<lambda>_.
           and_then (state_path io relative) (\<lambda>_.
           and_then (validate_jsonl_limits max_records max_bytes) (\<lambda>_.
           and_then (encode payload) (\<lambda>nbytes.
           and_then (passes (si_lock io)) (\<lambda>_.
           and_then (read_log io f max_bytes) (\<lambda>existing.
             let candidate = retained max_records existing @ [Line (nbytes - 1) (Some (PDict payload))]
             in if candidate_size candidate > max_bytes then Inl (HiveStateError ''state_oversize'')
                else and_then (passes (si_write io)) (\<lambda>_. Inr (Log (candidate_size candidate) candidate)))))))) of
        Inl e \<Rightarrow> (Inl e, f)
      | Inr f' \<Rightarrow> (directory_sync io, f'))"

text \<open>The loop of the reader; \<open>records\<close> is what it has collected.\<close>

fun jsonl_loop ::
  "int \<Rightarrow> jsonl_line list \<Rightarrow> (string \<times> pyval) list list \<Rightarrow> (string \<times> pyval) list list result" where
  "jsonl_loop max_records [] records = Inr records"
| "jsonl_loop max_records (Blank # ls) records = jsonl_loop max_records ls records"
| "jsonl_loop max_records (Line n v # ls) records =
     (case v of
        Some (PDict d) \<Rightarrow>
          if int (length (records @ [d])) > max_records then Inl (HiveStateError ''state_jsonl_full'')
          else jsonl_loop max_records ls (records @ [d])
      | _ \<Rightarrow> Inl (HiveStateError ''invalid_state_jsonl''))"

definition read_bounded_jsonl ::
  "state_io \<Rightarrow> pure_path \<Rightarrow> int \<Rightarrow> int \<Rightarrow> jsonl_file \<Rightarrow> (string \<times> pyval) list list result" where
  "read_bounded_jsonl io relative max_records max_bytes f =
     and_then (validate_jsonl_limits max_records max_bytes) (\<lambda>_.
     and_then (passes (si_lock io)) (\<lambda>_.
     and_then (state_path io relative) (\<lambda>_.
     and_then (read_log io f max_bytes) (\<lambda>ls. jsonl_loop max_records ls []))))"

text \<open>The values of the non-blank lines, if every one is a mapping.\<close>

fun line_records :: "jsonl_line list \<Rightarrow> (string \<times> pyval) list list option" where
  "line_records [] = Some []"
| "line_records (Blank # ls) = line_records ls"
| "line_records (Line n (Some (PDict d)) # ls) = map_option ((#) d) (line_records ls)"
| "line_records (Line n v # ls) = None"

lemma jsonl_loop_Inr:
  "int (length records) \<le> m \<Longrightarrow>
     jsonl_loop m ls records = Inr rs \<longleftrightarrow>
     (\<exists>xs. line_records ls = Some xs \<and> rs = records @ xs \<and> int (length rs) \<le> m)"
proof (induction ls arbitrary: records rule: line_records.induct)
  case (3 n d ls)
  show ?case
  proof (cases "int (length records) + 1 \<le> m")
    case True
    then have "jsonl_loop m ls (records @ [d]) = Inr rs \<longleftrightarrow>
        (\<exists>xs. line_records ls = Some xs \<and> rs = records @ d # xs \<and> int (length rs) \<le> m)"
      using "3.IH" by simp
    with True show ?thesis by auto
  next
    case False
    then show ?thesis by auto
  qed
qed auto

lemma line_records_filter: "line_records (filter (\<lambda>l. l \<noteq> Blank) ls) = line_records ls"
  by (induction ls rule: line_records.induct) auto

lemma line_records_length:
  "line_records ls = Some xs \<Longrightarrow> length (filter (\<lambda>l. l \<noteq> Blank) ls) = length xs"
  by (induction ls arbitrary: xs rule: line_records.induct) auto

lemma line_records_append:
  "line_records ls = Some xs \<Longrightarrow> line_records ks = Some ys \<Longrightarrow> line_records (ls @ ks) = Some (xs @ ys)"
  by (induction ls arbitrary: xs rule: line_records.induct) auto

lemma line_records_drop:
  "line_records ls = Some xs \<Longrightarrow> Blank \<notin> set ls \<Longrightarrow> line_records (drop k ls) = Some (drop k xs)"
proof (induction ls arbitrary: xs k rule: line_records.induct)
  case (3 n d ls)
  then show ?case by (cases k) auto
qed auto

lemma append_bounded_jsonl_Inr:
  assumes "append_bounded_jsonl io ro relative payload m b f = (Inr u, f')"
  obtains nbytes path existing candidate where "encode payload = Inr nbytes" "state_path io relative = Inr path"
    "validate_jsonl_limits m b = Inr ()" "read_log io f b = Inr existing"
    "candidate = retained m existing @ [Line (nbytes - 1) (Some (PDict payload))]"
    "candidate_size candidate \<le> b" "f' = Log (candidate_size candidate) candidate"
proof -
  have outcome: "(case x of Inl e \<Rightarrow> (Inl e, f) | Inr f' \<Rightarrow> (directory_sync io, f')) = (Inr u, f') \<longleftrightarrow>
      x = Inr f' \<and> directory_sync io = Inr u" for x
    by (cases x) auto
  show ?thesis
    using assms that unfolding append_bounded_jsonl_def outcome Let_def
    by (simp only: result_simps if_distrib) (auto split: if_splits simp: result_simps)
qed

lemma retained_records:
  assumes "line_records existing = Some rs" and "2 \<le> m"
  shows "line_records (retained m existing) = Some (drop (length rs + 1 - nat m) rs)"
proof -
  let ?ls = "filter (\<lambda>l. l \<noteq> Blank) existing"
  have ls: "line_records ?ls = Some rs" "length ?ls = length rs"
    using assms(1) by (simp_all add: line_records_filter line_records_length)
  have "drop (length rs + 1 - nat m) rs = (if int (length rs) \<ge> m then drop (length rs - nat (m - 1)) rs else rs)"
    using assms(2) by (auto simp: nat_diff_distrib intro!: arg_cong [where f = "\<lambda>k. drop k rs"])
  then show ?thesis
    using line_records_drop [OF ls(1), of "length rs - nat (m - 1)"] ls assms(2)
    by (auto simp: retained_def py_last_def Let_def)
qed

text \<open>
  Appending to a bounded log keeps the newest records. With room for two records or more, if the
  log can be read before and the append succeeds, then reading it back gives the last
  \<open>max_records - 1\<close> of the old records followed by the new one.
\<close>

theorem append_keeps_newest:
  assumes "read_bounded_jsonl no_fault relative max_records max_bytes f = Inr rs" and "2 \<le> max_records"
    and "append_bounded_jsonl io ro relative payload max_records max_bytes f = (Inr u, f')"
  shows "read_bounded_jsonl no_fault relative max_records max_bytes f' =
    Inr (drop (length rs + 1 - nat max_records) rs @ [payload])"
proof -
  obtain nbytes path existing candidate where a: "encode payload = Inr nbytes" "state_path io relative = Inr path"
      "validate_jsonl_limits max_records max_bytes = Inr ()" "read_log io f max_bytes = Inr existing"
      "candidate = retained max_records existing @ [Line (nbytes - 1) (Some (PDict payload))]"
      "candidate_size candidate \<le> max_bytes" "f' = Log (candidate_size candidate) candidate"
    using append_bounded_jsonl_Inr [OF assms(3)] by blast
  obtain ls where ls: "state_path no_fault relative = Inr path" "read_log no_fault f max_bytes = Inr ls"
      "jsonl_loop max_records ls [] = Inr rs"
    using assms(1) a(2) by (auto simp: read_bounded_jsonl_def state_path_def result_simps)
  have "ls = existing"
    using a(4) ls(2) by (auto simp: read_log_def result_simps split: jsonl_file.splits if_splits)
  then have "line_records existing = Some rs"
    using ls(3) assms(2) by (simp add: jsonl_loop_Inr)
  from line_records_append [OF retained_records [OF this assms(2)]]
  have "line_records candidate = Some (drop (length rs + 1 - nat max_records) rs @ [payload])"
    by (simp add: a(5))
  moreover have "int (length (drop (length rs + 1 - nat max_records) rs @ [payload])) \<le> max_records"
    using assms(2) by simp
  ultimately have "jsonl_loop max_records candidate [] = Inr (drop (length rs + 1 - nat max_records) rs @ [payload])"
    using assms(2) by (simp add: jsonl_loop_Inr)
  then show ?thesis
    using a(3,6,7) ls(1) by (simp add: read_bounded_jsonl_def read_log_def no_fault_def)
qed

text \<open>
  A log bounded to one record is not bounded: the append keeps every old line, so after an
  append to a log that holds a record the log can no longer be read under the same bound.
\<close>

theorem single_record_log_overflows:
  assumes "read_bounded_jsonl no_fault relative 1 max_bytes f = Inr rs" and "rs \<noteq> []"
    and "append_bounded_jsonl io ro relative payload 1 max_bytes f = (Inr u, f')"
  shows "read_bounded_jsonl no_fault relative 1 max_bytes f' = Inl (HiveStateError ''state_jsonl_full'')"
proof -
  obtain nbytes path existing candidate where a: "encode payload = Inr nbytes" "state_path io relative = Inr path"
      "validate_jsonl_limits 1 max_bytes = Inr ()" "read_log io f max_bytes = Inr existing"
      "candidate = retained 1 existing @ [Line (nbytes - 1) (Some (PDict payload))]"
      "candidate_size candidate \<le> max_bytes" "f' = Log (candidate_size candidate) candidate"
    using append_bounded_jsonl_Inr [OF assms(3)] by blast
  obtain ls where ls: "state_path no_fault relative = Inr path" "read_log no_fault f max_bytes = Inr ls"
      "jsonl_loop 1 ls [] = Inr rs"
    using assms(1) a(2) by (auto simp: read_bounded_jsonl_def state_path_def result_simps)
  have "ls = existing"
    using a(4) ls(2) by (auto simp: read_log_def result_simps split: jsonl_file.splits if_splits)
  then have recs: "line_records existing = Some rs" "length rs = 1"
    using ls(3) assms(2) by (auto simp: jsonl_loop_Inr Suc_le_eq dest: le_antisym)
  obtain d n where "filter (\<lambda>l. l \<noteq> Blank) existing = [Line n (Some (PDict d))]"
  proof -
    have "line_records (filter (\<lambda>l. l \<noteq> Blank) existing) = Some rs"
      "length (filter (\<lambda>l. l \<noteq> Blank) existing) = 1"
      using recs by (simp_all add: line_records_filter line_records_length)
    then obtain l where l: "filter (\<lambda>l. l \<noteq> Blank) existing = [l]" "line_records [l] = Some rs"
      by (auto simp: length_Suc_conv)
    have "l \<in> set (filter (\<lambda>l. l \<noteq> Blank) existing)" by (simp only: l(1)) simp
    then have "l \<noteq> Blank" by simp
    with l show ?thesis using that by (cases "[l]" rule: line_records.cases) auto
  qed
  then have "retained 1 existing = [Line n (Some (PDict d))]" by (simp add: retained_def py_last_def)
  then have "jsonl_loop 1 candidate [] = Inl (HiveStateError ''state_jsonl_full'')" by (simp add: a(5))
  then show ?thesis
    using a(3,6,7) ls(1) by (simp add: read_bounded_jsonl_def read_log_def no_fault_def)
qed

definition sample_log_path :: pure_path where
  "sample_log_path = \<lparr>pp_absolute = False, pp_parts = [''events.jsonl'']\<rparr>"

definition sample_log :: jsonl_file where
  "sample_log = Log 8 [Line 7 (Some (PDict [(''n'', PInt 1)]))]"

lemma sample_log_read:
  "1 \<le> m \<Longrightarrow> m \<le> 4096 \<Longrightarrow> read_bounded_jsonl no_fault sample_log_path m 100 sample_log = Inr [[(''n'', PInt 1)]]"
  by (simp add: read_bounded_jsonl_def validate_jsonl_limits_def validate_limit_def state_path_def
      validate_relative_def sample_log_path_def sample_log_def read_log_def no_fault_def printable_def
      MAX_HIVE_JSONL_RECORDS_def MAX_HIVE_STATE_BYTES_def MAX_RELATIVE_STATE_PART_def)

lemma sample_log_append:
  assumes "1 \<le> m" and "m \<le> 4096"
  shows "\<exists>f'. append_bounded_jsonl no_fault False sample_log_path [(''n'', PInt 2)] m 100 sample_log = (Inr (), f')"
proof -
  have "encode [(''n'', PInt 2)] = Inr 8"
    by (simp add: encode_Inr json_str_size_def json_char_size_def digits_of.simps MAX_HIVE_STATE_BYTES_def)
  moreover have "retained m [l] = [l]" if "l \<noteq> Blank" for l
    using that assms(1) by (simp add: retained_def py_last_def Let_def)
  ultimately show ?thesis
    using assms
    by (simp add: append_bounded_jsonl_def directory_sync_def validate_jsonl_limits_def validate_limit_def state_path_def
        validate_relative_def sample_log_path_def sample_log_def read_log_def no_fault_def printable_def
        MAX_HIVE_JSONL_RECORDS_def MAX_HIVE_STATE_BYTES_def MAX_RELATIVE_STATE_PART_def Let_def
        candidate_size_def line_size_def)
qed

theorem append_keeps_newest_witness:
  "\<exists>f'. append_bounded_jsonl no_fault False sample_log_path [(''n'', PInt 2)] 2 100 sample_log = (Inr (), f') \<and>
     read_bounded_jsonl no_fault sample_log_path 2 100 f' = Inr [[(''n'', PInt 1)], [(''n'', PInt 2)]]"
  using append_keeps_newest [OF sample_log_read] sample_log_append [of 2] by fastforce

theorem single_record_log_overflows_witness:
  "\<exists>f'. append_bounded_jsonl no_fault False sample_log_path [(''n'', PInt 2)] 1 100 sample_log = (Inr (), f') \<and>
     read_bounded_jsonl no_fault sample_log_path 1 100 f' = Inl (HiveStateError ''state_jsonl_full'')"
  using single_record_log_overflows [OF sample_log_read] sample_log_append [of 1] by fastforce

end
