(* ===== verification/Principals.thy ===== *)
theory Principals
  imports Hive_State Admission
begin

text \<open>
  \<open>hive/principals.py\<close> and the class sets of \<open>hive/capabilities.py\<close>: principals in a hierarchy of
  roles, their execution bindings, and the registry with its optional private JSON document. Every
  operation of a registry with a state store takes the state lock, reloads the document, works on
  the dictionaries and writes the document back.
\<close>

definition ROOT_EXECUTIVE_CLASSES :: "string list" where
  "ROOT_EXECUTIVE_CLASSES = [''gottbiene'', ''godbee'', ''goettin'', ''goddess'']"

definition QUEEN_CLASSES :: "string list" where
  "QUEEN_CLASSES = [''koenigin'', ''queen'']"

definition MAX_LIST_LIMIT :: int where "MAX_LIST_LIMIT = 256"

text \<open>Per class: the classes a parent may have (none for a root), the scope, and whether a repository is required.\<close>

definition ROLE_RULES :: "(string, string list option \<times> string \<times> bool) dict" where
  "ROLE_RULES =
     [(''gottbiene'', (None, ''global'', False)),
      (''godbee'', (None, ''global'', False)),
      (''goettin'', (None, ''global'', False)),
      (''goddess'', (None, ''global'', False)),
      (''koenigin'', (Some ROOT_EXECUTIVE_CLASSES, ''repository'', True)),
      (''queen'', (Some ROOT_EXECUTIVE_CLASSES, ''repository'', True)),
      (''teamleiterin'', (Some [''koenigin'', ''queen''], ''repository'', True)),
      (''teamlead'', (Some [''koenigin'', ''queen''], ''repository'', True)),
      (''spezialistin'', (Some [''teamleiterin'', ''teamlead''], ''repository'', True)),
      (''specialist'', (Some [''teamleiterin'', ''teamlead''], ''repository'', True)),
      (''arbeitsbiene'', (Some [''spezialistin'', ''specialist''], ''repository'', True)),
      (''worker'', (Some [''spezialistin'', ''specialist''], ''repository'', True))]"

definition prin_text :: "string \<Rightarrow> string \<Rightarrow> string result" where
  "prin_text s code = (if text_ok 128 s then Inr s else Inl (PrincipalError code))"

text \<open>\<open>validate_identifier\<close> with its error turned into a \<open>PrincipalError\<close> of the same text.\<close>

definition prin_identifier :: "string \<Rightarrow> string \<Rightarrow> string result" where
  "prin_identifier s fld =
     (if identifier_re s then Inr s else Inl (PrincipalError (''invalid_'' @ fld)))"

definition opt_check :: "('a \<Rightarrow> 'b result) \<Rightarrow> 'a option \<Rightarrow> unit result" where
  "opt_check f x = (case x of None \<Rightarrow> Inr () | Some a \<Rightarrow> and_then (f a) (\<lambda>_. Inr ()))"

text \<open>A stored timestamp: the text parses to an aware time that converts to UTC.\<close>

definition stored_time :: "(string \<Rightarrow> py_datetime option) \<Rightarrow> string \<Rightarrow> py_datetime option" where
  "stored_time other s =
     (case parse_iso other s of
        None \<Rightarrow> None
      | Some d \<Rightarrow> (case validate_utc_datetime d ''timestamp'' of Inl e \<Rightarrow> None | Inr u \<Rightarrow> Some u))"

record Principal =
  pn_principal_id :: string
  pn_class_id :: string
  pn_parent_principal_id :: "string option"
  pn_authority_profile :: string
  pn_scope_kind :: string
  pn_repo_id :: "string option"
  pn_state :: string
  pn_config_digest :: string
  pn_version :: int
  pn_created_at_utc :: "string option"

text \<open>The checks of \<open>__post_init__\<close> before the timestamp, and all of them.\<close>

definition Principal_fields :: "Principal \<Rightarrow> unit result" where
  "Principal_fields p =
     and_then (prin_identifier (pn_principal_id p) ''principal'') (\<lambda>_.
     and_then (prin_identifier (pn_class_id p) ''class'') (\<lambda>_.
     and_then (opt_check (\<lambda>s. prin_identifier s ''parent_principal'') (pn_parent_principal_id p)) (\<lambda>_.
     and_then (opt_check (\<lambda>s. prin_identifier s ''repo'') (pn_repo_id p)) (\<lambda>_.
     and_then (prin_text (pn_authority_profile p) ''invalid_authority_profile'') (\<lambda>_.
     and_then (check (pn_scope_kind p \<in> set [''global'', ''repository'', ''read'', ''write''])
                 (PrincipalError ''invalid_scope_kind'')) (\<lambda>_.
     and_then (check (pn_state p \<in> set [''active'', ''retired'']) (PrincipalError ''invalid_principal_state'')) (\<lambda>_.
     and_then (check (is_sha256_digest (pn_config_digest p))
                 (PrincipalError ''invalid_principal_config_digest'')) (\<lambda>_.
       check (1 \<le> pn_version p \<and> pn_version p \<le> 10 ^ 12) (PrincipalError ''invalid_principal_version'')))))))))"

definition Principal_init :: "(string \<Rightarrow> py_datetime option) \<Rightarrow> Principal \<Rightarrow> Principal result" where
  "Principal_init other p =
     and_then (Principal_fields p) (\<lambda>_.
     and_then (opt_check (\<lambda>s. need (stored_time other s) (PrincipalError ''invalid_principal_timestamp''))
                 (pn_created_at_utc p)) (\<lambda>_.
       Inr p))"

definition principal_public :: "Principal \<Rightarrow> pyval" where
  "principal_public p = PDict
     [(''principal_id'', PStr (pn_principal_id p)), (''class_id'', PStr (pn_class_id p)),
      (''parent_principal_id'', opt_str (pn_parent_principal_id p)),
      (''authority_profile'', PStr (pn_authority_profile p)), (''scope_kind'', PStr (pn_scope_kind p)),
      (''repo_id'', opt_str (pn_repo_id p)), (''state'', PStr (pn_state p)),
      (''version'', PInt (pn_version p)), (''created_at_utc'', opt_str (pn_created_at_utc p))]"

record ExecutionBinding =
  eb_binding_id :: string
  eb_principal_id :: string
  eb_repo_id :: "string option"
  eb_dispatch_id :: "string option"
  eb_agent_id :: string
  eb_account_key :: string
  eb_model_id :: string
  eb_lease_id :: string
  eb_admission_id :: string
  eb_state :: string
  eb_expires_at_utc :: string
  eb_account_pool_binding :: "AccountPoolBindingV1 option"

definition ExecutionBinding_fields :: "ExecutionBinding \<Rightarrow> unit result" where
  "ExecutionBinding_fields b =
     and_then (map_result (\<lambda>(s, fld). prin_identifier s fld)
       [(eb_binding_id b, ''binding''), (eb_principal_id b, ''principal''), (eb_agent_id b, ''agent''),
        (eb_model_id b, ''model''), (eb_lease_id b, ''lease''), (eb_admission_id b, ''admission'')]) (\<lambda>_.
     and_then (prin_text (eb_account_key b) ''invalid_account_key'') (\<lambda>_.
     and_then (opt_check (\<lambda>s. prin_identifier s ''repo'') (eb_repo_id b)) (\<lambda>_.
     and_then (opt_check (\<lambda>s. prin_identifier s ''dispatch'') (eb_dispatch_id b)) (\<lambda>_.
       check (eb_state b \<in> set [''active'', ''released'']) (PrincipalError ''invalid_binding_state'')))))"

definition ExecutionBinding_init ::
  "(string \<Rightarrow> py_datetime option) \<Rightarrow> ExecutionBinding \<Rightarrow> ExecutionBinding result" where
  "ExecutionBinding_init other b =
     and_then (ExecutionBinding_fields b) (\<lambda>_.
     and_then (need (stored_time other (eb_expires_at_utc b)) (PrincipalError ''invalid_binding_timestamp'')) (\<lambda>_.
       Inr b))"

definition binding_public :: "ExecutionBinding \<Rightarrow> pyval" where
  "binding_public b = PDict
     [(''binding_id'', PStr (eb_binding_id b)), (''principal_id'', PStr (eb_principal_id b)),
      (''repo_id'', opt_str (eb_repo_id b)), (''dispatch_id'', opt_str (eb_dispatch_id b)),
      (''agent_id'', PStr (eb_agent_id b)), (''model_id'', PStr (eb_model_id b)),
      (''admission_id'', PStr (eb_admission_id b)), (''state'', PStr (eb_state b)),
      (''expires_at_utc'', PStr (eb_expires_at_utc b))]"

definition execution_binding_from_admission ::
  "(string \<Rightarrow> py_datetime option) \<Rightarrow> string \<Rightarrow> AdmissionRecord \<Rightarrow> ExecutionBinding result" where
  "execution_binding_from_admission other binding_id admission =
     and_then (need (rb_account_pool_binding (ar_resource admission))
                 (PrincipalError ''dynamic_pool_binding_missing'')) (\<lambda>pool_binding.
     and_then (need (lb_lease_id (ar_lease_context admission))
                 (PrincipalError ''execution_binding_lease_missing'')) (\<lambda>lease_id.
       ExecutionBinding_init other
         \<lparr>eb_binding_id = binding_id, eb_principal_id = ar_principal_id admission,
          eb_repo_id = Some (ar_repo_id admission), eb_dispatch_id = Some (ar_dispatch_id admission),
          eb_agent_id = rb_agent_id (ar_resource admission),
          eb_account_key = rb_account_key (ar_resource admission),
          eb_model_id = rb_model_id (ar_resource admission), eb_lease_id = lease_id,
          eb_admission_id = ar_admission_id admission, eb_state = ''active'',
          eb_expires_at_utc = isoformat (ar_expires_at_utc admission),
          eb_account_pool_binding = Some pool_binding\<rparr>))"

subsection \<open>Payloads\<close>

definition principal_payload :: "Principal \<Rightarrow> pyval" where
  "principal_payload p = PDict
     [(''principal_id'', PStr (pn_principal_id p)), (''class_id'', PStr (pn_class_id p)),
      (''parent_principal_id'', opt_str (pn_parent_principal_id p)),
      (''authority_profile'', PStr (pn_authority_profile p)), (''scope_kind'', PStr (pn_scope_kind p)),
      (''repo_id'', opt_str (pn_repo_id p)), (''state'', PStr (pn_state p)),
      (''config_digest'', PStr (pn_config_digest p)), (''version'', PInt (pn_version p)),
      (''created_at_utc'', opt_str (pn_created_at_utc p))]"

definition binding_payload :: "ExecutionBinding \<Rightarrow> pyval" where
  "binding_payload b = PDict
     [(''binding_id'', PStr (eb_binding_id b)), (''principal_id'', PStr (eb_principal_id b)),
      (''repo_id'', opt_str (eb_repo_id b)), (''dispatch_id'', opt_str (eb_dispatch_id b)),
      (''agent_id'', PStr (eb_agent_id b)), (''account_key'', PStr (eb_account_key b)),
      (''model_id'', PStr (eb_model_id b)), (''lease_id'', PStr (eb_lease_id b)),
      (''admission_id'', PStr (eb_admission_id b)), (''state'', PStr (eb_state b)),
      (''expires_at_utc'', PStr (eb_expires_at_utc b)),
      (''account_pool_binding'',
         case eb_account_pool_binding b of None \<Rightarrow> PNone | Some x \<Rightarrow> account_pool_binding_payload x)]"

text \<open>
  Decoding. Every exception of the block but one becomes one error, so a field of the wrong type
  raises it directly. The exception is the timestamp, the last field the constructors look at:
  they call a string method on it, and an \<open>AttributeError\<close> is not caught.
\<close>

definition bad_registry :: exn where
  "bad_registry = PrincipalError ''principal_state_invalid''"

definition str_item :: "(string \<times> pyval) list \<Rightarrow> string \<Rightarrow> string result" where
  "str_item d k = and_then (py_item d k) (\<lambda>v. need (py_str v) bad_registry)"

definition opt_item :: "(string \<times> pyval) list \<Rightarrow> string \<Rightarrow> string option result" where
  "opt_item d k = need (opt_str_of (py_get d k PNone)) bad_registry"

definition registry_rescue :: "'a result \<Rightarrow> 'a result" where
  "registry_rescue m = rescue m (\<lambda>e. Inl (if e = AttributeError then AttributeError else bad_registry))"

definition principal_from_payload ::
  "(string \<Rightarrow> py_datetime option) \<Rightarrow> pyval \<Rightarrow> Principal result" where
  "principal_from_payload other raw =
     registry_rescue
      (and_then (need (py_dict raw) bad_registry) (\<lambda>d.
       and_then (str_item d ''principal_id'') (\<lambda>principal_id.
       and_then (str_item d ''class_id'') (\<lambda>class_id.
       and_then (opt_item d ''parent_principal_id'') (\<lambda>parent.
       and_then (str_item d ''authority_profile'') (\<lambda>profile.
       and_then (str_item d ''scope_kind'') (\<lambda>scope_kind.
       and_then (opt_item d ''repo_id'') (\<lambda>repo_id.
       and_then (str_item d ''state'') (\<lambda>state.
       and_then (str_item d ''config_digest'') (\<lambda>digest.
       and_then (and_then (py_item d ''version'') (\<lambda>v. need (py_int v) bad_registry)) (\<lambda>version.
         let p = \<lparr>pn_principal_id = principal_id, pn_class_id = class_id, pn_parent_principal_id = parent,
                  pn_authority_profile = profile, pn_scope_kind = scope_kind, pn_repo_id = repo_id,
                  pn_state = state, pn_config_digest = digest, pn_version = version,
                  pn_created_at_utc = None\<rparr>
         in case opt_str_of (py_get d ''created_at_utc'' PNone) of
              Some created \<Rightarrow> Principal_init other (p\<lparr>pn_created_at_utc := created\<rparr>)
            | None \<Rightarrow> and_then (Principal_fields p) (\<lambda>_. Inl AttributeError))))))))))))"

definition binding_from_payload ::
  "(string \<Rightarrow> py_datetime option) \<Rightarrow> pyval \<Rightarrow> ExecutionBinding result" where
  "binding_from_payload other raw =
     registry_rescue
      (and_then (need (py_dict raw) bad_registry) (\<lambda>d.
       and_then (str_item d ''binding_id'') (\<lambda>binding_id.
       and_then (str_item d ''principal_id'') (\<lambda>principal_id.
       and_then (opt_item d ''repo_id'') (\<lambda>repo_id.
       and_then (opt_item d ''dispatch_id'') (\<lambda>dispatch_id.
       and_then (str_item d ''agent_id'') (\<lambda>agent_id.
       and_then (str_item d ''account_key'') (\<lambda>account_key.
       and_then (str_item d ''model_id'') (\<lambda>model_id.
       and_then (str_item d ''lease_id'') (\<lambda>lease_id.
       and_then (str_item d ''admission_id'') (\<lambda>admission_id.
       and_then (str_item d ''state'') (\<lambda>state.
       and_then (py_item d ''expires_at_utc'') (\<lambda>expires.
       and_then (if py_get d ''account_pool_binding'' PNone \<noteq> PNone
                 then and_then (account_pool_binding_from_payload
                                  (py_get d ''account_pool_binding'' PNone)) (\<lambda>x. Inr (Some x))
                 else Inr None) (\<lambda>pool.
         let b = \<lparr>eb_binding_id = binding_id, eb_principal_id = principal_id, eb_repo_id = repo_id,
                  eb_dispatch_id = dispatch_id, eb_agent_id = agent_id, eb_account_key = account_key,
                  eb_model_id = model_id, eb_lease_id = lease_id, eb_admission_id = admission_id,
                  eb_state = state, eb_expires_at_utc = '''', eb_account_pool_binding = pool\<rparr>
         in case py_str expires of
              Some s \<Rightarrow> ExecutionBinding_init other (b\<lparr>eb_expires_at_utc := s\<rparr>)
            | None \<Rightarrow> and_then (ExecutionBinding_fields b) (\<lambda>_. Inl AttributeError)))))))))))))))"

subsection \<open>The registry\<close>

record PrincipalRegistry =
  pg_principals :: "(string, Principal) dict"
  pg_bindings :: "(string, ExecutionBinding) dict"
  pg_state :: "HiveStateStore option"

definition principals_path :: pure_path where
  "principals_path = \<lparr>pp_absolute = False, pp_parts = [''principals.json'']\<rparr>"

definition validate_parent :: "(string, Principal) dict \<Rightarrow> Principal \<Rightarrow> unit result" where
  "validate_parent principals p =
     and_then (need (map_of ROLE_RULES (pn_class_id p)) (PrincipalError ''unknown_principal_class''))
       (\<lambda>(parent_classes, expected_scope, repo_required).
     and_then (check (expected_scope = pn_scope_kind p) (PrincipalError ''principal_scope_mismatch'')) (\<lambda>_.
     and_then (check (repo_required = (pn_repo_id p \<noteq> None))
                 (PrincipalError ''principal_repository_scope_mismatch'')) (\<lambda>_.
       case parent_classes of
         None \<Rightarrow> check (pn_parent_principal_id p = None) (PrincipalError ''root_principal_has_parent'')
       | Some classes \<Rightarrow>
           and_then (need (pn_parent_principal_id p) (PrincipalError ''principal_parent_required'')) (\<lambda>i.
           and_then (need (map_of principals i) (PrincipalError ''principal_parent_not_found'')) (\<lambda>parent.
           and_then (check (pn_state parent = ''active'' \<and> pn_class_id parent \<in> set classes)
                       (PrincipalError ''invalid_principal_parent'')) (\<lambda>_.
             check (pn_repo_id p = pn_repo_id parent \<or> pn_repo_id parent = None)
               (PrincipalError ''principal_repository_mismatch''))))))) "

fun load_principals ::
  "(string \<Rightarrow> py_datetime option) \<Rightarrow> pyval list \<Rightarrow> (PrincipalRegistry, unit) op" where
  "load_principals other [] reg = (Inr (), reg)"
| "load_principals other (raw # raws) reg =
     (case principal_from_payload other raw of
        Inl e \<Rightarrow> (Inl e, reg)
      | Inr p \<Rightarrow>
          if map_of (pg_principals reg) (pn_principal_id p) \<noteq> None
          then (Inl (PrincipalError ''duplicate_principal''), reg)
          else load_principals other raws
                 (reg\<lparr>pg_principals := AList.update (pn_principal_id p) p (pg_principals reg)\<rparr>))"

fun load_bindings ::
  "(string \<Rightarrow> py_datetime option) \<Rightarrow> pyval list \<Rightarrow> (PrincipalRegistry, unit) op" where
  "load_bindings other [] reg = (Inr (), reg)"
| "load_bindings other (raw # raws) reg =
     (case binding_from_payload other raw of
        Inl e \<Rightarrow> (Inl e, reg)
      | Inr b \<Rightarrow>
          if map_of (pg_bindings reg) (eb_binding_id b) \<noteq> None
          then (Inl (PrincipalError ''duplicate_execution_binding''), reg)
          else load_bindings other raws
                 (reg\<lparr>pg_bindings := AList.update (eb_binding_id b) b (pg_bindings reg)\<rparr>))"

definition load_registry_document ::
  "(string \<Rightarrow> py_datetime option) \<Rightarrow> (string \<times> pyval) list \<Rightarrow> (PrincipalRegistry, unit) op" where
  "load_registry_document other payload =
     (case (py_get payload ''principals'' PNone, py_get payload ''bindings'' PNone) of
        (PList raw_principals, PList raw_bindings) \<Rightarrow>
          if \<not> py_eq_int (py_get payload ''schema_version'' PNone) 1 then op_lift (Inl bad_registry)
          else op_bind (load_principals other raw_principals) (\<lambda>_.
               op_bind (\<lambda>reg. (map_result (validate_parent (pg_principals reg)) (map snd (pg_principals reg)), reg)) (\<lambda>_.
                 load_bindings other raw_bindings))
      | _ \<Rightarrow> op_lift (Inl bad_registry))"

definition load_registry_locked ::
  "(string \<Rightarrow> py_datetime option) \<Rightarrow> state_io \<Rightarrow> HiveStateStore \<Rightarrow> (PrincipalRegistry, unit) op" where
  "load_registry_locked other io st reg =
     (let reg = reg\<lparr>pg_principals := [], pg_bindings := []\<rparr> in
      case read_json_locked io principals_path (4 * 1024 * 1024) st of
        Inl (HiveStateError code) \<Rightarrow>
          if code = ''state_not_found'' then (Inr (), reg) else (Inl bad_registry, reg)
      | Inl e \<Rightarrow> (Inl e, reg)
      | Inr payload \<Rightarrow> load_registry_document other payload reg)"

definition registry_document :: "PrincipalRegistry \<Rightarrow> (string \<times> pyval) list" where
  "registry_document reg =
     [(''schema_version'', PInt 1),
      (''principals'', PList (map (\<lambda>(_, p). principal_payload p) (pg_principals reg))),
      (''bindings'', PList (map (\<lambda>(_, b). binding_payload b) (pg_bindings reg)))]"

definition persist_registry :: "state_io \<Rightarrow> (PrincipalRegistry, unit) op" where
  "persist_registry io reg =
     (case pg_state reg of
        None \<Rightarrow> (Inr (), reg)
      | Some st \<Rightarrow>
          (case replace_json_locked io principals_path (registry_document reg) st of
             (res, st') \<Rightarrow> (res, reg\<lparr>pg_state := Some st'\<rparr>)))"

definition registry_transaction ::
  "(string \<Rightarrow> py_datetime option) \<Rightarrow> state_io \<Rightarrow> (PrincipalRegistry, 'a) op \<Rightarrow> (PrincipalRegistry, 'a) op" where
  "registry_transaction other io body reg =
     (case pg_state reg of
        None \<Rightarrow> body reg
      | Some st \<Rightarrow>
          state_locked io (op_bind (load_registry_locked other io st) (\<lambda>_. body)) reg)"

definition PrincipalRegistry_init ::
  "(string \<Rightarrow> py_datetime option) \<Rightarrow> state_io \<Rightarrow> HiveStateStore option \<Rightarrow> PrincipalRegistry result" where
  "PrincipalRegistry_init other io state =
     (let reg = \<lparr>pg_principals = [], pg_bindings = [], pg_state = state\<rparr> in
      case registry_transaction other io (op_lift (Inr ())) reg of
        (Inl e, _) \<Rightarrow> Inl e
      | (Inr _, reg) \<Rightarrow> Inr reg)"

text \<open>Lookup by an identifier that the code validates first; every failure reads the same.\<close>

definition find_principal :: "string \<Rightarrow> PrincipalRegistry \<Rightarrow> Principal result" where
  "find_principal i reg =
     rescue (and_then (validate_identifier (PStr i) ''principal'') (\<lambda>i. need (map_of (pg_principals reg) i) KeyError))
       (\<lambda>e. Inl (PrincipalError ''principal_not_found''))"

definition registry_get ::
  "(string \<Rightarrow> py_datetime option) \<Rightarrow> state_io \<Rightarrow> string \<Rightarrow> (PrincipalRegistry, Principal) op" where
  "registry_get other io i = registry_transaction other io (\<lambda>reg. (find_principal i reg, reg))"

definition registry_list ::
  "(string \<Rightarrow> py_datetime option) \<Rightarrow> state_io \<Rightarrow> int \<Rightarrow> int \<Rightarrow> (PrincipalRegistry, Principal list) op" where
  "registry_list other io offset limit =
     op_bind (op_lift (check (0 \<le> offset) (PrincipalError ''invalid_principal_offset''))) (\<lambda>_.
     op_bind (op_lift (check (1 \<le> limit \<and> limit \<le> MAX_LIST_LIMIT) (PrincipalError ''invalid_principal_limit''))) (\<lambda>_.
       registry_transaction other io (\<lambda>reg.
         (Inr (take (nat limit) (drop (nat offset)
            (sort_key pn_principal_id (map snd (pg_principals reg))))), reg))))"

definition registry_create ::
  "(string \<Rightarrow> py_datetime option) \<Rightarrow> state_io \<Rightarrow> Principal \<Rightarrow> (PrincipalRegistry, Principal) op" where
  "registry_create other io p =
     registry_transaction other io (\<lambda>reg.
       if map_of (pg_principals reg) (pn_principal_id p) \<noteq> None
       then (Inl (PrincipalError ''duplicate_principal''), reg)
       else case validate_parent (pg_principals reg) p of
              Inl e \<Rightarrow> (Inl e, reg)
            | Inr _ \<Rightarrow>
                op_bind (persist_registry io) (\<lambda>_. op_lift (Inr p))
                  (reg\<lparr>pg_principals := AList.update (pn_principal_id p) p (pg_principals reg)\<rparr>))"

definition registry_retire ::
  "(string \<Rightarrow> py_datetime option) \<Rightarrow> state_io \<Rightarrow> string \<Rightarrow> int \<Rightarrow> (PrincipalRegistry, Principal) op" where
  "registry_retire other io i expected_version =
     registry_transaction other io (\<lambda>reg.
       case find_principal i reg of
         Inl e \<Rightarrow> (Inl e, reg)
       | Inr current \<Rightarrow>
           if pn_version current \<noteq> expected_version
           then (Inl (PrincipalError ''stale_principal_version''), reg)
           else if pn_state current = ''retired'' then (Inr current, reg)
           else case Principal_init other (current\<lparr>pn_state := ''retired'', pn_version := pn_version current + 1\<rparr>) of
                  Inl e \<Rightarrow> (Inl e, reg)
                | Inr retired \<Rightarrow>
                    op_bind (persist_registry io) (\<lambda>_. op_lift (Inr retired))
                      (reg\<lparr>pg_principals := AList.update i retired (pg_principals reg)\<rparr>))"

definition bind_execution ::
  "(string \<Rightarrow> py_datetime option) \<Rightarrow> state_io \<Rightarrow> ExecutionBinding \<Rightarrow> (PrincipalRegistry, ExecutionBinding) op" where
  "bind_execution other io binding =
     registry_transaction other io (\<lambda>reg.
       case map_of (pg_principals reg) (eb_principal_id binding) of
         None \<Rightarrow> (Inl (PrincipalError ''principal_not_found''), reg)
       | Some p \<Rightarrow>
           if pn_state p \<noteq> ''active'' then (Inl (PrincipalError ''principal_inactive''), reg)
           else if list_ex (\<lambda>current. eb_state current = ''active'' \<and>
                     eb_principal_id current = eb_principal_id binding \<and>
                     eb_dispatch_id current = eb_dispatch_id binding) (map snd (pg_bindings reg))
           then (Inl (PrincipalError ''duplicate_active_execution_binding''), reg)
           else if pn_repo_id p \<noteq> eb_repo_id binding
           then (Inl (PrincipalError ''binding_repository_mismatch''), reg)
           else op_bind (persist_registry io) (\<lambda>_. op_lift (Inr binding))
                  (reg\<lparr>pg_bindings := AList.update (eb_binding_id binding) binding (pg_bindings reg)\<rparr>))"

definition release_execution ::
  "(string \<Rightarrow> py_datetime option) \<Rightarrow> state_io \<Rightarrow> string \<Rightarrow> (PrincipalRegistry, ExecutionBinding) op" where
  "release_execution other io binding_id =
     registry_transaction other io (\<lambda>reg.
       case map_of (pg_bindings reg) binding_id of
         None \<Rightarrow> (Inl (PrincipalError ''execution_binding_not_found''), reg)
       | Some current \<Rightarrow>
           if eb_state current = ''released'' then (Inr current, reg)
           else case ExecutionBinding_init other (current\<lparr>eb_state := ''released''\<rparr>) of
                  Inl e \<Rightarrow> (Inl e, reg)
                | Inr released \<Rightarrow>
                    op_bind (persist_registry io) (\<lambda>_. op_lift (Inr released))
                      (reg\<lparr>pg_bindings := AList.update binding_id released (pg_bindings reg)\<rparr>))"

definition public_bindings ::
  "(string \<Rightarrow> py_datetime option) \<Rightarrow> state_io \<Rightarrow> (PrincipalRegistry, pyval list) op" where
  "public_bindings other io =
     registry_transaction other io (\<lambda>reg. (Inr (map (\<lambda>(_, b). binding_public b) (pg_bindings reg)), reg))"

definition has_active_execution_binding ::
  "(string \<Rightarrow> py_datetime option) \<Rightarrow> state_io \<Rightarrow> string \<Rightarrow> py_datetime \<Rightarrow> (PrincipalRegistry, bool) op" where
  "has_active_execution_binding other io i now =
     op_bind (op_lift (rescue (validate_utc_datetime now ''timestamp'')
                         (\<lambda>e. Inl (PrincipalError ''invalid_binding_timestamp'')))) (\<lambda>now.
       registry_transaction other io (\<lambda>reg.
         case find_principal i reg of
           Inl e \<Rightarrow> (Inl e, reg)
         | Inr p \<Rightarrow>
             (Inr (pn_state p = ''active'' \<and>
                list_ex (\<lambda>b. eb_state b = ''active'' \<and> eb_principal_id b = i \<and>
                  (case stored_time other (eb_expires_at_utc b) of
                     None \<Rightarrow> False | Some expires_at \<Rightarrow> instant expires_at > instant now))
                  (map snd (pg_bindings reg))), reg)))"

definition get_active_execution_binding ::
  "(string \<Rightarrow> py_datetime option) \<Rightarrow> state_io \<Rightarrow> string \<Rightarrow> string \<Rightarrow> string option \<Rightarrow> py_datetime \<Rightarrow>
   (PrincipalRegistry, ExecutionBinding) op" where
  "get_active_execution_binding other io binding_id principal_id repo_id now =
     op_bind (op_lift (rescue
       (and_then (validate_identifier (PStr binding_id) ''binding'') (\<lambda>_.
        and_then (validate_identifier (PStr principal_id) ''principal'') (\<lambda>_.
        and_then (opt_check (\<lambda>s. validate_identifier (PStr s) ''repo'') repo_id) (\<lambda>_.
          validate_utc_datetime now ''timestamp''))))
       (\<lambda>e. Inl (PrincipalError ''invalid_execution_binding_lookup'')))) (\<lambda>now.
     registry_transaction other io (\<lambda>reg.
       (and_then (need (map_of (pg_bindings reg) binding_id) (PrincipalError ''execution_binding_not_found'')) (\<lambda>b.
        and_then (check (eb_state b = ''active'') (PrincipalError ''execution_binding_inactive'')) (\<lambda>_.
        and_then (check (eb_principal_id b = principal_id \<and> eb_repo_id b = repo_id)
                    (PrincipalError ''execution_binding_mismatch'')) (\<lambda>_.
        and_then (need (map_of (pg_principals reg) (eb_principal_id b))
                    (PrincipalError ''execution_binding_invalid'')) (\<lambda>p.
        and_then (check (pn_state p = ''active'') (PrincipalError ''execution_binding_inactive'')) (\<lambda>_.
        and_then (need (stored_time other (eb_expires_at_utc b))
                    (PrincipalError ''execution_binding_invalid'')) (\<lambda>expires_at.
        and_then (check (instant expires_at > instant now) (PrincipalError ''execution_binding_expired'')) (\<lambda>_.
          Inr b))))))), reg)))"

end
