(* ===== verification/Repositories.thy ===== *)
theory Repositories
  imports Hive_State Hive_Contracts
begin

text \<open>
  \<open>hive/repositories.py\<close>: repository bindings, path isolation, and the fresh read-only validation.
  The file system and the \<open>git\<close> command are arguments: a snapshot that answers the questions the
  code asks. SHA-256 is an argument too (the hexadecimal digest of a text).
\<close>

definition MAX_REMOTE_LENGTH :: nat where "MAX_REMOTE_LENGTH = 512"

definition branch_char :: "char \<Rightarrow> bool" where
  "branch_char c =
     (is_lower c \<or> is_upper c \<or> is_digit c \<or> c \<in> set ''._/-'')"

definition BRANCH_RE :: "string \<Rightarrow> bool" where
  "BRANCH_RE s = (1 \<le> length s \<and> length s \<le> 128 \<and> list_all branch_char s)"

record RepositoryBinding =
  rp_repo_id :: string
  rp_remote_identity :: string
  rp_local_root :: pure_path
  rp_default_branch :: string
  rp_config_digest :: string

definition RepositoryBinding_init :: "RepositoryBinding \<Rightarrow> RepositoryBinding result" where
  "RepositoryBinding_init b =
     and_then (check (identifier_re (rp_repo_id b)) (RepositoryError ''invalid_repository_id'')) (\<lambda>_.
     and_then (check (text_ok MAX_REMOTE_LENGTH (rp_remote_identity b))
                 (RepositoryError ''invalid_remote_identity'')) (\<lambda>_.
     and_then (check (pp_absolute (rp_local_root b)) (RepositoryError ''invalid_repository_root'')) (\<lambda>_.
     and_then (check (BRANCH_RE (rp_default_branch b)) (RepositoryError ''invalid_default_branch'')) (\<lambda>_.
     and_then (check (is_sha256_digest (rp_config_digest b))
                 (RepositoryError ''invalid_repository_config_digest'')) (\<lambda>_.
       Inr b)))))"

record RepositoryValidation =
  rv_repo_id :: string
  rv_allowed :: bool
  rv_reason_code :: string

definition validation_public :: "RepositoryValidation \<Rightarrow> pyval" where
  "validation_public v = PDict
     [(''repo_id'', PStr (rv_repo_id v)), (''allowed'', PBool (rv_allowed v)),
      (''reason_code'', PStr (rv_reason_code v)), (''root'', PStr ''not_returned''),
      (''remote'', PStr ''not_returned'')]"

subsection \<open>The environment\<close>

text \<open>
  Absolute paths are the lists of their parts. \<open>lstat\<close> gives the permission bits and the kind;
  \<open>is_dir\<close> follows links. Resolution fails on loops and, when strict, on missing components.
\<close>

record file_stat =
  fst_mode :: nat
  fst_symlink :: bool

record environment =
  env_lstat :: "string list \<Rightarrow> file_stat option"
  env_is_dir :: "string list \<Rightarrow> bool"
  env_resolve_strict :: "string list \<Rightarrow> string list option"
  env_resolve :: "string list \<Rightarrow> string list option"
  env_path_of_text :: "string \<Rightarrow> string list"
  env_git :: "string list \<Rightarrow> string list \<Rightarrow> string option"

definition mode_bit :: "nat \<Rightarrow> nat \<Rightarrow> bool" where
  "mode_bit mode k = odd (mode div 2 ^ k)"

text \<open>\<open>mode & 0o022\<close>, and the sticky bit \<open>S_ISVTX\<close>.\<close>

definition writable_by_others :: "nat \<Rightarrow> bool" where
  "writable_by_others mode = (mode_bit mode 1 \<or> mode_bit mode 4)"

definition sticky :: "nat \<Rightarrow> bool" where
  "sticky mode = mode_bit mode 9"

text \<open>The directories from the file system root down to the path.\<close>

definition directory_chain :: "string list \<Rightarrow> string list list" where
  "directory_chain path = map (\<lambda>n. take n path) [0..<length path + 1]"

definition directory_chain_is_real :: "environment \<Rightarrow> string list \<Rightarrow> bool" where
  "directory_chain_is_real env path =
     list_all (\<lambda>item.
       case env_lstat env item of
         None \<Rightarrow> False
       | Some st \<Rightarrow> env_is_dir env item \<and> \<not> (writable_by_others (fst_mode st) \<and> \<not> sticky (fst_mode st)) \<and>
           \<not> fst_symlink st) (directory_chain path)"

subsection \<open>Remotes\<close>

definition is_space :: "char \<Rightarrow> bool" where
  "is_space c = ((of_char c :: nat) \<in> {9, 10, 11, 12, 13, 28, 29, 30, 31, 32, 133, 160})"

definition strip :: "string \<Rightarrow> string" where
  "strip s = rev (dropWhile is_space (rev (dropWhile is_space s)))"

definition rstrip_char :: "char \<Rightarrow> string \<Rightarrow> string" where
  "rstrip_char c s = rev (dropWhile (\<lambda>x. x = c) (rev s))"

text \<open>\<open>s.partition(sep)\<close> as the text before and, if the separator occurs, the text after it.\<close>

fun partition_at :: "string \<Rightarrow> string \<Rightarrow> string \<times> string option" where
  "partition_at sep [] = (if sep = [] then ([], Some []) else ([], None))"
| "partition_at sep (c # s) =
     (if starts_with sep (c # s) then ([], Some (drop (length sep) (c # s)))
      else case partition_at sep s of (before, after) \<Rightarrow> (c # before, after))"

definition normalize_remote :: "string \<Rightarrow> string" where
  "normalize_remote value =
     (let txt = strip value;
          txt =
            (if starts_with ''git@'' txt \<and> CHR '':'' \<in> set txt
             then (case partition_at '':'' (drop 4 txt) of
                     (host, Some path) \<Rightarrow> ''ssh://git@'' @ map lower_char host @ ''/'' @ path
                   | (host, None) \<Rightarrow> txt)
             else (case partition_at ''://'' txt of
                     (scheme, Some rest) \<Rightarrow>
                       (case partition_at ''/'' rest of
                          (host, Some path) \<Rightarrow> map lower_char scheme @ ''://'' @ map lower_char host @ ''/'' @ path
                        | (host, None) \<Rightarrow> map lower_char scheme @ ''://'' @ map lower_char host)
                   | (_, None) \<Rightarrow> txt))
      in removesuffix ''.git'' (rstrip_char CHR ''/'' txt))"

subsection \<open>The registry\<close>

type_synonym RepositoryRegistry = "(string, RepositoryBinding) dict"

definition RepositoryRegistry_init :: "RepositoryBinding list \<Rightarrow> RepositoryRegistry result" where
  "RepositoryRegistry_init bindings =
     (if \<not> distinct (map rp_repo_id bindings) then Inl (RepositoryError ''duplicate_repository_id'')
      else Inr (map (\<lambda>b. (rp_repo_id b, b)) bindings))"

definition repository_get :: "RepositoryRegistry \<Rightarrow> string \<Rightarrow> RepositoryBinding result" where
  "repository_get reg repo_id =
     (if identifier_re repo_id
      then need (map_of reg repo_id) (RepositoryError ''unknown_repository'')
      else Inl (RepositoryError ''unknown_repository''))"

definition repository_validate ::
  "environment \<Rightarrow> RepositoryRegistry \<Rightarrow> string \<Rightarrow> RepositoryValidation result" where
  "repository_validate env reg repo_id =
     and_then (repository_get reg repo_id) (\<lambda>binding.
       let base = pp_parts (rp_local_root binding);
           verdict = (\<lambda>ok code. Inr \<lparr>rv_repo_id = repo_id, rv_allowed = ok, rv_reason_code = code\<rparr>);
           branch = rp_default_branch binding
       in case (env_lstat env base, env_resolve_strict env base) of
            (Some root_stat, Some resolved_root) \<Rightarrow>
              if writable_by_others (fst_mode root_stat) \<or> fst_symlink root_stat \<or> \<not> env_is_dir env base
              then verdict False ''repository_root_untrusted''
              else if \<not> directory_chain_is_real env base then verdict False ''repository_parent_untrusted''
              else if resolved_root \<noteq> base then verdict False ''repository_root_changed''
              else case env_git env base [''rev-parse'', ''--show-toplevel''] of
                     None \<Rightarrow> verdict False ''repository_git_unavailable''
                   | Some top_level \<Rightarrow>
                       (case env_resolve_strict env (env_path_of_text env top_level) of
                          None \<Rightarrow> verdict False ''repository_root_changed''
                        | Some resolved_top \<Rightarrow>
                            if resolved_top \<noteq> base then verdict False ''repository_root_mismatch''
                            else if (case env_git env base [''config'', ''--get'', ''remote.origin.url''] of
                                       None \<Rightarrow> True
                                     | Some remote \<Rightarrow>
                                         normalize_remote remote \<noteq> normalize_remote (rp_remote_identity binding))
                            then verdict False ''repository_remote_mismatch''
                            else if env_git env base [''symbolic-ref'', ''--quiet'', ''--short'', ''HEAD''] \<noteq> Some branch
                            then verdict False ''repository_branch_mismatch''
                            else case env_git env base [''rev-parse'', ''--verify'', ''--quiet'',
                                        ''refs/heads/'' @ branch @ ''^{commit}''] of
                                   None \<Rightarrow> verdict False ''repository_commit_unavailable''
                                 | Some commit \<Rightarrow>
                                     if env_git env base [''rev-parse'', ''--verify'', ''--quiet'', ''HEAD^{commit}''] \<noteq>
                                        Some commit
                                     then verdict False ''repository_branch_mismatch''
                                     else verdict True ''repository_verified'')
          | _ \<Rightarrow> verdict False ''repository_root_unavailable'')"

text \<open>\<open>path.relative_to(root)\<close>: the remaining parts, if \<open>base\<close> is a prefix.\<close>

fun relative_to :: "string list \<Rightarrow> string list \<Rightarrow> string list option" where
  "relative_to ps [] = Some ps"
| "relative_to (p # ps) (r # rs) = (if p = r then relative_to ps rs else None)"
| "relative_to [] (r # rs) = None"

definition path_text_ok :: "string \<Rightarrow> bool" where
  "path_text_ok value =
     (value \<noteq> [] \<and> CHR 0x5C \<notin> set value \<and> \<not> starts_with ''/'' value \<and> \<not> starts_with ''~'' value \<and>
      \<not> contains ''://'' value \<and>
      \<not> list_ex (\<lambda>part. part = '''' \<or> part = ''.'' \<or> part = ''..'') (split_on CHR ''/'' value))"

definition resolve_path ::
  "environment \<Rightarrow> RepositoryRegistry \<Rightarrow> string \<Rightarrow> string \<Rightarrow> string list result" where
  "resolve_path env reg repo_id value =
     and_then (repository_get reg repo_id) (\<lambda>binding.
       if \<not> path_text_ok value then Inl (RepositoryError ''repository_path_escape'')
       else case env_resolve_strict env (pp_parts (rp_local_root binding)) of
              None \<Rightarrow> Inl (RepositoryError ''repository_path_escape'')
            | Some base \<Rightarrow>
                (case env_resolve env (base @ split_on CHR ''/'' value) of
                   None \<Rightarrow> Inl (RepositoryError ''repository_path_escape'')
                 | Some candidate \<Rightarrow>
                     if relative_to candidate base = None
                     then Inl (RepositoryError ''repository_path_escape'')
                     else Inr candidate))"

text \<open>\<open>os.fspath\<close> of a relative path: the parts joined, or \<open>.\<close> for none.\<close>

definition path_text :: "string list \<Rightarrow> string" where
  "path_text parts = (if parts = [] then ''.'' else join_with ''/'' parts)"

definition scope_text ::
  "environment \<Rightarrow> RepositoryRegistry \<Rightarrow> string \<Rightarrow> string \<Rightarrow> string result" where
  "scope_text env reg repo_id value =
     and_then (resolve_path env reg repo_id value) (\<lambda>candidate.
     and_then (repository_get reg repo_id) (\<lambda>binding.
     and_then (need (env_resolve_strict env (pp_parts (rp_local_root binding))) (OtherError ''OSError'')) (\<lambda>base.
     and_then (need (relative_to candidate base) ValueError) (\<lambda>rel.
       Inr (path_text rel)))))"

definition NUL :: string where "NUL = [CHR 0x00]"

definition scope_material :: "string \<Rightarrow> string \<Rightarrow> string list \<Rightarrow> string" where
  "scope_material repo_id mode canonical = repo_id @ NUL @ mode @ NUL @ join_with NUL canonical"

definition scope_digest ::
  "(string \<Rightarrow> string) \<Rightarrow> environment \<Rightarrow> RepositoryRegistry \<Rightarrow> string \<Rightarrow> string \<Rightarrow> string list \<Rightarrow> string result" where
  "scope_digest sha256 env reg repo_id mode paths =
     (if mode \<noteq> ''read'' \<and> mode \<noteq> ''write'' then Inl (RepositoryError ''invalid_scope_mode'')
      else and_then (map_result (scope_text env reg repo_id) paths) (\<lambda>texts.
        let canonical = sort texts
        in if canonical = [] then Inl (RepositoryError ''invalid_scope_paths'')
           else Inr (''sha256:'' @ sha256 (scope_material repo_id mode canonical))))"

definition config_digest :: "(string \<Rightarrow> string) \<Rightarrow> string \<Rightarrow> string" where
  "config_digest sha256 payload = ''sha256:'' @ sha256 payload"

definition public_status :: "environment \<Rightarrow> RepositoryRegistry \<Rightarrow> string \<Rightarrow> pyval result" where
  "public_status env reg repo_id =
     and_then (repository_validate env reg repo_id) (\<lambda>v. Inr (validation_public v))"

subsection \<open>Path isolation\<close>

lemma relative_to_iff: "relative_to ps rs = Some xs \<longleftrightarrow> ps = rs @ xs"
  by (induction ps rs rule: relative_to.induct) auto

lemma resolve_path_Inr:
  "resolve_path env reg repo_id value = Inr candidate \<longleftrightarrow>
     (\<exists>binding base rest. repository_get reg repo_id = Inr binding \<and> path_text_ok value \<and>
        env_resolve_strict env (pp_parts (rp_local_root binding)) = Some base \<and>
        env_resolve env (base @ split_on CHR ''/'' value) = Some candidate \<and> candidate = base @ rest)"
proof (cases "repository_get reg repo_id")
  case (Inr binding)
  show ?thesis
  proof (cases "env_resolve_strict env (pp_parts (rp_local_root binding))")
    case (Some base)
    have "(relative_to c base = None) = (\<nexists>rest. c = base @ rest)" for c
      using relative_to_iff [of c base] by (cases "relative_to c base") auto
    then show ?thesis
      using Inr Some
      by (cases "env_resolve env (base @ split_on CHR ''/'' value)") (auto simp: resolve_path_def)
  qed (use Inr in \<open>simp add: resolve_path_def\<close>)
qed (simp add: resolve_path_def)

lemma scope_text_Inr:
  "scope_text env reg repo_id value = Inr t \<longleftrightarrow>
     (\<exists>binding base rel. repository_get reg repo_id = Inr binding \<and>
        env_resolve_strict env (pp_parts (rp_local_root binding)) = Some base \<and>
        resolve_path env reg repo_id value = Inr (base @ rel) \<and> t = path_text rel)"
  by (auto simp: scope_text_def and_then_eq_Inr need_Inr relative_to_iff)

text \<open>
  Paths stay inside the repository. Whatever the file system answers, symbolic links included, a
  value that resolves names a path below the resolved root of the named repository, and a value with
  an empty, a single-dot or a double-dot part, a leading slash or tilde, a backslash or a scheme is
  refused.
\<close>

theorem resolve_path_isolated:
  assumes "resolve_path env reg repo_id value = Inr candidate"
  shows "(\<exists>binding base rest. map_of reg repo_id = Some binding \<and>
      env_resolve_strict env (pp_parts (rp_local_root binding)) = Some base \<and> candidate = base @ rest) \<and>
    \<not> starts_with ''/'' value \<and> \<not> starts_with ''~'' value \<and> CHR 0x5C \<notin> set value \<and> \<not> contains ''://'' value \<and>
    (\<forall>part \<in> set (split_on CHR ''/'' value). part \<noteq> '''' \<and> part \<noteq> ''.'' \<and> part \<noteq> ''..'')"
  using assms
  by (auto simp: resolve_path_Inr repository_get_def path_text_ok_def need_Inr list_ex_iff split: if_splits)

subsection \<open>Scope digests\<close>

lemma map_result_perm:
  "map_result f xs = Inr ys \<Longrightarrow> mset xs = mset xs' \<Longrightarrow> \<exists>ys'. map_result f xs' = Inr ys' \<and> mset ys' = mset ys"
proof -
  assume run: "map_result f xs = Inr ys" and perm: "mset xs = mset xs'"
  obtain h where h: "\<And>x. x \<in> set xs \<Longrightarrow> f x = Inr (h x)"
  proof
    fix x
    assume "x \<in> set xs"
    moreover have "list_all2 (\<lambda>x y. f x = Inr y) xs ys" using run by (rule map_result_Inr_list_all2)
    ultimately have "\<exists>y. f x = Inr y" by (auto simp: list_all2_conv_all_nth in_set_conv_nth)
    then show "f x = Inr (case f x of Inl _ \<Rightarrow> undefined | Inr y \<Rightarrow> y)" by auto
  qed
  have "set xs' = set xs" using perm by (metis mset_eq_setD)
  then have "map_result f xs' = Inr (map h xs')" "map_result f xs = Inr (map h xs)"
    using map_result_all_Inr [where f = f and h = h] h by auto
  then show ?thesis using run perm by auto
qed

lemma sort_Nil [simp]: "sort xs = [] \<longleftrightarrow> xs = []"
  by (metis set_empty set_sort)

lemma scope_digest_Inr:
  assumes "scope_digest sha256 env reg repo_id mode paths = Inr d"
  obtains ts where "map_result (scope_text env reg repo_id) paths = Inr ts" "ts \<noteq> []"
    "d = ''sha256:'' @ sha256 (scope_material repo_id mode (sort ts))" "mode = ''read'' \<or> mode = ''write''"
proof -
  have mode: "mode = ''read'' \<or> mode = ''write''" using assms by (auto simp: scope_digest_def split: if_splits)
  then obtain ts where "map_result (scope_text env reg repo_id) paths = Inr ts"
    using assms by (cases "map_result (scope_text env reg repo_id) paths") (auto simp: scope_digest_def)
  then show ?thesis using assms that mode by (auto simp: scope_digest_def Let_def split: if_splits)
qed

text \<open>A scope digest does not depend on the order in which the paths are listed.\<close>

theorem scope_digest_order_independent:
  assumes "scope_digest sha256 env reg repo_id mode paths = Inr d" and "mset paths = mset paths'"
  shows "scope_digest sha256 env reg repo_id mode paths' = Inr d"
proof -
  obtain ts where ts: "map_result (scope_text env reg repo_id) paths = Inr ts" "ts \<noteq> []"
      "d = ''sha256:'' @ sha256 (scope_material repo_id mode (sort ts))" "mode = ''read'' \<or> mode = ''write''"
    by (rule scope_digest_Inr [OF assms(1)])
  obtain ts' where ts': "map_result (scope_text env reg repo_id) paths' = Inr ts'" "mset ts' = mset ts"
    using map_result_perm [OF ts(1) assms(2)] by blast
  have "sort ts' = sort ts" using ts'(2) by (metis properties_for_sort mset_sort sorted_sort)
  moreover have "ts' \<noteq> []" using ts(2) ts'(2) by auto
  ultimately show ?thesis using ts(3,4) ts'(1) by (auto simp: scope_digest_def Let_def)
qed

lemma split_on_join:
  assumes "xs \<noteq> []" and "\<forall>x \<in> set xs. c \<notin> set x"
  shows "split_on c (join_with [c] xs) = xs"
proof -
  have single: "split_on c x = [x]" if "c \<notin> set x" for x using that by (induction x) auto
  show ?thesis using assms
  proof (induction xs rule: induct_list012)
    case (3 x y zs)
    then show ?case using split_on_append_sep [of c x "join_with [c] (y # zs)"] single by simp
  qed (simp_all add: single)
qed

lemma scope_material_split:
  assumes "CHR 0x00 \<notin> set repo_id" and "CHR 0x00 \<notin> set mode" and "ts \<noteq> []"
    and "\<forall>t \<in> set ts. CHR 0x00 \<notin> set t"
  shows "split_on CHR 0x00 (scope_material repo_id mode ts) = repo_id # mode # ts"
proof -
  have "scope_material repo_id mode ts = join_with NUL (repo_id # mode # ts)"
    using assms(3) by (cases ts) (simp_all add: scope_material_def)
  then show ?thesis using split_on_join [of "repo_id # mode # ts" "CHR 0x00"] assms by (simp add: NUL_def)
qed

text \<open>File names have no NUL character.\<close>

definition names_without_nul :: "environment \<Rightarrow> bool" where
  "names_without_nul env =
     (\<forall>p q part. env_resolve env p = Some q \<longrightarrow> part \<in> set q \<longrightarrow> CHR 0x00 \<notin> set part)"

lemma join_with_mem: "c \<in> set (join_with sep xs) \<Longrightarrow> c \<in> set sep \<or> (\<exists>x \<in> set xs. c \<in> set x)"
  by (induction sep xs rule: join_with.induct) auto

lemma scope_text_no_nul:
  assumes "names_without_nul env" and "scope_text env reg repo_id value = Inr t"
  shows "CHR 0x00 \<notin> set t"
proof -
  obtain base rel where r: "resolve_path env reg repo_id value = Inr (base @ rel)" "t = path_text rel"
    using assms(2) by (auto simp: scope_text_Inr)
  then obtain p where "env_resolve env p = Some (base @ rel)" by (auto simp: resolve_path_Inr)
  then have "CHR 0x00 \<notin> set part" if "part \<in> set rel" for part
    using assms(1) that unfolding names_without_nul_def by (metis Un_iff set_append)
  then show ?thesis using r(2) join_with_mem [of "CHR 0x00" "''/''" rel] by (auto simp: path_text_def)
qed

lemma identifier_no_nul: "identifier_re s \<Longrightarrow> CHR 0x00 \<notin> set s"
proof
  assume "identifier_re s" "CHR 0x00 \<in> set s"
  then have "printable s" using identifier_re_text_ok by (auto simp: text_ok_def)
  then show False using \<open>CHR 0x00 \<in> set s\<close> by (auto simp: printable_def list_all_iff)
qed

text \<open>
  A scope digest binds the repository, the mode and the set of resolved paths: two scopes with
  the same digest have all three in common, unless the two hashed texts themselves are a collision of
  SHA-256.
\<close>

theorem scope_digest_binds:
  assumes "names_without_nul env"
    and "scope_digest sha256 env reg repo_id mode paths = Inr d"
    and "scope_digest sha256 env reg repo_id' mode' paths' = Inr d"
  shows "\<exists>ts ts'. map_result (scope_text env reg repo_id) paths = Inr ts \<and>
    map_result (scope_text env reg repo_id') paths' = Inr ts' \<and>
    (repo_id = repo_id' \<and> mode = mode' \<and> mset ts = mset ts' \<or>
     scope_material repo_id mode (sort ts) \<noteq> scope_material repo_id' mode' (sort ts') \<and>
     sha256 (scope_material repo_id mode (sort ts)) = sha256 (scope_material repo_id' mode' (sort ts')))"
proof -
  have parts: "\<exists>ts. map_result (scope_text env reg r) ps = Inr ts \<and>
      d = ''sha256:'' @ sha256 (scope_material r m (sort ts)) \<and>
      split_on CHR 0x00 (scope_material r m (sort ts)) = r # m # sort ts"
    if digest: "scope_digest sha256 env reg r m ps = Inr d" for r m ps
  proof -
    obtain ts where ts: "map_result (scope_text env reg r) ps = Inr ts" "ts \<noteq> []"
        "d = ''sha256:'' @ sha256 (scope_material r m (sort ts))" "m = ''read'' \<or> m = ''write''"
      by (rule scope_digest_Inr [OF digest])
    have all2: "list_all2 (\<lambda>x y. scope_text env reg r x = Inr y) ps ts"
      using ts(1) by (rule map_result_Inr_list_all2)
    have "\<exists>x. scope_text env reg r x = Inr t" if "t \<in> set ts" for t
      using all2 that by (auto simp: list_all2_conv_all_nth in_set_conv_nth)
    then have nul: "\<forall>t \<in> set ts. CHR 0x00 \<notin> set t"
      using scope_text_no_nul [OF assms(1)] by blast
    have "identifier_re r"
      using all2 ts(2) by (cases ts; cases ps) (auto simp: scope_text_Inr repository_get_def split: if_splits)
    then have "CHR 0x00 \<notin> set r" by (rule identifier_no_nul)
    moreover have "CHR 0x00 \<notin> set m" using ts(4) by auto
    ultimately show ?thesis using scope_material_split [of r m "sort ts"] nul ts(1-3) by simp
  qed
  obtain ts where a: "map_result (scope_text env reg repo_id) paths = Inr ts"
      "d = ''sha256:'' @ sha256 (scope_material repo_id mode (sort ts))"
      "split_on CHR 0x00 (scope_material repo_id mode (sort ts)) = repo_id # mode # sort ts"
    using parts [OF assms(2)] by blast
  obtain ts' where b: "map_result (scope_text env reg repo_id') paths' = Inr ts'"
      "d = ''sha256:'' @ sha256 (scope_material repo_id' mode' (sort ts'))"
      "split_on CHR 0x00 (scope_material repo_id' mode' (sort ts')) = repo_id' # mode' # sort ts'"
    using parts [OF assms(3)] by blast
  show ?thesis
  proof (cases "scope_material repo_id mode (sort ts) = scope_material repo_id' mode' (sort ts')")
    case True
    have "repo_id # mode # sort ts = repo_id' # mode' # sort ts'"
      by (rule trans [OF trans [OF a(3) [symmetric] arg_cong [where f = "split_on CHR 0x00", OF True]] b(3)])
    then have same: "repo_id = repo_id'" "mode = mode'" "sort ts = sort ts'" by simp_all
    have "mset (sort ts) = mset (sort ts')" using same(3) by simp
    then have "mset ts = mset ts'" by simp
    then show ?thesis using a(1) b(1) same(1,2) by blast
  next
    case False
    have "sha256 (scope_material repo_id mode (sort ts)) = sha256 (scope_material repo_id' mode' (sort ts'))"
      using a(2) b(2) by simp
    with False show ?thesis using a(1) b(1) by blast
  qed
qed

subsection \<open>Spellings of a remote\<close>

lemma strip_idle: "s \<noteq> [] \<Longrightarrow> \<not> is_space (hd s) \<Longrightarrow> \<not> is_space (last s) \<Longrightarrow> strip s = s"
  by (cases s) (simp_all add: strip_def dropWhile_eq_self_iff hd_append hd_rev split: if_splits)

lemma partition_at_char:
  "c \<notin> set xs \<Longrightarrow> partition_at [c] (xs @ c # ys) = (xs, Some ys)"
  by (induction xs) (auto simp: starts_with_def)

text \<open>
  The two ways to write an SSH remote name the same repository: \<open>git@host:path\<close> and
  \<open>ssh://git@host/path\<close> normalize to the same text, for any capitalization of the host.
\<close>

theorem remote_spellings_agree:
  assumes "CHR '':'' \<notin> set host" and "CHR ''/'' \<notin> set host" and "path \<noteq> []" and "\<not> is_space (last path)"
    and "map lower_char host' = map lower_char host" and "CHR ''/'' \<notin> set host'"
  shows "normalize_remote (''git@'' @ host @ '':'' @ path) = normalize_remote (''ssh://git@'' @ host' @ ''/'' @ path)"
proof -
  let ?scp = "''git@'' @ host @ '':'' @ path" and ?url = "''ssh://git@'' @ host' @ ''/'' @ path"
  have "is_space CHR ''g'' = False" "is_space CHR ''s'' = False" by (code_simp, code_simp)
  then have strips: "strip ?scp = ?scp" "strip ?url = ?url"
    using strip_idle [of ?scp] strip_idle [of ?url] assms(3,4) by simp_all
  have "partition_at '':'' (drop 4 ?scp) = (host, Some path)" using partition_at_char [OF assms(1)] by simp
  then have scp: "normalize_remote ?scp =
      removesuffix ''.git'' (rstrip_char CHR ''/'' (''ssh://git@'' @ map lower_char host @ ''/'' @ path))"
    unfolding normalize_remote_def strips by (simp add: Let_def starts_with_def)
  have "partition_at ''://'' ?url = (''ssh'', Some (''git@'' @ host' @ ''/'' @ path))"
    by (simp add: starts_with_def)
  moreover have "partition_at ''/'' (''git@'' @ host' @ ''/'' @ path) = (''git@'' @ host', Some path)"
    using partition_at_char [of "CHR ''/''" "''git@'' @ host'" path] assms(6) by simp
  moreover have "map lower_char ''ssh'' = ''ssh''" "map lower_char ''git@'' = ''git@''" by (code_simp, code_simp)
  ultimately have "normalize_remote ?url =
      removesuffix ''.git'' (rstrip_char CHR ''/'' (''ssh://git@'' @ map lower_char host' @ ''/'' @ path))"
    unfolding normalize_remote_def strips by (simp add: Let_def starts_with_def)
  then show ?thesis using scp assms(5) by simp
qed

subsection \<open>Witnesses\<close>

definition plain_environment :: environment where
  "plain_environment =
     \<lparr>env_lstat = (\<lambda>_. Some \<lparr>fst_mode = 493, fst_symlink = False\<rparr>), env_is_dir = (\<lambda>_. True),
      env_resolve_strict = Some, env_resolve = (\<lambda>p. if list_all printable p then Some p else None),
      env_path_of_text = (\<lambda>_. [''srv'', ''repo'']), env_git = (\<lambda>_ _. Some ''main'')\<rparr>"

definition sample_repository :: RepositoryBinding where
  "sample_repository =
     \<lparr>rp_repo_id = ''repo'', rp_remote_identity = ''main'',
      rp_local_root = \<lparr>pp_absolute = True, pp_parts = [''srv'', ''repo'']\<rparr>,
      rp_default_branch = ''main'', rp_config_digest = ''sha256:'' @ replicate 64 (CHR ''0'')\<rparr>"

definition sample_repositories :: RepositoryRegistry where
  "sample_repositories = [(''repo'', sample_repository)]"

lemma plain_names: "names_without_nul plain_environment"
proof -
  have "CHR 0x00 \<notin> set part" if "printable part" for part
    using that by (auto simp: printable_def list_all_iff dest: bspec [of _ _ "CHR 0x00"])
  then show ?thesis
    by (auto simp: names_without_nul_def plain_environment_def list_all_iff split: if_splits)
qed

lemma sample_resolve: "resolve_path plain_environment sample_repositories ''repo'' ''src/a'' = Inr [''srv'', ''repo'', ''src'', ''a'']"
  by code_simp

lemma sample_scope_digest:
  "scope_digest (\<lambda>t. t) plain_environment sample_repositories ''repo'' ''write'' [''src'', ''docs''] =
     Inr (''sha256:'' @ scope_material ''repo'' ''write'' [''docs'', ''src''])"
  by code_simp

theorem resolve_path_isolated_witness:
  "\<exists>rest. [''srv'', ''repo'', ''src'', ''a''] = [''srv'', ''repo''] @ rest"
  using resolve_path_isolated [OF sample_resolve]
  by (auto simp: sample_repositories_def plain_environment_def sample_repository_def)

theorem scope_digest_order_independent_witness:
  "scope_digest (\<lambda>t. t) plain_environment sample_repositories ''repo'' ''write'' [''docs'', ''src''] =
     Inr (''sha256:'' @ scope_material ''repo'' ''write'' [''docs'', ''src''])"
  by (rule scope_digest_order_independent [OF sample_scope_digest]) simp

theorem scope_digest_binds_witness:
  "\<exists>ts ts'. map_result (scope_text plain_environment sample_repositories ''repo'') [''src'', ''docs''] = Inr ts \<and>
     map_result (scope_text plain_environment sample_repositories ''repo'') [''docs'', ''src''] = Inr ts' \<and>
     mset ts = mset ts'"
proof -
  have "scope_digest (\<lambda>t. t) plain_environment sample_repositories ''repo'' ''write'' [''docs'', ''src''] =
      Inr (''sha256:'' @ scope_material ''repo'' ''write'' [''docs'', ''src''])" by code_simp
  from scope_digest_binds [OF plain_names sample_scope_digest this] show ?thesis by auto
qed

theorem remote_spellings_agree_witness:
  "normalize_remote ''git@GitHub.com:me/repo.git'' = normalize_remote ''ssh://git@github.com/me/repo.git''"
proof -
  have "map lower_char ''github.com'' = map lower_char ''GitHub.com''" by code_simp
  moreover have "\<not> is_space (last ''me/repo.git'')" by code_simp
  ultimately show ?thesis
    using remote_spellings_agree [of "''GitHub.com''" "''me/repo.git''" "''github.com''"] by simp
qed

end
