(* ===== verification/Authority.thy ===== *)
theory Authority
  imports Principals Repositories
begin

text \<open>
  \<open>hive/authority.py\<close>: capability checks against live principals, and delegation grants that are
  issued, validated, consumed once and revoked, with an optional private JSON document. The engine
  holds the principal registry it consults; its clock, SHA-256, the file system and the faults of
  the two state stores come in as one environment record.
\<close>

definition MAX_GRANT_TTL_SECONDS :: int where "MAX_GRANT_TTL_SECONDS = 24 * 60 * 60"
definition MAX_GRANT_PATHS :: nat where "MAX_GRANT_PATHS = 256"

definition GRANT_STATES :: "string list" where
  "GRANT_STATES = [''active'', ''consumed'', ''revoked'', ''expired'']"

text \<open>\<open>[a-z][a-z0-9_-]{1,127}\.[a-z][a-z0-9_.-]{1,127}\<close>: the first part has no dot.\<close>

fun capability_head :: "string \<Rightarrow> bool" where
  "capability_head [] = False"
| "capability_head (c # cs) =
     (is_lower c \<and> 1 \<le> length cs \<and> length cs \<le> 127 \<and> list_all identifier_tail_char cs)"

fun capability_tail :: "string \<Rightarrow> bool" where
  "capability_tail [] = False"
| "capability_tail (c # cs) =
     (is_lower c \<and> 1 \<le> length cs \<and> length cs \<le> 127 \<and>
      list_all (\<lambda>x. identifier_tail_char x \<or> x = CHR ''.'') cs)"

definition CAPABILITY_RE :: "string \<Rightarrow> bool" where
  "CAPABILITY_RE s =
     (case partition_at ''.'' s of
        (before, Some after) \<Rightarrow> capability_head before \<and> capability_tail after
      | _ \<Rightarrow> False)"

definition auth_identifier :: "string \<Rightarrow> string \<Rightarrow> unit result" where
  "auth_identifier s fld = check (identifier_re s) (AuthorityError (''invalid_'' @ fld))"

definition auth_capability :: "string \<Rightarrow> unit result" where
  "auth_capability s = check (CAPABILITY_RE s) (AuthorityError ''invalid_capability'')"

definition grant_path_ok :: "string \<Rightarrow> bool" where
  "grant_path_ok s =
     (1 \<le> length s \<and> length s \<le> 512 \<and> \<not> starts_with ''/'' s \<and> \<not> starts_with ''~'' s \<and>
      CHR 0x5C \<notin> set s \<and> \<not> contains ''://'' s \<and>
      \<not> list_ex (\<lambda>part. part = '''' \<or> part = ''.'' \<or> part = ''..'') (split_on CHR ''/'' s))"

definition auth_paths :: "string list \<Rightarrow> string \<Rightarrow> bool \<Rightarrow> unit result" where
  "auth_paths values code allow_empty =
     check (\<not> (\<not> allow_empty \<and> values = []) \<and> length values \<le> MAX_GRANT_PATHS \<and> list_all grant_path_ok values)
       (AuthorityError code)"

definition unit_checks :: "('a \<Rightarrow> unit result) \<Rightarrow> 'a list \<Rightarrow> unit result" where
  "unit_checks f xs = and_then (map_result f xs) (\<lambda>_. Inr ())"

record AuthorityRequest =
  aq_actor_principal_id :: string
  aq_capability :: string
  aq_repo_id :: "string option"
  aq_dispatch_id :: "string option"
  aq_workpackage_id :: "string option"
  aq_scope :: "string list"
  aq_write_paths :: "string list"

definition AuthorityRequest_init :: "AuthorityRequest \<Rightarrow> AuthorityRequest result" where
  "AuthorityRequest_init r =
     and_then (auth_identifier (aq_actor_principal_id r) ''actor_principal'') (\<lambda>_.
     and_then (auth_capability (aq_capability r)) (\<lambda>_.
     and_then (opt_check (\<lambda>s. auth_identifier s ''repo'') (aq_repo_id r)) (\<lambda>_.
     and_then (opt_check (\<lambda>s. auth_identifier s ''dispatch'') (aq_dispatch_id r)) (\<lambda>_.
     and_then (opt_check (\<lambda>s. auth_identifier s ''workpackage'') (aq_workpackage_id r)) (\<lambda>_.
     and_then (auth_paths (aq_scope r) ''invalid_scope'' False) (\<lambda>_.
     and_then (auth_paths (aq_write_paths r) ''invalid_write_paths'' True) (\<lambda>_.
       Inr r)))))))"

record AuthorityDecision =
  ad_allowed :: bool
  ad_reason_code :: string
  ad_grant_id :: "string option"

text \<open>The reason code matches \<open>[a-z][a-z0-9_]{1,95}\<close>.\<close>

fun reason_ok :: "string \<Rightarrow> bool" where
  "reason_ok [] = False"
| "reason_ok (c # cs) =
     (is_lower c \<and> 1 \<le> length cs \<and> length cs \<le> 95 \<and> list_all (\<lambda>x. is_lower x \<or> is_digit x \<or> x = CHR ''_'') cs)"

definition decision :: "bool \<Rightarrow> string \<Rightarrow> string option \<Rightarrow> AuthorityDecision result" where
  "decision allowed reason_code grant_id =
     and_then (check (reason_ok reason_code) (AuthorityError ''invalid_authority_decision'')) (\<lambda>_.
     and_then (opt_check (\<lambda>s. auth_identifier s ''grant'') grant_id) (\<lambda>_.
       Inr \<lparr>ad_allowed = allowed, ad_reason_code = reason_code, ad_grant_id = grant_id\<rparr>))"

definition decision_public :: "AuthorityDecision \<Rightarrow> pyval" where
  "decision_public d = PDict
     [(''allowed'', PBool (ad_allowed d)), (''reason_code'', PStr (ad_reason_code d)),
      (''grant_id'', opt_str (ad_grant_id d))]"

text \<open>
  A grant. The schema version and the delegation depth keep their dynamic values: a loaded document
  may hold \<open>True\<close>, \<open>1.0\<close> or a float depth, and the constructor accepts them.
\<close>

record DelegationGrant =
  dg_schema_version :: pyval
  dg_grant_id :: string
  dg_issuer_principal_id :: string
  dg_subject_principal_id :: string
  dg_repo_id :: string
  dg_dispatch_id :: "string option"
  dg_capabilities :: "string list"
  dg_scope :: "string list"
  dg_write_paths :: "string list"
  dg_max_delegation_depth :: pyval
  dg_issued_at_utc :: py_datetime
  dg_expires_at_utc :: py_datetime
  dg_nonce_digest :: string
  dg_request_digest :: string
  dg_status :: string
  dg_version :: int

fun depth_check :: "pyval \<Rightarrow> unit result" where
  "depth_check (PBool b) = Inl (AuthorityError ''invalid_delegation_depth'')"
| "depth_check (PInt i) = check (0 \<le> i \<and> i \<le> 32) (AuthorityError ''invalid_delegation_depth'')"
| "depth_check (PFloat q) = check (0 \<le> q \<and> q \<le> 32) (AuthorityError ''invalid_delegation_depth'')"
| "depth_check _ = Inl TypeError"

definition ttl_check :: "py_datetime \<Rightarrow> py_datetime \<Rightarrow> unit result" where
  "ttl_check issued_at expires_at =
     and_then (validate_utc_datetime issued_at ''issued'') (\<lambda>issued.
     and_then (validate_utc_datetime expires_at ''expires'') (\<lambda>expires.
       let ttl = instant expires - instant issued
       in check (\<not> (ttl \<le> 0 \<or> ttl > MAX_GRANT_TTL_SECONDS * us_per_second)) (AuthorityError ''invalid_grant_ttl'')))"

definition DelegationGrant_init :: "DelegationGrant \<Rightarrow> DelegationGrant result" where
  "DelegationGrant_init g =
     and_then (check (py_eq_int (dg_schema_version g) 1) (AuthorityError ''unsupported_grant_schema'')) (\<lambda>_.
     and_then (unit_checks (\<lambda>(s, fld). auth_identifier s fld)
       [(dg_grant_id g, ''grant''), (dg_issuer_principal_id g, ''issuer_principal''),
        (dg_subject_principal_id g, ''subject_principal''), (dg_repo_id g, ''repo'')]) (\<lambda>_.
     and_then (opt_check (\<lambda>s. auth_identifier s ''dispatch'') (dg_dispatch_id g)) (\<lambda>_.
     and_then (check (dg_capabilities g \<noteq> []) (AuthorityError ''invalid_grant_capabilities'')) (\<lambda>_.
     and_then (unit_checks auth_capability (dg_capabilities g)) (\<lambda>_.
     and_then (auth_paths (dg_scope g) ''invalid_grant_scope'' False) (\<lambda>_.
     and_then (auth_paths (dg_write_paths g) ''invalid_grant_write_paths'' True) (\<lambda>_.
     and_then (depth_check (dg_max_delegation_depth g)) (\<lambda>_.
     and_then (ttl_check (dg_issued_at_utc g) (dg_expires_at_utc g)) (\<lambda>_.
     and_then (check (is_sha256_digest (dg_nonce_digest g) \<and> is_sha256_digest (dg_request_digest g))
                 (AuthorityError ''invalid_grant_digest'')) (\<lambda>_.
     and_then (check (dg_status g \<in> set GRANT_STATES) (AuthorityError ''invalid_grant_state'')) (\<lambda>_.
     and_then (check (1 \<le> dg_version g \<and> dg_version g \<le> 10 ^ 12) (AuthorityError ''invalid_grant_version'')) (\<lambda>_.
       Inr g))))))))))))"

definition str_list :: "string list \<Rightarrow> pyval" where
  "str_list xs = PList (map PStr xs)"

definition grant_public :: "DelegationGrant \<Rightarrow> pyval" where
  "grant_public g = PDict
     [(''schema_version'', dg_schema_version g), (''grant_id'', PStr (dg_grant_id g)),
      (''issuer_principal_id'', PStr (dg_issuer_principal_id g)),
      (''subject_principal_id'', PStr (dg_subject_principal_id g)), (''repo_id'', PStr (dg_repo_id g)),
      (''dispatch_id'', opt_str (dg_dispatch_id g)), (''capabilities'', str_list (dg_capabilities g)),
      (''scope_count'', PInt (int (length (dg_scope g)))),
      (''write_path_count'', PInt (int (length (dg_write_paths g)))),
      (''max_delegation_depth'', dg_max_delegation_depth g),
      (''issued_at_utc'', PStr (isoformat (dg_issued_at_utc g))),
      (''expires_at_utc'', PStr (isoformat (dg_expires_at_utc g))),
      (''status'', PStr (dg_status g)), (''version'', PInt (dg_version g))]"

definition grant_payload :: "DelegationGrant \<Rightarrow> pyval" where
  "grant_payload g = PDict
     [(''schema_version'', dg_schema_version g), (''grant_id'', PStr (dg_grant_id g)),
      (''issuer_principal_id'', PStr (dg_issuer_principal_id g)),
      (''subject_principal_id'', PStr (dg_subject_principal_id g)), (''repo_id'', PStr (dg_repo_id g)),
      (''dispatch_id'', opt_str (dg_dispatch_id g)), (''capabilities'', str_list (dg_capabilities g)),
      (''scope'', str_list (dg_scope g)), (''write_paths'', str_list (dg_write_paths g)),
      (''max_delegation_depth'', dg_max_delegation_depth g),
      (''issued_at_utc'', PStr (isoformat (dg_issued_at_utc g))),
      (''expires_at_utc'', PStr (isoformat (dg_expires_at_utc g))),
      (''nonce_digest'', PStr (dg_nonce_digest g)), (''request_digest'', PStr (dg_request_digest g)),
      (''status'', PStr (dg_status g)), (''version'', PInt (dg_version g))]"

text \<open>The binding digest is taken over the same fields; \<open>canonical\<close> is the sorted JSON text of a value.\<close>

definition binding_digest :: "(string \<Rightarrow> string) \<Rightarrow> (pyval \<Rightarrow> string) \<Rightarrow> DelegationGrant \<Rightarrow> string" where
  "binding_digest sha256 canonical g = ''sha256:'' @ sha256 (canonical (grant_payload g))"

text \<open>\<open>tuple(v)\<close>: a string gives its characters, a dictionary its keys.\<close>

fun py_tuple :: "pyval \<Rightarrow> pyval list option" where
  "py_tuple (PList xs) = Some xs"
| "py_tuple (PStr s) = Some (map (\<lambda>c. PStr [c]) s)"
| "py_tuple (PDict d) = Some (map (\<lambda>(k, _). PStr k) d)"
| "py_tuple _ = None"

definition bad_grants :: exn where
  "bad_grants = AuthorityError ''grant_state_invalid''"

definition grant_str :: "(string \<times> pyval) list \<Rightarrow> string \<Rightarrow> string result" where
  "grant_str d k = and_then (py_item d k) (\<lambda>v. need (py_str v) bad_grants)"

definition grant_strs :: "(string \<times> pyval) list \<Rightarrow> string \<Rightarrow> string list result" where
  "grant_strs d k =
     and_then (py_item d k) (\<lambda>v.
     and_then (need (py_tuple v) TypeError) (\<lambda>xs. map_result (\<lambda>x. need (py_str x) bad_grants) xs))"

definition grant_time ::
  "(string \<Rightarrow> py_datetime option) \<Rightarrow> (string \<times> pyval) list \<Rightarrow> string \<Rightarrow> py_datetime result" where
  "grant_time other d k = and_then (grant_str d k) (\<lambda>s. need (parse_iso other s) ValueError)"

definition grant_from_payload ::
  "(string \<Rightarrow> py_datetime option) \<Rightarrow> pyval \<Rightarrow> DelegationGrant result" where
  "grant_from_payload other raw =
     rescue
      (and_then (need (py_dict raw) bad_grants) (\<lambda>d.
       and_then (py_item d ''schema_version'') (\<lambda>schema.
       and_then (grant_str d ''grant_id'') (\<lambda>grant_id.
       and_then (grant_str d ''issuer_principal_id'') (\<lambda>issuer.
       and_then (grant_str d ''subject_principal_id'') (\<lambda>subject.
       and_then (grant_str d ''repo_id'') (\<lambda>repo_id.
       and_then (need (opt_str_of (py_get d ''dispatch_id'' PNone)) bad_grants) (\<lambda>dispatch_id.
       and_then (grant_strs d ''capabilities'') (\<lambda>capabilities.
       and_then (grant_strs d ''scope'') (\<lambda>scope.
       and_then (grant_strs d ''write_paths'') (\<lambda>write_paths.
       and_then (py_item d ''max_delegation_depth'') (\<lambda>depth.
       and_then (grant_time other d ''issued_at_utc'') (\<lambda>issued.
       and_then (grant_time other d ''expires_at_utc'') (\<lambda>expires.
       and_then (grant_str d ''nonce_digest'') (\<lambda>nonce_digest.
       and_then (grant_str d ''request_digest'') (\<lambda>request_digest.
       and_then (grant_str d ''status'') (\<lambda>status.
       and_then (and_then (py_item d ''version'') (\<lambda>v. need (py_int v) bad_grants)) (\<lambda>version.
         DelegationGrant_init
           \<lparr>dg_schema_version = schema, dg_grant_id = grant_id, dg_issuer_principal_id = issuer,
            dg_subject_principal_id = subject, dg_repo_id = repo_id, dg_dispatch_id = dispatch_id,
            dg_capabilities = capabilities, dg_scope = scope, dg_write_paths = write_paths,
            dg_max_delegation_depth = depth, dg_issued_at_utc = issued, dg_expires_at_utc = expires,
            dg_nonce_digest = nonce_digest, dg_request_digest = request_digest, dg_status = status,
            dg_version = version\<rparr>))))))))))))))))))
      (\<lambda>_. Inl bad_grants)"

subsection \<open>The engine\<close>

record AuthorityEngine =
  ae_principals :: PrincipalRegistry
  ae_repositories :: RepositoryRegistry
  ae_capabilities :: "(string, string list) dict"
  ae_state :: "HiveStateStore option"
  ae_grants :: "(string, DelegationGrant) dict"

record authority_env =
  av_other :: "string \<Rightarrow> py_datetime option"
  av_principal_io :: state_io
  av_io :: state_io
  av_files :: environment
  av_sha256 :: "string \<Rightarrow> string"
  av_now :: py_datetime

definition AuthorityContext_init :: "(string, string list) dict \<Rightarrow> unit result" where
  "AuthorityContext_init capabilities = unit_checks auth_capability (concat (map snd capabilities))"

definition engine_principal :: "authority_env \<Rightarrow> string \<Rightarrow> (AuthorityEngine, Principal) op" where
  "engine_principal av i s =
     (case registry_get (av_other av) (av_principal_io av) i (ae_principals s) of
        (res, reg) \<Rightarrow> (res, s\<lparr>ae_principals := reg\<rparr>))"

definition capabilities_of :: "AuthorityEngine \<Rightarrow> Principal \<Rightarrow> string list" where
  "capabilities_of s p =
     (case map_of (ae_capabilities s) (pn_authority_profile p) of None \<Rightarrow> [] | Some cs \<Rightarrow> cs)"

definition path_within :: "string list \<Rightarrow> string list \<Rightarrow> bool" where
  "path_within path scope = (relative_to path scope \<noteq> None)"

definition scope_allowed ::
  "authority_env \<Rightarrow> AuthorityEngine \<Rightarrow> string option \<Rightarrow> string list \<Rightarrow> string list \<Rightarrow> bool" where
  "scope_allowed av s repo_id scope write_paths =
     (case repo_id of
        None \<Rightarrow> False
      | Some repo \<Rightarrow>
          (case map_result (resolve_path (av_files av) (ae_repositories s) repo) scope of
             Inl _ \<Rightarrow> False
           | Inr scope_paths \<Rightarrow>
               (case map_result (resolve_path (av_files av) (ae_repositories s) repo) write_paths of
                  Inl _ \<Rightarrow> False
                | Inr write_resolved \<Rightarrow>
                    scope_paths \<noteq> [] \<and>
                    list_all (\<lambda>candidate. list_ex (\<lambda>allowed. path_within candidate allowed) scope_paths) write_resolved)))"

definition authorize :: "authority_env \<Rightarrow> AuthorityRequest \<Rightarrow> (AuthorityEngine, AuthorityDecision) op" where
  "authorize av request s =
     (case engine_principal av (aq_actor_principal_id request) s of
        (Inl (PrincipalError m), s) \<Rightarrow> (decision False ''principal_not_found'' None, s)
      | (Inl e, s) \<Rightarrow> (Inl e, s)
      | (Inr actor, s) \<Rightarrow>
          (if pn_state actor \<noteq> ''active'' then decision False ''principal_inactive'' None
           else if aq_capability request \<notin> set (capabilities_of s actor) then decision False ''capability_denied'' None
           else if aq_repo_id request \<noteq> pn_repo_id actor then decision False ''repository_mismatch'' None
           else if \<not> scope_allowed av s (aq_repo_id request) (aq_scope request) (aq_write_paths request)
           then decision False ''scope_denied'' None
           else decision True ''authorized'' None, s))"

definition grants_path :: pure_path where
  "grants_path = \<lparr>pp_absolute = False, pp_parts = [''grants.json'']\<rparr>"

fun load_grants ::
  "(string \<Rightarrow> py_datetime option) \<Rightarrow> pyval list \<Rightarrow> (AuthorityEngine, unit) op" where
  "load_grants other [] s = (Inr (), s)"
| "load_grants other (raw # raws) s =
     (case grant_from_payload other raw of
        Inl e \<Rightarrow> (Inl e, s)
      | Inr g \<Rightarrow>
          if map_of (ae_grants s) (dg_grant_id g) \<noteq> None then (Inl (AuthorityError ''duplicate_grant''), s)
          else load_grants other raws (s\<lparr>ae_grants := AList.update (dg_grant_id g) g (ae_grants s)\<rparr>))"

definition load_grants_locked :: "authority_env \<Rightarrow> HiveStateStore \<Rightarrow> (AuthorityEngine, unit) op" where
  "load_grants_locked av st s =
     (let s = s\<lparr>ae_grants := []\<rparr> in
      case read_json_locked (av_io av) grants_path (4 * 1024 * 1024) st of
        Inl (HiveStateError code) \<Rightarrow>
          if code = ''state_not_found'' then (Inr (), s) else (Inl bad_grants, s)
      | Inl e \<Rightarrow> (Inl e, s)
      | Inr payload \<Rightarrow>
          (case py_get payload ''grants'' PNone of
             PList raw_grants \<Rightarrow>
               if py_eq_int (py_get payload ''schema_version'' PNone) 1
               then load_grants (av_other av) raw_grants s else (Inl bad_grants, s)
           | _ \<Rightarrow> (Inl bad_grants, s)))"

definition grants_document :: "(string, DelegationGrant) dict \<Rightarrow> (string \<times> pyval) list" where
  "grants_document gs =
     [(''schema_version'', PInt 1), (''grants'', PList (map (\<lambda>(_, g). grant_payload g) gs))]"

definition persist_grants :: "authority_env \<Rightarrow> (AuthorityEngine, unit) op" where
  "persist_grants av s =
     (case ae_state s of
        None \<Rightarrow> (Inr (), s)
      | Some st \<Rightarrow>
          (case replace_json_locked (av_io av) grants_path (grants_document (ae_grants s)) st of
             (res, st') \<Rightarrow> (res, s\<lparr>ae_state := Some st'\<rparr>)))"

definition grant_transaction ::
  "authority_env \<Rightarrow> (AuthorityEngine, 'a) op \<Rightarrow> (AuthorityEngine, 'a) op" where
  "grant_transaction av body s =
     (case ae_state s of
        None \<Rightarrow> body s
      | Some st \<Rightarrow> state_locked (av_io av) (op_bind (load_grants_locked av st) (\<lambda>_. body)) s)"

text \<open>\<open>self._grants[g] = grant; self._persist(); return x\<close>\<close>

definition put_grant :: "authority_env \<Rightarrow> string \<Rightarrow> DelegationGrant \<Rightarrow> 'a result \<Rightarrow> (AuthorityEngine, 'a) op" where
  "put_grant av i g res s =
     op_bind (persist_grants av) (\<lambda>_. op_lift res) (s\<lparr>ae_grants := AList.update i g (ae_grants s)\<rparr>)"

definition safe_now :: "authority_env \<Rightarrow> py_datetime result" where
  "safe_now av =
     rescue (validate_utc_datetime (av_now av) ''timestamp'') (\<lambda>_. Inl (AuthorityError ''authority_clock_unavailable''))"

definition digest_secret :: "authority_env \<Rightarrow> string \<Rightarrow> string result" where
  "digest_secret av value =
     (if value = [] then Inl (AuthorityError ''invalid_grant_nonce'')
      else Inr (''sha256:'' @ av_sha256 av value))"

text \<open>\<open>dict.fromkeys\<close> keeps the first occurrence of each value.\<close>

fun dedup :: "'a list \<Rightarrow> 'a list" where
  "dedup [] = []"
| "dedup (x # xs) = x # filter (\<lambda>y. y \<noteq> x) (dedup xs)"

record grant_request =
  gq_grant_id :: string
  gq_issuer_principal_id :: string
  gq_subject_principal_id :: string
  gq_repo_id :: string
  gq_dispatch_id :: "string option"
  gq_capabilities :: "string list"
  gq_scope :: "string list"
  gq_write_paths :: "string list"
  gq_max_delegation_depth :: int
  gq_issued_at_utc :: py_datetime
  gq_expires_at_utc :: py_datetime
  gq_nonce :: string
  gq_request_digest :: string

definition checked_grant ::
  "authority_env \<Rightarrow> AuthorityEngine \<Rightarrow> grant_request \<Rightarrow> Principal \<Rightarrow> Principal \<Rightarrow> DelegationGrant result" where
  "checked_grant av s q issuer subject =
     (let repo_id = gq_repo_id q; capabilities = sort (remdups (gq_capabilities q));
          scope = dedup (gq_scope q); write_paths = dedup (gq_write_paths q) in
      and_then (check (pn_state issuer = ''active'' \<and> pn_state subject = ''active'')
                  (AuthorityError ''principal_inactive'')) (\<lambda>_.
      and_then (check (pn_parent_principal_id subject = Some (pn_principal_id issuer))
                  (AuthorityError ''parent_mismatch'')) (\<lambda>_.
      and_then (check ((pn_repo_id issuer = None \<or> pn_repo_id issuer = Some repo_id) \<and> pn_repo_id subject = Some repo_id)
                  (AuthorityError ''repository_mismatch'')) (\<lambda>_.
      and_then (rescue (repository_get (ae_repositories s) repo_id)
                  (\<lambda>_. Inl (AuthorityError ''unknown_repository''))) (\<lambda>_.
      and_then (check (capabilities \<noteq> [] \<and> list_all (\<lambda>c. c \<in> set (capabilities_of s issuer)) capabilities)
                  (AuthorityError ''capability_subset_denied'')) (\<lambda>_.
      and_then (check (list_all (\<lambda>c. c \<in> set (capabilities_of s subject)) capabilities)
                  (AuthorityError ''subject_capability_denied'')) (\<lambda>_.
      and_then (check (scope_allowed av s (Some repo_id) scope write_paths) (AuthorityError ''scope_denied'')) (\<lambda>_.
      and_then (check (0 \<le> gq_max_delegation_depth q \<and> gq_max_delegation_depth q \<le> 8)
                  (AuthorityError ''invalid_delegation_depth'')) (\<lambda>_.
      and_then (check (gq_nonce q \<noteq> []) (AuthorityError ''invalid_grant_nonce'')) (\<lambda>_.
      and_then (check (is_sha256_digest (gq_request_digest q)) (AuthorityError ''invalid_grant_request_digest'')) (\<lambda>_.
      and_then (digest_secret av (gq_nonce q)) (\<lambda>nonce_digest.
        rescue (DelegationGrant_init
          \<lparr>dg_schema_version = PInt 1, dg_grant_id = gq_grant_id q, dg_issuer_principal_id = pn_principal_id issuer,
           dg_subject_principal_id = pn_principal_id subject, dg_repo_id = repo_id,
           dg_dispatch_id = gq_dispatch_id q, dg_capabilities = capabilities, dg_scope = scope,
           dg_write_paths = write_paths, dg_max_delegation_depth = PInt (gq_max_delegation_depth q),
           dg_issued_at_utc = gq_issued_at_utc q, dg_expires_at_utc = gq_expires_at_utc q,
           dg_nonce_digest = nonce_digest, dg_request_digest = gq_request_digest q, dg_status = ''active'',
           dg_version = 1\<rparr>)
          (\<lambda>e. case e of AuthorityError m \<Rightarrow> Inl e | _ \<Rightarrow> Inl (AuthorityError ''invalid_grant''))))))))))))))"

definition build_grant :: "authority_env \<Rightarrow> grant_request \<Rightarrow> (AuthorityEngine, DelegationGrant) op" where
  "build_grant av q s =
     (case op_bind (engine_principal av (gq_issuer_principal_id q)) (\<lambda>issuer.
           op_bind (engine_principal av (gq_subject_principal_id q)) (\<lambda>subject. op_lift (Inr (issuer, subject)))) s of
        (Inl (PrincipalError m), s) \<Rightarrow> (Inl (AuthorityError ''principal_not_found''), s)
      | (Inl e, s) \<Rightarrow> (Inl e, s)
      | (Inr (issuer, subject), s) \<Rightarrow> (checked_grant av s q issuer subject, s))"

definition issue_grant :: "authority_env \<Rightarrow> grant_request \<Rightarrow> (AuthorityEngine, DelegationGrant) op" where
  "issue_grant av q =
     op_bind (build_grant av q) (\<lambda>grant.
       grant_transaction av (\<lambda>s.
         if map_of (ae_grants s) (dg_grant_id grant) \<noteq> None then (Inl (AuthorityError ''duplicate_grant''), s)
         else put_grant av (dg_grant_id grant) grant (Inr grant) s))"

definition replaced_grant :: "DelegationGrant \<Rightarrow> string \<Rightarrow> DelegationGrant result" where
  "replaced_grant g status = DelegationGrant_init (g\<lparr>dg_status := status, dg_version := dg_version g + 1\<rparr>)"

definition consume_active ::
  "authority_env \<Rightarrow> string \<Rightarrow> DelegationGrant \<Rightarrow> string \<Rightarrow> string \<Rightarrow> (AuthorityEngine, AuthorityDecision) op" where
  "consume_active av grant_id grant nonce request_digest s =
     (case digest_secret av nonce of
        Inl e \<Rightarrow> (Inl e, s)
      | Inr secret \<Rightarrow>
          if secret \<noteq> dg_nonce_digest grant then (decision False ''grant_nonce_mismatch'' (Some grant_id), s)
          else if \<not> is_sha256_digest request_digest \<or> request_digest \<noteq> dg_request_digest grant
          then (decision False ''grant_request_mismatch'' (Some grant_id), s)
          else case replaced_grant grant ''consumed'' of
                 Inl e \<Rightarrow> (Inl e, s)
               | Inr consumed \<Rightarrow>
                   put_grant av grant_id consumed (decision True ''grant_consumed'' (Some grant_id)) s)"

definition consume_grant ::
  "authority_env \<Rightarrow> string \<Rightarrow> string \<Rightarrow> string \<Rightarrow> (AuthorityEngine, AuthorityDecision) op" where
  "consume_grant av grant_id nonce request_digest =
     grant_transaction av (\<lambda>s.
       case map_of (ae_grants s) grant_id of
         None \<Rightarrow> (decision False ''grant_not_found'' None, s)
       | Some grant \<Rightarrow>
           (case safe_now av of
              Inl e \<Rightarrow> (Inl e, s)
            | Inr now \<Rightarrow>
                if dg_status grant \<noteq> ''active''
                then (decision False (if dg_status grant = ''consumed'' then ''grant_replayed'' else ''grant_inactive'')
                        (Some grant_id), s)
                else if instant now \<ge> instant (dg_expires_at_utc grant)
                then (case replaced_grant grant ''expired'' of
                        Inl e \<Rightarrow> (Inl e, s)
                      | Inr expired \<Rightarrow>
                          put_grant av grant_id expired (decision False ''grant_expired'' (Some grant_id)) s)
                else consume_active av grant_id grant nonce request_digest s))"

definition revoke_grant :: "authority_env \<Rightarrow> string \<Rightarrow> int \<Rightarrow> (AuthorityEngine, DelegationGrant) op" where
  "revoke_grant av grant_id expected_version =
     grant_transaction av (\<lambda>s.
       case map_of (ae_grants s) grant_id of
         None \<Rightarrow> (Inl (AuthorityError ''grant_not_found''), s)
       | Some current \<Rightarrow>
           if dg_version current \<noteq> expected_version then (Inl (AuthorityError ''stale_grant_version''), s)
           else if dg_status current = ''revoked'' then (Inr current, s)
           else case replaced_grant current ''revoked'' of
                  Inl e \<Rightarrow> (Inl e, s)
                | Inr revoked \<Rightarrow> put_grant av grant_id revoked (Inr revoked) s)"

definition get_grant :: "authority_env \<Rightarrow> string \<Rightarrow> (AuthorityEngine, DelegationGrant) op" where
  "get_grant av grant_id =
     grant_transaction av (\<lambda>s. (need (map_of (ae_grants s) grant_id) (AuthorityError ''grant_not_found''), s))"

fun any_within :: "(string \<Rightarrow> string list result) \<Rightarrow> string \<Rightarrow> string list \<Rightarrow> bool result" where
  "any_within resolve value [] = Inr False"
| "any_within resolve value (allowed # rest) =
     and_then (resolve value) (\<lambda>v.
     and_then (resolve allowed) (\<lambda>a.
       if path_within v a then Inr True else any_within resolve value rest))"

fun all_within :: "(string \<Rightarrow> string list result) \<Rightarrow> string list \<Rightarrow> string list \<Rightarrow> bool result" where
  "all_within resolve [] granted = Inr True"
| "all_within resolve (value # values) granted =
     and_then (any_within resolve value granted) (\<lambda>b.
       if b then all_within resolve values granted else Inr False)"

definition grant_covers ::
  "authority_env \<Rightarrow> AuthorityEngine \<Rightarrow> string \<Rightarrow> DelegationGrant \<Rightarrow> string list \<Rightarrow> string list \<Rightarrow> AuthorityDecision result" where
  "grant_covers av s grant_id grant scope write_paths =
     (let resolve = resolve_path (av_files av) (ae_repositories s) (dg_repo_id grant) in
      and_then (all_within resolve scope (dg_scope grant)) (\<lambda>in_scope.
        if \<not> in_scope then decision False ''grant_scope_mismatch'' (Some grant_id)
        else and_then (all_within resolve write_paths (dg_write_paths grant)) (\<lambda>in_write.
          if \<not> in_write then decision False ''grant_write_scope_mismatch'' (Some grant_id)
          else decision True ''grant_verified'' (Some grant_id))))"

text \<open>The part of \<open>validate_grant\<close> under the lock.\<close>

definition validate_locked ::
  "authority_env \<Rightarrow> string \<Rightarrow> string \<Rightarrow> string \<Rightarrow> string option \<Rightarrow> string list \<Rightarrow> string list \<Rightarrow> string \<Rightarrow>
   (AuthorityEngine, AuthorityDecision) op" where
  "validate_locked av grant_id subject_principal_id repo_id dispatch_id scope write_paths capability s =
     (case map_of (ae_grants s) grant_id of
        None \<Rightarrow> (decision False ''grant_not_found'' (Some grant_id), s)
      | Some grant \<Rightarrow>
          if dg_status grant \<noteq> ''active'' then (decision False ''grant_inactive'' (Some grant_id), s)
          else case safe_now av of
                 Inl e \<Rightarrow> (Inl e, s)
               | Inr now \<Rightarrow>
                   if instant now \<ge> instant (dg_expires_at_utc grant)
                   then (decision False ''grant_expired'' (Some grant_id), s)
                   else case engine_principal av subject_principal_id s of
                          (Inl (PrincipalError m), s) \<Rightarrow> (decision False ''principal_not_found'' (Some grant_id), s)
                        | (Inl e, s) \<Rightarrow> (Inl e, s)
                        | (Inr subject, s) \<Rightarrow>
                            (if pn_state subject \<noteq> ''active'' then decision False ''principal_inactive'' (Some grant_id)
                             else if dg_subject_principal_id grant \<noteq> subject_principal_id \<or> dg_repo_id grant \<noteq> repo_id \<or>
                                     dg_dispatch_id grant \<noteq> dispatch_id \<or> capability \<notin> set (dg_capabilities grant)
                             then decision False ''grant_binding_mismatch'' (Some grant_id)
                             else if \<not> scope_allowed av s (Some repo_id) scope write_paths
                             then decision False ''scope_denied'' (Some grant_id)
                             else grant_covers av s grant_id grant scope write_paths, s))"

definition validate_grant ::
  "authority_env \<Rightarrow> string \<Rightarrow> string \<Rightarrow> string \<Rightarrow> string option \<Rightarrow> string list \<Rightarrow> string list \<Rightarrow> string \<Rightarrow>
   (AuthorityEngine, AuthorityDecision) op" where
  "validate_grant av grant_id subject_principal_id repo_id dispatch_id scope write_paths capability =
     op_bind (op_lift
       (and_then (auth_identifier subject_principal_id ''subject_principal'') (\<lambda>_.
        and_then (auth_identifier repo_id ''repo'') (\<lambda>_. auth_capability capability)))) (\<lambda>_.
     grant_transaction av
       (validate_locked av grant_id subject_principal_id repo_id dispatch_id scope write_paths capability))"

definition public_grants :: "authority_env \<Rightarrow> (AuthorityEngine, pyval list) op" where
  "public_grants av = grant_transaction av (\<lambda>s. (Inr (map (\<lambda>(_, g). grant_public g) (ae_grants s)), s))"

end
