(* ===== verification/Hive_Documents.thy ===== *)
theory Hive_Documents
  imports Hive_State
begin

text \<open>
  The contract of a component that keeps its dictionaries in one private JSON document: every
  operation reloads the document under the state lock, works on the dictionaries and writes them
  back. What holds of the dictionaries after every body then holds of the document, for any faults
  and any number of processes; the components supply the loader and the document.
\<close>

text \<open>The file holds the document of \<open>m\<close>, or is missing and \<open>m\<close> is empty.\<close>

definition holds_document ::
  "string list \<Rightarrow> ('m \<Rightarrow> (string \<times> pyval) list) \<Rightarrow> 'm \<Rightarrow> HiveStateStore \<Rightarrow> 'm \<Rightarrow> bool" where
  "holds_document key document nothing st m =
     ((file_at st key = No_File \<and> m = nothing) \<or>
      (\<exists>n. n \<le> MAX_HIVE_STATE_BYTES \<and> file_at st key = Bytes n (Some (PDict (document m)))))"

locale document_store =
  fixes store :: "'s \<Rightarrow> HiveStateStore option"
    and content :: "'s \<Rightarrow> 'm"
    and document :: "'m \<Rightarrow> (string \<times> pyval) list"
    and inv :: "'m \<Rightarrow> bool"
    and nothing :: 'm
    and path :: pure_path
    and key :: "string list"
    and load :: "state_io \<Rightarrow> HiveStateStore \<Rightarrow> ('s, unit) op"
  assumes path_key: "state_path io path = Inr p \<Longrightarrow> p = key"
    and inv_nothing: "inv nothing"
    and load_store: "load io st s = (res, s') \<Longrightarrow> store s' = store s"
    and load_content: "holds_document key document nothing st m \<Longrightarrow> inv m \<Longrightarrow>
      load io st s = (Inr u, s') \<Longrightarrow> content s' = m"
begin

definition transaction :: "state_io \<Rightarrow> ('s, 'a) op \<Rightarrow> ('s, 'a) op" where
  "transaction io body s =
     (case store s of
        None \<Rightarrow> body s
      | Some st \<Rightarrow> state_locked io (op_bind (load io st) (\<lambda>_. body)) s)"

abbreviation on_disk :: "HiveStateStore \<Rightarrow> 'm \<Rightarrow> bool" where
  "on_disk \<equiv> holds_document key document nothing"

definition sound :: "'s \<Rightarrow> bool" where
  "sound s = (case store s of None \<Rightarrow> inv (content s) | Some st \<Rightarrow> \<exists>m. inv m \<and> on_disk st m)"

text \<open>
  What a body may do to the document: nothing, or replace it by that of its own contents, whether the
  write then returned or raised.
\<close>

definition writes_back :: "'s \<Rightarrow> 's \<Rightarrow> bool" where
  "writes_back s s' =
     (store s' = store s \<or>
      (\<exists>st st' io r. store s = Some st \<and> store s' = Some st' \<and>
         replace_json_locked io path (document (content s')) st = (r, st')))"

definition keeps :: "('s, 'a) op \<Rightarrow> bool" where
  "keeps body =
     (\<forall>s r s'. inv (content s) \<longrightarrow> body s = (r, s') \<longrightarrow> inv (content s') \<and> writes_back s s')"

lemma keeps_read: "keeps (\<lambda>s. (f s, s))"
  by (simp add: keeps_def writes_back_def)

lemma written_on_disk:
  assumes "replace_json_locked io path (document m) st = (r, st')"
  shows "on_disk st' m \<or> (\<not> is_ok r \<and> st' = st)"
  using assms
proof (cases rule: replace_json_locked_cases)
  case (replaced p n)
  then show ?thesis using path_key by (auto simp: holds_document_def encode_Inr)
qed simp

text \<open>
  The contents that the next operation will see: those of the document, or the memory of a component
  without one. An operation either fails before its body or runs its body on them.
\<close>

definition holds :: "'s \<Rightarrow> 'm \<Rightarrow> bool" where
  "holds s m = (inv m \<and> (case store s of None \<Rightarrow> content s = m | Some st \<Rightarrow> on_disk st m))"

lemma sound_holds: "sound s \<longleftrightarrow> (\<exists>m. holds s m)"
  by (auto simp: sound_def holds_def split: option.splits)

lemma transaction_cases:
  assumes "holds s m" and "transaction io body s = (res, s')"
  obtains (refused) "\<not> is_ok res" "store s' = store s" "holds s' m"
    | (ran) s1 where "content s1 = m" "store s1 = store s" "body s1 = (res, s')"
proof (cases "store s")
  case None
  then show ?thesis using assms ran [of s] by (simp add: holds_def transaction_def)
next
  case (Some st)
  obtain l s1 where load: "load io st s = (l, s1)" by (cases "load io st s")
  have s1: "store s1 = Some st" using load_store [OF load] Some by simp
  consider (lock) flt where "si_lock io = Some flt" | (fail) e where "si_lock io = None" "l = Inl e"
    | (run) "si_lock io = None" "l = Inr ()" by (cases "si_lock io"; cases l) auto
  then show ?thesis
  proof cases
    case lock
    then show ?thesis using assms Some refused by (auto simp: transaction_def state_locked_def op_bind_def)
  next
    case fail
    then have "s' = s1" "\<not> is_ok res"
      using assms(2) Some load by (auto simp: transaction_def state_locked_def op_bind_def)
    then show ?thesis using refused s1 assms(1) Some by (simp add: holds_def)
  next
    case run
    then have "content s1 = m" using load_content load assms(1) Some by (fastforce simp: holds_def)
    moreover have "body s1 = (res, s')"
      using assms(2) Some load run by (auto simp: transaction_def state_locked_def op_bind_def)
    ultimately show ?thesis using ran s1 Some by simp
  qed
qed

text \<open>After a body that keeps the discipline, the contents are the old ones or the body's.\<close>

lemma writes_back_holds:
  assumes "holds s0 m" and "store s = store s0" and "content s = m" and "inv (content s')" and "writes_back s s'"
  shows "holds s' m \<or> holds s' (content s')"
proof (cases "store s' = store s")
  case True
  then show ?thesis using assms by (auto simp: holds_def split: option.splits)
next
  case False
  then obtain st st' io r where "store s = Some st" "store s' = Some st'"
      "replace_json_locked io path (document (content s')) st = (r, st')"
    using assms(5) by (auto simp: writes_back_def)
  then show ?thesis using written_on_disk False assms(4) by (fastforce simp: holds_def)
qed

lemma fresh_holds:
  assumes "case store s of None \<Rightarrow> content s = nothing | Some st \<Rightarrow> file_at st key = No_File"
  shows "holds s nothing"
  using assms inv_nothing by (auto simp: holds_def holds_document_def split: option.splits)

lemma transaction_sound:
  assumes "sound s" and "keeps body" and "transaction io body s = (res, s')"
  shows "sound s' \<and> (is_ok res \<longrightarrow> inv (content s'))"
proof -
  obtain m where m: "holds s m" using assms(1) by (auto simp: sound_holds)
  from m assms(3) show ?thesis
  proof (cases rule: transaction_cases)
    case refused
    then show ?thesis by (auto simp: sound_holds)
  next
    case (ran s1)
    then have "inv (content s')" "writes_back s1 s'" using assms(2) m by (auto simp: keeps_def holds_def)
    then show ?thesis using writes_back_holds [OF m ran(2,1)] by (auto simp: sound_holds)
  qed
qed

text \<open>A successful operation on a document: its body ran on what the document holds.\<close>

lemma transaction_body:
  assumes "sound s" and "store s = Some st" and "transaction io body s = (Inr x, s')"
  obtains s1 where "inv (content s1)" "store s1 = Some st" "on_disk st (content s1)"
    "load io st s = (Inr (), s1)" "body s1 = (Inr x, s')"
proof -
  obtain m where m: "inv m" "on_disk st m" using assms(1,2) by (auto simp: sound_def)
  obtain s1 where s1: "load io st s = (Inr (), s1)" "body s1 = (Inr x, s')"
    using assms(2,3) by (auto simp: transaction_def state_locked_def op_bind_cases)
  then show ?thesis using that [of s1] load_content [OF m(2,1) s1(1)] load_store [OF s1(1)] m assms(2) by simp
qed

lemma transaction_read:
  assumes "transaction io (\<lambda>s. (f s, s)) s = (Inr x, s')"
  shows "f s' = Inr x"
  using assms by (auto simp: transaction_def state_locked_def op_bind_cases split: option.splits)

lemma fresh_sound:
  assumes "case store s of None \<Rightarrow> content s = nothing | Some st \<Rightarrow> file_at st key = No_File"
  shows "sound s"
  using assms inv_nothing by (auto simp: sound_def holds_document_def split: option.splits)

end

end
