(* ===== verification/Principals_Properties.thy ===== *)
theory Principals_Properties
  imports Principals Hive_Documents
begin

text \<open>
  What the principal registry promises: its hierarchy and binding invariant, kept by every
  operation with and without the document on disk, the round trip of the document, and which
  lookups succeed.
\<close>

subsection \<open>Constructors\<close>

lemma opt_check_Inr [result_simps]: "opt_check f x = Inr u \<longleftrightarrow> (\<forall>a. x = Some a \<longrightarrow> is_ok (f a))"
  by (cases x) (auto simp: opt_check_def is_ok_iff and_then_eq_Inr)

definition principal_wf :: "(string \<Rightarrow> py_datetime option) \<Rightarrow> Principal \<Rightarrow> bool" where
  "principal_wf other p = (Principal_init other p = Inr p)"

definition ebinding_wf :: "(string \<Rightarrow> py_datetime option) \<Rightarrow> ExecutionBinding \<Rightarrow> bool" where
  "ebinding_wf other b =
     (ExecutionBinding_init other b = Inr b \<and>
      (case eb_account_pool_binding b of None \<Rightarrow> True | Some x \<Rightarrow> binding_wf x))"

lemma Principal_init_returns: "Principal_init other p = Inr q \<Longrightarrow> q = p \<and> principal_wf other p"
  by (auto simp: Principal_init_def principal_wf_def and_then_eq_Inr)

lemma ExecutionBinding_init_returns: "ExecutionBinding_init other b = Inr c \<Longrightarrow> c = b"
  by (auto simp: ExecutionBinding_init_def and_then_eq_Inr)

lemma opt_str_of_opt_str [simp]: "opt_str_of (opt_str x) = Some x"
  by (cases x) auto

lemma registry_rescue_Inr [simp]: "registry_rescue (Inr x) = Inr x"
  by (simp add: registry_rescue_def)

lemma principal_payload_roundtrip:
  assumes "principal_wf other p"
  shows "principal_from_payload other (principal_payload p) = Inr p"
  using assms
  by (cases p) (simp add: principal_from_payload_def principal_payload_def str_item_def opt_item_def
      py_item_def py_get_def principal_wf_def)

lemma execution_binding_payload_roundtrip:
  assumes "ebinding_wf other b"
  shows "binding_from_payload other (binding_payload b) = Inr b"
  using assms
  by (cases b; cases "eb_account_pool_binding b")
    (simp_all add: binding_from_payload_def binding_payload_def str_item_def opt_item_def
      py_item_def py_get_def ebinding_wf_def binding_payload_roundtrip)

subsection \<open>The invariant\<close>

text \<open>The role rules, without the demand that the parent is still active.\<close>

definition role_ok :: "(string \<Rightarrow> Principal option) \<Rightarrow> Principal \<Rightarrow> bool" where
  "role_ok look p =
     (\<exists>classes scope repo_required.
        map_of ROLE_RULES (pn_class_id p) = Some (classes, scope, repo_required) \<and>
        scope = pn_scope_kind p \<and> repo_required = (pn_repo_id p \<noteq> None) \<and>
        (case classes of
           None \<Rightarrow> pn_parent_principal_id p = None
         | Some cs \<Rightarrow>
             (\<exists>i q. pn_parent_principal_id p = Some i \<and> look i = Some q \<and> pn_class_id q \<in> set cs \<and>
                (pn_repo_id p = pn_repo_id q \<or> pn_repo_id q = None))))"

definition principals_inv ::
  "(string \<Rightarrow> py_datetime option) \<Rightarrow> (string \<Rightarrow> Principal option) \<Rightarrow> bool" where
  "principals_inv other ps =
     (\<forall>i p. ps i = Some p \<longrightarrow> i = pn_principal_id p \<and> principal_wf other p \<and> role_ok ps p)"

definition bindings_inv ::
  "(string \<Rightarrow> py_datetime option) \<Rightarrow> (string \<Rightarrow> Principal option) \<Rightarrow> (string \<Rightarrow> ExecutionBinding option) \<Rightarrow> bool" where
  "bindings_inv other ps bs =
     (\<forall>i b. bs i = Some b \<longrightarrow> i = eb_binding_id b \<and> ebinding_wf other b \<and>
        (\<exists>p. ps (eb_principal_id b) = Some p \<and> pn_repo_id p = eb_repo_id b))"

text \<open>One active binding per principal and dispatch.\<close>

definition same_duty :: "ExecutionBinding \<Rightarrow> ExecutionBinding \<Rightarrow> bool" where
  "same_duty b c =
     (eb_state b = ''active'' \<and> eb_state c = ''active'' \<and>
      eb_principal_id b = eb_principal_id c \<and> eb_dispatch_id b = eb_dispatch_id c)"

definition unique_active :: "(string \<Rightarrow> ExecutionBinding option) \<Rightarrow> bool" where
  "unique_active bs = (\<forall>i j b c. bs i = Some b \<longrightarrow> bs j = Some c \<longrightarrow> same_duty b c \<longrightarrow> i = j)"

definition registry_inv :: "(string \<Rightarrow> py_datetime option) \<Rightarrow> PrincipalRegistry \<Rightarrow> bool" where
  "registry_inv other reg =
     (dict_wf (pg_principals reg) \<and> dict_wf (pg_bindings reg) \<and>
      principals_inv other (map_of (pg_principals reg)) \<and>
      bindings_inv other (map_of (pg_principals reg)) (map_of (pg_bindings reg)) \<and>
      unique_active (map_of (pg_bindings reg)))"

lemma validate_parent_role: "validate_parent ps p = Inr u \<Longrightarrow> role_ok (map_of ps) p"
  by (auto simp: validate_parent_def role_ok_def result_simps split: option.splits)

lemma role_ok_mono:
  assumes "role_ok look p" and "\<And>i q. look i = Some q \<Longrightarrow>
      \<exists>q'. look' i = Some q' \<and> pn_class_id q' = pn_class_id q \<and> pn_repo_id q' = pn_repo_id q"
  shows "role_ok look' p"
proof -
  obtain classes scope rr where r: "map_of ROLE_RULES (pn_class_id p) = Some (classes, scope, rr)"
      "scope = pn_scope_kind p" "rr = (pn_repo_id p \<noteq> None)"
      "case classes of None \<Rightarrow> pn_parent_principal_id p = None
       | Some cs \<Rightarrow> \<exists>i q. pn_parent_principal_id p = Some i \<and> look i = Some q \<and> pn_class_id q \<in> set cs \<and>
           (pn_repo_id p = pn_repo_id q \<or> pn_repo_id q = None)"
    using assms(1) unfolding role_ok_def by blast
  have "case classes of None \<Rightarrow> pn_parent_principal_id p = None
       | Some cs \<Rightarrow> \<exists>i q. pn_parent_principal_id p = Some i \<and> look' i = Some q \<and> pn_class_id q \<in> set cs \<and>
           (pn_repo_id p = pn_repo_id q \<or> pn_repo_id q = None)"
    using r(4) assms(2) by (cases classes) (simp, fastforce)
  with r(1-3) show ?thesis unfolding role_ok_def by blast
qed

lemma role_ok_retired: "role_ok look (p\<lparr>pn_state := s, pn_version := v\<rparr>) = role_ok look p"
  by (simp add: role_ok_def cong: option.case_cong)

lemma registry_inv_state [simp]: "registry_inv other (reg\<lparr>pg_state := x\<rparr>) = registry_inv other reg"
  by (simp add: registry_inv_def)

lemma registry_inv_empty: "registry_inv other \<lparr>pg_principals = [], pg_bindings = [], pg_state = st\<rparr>"
  by (simp add: registry_inv_def principals_inv_def bindings_inv_def unique_active_def)

lemma map_of_update_fun: "map_of (AList.update k v d) = (map_of d)(k \<mapsto> v)"
  by (rule update_conv')

lemma inv_put_principal:
  assumes "registry_inv other reg" and "principal_wf other p" and "role_ok (map_of (pg_principals reg)) p"
    and "\<And>q. map_of (pg_principals reg) (pn_principal_id p) = Some q \<Longrightarrow>
      pn_class_id p = pn_class_id q \<and> pn_repo_id p = pn_repo_id q"
  shows "registry_inv other (reg\<lparr>pg_principals := AList.update (pn_principal_id p) p (pg_principals reg)\<rparr>)"
proof -
  let ?ps = "map_of (pg_principals reg)" and ?qs = "(map_of (pg_principals reg))(pn_principal_id p \<mapsto> p)"
  have look: "\<exists>q'. ?qs i = Some q' \<and> pn_class_id q' = pn_class_id q \<and> pn_repo_id q' = pn_repo_id q"
    if "?ps i = Some q" for i q
    using that assms(4) by auto
  have role: "role_ok ?qs q" if "role_ok ?ps q" for q
    using that by (rule role_ok_mono) (rule look)
  have "principals_inv other ?qs"
    unfolding principals_inv_def
  proof (intro allI impI)
    fix i q
    assume q: "?qs i = Some q"
    show "i = pn_principal_id q \<and> principal_wf other q \<and> role_ok ?qs q"
    proof (cases "i = pn_principal_id p")
      case True
      then show ?thesis using q assms(2) role [OF assms(3)] by simp
    next
      case False
      then have "?ps i = Some q" using q by simp
      then show ?thesis using assms(1) role by (simp add: registry_inv_def principals_inv_def)
    qed
  qed
  moreover have "bindings_inv other ?qs (map_of (pg_bindings reg))"
    unfolding bindings_inv_def
  proof (intro allI impI)
    fix i b
    assume "map_of (pg_bindings reg) i = Some b"
    then obtain q where q: "?ps (eb_principal_id b) = Some q" "pn_repo_id q = eb_repo_id b"
      and b: "i = eb_binding_id b" "ebinding_wf other b"
      using assms(1) unfolding registry_inv_def bindings_inv_def by blast
    then show "i = eb_binding_id b \<and> ebinding_wf other b \<and>
        (\<exists>p'. ?qs (eb_principal_id b) = Some p' \<and> pn_repo_id p' = eb_repo_id b)"
      using look [OF q(1)] by auto
  qed
  ultimately show ?thesis
    using assms(1) by (simp add: registry_inv_def map_of_update_fun)
qed

lemma bindings_inv_put:
  assumes "bindings_inv other ps bs" and "ebinding_wf other b"
    and "ps (eb_principal_id b) = Some p" and "pn_repo_id p = eb_repo_id b"
  shows "bindings_inv other ps (bs(eb_binding_id b \<mapsto> b))"
  using assms by (simp add: bindings_inv_def)

lemma inv_put_binding:
  assumes "registry_inv other reg" and "ebinding_wf other b"
    and "map_of (pg_principals reg) (eb_principal_id b) = Some p" and "pn_repo_id p = eb_repo_id b"
    and "\<And>i c. map_of (pg_bindings reg) i = Some c \<Longrightarrow> same_duty b c \<Longrightarrow> i = eb_binding_id b"
  shows "registry_inv other (reg\<lparr>pg_bindings := AList.update (eb_binding_id b) b (pg_bindings reg)\<rparr>)"
proof -
  let ?bs = "map_of (pg_bindings reg)" and ?cs = "(map_of (pg_bindings reg))(eb_binding_id b \<mapsto> b)"
  have sym: "same_duty x y = same_duty y x" for x y by (auto simp: same_duty_def)
  have "unique_active ?cs"
    unfolding unique_active_def
  proof (intro allI impI)
    fix i j x y
    assume xy: "?cs i = Some x" "?cs j = Some y" "same_duty x y"
    show "i = j"
    proof (cases "i = eb_binding_id b"; cases "j = eb_binding_id b")
      assume i: "i = eb_binding_id b" and j: "j \<noteq> eb_binding_id b"
      then show ?thesis using xy assms(5) [of j y] by simp
    next
      assume i: "i \<noteq> eb_binding_id b" and j: "j = eb_binding_id b"
      then show ?thesis using xy assms(5) [of i x] sym by simp
    next
      assume i: "i \<noteq> eb_binding_id b" and j: "j \<noteq> eb_binding_id b"
      then have "?bs i = Some x" "?bs j = Some y" using xy by simp_all
      then show ?thesis using assms(1) xy(3) unfolding registry_inv_def unique_active_def by blast
    qed simp
  qed
  moreover have "bindings_inv other (map_of (pg_principals reg)) ?cs"
    using bindings_inv_put [where ps = "map_of (pg_principals reg)", OF _ assms(2-4)] assms(1) by (simp add: registry_inv_def)
  ultimately show ?thesis
    using assms(1) by (simp add: registry_inv_def map_of_update_fun)
qed

subsection \<open>Loading what was written\<close>

lemma load_principals_payloads:
  assumes "dict_wf (pg_principals reg @ ps)" and "\<forall>(k, p) \<in> set ps. k = pn_principal_id p \<and> principal_wf other p"
  shows "load_principals other (map (\<lambda>(_, p). principal_payload p) ps) reg =
    (Inr (), reg\<lparr>pg_principals := pg_principals reg @ ps\<rparr>)"
  using assms
proof (induction ps arbitrary: reg)
  case Nil
  then show ?case by simp
next
  case (Cons x ps)
  obtain k p where x: "x = (k, p)" by (cases x)
  then have p: "k = pn_principal_id p" "principal_wf other p" using Cons.prems(2) by auto
  then have fresh: "pn_principal_id p \<notin> fst ` set (pg_principals reg)" using Cons.prems(1) x by auto
  let ?reg = "reg\<lparr>pg_principals := pg_principals reg @ [x]\<rparr>"
  have "load_principals other (map (\<lambda>(_, p). principal_payload p) ps) ?reg =
      (Inr (), ?reg\<lparr>pg_principals := pg_principals ?reg @ ps\<rparr>)"
    using Cons.prems by (intro Cons.IH) auto
  then show ?case
    using x p fresh principal_payload_roundtrip [OF p(2)] by (simp add: update_fresh map_of_eq_None_iff)
qed

lemma load_bindings_payloads:
  assumes "dict_wf (pg_bindings reg @ bs)" and "\<forall>(k, b) \<in> set bs. k = eb_binding_id b \<and> ebinding_wf other b"
  shows "load_bindings other (map (\<lambda>(_, b). binding_payload b) bs) reg =
    (Inr (), reg\<lparr>pg_bindings := pg_bindings reg @ bs\<rparr>)"
  using assms
proof (induction bs arbitrary: reg)
  case Nil
  then show ?case by simp
next
  case (Cons x bs)
  obtain k b where x: "x = (k, b)" by (cases x)
  then have b: "k = eb_binding_id b" "ebinding_wf other b" using Cons.prems(2) by auto
  then have fresh: "eb_binding_id b \<notin> fst ` set (pg_bindings reg)" using Cons.prems(1) x by auto
  let ?reg = "reg\<lparr>pg_bindings := pg_bindings reg @ [x]\<rparr>"
  have "load_bindings other (map (\<lambda>(_, b). binding_payload b) bs) ?reg =
      (Inr (), ?reg\<lparr>pg_bindings := pg_bindings ?reg @ bs\<rparr>)"
    using Cons.prems by (intro Cons.IH) auto
  then show ?case
    using x b fresh execution_binding_payload_roundtrip [OF b(2)] by (simp add: update_fresh map_of_eq_None_iff)
qed

lemma registry_inv_entries:
  assumes "registry_inv other reg"
  shows "\<forall>(k, p) \<in> set (pg_principals reg). k = pn_principal_id p \<and> principal_wf other p"
    and "\<forall>(k, b) \<in> set (pg_bindings reg). k = eb_binding_id b \<and> ebinding_wf other b"
proof -
  have d: "dict_wf (pg_principals reg)" "dict_wf (pg_bindings reg)"
    and inv: "principals_inv other (map_of (pg_principals reg))"
      "bindings_inv other (map_of (pg_principals reg)) (map_of (pg_bindings reg))"
    using assms by (simp_all add: registry_inv_def)
  show "\<forall>(k, p) \<in> set (pg_principals reg). k = pn_principal_id p \<and> principal_wf other p"
    using inv(1) map_of_is_SomeI [OF d(1)] by (fastforce simp: principals_inv_def)
  show "\<forall>(k, b) \<in> set (pg_bindings reg). k = eb_binding_id b \<and> ebinding_wf other b"
    using inv(2) map_of_is_SomeI [OF d(2)] by (fastforce simp: bindings_inv_def)
qed

text \<open>The parents that \<open>_load_locked\<close> checks again.\<close>

definition parents_valid :: "(string, Principal) dict \<Rightarrow> unit list result" where
  "parents_valid ps = map_result (validate_parent ps) (map snd ps)"

lemma load_document_roundtrip:
  assumes "registry_inv other R"
  shows "load_registry_document other (registry_document R) (reg\<lparr>pg_principals := [], pg_bindings := []\<rparr>) =
    (case parents_valid (pg_principals R) of
       Inl e \<Rightarrow> (Inl e, reg\<lparr>pg_principals := pg_principals R, pg_bindings := []\<rparr>)
     | Inr _ \<Rightarrow> (Inr (), reg\<lparr>pg_principals := pg_principals R, pg_bindings := pg_bindings R\<rparr>))"
proof -
  have d: "dict_wf (pg_principals R)" "dict_wf (pg_bindings R)" using assms by (simp_all add: registry_inv_def)
  have "load_principals other (map (\<lambda>(_, p). principal_payload p) (pg_principals R))
      (reg\<lparr>pg_principals := [], pg_bindings := []\<rparr>) = (Inr (), reg\<lparr>pg_principals := pg_principals R, pg_bindings := []\<rparr>)"
    using load_principals_payloads [where reg = "reg\<lparr>pg_principals := [], pg_bindings := []\<rparr>" and ps = "pg_principals R"]
      d registry_inv_entries [OF assms] by simp
  moreover have "load_bindings other (map (\<lambda>(_, b). binding_payload b) (pg_bindings R))
      (reg\<lparr>pg_principals := pg_principals R, pg_bindings := []\<rparr>) =
      (Inr (), reg\<lparr>pg_principals := pg_principals R, pg_bindings := pg_bindings R\<rparr>)"
    using load_bindings_payloads [where reg = "reg\<lparr>pg_principals := pg_principals R, pg_bindings := []\<rparr>" and bs = "pg_bindings R"]
      d registry_inv_entries [OF assms] by simp
  ultimately show ?thesis
    by (simp add: load_registry_document_def registry_document_def py_get_def op_bind_def parents_valid_def
        split: sum.split)
qed

subsection \<open>The registry as a document store\<close>

text \<open>The dictionaries without the store, and the document of a registry on disk.\<close>

definition memory_of :: "PrincipalRegistry \<Rightarrow> PrincipalRegistry" where
  "memory_of reg = reg\<lparr>pg_state := None\<rparr>"

lemma memory_of_simps [simp]:
  "pg_principals (memory_of reg) = pg_principals reg" "pg_bindings (memory_of reg) = pg_bindings reg"
  "pg_state (memory_of reg) = None" "registry_inv other (memory_of reg) = registry_inv other reg"
  "registry_document (memory_of reg) = registry_document reg"
  by (simp_all add: memory_of_def registry_document_def)

lemma memory_of_eq: "memory_of reg = R \<longleftrightarrow>
    pg_principals reg = pg_principals R \<and> pg_bindings reg = pg_bindings R \<and> pg_state R = None"
  by (cases reg; cases R) (auto simp: memory_of_def)

definition on_disk :: "HiveStateStore \<Rightarrow> PrincipalRegistry \<Rightarrow> bool" where
  "on_disk st R =
     holds_document [''principals.json''] registry_document
       \<lparr>pg_principals = [], pg_bindings = [], pg_state = None\<rparr> st (memory_of R)"

lemma on_disk_iff:
  "on_disk st R \<longleftrightarrow>
     (file_at st [''principals.json''] = No_File \<and> pg_principals R = [] \<and> pg_bindings R = []) \<or>
     (\<exists>n. n \<le> MAX_HIVE_STATE_BYTES \<and>
        file_at st [''principals.json''] = Bytes n (Some (PDict (registry_document R))))"
  by (simp add: on_disk_def holds_document_def memory_of_eq)

lemma principals_path_ok: "state_path io principals_path = Inr path \<longleftrightarrow> si_path io = None \<and> path = [''principals.json'']"
  by (auto simp: state_path_def validate_relative_def principals_path_def MAX_RELATIVE_STATE_PART_def
      printable_def result_simps)

lemma load_principals_state: "load_principals other raws reg = (res, reg') \<Longrightarrow> pg_state reg' = pg_state reg"
  by (induction other raws reg rule: load_principals.induct) (auto split: sum.splits if_splits)

lemma load_bindings_state: "load_bindings other raws reg = (res, reg') \<Longrightarrow> pg_state reg' = pg_state reg"
  by (induction other raws reg rule: load_bindings.induct) (auto split: sum.splits if_splits)

lemma load_registry_state: "load_registry_locked other io st reg = (res, reg') \<Longrightarrow> pg_state reg' = pg_state reg"
  by (auto simp: load_registry_locked_def load_registry_document_def Let_def op_bind_cases
      dest!: load_principals_state load_bindings_state split: sum.splits exn.splits if_splits pyval.splits)

lemma load_on_disk:
  assumes "on_disk st R" and "registry_inv other R" and "load_registry_locked other io st reg = (Inr u, reg')"
  shows "pg_principals reg' = pg_principals R \<and> pg_bindings reg' = pg_bindings R \<and>
    is_ok (parents_valid (pg_principals R))"
proof (cases "read_json_locked io principals_path (4 * 1024 * 1024) st")
  case (Inl e)
  have "file_at st [''principals.json''] = No_File" if "e = HiveStateError ''state_not_found''"
    using read_json_missing Inl that by (fastforce simp: principals_path_ok)
  then have "pg_principals R = []" "pg_bindings R = []" "pg_principals reg' = []" "pg_bindings reg' = []"
    using assms(1,3) Inl by (auto simp: load_registry_locked_def Let_def on_disk_iff split: exn.splits if_splits)
  then show ?thesis by (simp add: parents_valid_def)
next
  case (Inr payload)
  then have "payload = registry_document R"
    using read_json_found [OF Inr] assms(1) by (auto simp: principals_path_ok on_disk_iff)
  then show ?thesis
    using Inr assms(3) load_document_roundtrip [OF assms(2), of reg]
    by (auto simp: load_registry_locked_def Let_def split: sum.splits)
qed

interpretation registry: document_store pg_state memory_of registry_document
  "\<lambda>R. registry_inv other R \<and> pg_state R = None" "\<lparr>pg_principals = [], pg_bindings = [], pg_state = None\<rparr>"
  principals_path "[''principals.json'']" "load_registry_locked other" for other
proof
  fix io st m s s' u
  assume m: "holds_document [''principals.json''] registry_document
      \<lparr>pg_principals = [], pg_bindings = [], pg_state = None\<rparr> st m"
    "registry_inv other m \<and> pg_state m = None" "load_registry_locked other io st s = (Inr u, s')"
  have "memory_of m = m" using m(2) by (simp add: memory_of_eq)
  then have "on_disk st m" using m(1) by (simp add: on_disk_def)
  then show "memory_of s' = m" using load_on_disk [OF _ _ m(3)] m(2) by (simp add: memory_of_eq)
qed (auto simp: principals_path_ok registry_inv_empty load_registry_state)

lemma registry_transaction_eq: "registry_transaction other = registry.transaction other"
  by (intro ext) (simp add: registry_transaction_def registry.transaction_def)

abbreviation registry_sound :: "(string \<Rightarrow> py_datetime option) \<Rightarrow> PrincipalRegistry \<Rightarrow> bool" where
  "registry_sound other \<equiv> registry.sound other"

lemma registry_keepsI:
  assumes "\<And>reg r reg'. registry_inv other reg \<Longrightarrow> body reg = (r, reg') \<Longrightarrow>
    registry_inv other reg' \<and> registry.writes_back reg reg'"
  shows "registry.keeps other body"
  using assms by (simp add: registry.keeps_def)

lemma registry_transaction_sound:
  assumes "registry_sound other reg" and "registry.keeps other body"
    and "registry_transaction other io body reg = (res, reg')"
  shows "registry_sound other reg' \<and> (is_ok res \<longrightarrow> registry_inv other reg')"
  using registry.transaction_sound [OF assms(1,2) assms(3) [unfolded registry_transaction_eq]] by simp

lemma registry_transaction_read:
  "registry_transaction other io (\<lambda>reg. (f reg, reg)) reg = (Inr x, reg') \<Longrightarrow> f reg' = Inr x"
  unfolding registry_transaction_eq by (rule registry.transaction_read)

lemma registry_transaction_body:
  assumes "registry_sound other reg" and "pg_state reg = Some st"
    and "registry_transaction other io body reg = (Inr x, reg')"
  obtains reg1 where "registry_inv other reg1" "pg_state reg1 = Some st" "on_disk st reg1"
    "is_ok (parents_valid (pg_principals reg1))" "body reg1 = (Inr x, reg')"
proof -
  obtain reg1 where reg1: "registry_inv other reg1" "pg_state reg1 = Some st" "on_disk st reg1"
      "load_registry_locked other io st reg = (Inr (), reg1)" "body reg1 = (Inr x, reg')"
    using registry.transaction_body [OF assms(1,2) assms(3) [unfolded registry_transaction_eq]]
    by (auto simp: on_disk_def)
  then show ?thesis using that [OF reg1(1-3)] load_on_disk [OF reg1(3,1,4)] by simp
qed

subsection \<open>Every operation keeps the invariant\<close>

text \<open>The recurring end of a body: the changed dictionaries are written back.\<close>

lemma persist_writes:
  assumes "op_bind (persist_registry io) (\<lambda>_. op_lift (Inr x)) reg = (res, reg')"
  shows "pg_principals reg' = pg_principals reg" "pg_bindings reg' = pg_bindings reg" "registry.writes_back reg reg'"
proof -
  have doc: "registry_document (reg\<lparr>pg_state := st\<rparr>) = registry_document reg" for st
    by (simp add: registry_document_def)
  show "pg_principals reg' = pg_principals reg" "pg_bindings reg' = pg_bindings reg"
    using assms by (auto simp: op_bind_def persist_registry_def split: option.splits prod.splits sum.splits)
  show "registry.writes_back reg reg'"
  proof (cases "pg_state reg")
    case None
    then show ?thesis using assms by (simp add: op_bind_def persist_registry_def registry.writes_back_def)
  next
    case (Some st)
    obtain r st' where w: "replace_json_locked io principals_path (registry_document reg) st = (r, st')"
      by (cases "replace_json_locked io principals_path (registry_document reg) st")
    have reg': "reg' = reg\<lparr>pg_state := Some st'\<rparr>"
      using assms Some w by (auto simp: op_bind_def persist_registry_def split: sum.splits)
    then have "replace_json_locked io principals_path (registry_document reg') st = (r, st')"
      using w by (simp add: doc)
    then show ?thesis using reg' Some by (auto simp: registry.writes_back_def)
  qed
qed

lemma persist_keeps:
  assumes "registry_inv other reg1" and "pg_state reg1 = pg_state reg"
    and "op_bind (persist_registry io) (\<lambda>_. op_lift (Inr x)) reg1 = (res, reg')"
  shows "registry_inv other reg' \<and> registry.writes_back reg reg'"
proof -
  note w = persist_writes [OF assms(3)]
  have "registry_inv other reg'" using assms(1) w(1,2) by (simp add: registry_inv_def)
  moreover have "registry.writes_back reg reg'" using w(3) assms(2) by (simp add: registry.writes_back_def)
  ultimately show ?thesis by simp
qed

lemma create_sound:
  assumes "registry_sound other reg" and "principal_wf other p" and "registry_create other io p reg = (res, reg')"
  shows "registry_sound other reg' \<and> (is_ok res \<longrightarrow> registry_inv other reg')"
proof (rule registry_transaction_sound [OF assms(1) _ assms(3) [unfolded registry_create_def]])
  show "registry.keeps other (\<lambda>reg.
      if map_of (pg_principals reg) (pn_principal_id p) \<noteq> None
      then (Inl (PrincipalError ''duplicate_principal''), reg)
      else case validate_parent (pg_principals reg) p of
             Inl e \<Rightarrow> (Inl e, reg)
           | Inr _ \<Rightarrow> op_bind (persist_registry io) (\<lambda>_. op_lift (Inr p))
               (reg\<lparr>pg_principals := AList.update (pn_principal_id p) p (pg_principals reg)\<rparr>))"
    (is "registry.keeps other ?body")
  proof (rule registry_keepsI)
    fix reg r reg'
    assume inv: "registry_inv other reg" and body: "?body reg = (r, reg')"
    show "registry_inv other reg' \<and> registry.writes_back reg reg'"
    proof (cases "map_of (pg_principals reg) (pn_principal_id p) \<noteq> None \<or> \<not> is_ok (validate_parent (pg_principals reg) p)")
      case True
      then have "reg' = reg" using body by (auto split: if_splits sum.splits)
      then show ?thesis using inv by (simp add: registry.writes_back_def)
    next
      case False
      then obtain u where u: "validate_parent (pg_principals reg) p = Inr u"
          "map_of (pg_principals reg) (pn_principal_id p) = None" by (auto simp: is_ok_iff)
      have "registry_inv other (reg\<lparr>pg_principals := AList.update (pn_principal_id p) p (pg_principals reg)\<rparr>)"
        using inv_put_principal [OF inv assms(2) validate_parent_role [OF u(1)]] u(2) by simp
      moreover have w: "op_bind (persist_registry io) (\<lambda>_. op_lift (Inr p))
          (reg\<lparr>pg_principals := AList.update (pn_principal_id p) p (pg_principals reg)\<rparr>) = (r, reg')"
        using body u by simp
      ultimately show ?thesis using persist_keeps [where reg = reg, OF _ _ w] by simp
    qed
  qed
qed

lemma find_principal_Inr [result_simps]:
  "find_principal i reg = Inr p \<longleftrightarrow> identifier_re i \<and> map_of (pg_principals reg) i = Some p"
  by (auto simp: find_principal_def rescue_eq_Inr and_then_eq_Inr validate_identifier_Inr need_Inr)

lemma retire_sound:
  assumes "registry_sound other reg" and "registry_retire other io i v reg = (res, reg')"
  shows "registry_sound other reg' \<and> (is_ok res \<longrightarrow> registry_inv other reg')"
proof (rule registry_transaction_sound [OF assms(1) _ assms(2) [unfolded registry_retire_def]])
  show "registry.keeps other (\<lambda>reg.
      case find_principal i reg of
        Inl e \<Rightarrow> (Inl e, reg)
      | Inr current \<Rightarrow>
          if pn_version current \<noteq> v then (Inl (PrincipalError ''stale_principal_version''), reg)
          else if pn_state current = ''retired'' then (Inr current, reg)
          else case Principal_init other (current\<lparr>pn_state := ''retired'', pn_version := pn_version current + 1\<rparr>) of
                 Inl e \<Rightarrow> (Inl e, reg)
               | Inr retired \<Rightarrow> op_bind (persist_registry io) (\<lambda>_. op_lift (Inr retired))
                   (reg\<lparr>pg_principals := AList.update i retired (pg_principals reg)\<rparr>))"
    (is "registry.keeps other ?body")
  proof (rule registry_keepsI)
    fix reg r reg'
    assume inv: "registry_inv other reg" and body: "?body reg = (r, reg')"
    show "registry_inv other reg' \<and> registry.writes_back reg reg'"
    proof (cases "reg' = reg")
      case True
      then show ?thesis using inv by (simp add: registry.writes_back_def)
    next
      case False
      then obtain p q where p: "find_principal i reg = Inr p"
          and q: "Principal_init other (p\<lparr>pn_state := ''retired'', pn_version := pn_version p + 1\<rparr>) = Inr q"
          and w: "op_bind (persist_registry io) (\<lambda>_. op_lift (Inr q))
            (reg\<lparr>pg_principals := AList.update i q (pg_principals reg)\<rparr>) = (r, reg')"
        using body by (auto split: sum.splits if_splits)
      have look: "map_of (pg_principals reg) i = Some p" using p by (simp add: find_principal_Inr)
      then have old: "i = pn_principal_id p" "role_ok (map_of (pg_principals reg)) p"
        using inv unfolding registry_inv_def principals_inv_def by blast+
      have new: "q = p\<lparr>pn_state := ''retired'', pn_version := pn_version p + 1\<rparr>" "principal_wf other q"
        using Principal_init_returns [OF q] by auto
      have "role_ok (map_of (pg_principals reg)) q" using old(2) new(1) role_ok_retired by simp
      from inv_put_principal [OF inv new(2) this] look old(1) new(1)
      have "registry_inv other (reg\<lparr>pg_principals := AList.update i q (pg_principals reg)\<rparr>)" by simp
      then show ?thesis using persist_keeps [where reg = reg, OF _ _ w] by simp
    qed
  qed
qed

lemma bind_sound:
  assumes "registry_sound other reg" and "ebinding_wf other b" and "bind_execution other io b reg = (res, reg')"
  shows "registry_sound other reg' \<and> (is_ok res \<longrightarrow> registry_inv other reg')"
proof (rule registry_transaction_sound [OF assms(1) _ assms(3) [unfolded bind_execution_def]])
  show "registry.keeps other (\<lambda>reg.
      case map_of (pg_principals reg) (eb_principal_id b) of
        None \<Rightarrow> (Inl (PrincipalError ''principal_not_found''), reg)
      | Some p \<Rightarrow>
          if pn_state p \<noteq> ''active'' then (Inl (PrincipalError ''principal_inactive''), reg)
          else if list_ex (\<lambda>current. eb_state current = ''active'' \<and>
                    eb_principal_id current = eb_principal_id b \<and>
                    eb_dispatch_id current = eb_dispatch_id b) (map snd (pg_bindings reg))
          then (Inl (PrincipalError ''duplicate_active_execution_binding''), reg)
          else if pn_repo_id p \<noteq> eb_repo_id b
          then (Inl (PrincipalError ''binding_repository_mismatch''), reg)
          else op_bind (persist_registry io) (\<lambda>_. op_lift (Inr b))
                 (reg\<lparr>pg_bindings := AList.update (eb_binding_id b) b (pg_bindings reg)\<rparr>))"
    (is "registry.keeps other ?body")
  proof (rule registry_keepsI)
    fix reg r reg'
    assume inv: "registry_inv other reg" and body: "?body reg = (r, reg')"
    show "registry_inv other reg' \<and> registry.writes_back reg reg'"
    proof (cases "reg' = reg")
      case True
      then show ?thesis using inv by (simp add: registry.writes_back_def)
    next
      case False
      then obtain p where p: "map_of (pg_principals reg) (eb_principal_id b) = Some p" "pn_repo_id p = eb_repo_id b"
          and none: "\<not> list_ex (\<lambda>current. eb_state current = ''active'' \<and>
              eb_principal_id current = eb_principal_id b \<and>
              eb_dispatch_id current = eb_dispatch_id b) (map snd (pg_bindings reg))"
          and w: "op_bind (persist_registry io) (\<lambda>_. op_lift (Inr b))
            (reg\<lparr>pg_bindings := AList.update (eb_binding_id b) b (pg_bindings reg)\<rparr>) = (r, reg')"
        using body by (auto split: option.splits if_splits)
      have "\<not> same_duty b c" if "map_of (pg_bindings reg) j = Some c" for j c
        using none map_of_SomeD [OF that] by (fastforce simp: same_duty_def list_ex_iff)
      with inv_put_binding [OF inv assms(2) p]
      have "registry_inv other (reg\<lparr>pg_bindings := AList.update (eb_binding_id b) b (pg_bindings reg)\<rparr>)" by blast
      then show ?thesis using persist_keeps [where reg = reg, OF _ _ w] by simp
    qed
  qed
qed

lemma ebinding_released:
  "ebinding_wf other b \<Longrightarrow> ExecutionBinding_init other (b\<lparr>eb_state := ''released''\<rparr>) = Inr c \<Longrightarrow>
     c = b\<lparr>eb_state := ''released''\<rparr> \<and> ebinding_wf other c"
  using ExecutionBinding_init_returns [of other "b\<lparr>eb_state := ''released''\<rparr>" c]
  by (simp add: ebinding_wf_def)

lemma release_sound:
  assumes "registry_sound other reg" and "release_execution other io i reg = (res, reg')"
  shows "registry_sound other reg' \<and> (is_ok res \<longrightarrow> registry_inv other reg')"
proof (rule registry_transaction_sound [OF assms(1) _ assms(2) [unfolded release_execution_def]])
  show "registry.keeps other (\<lambda>reg.
      case map_of (pg_bindings reg) i of
        None \<Rightarrow> (Inl (PrincipalError ''execution_binding_not_found''), reg)
      | Some current \<Rightarrow>
          if eb_state current = ''released'' then (Inr current, reg)
          else case ExecutionBinding_init other (current\<lparr>eb_state := ''released''\<rparr>) of
                 Inl e \<Rightarrow> (Inl e, reg)
               | Inr released \<Rightarrow> op_bind (persist_registry io) (\<lambda>_. op_lift (Inr released))
                   (reg\<lparr>pg_bindings := AList.update i released (pg_bindings reg)\<rparr>))"
    (is "registry.keeps other ?body")
  proof (rule registry_keepsI)
    fix reg r reg'
    assume inv: "registry_inv other reg" and body: "?body reg = (r, reg')"
    show "registry_inv other reg' \<and> registry.writes_back reg reg'"
    proof (cases "reg' = reg")
      case True
      then show ?thesis using inv by (simp add: registry.writes_back_def)
    next
      case False
      then obtain b c where b: "map_of (pg_bindings reg) i = Some b"
          and c: "ExecutionBinding_init other (b\<lparr>eb_state := ''released''\<rparr>) = Inr c"
          and w: "op_bind (persist_registry io) (\<lambda>_. op_lift (Inr c))
            (reg\<lparr>pg_bindings := AList.update i c (pg_bindings reg)\<rparr>) = (r, reg')"
        using body by (auto split: option.splits sum.splits if_splits)
      obtain p where old: "i = eb_binding_id b" "ebinding_wf other b"
          "map_of (pg_principals reg) (eb_principal_id b) = Some p" "pn_repo_id p = eb_repo_id b"
        using inv b unfolding registry_inv_def bindings_inv_def by blast
      have new: "c = b\<lparr>eb_state := ''released''\<rparr>" "ebinding_wf other c" using ebinding_released [OF old(2) c] by auto
      then have "\<not> same_duty c x" for x by (simp add: same_duty_def)
      with inv_put_binding [OF inv new(2)] old new(1)
      have "registry_inv other (reg\<lparr>pg_bindings := AList.update i c (pg_bindings reg)\<rparr>)" by simp
      then show ?thesis using persist_keeps [where reg = reg, OF _ _ w] by simp
    qed
  qed
qed

subsection \<open>Histories\<close>

lemma filter_unique_key:
  assumes "dict_wf d" and "(k, v) \<in> set d" and "\<And>j w. (j, w) \<in> set d \<Longrightarrow> P w \<Longrightarrow> j = k" and "P v"
  shows "filter (P \<circ> snd) d = [(k, v)]"
  using assms
proof (induction d)
  case Nil
  then show ?case by simp
next
  case (Cons x d)
  obtain j w where x: "x = (j, w)" by (cases x)
  show ?case
  proof (cases "j = k")
    case True
    then have w: "w = v" using Cons.prems(1,2) x by force
    have "\<not> P w'" if "(j', w') \<in> set d" for j' w'
      using Cons.prems(1,3) that True x by force
    then have "filter (P \<circ> snd) d = []" by (auto simp: filter_empty_conv)
    then show ?thesis using x True w Cons.prems(4) by (simp add: comp_def)
  next
    case False
    then have "\<not> P w" using Cons.prems(3) x by auto
    moreover have "filter (P \<circ> snd) d = [(k, v)]"
    proof (rule Cons.IH)
      show "j = k" if "(j, w) \<in> set d" "P w" for j w using Cons.prems(3) [of j w] that by simp
    qed (use Cons.prems x False in simp_all)
    ultimately show ?thesis using x by (simp add: comp_def)
  qed
qed

text \<open>
  One step in the life of a registry: an operation with any arguments and any faults, successful or
  not, or, when the registry has a state store, a switch to another process with its own memory on
  the same document.
\<close>

inductive registry_step ::
  "(string \<Rightarrow> py_datetime option) \<Rightarrow> PrincipalRegistry \<Rightarrow> PrincipalRegistry \<Rightarrow> bool" for other where
  step_create: "principal_wf other p \<Longrightarrow> registry_create other io p reg = (r, reg') \<Longrightarrow> registry_step other reg reg'"
| step_retire: "registry_retire other io i v reg = (r, reg') \<Longrightarrow> registry_step other reg reg'"
| step_bind: "ebinding_wf other b \<Longrightarrow> bind_execution other io b reg = (s, reg') \<Longrightarrow> registry_step other reg reg'"
| step_release: "release_execution other io j reg = (s, reg') \<Longrightarrow> registry_step other reg reg'"
| step_get: "registry_get other io i reg = (r, reg') \<Longrightarrow> registry_step other reg reg'"
| step_process: "pg_state reg = Some st \<Longrightarrow>
    registry_step other reg (reg\<lparr>pg_principals := ps, pg_bindings := bs\<rparr>)"

lemma get_sound:
  assumes "registry_sound other reg" and "registry_get other io i reg = (res, reg')"
  shows "registry_sound other reg' \<and> (is_ok res \<longrightarrow> registry_inv other reg')"
  using registry_transaction_sound [OF assms(1) registry.keeps_read assms(2) [unfolded registry_get_def]] .

lemma step_sound: "registry_step other reg reg' \<Longrightarrow> registry_sound other reg \<Longrightarrow> registry_sound other reg'"
proof (induction rule: registry_step.induct)
  case (step_process reg st ps bs)
  then show ?case by (simp add: registry.sound_def)
qed (auto dest: create_sound retire_sound bind_sound release_sound get_sound)

lemma steps_sound: "(registry_step other)\<^sup>*\<^sup>* reg reg' \<Longrightarrow> registry_sound other reg \<Longrightarrow> registry_sound other reg'"
  by (induction rule: rtranclp_induct) (auto dest: step_sound)

text \<open>A registry without principals: fresh in memory, or on a store without the document.\<close>

definition fresh_registry :: "PrincipalRegistry \<Rightarrow> bool" where
  "fresh_registry reg =
     (case pg_state reg of
        None \<Rightarrow> pg_principals reg = [] \<and> pg_bindings reg = []
      | Some st \<Rightarrow> file_at st [''principals.json''] = No_File)"

lemma registry_fresh_sound: "fresh_registry reg \<Longrightarrow> registry_sound other reg"
  by (rule registry.fresh_sound) (auto simp: fresh_registry_def memory_of_eq split: option.splits)

subsection \<open>The hierarchy\<close>

text \<open>The principal reached by going \<open>n\<close> times from a principal to its parent.\<close>

fun ancestor :: "(string \<Rightarrow> Principal option) \<Rightarrow> nat \<Rightarrow> string \<Rightarrow> Principal option" where
  "ancestor ps 0 i = ps i"
| "ancestor ps (Suc n) i =
     (case ps i of
        None \<Rightarrow> None
      | Some p \<Rightarrow> (case pn_parent_principal_id p of None \<Rightarrow> None | Some j \<Rightarrow> ancestor ps n j))"

definition role_rank :: "string \<Rightarrow> nat" where
  "role_rank c =
     (if c \<in> set ROOT_EXECUTIVE_CLASSES then 0 else if c \<in> set QUEEN_CLASSES then 1
      else if c \<in> {''teamleiterin'', ''teamlead''} then 2
      else if c \<in> {''spezialistin'', ''specialist''} then 3 else 4)"

lemma rules_ranked:
  "list_all (\<lambda>(c, classes, _, rr).
     case classes of
       None \<Rightarrow> c \<in> set ROOT_EXECUTIVE_CLASSES \<and> role_rank c = 0
     | Some cs \<Rightarrow> rr \<and> list_all (\<lambda>d. role_rank c = Suc (role_rank d)) cs) ROLE_RULES"
  by code_simp

lemma rule_root:
  "map_of ROLE_RULES c = Some (None, scope, rr) \<Longrightarrow> c \<in> set ROOT_EXECUTIVE_CLASSES \<and> role_rank c = 0"
  using rules_ranked by (fastforce simp: list_all_iff dest: map_of_SomeD)

lemma rule_child:
  "map_of ROLE_RULES c = Some (Some cs, scope, rr) \<Longrightarrow> d \<in> set cs \<Longrightarrow> rr \<and> role_rank c = Suc (role_rank d)"
  using rules_ranked by (fastforce simp: list_all_iff dest: map_of_SomeD)

lemma rule_rank: "role_rank c \<le> 4"
  by (simp add: role_rank_def)

lemma role_ok_cases:
  assumes "role_ok look p"
  obtains (root) "pn_class_id p \<in> set ROOT_EXECUTIVE_CLASSES" "role_rank (pn_class_id p) = 0"
      "pn_parent_principal_id p = None"
    | (child) j q where "pn_parent_principal_id p = Some j" "look j = Some q" "pn_repo_id p \<noteq> None"
      "role_rank (pn_class_id p) = Suc (role_rank (pn_class_id q))" "pn_repo_id p = pn_repo_id q \<or> pn_repo_id q = None"
proof -
  obtain classes scope rr where r: "map_of ROLE_RULES (pn_class_id p) = Some (classes, scope, rr)"
      "rr = (pn_repo_id p \<noteq> None)"
      "case classes of None \<Rightarrow> pn_parent_principal_id p = None
       | Some cs \<Rightarrow> \<exists>i q. pn_parent_principal_id p = Some i \<and> look i = Some q \<and> pn_class_id q \<in> set cs \<and>
           (pn_repo_id p = pn_repo_id q \<or> pn_repo_id q = None)"
    using assms unfolding role_ok_def by blast
  show ?thesis
  proof (cases classes)
    case None
    then show ?thesis using r rule_root root by simp
  next
    case (Some cs)
    then obtain j q where q: "pn_parent_principal_id p = Some j" "look j = Some q" "pn_class_id q \<in> set cs"
        "pn_repo_id p = pn_repo_id q \<or> pn_repo_id q = None" using r(3) by auto
    have "rr \<and> role_rank (pn_class_id p) = Suc (role_rank (pn_class_id q))"
      using rule_child [OF r(1) [unfolded Some] q(3)] .
    then show ?thesis using child [OF q(1,2)] q(4) r(2) by simp
  qed
qed

lemma ancestor_chain:
  assumes "principals_inv other ps" and "ps i = Some p" and "role_rank (pn_class_id p) = n"
  shows "(\<exists>r. ancestor ps n i = Some r \<and> pn_class_id r \<in> set ROOT_EXECUTIVE_CLASSES \<and>
      pn_parent_principal_id r = None) \<and>
    (\<forall>m < n. \<exists>a. ancestor ps m i = Some a \<and> pn_repo_id a = pn_repo_id p)"
  using assms(2,3)
proof (induction n arbitrary: i p)
  case 0
  have "role_ok ps p" using assms(1) 0(1) by (simp add: principals_inv_def)
  then show ?case using 0 by (cases rule: role_ok_cases) simp_all
next
  case (Suc n)
  have "role_ok ps p" using assms(1) Suc.prems(1) by (simp add: principals_inv_def)
  then show ?case
  proof (cases rule: role_ok_cases)
    case root
    then show ?thesis using Suc.prems(2) by simp
  next
    case (child j q)
    then have n: "role_rank (pn_class_id q) = n" using Suc.prems(2) by simp
    note IH = Suc.IH [OF child(2) n]
    have "role_ok ps q" using assms(1) child(2) by (simp add: principals_inv_def)
    then have repo: "pn_repo_id q = pn_repo_id p" if "0 < n"
      using n that child(5) by (cases rule: role_ok_cases) auto
    have "\<exists>a. ancestor ps m i = Some a \<and> pn_repo_id a = pn_repo_id p" if "m < Suc n" for m
    proof (cases m)
      case 0
      then show ?thesis using Suc.prems(1) by simp
    next
      case (Suc k)
      then have "\<exists>a. ancestor ps k j = Some a \<and> pn_repo_id a = pn_repo_id q" using IH that by simp
      then show ?thesis using Suc repo that child(1) \<open>ps i = Some p\<close> by simp
    qed
    then show ?thesis using IH Suc.prems(1) child(1) by simp
  qed
qed

text \<open>
  C13. Every principal answers to a root executive. After any history from an empty registry, of any
  operations with any faults, by one process in memory or by several on one document: a principal
  that the registry returns has an unbroken chain of at most four registered parents, up to a root
  executive without a parent, and everyone below the root works in the same repository.
\<close>

theorem principals_answer_to_root:
  assumes "fresh_registry reg0" and "(registry_step other)\<^sup>*\<^sup>* reg0 reg"
    and "registry_get other io i reg = (Inr p, reg')"
  shows "\<exists>n \<le> 4. (\<exists>r. ancestor (map_of (pg_principals reg')) n i = Some r \<and>
      pn_class_id r \<in> set ROOT_EXECUTIVE_CLASSES \<and> pn_parent_principal_id r = None) \<and>
    (\<forall>m < n. \<exists>a. ancestor (map_of (pg_principals reg')) m i = Some a \<and> pn_repo_id a = pn_repo_id p)"
proof -
  have "registry_inv other reg'"
    using get_sound [OF steps_sound [OF assms(2) registry_fresh_sound [OF assms(1)]] assms(3)] by simp
  moreover have "map_of (pg_principals reg') i = Some p"
    using assms(3) by (auto simp: registry_get_def find_principal_Inr dest!: registry_transaction_read)
  ultimately show ?thesis
    using ancestor_chain [of other "map_of (pg_principals reg')" i p] rule_rank [of "pn_class_id p"]
    unfolding registry_inv_def by blast
qed

subsection \<open>Execution bindings\<close>

lemma active_lookup_Inr:
  assumes "get_active_execution_binding other io bi who repo now reg = (Inr b, reg')"
  obtains p expires u where "map_of (pg_bindings reg') bi = Some b" "eb_state b = ''active''"
    "eb_principal_id b = who" "eb_repo_id b = repo" "map_of (pg_principals reg') who = Some p"
    "pn_state p = ''active''" "stored_time other (eb_expires_at_utc b) = Some expires"
    "validate_utc_datetime now ''timestamp'' = Inr u" "instant expires > instant u"
proof -
  obtain u where u: "rescue
       (and_then (validate_identifier (PStr bi) ''binding'') (\<lambda>_.
        and_then (validate_identifier (PStr who) ''principal'') (\<lambda>_.
        and_then (opt_check (\<lambda>s. validate_identifier (PStr s) ''repo'') repo) (\<lambda>_.
          validate_utc_datetime now ''timestamp''))))
       (\<lambda>e. Inl (PrincipalError ''invalid_execution_binding_lookup'')) = Inr u"
    and t: "registry_transaction other io (\<lambda>reg.
       (and_then (need (map_of (pg_bindings reg) bi) (PrincipalError ''execution_binding_not_found'')) (\<lambda>b.
        and_then (check (eb_state b = ''active'') (PrincipalError ''execution_binding_inactive'')) (\<lambda>_.
        and_then (check (eb_principal_id b = who \<and> eb_repo_id b = repo)
                    (PrincipalError ''execution_binding_mismatch'')) (\<lambda>_.
        and_then (need (map_of (pg_principals reg) (eb_principal_id b))
                    (PrincipalError ''execution_binding_invalid'')) (\<lambda>p.
        and_then (check (pn_state p = ''active'') (PrincipalError ''execution_binding_inactive'')) (\<lambda>_.
        and_then (need (stored_time other (eb_expires_at_utc b))
                    (PrincipalError ''execution_binding_invalid'')) (\<lambda>expires_at.
        and_then (check (instant expires_at > instant u) (PrincipalError ''execution_binding_expired'')) (\<lambda>_.
          Inr b))))))), reg)) reg = (Inr b, reg')"
    using assms unfolding get_active_execution_binding_def by (auto simp: op_bind_cases)
  have "validate_utc_datetime now ''timestamp'' = Inr u"
    using u by (simp add: rescue_eq_Inr and_then_eq_Inr)
  with registry_transaction_read [OF t] show ?thesis
    by (auto simp: and_then_eq_Inr need_Inr check_eq_Inr intro: that)
qed

text \<open>
  C28. An execution binding that the registry hands out is backed and exclusive. After any history
  from an empty registry: a binding returned for a principal and a repository is active and not
  expired, its principal is registered, active and bound to that repository, and no other binding
  in the registry is active for the same principal and dispatch.
\<close>

theorem active_binding_exclusive:
  assumes "fresh_registry reg0" and "(registry_step other)\<^sup>*\<^sup>* reg0 reg"
    and "get_active_execution_binding other io bi who repo now reg = (Inr b, reg')"
  shows "(\<exists>expires. stored_time other (eb_expires_at_utc b) = Some expires \<and> instant now < instant expires) \<and>
    (\<exists>p. map_of (pg_principals reg') who = Some p \<and> pn_state p = ''active'' \<and> pn_repo_id p = repo) \<and>
    filter (\<lambda>c. eb_state c = ''active'' \<and> eb_principal_id c = who \<and> eb_dispatch_id c = eb_dispatch_id b)
      (map snd (pg_bindings reg')) = [b]"
proof -
  have inv: "registry_inv other reg'"
  proof -
    have "registry_sound other reg" by (rule steps_sound [OF assms(2) registry_fresh_sound [OF assms(1)]])
    then show ?thesis
      using assms(3) registry_transaction_sound [OF _ registry.keeps_read]
      unfolding get_active_execution_binding_def by (fastforce simp: op_bind_cases)
  qed
  obtain p expires u where b: "map_of (pg_bindings reg') bi = Some b" "eb_state b = ''active''"
      "eb_principal_id b = who" "eb_repo_id b = repo" "map_of (pg_principals reg') who = Some p"
      "pn_state p = ''active''" "stored_time other (eb_expires_at_utc b) = Some expires"
      "validate_utc_datetime now ''timestamp'' = Inr u" "instant expires > instant u"
    using active_lookup_Inr [OF assms(3)] by metis
  have time: "instant now < instant expires" using validate_utc_datetime_Inr [OF b(8)] b(9) by simp
  have "pn_repo_id p = repo"
    using inv b(1,3-5) unfolding registry_inv_def bindings_inv_def by fastforce
  moreover have "filter (\<lambda>c. eb_state c = ''active'' \<and> eb_principal_id c = who \<and> eb_dispatch_id c = eb_dispatch_id b)
      (map snd (pg_bindings reg')) = [b]"
  proof -
    let ?P = "\<lambda>c. eb_state c = ''active'' \<and> eb_principal_id c = who \<and> eb_dispatch_id c = eb_dispatch_id b"
    have d: "dict_wf (pg_bindings reg')" using inv by (simp add: registry_inv_def)
    have only: "j = bi" if "(j, c) \<in> set (pg_bindings reg')" "?P c" for j c
    proof -
      have "map_of (pg_bindings reg') j = Some c" using that(1) d by simp
      moreover have "same_duty c b" using that(2) b(2,3) by (simp add: same_duty_def)
      ultimately show ?thesis using inv b(1) unfolding registry_inv_def unique_active_def by blast
    qed
    have "filter (?P \<circ> snd) (pg_bindings reg') = [(bi, b)]"
      using filter_unique_key [OF d map_of_SomeD [OF b(1)]] only b(2,3) by simp
    then show ?thesis by (simp add: filter_map)
  qed
  ultimately show ?thesis using b(5-7) time by blast
qed

subsection \<open>The document\<close>

lemma parents_valid_iff:
  "is_ok (parents_valid ps) \<longleftrightarrow> (\<forall>(k, p) \<in> set ps. validate_parent ps p = Inr ())"
proof -
  have "is_ok (map_result f xs) \<longleftrightarrow> (\<forall>x \<in> set xs. f x = Inr ())" for f :: "'x \<Rightarrow> unit result" and xs
    by (induction xs) (auto simp: is_ok_iff and_then_eq_Inr)
  then show ?thesis by (force simp: parents_valid_def)
qed

definition inactive_parent :: "(string, Principal) dict \<Rightarrow> Principal \<Rightarrow> bool" where
  "inactive_parent ps p =
     (\<exists>i q. pn_parent_principal_id p = Some i \<and> map_of ps i = Some q \<and> pn_state q \<noteq> ''active'')"

text \<open>For a principal in its place, only an inactive parent is refused.\<close>

lemma validate_parent_role_ok:
  assumes "role_ok (map_of ps) p"
  shows "validate_parent ps p =
    (if inactive_parent ps p then Inl (PrincipalError ''invalid_principal_parent'') else Inr ())"
proof -
  obtain classes scope rr where r: "map_of ROLE_RULES (pn_class_id p) = Some (classes, scope, rr)"
      "scope = pn_scope_kind p" "rr = (pn_repo_id p \<noteq> None)"
      "case classes of None \<Rightarrow> pn_parent_principal_id p = None
       | Some cs \<Rightarrow> \<exists>i q. pn_parent_principal_id p = Some i \<and> map_of ps i = Some q \<and> pn_class_id q \<in> set cs \<and>
           (pn_repo_id p = pn_repo_id q \<or> pn_repo_id q = None)"
    using assms unfolding role_ok_def by blast
  show ?thesis
  proof (cases classes)
    case None
    then show ?thesis using r by (simp add: validate_parent_def inactive_parent_def)
  next
    case (Some cs)
    then obtain i q where q: "pn_parent_principal_id p = Some i" "map_of ps i = Some q" "pn_class_id q \<in> set cs"
        "pn_repo_id p = pn_repo_id q \<or> pn_repo_id q = None" using r(4) by auto
    then have "inactive_parent ps p = (pn_state q \<noteq> ''active'')" by (simp add: inactive_parent_def)
    then show ?thesis using q Some r(1-3) by (simp add: validate_parent_def)
  qed
qed

lemma validate_parent_extends:
  assumes "validate_parent ps p = Inr ()" and "\<And>i q. map_of ps i = Some q \<Longrightarrow> map_of qs i = Some q"
  shows "validate_parent qs p = Inr ()"
proof -
  have role: "role_ok (map_of ps) p" using assms(1) by (rule validate_parent_role)
  have "role_ok (map_of qs) p" using role_ok_mono [OF role] assms(2) by blast
  moreover have "\<not> inactive_parent ps p" using assms(1) validate_parent_role_ok [OF role] by (simp split: if_splits)
  with role have "\<not> inactive_parent qs p"
  proof (cases rule: role_ok_cases)
    case (child j q)
    then show ?thesis using assms(2) [of j q] \<open>\<not> inactive_parent ps p\<close> by (simp add: inactive_parent_def)
  qed (simp add: inactive_parent_def)
  ultimately show ?thesis by (simp add: validate_parent_role_ok)
qed

lemma get_from_disk:
  assumes "registry_inv other R" and "on_disk st R" and "is_ok (parents_valid (pg_principals R))"
    and "map_of (pg_principals R) i = Some p" and "pg_state reg = Some st"
  shows "fst (registry_get other no_fault i reg) = Inr p"
proof -
  obtain n where n: "n \<le> MAX_HIVE_STATE_BYTES"
      "file_at st [''principals.json''] = Bytes n (Some (PDict (registry_document R)))"
    using assms(2,4) by (auto simp: on_disk_iff)
  have "state_path no_fault principals_path = Inr [''principals.json'']"
    by (simp add: principals_path_ok no_fault_def)
  then have "read_json_locked no_fault principals_path (4 * 1024 * 1024) st = Inr (registry_document R)"
    using n by (simp add: read_json_locked_def validate_limit_def MAX_HIVE_STATE_BYTES_def read_bytes_def no_fault_def)
  then have "load_registry_locked other no_fault st reg =
      (Inr (), reg\<lparr>pg_principals := pg_principals R, pg_bindings := pg_bindings R\<rparr>)"
    using load_document_roundtrip [OF assms(1), of reg] assms(3)
    by (auto simp: load_registry_locked_def Let_def is_ok_iff)
  moreover have "identifier_re i"
  proof -
    have "i = pn_principal_id p" "principal_wf other p"
      using assms(1,4) unfolding registry_inv_def principals_inv_def by blast+
    then show ?thesis
      by (simp add: principal_wf_def Principal_init_def Principal_fields_def prin_identifier_def and_then_eq_Inr
          split: if_splits)
  qed
  ultimately show ?thesis
    using assms(4,5)
    by (simp add: registry_get_def registry_transaction_def state_locked_def no_fault_def find_principal_def)
qed

lemma persisted:
  assumes "op_bind (persist_registry io) (\<lambda>_. op_lift (Inr x)) reg = (Inr y, reg')" and "pg_state reg = Some st"
  shows "\<exists>st'. pg_state reg' = Some st' \<and> on_disk st' reg \<and> y = x"
proof -
  obtain r st' where w: "replace_json_locked io principals_path (registry_document reg) st = (r, st')"
    by (cases "replace_json_locked io principals_path (registry_document reg) st")
  then have r: "r = Inr ()" "reg' = reg\<lparr>pg_state := Some st'\<rparr>" "y = x"
    using assms by (auto simp: op_bind_def persist_registry_def split: sum.splits)
  have "on_disk st' reg"
    using w
    by (cases rule: replace_json_locked_cases) (auto simp: r(1) principals_path_ok on_disk_iff encode_Inr)
  then show ?thesis using r by simp
qed

text \<open>
  A created principal is durable: once \<open>create\<close> has returned on a registry with a state store,
  every process that can read the document, whatever its memory holds, gets exactly that principal.
\<close>

theorem created_principal_durable:
  assumes "fresh_registry reg0" and "(registry_step other)\<^sup>*\<^sup>* reg0 reg" and "pg_state reg = Some st"
    and "principal_wf other p" and "registry_create other io p reg = (Inr q, reg')"
  shows "fst (registry_get other no_fault (pn_principal_id p)
      (reg'\<lparr>pg_principals := ps, pg_bindings := bs\<rparr>)) = Inr p"
proof -
  have sound: "registry_sound other reg" by (rule steps_sound [OF assms(2) registry_fresh_sound [OF assms(1)]])
  let ?put = "\<lambda>reg. reg\<lparr>pg_principals := AList.update (pn_principal_id p) p (pg_principals reg)\<rparr>"
  obtain reg1 where reg1: "registry_inv other reg1" "pg_state reg1 = Some st" "is_ok (parents_valid (pg_principals reg1))"
      and body: "(if map_of (pg_principals reg1) (pn_principal_id p) \<noteq> None
       then (Inl (PrincipalError ''duplicate_principal''), reg1)
       else case validate_parent (pg_principals reg1) p of
              Inl e \<Rightarrow> (Inl e, reg1)
            | Inr _ \<Rightarrow> op_bind (persist_registry io) (\<lambda>_. op_lift (Inr p)) (?put reg1)) = (Inr q, reg')"
    by (rule registry_transaction_body [OF sound assms(3) assms(5) [unfolded registry_create_def]])
  have new: "map_of (pg_principals reg1) (pn_principal_id p) = None" "validate_parent (pg_principals reg1) p = Inr ()"
      and w: "op_bind (persist_registry io) (\<lambda>_. op_lift (Inr p)) (?put reg1) = (Inr q, reg')"
    using body by (auto split: if_splits sum.splits)
  have inv: "registry_inv other (?put reg1)"
    using inv_put_principal [OF reg1(1) assms(4) validate_parent_role [OF new(2)]] new(1) by simp
  have ext: "validate_parent (pg_principals (?put reg1)) x = Inr ()" if "validate_parent (pg_principals reg1) x = Inr ()" for x
    by (rule validate_parent_extends [OF that]) (use new(1) in auto)
  have "set (pg_principals (?put reg1)) = insert (pn_principal_id p, p) (set (pg_principals reg1))"
    using new(1) by (simp add: update_fresh map_of_eq_None_iff)
  then have "is_ok (parents_valid (pg_principals (?put reg1)))"
    using reg1(3) ext new(2) unfolding parents_valid_iff by auto
  moreover obtain st' where "pg_state reg' = Some st'" "on_disk st' (?put reg1)"
    using persisted [OF w] reg1(2) by auto
  ultimately show ?thesis using get_from_disk [OF inv] by simp
qed

lemma load_refused:
  assumes "registry_inv other R" and "on_disk st R" and "c \<in> snd ` set (pg_principals R)"
    and "inactive_parent (pg_principals R) c" and "pg_state reg = Some st"
  shows "fst (registry_get other no_fault i reg) = Inl (PrincipalError ''invalid_principal_parent'')"
proof -
  have inv: "principals_inv other (map_of (pg_principals R))" and d: "dict_wf (pg_principals R)"
    using assms(1) by (simp_all add: registry_inv_def)
  have role: "role_ok (map_of (pg_principals R)) x" if "x \<in> snd ` set (pg_principals R)" for x
    using inv that d by (auto simp: principals_inv_def)
  have "\<not> is_ok (parents_valid (pg_principals R))"
    using assms(3,4) validate_parent_role_ok [OF role [OF assms(3)]] by (fastforce simp: parents_valid_iff)
  then obtain e where e: "parents_valid (pg_principals R) = Inl e" by (cases "parents_valid (pg_principals R)") auto
  then obtain x where "x \<in> snd ` set (pg_principals R)" "validate_parent (pg_principals R) x = Inl e"
    using map_result_Inl_ex by (fastforce simp: parents_valid_def)
  then have err: "e = PrincipalError ''invalid_principal_parent''"
    using validate_parent_role_ok [OF role] by (auto split: if_splits)
  obtain n where n: "n \<le> MAX_HIVE_STATE_BYTES"
      "file_at st [''principals.json''] = Bytes n (Some (PDict (registry_document R)))"
    using assms(2,3) by (auto simp: on_disk_iff)
  have "state_path no_fault principals_path = Inr [''principals.json'']"
    by (simp add: principals_path_ok no_fault_def)
  then have "read_json_locked no_fault principals_path (4 * 1024 * 1024) st = Inr (registry_document R)"
    using n by (simp add: read_json_locked_def validate_limit_def MAX_HIVE_STATE_BYTES_def read_bytes_def no_fault_def)
  then have "fst (load_registry_locked other no_fault st reg) = Inl e"
    using load_document_roundtrip [OF assms(1), of reg] e by (simp add: load_registry_locked_def Let_def)
  then show ?thesis
    using assms(5) err
    by (auto simp: registry_get_def registry_transaction_def state_locked_def no_fault_def op_bind_def
        split: prod.splits sum.splits)
qed

text \<open>
  C38. Retiring a principal that others report to makes the persisted registry unusable: the retired
  parent is written to the document, and from then on every load refuses the document because the
  parent of a registered principal is not active, so no later operation gets past the load.
\<close>

theorem retiring_parent_locks_registry:
  assumes "fresh_registry reg0" and "(registry_step other)\<^sup>*\<^sup>* reg0 reg" and "pg_state reg = Some st"
    and "registry_retire other io i v reg = (Inr p, reg')"
    and "c \<in> snd ` set (pg_principals reg')" and "pn_parent_principal_id c = Some i"
  shows "fst (registry_get other no_fault j (reg'\<lparr>pg_principals := ps, pg_bindings := bs\<rparr>)) =
    Inl (PrincipalError ''invalid_principal_parent'')"
proof -
  have sound: "registry_sound other reg" by (rule steps_sound [OF assms(2) registry_fresh_sound [OF assms(1)]])
  obtain reg1 where reg1: "registry_inv other reg1" "pg_state reg1 = Some st" "is_ok (parents_valid (pg_principals reg1))"
      and body: "(case find_principal i reg1 of
        Inl e \<Rightarrow> (Inl e, reg1)
      | Inr current \<Rightarrow>
          if pn_version current \<noteq> v then (Inl (PrincipalError ''stale_principal_version''), reg1)
          else if pn_state current = ''retired'' then (Inr current, reg1)
          else case Principal_init other (current\<lparr>pn_state := ''retired'', pn_version := pn_version current + 1\<rparr>) of
                 Inl e \<Rightarrow> (Inl e, reg1)
               | Inr retired \<Rightarrow> op_bind (persist_registry io) (\<lambda>_. op_lift (Inr retired))
                   (reg1\<lparr>pg_principals := AList.update i retired (pg_principals reg1)\<rparr>)) = (Inr p, reg')"
    by (rule registry_transaction_body [OF sound assms(3) assms(4) [unfolded registry_retire_def]])
  obtain cur where cur: "find_principal i reg1 = Inr cur" using body by (auto split: sum.splits)
  then have look: "map_of (pg_principals reg1) i = Some cur" by (simp add: find_principal_Inr)
  show ?thesis
  proof (cases "pn_state cur = ''retired''")
    case True
    then have "reg' = reg1" using body cur by (auto split: if_splits)
    moreover have "inactive_parent (pg_principals reg1) c"
      using look True assms(6) by (simp add: inactive_parent_def)
    ultimately have "validate_parent (pg_principals reg1) c \<noteq> Inr ()"
      using validate_parent_role validate_parent_role_ok by (metis Inl_Inr_False)
    then show ?thesis using reg1(3) assms(5) \<open>reg' = reg1\<close> by (fastforce simp: parents_valid_iff)
  next
    case False
    then obtain q where q: "Principal_init other (cur\<lparr>pn_state := ''retired'', pn_version := pn_version cur + 1\<rparr>) = Inr q"
        and w: "op_bind (persist_registry io) (\<lambda>_. op_lift (Inr q))
          (reg1\<lparr>pg_principals := AList.update i q (pg_principals reg1)\<rparr>) = (Inr p, reg')"
      using body cur by (auto split: if_splits sum.splits)
    let ?reg = "reg1\<lparr>pg_principals := AList.update i q (pg_principals reg1)\<rparr>"
    have inv: "registry_inv other reg'" using retire_sound [OF sound assms(4)] by simp
    have same: "pg_principals reg' = pg_principals ?reg" "pg_bindings reg' = pg_bindings ?reg"
      using persist_writes [OF w] by simp_all
    obtain st' where st': "pg_state reg' = Some st'" "on_disk st' ?reg" using persisted [OF w] reg1(2) by auto
    then have "on_disk st' reg'" using same by (simp add: on_disk_iff registry_document_def)
    moreover have "inactive_parent (pg_principals reg') c"
      using same(1) assms(6) Principal_init_returns [OF q] by (simp add: inactive_parent_def)
    ultimately show ?thesis using load_refused [OF inv _ assms(5)] st'(1) by simp
  qed
qed

subsection \<open>Witnesses\<close>

definition any_time :: "string \<Rightarrow> py_datetime option" where
  "any_time s = Some (utc_at 100)"

definition sample_digest :: string where
  "sample_digest = ''sha256:'' @ replicate 64 (CHR ''0'')"

definition sample_root :: Principal where
  "sample_root =
     \<lparr>pn_principal_id = ''godbee-main'', pn_class_id = ''godbee'', pn_parent_principal_id = None,
      pn_authority_profile = ''root'', pn_scope_kind = ''global'', pn_repo_id = None,
      pn_state = ''active'', pn_config_digest = sample_digest, pn_version = 1, pn_created_at_utc = None\<rparr>"

definition sample_queen :: Principal where
  "sample_queen =
     \<lparr>pn_principal_id = ''queen-1'', pn_class_id = ''queen'', pn_parent_principal_id = Some ''godbee-main'',
      pn_authority_profile = ''queen'', pn_scope_kind = ''repository'', pn_repo_id = Some ''repo'',
      pn_state = ''active'', pn_config_digest = sample_digest, pn_version = 1, pn_created_at_utc = None\<rparr>"

definition sample_execution :: ExecutionBinding where
  "sample_execution =
     \<lparr>eb_binding_id = ''b'', eb_principal_id = ''queen-1'', eb_repo_id = Some ''repo'', eb_dispatch_id = None,
      eb_agent_id = ''a'', eb_account_key = ''k'', eb_model_id = ''m'', eb_lease_id = ''l'',
      eb_admission_id = ''adm'', eb_state = ''active'', eb_expires_at_utc = ''later'',
      eb_account_pool_binding = None\<rparr>"

definition empty_registry :: "HiveStateStore option \<Rightarrow> PrincipalRegistry" where
  "empty_registry st = \<lparr>pg_principals = [], pg_bindings = [], pg_state = st\<rparr>"

definition empty_store :: HiveStateStore where
  "empty_store = \<lparr>hs_read_only = False, hs_files = []\<rparr>"

definition root_registry :: "HiveStateStore option \<Rightarrow> PrincipalRegistry" where
  "root_registry st = snd (registry_create any_time no_fault sample_root (empty_registry st))"

definition queen_registry :: "HiveStateStore option \<Rightarrow> PrincipalRegistry" where
  "queen_registry st = snd (registry_create any_time no_fault sample_queen (root_registry st))"

definition bound_registry :: PrincipalRegistry where
  "bound_registry = snd (bind_execution any_time no_fault sample_execution (queen_registry None))"

lemma sample_principals_wf: "principal_wf any_time sample_root" "principal_wf any_time sample_queen"
  by (code_simp, code_simp)

lemma sample_execution_wf: "ebinding_wf any_time sample_execution"
  by code_simp

lemma empty_fresh: "fresh_registry (empty_registry None)" "fresh_registry (empty_registry (Some empty_store))"
  by (simp_all add: fresh_registry_def empty_registry_def empty_store_def file_at_def)

lemma queen_steps: "(registry_step any_time)\<^sup>*\<^sup>* (empty_registry st) (queen_registry st)"
proof -
  have "registry_step any_time (empty_registry st) (root_registry st)"
    using step_create [OF sample_principals_wf(1) prod.collapse [symmetric]] by (simp add: root_registry_def)
  moreover have "registry_step any_time (root_registry st) (queen_registry st)"
    using step_create [OF sample_principals_wf(2) prod.collapse [symmetric]] by (simp add: queen_registry_def)
  ultimately show ?thesis by (meson converse_rtranclp_into_rtranclp rtranclp.rtrancl_refl)
qed

lemma bound_steps: "(registry_step any_time)\<^sup>*\<^sup>* (empty_registry None) bound_registry"
  using queen_steps [of None] step_bind [OF sample_execution_wf prod.collapse [symmetric]]
  by (simp add: bound_registry_def rtranclp.rtrancl_into_rtrancl)

theorem principals_answer_to_root_witness:
  "\<exists>n \<le> 4. \<exists>r. ancestor (map_of (pg_principals (queen_registry None))) n ''queen-1'' = Some r \<and>
     pn_class_id r \<in> set ROOT_EXECUTIVE_CLASSES \<and> pn_parent_principal_id r = None"
proof -
  have "registry_get any_time no_fault ''queen-1'' (queen_registry None) = (Inr sample_queen, queen_registry None)"
    by code_simp
  from principals_answer_to_root [OF empty_fresh(1) queen_steps this] show ?thesis by blast
qed

theorem active_binding_exclusive_witness:
  "filter (\<lambda>c. eb_state c = ''active'' \<and> eb_principal_id c = ''queen-1'' \<and> eb_dispatch_id c = None)
     (map snd (pg_bindings bound_registry)) = [sample_execution]"
proof -
  have "get_active_execution_binding any_time no_fault ''b'' ''queen-1'' (Some ''repo'') (utc_at 1) bound_registry =
      (Inr sample_execution, bound_registry)"
    by code_simp
  from active_binding_exclusive [OF empty_fresh(1) bound_steps this] show ?thesis
    by (simp add: sample_execution_def)
qed

theorem created_principal_durable_witness:
  "fst (registry_get any_time no_fault ''godbee-main''
     ((root_registry (Some empty_store))\<lparr>pg_principals := [], pg_bindings := []\<rparr>)) = Inr sample_root"
proof -
  have "fst (registry_create any_time no_fault sample_root (empty_registry (Some empty_store))) = Inr sample_root"
    by code_simp
  then have "registry_create any_time no_fault sample_root (empty_registry (Some empty_store)) =
      (Inr sample_root, root_registry (Some empty_store))"
    by (simp add: root_registry_def prod_eq_iff)
  from created_principal_durable [OF empty_fresh(2) rtranclp.rtrancl_refl _ sample_principals_wf(1) this]
  show ?thesis by (simp add: empty_registry_def sample_root_def)
qed

definition retired_registry :: PrincipalRegistry where
  "retired_registry = snd (registry_retire any_time no_fault ''godbee-main'' 1 (queen_registry (Some empty_store)))"

lemma retired_run:
  "let q = queen_registry (Some empty_store)
   in case registry_retire any_time no_fault ''godbee-main'' 1 q of
        (r, reg) \<Rightarrow> pg_state q \<noteq> None \<and> is_ok r \<and> sample_queen \<in> snd ` set (pg_principals reg)"
  by code_simp

theorem retiring_parent_locks_registry_witness:
  "fst (registry_get any_time no_fault ''queen-1'' (retired_registry\<lparr>pg_principals := [], pg_bindings := []\<rparr>)) =
    Inl (PrincipalError ''invalid_principal_parent'')"
proof -
  obtain st p where "pg_state (queen_registry (Some empty_store)) = Some st"
    and run: "registry_retire any_time no_fault ''godbee-main'' 1 (queen_registry (Some empty_store)) = (Inr p, retired_registry)"
    and "sample_queen \<in> snd ` set (pg_principals retired_registry)"
    using retired_run unfolding retired_registry_def Let_def is_ok_iff by fastforce
  moreover have "pn_parent_principal_id sample_queen = Some ''godbee-main''" by (simp add: sample_queen_def)
  ultimately show ?thesis
    using retiring_parent_locks_registry [OF empty_fresh(2) queen_steps] by blast
qed

end
