(* ===== verification/Authority_Properties.thy ===== *)
theory Authority_Properties
  imports Authority Principals_Properties
begin

text \<open>
  What the authority engine promises: the grant document survives a round trip, a grant is used at
  most once over any history of operations, faults and processes, a new grant hands on no more than
  both its principals may do, and a grant is verified exactly for what it was issued for.
\<close>

subsection \<open>Grants and their document\<close>

definition grant_wf :: "DelegationGrant \<Rightarrow> bool" where
  "grant_wf g = (DelegationGrant_init g = Inr g \<and> dt_valid (dg_issued_at_utc g) \<and> dt_valid (dg_expires_at_utc g))"

lemma DelegationGrant_init_returns: "DelegationGrant_init g = Inr h \<Longrightarrow> h = g \<and> DelegationGrant_init g = Inr g"
  by (auto simp: DelegationGrant_init_def and_then_eq_Inr)

lemma map_result_PStr [simp]: "map_result (\<lambda>x. need (py_str x) e) (map PStr xs) = Inr xs"
  by (induction xs) auto

lemma grant_payload_roundtrip:
  assumes "grant_wf g"
  shows "grant_from_payload other (grant_payload g) = Inr g"
  using assms
  by (cases g) (simp add: grant_from_payload_def grant_payload_def grant_str_def grant_strs_def grant_time_def
      str_list_def py_item_def py_get_def grant_wf_def)

definition grants_inv :: "(string, DelegationGrant) dict \<Rightarrow> bool" where
  "grants_inv gs = (dict_wf gs \<and> (\<forall>k g. map_of gs k = Some g \<longrightarrow> k = dg_grant_id g \<and> grant_wf g))"

lemma grants_inv_lookup: "grants_inv gs \<Longrightarrow> map_of gs i = Some g \<Longrightarrow> i = dg_grant_id g \<and> grant_wf g"
  unfolding grants_inv_def by blast

lemma grants_inv_entries: "grants_inv gs \<Longrightarrow> \<forall>(k, g) \<in> set gs. k = dg_grant_id g \<and> grant_wf g"
  using map_of_is_SomeI by (fastforce simp: grants_inv_def)

lemma grants_inv_update:
  assumes "grants_inv gs" and "grant_wf g" and "i = dg_grant_id g"
  shows "grants_inv (AList.update i g gs)"
  using assms unfolding grants_inv_def map_of_update_fun by simp

lemma load_grants_payloads:
  assumes "dict_wf (ae_grants s @ gs)" and "\<forall>(k, g) \<in> set gs. k = dg_grant_id g \<and> grant_wf g"
  shows "load_grants other (map (\<lambda>(_, g). grant_payload g) gs) s =
    (Inr (), s\<lparr>ae_grants := ae_grants s @ gs\<rparr>)"
  using assms
proof (induction gs arbitrary: s)
  case Nil
  then show ?case by simp
next
  case (Cons x gs)
  obtain k g where x: "x = (k, g)" by (cases x)
  then have g: "k = dg_grant_id g" "grant_wf g" using Cons.prems(2) by auto
  then have fresh: "dg_grant_id g \<notin> fst ` set (ae_grants s)" using Cons.prems(1) x by auto
  let ?s = "s\<lparr>ae_grants := ae_grants s @ [x]\<rparr>"
  have "load_grants other (map (\<lambda>(_, g). grant_payload g) gs) ?s = (Inr (), ?s\<lparr>ae_grants := ae_grants ?s @ gs\<rparr>)"
    using Cons.prems by (intro Cons.IH) auto
  then show ?case
    using x g fresh grant_payload_roundtrip [OF g(2)] by (simp add: update_fresh map_of_eq_None_iff)
qed

lemma grants_path_ok: "state_path io grants_path = Inr p \<longleftrightarrow> si_path io = None \<and> p = [''grants.json'']"
  by (auto simp: state_path_def validate_relative_def grants_path_def MAX_RELATIVE_STATE_PART_def
      printable_def result_simps)

text \<open>Only the grants and the state store are touched by the loader.\<close>

lemma load_grants_frame:
  "load_grants other raws s = (res, s') \<Longrightarrow> ae_state s' = ae_state s \<and> ae_principals s' = ae_principals s \<and>
     ae_repositories s' = ae_repositories s \<and> ae_capabilities s' = ae_capabilities s"
  by (induction other raws s rule: load_grants.induct) (auto split: sum.splits if_splits)

lemma load_grants_locked_frame:
  "load_grants_locked av st s = (res, s') \<Longrightarrow> ae_state s' = ae_state s \<and> ae_principals s' = ae_principals s \<and>
     ae_repositories s' = ae_repositories s \<and> ae_capabilities s' = ae_capabilities s"
  by (auto simp: load_grants_locked_def Let_def dest!: load_grants_frame
      split: sum.splits exn.splits if_splits pyval.splits)

lemma load_grants_on_disk:
  assumes "holds_document [''grants.json''] grants_document [] st gs" and "grants_inv gs"
    and "load_grants_locked av st s = (Inr u, s')"
  shows "ae_grants s' = gs"
proof (cases "read_json_locked (av_io av) grants_path (4 * 1024 * 1024) st")
  case (Inl e)
  have "file_at st [''grants.json''] = No_File" if "e = HiveStateError ''state_not_found''"
    using read_json_missing Inl that by (fastforce simp: grants_path_ok)
  then show ?thesis
    using assms(1,3) Inl
    by (auto simp: load_grants_locked_def Let_def holds_document_def split: exn.splits if_splits)
next
  case (Inr payload)
  then have "payload = grants_document gs"
    using read_json_found [OF Inr] assms(1) by (auto simp: grants_path_ok holds_document_def)
  then show ?thesis
    using Inr assms(3) load_grants_payloads [where s = "s\<lparr>ae_grants := []\<rparr>" and gs = gs and other = "av_other av"]
      grants_inv_entries [OF assms(2)] assms(2)
    by (auto simp: load_grants_locked_def Let_def grants_document_def py_get_def grants_inv_def)
qed

interpretation grants: document_store ae_state ae_grants grants_document grants_inv "[]"
  grants_path "[''grants.json'']" "\<lambda>io. load_grants_locked (av\<lparr>av_io := io\<rparr>)" for av
  by unfold_locales
    (auto simp: grants_path_ok grants_inv_def [of "[]"] dest: load_grants_locked_frame load_grants_on_disk)

lemma grant_transaction_eq: "grant_transaction av = grants.transaction av (av_io av)"
proof -
  have "av\<lparr>av_io := av_io av\<rparr> = av" by (cases av) simp
  then show ?thesis by (intro ext) (simp add: grant_transaction_def grants.transaction_def split: option.split)
qed

subsection \<open>Writing a grant back\<close>

lemma put_grant_grants: "put_grant av i g x s = (res, s') \<Longrightarrow> ae_grants s' = AList.update i g (ae_grants s)"
  by (auto simp: put_grant_def op_bind_def persist_grants_def split: option.splits prod.splits sum.splits)

text \<open>
  A grant is written back, and the call answers or raises after the write; or it raises with the
  document as it was.
\<close>

lemma put_grant_holds:
  assumes "grants.holds s0 gs" and "ae_state s = ae_state s0" and "ae_grants s = gs"
    and "grant_wf g" and "i = dg_grant_id g" and "put_grant av i g x s = (res, s')"
  shows "(grants.holds s' (AList.update i g gs) \<and> (res = x \<or> \<not> is_ok res \<and> ae_state s' \<noteq> None)) \<or>
    (\<not> is_ok res \<and> ae_state s' = ae_state s0 \<and> grants.holds s' gs)"
proof -
  let ?gs = "AList.update i g gs"
  have inv: "grants_inv gs" "grants_inv ?gs" using assms(1) grants_inv_update assms(4,5) by (auto simp: grants.holds_def)
  show ?thesis
  proof (cases "ae_state s")
    case None
    then have "res = x" "ae_state s' = None"
      using assms(6) by (auto simp: put_grant_def op_bind_def persist_grants_def split: sum.splits)
    then show ?thesis using inv(2) put_grant_grants [OF assms(6)] assms(3) by (simp add: grants.holds_def)
  next
    case (Some st)
    obtain r st' where w: "replace_json_locked (av_io av) grants_path (grants_document ?gs) st = (r, st')"
      by (cases "replace_json_locked (av_io av) grants_path (grants_document ?gs) st")
    have run: "ae_state s' = Some st'" "res = and_then r (\<lambda>_. x)"
      using assms(3,6) Some w by (auto simp: put_grant_def op_bind_def persist_grants_def split: sum.splits)
    then have "res = x \<or> \<not> is_ok res" by (cases r) simp_all
    moreover have "ae_state s0 = Some st" using Some assms(2) by simp
    ultimately show ?thesis
      using grants.written_on_disk [OF w] run inv assms(1) by (cases r) (auto simp: grants.holds_def)
  qed
qed

subsection \<open>The life of a grant\<close>

text \<open>
  The abstract specification: a dictionary of grants in which a grant is added once, while active it
  is consumed with its secret before it expires or found expired, and at any time it is revoked.
\<close>

datatype grant_event =
    Quiet
  | Expired string py_datetime
  | Issued DelegationGrant
  | Consumed string string string py_datetime
  | Revoked string int

definition with_status :: "DelegationGrant \<Rightarrow> string \<Rightarrow> DelegationGrant" where
  "with_status g status = g\<lparr>dg_status := status, dg_version := dg_version g + 1\<rparr>"

inductive grant_move ::
  "(string \<Rightarrow> string) \<Rightarrow> grant_event \<Rightarrow> (string, DelegationGrant) dict \<Rightarrow> (string, DelegationGrant) dict \<Rightarrow> bool"
  for sha256 where
  stutter: "grant_move sha256 Quiet gs gs"
| expire: "map_of gs i = Some g \<Longrightarrow> dg_status g = ''active'' \<Longrightarrow> instant (dg_expires_at_utc g) \<le> instant now \<Longrightarrow>
    grant_move sha256 (Expired i now) gs (AList.update i (with_status g ''expired'') gs)"
| issue: "map_of gs (dg_grant_id g) = None \<Longrightarrow> dg_status g = ''active'' \<Longrightarrow> dg_version g = 1 \<Longrightarrow>
    grant_move sha256 (Issued g) gs (AList.update (dg_grant_id g) g gs)"
| consume: "map_of gs i = Some g \<Longrightarrow> dg_status g = ''active'' \<Longrightarrow> instant now < instant (dg_expires_at_utc g) \<Longrightarrow>
    dg_nonce_digest g = ''sha256:'' @ sha256 nonce \<Longrightarrow> dg_request_digest g = request \<Longrightarrow>
    grant_move sha256 (Consumed i nonce request now) gs (AList.update i (with_status g ''consumed'') gs)"
| revoke: "map_of gs i = Some g \<Longrightarrow> dg_version g = v \<Longrightarrow> dg_status g \<noteq> ''revoked'' \<Longrightarrow>
    grant_move sha256 (Revoked i v) gs (AList.update i (with_status g ''revoked'') gs)"
| revoked: "map_of gs i = Some g \<Longrightarrow> dg_version g = v \<Longrightarrow> dg_status g = ''revoked'' \<Longrightarrow>
    grant_move sha256 (Revoked i v) gs gs"

inductive_cases grant_move_cases: "grant_move sha256 ev gs gs'"

text \<open>The callers never learn of these.\<close>

fun silent :: "grant_event \<Rightarrow> bool" where
  "silent Quiet = True"
| "silent (Expired _ _) = True"
| "silent _ = False"

text \<open>The operation moved the abstract grants with the event of the call.\<close>

definition refines_move ::
  "(string \<Rightarrow> string) \<Rightarrow> grant_event \<Rightarrow> (string, DelegationGrant) dict \<Rightarrow> AuthorityEngine \<Rightarrow> bool" where
  "refines_move sha256 e gs s' =
     (\<exists>ev gs'. grant_move sha256 ev gs gs' \<and> grants.holds s' gs' \<and> (ev = e \<or> (e = Quiet \<and> silent ev)))"

lemma refines_quiet: "grants.holds s' gs \<Longrightarrow> refines_move sha256 Quiet gs s'"
  unfolding refines_move_def using stutter by blast

lemma refines_move_same:
  "grants.holds s gs \<Longrightarrow> ae_state s' = ae_state s1 \<Longrightarrow> ae_grants s' = ae_grants s1 \<Longrightarrow> ae_state s1 = ae_state s \<Longrightarrow>
     ae_grants s1 = gs \<Longrightarrow> grants.holds s' gs"
  by (simp add: grants.holds_def split: option.splits)

lemma replaced_grant_Inr:
  assumes "replaced_grant g status = Inr h" and "grant_wf g"
  shows "h = with_status g status \<and> grant_wf h"
proof -
  have "h = with_status g status" "DelegationGrant_init h = Inr h"
    using DelegationGrant_init_returns assms(1) unfolding replaced_grant_def with_status_def by fastforce+
  then show ?thesis using assms(2) by (simp add: grant_wf_def with_status_def)
qed

lemma grant_wf_id: "grant_wf g \<Longrightarrow> identifier_re (dg_grant_id g)"
  by (auto simp: grant_wf_def DelegationGrant_init_def unit_checks_def auth_identifier_def and_then_eq_Inr check_eq_Inr)

lemma with_status_id [simp]: "dg_grant_id (with_status g s) = dg_grant_id g"
  by (simp add: with_status_def)

text \<open>
  The event of a call. An answer tells it. A call that raised did something only if its write had
  replaced the document by then, and its memory holds what it wrote; its caller cannot tell.
\<close>

definition raised_event ::
  "AuthorityEngine \<Rightarrow> AuthorityEngine \<Rightarrow> string \<Rightarrow> (DelegationGrant \<Rightarrow> grant_event) \<Rightarrow> grant_event" where
  "raised_event s s' i f =
     (if ae_state s' = ae_state s then Quiet
      else case map_of (ae_grants s') i of None \<Rightarrow> Quiet | Some g \<Rightarrow> f g)"

fun issue_event :: "string \<Rightarrow> AuthorityEngine \<Rightarrow> DelegationGrant result \<Rightarrow> AuthorityEngine \<Rightarrow> grant_event" where
  "issue_event i s (Inl _) s' = raised_event s s' i Issued"
| "issue_event i s (Inr g) s' = Issued g"

fun consume_event ::
  "string \<Rightarrow> string \<Rightarrow> string \<Rightarrow> py_datetime \<Rightarrow> AuthorityEngine \<Rightarrow> AuthorityDecision result \<Rightarrow> AuthorityEngine \<Rightarrow>
   grant_event" where
  "consume_event i nonce request now s (Inl _) s' =
     raised_event s s' i (\<lambda>g. if dg_status g = ''consumed'' then Consumed i nonce request now else Quiet)"
| "consume_event i nonce request now s (Inr d) s' = (if ad_allowed d then Consumed i nonce request now else Quiet)"

fun revoke_event :: "string \<Rightarrow> int \<Rightarrow> AuthorityEngine \<Rightarrow> DelegationGrant result \<Rightarrow> AuthorityEngine \<Rightarrow> grant_event" where
  "revoke_event i v s (Inl _) s' = raised_event s s' i (\<lambda>_. Revoked i v)"
| "revoke_event i v s (Inr _) s' = Revoked i v"

lemma raised_event_same [simp]: "ae_state s' = ae_state s \<Longrightarrow> raised_event s s' i f = Quiet"
  by (simp add: raised_event_def)

lemma raised_event_other [simp]:
  "ae_state s' \<noteq> ae_state s \<Longrightarrow> ae_grants s' = AList.update i g gs \<Longrightarrow> raised_event s s' i f = f g"
  by (simp add: raised_event_def)

text \<open>A transaction that did not get to its body did nothing.\<close>

lemma transaction_refines:
  assumes "grants.holds s gs" and "grant_transaction av body s = (res, s')"
    and "\<And>s1. ae_grants s1 = gs \<Longrightarrow> ae_state s1 = ae_state s \<Longrightarrow> body s1 = (res, s') \<Longrightarrow>
      refines_move sha256 (event res s') gs s'"
    and "\<And>e. ae_state s' = ae_state s \<Longrightarrow> event (Inl e) s' = Quiet"
  shows "refines_move sha256 (event res s') gs s'"
  using assms(1) assms(2) [unfolded grant_transaction_eq]
proof (cases rule: grants.transaction_cases)
  case refused
  then show ?thesis using assms(4) refines_quiet by (cases res) simp_all
next
  case (ran s1)
  then show ?thesis by (rule assms(3))
qed

text \<open>
  A grant written back: the move took place, answered or not, or the write failed and nothing
  happened.
\<close>

lemma put_refines:
  assumes "grants.holds s gs" and "ae_state s1 = ae_state s" and "ae_grants s1 = gs"
    and "grant_wf g" and "i = dg_grant_id g" and "put_grant av i g x s1 = (res, s')"
    and "grant_move sha256 ev gs (AList.update i g gs)"
    and "event x s' = ev \<or> (event x s' = Quiet \<and> silent ev)"
    and "\<And>e. ae_state s' = ae_state s \<Longrightarrow> event (Inl e) s' = Quiet"
    and "\<And>e. ae_state s' \<noteq> ae_state s \<Longrightarrow> ae_grants s' = AList.update i g gs \<Longrightarrow>
      event (Inl e) s' = ev \<or> (event (Inl e) s' = Quiet \<and> silent ev)"
  shows "refines_move sha256 (event res s') gs s'"
proof -
  have grants: "ae_grants s' = AList.update i g gs" using put_grant_grants [OF assms(6)] assms(3) by simp
  have same: ?thesis if "\<not> is_ok res" "ae_state s' = ae_state s" "grants.holds s' gs"
    using that assms(9) refines_quiet by (cases res) simp_all
  have moved: ?thesis if "grants.holds s' (AList.update i g gs)"
      "event res s' = ev \<or> (event res s' = Quiet \<and> silent ev)"
    using that assms(7) unfolding refines_move_def by blast
  from put_grant_holds [OF assms(1-6)] show ?thesis
  proof (elim disjE conjE)
    assume "grants.holds s' (AList.update i g gs)" "res = x"
    then show ?thesis using moved assms(8) by blast
  next
    assume h: "grants.holds s' (AList.update i g gs)" and raised: "\<not> is_ok res" "ae_state s' \<noteq> None"
    show ?thesis
    proof (cases "ae_state s' = ae_state s")
      case True
      then have "grants.holds s' gs" using assms(1) raised(2) by (auto simp: grants.holds_def split: option.splits)
      then show ?thesis using same raised(1) True by blast
    next
      case False
      then show ?thesis using moved [OF h] assms(10) [OF _ grants] raised(1) by (cases res) auto
    qed
  qed (rule same)
qed

lemma decision_Inr: "decision b c i = Inr d \<longleftrightarrow>
    reason_ok c \<and> (\<forall>a. i = Some a \<longrightarrow> identifier_re a) \<and> d = \<lparr>ad_allowed = b, ad_reason_code = c, ad_grant_id = i\<rparr>"
  by (auto simp: decision_def and_then_eq_Inr opt_check_Inr auth_identifier_def is_ok_iff check_eq_Inr)

lemma consume_event_denied [simp]:
  "ae_state s' = ae_state s \<Longrightarrow> consume_event i nonce request now s (decision False c x) s' = Quiet"
proof (cases "decision False c x")
  case (Inr d)
  then have "\<not> ad_allowed d" by (simp add: decision_Inr)
  then show ?thesis using Inr by simp
qed simp

lemma reasons_ok: "reason_ok ''grant_consumed''" "reason_ok ''grant_expired''"
  by (code_simp, code_simp)

lemma decision_made:
  "reason_ok c \<Longrightarrow> identifier_re i \<Longrightarrow> decision b c (Some i) = Inr \<lparr>ad_allowed = b, ad_reason_code = c, ad_grant_id = Some i\<rparr>"
  by (simp only: decision_Inr) simp

lemma digest_secret_Inr: "digest_secret av x = Inr y \<longleftrightarrow> x \<noteq> [] \<and> y = ''sha256:'' @ av_sha256 av x"
  by (auto simp: digest_secret_def)

lemma safe_now_Inr: "safe_now av = Inr now \<Longrightarrow> instant now = instant (av_now av)"
  using validate_utc_datetime_Inr by (auto simp: safe_now_def rescue_eq_Inr)

lemma consume_active_refines:
  assumes "grants.holds s gs" and "ae_state s1 = ae_state s" and "ae_grants s1 = gs"
    and "map_of gs i = Some g" and "dg_status g = ''active''" and "instant (av_now av) < instant (dg_expires_at_utc g)"
    and "consume_active av i g nonce request s1 = (res, s')"
  shows "refines_move (av_sha256 av) (consume_event i nonce request (av_now av) s res s') gs s'"
proof -
  have g: "i = dg_grant_id g" "grant_wf g"
    using grants_inv_lookup assms(1,4) by (auto simp: grants.holds_def)
  consider (same) "s' = s1" "consume_event i nonce request (av_now av) s res s' = Quiet"
    | (put) h where "replaced_grant g ''consumed'' = Inr h" "dg_nonce_digest g = ''sha256:'' @ av_sha256 av nonce"
        "dg_request_digest g = request"
        "put_grant av i h (decision True ''grant_consumed'' (Some i)) s1 = (res, s')"
    using assms(2,7) by (auto simp: consume_active_def digest_secret_Inr split: sum.splits if_splits)
  then show ?thesis
  proof cases
    case same
    then show ?thesis using refines_quiet refines_move_same [OF assms(1) _ _ assms(2,3)] by simp
  next
    case put
    then have h: "h = with_status g ''consumed''" "grant_wf h" using replaced_grant_Inr g(2) by auto
    have "grant_move (av_sha256 av) (Consumed i nonce request (av_now av)) gs (AList.update i h gs)"
      unfolding h(1) by (rule consume) (use assms(4-6) put(2,3) in simp_all)
    then show ?thesis
      using put_refines [OF assms(1-3) h(2) _ put(4), where event = "consume_event i nonce request (av_now av) s"]
        g(1) decision_made [OF reasons_ok(1) grant_wf_id [OF g(2)]] by (simp add: h(1) with_status_def)
  qed
qed

lemma consume_refines:
  assumes "grants.holds s gs" and "consume_grant av i nonce request s = (res, s')"
  shows "refines_move (av_sha256 av) (consume_event i nonce request (av_now av) s res s') gs s'"
proof (rule transaction_refines [OF assms(1) assms(2) [unfolded consume_grant_def]])
  fix s1
  assume s1: "ae_grants s1 = gs" "ae_state s1 = ae_state s"
    and body: "(case map_of (ae_grants s1) i of
        None \<Rightarrow> (decision False ''grant_not_found'' None, s1)
      | Some grant \<Rightarrow>
          (case safe_now av of
             Inl e \<Rightarrow> (Inl e, s1)
           | Inr now \<Rightarrow>
               if dg_status grant \<noteq> ''active''
               then (decision False (if dg_status grant = ''consumed'' then ''grant_replayed'' else ''grant_inactive'')
                       (Some i), s1)
               else if instant now \<ge> instant (dg_expires_at_utc grant)
               then (case replaced_grant grant ''expired'' of
                       Inl e \<Rightarrow> (Inl e, s1)
                     | Inr expired \<Rightarrow> put_grant av i expired (decision False ''grant_expired'' (Some i)) s1)
               else consume_active av i grant nonce request s1)) = (res, s')"
  let ?event = "consume_event i nonce request (av_now av) s"
  consider (same) "s' = s1" "?event res s' = Quiet"
    | (expired) g h where "map_of gs i = Some g" "dg_status g = ''active''"
        "instant (dg_expires_at_utc g) \<le> instant (av_now av)" "replaced_grant g ''expired'' = Inr h"
        "put_grant av i h (decision False ''grant_expired'' (Some i)) s1 = (res, s')"
    | (live) g where "map_of gs i = Some g" "dg_status g = ''active''"
        "instant (av_now av) < instant (dg_expires_at_utc g)" "consume_active av i g nonce request s1 = (res, s')"
    using body s1 by (fastforce dest!: safe_now_Inr split: option.splits sum.splits if_splits)
  then show "refines_move (av_sha256 av) (?event res s') gs s'"
  proof cases
    case same
    then show ?thesis using refines_quiet refines_move_same [OF assms(1) _ _ s1(2,1)] by simp
  next
    case expired
    have g: "i = dg_grant_id g" "grant_wf g"
      using grants_inv_lookup assms(1) expired(1) by (auto simp: grants.holds_def)
    have h: "h = with_status g ''expired''" "grant_wf h" using replaced_grant_Inr [OF expired(4) g(2)] by auto
    have "grant_move (av_sha256 av) (Expired i (av_now av)) gs (AList.update i h gs)"
      unfolding h(1) by (rule expire) (use expired(1-3) in simp_all)
    then show ?thesis
      using put_refines [OF assms(1) s1(2,1) h(2) _ expired(5), where event = ?event]
        g(1) decision_made [OF reasons_ok(2) grant_wf_id [OF g(2)]] by (simp add: h(1) with_status_def)
  next
    case live
    then show ?thesis using consume_active_refines [OF assms(1) s1(2,1)] by blast
  qed
qed simp

lemma revoke_refines:
  assumes "grants.holds s gs" and "revoke_grant av i v s = (res, s')"
  shows "refines_move (av_sha256 av) (revoke_event i v s res s') gs s'"
proof (rule transaction_refines [OF assms(1) assms(2) [unfolded revoke_grant_def]])
  fix s1
  assume s1: "ae_grants s1 = gs" "ae_state s1 = ae_state s"
    and body: "(case map_of (ae_grants s1) i of
        None \<Rightarrow> (Inl (AuthorityError ''grant_not_found''), s1)
      | Some current \<Rightarrow>
          if dg_version current \<noteq> v then (Inl (AuthorityError ''stale_grant_version''), s1)
          else if dg_status current = ''revoked'' then (Inr current, s1)
          else case replaced_grant current ''revoked'' of
                 Inl e \<Rightarrow> (Inl e, s1)
               | Inr revoked \<Rightarrow> put_grant av i revoked (Inr revoked) s1) = (res, s')"
  consider (same) "s' = s1" "\<not> is_ok res"
    | (again) g where "s' = s1" "map_of gs i = Some g" "dg_version g = v" "dg_status g = ''revoked''" "res = Inr g"
    | (put) g h where "map_of gs i = Some g" "dg_version g = v" "dg_status g \<noteq> ''revoked''"
        "replaced_grant g ''revoked'' = Inr h" "put_grant av i h (Inr h) s1 = (res, s')"
  proof (cases "map_of gs i")
    case (Some g)
    then show ?thesis using that body s1(1) by (cases "replaced_grant g ''revoked''") (auto split: if_splits dest: sym [of "Inl _"])
  qed (use that(1) body s1(1) in auto)
  then show "refines_move (av_sha256 av) (revoke_event i v s res s') gs s'"
  proof cases
    case same
    then show ?thesis using refines_quiet refines_move_same [OF assms(1) _ _ s1(2,1)] s1(2) by (cases res) simp_all
  next
    case again
    then have "grants.holds s' gs" using refines_move_same [OF assms(1) _ _ s1(2,1)] by simp
    then show ?thesis using revoked [OF again(2-4)] again(5) unfolding refines_move_def by auto
  next
    case put
    have g: "i = dg_grant_id g" "grant_wf g"
      using grants_inv_lookup assms(1) put(1) by (auto simp: grants.holds_def)
    have h: "h = with_status g ''revoked''" "grant_wf h" using replaced_grant_Inr [OF put(4) g(2)] by auto
    have "grant_move (av_sha256 av) (Revoked i v) gs (AList.update i h gs)"
      unfolding h(1) by (rule revoke) (use put(1-3) in simp_all)
    then show ?thesis
      using put_refines [OF assms(1) s1(2,1) h(2) _ put(5), where event = "revoke_event i v s"] h(1) g(1) by simp
  qed
qed simp

text \<open>The other operations on the engine leave the grants as they are.\<close>

lemma engine_principal_frame:
  "engine_principal av i s = (res, s') \<Longrightarrow> ae_grants s' = ae_grants s \<and> ae_state s' = ae_state s \<and>
     ae_repositories s' = ae_repositories s \<and> ae_capabilities s' = ae_capabilities s"
  by (auto simp: engine_principal_def split: prod.splits)

lemma build_grant_frame:
  "build_grant av q s = (res, s') \<Longrightarrow> ae_grants s' = ae_grants s \<and> ae_state s' = ae_state s \<and>
     ae_repositories s' = ae_repositories s \<and> ae_capabilities s' = ae_capabilities s"
  by (auto simp: build_grant_def op_bind_def dest!: engine_principal_frame
      split: prod.splits sum.splits exn.splits)

lemma build_grant_Inr:
  assumes "build_grant av q s = (Inr g, s')"
  obtains issuer subject s1 where "engine_principal av (gq_issuer_principal_id q) s = (Inr issuer, s1)"
    "engine_principal av (gq_subject_principal_id q) s1 = (Inr subject, s')" "checked_grant av s' q issuer subject = Inr g"
  using assms by (auto simp: build_grant_def op_bind_def split: prod.splits sum.splits exn.splits)

lemma rescue_raise: "rescue x (\<lambda>e. case e of AuthorityError m \<Rightarrow> Inl e | _ \<Rightarrow> Inl e') = Inr y \<longleftrightarrow> x = Inr y"
proof (cases x)
  case (Inl e)
  then show ?thesis by (cases e) simp_all
qed simp

lemma checked_grant_Inr:
  assumes "checked_grant av s q issuer subject = Inr g"
  shows "DelegationGrant_init g = Inr g" "0 \<le> gq_max_delegation_depth q" "gq_max_delegation_depth q \<le> 8"
    "gq_nonce q \<noteq> []" "is_sha256_digest (gq_request_digest q)"
    "pn_state issuer = ''active''" "pn_state subject = ''active''"
    "pn_parent_principal_id subject = Some (pn_principal_id issuer)"
    "pn_repo_id issuer = None \<or> pn_repo_id issuer = Some (gq_repo_id q)" "pn_repo_id subject = Some (gq_repo_id q)"
    "set (gq_capabilities q) \<noteq> {}" "set (gq_capabilities q) \<subseteq> set (capabilities_of s issuer) \<inter> set (capabilities_of s subject)"
    "scope_allowed av s (Some (gq_repo_id q)) (dedup (gq_scope q)) (dedup (gq_write_paths q))"
    "g = \<lparr>dg_schema_version = PInt 1, dg_grant_id = gq_grant_id q, dg_issuer_principal_id = pn_principal_id issuer,
      dg_subject_principal_id = pn_principal_id subject, dg_repo_id = gq_repo_id q,
      dg_dispatch_id = gq_dispatch_id q, dg_capabilities = sort (remdups (gq_capabilities q)),
      dg_scope = dedup (gq_scope q), dg_write_paths = dedup (gq_write_paths q),
      dg_max_delegation_depth = PInt (gq_max_delegation_depth q),
      dg_issued_at_utc = gq_issued_at_utc q, dg_expires_at_utc = gq_expires_at_utc q,
      dg_nonce_digest = ''sha256:'' @ av_sha256 av (gq_nonce q), dg_request_digest = gq_request_digest q,
      dg_status = ''active'', dg_version = 1\<rparr>"
proof -
  note checks = assms [unfolded checked_grant_def Let_def and_then_eq_Inr check_eq_Inr rescue_raise digest_secret_Inr]
  show "0 \<le> gq_max_delegation_depth q" "gq_max_delegation_depth q \<le> 8"
    "gq_nonce q \<noteq> []" "is_sha256_digest (gq_request_digest q)"
    "pn_state issuer = ''active''" "pn_state subject = ''active''"
    "pn_parent_principal_id subject = Some (pn_principal_id issuer)"
    "pn_repo_id issuer = None \<or> pn_repo_id issuer = Some (gq_repo_id q)" "pn_repo_id subject = Some (gq_repo_id q)"
    "scope_allowed av s (Some (gq_repo_id q)) (dedup (gq_scope q)) (dedup (gq_write_paths q))"
    using checks by blast+
  show "set (gq_capabilities q) \<noteq> {}" "set (gq_capabilities q) \<subseteq> set (capabilities_of s issuer) \<inter> set (capabilities_of s subject)"
    using checks by (auto simp: list_all_iff)
  obtain h where "DelegationGrant_init h = Inr g"
    and h: "h = \<lparr>dg_schema_version = PInt 1, dg_grant_id = gq_grant_id q, dg_issuer_principal_id = pn_principal_id issuer,
      dg_subject_principal_id = pn_principal_id subject, dg_repo_id = gq_repo_id q,
      dg_dispatch_id = gq_dispatch_id q, dg_capabilities = sort (remdups (gq_capabilities q)),
      dg_scope = dedup (gq_scope q), dg_write_paths = dedup (gq_write_paths q),
      dg_max_delegation_depth = PInt (gq_max_delegation_depth q),
      dg_issued_at_utc = gq_issued_at_utc q, dg_expires_at_utc = gq_expires_at_utc q,
      dg_nonce_digest = ''sha256:'' @ av_sha256 av (gq_nonce q), dg_request_digest = gq_request_digest q,
      dg_status = ''active'', dg_version = 1\<rparr>"
    using checks by blast
  then show "DelegationGrant_init g = Inr g" and "g = \<lparr>dg_schema_version = PInt 1, dg_grant_id = gq_grant_id q, dg_issuer_principal_id = pn_principal_id issuer,
      dg_subject_principal_id = pn_principal_id subject, dg_repo_id = gq_repo_id q,
      dg_dispatch_id = gq_dispatch_id q, dg_capabilities = sort (remdups (gq_capabilities q)),
      dg_scope = dedup (gq_scope q), dg_write_paths = dedup (gq_write_paths q),
      dg_max_delegation_depth = PInt (gq_max_delegation_depth q),
      dg_issued_at_utc = gq_issued_at_utc q, dg_expires_at_utc = gq_expires_at_utc q,
      dg_nonce_digest = ''sha256:'' @ av_sha256 av (gq_nonce q), dg_request_digest = gq_request_digest q,
      dg_status = ''active'', dg_version = 1\<rparr>"
    using DelegationGrant_init_returns by metis+
qed

lemma issue_refines:
  assumes "grants.holds s gs" and "dt_valid (gq_issued_at_utc q)" and "dt_valid (gq_expires_at_utc q)"
    and "issue_grant av q s = (res, s')"
  shows "refines_move sha256 (issue_event (gq_grant_id q) s res s') gs s'"
proof -
  obtain r s1 where build: "build_grant av q s = (r, s1)" by (cases "build_grant av q s")
  have s1: "grants.holds s1 gs" using build_grant_frame [OF build] refines_move_same [OF assms(1)] assms(1)
    by (auto simp: grants.holds_def split: option.splits)
  have state: "ae_state s1 = ae_state s" using build_grant_frame [OF build] by simp
  show ?thesis
  proof (cases r)
    case (Inl e)
    then have "s' = s1" "res = Inl e" using assms(4) build by (auto simp: issue_grant_def op_bind_def)
    then show ?thesis using s1 refines_quiet state by simp
  next
    case (Inr g)
    then obtain issuer subject where "checked_grant av s1 q issuer subject = Inr g"
      using build build_grant_Inr by metis
    note fields = checked_grant_Inr [OF this]
    have wf: "grant_wf g" "dg_status g = ''active''" "dg_version g = 1" "dg_grant_id g = gq_grant_id q"
      using fields(1) assms(2,3) by (simp_all add: grant_wf_def fields(14))
    let ?event = "issue_event (dg_grant_id g) s1"
    have event: "issue_event (gq_grant_id q) s res s' = ?event res s'"
      using state wf(4) by (cases res) (simp_all add: raised_event_def)
    have t: "grant_transaction av (\<lambda>s.
        if map_of (ae_grants s) (dg_grant_id g) \<noteq> None then (Inl (AuthorityError ''duplicate_grant''), s)
        else put_grant av (dg_grant_id g) g (Inr g) s) s1 = (res, s')"
      using assms(4) build Inr by (simp add: issue_grant_def op_bind_def)
    show ?thesis
      unfolding event
    proof (rule transaction_refines [OF s1 t])
      fix s2
      assume s2: "ae_grants s2 = gs" "ae_state s2 = ae_state s1"
        and body: "(if map_of (ae_grants s2) (dg_grant_id g) \<noteq> None then (Inl (AuthorityError ''duplicate_grant''), s2)
          else put_grant av (dg_grant_id g) g (Inr g) s2) = (res, s')"
      show "refines_move sha256 (?event res s') gs s'"
      proof (cases "map_of gs (dg_grant_id g)")
        case None
        then have "put_grant av (dg_grant_id g) g (Inr g) s2 = (res, s')" using body s2(1) by simp
        then show ?thesis
          using put_refines [OF s1 s2(2,1) wf(1) refl _ issue [OF None wf(2,3)], where event = ?event] by simp
      next
        case (Some h)
        then have "s' = s2" "?event res s' = Quiet" using body s2 by auto
        then show ?thesis using refines_quiet refines_move_same [OF s1 _ _ s2(2,1)] by simp
      qed
    qed simp
  qed
qed

lemma read_refines:
  assumes "grants.holds s gs" and "grant_transaction av body s = (res, s')"
    and "\<And>s. ae_grants (snd (body s)) = ae_grants s \<and> ae_state (snd (body s)) = ae_state s"
  shows "grants.holds s' gs"
  using assms(1) assms(2) [unfolded grant_transaction_eq]
proof (cases rule: grants.transaction_cases)
  case (ran s1)
  then show ?thesis using refines_move_same [OF assms(1) _ _ ran(2,1)] assms(3) [of s1] by simp
qed

subsection \<open>Histories\<close>

text \<open>
  One call on the engine with what it did to the grants: any operation with any arguments, clock and
  faults, a fault after the document was replaced among them; a change of the principals,
  repositories or capability profiles by others; or, on a state store, a switch to another process
  with its own memory.
\<close>

inductive authority_step ::
  "(string \<Rightarrow> string) \<Rightarrow> AuthorityEngine \<Rightarrow> grant_event \<Rightarrow> AuthorityEngine \<Rightarrow> bool" for sha256 where
  step_issue: "dt_valid (gq_issued_at_utc q) \<Longrightarrow> dt_valid (gq_expires_at_utc q) \<Longrightarrow>
    issue_grant av q s = (g, s') \<Longrightarrow> authority_step sha256 s (issue_event (gq_grant_id q) s g s') s'"
| step_consume: "av_sha256 av = sha256 \<Longrightarrow> consume_grant av i nonce request s = (d, s') \<Longrightarrow>
    authority_step sha256 s (consume_event i nonce request (av_now av) s d s') s'"
| step_revoke: "av_sha256 av = sha256 \<Longrightarrow> revoke_grant av i v s = (g, s') \<Longrightarrow>
    authority_step sha256 s (revoke_event i v s g s') s'"
| step_validate: "validate_grant av i subject repo dispatch scope write_paths capability s = (d, s') \<Longrightarrow>
    authority_step sha256 s Quiet s'"
| step_get: "get_grant av i s = (g, s') \<Longrightarrow> authority_step sha256 s Quiet s'"
| step_public: "public_grants av s = (l, s') \<Longrightarrow> authority_step sha256 s Quiet s'"
| step_authorize: "authorize av r s = (d, s') \<Longrightarrow> authority_step sha256 s Quiet s'"
| step_others: "authority_step sha256 s Quiet
    (s\<lparr>ae_principals := principals, ae_repositories := repositories, ae_capabilities := capabilities\<rparr>)"
| step_process: "ae_state s = Some st \<Longrightarrow> authority_step sha256 s Quiet (s\<lparr>ae_grants := gs\<rparr>)"

text \<open>The events of a history, the last one first.\<close>

inductive authority_run :: "(string \<Rightarrow> string) \<Rightarrow> AuthorityEngine \<Rightarrow> grant_event list \<Rightarrow> AuthorityEngine \<Rightarrow> bool"
  for sha256 s0 where
  run_start: "authority_run sha256 s0 [] s0"
| run_step: "authority_run sha256 s0 es s \<Longrightarrow> authority_step sha256 s e s' \<Longrightarrow>
    authority_run sha256 s0 (if e = Quiet then es else e # es) s'"

definition fresh_engine :: "AuthorityEngine \<Rightarrow> bool" where
  "fresh_engine s = (case ae_state s of None \<Rightarrow> ae_grants s = [] | Some st \<Rightarrow> file_at st [''grants.json''] = No_File)"

lemma validate_holds:
  assumes "grants.holds s gs"
    and "validate_grant av i subject repo dispatch scope write_paths capability s = (d, s')"
  shows "grants.holds s' gs"
proof (cases "and_then (auth_identifier subject ''subject_principal'') (\<lambda>_.
    and_then (auth_identifier repo ''repo'') (\<lambda>_. auth_capability capability))")
  case (Inl e)
  then show ?thesis using assms by (simp add: validate_grant_def op_bind_def)
next
  case (Inr u)
  show ?thesis
    by (rule read_refines [OF assms(1) assms(2) [unfolded validate_grant_def op_bind_def op_lift_def Inr, simplified]])
      (auto simp: validate_locked_def dest!: engine_principal_frame split: option.splits sum.splits prod.splits exn.splits)
qed

lemma authorize_frame: "authorize av r s = (d, s') \<Longrightarrow> ae_grants s' = ae_grants s \<and> ae_state s' = ae_state s"
  by (auto simp: authorize_def dest!: engine_principal_frame split: prod.splits sum.splits exn.splits)

lemma holds_frame:
  "ae_grants s' = ae_grants s \<Longrightarrow> ae_state s' = ae_state s \<Longrightarrow> grants.holds s gs \<Longrightarrow> grants.holds s' gs"
  by (simp add: grants.holds_def split: option.splits)

lemma step_refines:
  "authority_step sha256 s e s' \<Longrightarrow> grants.holds s gs \<Longrightarrow> refines_move sha256 e gs s'"
proof (induction rule: authority_step.induct)
  case (step_issue q av s g s')
  then show ?case using issue_refines by blast
next
  case (step_consume av i nonce request s d s')
  then show ?case using consume_refines by blast
next
  case (step_revoke av i v s g s')
  then show ?case using revoke_refines by blast
next
  case (step_validate av i subject repo dispatch scope write_paths capability s d s')
  then show ?case using validate_holds refines_quiet by blast
next
  case (step_get av i s g s')
  then show ?case using read_refines [OF step_get(2) step_get(1) [unfolded get_grant_def]] refines_quiet by simp
next
  case (step_public av s l s')
  then show ?case using read_refines [OF step_public(2) step_public(1) [unfolded public_grants_def]] refines_quiet by simp
next
  case (step_authorize av r s d s')
  then show ?case using authorize_frame holds_frame refines_quiet by blast
next
  case (step_others s principals repositories capabilities)
  then show ?case using holds_frame [of _ s] refines_quiet by simp
next
  case (step_process s st gs')
  then show ?case using refines_quiet by (simp add: grants.holds_def)
qed

text \<open>The abstract histories with their events, expiries apart, the last one first.\<close>

inductive grant_history :: "(string \<Rightarrow> string) \<Rightarrow> grant_event list \<Rightarrow> (string, DelegationGrant) dict \<Rightarrow> bool"
  for sha256 where
  history_start: "grant_history sha256 [] []"
| history_move: "grant_history sha256 es gs \<Longrightarrow> grant_move sha256 ev gs gs' \<Longrightarrow>
    grant_history sha256 (if silent ev then es else ev # es) gs'"

lemma raised_event_visible:
  "(\<And>g. f g = Quiet \<or> \<not> silent (f g)) \<Longrightarrow> raised_event s s' i f = Quiet \<or> \<not> silent (raised_event s s' i f)"
  by (simp add: raised_event_def split: option.split)

lemma event_visible:
  assumes "authority_step sha256 s e s'"
  shows "e = Quiet \<or> \<not> silent e"
proof -
  have "issue_event i t x t' = Quiet \<or> \<not> silent (issue_event i t x t')"
    "revoke_event i v t x t' = Quiet \<or> \<not> silent (revoke_event i v t x t')"
    "consume_event i nonce request now t d t' = Quiet \<or> \<not> silent (consume_event i nonce request now t d t')"
    for x i v nonce request now d t t'
    by (cases x; simp add: raised_event_visible)+ (cases d; simp add: raised_event_visible)
  then show ?thesis using assms by (elim authority_step.cases) blast+
qed

lemma run_refines:
  assumes "authority_run sha256 s0 es s" and "fresh_engine s0"
  shows "\<exists>gs. grants.holds s gs \<and> grant_history sha256 es gs"
  using assms(1)
proof (induction rule: authority_run.induct)
  case run_start
  have "grants.holds s0 []" using assms(2) by (intro grants.fresh_holds) (simp add: fresh_engine_def)
  then show ?case using history_start by blast
next
  case (run_step es s e s')
  then obtain gs where gs: "grants.holds s gs" "grant_history sha256 es gs" by blast
  obtain ev gs' where ev: "grant_move sha256 ev gs gs'" "grants.holds s' gs'" "ev = e \<or> (e = Quiet \<and> silent ev)"
    using step_refines [OF run_step(2) gs(1)] by (auto simp: refines_move_def)
  then have "(if silent ev then es else ev # es) = (if e = Quiet then es else e # es)"
    using event_visible [OF run_step(2)] by auto
  then show ?case using history_move [OF gs(2) ev(1)] ev(2) by auto
qed

text \<open>What each event of a history rests on, in the events before it.\<close>

fun spends :: "string \<Rightarrow> grant_event \<Rightarrow> bool" where
  "spends i (Consumed j _ _ _) = (i = j)"
| "spends i (Revoked j _) = (i = j)"
| "spends i _ = False"

fun justified :: "(string \<Rightarrow> string) \<Rightarrow> grant_event \<Rightarrow> grant_event list \<Rightarrow> bool" where
  "justified sha256 (Issued g) earlier = (\<forall>h. Issued h \<in> set earlier \<longrightarrow> dg_grant_id h \<noteq> dg_grant_id g)"
| "justified sha256 (Consumed i nonce request now) earlier =
     (list_all (\<lambda>e. \<not> spends i e) earlier \<and>
      (\<exists>g. Issued g \<in> set earlier \<and> dg_grant_id g = i \<and> dg_nonce_digest g = ''sha256:'' @ sha256 nonce \<and>
         dg_request_digest g = request \<and> instant now < instant (dg_expires_at_utc g)))"
| "justified sha256 (Revoked i v) earlier = (\<exists>g. Issued g \<in> set earlier \<and> dg_grant_id g = i)"
| "justified sha256 _ earlier = True"

definition backed :: "grant_event list \<Rightarrow> string \<Rightarrow> DelegationGrant \<Rightarrow> bool" where
  "backed es i g =
     ((\<exists>h. Issued h \<in> set es \<and> dg_grant_id h = i \<and> dg_nonce_digest h = dg_nonce_digest g \<and>
         dg_request_digest h = dg_request_digest g \<and> dg_expires_at_utc h = dg_expires_at_utc g) \<and>
      (dg_status g = ''active'' \<longrightarrow> list_all (\<lambda>e. \<not> spends i e) es))"

fun mentions :: "string \<Rightarrow> grant_event \<Rightarrow> bool" where
  "mentions i (Issued g) = (i = dg_grant_id g)"
| "mentions i e = spends i e"

definition history_inv :: "grant_event list \<Rightarrow> (string \<Rightarrow> DelegationGrant option) \<Rightarrow> bool" where
  "history_inv es m =
     ((\<forall>i g. m i = Some g \<longrightarrow> backed es i g) \<and> (\<forall>e i. e \<in> set es \<longrightarrow> mentions i e \<longrightarrow> m i \<noteq> None))"

lemma spends_mentions: "spends i e \<Longrightarrow> mentions i e"
  by (cases e) auto

lemma backed_Cons: "backed es i g \<Longrightarrow> \<not> spends i e \<or> dg_status g \<noteq> ''active'' \<Longrightarrow> backed (e # es) i g"
  by (auto simp: backed_def)

lemma backed_status: "backed es i g \<Longrightarrow> status \<noteq> ''active'' \<Longrightarrow> backed es i (with_status g status)"
  by (simp add: backed_def with_status_def)

lemma history_inv_status:
  assumes "history_inv es m" and "m i = Some g" and "status \<noteq> ''active''"
  shows "history_inv es (m(i \<mapsto> with_status g status))"
  using assms backed_status by (simp add: history_inv_def)

lemma history_inv_Cons:
  assumes "history_inv es m" and "\<And>j. mentions j e \<Longrightarrow> m j \<noteq> None"
    and "\<And>j g. m j = Some g \<Longrightarrow> spends j e \<Longrightarrow> dg_status g \<noteq> ''active''"
  shows "history_inv (e # es) m"
  using assms backed_Cons unfolding history_inv_def by (metis set_ConsD)

lemma history_inv_issue:
  assumes "history_inv es m" and "m (dg_grant_id g) = None"
  shows "history_inv (Issued g # es) (m(dg_grant_id g \<mapsto> g))"
proof -
  have "\<not> spends (dg_grant_id g) e" if "e \<in> set es" for e
    using assms that spends_mentions unfolding history_inv_def by blast
  then have "backed (Issued g # es) (dg_grant_id g) g" by (auto simp: backed_def list_all_iff)
  moreover have "backed (Issued g # es) i h" if "m i = Some h" for i h
    using assms(1) that backed_Cons by (simp add: history_inv_def)
  moreover have "(m(dg_grant_id g \<mapsto> g)) i \<noteq> None" if "e \<in> set (Issued g # es)" "mentions i e" for e i
    using assms(1) that by (auto simp: history_inv_def)
  ultimately show ?thesis unfolding history_inv_def by auto
qed

lemma move_justified:
  assumes "grant_move sha256 ev gs gs'" and "history_inv es (map_of gs)"
  shows "history_inv (if silent ev then es else ev # es) (map_of gs') \<and> justified sha256 ev es"
  using assms
proof (induction rule: grant_move.induct)
  case (stutter gs)
  then show ?case by simp
next
  case (expire gs i g now)
  have "history_inv es ((map_of gs)(i \<mapsto> with_status g ''expired''))"
    using history_inv_status [OF expire(4,1)] by simp
  then show ?case by (simp add: map_of_update_fun fun_upd_def)
next
  case (issue gs g)
  have "justified sha256 (Issued g) es" using issue(1,4) unfolding history_inv_def by fastforce
  then show ?case using history_inv_issue [OF issue(4,1)] by (simp add: map_of_update_fun fun_upd_def)
next
  case (consume gs i g now nonce request)
  have "backed es i g" using consume(1,6) by (simp add: history_inv_def)
  then have just: "justified sha256 (Consumed i nonce request now) es" using consume(2-5) by (auto simp: backed_def)
  have "history_inv es ((map_of gs)(i \<mapsto> with_status g ''consumed''))"
    using history_inv_status [OF consume(6,1)] by simp
  then have "history_inv (Consumed i nonce request now # es) ((map_of gs)(i \<mapsto> with_status g ''consumed''))"
    by (rule history_inv_Cons) (auto simp: with_status_def)
  then show ?case using just by (simp add: map_of_update_fun fun_upd_def)
next
  case (revoke gs i g v)
  have "backed es i g" using revoke(1,4) by (simp add: history_inv_def)
  then have just: "justified sha256 (Revoked i v) es" by (auto simp: backed_def)
  have "history_inv es ((map_of gs)(i \<mapsto> with_status g ''revoked''))"
    using history_inv_status [OF revoke(4,1)] by simp
  then have "history_inv (Revoked i v # es) ((map_of gs)(i \<mapsto> with_status g ''revoked''))"
    by (rule history_inv_Cons) (auto simp: with_status_def)
  then show ?case using just by (simp add: map_of_update_fun fun_upd_def)
next
  case (revoked gs i g v)
  have "backed es i g" using revoked(1,4) by (simp add: history_inv_def)
  then have just: "justified sha256 (Revoked i v) es" by (auto simp: backed_def)
  have "history_inv (Revoked i v # es) (map_of gs)"
    by (rule history_inv_Cons [OF revoked(4)]) (use revoked(1,3) in auto)
  then show ?case using just by simp
qed

lemma history_justified:
  assumes "grant_history sha256 es gs"
  shows "history_inv es (map_of gs) \<and> (\<forall>later e earlier. es = later @ e # earlier \<longrightarrow> justified sha256 e earlier)"
  using assms
proof (induction rule: grant_history.induct)
  case history_start
  then show ?case by (simp add: history_inv_def)
next
  case (history_move es gs ev gs')
  have move: "history_inv (if silent ev then es else ev # es) (map_of gs')" "justified sha256 ev es"
    using move_justified [OF history_move(2)] history_move(3) by auto
  show ?case using move history_move(3) by (auto simp: Cons_eq_append_conv)
qed

text \<open>
  C3. A delegation grant is used at most once, by whoever holds its secret, for what it was issued.
  The events of a history are what the calls did to the grants: every answered issue, consumption and
  revocation, and those of calls that raised although their write had replaced the document, which
  happens when the directory cannot be synced after the rename. Over any history of the engine from
  an empty grant document, with any arguments, clocks, faults and processes: when a consumption takes
  place, answered or not, an earlier call of \<open>issue_grant\<close>, answered or not, had put a grant on
  record under that id, the presented nonce hashes to its nonce digest, the request digest is its own,
  it had not expired, and no earlier call, answered or not, had consumed or revoked it.
\<close>

theorem grant_used_once:
  assumes "fresh_engine s0" and "authority_run sha256 s0 es s"
    and "es = later @ Consumed i nonce request now # earlier"
  shows "(\<exists>g. Issued g \<in> set earlier \<and> dg_grant_id g = i \<and> dg_nonce_digest g = ''sha256:'' @ sha256 nonce \<and>
      dg_request_digest g = request \<and> instant now < instant (dg_expires_at_utc g)) \<and>
    (\<forall>n r t. Consumed i n r t \<notin> set earlier) \<and> (\<forall>v. Revoked i v \<notin> set earlier)"
proof -
  have "justified sha256 (Consumed i nonce request now) earlier"
    using run_refines [OF assms(2,1)] history_justified assms(3) by blast
  then show ?thesis by (fastforce simp: list_all_iff)
qed

text \<open>
  C12. The engine refines the life cycle of grants: after any history from an empty grant document
  there is a dictionary of grants, reached by the abstract moves with the same events, that the next
  operation of any process will see. The events are those that calls answered and those of calls that
  raised with the document already replaced; a call that raised with the old document in place is no
  event, and neither are expiries.
\<close>

theorem engine_refines_grant_lifecycle:
  assumes "fresh_engine s0" and "authority_run sha256 s0 es s"
  shows "\<exists>gs. grant_history sha256 es gs \<and>
    (case ae_state s of
       None \<Rightarrow> ae_grants s = gs
     | Some st \<Rightarrow> holds_document [''grants.json''] grants_document [] st gs)"
  using run_refines [OF assms(2,1)] by (auto simp: grants.holds_def)

subsection \<open>What a grant hands on\<close>

text \<open>A path that lies, resolved inside the repository, within one of the allowed paths.\<close>

definition inside :: "authority_env \<Rightarrow> AuthorityEngine \<Rightarrow> string \<Rightarrow> string list \<Rightarrow> string \<Rightarrow> bool" where
  "inside av s repo allowed p =
     (\<exists>a \<in> set allowed. \<exists>x y. resolve_path (av_files av) (ae_repositories s) repo p = Inr x \<and>
        resolve_path (av_files av) (ae_repositories s) repo a = Inr y \<and> path_within x y)"

lemma map_result_Inr_set: "map_result f xs = Inr ys \<Longrightarrow> set ys = {y. \<exists>x \<in> set xs. f x = Inr y} \<and> (\<forall>x \<in> set xs. is_ok (f x))"
  by (induction xs arbitrary: ys) (auto simp: and_then_eq_Inr is_ok_iff)

lemma scope_allowed_inside:
  assumes "scope_allowed av s (Some repo) scope write_paths"
  shows "scope \<noteq> []" "\<forall>p \<in> set scope. is_ok (resolve_path (av_files av) (ae_repositories s) repo p)"
    "\<forall>p \<in> set write_paths. inside av s repo scope p"
proof -
  let ?f = "resolve_path (av_files av) (ae_repositories s) repo"
  obtain xs ys where xs: "map_result ?f scope = Inr xs" and ys: "map_result ?f write_paths = Inr ys"
      and "xs \<noteq> []" and all: "\<forall>y \<in> set ys. \<exists>x \<in> set xs. path_within y x"
    using assms by (auto simp: scope_allowed_def list_all_iff list_ex_iff split: sum.splits)
  then show "scope \<noteq> []" by auto
  show "\<forall>p \<in> set scope. is_ok (?f p)" using map_result_Inr_set [OF xs] by simp
  show "\<forall>p \<in> set write_paths. inside av s repo scope p"
  proof
    fix p
    assume "p \<in> set write_paths"
    then obtain y where y: "?f p = Inr y" "y \<in> set ys" using map_result_Inr_set [OF ys] unfolding is_ok_iff by blast
    then obtain x a where "path_within y x" "a \<in> set scope" "?f a = Inr x"
      using all map_result_Inr_set [OF xs] by auto
    then show "inside av s repo scope p" using y unfolding inside_def by blast
  qed
qed

lemma set_dedup [simp]: "set (dedup xs) = set xs"
  by (induction xs) auto

lemma engine_principal_Inr:
  "engine_principal av i s = (Inr p, s') \<longleftrightarrow>
     (\<exists>reg. registry_get (av_other av) (av_principal_io av) i (ae_principals s) = (Inr p, reg) \<and>
        s' = s\<lparr>ae_principals := reg\<rparr>)"
  by (auto simp: engine_principal_def split: prod.splits)

lemma grant_ttl: "DelegationGrant_init g = Inr h \<Longrightarrow>
    instant (dg_issued_at_utc g) < instant (dg_expires_at_utc g) \<and>
    instant (dg_expires_at_utc g) \<le> instant (dg_issued_at_utc g) + MAX_GRANT_TTL_SECONDS * us_per_second"
  unfolding DelegationGrant_init_def ttl_check_def Let_def and_then_eq_Inr check_eq_Inr
  using validate_utc_datetime_Inr by fastforce

lemma issue_grant_built:
  assumes "issue_grant av q s = (Inr g, s')"
  obtains s1 where "build_grant av q s = (Inr g, s1)"
proof -
  obtain g1 s1 where b: "build_grant av q s = (Inr g1, s1)" and t: "grant_transaction av (\<lambda>s.
      if map_of (ae_grants s) (dg_grant_id g1) \<noteq> None then (Inl (AuthorityError ''duplicate_grant''), s)
      else put_grant av (dg_grant_id g1) g1 (Inr g1) s) s1 = (Inr g, s')"
    using assms by (auto simp: issue_grant_def op_bind_cases)
  then have "g1 = g"
    by (auto simp: grant_transaction_def state_locked_def op_bind_cases put_grant_def split: option.splits if_splits)
  then show ?thesis using b that by simp
qed

text \<open>
  C17. A grant never hands on more than both principals may do. When \<open>issue_grant\<close> returns a grant,
  issuer and subject are the active principals of the registry, the subject is a direct child of the
  issuer in the repository of the grant, every capability of the grant belongs to the profiles of
  both, every write path lies inside a path of the scope within the repository, and the grant lives
  at most a day.
\<close>

theorem issued_grant_attenuates:
  assumes "issue_grant av q s = (Inr g, s')"
  shows "\<exists>issuer subject reg1 reg2.
    registry_get (av_other av) (av_principal_io av) (gq_issuer_principal_id q) (ae_principals s) = (Inr issuer, reg1) \<and>
    registry_get (av_other av) (av_principal_io av) (gq_subject_principal_id q) reg1 = (Inr subject, reg2) \<and>
    pn_state issuer = ''active'' \<and> pn_state subject = ''active'' \<and>
    pn_parent_principal_id subject = Some (pn_principal_id issuer) \<and>
    pn_repo_id subject = Some (dg_repo_id g) \<and> pn_repo_id issuer \<in> {None, Some (dg_repo_id g)} \<and>
    dg_capabilities g \<noteq> [] \<and>
    set (dg_capabilities g) \<subseteq> set (capabilities_of s issuer) \<inter> set (capabilities_of s subject) \<and>
    list_all (inside av s (dg_repo_id g) (dg_scope g)) (dg_write_paths g) \<and>
    instant (dg_issued_at_utc g) < instant (dg_expires_at_utc g) \<and>
    instant (dg_expires_at_utc g) \<le> instant (dg_issued_at_utc g) + 86400 * us_per_second"
proof -
  obtain s1 where "build_grant av q s = (Inr g, s1)" by (rule issue_grant_built [OF assms])
  then obtain issuer subject s2 where p: "engine_principal av (gq_issuer_principal_id q) s = (Inr issuer, s2)"
      "engine_principal av (gq_subject_principal_id q) s2 = (Inr subject, s1)"
    and c: "checked_grant av s1 q issuer subject = Inr g"
    by (rule build_grant_Inr)
  note checked = checked_grant_Inr [OF c]
  obtain reg1 reg2 where reg: "registry_get (av_other av) (av_principal_io av) (gq_issuer_principal_id q) (ae_principals s) = (Inr issuer, reg1)"
      "registry_get (av_other av) (av_principal_io av) (gq_subject_principal_id q) reg1 = (Inr subject, reg2)"
    using p by (auto simp: engine_principal_Inr)
  have same: "capabilities_of s1 = capabilities_of s" "inside av s1 = inside av s"
    using engine_principal_frame [OF p(1)] engine_principal_frame [OF p(2)]
    by (auto simp: capabilities_of_def inside_def fun_eq_iff)
  have "list_all (inside av s (dg_repo_id g) (dg_scope g)) (dg_write_paths g)"
    using scope_allowed_inside(3) [OF checked(13)] same(2) unfolding checked(14) by (simp add: list_all_iff)
  moreover have "dg_capabilities g \<noteq> []" "set (dg_capabilities g) = set (gq_capabilities q)" "dg_repo_id g = gq_repo_id q"
    using checked(11) unfolding checked(14) by (simp_all add: sort_Nil)
  ultimately show ?thesis
    using reg checked(6-10,12) same(1) grant_ttl [OF checked(1)] unfolding MAX_GRANT_TTL_SECONDS_def by auto
qed

subsection \<open>Decisions\<close>

lemma any_within_Inr:
  "any_within resolve v allowed = Inr b \<Longrightarrow>
     b = (\<exists>a \<in> set allowed. \<exists>x y. resolve v = Inr x \<and> resolve a = Inr y \<and> path_within x y)"
proof (induction allowed)
  case (Cons a allowed)
  obtain x y where xy: "resolve v = Inr x" "resolve a = Inr y"
      "(if path_within x y then Inr True else any_within resolve v allowed) = Inr b"
    using Cons.prems by (auto simp: and_then_eq_Inr)
  then show ?case using Cons.IH by (cases "path_within x y") auto
qed simp

lemma all_within_Inr:
  "all_within resolve values allowed = Inr b \<Longrightarrow>
     b = (\<forall>v \<in> set values. \<exists>a \<in> set allowed. \<exists>x y. resolve v = Inr x \<and> resolve a = Inr y \<and> path_within x y)"
  by (induction resolve "values" allowed rule: all_within.induct)
    (auto simp: and_then_eq_Inr dest!: any_within_Inr split: if_splits)

lemma grant_covers_Inr:
  assumes "grant_covers av s i g scope write_paths = Inr d"
  shows "ad_allowed d = (list_all (inside av s (dg_repo_id g) (dg_scope g)) scope \<and>
    list_all (inside av s (dg_repo_id g) (dg_write_paths g)) write_paths)"
proof -
  let ?f = "resolve_path (av_files av) (ae_repositories s) (dg_repo_id g)"
  obtain b where b: "all_within ?f scope (dg_scope g) = Inr b"
    using assms by (auto simp: grant_covers_def Let_def and_then_eq_Inr)
  have b': "b = list_all (inside av s (dg_repo_id g) (dg_scope g)) scope"
    using all_within_Inr [OF b] by (simp add: inside_def list_all_iff)
  show ?thesis
  proof (cases b)
    case True
    then obtain c where c: "all_within ?f write_paths (dg_write_paths g) = Inr c"
      using assms b by (auto simp: grant_covers_def Let_def and_then_eq_Inr)
    have "c = list_all (inside av s (dg_repo_id g) (dg_write_paths g)) write_paths"
      using all_within_Inr [OF c] by (simp add: inside_def list_all_iff)
    then show ?thesis using assms b c b' True by (auto simp: grant_covers_def Let_def decision_Inr split: if_splits)
  next
    case False
    then show ?thesis using assms b b' by (auto simp: grant_covers_def Let_def decision_Inr)
  qed
qed

definition verified ::
  "authority_env \<Rightarrow> AuthorityEngine \<Rightarrow> DelegationGrant \<Rightarrow> string list \<Rightarrow> string list \<Rightarrow> bool" where
  "verified av s g scope write_paths =
     (scope_allowed av s (Some (dg_repo_id g)) scope write_paths \<and>
      list_all (inside av s (dg_repo_id g) (dg_scope g)) scope \<and>
      list_all (inside av s (dg_repo_id g) (dg_write_paths g)) write_paths)"

lemma denied: "decision False c i = Inr d \<Longrightarrow> \<not> ad_allowed d"
  by (simp add: decision_Inr)

lemma validate_body:
  assumes "validate_grant av i who repo dispatch scope write_paths capability s = (Inr d, s')"
  obtains s1 where "ae_principals s1 = ae_principals s"
    "validate_locked av i who repo dispatch scope write_paths capability s1 = (Inr d, s')"
  using assms unfolding validate_grant_def grant_transaction_def state_locked_def
  by (auto simp: op_bind_cases dest!: load_grants_locked_frame split: option.splits)

lemma engine_principal_error:
  "engine_principal av who s = (Inl e, s') \<Longrightarrow>
     (case engine_principal av who s of
        (Inl (PrincipalError m), s) \<Rightarrow> (decision False c (Some i), s)
      | (Inl e, s) \<Rightarrow> (Inl e, s)
      | (Inr p, s) \<Rightarrow> F p s) = (Inr d, s'') \<Longrightarrow> \<not> ad_allowed d \<and> s'' = s'"
  by (cases e) (auto dest: denied)

lemma validate_locked_allowed:
  assumes "validate_locked av i who repo dispatch scope write_paths capability s = (Inr d, s')"
  shows "ad_allowed d \<longleftrightarrow>
    (\<exists>g p. map_of (ae_grants s') i = Some g \<and> dg_status g = ''active'' \<and>
       instant (av_now av) < instant (dg_expires_at_utc g) \<and>
       engine_principal av who s = (Inr p, s') \<and> pn_state p = ''active'' \<and>
       dg_subject_principal_id g = who \<and> dg_repo_id g = repo \<and> dg_dispatch_id g = dispatch \<and>
       capability \<in> set (dg_capabilities g) \<and> verified av s' g scope write_paths)"
proof (cases "map_of (ae_grants s) i")
  case None
  then have "s' = s" "\<not> ad_allowed d" using assms by (auto simp: validate_locked_def dest: denied)
  then show ?thesis using None by simp
next
  case (Some g)
  show ?thesis
  proof (cases "dg_status g = ''active'' \<and> instant (av_now av) < instant (dg_expires_at_utc g)")
    case False
    then have "s' = s" "\<not> ad_allowed d"
      using assms Some by (auto simp: validate_locked_def dest: denied dest!: safe_now_Inr split: sum.splits if_splits)
    then show ?thesis using Some False by auto
  next
    case True
    then obtain now where now: "safe_now av = Inr now" using assms Some by (auto simp: validate_locked_def split: sum.splits)
    have live: "\<not> instant (dg_expires_at_utc g) \<le> instant now" using safe_now_Inr [OF now] True by simp
    obtain r s1 where p: "engine_principal av who s = (r, s1)" by (cases "engine_principal av who s")
    have g: "map_of (ae_grants s1) i = Some g" using engine_principal_frame [OF p] Some by simp
    show ?thesis
    proof (cases r)
      case (Inl e)
      then have "\<not> ad_allowed d \<and> s' = s1"
        using assms Some True now live p engine_principal_error [of av who s e s1] by (simp add: validate_locked_def)
      then show ?thesis using p Inl by simp
    next
      case (Inr subject)
      then have body: "s' = s1" "(if pn_state subject \<noteq> ''active'' then decision False ''principal_inactive'' (Some i)
           else if dg_subject_principal_id g \<noteq> who \<or> dg_repo_id g \<noteq> repo \<or>
                   dg_dispatch_id g \<noteq> dispatch \<or> capability \<notin> set (dg_capabilities g)
           then decision False ''grant_binding_mismatch'' (Some i)
           else if \<not> scope_allowed av s1 (Some repo) scope write_paths then decision False ''scope_denied'' (Some i)
           else grant_covers av s1 i g scope write_paths) = Inr d"
        using assms Some True now live p by (simp_all add: validate_locked_def)
      then show ?thesis
        using g True p Inr by (auto simp: verified_def dest: denied dest!: grant_covers_Inr split: if_splits)
    qed
  qed
qed

lemma validate_locked_frame:
  "validate_locked av i who repo dispatch scope write_paths capability s = (r, s') \<Longrightarrow>
     s' = s\<lparr>ae_principals := ae_principals s'\<rparr>"
  by (cases s) (auto simp: validate_locked_def engine_principal_def split: option.splits if_splits sum.splits prod.splits exn.splits)

text \<open>
  C27. A grant is verified for exactly what it was issued for. Whenever \<open>validate_grant\<close> decides, it
  allows if and only if the grant is on record, active and not expired, the presenting principal is
  registered and active, subject, repository, dispatch and capability are those of the grant, all
  write paths lie in the presented scope, and scope and write paths lie inside those of the grant.
\<close>

theorem validate_grant_exact:
  assumes "validate_grant av i who repo dispatch scope write_paths capability s = (Inr d, s')"
  shows "ad_allowed d \<longleftrightarrow>
    (\<exists>g p. map_of (ae_grants s') i = Some g \<and> dg_status g = ''active'' \<and>
       instant (av_now av) < instant (dg_expires_at_utc g) \<and>
       registry_get (av_other av) (av_principal_io av) who (ae_principals s) = (Inr p, ae_principals s') \<and>
       pn_state p = ''active'' \<and>
       dg_subject_principal_id g = who \<and> dg_repo_id g = repo \<and> dg_dispatch_id g = dispatch \<and>
       capability \<in> set (dg_capabilities g) \<and> verified av s' g scope write_paths)"
proof -
  obtain s1 where s1: "ae_principals s1 = ae_principals s"
      "validate_locked av i who repo dispatch scope write_paths capability s1 = (Inr d, s')"
    by (rule validate_body [OF assms])
  have "s' = s1\<lparr>ae_principals := ae_principals s'\<rparr>" by (rule validate_locked_frame [OF s1(2)])
  then have "engine_principal av who s1 = (Inr p, s') \<longleftrightarrow>
      registry_get (av_other av) (av_principal_io av) who (ae_principals s) = (Inr p, ae_principals s')" for p
    using s1(1) unfolding engine_principal_Inr by (metis AuthorityEngine.select_convs(1) AuthorityEngine.surjective AuthorityEngine.update_convs(1))
  then show ?thesis using validate_locked_allowed [OF s1(2)] by simp
qed

lemma scope_allowed_resolves:
  assumes "scope_allowed av s (Some repo) scope write_paths" and "p \<in> set scope \<union> set write_paths"
  shows "\<exists>binding base rest. map_of (ae_repositories s) repo = Some binding \<and>
    env_resolve_strict (av_files av) (pp_parts (rp_local_root binding)) = Some base \<and>
    resolve_path (av_files av) (ae_repositories s) repo p = Inr (base @ rest)"
proof -
  have "is_ok (resolve_path (av_files av) (ae_repositories s) repo p)"
    using assms scope_allowed_inside [OF assms(1)] by (auto simp: inside_def is_ok_iff)
  then show ?thesis
    by (auto simp: is_ok_iff resolve_path_Inr repository_get_def need_Inr split: if_splits)
qed

text \<open>
  C35. Authorization stays inside the actor's own repository. A request is authorized only for a
  registered, active principal whose profile has the capability and that is bound to the repository
  of the request; a global principal is never authorized. All paths of the request resolve below
  the root of that repository, and every write path lies inside a path of the scope.
\<close>

theorem authorization_confined:
  assumes "authorize av r s = (Inr d, s')" and "ad_allowed d"
  shows "\<exists>actor reg repo binding base.
    registry_get (av_other av) (av_principal_io av) (aq_actor_principal_id r) (ae_principals s) = (Inr actor, reg) \<and>
    pn_state actor = ''active'' \<and> aq_capability r \<in> set (capabilities_of s actor) \<and>
    pn_repo_id actor = Some repo \<and> aq_repo_id r = Some repo \<and> map_of (ae_repositories s) repo = Some binding \<and>
    env_resolve_strict (av_files av) (pp_parts (rp_local_root binding)) = Some base \<and>
    (\<forall>p \<in> set (aq_scope r) \<union> set (aq_write_paths r).
       \<exists>rest. resolve_path (av_files av) (ae_repositories s) repo p = Inr (base @ rest)) \<and>
    list_all (inside av s repo (aq_scope r)) (aq_write_paths r)"
proof -
  obtain res s1 where p: "engine_principal av (aq_actor_principal_id r) s = (res, s1)"
    by (cases "engine_principal av (aq_actor_principal_id r) s")
  obtain actor where actor: "res = Inr actor"
  proof (cases res)
    case (Inl e)
    then have "\<not> ad_allowed d" using assms(1) p by (cases e) (auto simp: authorize_def dest: denied)
    then show ?thesis using assms(2) by simp
  qed (use that in simp)
  have frame: "ae_repositories s1 = ae_repositories s" "capabilities_of s1 actor = capabilities_of s actor"
      "inside av s1 = inside av s"
    using engine_principal_frame [OF p] by (simp_all add: capabilities_of_def inside_def fun_eq_iff)
  have ok: "pn_state actor = ''active''" "aq_capability r \<in> set (capabilities_of s actor)"
      "aq_repo_id r = pn_repo_id actor" "scope_allowed av s1 (aq_repo_id r) (aq_scope r) (aq_write_paths r)"
    using assms p actor frame(2) by (auto simp: authorize_def dest: denied split: if_splits)
  obtain repo where repo: "aq_repo_id r = Some repo" using ok(4) by (auto simp: scope_allowed_def split: option.splits)
  note allowed = ok(4) [unfolded repo]
  obtain x where "x \<in> set (aq_scope r)" using scope_allowed_inside(1) [OF allowed] by (cases "aq_scope r") auto
  then obtain binding base where base: "map_of (ae_repositories s) repo = Some binding"
      "env_resolve_strict (av_files av) (pp_parts (rp_local_root binding)) = Some base"
    using scope_allowed_resolves [OF allowed, of x] frame(1) by auto
  have "\<exists>rest. resolve_path (av_files av) (ae_repositories s) repo p = Inr (base @ rest)"
    if "p \<in> set (aq_scope r) \<union> set (aq_write_paths r)" for p
    using scope_allowed_resolves [OF allowed that] base frame(1) by auto
  moreover have "list_all (inside av s repo (aq_scope r)) (aq_write_paths r)"
    using scope_allowed_inside(3) [OF allowed] frame(3) by (simp add: list_all_iff)
  moreover obtain reg where "registry_get (av_other av) (av_principal_io av) (aq_actor_principal_id r) (ae_principals s) = (Inr actor, reg)"
    using p actor by (auto simp: engine_principal_Inr)
  moreover have "pn_repo_id actor = Some repo" using ok(3) repo by simp
  ultimately show ?thesis using ok(1,2) base repo by blast
qed

subsection \<open>Witnesses\<close>

definition sample_engine :: AuthorityEngine where
  "sample_engine =
     \<lparr>ae_principals = queen_registry None, ae_repositories = sample_repositories,
      ae_capabilities = [(''root'', [''repo.write'', ''repo.read'']), (''queen'', [''repo.write''])],
      ae_state = None, ae_grants = []\<rparr>"

definition zeros :: "string \<Rightarrow> string" where
  "zeros _ = replicate 64 (CHR ''0'')"

definition sample_authority :: authority_env where
  "sample_authority =
     \<lparr>av_other = any_time, av_principal_io = no_fault, av_io = no_fault, av_files = plain_environment,
      av_sha256 = zeros, av_now = utc_at 200\<rparr>"

definition sample_grant_request :: grant_request where
  "sample_grant_request =
     \<lparr>gq_grant_id = ''grant-1'', gq_issuer_principal_id = ''godbee-main'', gq_subject_principal_id = ''queen-1'',
      gq_repo_id = ''repo'', gq_dispatch_id = None, gq_capabilities = [''repo.write''], gq_scope = [''src''],
      gq_write_paths = [''src/a''], gq_max_delegation_depth = 1, gq_issued_at_utc = utc_at 100,
      gq_expires_at_utc = utc_at 300, gq_nonce = ''n'', gq_request_digest = sample_digest\<rparr>"

definition sample_grant :: DelegationGrant where
  "sample_grant =
     \<lparr>dg_schema_version = PInt 1, dg_grant_id = ''grant-1'', dg_issuer_principal_id = ''godbee-main'',
      dg_subject_principal_id = ''queen-1'', dg_repo_id = ''repo'', dg_dispatch_id = None,
      dg_capabilities = [''repo.write''], dg_scope = [''src''], dg_write_paths = [''src/a''],
      dg_max_delegation_depth = PInt 1, dg_issued_at_utc = utc_at 100, dg_expires_at_utc = utc_at 300,
      dg_nonce_digest = sample_digest, dg_request_digest = sample_digest, dg_status = ''active'', dg_version = 1\<rparr>"

lemma sample_issue:
  "issue_grant sample_authority sample_grant_request sample_engine =
     (Inr sample_grant, sample_engine\<lparr>ae_grants := [(''grant-1'', sample_grant)]\<rparr>)"
  by code_simp

lemma sample_consume:
  "consume_grant sample_authority ''grant-1'' ''n'' sample_digest (sample_engine\<lparr>ae_grants := [(''grant-1'', sample_grant)]\<rparr>) =
     (Inr \<lparr>ad_allowed = True, ad_reason_code = ''grant_consumed'', ad_grant_id = Some ''grant-1''\<rparr>,
      sample_engine\<lparr>ae_grants := [(''grant-1'', with_status sample_grant ''consumed'')]\<rparr>)"
  by code_simp

lemma sample_validate:
  "validate_grant sample_authority ''grant-1'' ''queen-1'' ''repo'' None [''src/a''] [''src/a''] ''repo.write''
     (sample_engine\<lparr>ae_grants := [(''grant-1'', sample_grant)]\<rparr>) =
     (Inr \<lparr>ad_allowed = True, ad_reason_code = ''grant_verified'', ad_grant_id = Some ''grant-1''\<rparr>,
      sample_engine\<lparr>ae_grants := [(''grant-1'', sample_grant)]\<rparr>)"
  by code_simp

lemma sample_times: "dt_valid (gq_issued_at_utc sample_grant_request)" "dt_valid (gq_expires_at_utc sample_grant_request)"
  by (simp_all add: dt_valid_def sample_grant_request_def utc_at_def time_consts)

lemma sample_fresh: "fresh_engine sample_engine"
  by (simp add: fresh_engine_def sample_engine_def)

lemma sample_run:
  "authority_run zeros sample_engine [Consumed ''grant-1'' ''n'' sample_digest (utc_at 200), Issued sample_grant]
     (sample_engine\<lparr>ae_grants := [(''grant-1'', with_status sample_grant ''consumed'')]\<rparr>)"
proof -
  have "authority_run zeros sample_engine [Issued sample_grant] (sample_engine\<lparr>ae_grants := [(''grant-1'', sample_grant)]\<rparr>)"
    using run_step [OF run_start step_issue [OF sample_times sample_issue]] by simp
  moreover have "authority_step zeros (sample_engine\<lparr>ae_grants := [(''grant-1'', sample_grant)]\<rparr>)
      (Consumed ''grant-1'' ''n'' sample_digest (utc_at 200))
      (sample_engine\<lparr>ae_grants := [(''grant-1'', with_status sample_grant ''consumed'')]\<rparr>)"
    using step_consume [OF _ sample_consume, of zeros] by (simp add: sample_authority_def)
  ultimately show ?thesis using run_step by fastforce
qed

text \<open>
  A history with a fault after the rename: \<open>issue_grant\<close> raises, the grant is on record all the same,
  and the next call consumes it.
\<close>

definition stored_state :: "(string, DelegationGrant) dict \<Rightarrow> HiveStateStore" where
  "stored_state gs = \<lparr>hs_read_only = False, hs_files =
     (if gs = [] then []
      else [([''grants.json''], Bytes (json_size (PDict (grants_document gs)) + 1) (Some (PDict (grants_document gs))))])\<rparr>"

definition stored_engine :: "(string, DelegationGrant) dict \<Rightarrow> AuthorityEngine" where
  "stored_engine gs = sample_engine\<lparr>ae_grants := gs, ae_state := Some (stored_state gs)\<rparr>"

lemma stored_engine_simps [simp]:
  "ae_grants (stored_engine gs) = gs" "ae_state (stored_engine gs) = Some (stored_state gs)"
  "(stored_engine gs)\<lparr>ae_grants := hs, ae_state := Some (stored_state hs)\<rparr> = stored_engine hs"
  by (simp_all add: stored_engine_def)

definition unsynced_authority :: authority_env where
  "unsynced_authority = sample_authority\<lparr>av_io := no_fault\<lparr>si_unsynced := True\<rparr>\<rparr>"

lemma stored_put:
  assumes "encode (grants_document (AList.update i g gs)) = Inr n" and "av_io av = no_fault\<lparr>si_unsynced := b\<rparr>"
  shows "put_grant av i g x (stored_engine gs) =
    (if b then Inl (HiveStateError ''state_write_failed'') else x, stored_engine (AList.update i g gs))"
proof -
  let ?gs = "AList.update i g gs"
  have new: "?gs \<noteq> []" using dom_update [of i g gs] by force
  have path: "state_path (av_io av) grants_path = Inr [''grants.json'']"
    using assms(2) by (simp add: grants_path_ok no_fault_def)
  have "write_file [''grants.json''] (Bytes n (Some (PDict (grants_document ?gs)))) (stored_state gs) = stored_state ?gs"
    using assms(1) new by (simp add: stored_state_def write_file_def encode_Inr)
  then have "replace_json_locked (av_io av) grants_path (grants_document ?gs) (stored_state gs) =
      (if b then Inl (HiveStateError ''state_write_failed'') else Inr (), stored_state ?gs)"
    using assms path
    by (simp add: replace_json_locked_def op_bind_def atomic_replace_def ensure_writable_def directory_sync_def
        no_fault_def file_at_def check_def stored_state_def)
  then show ?thesis by (simp add: put_grant_def persist_grants_def op_bind_def)
qed

lemma stored_transaction:
  assumes "grants_inv gs" and "gs \<noteq> [] \<longrightarrow> is_ok (encode (grants_document gs))" and "av_io av = no_fault\<lparr>si_unsynced := b\<rparr>"
  shows "grant_transaction av body (stored_engine gs) = body (stored_engine gs)"
proof -
  have path: "state_path (av_io av) grants_path = Inr [''grants.json'']"
    using assms(3) by (simp add: grants_path_ok no_fault_def)
  have "read_json_locked (av_io av) grants_path (4 * 1024 * 1024) (stored_state gs) =
      (if gs = [] then Inl (HiveStateError ''state_not_found'') else Inr (grants_document gs))"
    using assms(2,3) path
    by (auto simp: read_json_locked_def validate_limit_def MAX_HIVE_STATE_BYTES_def check_def read_bytes_def
        stored_state_def file_at_def no_fault_def is_ok_iff encode_Inr)
  then have "load_grants_locked av (stored_state gs) (stored_engine gs) = (Inr (), stored_engine gs)"
    using load_grants_payloads [where s = "(stored_engine gs)\<lparr>ae_grants := []\<rparr>" and gs = gs and other = "av_other av"]
      grants_inv_entries [OF assms(1)] assms(1)
    by (auto simp: load_grants_locked_def Let_def grants_document_def py_get_def grants_inv_def)
  then show ?thesis
    using assms(3) by (simp add: grant_transaction_def state_locked_def op_bind_def no_fault_def)
qed

lemma sample_grant_wf: "grant_wf sample_grant"
proof -
  have "DelegationGrant_init sample_grant = Inr sample_grant" by code_simp
  then show ?thesis by (simp add: grant_wf_def dt_valid_def sample_grant_def utc_at_def time_consts)
qed

lemma sample_document_encoded:
  assumes "g = sample_grant \<or> g = with_status sample_grant ''consumed''"
  shows "\<exists>n. encode (grants_document [(''grant-1'', g)]) = Inr n"
proof -
  have "json_size (grant_payload g) \<le> 1000"
    using assms json_iso_size [of "utc_at 100"] json_iso_size [of "utc_at 300"]
    unfolding grant_payload_def sample_grant_def with_status_def sample_digest_def
    by (elim disjE) (simp_all add: digits_of.simps str_list_def, simp_all add: json_str_size_def json_char_size_def sum_list_replicate)
  moreover have "json_dumpable (grant_payload g)"
    using assms by (auto simp: grant_payload_def sample_grant_def with_status_def str_list_def)
  ultimately show ?thesis
    by (simp add: encode_Inr grants_document_def MAX_HIVE_STATE_BYTES_def digits_of.simps json_str_size_def json_char_size_def)
qed

lemma unsynced_issue:
  "issue_grant unsynced_authority sample_grant_request (stored_engine []) =
     (Inl (HiveStateError ''state_write_failed''), stored_engine [(''grant-1'', sample_grant)])"
proof -
  have io: "av_io unsynced_authority = no_fault\<lparr>si_unsynced := True\<rparr>" by (simp add: unsynced_authority_def)
  have "build_grant unsynced_authority sample_grant_request (stored_engine []) = (Inr sample_grant, stored_engine [])"
    by code_simp
  moreover have "dg_grant_id sample_grant = ''grant-1''" by (simp add: sample_grant_def)
  moreover have "\<exists>n. encode (grants_document (AList.update ''grant-1'' sample_grant [])) = Inr n"
    using sample_document_encoded by simp
  ultimately show ?thesis
    using stored_put [OF _ io, of "''grant-1''" sample_grant "[]"]
    by (auto simp: issue_grant_def op_bind_def stored_transaction [OF _ _ io] grants_inv_def)
qed

lemma sample_consumable:
  "safe_now sample_authority = Inr (utc_at 200)" "\<not> instant (dg_expires_at_utc sample_grant) \<le> instant (utc_at 200)"
  "digest_secret sample_authority ''n'' = Inr (dg_nonce_digest sample_grant)"
  "is_sha256_digest sample_digest" "dg_request_digest sample_grant = sample_digest" "dg_status sample_grant = ''active''"
  "replaced_grant sample_grant ''consumed'' = Inr (with_status sample_grant ''consumed'')"
  by code_simp+

lemma unanswered_grant_consumed:
  "consume_grant sample_authority ''grant-1'' ''n'' sample_digest (stored_engine [(''grant-1'', sample_grant)]) =
     (Inr \<lparr>ad_allowed = True, ad_reason_code = ''grant_consumed'', ad_grant_id = Some ''grant-1''\<rparr>,
      stored_engine [(''grant-1'', with_status sample_grant ''consumed'')])"
proof -
  have io: "av_io sample_authority = no_fault\<lparr>si_unsynced := False\<rparr>" by (simp add: sample_authority_def no_fault_def)
  have id: "dg_grant_id sample_grant = ''grant-1''" by (simp add: sample_grant_def)
  then have "grants_inv [(''grant-1'', sample_grant)]" using sample_grant_wf by (simp add: grants_inv_def)
  then have run: "grant_transaction sample_authority body (stored_engine [(''grant-1'', sample_grant)]) =
      body (stored_engine [(''grant-1'', sample_grant)])" for body :: "(AuthorityEngine, AuthorityDecision) op"
    using stored_transaction [OF _ _ io] sample_document_encoded [of sample_grant] by (auto simp: is_ok_iff)
  have made: "decision True ''grant_consumed'' (Some ''grant-1'') =
      Inr \<lparr>ad_allowed = True, ad_reason_code = ''grant_consumed'', ad_grant_id = Some ''grant-1''\<rparr>"
    using decision_made [OF reasons_ok(1) grant_wf_id [OF sample_grant_wf]] id by simp
  have "put_grant sample_authority ''grant-1'' (with_status sample_grant ''consumed'') x (stored_engine [(''grant-1'', sample_grant)]) =
      (x, stored_engine [(''grant-1'', with_status sample_grant ''consumed'')])" for x :: "AuthorityDecision result"
    using stored_put [OF _ io, of "''grant-1''" "with_status sample_grant ''consumed''" "[(''grant-1'', sample_grant)]"]
      sample_document_encoded [of "with_status sample_grant ''consumed''"] by auto
  then show ?thesis
    using sample_consumable(2) by (simp add: consume_grant_def run consume_active_def sample_consumable made)
qed

lemma stored_run:
  "authority_run zeros (stored_engine []) [Consumed ''grant-1'' ''n'' sample_digest (utc_at 200), Issued sample_grant]
     (stored_engine [(''grant-1'', with_status sample_grant ''consumed'')])"
proof -
  have "authority_step zeros (stored_engine []) (Issued sample_grant) (stored_engine [(''grant-1'', sample_grant)])"
    using step_issue [OF sample_times unsynced_issue, of zeros]
    by (simp add: raised_event_def sample_grant_request_def stored_state_def)
  then have "authority_run zeros (stored_engine []) [Issued sample_grant] (stored_engine [(''grant-1'', sample_grant)])"
    using run_step [OF run_start] by fastforce
  moreover have "authority_step zeros (stored_engine [(''grant-1'', sample_grant)])
      (Consumed ''grant-1'' ''n'' sample_digest (utc_at 200))
      (stored_engine [(''grant-1'', with_status sample_grant ''consumed'')])"
    using step_consume [OF _ unanswered_grant_consumed, of zeros] by (simp add: sample_authority_def)
  ultimately show ?thesis using run_step by fastforce
qed

lemma stored_fresh: "fresh_engine (stored_engine [])"
  by (simp add: fresh_engine_def stored_state_def file_at_def)

theorem grant_used_once_witness:
  "fst (issue_grant unsynced_authority sample_grant_request (stored_engine [])) = Inl (HiveStateError ''state_write_failed'') \<and>
   fst (consume_grant sample_authority ''grant-1'' ''n'' sample_digest (stored_engine [(''grant-1'', sample_grant)])) =
     Inr \<lparr>ad_allowed = True, ad_reason_code = ''grant_consumed'', ad_grant_id = Some ''grant-1''\<rparr> \<and>
   (\<forall>v. Revoked ''grant-1'' v \<notin> set [Issued sample_grant]) \<and>
   (\<exists>g. Issued g \<in> set [Issued sample_grant] \<and> dg_nonce_digest g = ''sha256:'' @ zeros ''n'')"
  using grant_used_once [OF stored_fresh stored_run, of "[]"] unsynced_issue unanswered_grant_consumed by auto

theorem engine_refines_grant_lifecycle_witness:
  "grant_history zeros [Consumed ''grant-1'' ''n'' sample_digest (utc_at 200), Issued sample_grant]
     [(''grant-1'', with_status sample_grant ''consumed'')]"
  using engine_refines_grant_lifecycle [OF sample_fresh sample_run] by (simp add: sample_engine_def)

theorem issued_grant_attenuates_witness:
  "set (dg_capabilities sample_grant) \<subseteq> {''repo.write''} \<and>
   list_all (inside sample_authority sample_engine ''repo'' [''src'']) [''src/a'']"
  using issued_grant_attenuates [OF sample_issue] by (auto simp: sample_grant_def)

theorem validate_grant_exact_witness:
  "\<exists>g. map_of [(''grant-1'', sample_grant)] ''grant-1'' = Some g \<and> instant (utc_at 200) < instant (dg_expires_at_utc g)"
  using validate_grant_exact [OF sample_validate] by (auto simp: sample_authority_def)

definition sample_request :: AuthorityRequest where
  "sample_request =
     \<lparr>aq_actor_principal_id = ''queen-1'', aq_capability = ''repo.write'', aq_repo_id = Some ''repo'',
      aq_dispatch_id = None, aq_workpackage_id = None, aq_scope = [''src''], aq_write_paths = [''src/a'']\<rparr>"

lemma sample_authorize:
  "authorize sample_authority sample_request sample_engine =
     (Inr \<lparr>ad_allowed = True, ad_reason_code = ''authorized'', ad_grant_id = None\<rparr>, sample_engine)"
  by code_simp

theorem authorization_confined_witness:
  "\<exists>base rest. resolve_path plain_environment sample_repositories ''repo'' ''src/a'' = Inr (base @ rest) \<and>
     list_all (inside sample_authority sample_engine ''repo'' [''src'']) [''src/a'']"
  using authorization_confined [OF sample_authorize]
  by (auto simp: sample_request_def sample_authority_def sample_engine_def)

end
