(* ===== verification/Hive_Admission.thy ===== *)
theory Hive_Admission
  imports Queen_Assignment Admission_Properties Authority_Properties
begin

text \<open>
  \<open>hive/admission.py\<close>: the one place where an assignment plan, a work package, a delegation grant
  and the repository registry meet to become an admission record, and what such a record proves
  about its authority.
\<close>

text \<open>
  Equality of grants as the data class compares them: times as instants, the schema version and the
  depth as numbers.
\<close>

fun py_number :: "pyval \<Rightarrow> rat option" where
  "py_number (PInt i) = Some (of_int i)"
| "py_number (PBool b) = Some (if b then 1 else 0)"
| "py_number (PFloat q) = Some q"
| "py_number _ = None"

definition py_num_eq :: "pyval \<Rightarrow> pyval \<Rightarrow> bool" where
  "py_num_eq x y = (case py_number x of None \<Rightarrow> x = y | Some q \<Rightarrow> py_number y = Some q)"

definition grant_eq :: "DelegationGrant \<Rightarrow> DelegationGrant \<Rightarrow> bool" where
  "grant_eq g h =
     (py_num_eq (dg_schema_version g) (dg_schema_version h) \<and> dg_grant_id g = dg_grant_id h \<and>
      dg_issuer_principal_id g = dg_issuer_principal_id h \<and>
      dg_subject_principal_id g = dg_subject_principal_id h \<and> dg_repo_id g = dg_repo_id h \<and>
      dg_dispatch_id g = dg_dispatch_id h \<and> dg_capabilities g = dg_capabilities h \<and> dg_scope g = dg_scope h \<and>
      dg_write_paths g = dg_write_paths h \<and>
      py_num_eq (dg_max_delegation_depth g) (dg_max_delegation_depth h) \<and>
      instant (dg_issued_at_utc g) = instant (dg_issued_at_utc h) \<and>
      instant (dg_expires_at_utc g) = instant (dg_expires_at_utc h) \<and>
      dg_nonce_digest g = dg_nonce_digest h \<and> dg_request_digest g = dg_request_digest h \<and>
      dg_status g = dg_status h \<and> dg_version g = dg_version h)"

text \<open>\<open>except (OSError, RuntimeError, ValueError)\<close>\<close>

fun authority_unavailable :: "exn \<Rightarrow> bool" where
  "authority_unavailable KeyError = False"
| "authority_unavailable TypeError = False"
| "authority_unavailable OverflowError = False"
| "authority_unavailable AttributeError = False"
| "authority_unavailable (OtherError m) = (m = ''OSError'' \<or> m = ''RuntimeError'')"
| "authority_unavailable _ = True"

definition refuse :: "string \<Rightarrow> exn" where
  "refuse m = HiveAdmissionError m"

definition binding_checks ::
  "QueenAssignmentPlan \<Rightarrow> WorkPackage \<Rightarrow> AssignmentIntent \<Rightarrow> DelegationGrant \<Rightarrow> AdmissionPriority \<Rightarrow> unit result" where
  "binding_checks p w i g priority =
     and_then (check (qp_mode p = ''enforced'') (refuse ''assignment_shadow_only'')) (\<lambda>_.
     and_then (check (gates_ready p) (refuse ''assignment_gate_blocked'')) (\<lambda>_.
     and_then (check (wp_state w \<in> set [''ready'', ''queued'', ''admission_planned''])
                 (refuse ''workpackage_not_admissible'')) (\<lambda>_.
     and_then (check (qp_workpackage_id p = wp_workpackage_id w \<and> qp_dispatch_id p = wp_dispatch_id w \<and>
                      qp_teamlead_principal_id p = wp_owner_teamlead_principal_id w \<and>
                      qp_scope p = wp_scope w \<and> qp_write_paths p = wp_write_paths w)
                 (refuse ''workpackage_binding_mismatch'')) (\<lambda>_.
     and_then (check (ai_dispatch_id i = qp_dispatch_id p \<and> ai_workpackage_id i = qp_workpackage_id p \<and>
                      ai_repo_id i = qp_repo_id p \<and> ai_parent_principal_id i = qp_teamlead_principal_id p \<and>
                      ai_grant_id i = dg_grant_id g \<and> ai_class_id i = qp_writer_class_id p \<and>
                      ai_task_complexity i = qp_task_complexity p \<and>
                      DispatchPriority_value (ai_dispatch_priority i) = pr_dispatch priority)
                 (refuse ''assignment_intent_mismatch'')) (\<lambda>_.
       check (dg_issuer_principal_id g = qp_teamlead_principal_id p \<and>
              dg_subject_principal_id g = qp_specialist_principal_id p \<and> dg_repo_id g = qp_repo_id p \<and>
              dg_dispatch_id g = Some (qp_dispatch_id p))
         (refuse ''grant_binding_mismatch''))))))"

definition binding_mode :: "WorkPackage \<Rightarrow> string" where
  "binding_mode w = (if wp_write_paths w \<noteq> [] then ''write'' else ''read'')"

definition binding_paths :: "WorkPackage \<Rightarrow> string list" where
  "binding_paths w = (if wp_write_paths w \<noteq> [] then wp_write_paths w else wp_scope w)"

text \<open>The authoritative reads of the \<open>try\<close> block: the grant on record, its validation, the scope digest.\<close>

definition authoritative_reads ::
  "authority_env \<Rightarrow> RepositoryRegistry \<Rightarrow> QueenAssignmentPlan \<Rightarrow> WorkPackage \<Rightarrow> DelegationGrant \<Rightarrow> string \<Rightarrow>
   (AuthorityEngine, DelegationGrant \<times> AuthorityDecision \<times> string) op" where
  "authoritative_reads av repositories p w g capability =
     op_bind (get_grant av (dg_grant_id g)) (\<lambda>current.
     op_bind (validate_grant av (dg_grant_id current) (qp_specialist_principal_id p) (qp_repo_id p)
                (Some (qp_dispatch_id p)) (wp_scope w) (wp_write_paths w) capability) (\<lambda>d.
     op_bind (op_lift (scope_digest (av_sha256 av) (av_files av) repositories (qp_repo_id p)
                (binding_mode w) (binding_paths w))) (\<lambda>digest.
       op_lift (Inr (current, d, digest)))))"

definition create_assignment_admission ::
  "authority_env \<Rightarrow> (pyval \<Rightarrow> string) \<Rightarrow> RepositoryRegistry \<Rightarrow> QueenAssignmentPlan \<Rightarrow> WorkPackage \<Rightarrow>
   AssignmentIntent \<Rightarrow> DelegationGrant \<Rightarrow> string \<Rightarrow> LeaseBinding \<Rightarrow> string \<Rightarrow> int \<Rightarrow> AdmissionPriority \<Rightarrow>
   py_datetime \<Rightarrow> string \<Rightarrow> int \<Rightarrow> (AuthorityEngine, AdmissionRecord) op" where
  "create_assignment_admission av canonical repositories p w i g admission_id lease_context budget_key
     expected_usage_micro priority now capability ttl_seconds s =
     (case binding_checks p w i g priority of
        Inl e \<Rightarrow> (Inl e, s)
      | Inr _ \<Rightarrow>
          (case authoritative_reads av repositories p w g capability s of
             (Inl e, s) \<Rightarrow>
               (Inl (if authority_unavailable e then refuse ''authoritative_admission_unavailable'' else e), s)
           | (Inr (current, d, digest), s) \<Rightarrow>
               (and_then (check (grant_eq current g) (refuse ''grant_state_changed'')) (\<lambda>_.
                and_then (check (ad_allowed d) (refuse (ad_reason_code d))) (\<lambda>_.
                and_then (ScopeBinding_init \<lparr>sb_mode = binding_mode w, sb_paths = binding_paths w,
                            sb_canonical_digest = digest\<rparr>) (\<lambda>scope.
                and_then (ResourceBinding_init \<lparr>rb_agent_id = qp_agent_id p, rb_account_key = qp_account_key p,
                            rb_budget_key = budget_key, rb_model_id = qp_model_id p,
                            rb_expected_usage_micro = expected_usage_micro,
                            rb_account_pool_binding = qp_account_pool_binding p\<rparr>) (\<lambda>resource.
                  create_admission admission_id (ai_request_id i) (qp_dispatch_id p) (qp_workpackage_id p)
                    (ai_assignment_intent_id i) (qp_repo_id p) (qp_specialist_principal_id p)
                    (qp_teamlead_principal_id p) (dg_grant_id current)
                    (binding_digest (av_sha256 av) canonical current) (wp_version w) scope resource
                    lease_context priority now ttl_seconds)))), s)))"

subsection \<open>What a record proves\<close>

lemma active_grant_issued:
  assumes "grant_history sha256 es gs" and "map_of gs i = Some g" and "dg_status g = ''active''"
  shows "Issued g \<in> set es \<and> dg_grant_id g = i"
  using assms
proof (induction rule: grant_history.induct)
  case (history_move es gs ev gs')
  have kept: "Issued g \<in> set es \<and> dg_grant_id g = i" if "map_of gs i = Some g"
    using history_move(3,5) that by blast
  from history_move(2,4,5) show ?case
    by (cases rule: grant_move.cases) (auto simp: with_status_def dest: kept split: if_splits)
qed simp

lemma get_grant_holds:
  assumes "grants.holds s gs" and "get_grant av i s = (Inr g, s')"
  shows "map_of gs i = Some g \<and> grants.holds s' gs \<and> ae_principals s' = ae_principals s"
proof -
  have "ae_principals s' = ae_principals s"
    using assms(2) unfolding get_grant_def grant_transaction_def state_locked_def
    by (auto simp: op_bind_cases dest!: load_grants_locked_frame split: option.splits)
  moreover have "grants.holds s' gs"
    using read_refines [OF assms(1) assms(2) [unfolded get_grant_def]] by simp
  moreover have "map_of gs i = Some g"
    using assms(1) assms(2) [unfolded get_grant_def grant_transaction_eq]
    by (cases rule: grants.transaction_cases) (auto simp: need_Inr)
  ultimately show ?thesis by simp
qed

lemma validate_body_holds:
  assumes "grants.holds s gs"
    and "validate_grant av i who repo dispatch scope write_paths capability s = (Inr d, s')"
  shows "ae_grants s' = gs"
proof -
  have "grant_transaction av (validate_locked av i who repo dispatch scope write_paths capability) s = (Inr d, s')"
    using assms(2) by (auto simp: validate_grant_def op_bind_cases op_lift_def)
  with assms(1) show ?thesis
    unfolding grant_transaction_eq
  proof (cases rule: grants.transaction_cases)
    case (ran s1)
    have "ae_grants s' = ae_grants s1" using validate_locked_frame [OF ran(3)] by (metis AuthorityEngine.select_convs(5) AuthorityEngine.surjective AuthorityEngine.update_convs(1))
    with ran(1) show ?thesis by simp
  qed simp
qed

text \<open>The grant that a successful validation rests on, in terms of the grants of the store.\<close>

lemma validate_allowed_holds:
  assumes "grants.holds s gs" and "map_of gs i = Some g"
    and "validate_grant av i who repo dispatch scope write_paths capability s = (Inr d, s')" and "ad_allowed d"
  shows "dg_status g = ''active'' \<and> instant (av_now av) < instant (dg_expires_at_utc g) \<and>
    (\<exists>p. registry_get (av_other av) (av_principal_io av) who (ae_principals s) = (Inr p, ae_principals s') \<and>
       pn_state p = ''active'') \<and>
    capability \<in> set (dg_capabilities g) \<and> verified av s' g scope write_paths"
proof -
  obtain s1 where s1: "ae_principals s1 = ae_principals s"
      "validate_locked av i who repo dispatch scope write_paths capability s1 = (Inr d, s')"
    by (rule validate_body [OF assms(3)])
  have "map_of (ae_grants s') i = Some g" using validate_body_holds [OF assms(1,3)] assms(2) by simp
  then show ?thesis
    using validate_locked_allowed [OF s1(2)] assms(4) s1(1) by (auto simp: engine_principal_Inr)
qed

lemma create_admission_Inr:
  assumes "create_admission a rq dp wp ai rp pr pa gr gd v scope resource lease priority now ttl = Inr r"
  shows "ar_dispatch_id r = dp \<and> ar_workpackage_id r = wp \<and> ar_repo_id r = rp \<and> ar_principal_id r = pr \<and>
    ar_parent_principal_id r = pa \<and> ar_grant_id r = gr \<and> ar_grant_digest r = gd \<and>
    ar_work_item_version r = v \<and> ar_scope r = scope \<and> ar_resource r = resource \<and>
    ar_state r = PLANNED \<and> ar_revision r = 0 \<and>
    instant (ar_expires_at_utc r) = instant now + ttl * us_per_second \<and> ttl \<le> MAX_RESERVATION_TTL_SECONDS"
  using assms
  by (auto simp: create_admission_def AdmissionRecord_init_def result_simps adm_aware_def bounded_int_def
      dest!: plus_seconds_Inr split: if_splits option.splits)

lemma init_same:
  "ScopeBinding_init b = Inr b' \<Longrightarrow> b' = b" "ResourceBinding_init q = Inr q' \<Longrightarrow> q' = q"
  by (auto simp: ScopeBinding_init_def ResourceBinding_init_def result_simps)

lemma binding_checks_Inr:
  assumes "binding_checks p w i g priority = Inr u"
  shows "qp_mode p = ''enforced'' \<and> gates_ready p \<and> wp_state w \<in> {''ready'', ''queued'', ''admission_planned''} \<and>
    qp_workpackage_id p = wp_workpackage_id w \<and> qp_dispatch_id p = wp_dispatch_id w \<and>
    dg_issuer_principal_id g = qp_teamlead_principal_id p \<and>
    dg_subject_principal_id g = qp_specialist_principal_id p \<and> dg_repo_id g = qp_repo_id p \<and>
    dg_dispatch_id g = Some (qp_dispatch_id p)"
  using assms by (auto simp: binding_checks_def result_simps)

lemma assignment_admission_cases:
  assumes "create_assignment_admission av canonical repositories p w i g a lease budget usage priority now capability ttl s =
      (Inr r, s')"
  obtains current d digest scope resource where
    "binding_checks p w i g priority = Inr ()"
    "authoritative_reads av repositories p w g capability s = (Inr (current, d, digest), s')"
    "grant_eq current g" "ad_allowed d"
    "ar_scope r = \<lparr>sb_mode = binding_mode w, sb_paths = binding_paths w, sb_canonical_digest = digest\<rparr>"
    "create_admission a (ai_request_id i) (qp_dispatch_id p) (qp_workpackage_id p) (ai_assignment_intent_id i)
       (qp_repo_id p) (qp_specialist_principal_id p) (qp_teamlead_principal_id p) (dg_grant_id current)
       (binding_digest (av_sha256 av) canonical current) (wp_version w) scope resource lease priority now ttl = Inr r"
proof (cases "binding_checks p w i g priority")
  case (Inr u)
  obtain x where x: "authoritative_reads av repositories p w g capability s = (x, s')"
    using assms Inr by (auto simp: create_assignment_admission_def split: prod.splits sum.splits)
  then obtain current d digest where "x = Inr (current, d, digest)"
    using assms Inr by (auto simp: create_assignment_admission_def split: sum.splits)
  with assms Inr x that show ?thesis
    by (auto simp: create_assignment_admission_def result_simps dest!: init_same
        dest: create_admission_Inr)
qed (use assms in \<open>simp add: create_assignment_admission_def\<close>)

lemma reads_run:
  assumes "authority_run (av_sha256 av) s0 es s"
    and "authoritative_reads av repositories p w g capability s = (Inr x, s')"
  shows "authority_run (av_sha256 av) s0 es s'"
proof -
  have quiet: "authority_run (av_sha256 av) s0 es s2"
    if "authority_run (av_sha256 av) s0 es s1" "authority_step (av_sha256 av) s1 Quiet s2" for s1 s2
    using run_step [OF that] by simp
  show ?thesis
    using assms(2) quiet [OF quiet [OF assms(1)]] step_get step_validate
    by (fastforce simp: authoritative_reads_def op_bind_cases op_lift_def)
qed

lemma verified_paths:
  assumes "verified av s g (wp_scope w) (wp_write_paths w)"
  shows "list_all (inside av s (dg_repo_id g) (if binding_mode w = ''write'' then dg_write_paths g else dg_scope g))
    (binding_paths w)"
  using assms by (simp add: verified_def binding_mode_def binding_paths_def)

text \<open>
  C5. An assignment becomes an admission only under living authority. After any history of the
  authority engine, faults included, when an admission record is created for a plan, the plan was
  enforced with every gate open; the record names a grant that a call of \<open>issue_grant\<close> put on record
  in that history, whether the call returned or raised after its document was in place, and that no
  call consumed or revoked, unexpired at that moment, whose digest the record carries, handed by the record's parent
  to its principal, an active one, for the record's repository and dispatch, with the requested
  capability; every path of the record lies inside the paths of that grant, and the scope digest is
  that of these paths. The record starts planned, for at most two minutes, and creating it is no
  event of the history.
\<close>

theorem assignment_admission_authorized:
  assumes "fresh_engine s0" and "authority_run (av_sha256 av) s0 es s"
    and "create_assignment_admission av canonical repositories p w i g a lease budget usage priority now capability ttl s =
      (Inr r, s')"
  shows "qp_mode p = ''enforced'' \<and> gates_ready p \<and> authority_run (av_sha256 av) s0 es s' \<and>
    (\<exists>h. Issued h \<in> set es \<and> (\<forall>n q t. Consumed (ar_grant_id r) n q t \<notin> set es) \<and>
       (\<forall>v. Revoked (ar_grant_id r) v \<notin> set es) \<and> instant (av_now av) < instant (dg_expires_at_utc h) \<and>
       ar_grant_id r = dg_grant_id h \<and> ar_grant_digest r = binding_digest (av_sha256 av) canonical h \<and>
       ar_parent_principal_id r = dg_issuer_principal_id h \<and> ar_principal_id r = dg_subject_principal_id h \<and>
       ar_repo_id r = dg_repo_id h \<and> Some (ar_dispatch_id r) = dg_dispatch_id h \<and>
       capability \<in> set (dg_capabilities h) \<and>
       list_all (inside av s' (ar_repo_id r) (if sb_mode (ar_scope r) = ''write'' then dg_write_paths h else dg_scope h))
         (sb_paths (ar_scope r))) \<and>
    (\<exists>pn reg. registry_get (av_other av) (av_principal_io av) (ar_principal_id r) (ae_principals s) = (Inr pn, reg) \<and>
       pn_state pn = ''active'') \<and>
    scope_digest (av_sha256 av) (av_files av) repositories (ar_repo_id r) (sb_mode (ar_scope r)) (sb_paths (ar_scope r)) =
      Inr (sb_canonical_digest (ar_scope r)) \<and>
    ar_state r = PLANNED \<and> ar_workpackage_id r = wp_workpackage_id w \<and> ar_work_item_version r = wp_version w \<and>
    instant (ar_expires_at_utc r) \<le> instant now + 120 * us_per_second"
proof -
  obtain current d digest scope resource where
    c: "binding_checks p w i g priority = Inr ()"
      "authoritative_reads av repositories p w g capability s = (Inr (current, d, digest), s')"
      "grant_eq current g" "ad_allowed d"
      "ar_scope r = \<lparr>sb_mode = binding_mode w, sb_paths = binding_paths w, sb_canonical_digest = digest\<rparr>"
      "create_admission a (ai_request_id i) (qp_dispatch_id p) (qp_workpackage_id p) (ai_assignment_intent_id i)
       (qp_repo_id p) (qp_specialist_principal_id p) (qp_teamlead_principal_id p) (dg_grant_id current)
       (binding_digest (av_sha256 av) canonical current) (wp_version w) scope resource lease priority now ttl = Inr r"
    by (rule assignment_admission_cases [OF assms(3)])
  obtain s1 where reads: "get_grant av (dg_grant_id g) s = (Inr current, s1)"
      "validate_grant av (dg_grant_id current) (qp_specialist_principal_id p) (qp_repo_id p)
         (Some (qp_dispatch_id p)) (wp_scope w) (wp_write_paths w) capability s1 = (Inr d, s')"
      "scope_digest (av_sha256 av) (av_files av) repositories (qp_repo_id p) (binding_mode w) (binding_paths w) = Inr digest"
    using c(2) by (auto simp: authoritative_reads_def op_bind_cases op_lift_def)
  obtain gs where gs: "grants.holds s gs" "grant_history (av_sha256 av) es gs"
    using run_refines [OF assms(2,1)] by blast
  have g: "map_of gs (dg_grant_id g) = Some current" "grants.holds s1 gs" "ae_principals s1 = ae_principals s"
    using get_grant_holds [OF gs(1) reads(1)] by auto
  have same: "dg_grant_id current = dg_grant_id g" using c(3) by (simp add: grant_eq_def)
  note live = validate_allowed_holds [OF g(2) g(1) [folded same] reads(2) c(4)]
  have issued: "Issued current \<in> set es" "dg_grant_id current = dg_grant_id g"
    using active_grant_issued [OF gs(2) g(1)] live by auto
  have "backed es (dg_grant_id g) current" using history_justified [OF gs(2)] g(1) by (simp add: history_inv_def)
  then have unspent: "\<forall>n q t. Consumed (dg_grant_id g) n q t \<notin> set es" "\<forall>v. Revoked (dg_grant_id g) v \<notin> set es"
    using live by (fastforce simp: backed_def list_all_iff)+
  have eq: "dg_issuer_principal_id current = qp_teamlead_principal_id p"
      "dg_subject_principal_id current = qp_specialist_principal_id p" "dg_repo_id current = qp_repo_id p"
      "dg_dispatch_id current = Some (qp_dispatch_id p)"
    using binding_checks_Inr [OF c(1)] c(3) by (auto simp: grant_eq_def)
  note fields = create_admission_Inr [OF c(6)]
  have repo: "ar_repo_id r = dg_repo_id current" "ar_repo_id r = qp_repo_id p" using fields eq by simp_all
  then have "list_all (inside av s' (ar_repo_id r) (if sb_mode (ar_scope r) = ''write'' then dg_write_paths current else dg_scope current))
         (sb_paths (ar_scope r))"
    using verified_paths [of av s' current w] live by (simp add: c(5))
  moreover have "scope_digest (av_sha256 av) (av_files av) repositories (ar_repo_id r) (sb_mode (ar_scope r))
      (sb_paths (ar_scope r)) = Inr (sb_canonical_digest (ar_scope r))"
    using reads(3) by (simp add: c(5) repo(2))
  moreover have "instant (ar_expires_at_utc r) \<le> instant now + 120 * us_per_second"
    using fields by (simp add: MAX_RESERVATION_TTL_SECONDS_def us_per_second_def)
  ultimately show ?thesis
    using binding_checks_Inr [OF c(1)] reads_run [OF assms(2) c(2)] issued unspent live eq fields g(3)
    by (intro conjI exI [of _ current]) auto
qed

subsection \<open>Witness\<close>

definition pilot_principal :: "string \<Rightarrow> string \<Rightarrow> string \<Rightarrow> Principal" where
  "pilot_principal i class_id parent =
     \<lparr>pn_principal_id = i, pn_class_id = class_id, pn_parent_principal_id = Some parent,
      pn_authority_profile = ''pilot'', pn_scope_kind = ''repository'', pn_repo_id = Some ''codex-master'',
      pn_state = ''active'', pn_config_digest = sample_digest, pn_version = 1, pn_created_at_utc = None\<rparr>"

definition pilot_repositories :: RepositoryRegistry where
  "pilot_repositories = [(''codex-master'', sample_repository\<lparr>rp_repo_id := ''codex-master''\<rparr>)]"

definition pilot_engine :: AuthorityEngine where
  "pilot_engine =
     \<lparr>ae_principals = \<lparr>pg_principals = [(''lead'', pilot_principal ''lead'' ''teamleiterin'' ''queen-codex-master''),
          (''spec'', pilot_principal ''spec'' ''spezialistin'' ''lead'')], pg_bindings = [], pg_state = None\<rparr>,
      ae_repositories = pilot_repositories, ae_capabilities = [(''pilot'', [''hive.specialist.assign''])],
      ae_state = None, ae_grants = []\<rparr>"

definition pilot_grant_request :: grant_request where
  "pilot_grant_request =
     \<lparr>gq_grant_id = ''grant-1'', gq_issuer_principal_id = ''lead'', gq_subject_principal_id = ''spec'',
      gq_repo_id = ''codex-master'', gq_dispatch_id = Some ''d'', gq_capabilities = [''hive.specialist.assign''],
      gq_scope = [''src''], gq_write_paths = [''src/a''], gq_max_delegation_depth = 0,
      gq_issued_at_utc = utc_at 100, gq_expires_at_utc = utc_at 300, gq_nonce = ''n'',
      gq_request_digest = sample_digest\<rparr>"

definition pilot_grant :: DelegationGrant where
  "pilot_grant =
     \<lparr>dg_schema_version = PInt 1, dg_grant_id = ''grant-1'', dg_issuer_principal_id = ''lead'',
      dg_subject_principal_id = ''spec'', dg_repo_id = ''codex-master'', dg_dispatch_id = Some ''d'',
      dg_capabilities = [''hive.specialist.assign''], dg_scope = [''src''], dg_write_paths = [''src/a''],
      dg_max_delegation_depth = PInt 0, dg_issued_at_utc = utc_at 100, dg_expires_at_utc = utc_at 300,
      dg_nonce_digest = sample_digest, dg_request_digest = sample_digest, dg_status = ''active'', dg_version = 1\<rparr>"

definition granted_engine :: AuthorityEngine where
  "granted_engine = pilot_engine\<lparr>ae_grants := [(''grant-1'', pilot_grant)]\<rparr>"

definition pilot_work :: work_mapping where
  "pilot_work =
     [(''task_complexity'', Plain (PStr ''simple'')), (''scope'', Plain (PList [PStr ''src''])),
      (''write_paths'', Plain (PList [PStr ''src/a''])), (''workpackage_id'', Plain (PStr ''w'')),
      (''repo_id'', Plain (PStr ''codex-master'')), (''teamlead_principal_id'', Plain (PStr ''lead'')),
      (''specialist_principal_id'', Plain (PStr ''spec'')), (''writer_class_id'', Plain (PStr ''spezialistin'')),
      (''agent_id'', Plain (PStr ''agent'')), (''account_key'', Plain (PStr ''account'')),
      (''model_id'', Plain (PStr ''gpt-5'')), (''model_role'', Plain (PStr ''primary'')),
      (''mode'', Plain (PStr ''enforced''))] @ map (\<lambda>g. (g, Plain (PBool True))) GATE_NAMES"

definition pilot_plan :: QueenAssignmentPlan where
  "pilot_plan =
     \<lparr>qp_queen_principal_id = ''queen-codex-master'', qp_dispatch_id = ''d'', qp_workpackage_id = ''w'',
      qp_repo_id = ''codex-master'', qp_teamlead_principal_id = ''lead'', qp_specialist_principal_id = ''spec'',
      qp_writer_class_id = ''spezialistin'', qp_agent_id = ''agent'', qp_account_key = ''account'',
      qp_model_id = ''gpt-5'', qp_model_role = ''primary'', qp_task_complexity = SIMPLE, qp_scope = [''src''],
      qp_write_paths = [''src/a''], qp_mode = ''enforced'', qp_pilot_enabled = True, qp_account_confirmed = True,
      qp_authority_verified = True, qp_repository_verified = True, qp_scope_verified = True,
      qp_lease_available = True, qp_selection_band = ''none'', qp_account_pool_binding = None\<rparr>"

definition pilot_package :: WorkPackage where
  "pilot_package =
     \<lparr>wp_workpackage_id = ''w'', wp_dispatch_id = ''d'', wp_owner_teamlead_principal_id = ''lead'',
      wp_objective = ''objective'', wp_scope = [''src''], wp_write_paths = [''src/a''], wp_success_criteria = [],
      wp_test_requirements = [], wp_release_policy = ''none'', wp_depends_on_workpackage_ids = [],
      wp_resource_profile = [], wp_state = ''queued'', wp_ready_since_utc = None, wp_version = 3\<rparr>"

definition pilot_intent :: AssignmentIntent where
  "pilot_intent =
     \<lparr>ai_assignment_intent_id = ''i'', ai_request_id = ''q'', ai_dispatch_id = ''d'', ai_workpackage_id = ''w'',
      ai_repo_id = ''codex-master'', ai_parent_principal_id = ''lead'', ai_grant_id = ''grant-1'',
      ai_class_id = ''spezialistin'', ai_dispatch_priority = DP1, ai_task_complexity = SIMPLE,
      ai_model_policy_constraints = [], ai_scope_reservation_request = [], ai_expected_usage_bucket = ''b'',
      ai_decision_refs = [], ai_context_digest = ''digest''\<rparr>"

definition pilot_admission :: "(AuthorityEngine, AdmissionRecord) op" where
  "pilot_admission =
     create_assignment_admission sample_authority (\<lambda>_. ''grant'') pilot_repositories pilot_plan pilot_package
       pilot_intent pilot_grant ''adm'' \<lparr>lb_expected_state = ''free'', lb_lease_id = None\<rparr> ''budget'' 5
       \<lparr>pr_dispatch = ''DP1'', pr_selection_reason = ''reason''\<rparr> (utc_at 200) ''hive.specialist.assign'' 30"

lemma pilot_plan_made: "plan_queen_assignment (PStr ''queen-codex-master'') (PStr ''d'') pilot_work = Inr pilot_plan"
  by code_simp

lemma pilot_issue: "issue_grant sample_authority pilot_grant_request pilot_engine = (Inr pilot_grant, granted_engine)"
  by code_simp

lemma pilot_admitted: "\<exists>r. pilot_admission granted_engine = (Inr r, granted_engine)"
proof -
  have "is_ok (fst (pilot_admission granted_engine)) \<and> snd (pilot_admission granted_engine) = granted_engine"
    by code_simp
  then show ?thesis by (cases "pilot_admission granted_engine"; cases "fst (pilot_admission granted_engine)") auto
qed

lemma pilot_run: "authority_run (av_sha256 sample_authority) pilot_engine [Issued pilot_grant] granted_engine"
proof -
  have "dt_valid (gq_issued_at_utc pilot_grant_request)" "dt_valid (gq_expires_at_utc pilot_grant_request)"
    by (simp_all add: dt_valid_def pilot_grant_request_def utc_at_def time_consts)
  then show ?thesis using run_step [OF run_start step_issue [OF _ _ pilot_issue]] by simp
qed

theorem assignment_admission_authorized_witness:
  "\<exists>r. pilot_admission granted_engine = (Inr r, granted_engine) \<and> ar_grant_id r = ''grant-1'' \<and>
     Issued pilot_grant \<in> set [Issued pilot_grant] \<and> ar_principal_id r = ''spec'' \<and> ar_state r = PLANNED \<and>
     instant (ar_expires_at_utc r) \<le> instant (utc_at 200) + 120 * us_per_second"
proof -
  obtain r where r: "pilot_admission granted_engine = (Inr r, granted_engine)" using pilot_admitted by blast
  have "fresh_engine pilot_engine" by (simp add: fresh_engine_def pilot_engine_def)
  from assignment_admission_authorized [OF this pilot_run r [unfolded pilot_admission_def]] r show ?thesis
    by (auto simp: pilot_grant_def)
qed

end
