(* ===== verification/Decisions.thy ===== *)
theory Decisions
  imports Principals File_Admission
begin

text \<open>
  \<open>hive/decisions.py\<close>: decision records, their authorization and the chain of their hashes.
  SHA-256 and the canonical JSON text that is hashed are parameters, \<open>sha256\<close> and \<open>canonical\<close>; of
  the text, the chain relies on \<open>json.dumps\<close> giving different payloads different texts.
\<close>

definition DECISION_STATES :: "string list" where
  "DECISION_STATES = [''proposed'', ''accepted'', ''rejected'', ''superseded'']"

definition ROLES_GLOBAL :: "string list" where
  "ROLES_GLOBAL = [''gottbiene'', ''godbee'']"

definition ROLES_REPOSITORY :: "string list" where
  "ROLES_REPOSITORY = [''koenigin'', ''queen'', ''teamleiterin'', ''teamlead'']"

definition MAX_DECISION_BYTES :: nat where
  "MAX_DECISION_BYTES = 256 * 1024"

definition decision_id_check :: "pyval \<Rightarrow> string \<Rightarrow> string result" where
  "decision_id_check v fld =
     rescue (validate_identifier v fld) (\<lambda>e. case e of HiveValidationError m \<Rightarrow> Inl (DecisionError m) | _ \<Rightarrow> Inl e)"

fun decision_text :: "pyval \<Rightarrow> string \<Rightarrow> nat \<Rightarrow> string result" where
  "decision_text (PStr s) fld maximum =
     (if text_ok maximum s then Inr s else Inl (DecisionError (''invalid_'' @ fld)))"
| "decision_text _ fld maximum = Inl (DecisionError (''invalid_'' @ fld))"

definition decision_digest :: "string \<Rightarrow> string \<Rightarrow> unit result" where
  "decision_digest s fld = check (is_sha256_digest s) (DecisionError (''invalid_'' @ fld))"

definition decision_refs :: "string list \<Rightarrow> string \<Rightarrow> string list result" where
  "decision_refs xs fld =
     and_then (check (length xs \<le> 128) (DecisionError (''invalid_'' @ fld))) (\<lambda>_.
       map_result (\<lambda>x. decision_text (PStr x) fld 512) xs)"

text \<open>An option of a decision is a mapping; the constructor keeps its two known entries.\<close>

type_synonym decision_option = "(string \<times> pyval) list"

record DecisionRecord =
  dr_decision_id :: string
  dr_scope_kind :: string
  dr_repo_id :: "string option"
  dr_topic :: string
  dr_status :: string
  dr_options :: "decision_option list"
  dr_selected_option_id :: "string option"
  dr_rationale :: string
  dr_evidence_refs :: "string list"
  dr_created_by :: string
  dr_approved_by :: "string list"
  dr_created_at_utc :: py_datetime
  dr_supersedes :: "string option"
  dr_previous_record_hash :: "string option"
  dr_record_hash :: "string option"

definition decision_record_public :: "DecisionRecord \<Rightarrow> pyval" where
  "decision_record_public r = PDict
     [(''schema_version'', PInt 1), (''decision_id'', PStr (dr_decision_id r)),
      (''scope'', PDict [(''kind'', PStr (dr_scope_kind r)), (''repo_id'', opt_str (dr_repo_id r))]),
      (''topic'', PStr (dr_topic r)), (''status'', PStr (dr_status r)),
      (''options'', PList (map PDict (dr_options r))),
      (''selected_option_id'', opt_str (dr_selected_option_id r)), (''rationale'', PStr (dr_rationale r)),
      (''evidence_refs'', PList (map PStr (dr_evidence_refs r))), (''created_by'', PStr (dr_created_by r)),
      (''approved_by'', PList (map PStr (dr_approved_by r))),
      (''created_at_utc'', PStr (isoformat (dr_created_at_utc r))),
      (''supersedes'', opt_str (dr_supersedes r)),
      (''previous_record_hash'', opt_str (dr_previous_record_hash r)),
      (''record_hash'', opt_str (dr_record_hash r))]"

text \<open>\<open>json.dumps\<close> with its default separators writes a space after every comma and colon.\<close>

fun json_spaces :: "pyval \<Rightarrow> int" where
  "json_spaces (PList xs) = int (length xs - 1) + sum_list (map json_spaces xs)"
| "json_spaces (PDict d) = int (length d - 1) + int (length d) + sum_list (map (\<lambda>(_, v). json_spaces v) d)"
| "json_spaces _ = 0"

definition freeze_option :: "decision_option \<Rightarrow> decision_option result" where
  "freeze_option opt =
     and_then (check (set (map fst opt) \<subseteq> {''option_id'', ''summary''}) (DecisionError ''invalid_decision_option'')) (\<lambda>_.
     and_then (decision_id_check (py_get opt ''option_id'' PNone) ''option'') (\<lambda>option_id.
     and_then (decision_text (py_get opt ''summary'' PNone) ''option_summary'' 1024) (\<lambda>summary.
       Inr [(''option_id'', PStr option_id), (''summary'', PStr summary)])))"

definition when_given :: "('a \<Rightarrow> 'b result) \<Rightarrow> 'a option \<Rightarrow> unit result" where
  "when_given f x = (case x of None \<Rightarrow> Inr () | Some v \<Rightarrow> and_then (f v) (\<lambda>_. Inr ()))"

definition scope_check :: "string \<Rightarrow> string option \<Rightarrow> unit result" where
  "scope_check kind repo_id =
     and_then (check (kind \<in> set [''global'', ''repository'']) (DecisionError ''invalid_decision_scope'')) (\<lambda>_.
     and_then (check (\<not> (kind = ''global'' \<and> repo_id \<noteq> None)) (DecisionError ''global_decision_has_repository'')) (\<lambda>_.
       check (\<not> (kind = ''repository'' \<and> repo_id = None)) (DecisionError ''repository_decision_missing_repository'')))"

definition DecisionRecord_init :: "DecisionRecord \<Rightarrow> DecisionRecord result" where
  "DecisionRecord_init r =
     and_then (decision_id_check (PStr (dr_decision_id r)) ''decision'') (\<lambda>_.
     and_then (scope_check (dr_scope_kind r) (dr_repo_id r)) (\<lambda>_.
     and_then (when_given (\<lambda>s. decision_id_check (PStr s) ''repo'') (dr_repo_id r)) (\<lambda>_.
     and_then (decision_text (PStr (dr_topic r)) ''decision_topic'' 512) (\<lambda>_.
     and_then (check (dr_status r \<in> set DECISION_STATES) (DecisionError ''invalid_decision_status'')) (\<lambda>_.
     and_then (check (length (dr_options r) \<le> 64) (DecisionError ''invalid_decision_options'')) (\<lambda>_.
     and_then (map_result freeze_option (dr_options r)) (\<lambda>options.
     and_then (when_given (\<lambda>s.
         and_then (decision_id_check (PStr s) ''selected_option'') (\<lambda>_.
           check (list_ex (\<lambda>opt. map_of opt ''option_id'' = Some (PStr s)) options)
             (DecisionError ''selected_option_not_found''))) (dr_selected_option_id r)) (\<lambda>_.
     and_then (decision_text (PStr (dr_rationale r)) ''decision_rationale'' MAX_DECISION_BYTES) (\<lambda>_.
     and_then (decision_refs (dr_evidence_refs r) ''evidence_refs'') (\<lambda>_.
     and_then (decision_id_check (PStr (dr_created_by r)) ''creator'') (\<lambda>_.
     and_then (check (length (dr_approved_by r) \<le> 32) (DecisionError ''invalid_approvers'')) (\<lambda>_.
     and_then (map_result (\<lambda>a. decision_id_check (PStr a) ''approver'') (dr_approved_by r)) (\<lambda>_.
     and_then (rescue (validate_utc_datetime (dr_created_at_utc r) ''decision_timestamp'')
         (\<lambda>e. case e of HiveValidationError m \<Rightarrow> Inl (DecisionError m) | _ \<Rightarrow> Inl e)) (\<lambda>_.
     and_then (when_given (\<lambda>s. decision_id_check (PStr s) ''superseded_decision'') (dr_supersedes r)) (\<lambda>_.
     and_then (when_given (\<lambda>s. decision_digest s ''previous_record_hash'') (dr_previous_record_hash r)) (\<lambda>_.
     and_then (when_given (\<lambda>s. decision_digest s ''record_hash'') (dr_record_hash r)) (\<lambda>_.
       let frozen = r\<lparr>dr_options := options\<rparr>; payload = decision_record_public frozen
       in if json_size payload + json_spaces payload > int MAX_DECISION_BYTES
          then Inl (DecisionError ''decision_oversize'') else Inr frozen)))))))))))))))))"

subsection \<open>Recording\<close>

definition decision_authorized :: "DecisionRecord \<Rightarrow> Principal \<Rightarrow> unit result" where
  "decision_authorized r actor =
     and_then (check (pn_state actor = ''active'' \<and> dr_created_by r = pn_principal_id actor)
                 (DecisionError ''decision_actor_unauthorized'')) (\<lambda>_.
     and_then (check (pn_class_id actor \<in> set (if dr_scope_kind r = ''global'' then ROLES_GLOBAL else ROLES_REPOSITORY))
                 (DecisionError ''decision_scope_unauthorized'')) (\<lambda>_.
     and_then (check (\<not> (dr_scope_kind r = ''repository'' \<and> pn_repo_id actor \<noteq> dr_repo_id r))
                 (DecisionError ''decision_repository_mismatch'')) (\<lambda>_.
     and_then (check (\<not> (dr_status r = ''accepted'' \<and> dr_approved_by r = []))
                 (DecisionError ''accepted_decision_needs_approval'')) (\<lambda>_.
       check (\<not> (pn_principal_id actor \<notin> set (dr_approved_by r) \<and> dr_status r = ''accepted''))
         (DecisionError ''decision_approval_mismatch'')))))"

definition canonical_for_hash :: "(pyval \<Rightarrow> string) \<Rightarrow> DecisionRecord \<Rightarrow> string" where
  "canonical_for_hash canonical r = canonical (decision_record_public (r\<lparr>dr_record_hash := None\<rparr>))"

definition hashed_text :: "(pyval \<Rightarrow> string) \<Rightarrow> DecisionRecord \<Rightarrow> string" where
  "hashed_text canonical r =
     (case dr_previous_record_hash r of None \<Rightarrow> ''genesis'' | Some h \<Rightarrow> h) @ [CHR 0x00] @ canonical_for_hash canonical r"

definition decision_hash :: "(string \<Rightarrow> string) \<Rightarrow> (pyval \<Rightarrow> string) \<Rightarrow> DecisionRecord \<Rightarrow> string" where
  "decision_hash sha256 canonical r = ''sha256:'' @ sha256 (hashed_text canonical r)"

definition record_decision ::
  "(string \<Rightarrow> string) \<Rightarrow> (pyval \<Rightarrow> string) \<Rightarrow> DecisionRecord \<Rightarrow> Principal \<Rightarrow> DecisionRecord result" where
  "record_decision sha256 canonical r actor =
     and_then (decision_authorized r actor) (\<lambda>_.
       let computed = decision_hash sha256 canonical r
       in and_then (check (dr_record_hash r = None \<or> dr_record_hash r = Some computed)
                      (DecisionError ''decision_hash_mismatch'')) (\<lambda>_.
            DecisionRecord_init (r\<lparr>dr_record_hash := Some computed\<rparr>)))"

definition supersede_decision ::
  "(string \<Rightarrow> string) \<Rightarrow> (pyval \<Rightarrow> string) \<Rightarrow> string \<Rightarrow> DecisionRecord \<Rightarrow> Principal \<Rightarrow> DecisionRecord result" where
  "supersede_decision sha256 canonical decision_id replacement actor =
     and_then (decision_id_check (PStr decision_id) ''decision'') (\<lambda>_.
     and_then (check (dr_supersedes replacement = Some decision_id \<and> dr_decision_id replacement \<noteq> decision_id \<and>
                      dr_previous_record_hash replacement \<noteq> None)
                 (DecisionError ''supersede_reference_mismatch'')) (\<lambda>_.
       record_decision sha256 canonical replacement actor))"

subsection \<open>The chain\<close>

text \<open>The loop of \<open>_verify_decision_chain_values\<close>: the ids seen so far and the hash of the last record.\<close>

fun verify_loop ::
  "(string \<Rightarrow> string) \<Rightarrow> (pyval \<Rightarrow> string) \<Rightarrow> string list \<Rightarrow> string option \<Rightarrow> DecisionRecord list \<Rightarrow> string option" where
  "verify_loop sha256 canonical seen previous [] = None"
| "verify_loop sha256 canonical seen previous (r # rs) =
     (if dr_decision_id r \<in> set seen then Some ''duplicate_or_invalid_record''
      else if dr_previous_record_hash r \<noteq> previous \<or> dr_record_hash r \<noteq> Some (decision_hash sha256 canonical r)
      then Some ''decision_chain_mismatch''
      else if (case dr_supersedes r of None \<Rightarrow> False | Some d \<Rightarrow> d = dr_decision_id r \<or> d \<notin> set seen)
      then Some ''decision_chain_mismatch''
      else verify_loop sha256 canonical (dr_decision_id r # seen) (dr_record_hash r) rs)"

definition verify_decision_chain ::
  "(string \<Rightarrow> string) \<Rightarrow> (pyval \<Rightarrow> string) \<Rightarrow> DecisionRecord list \<Rightarrow> (string \<times> pyval) list" where
  "verify_decision_chain sha256 canonical rs =
     (case verify_loop sha256 canonical [] None rs of
        Some reason \<Rightarrow>
          [(''valid'', PBool False), (''record_count'', PInt (int (length rs))), (''reason_code'', PStr reason)]
      | None \<Rightarrow>
          [(''valid'', PBool True), (''record_count'', PInt (int (length rs))),
           (''reason_code'', PStr ''decision_chain_verified'')])"

subsection \<open>What the chain shows\<close>

definition chain_valid :: "(string \<Rightarrow> string) \<Rightarrow> (pyval \<Rightarrow> string) \<Rightarrow> DecisionRecord list \<Rightarrow> bool" where
  "chain_valid sha256 canonical rs =
     (map_of (verify_decision_chain sha256 canonical rs) ''valid'' = Some (PBool True))"

definition is_record :: "DecisionRecord \<Rightarrow> bool" where
  "is_record r = (DecisionRecord_init r = Inr r)"

definition chain_tip :: "DecisionRecord list \<Rightarrow> string option" where
  "chain_tip rs = (if rs = [] then None else dr_record_hash (last rs))"

lemma chain_valid_loop: "chain_valid sha256 canonical rs \<longleftrightarrow> verify_loop sha256 canonical [] None rs = None"
  by (auto simp: chain_valid_def verify_decision_chain_def split: option.splits)

lemma verify_loop_append:
  "verify_loop sha256 canonical seen previous (rs @ [r]) = None \<longleftrightarrow>
     verify_loop sha256 canonical seen previous rs = None \<and>
     verify_loop sha256 canonical (rev (map dr_decision_id rs) @ seen)
       (if rs = [] then previous else dr_record_hash (last rs)) [r] = None"
  by (induction rs arbitrary: seen previous) (auto split: option.splits)

lemma chain_valid_snoc:
  "chain_valid sha256 canonical (rs @ [r]) \<longleftrightarrow>
     chain_valid sha256 canonical rs \<and> dr_decision_id r \<notin> dr_decision_id ` set rs \<and>
     dr_previous_record_hash r = chain_tip rs \<and> dr_record_hash r = Some (decision_hash sha256 canonical r) \<and>
     (case dr_supersedes r of None \<Rightarrow> True | Some d \<Rightarrow> d \<in> dr_decision_id ` set rs)"
  unfolding chain_valid_loop verify_loop_append
  by (auto simp: chain_tip_def split: option.splits if_splits)

lemma chain_valid_Nil: "chain_valid sha256 canonical []"
  by (simp add: chain_valid_loop)

lemma digest_no_nul:
  assumes "is_sha256_digest s"
  shows "CHR 0x00 \<notin> set s"
proof -
  have hex: "is_hex c \<Longrightarrow> c \<noteq> CHR 0x00" for c
    by (auto simp: is_hex_def is_digit_def char_in_range_def)
  obtain t where t: "s = ''sha256:'' @ t" using assms by (auto simp: is_sha256_digest_def starts_with_iff)
  then have "list_all is_hex t" using assms by (simp add: is_sha256_digest_def)
  with hex t show ?thesis by (auto simp: list_all_iff)
qed

lemma record_previous_digest: "is_record r \<Longrightarrow> dr_previous_record_hash r = Some h \<Longrightarrow> is_sha256_digest h"
  by (auto simp: is_record_def DecisionRecord_init_def when_given_def decision_digest_def result_simps)

lemma first_separator: "c \<notin> set s \<Longrightarrow> c \<notin> set t \<Longrightarrow> s @ c # a = t @ c # b \<Longrightarrow> s = t \<and> a = b"
proof (induction s arbitrary: t)
  case Nil
  then show ?case by (cases t) auto
next
  case (Cons d s)
  then show ?case by (cases t) auto
qed

text \<open>What is hashed determines the previous hash and the canonical text.\<close>

lemma hashed_text_inject:
  assumes "is_record x" and "is_record y" and "hashed_text canonical x = hashed_text canonical y"
  shows "dr_previous_record_hash x = dr_previous_record_hash y \<and>
    canonical_for_hash canonical x = canonical_for_hash canonical y"
proof -
  have nul: "CHR 0x00 \<notin> set (case dr_previous_record_hash r of None \<Rightarrow> ''genesis'' | Some h \<Rightarrow> h)" if "is_record r" for r
    using record_previous_digest [OF that] digest_no_nul by (auto split: option.splits)
  have parts: "(case dr_previous_record_hash x of None \<Rightarrow> ''genesis'' | Some h \<Rightarrow> h) =
      (case dr_previous_record_hash y of None \<Rightarrow> ''genesis'' | Some h \<Rightarrow> h) \<and>
      canonical_for_hash canonical x = canonical_for_hash canonical y"
    by (rule first_separator [OF nul [OF assms(1)] nul [OF assms(2)]]) (use assms(3) in \<open>simp add: hashed_text_def\<close>)
  have "\<not> is_sha256_digest ''genesis''" by (simp add: is_sha256_digest_def starts_with_def)
  with parts show ?thesis
    using record_previous_digest [OF assms(1)] record_previous_digest [OF assms(2)]
    by (auto split: option.splits)
qed

lemma public_without_hash:
  assumes "decision_record_public (x\<lparr>dr_record_hash := None\<rparr>) = decision_record_public (y\<lparr>dr_record_hash := None\<rparr>)"
    and "dr_record_hash x = dr_record_hash y"
  shows "decision_record_public x = decision_record_public y"
  using assms by (simp add: decision_record_public_def)

text \<open>
  What \<open>json.dumps\<close> promises for the records of a chain: payloads that differ anywhere, their own hash
  apart, have different texts.
\<close>

definition faithful_text :: "(pyval \<Rightarrow> string) \<Rightarrow> DecisionRecord list \<Rightarrow> bool" where
  "faithful_text canonical rs =
     inj_on canonical ((\<lambda>r. decision_record_public (r\<lparr>dr_record_hash := None\<rparr>)) ` set rs)"

lemma faithful_text_payload:
  assumes "faithful_text canonical (xs @ ys)" and "x \<in> set xs" and "y \<in> set ys"
    and "canonical_for_hash canonical x = canonical_for_hash canonical y"
  shows "decision_record_public (x\<lparr>dr_record_hash := None\<rparr>) = decision_record_public (y\<lparr>dr_record_hash := None\<rparr>)"
  using assms(1,4) unfolding faithful_text_def canonical_for_hash_def
  by (rule inj_onD) (use assms(2,3) in auto)

lemma chains_agree:
  assumes "\<And>x y. x \<in> X \<Longrightarrow> y \<in> Y \<Longrightarrow> sha256 (hashed_text canonical x) = sha256 (hashed_text canonical y) \<Longrightarrow>
      hashed_text canonical x = hashed_text canonical y"
    and "\<And>x y. x \<in> X \<Longrightarrow> y \<in> Y \<Longrightarrow> canonical_for_hash canonical x = canonical_for_hash canonical y \<Longrightarrow>
      decision_record_public (x\<lparr>dr_record_hash := None\<rparr>) = decision_record_public (y\<lparr>dr_record_hash := None\<rparr>)"
    and "chain_valid sha256 canonical xs" and "chain_valid sha256 canonical ys"
    and "list_all is_record xs" and "list_all is_record ys" and "chain_tip xs = chain_tip ys"
    and "set xs \<subseteq> X" and "set ys \<subseteq> Y"
  shows "map decision_record_public xs = map decision_record_public ys"
  using assms(3-)
proof (induction xs arbitrary: ys rule: rev_induct)
  case Nil
  then show ?case by (cases ys rule: rev_cases) (auto simp: chain_tip_def chain_valid_snoc)
next
  case (snoc x xs)
  then obtain ys' y where ys: "ys = ys' @ [y]"
    by (cases ys rule: rev_cases) (auto simp: chain_tip_def chain_valid_snoc)
  have recs: "is_record x" "is_record y" and mem: "x \<in> X" "y \<in> Y" using snoc.prems(3,4,6,7) ys by simp_all
  have hash: "dr_record_hash x = dr_record_hash y" using snoc.prems(5) ys by (simp add: chain_tip_def)
  then have "decision_hash sha256 canonical x = decision_hash sha256 canonical y"
    using snoc.prems(1,2) ys by (simp add: chain_valid_snoc)
  then have same: "dr_previous_record_hash x = dr_previous_record_hash y"
      "canonical_for_hash canonical x = canonical_for_hash canonical y"
    using hashed_text_inject [OF recs] assms(1) [OF mem] unfolding decision_hash_def by blast+
  then have "chain_tip xs = chain_tip ys'" using snoc.prems(1,2) ys by (simp add: chain_valid_snoc)
  then show ?case
    using snoc.IH [of ys'] snoc.prems ys public_without_hash [OF assms(2) [OF mem same(2)] hash]
    by (simp add: chain_valid_snoc)
qed

text \<open>
  C20. The last hash fixes the whole history. Two chains of records that verify and end in the same
  record hash hold the same records in the same order, equal in every public field, the rationale,
  the approvals and the times among them; otherwise the two chains themselves exhibit a collision of
  SHA-256: a record of the one and a record of the other whose hashed texts differ and have the same
  hash. The one thing assumed of \<open>json.dumps\<close> is that it gives different payloads of these records
  different texts.
\<close>

theorem decision_chain_tamper_evident:
  assumes "chain_valid sha256 canonical xs" and "chain_valid sha256 canonical ys"
    and "list_all is_record xs" and "list_all is_record ys" and "faithful_text canonical (xs @ ys)"
    and "chain_tip xs = chain_tip ys"
  shows "map decision_record_public xs = map decision_record_public ys \<or>
    (\<exists>x y. x \<in> set xs \<and> y \<in> set ys \<and> hashed_text canonical x \<noteq> hashed_text canonical y \<and>
       sha256 (hashed_text canonical x) = sha256 (hashed_text canonical y))"
  using chains_agree [OF _ faithful_text_payload [OF assms(5)] assms(1-4,6) order_refl order_refl] by blast

lemma DecisionRecord_init_frozen:
  assumes "DecisionRecord_init r = Inr r'"
  obtains options where "map_result freeze_option (dr_options r) = Inr options" "r' = r\<lparr>dr_options := options\<rparr>"
  using assms unfolding DecisionRecord_init_def Let_def and_then_eq_Inr
  by (elim exE conjE) (simp split: if_splits)

lemma record_decision_stamped:
  assumes "is_record r" and "record_decision sha256 canonical r actor = Inr r'"
  shows "r' = r\<lparr>dr_record_hash := Some (decision_hash sha256 canonical r)\<rparr> \<and> is_record r' \<and>
    decision_hash sha256 canonical r' = decision_hash sha256 canonical r"
proof -
  let ?s = "r\<lparr>dr_record_hash := Some (decision_hash sha256 canonical r)\<rparr>"
  have init: "DecisionRecord_init ?s = Inr r'"
    using assms(2) by (auto simp: record_decision_def Let_def result_simps)
  obtain options where o: "map_result freeze_option (dr_options r) = Inr options" "r = r\<lparr>dr_options := options\<rparr>"
    by (rule DecisionRecord_init_frozen [OF assms(1) [unfolded is_record_def]])
  obtain options' where o': "map_result freeze_option (dr_options ?s) = Inr options'" "r' = ?s\<lparr>dr_options := options'\<rparr>"
    by (rule DecisionRecord_init_frozen [OF init])
  have "options' = dr_options r" using o o'(1) by (metis DecisionRecord.select_convs(6) DecisionRecord.surjective
        DecisionRecord.update_convs(6,15) sum.inject(2))
  then have "r' = ?s" using o'(2) by simp
  then show ?thesis using init by (simp add: is_record_def decision_hash_def hashed_text_def canonical_for_hash_def)
qed

text \<open>
  What is recorded verifies. When an active principal with the right role records a decision that
  names the last hash of a valid chain, has a new id and supersedes nothing or an earlier decision,
  the stamped record differs from the given one in its hash only, and the chain with it appended is
  valid again.
\<close>

theorem recorded_decision_extends_chain:
  assumes "chain_valid sha256 canonical rs" and "is_record r" and "record_decision sha256 canonical r actor = Inr r'"
    and "dr_previous_record_hash r = chain_tip rs" and "dr_decision_id r \<notin> dr_decision_id ` set rs"
    and "\<forall>d. dr_supersedes r = Some d \<longrightarrow> d \<in> dr_decision_id ` set rs"
  shows "chain_valid sha256 canonical (rs @ [r']) \<and> is_record r' \<and> r' = r\<lparr>dr_record_hash := dr_record_hash r'\<rparr> \<and>
    pn_state actor = ''active'' \<and> dr_created_by r' = pn_principal_id actor \<and>
    pn_class_id actor \<in> set (if dr_scope_kind r' = ''global'' then ROLES_GLOBAL else ROLES_REPOSITORY)"
proof -
  note stamped = record_decision_stamped [OF assms(2,3)]
  have "decision_authorized r actor = Inr ()"
    using assms(3) by (auto simp: record_decision_def and_then_eq_Inr)
  then have "pn_state actor = ''active''" "dr_created_by r = pn_principal_id actor"
    "pn_class_id actor \<in> set (if dr_scope_kind r = ''global'' then ROLES_GLOBAL else ROLES_REPOSITORY)"
    by (auto simp: decision_authorized_def and_then_eq_Inr check_eq_Inr)
  then show ?thesis
    using stamped assms(1,4-6) by (auto simp: chain_valid_snoc split: option.splits)
qed

subsection \<open>Witnesses\<close>

definition decision_author :: Principal where
  "decision_author =
     \<lparr>pn_principal_id = ''queen-1'', pn_class_id = ''queen'', pn_parent_principal_id = Some ''godbee-main'',
      pn_authority_profile = ''queen'', pn_scope_kind = ''repository'', pn_repo_id = Some ''repo'',
      pn_state = ''active'', pn_config_digest = '''', pn_version = 1, pn_created_at_utc = None\<rparr>"

definition first_decision :: "string \<Rightarrow> string option \<Rightarrow> DecisionRecord" where
  "first_decision t h =
     \<lparr>dr_decision_id = ''d-1'', dr_scope_kind = ''repository'', dr_repo_id = Some ''repo'', dr_topic = t,
      dr_status = ''accepted'', dr_options = [[(''option_id'', PStr ''a''), (''summary'', PStr ''b'')]],
      dr_selected_option_id = Some ''a'', dr_rationale = ''why'', dr_evidence_refs = [], dr_created_by = ''queen-1'',
      dr_approved_by = [''queen-1''], dr_created_at_utc = utc_at 0, dr_supersedes = None,
      dr_previous_record_hash = None, dr_record_hash = h\<rparr>"

definition zero_hash :: "string \<Rightarrow> string" where
  "zero_hash _ = replicate 64 (CHR ''0'')"

lemma first_decision_small:
  assumes "h = None \<or> h = Some (''sha256:'' @ zero_hash '''')" and "t = ''topic'' \<or> t = ''other''"
  shows "json_size (decision_record_public (first_decision t h)) +
    json_spaces (decision_record_public (first_decision t h)) \<le> int MAX_DECISION_BYTES"
proof -
  have "json_size (opt_str h) \<le> 100" using assms(1) by (elim disjE; simp only:; code_simp)
  then show ?thesis using json_iso_size [of "utc_at 0"] assms
    by (auto simp: decision_record_public_def first_decision_def MAX_DECISION_BYTES_def digits_of.simps)
      (simp_all add: json_str_size_def json_char_size_def)
qed

lemma first_decision_record:
  assumes "h = None \<or> h = Some (''sha256:'' @ zero_hash '''')" and "t = ''topic'' \<or> t = ''other''"
  shows "is_record (first_decision t h)"
proof -
  have digest: "is_sha256_digest (''sha256:'' @ zero_hash '''')" by code_simp
  have words: "list_all identifier_re [''d-1'', ''repo'', ''a'', ''queen-1'']"
    "list_all (text_ok 512) [''topic'', ''other'', ''b'', ''why'']" by (code_simp, code_simp)
  have texts: "text_ok MAX_DECISION_BYTES ''why''" "text_ok 1024 ''b''"
    using words(2) by (auto simp: text_ok_def MAX_DECISION_BYTES_def)
  have time: "\<exists>u. validate_utc_datetime (utc_at 0) ''decision_timestamp'' = Inr u"
    by (simp add: validate_utc_datetime_def utc_at_def aware_def as_utc_def instant_def us_per_second_def
        max_us_def us_per_day_def)
  have "when_given (\<lambda>s. decision_digest s ''record_hash'') h = Inr ()"
    using assms(1) digest by (auto simp: when_given_def decision_digest_def)
  then show ?thesis
    using words texts time first_decision_small [OF assms] assms(2)
    by (auto simp: is_record_def DecisionRecord_init_def first_decision_def decision_id_check_def scope_check_def
        when_given_def freeze_option_def py_get_def decision_refs_def DECISION_STATES_def Let_def)
qed

lemma first_decision_hash: "decision_hash zero_hash canonical (first_decision t h) = ''sha256:'' @ zero_hash ''''"
  by (simp add: decision_hash_def zero_hash_def)

lemma first_decision_recorded:
  "record_decision zero_hash (\<lambda>_. '''') (first_decision ''topic'' None) decision_author =
     Inr (first_decision ''topic'' (Some (''sha256:'' @ zero_hash '''')))"
proof -
  have "decision_authorized (first_decision ''topic'' None) decision_author = Inr ()"
    by (simp add: decision_authorized_def first_decision_def decision_author_def ROLES_REPOSITORY_def)
  moreover have "first_decision ''topic'' None\<lparr>dr_record_hash := Some x\<rparr> = first_decision ''topic'' (Some x)"
    "dr_record_hash (first_decision ''topic'' None) = None" for x
    by (simp_all add: first_decision_def)
  moreover have "DecisionRecord_init (first_decision ''topic'' (Some (''sha256:'' @ zero_hash ''''))) =
      Inr (first_decision ''topic'' (Some (''sha256:'' @ zero_hash '''')))"
    using first_decision_record by (simp add: is_record_def)
  ultimately show ?thesis by (simp add: record_decision_def first_decision_hash)
qed

theorem recorded_decision_extends_chain_witness:
  "chain_valid zero_hash (\<lambda>_. '''') ([] @ [first_decision ''topic'' (Some (''sha256:'' @ zero_hash ''''))]) \<and>
   pn_class_id decision_author \<in> set ROLES_REPOSITORY"
  using recorded_decision_extends_chain [OF chain_valid_Nil first_decision_record first_decision_recorded]
  by (auto simp: chain_tip_def first_decision_def)

lemma first_chain_valid: "chain_valid zero_hash canonical [first_decision t (Some (''sha256:'' @ zero_hash ''''))]"
  using chain_valid_snoc [of zero_hash canonical "[]"] chain_valid_Nil first_decision_hash
  by (simp add: first_decision_def chain_tip_def)

text \<open>A text that tells the two sample records apart, and a hash that does not.\<close>

fun topic_text :: "pyval \<Rightarrow> string" where
  "topic_text (PDict d) = (case map_of d ''topic'' of Some (PStr t) \<Rightarrow> t | _ \<Rightarrow> [])"
| "topic_text _ = []"

theorem decision_chain_tamper_evident_witness:
  "chain_tip [first_decision ''topic'' (Some (''sha256:'' @ zero_hash ''''))] =
     chain_tip [first_decision ''other'' (Some (''sha256:'' @ zero_hash ''''))] \<and>
   hashed_text topic_text (first_decision ''topic'' (Some (''sha256:'' @ zero_hash ''''))) \<noteq>
     hashed_text topic_text (first_decision ''other'' (Some (''sha256:'' @ zero_hash '''')))"
proof -
  let ?x = "\<lambda>t. first_decision t (Some (''sha256:'' @ zero_hash ''''))"
  have tip: "chain_tip [?x ''topic''] = chain_tip [?x ''other'']"
    by (simp add: chain_tip_def first_decision_def)
  have topic: "topic_text (decision_record_public (?x t\<lparr>dr_record_hash := None\<rparr>)) = t" for t
    by (simp add: decision_record_public_def first_decision_def)
  have faithful: "faithful_text topic_text ([?x ''topic''] @ [?x ''other''])"
    unfolding faithful_text_def inj_on_def using topic by auto
  have "map decision_record_public [?x ''topic''] \<noteq> map decision_record_public [?x ''other'']"
    by (simp add: decision_record_public_def first_decision_def)
  then show ?thesis
    using decision_chain_tamper_evident [OF first_chain_valid first_chain_valid _ _ faithful tip]
      tip first_decision_record by auto
qed

end
