(* ===== verification/Bus_Policy.thy ===== *)
theory Bus_Policy
  imports Authority_Properties Dispatch
begin

text \<open>
  \<open>hive/bus_policy.py\<close>: delegations by which a topic queen hands a set of paths of one repository to
  an integration queen, and the check that a set of active delegations is disjoint in topics and
  paths; with the partition grammar of \<open>hive/bus_types.py\<close> that it uses.
\<close>

definition bus_error :: "string \<Rightarrow> exn" where
  "bus_error c = HiveBusContractError c"

subsection \<open>Partitions\<close>

definition SENSITIVE_IDENTIFIER_MARKERS :: "string list" where
  "SENSITIVE_IDENTIFIER_MARKERS =
     [''apikey'', ''auth'', ''bearer'', ''credential'', ''password'', ''privatekey'', ''prompt'', ''rawprovider'',
      ''secret'', ''skproj'', ''stderr'', ''stdout'', ''terminal'', ''token'']"

definition has_sensitive_identifier_marker :: "string \<Rightarrow> bool" where
  "has_sensitive_identifier_marker value =
     list_ex (\<lambda>marker. contains marker (filter (\<lambda>c. c \<notin> set ''.:_-'') (casefold value))) SENSITIVE_IDENTIFIER_MARKERS"

text \<open>The pattern \<open>[a-z0-9][a-z0-9._-]{0,63}\<close>.\<close>

fun SEGMENT_RE :: "string \<Rightarrow> bool" where
  "SEGMENT_RE [] = False"
| "SEGMENT_RE (c # cs) =
     ((is_lower c \<or> is_digit c) \<and> length cs \<le> 63 \<and>
      list_all (\<lambda>d. is_lower d \<or> is_digit d \<or> d \<in> set ''._-'') cs)"

definition bus_segment :: "string \<Rightarrow> string \<Rightarrow> unit result" where
  "bus_segment value code =
     and_then (check (\<not> has_sensitive_identifier_marker value) (bus_error ''BUS_E_SECRET_CLASSIFICATION'')) (\<lambda>_.
       check (SEGMENT_RE value) (bus_error code))"

definition partition_ok :: "string list \<Rightarrow> bool" where
  "partition_ok parts =
     (case parts of
        [a, b] \<Rightarrow> parts = [''fleet'', ''control''] \<or> parts = [''security'', ''global''] \<or>
                  a \<in> set [''repo'', ''policy'', ''incident'']
      | [a, b, c] \<Rightarrow> (a = ''archive'' \<and> b = ''repo'') \<or> (a = ''fleet'' \<and> b = ''resource'') \<or>
                     (a = ''provider'' \<and> c = ''status'') \<or> (a = ''account'' \<and> c = ''usage'') \<or>
                     (a = ''security'' \<and> b = ''repo'') \<or> (a = ''user'' \<and> b = ''notification'')
      | [a, b, c, d] \<Rightarrow> a = ''repo'' \<and> c \<in> set [''topic'', ''task'', ''artifact'']
      | [a, b, c, d, e] \<Rightarrow> a = ''coordination'' \<and> b = ''repo'' \<and> d = ''to'' \<and> c \<noteq> e
      | _ \<Rightarrow> False)"

definition validate_topic_partition :: "string \<Rightarrow> string result" where
  "validate_topic_partition value =
     (if value = '''' \<or> \<not> list_all (\<lambda>c. (of_char c :: nat) < 128) value \<or> length value > 512
      then Inl (bus_error ''BUS_E_TOPIC_INVALID'')
      else let parts = split_on CHR ''/'' value
           in and_then (map_result (\<lambda>p. bus_segment p ''BUS_E_TOPIC_INVALID'') parts) (\<lambda>_.
                if partition_ok parts then Inr value else Inl (bus_error ''BUS_E_TOPIC_INVALID'')))"

subsection \<open>Delegations\<close>

record QueenTopicDelegationV1 =
  td_schema_version :: int
  td_repo_id :: string
  td_topic_id :: string
  td_plan_digest :: string
  td_exclusive_paths :: "string list"
  td_topic_queen_principal_id :: string
  td_integration_queen_principal_id :: string
  td_authority_generation :: string
  td_issued_at_utc :: py_datetime
  td_expires_at_utc :: py_datetime

definition bus_identifier :: "string \<Rightarrow> string \<Rightarrow> string result" where
  "bus_identifier value fld =
     rescue (validate_identifier (PStr value) fld)
       (\<lambda>e. case e of HiveValidationError m \<Rightarrow> Inl (bus_error ''BUS_E_SCHEMA'') | _ \<Rightarrow> Inl e)"

definition bus_utc :: "py_datetime \<Rightarrow> string \<Rightarrow> py_datetime result" where
  "bus_utc value fld =
     and_then (rescue (validate_utc_datetime value fld) (\<lambda>e. Inl (bus_error ''BUS_E_SCHEMA''))) (\<lambda>normalized.
       if utc_offset_us value \<noteq> Some 0 then Inl (bus_error ''BUS_E_SCHEMA'') else Inr normalized)"

definition bus_digest :: "string \<Rightarrow> unit result" where
  "bus_digest value = check (is_sha256_digest value) (bus_error ''BUS_E_SCHEMA'')"

definition QueenTopicDelegationV1_init :: "QueenTopicDelegationV1 \<Rightarrow> QueenTopicDelegationV1 result" where
  "QueenTopicDelegationV1_init d =
     and_then (check (td_schema_version d = 1) (bus_error ''BUS_E_SCHEMA'')) (\<lambda>_.
     and_then (bus_identifier (td_repo_id d) ''repo'') (\<lambda>_.
     and_then (validate_topic_partition (td_topic_id d)) (\<lambda>topic_id.
     and_then (check (case split_on CHR ''/'' topic_id of
                        [a, b, c, e] \<Rightarrow> a = ''repo'' \<and> b = td_repo_id d \<and> c = ''topic'' | _ \<Rightarrow> False)
                 (bus_error ''BUS_E_REPO_SCOPE'')) (\<lambda>_.
     and_then (check (td_exclusive_paths d \<noteq> [] \<and> length (td_exclusive_paths d) \<le> MAX_GRANT_PATHS \<and>
                      td_exclusive_paths d = sort (td_exclusive_paths d) \<and> distinct (td_exclusive_paths d))
                 (bus_error ''BUS_E_SCHEMA'')) (\<lambda>_.
     and_then (bus_digest (td_plan_digest d)) (\<lambda>_.
     and_then (bus_identifier (td_topic_queen_principal_id d) ''topic_queen_principal'') (\<lambda>_.
     and_then (bus_identifier (td_integration_queen_principal_id d) ''integration_queen_principal'') (\<lambda>_.
     and_then (bus_digest (td_authority_generation d)) (\<lambda>_.
     and_then (bus_utc (td_issued_at_utc d) ''issued'') (\<lambda>issued.
     and_then (bus_utc (td_expires_at_utc d) ''expires'') (\<lambda>expires.
     and_then (check (let ttl = instant expires - instant issued
                      in us_per_second \<le> ttl \<and> ttl \<le> MAX_GRANT_TTL_SECONDS * us_per_second)
                 (bus_error ''BUS_E_SCHEMA'')) (\<lambda>_.
       Inr (d\<lparr>td_issued_at_utc := issued, td_expires_at_utc := expires\<rparr>)))))))))))))"

text \<open>Two resolved paths neither of which is the other or lies inside it.\<close>

definition apart :: "string list \<Rightarrow> string list \<Rightarrow> bool" where
  "apart p q = (\<not> path_within p q \<and> \<not> path_within q p)"

fun paths_apart :: "string list list \<Rightarrow> string list list \<Rightarrow> bool" where
  "paths_apart previous [] = True"
| "paths_apart previous (p # ps) = (list_all (apart p) previous \<and> paths_apart (previous @ [p]) ps)"

definition queen_check :: "authority_env \<Rightarrow> string \<Rightarrow> string \<Rightarrow> (AuthorityEngine, unit) op" where
  "queen_check av repo_id who s =
     (case engine_principal av who s of
        (Inl (PrincipalError m), s) \<Rightarrow> (Inl (bus_error ''BUS_E_ACL_DENIED''), s)
      | (Inl e, s) \<Rightarrow> (Inl e, s)
      | (Inr p, s) \<Rightarrow>
          (check (pn_state p = ''active'' \<and> pn_class_id p \<in> set QUEEN_CLASSES \<and> pn_repo_id p = Some repo_id)
             (bus_error ''BUS_E_ACL_DENIED''), s))"

definition resolved_exclusive_paths ::
  "authority_env \<Rightarrow> AuthorityEngine \<Rightarrow> QueenTopicDelegationV1 \<Rightarrow> string list list result" where
  "resolved_exclusive_paths av s d =
     rescue
       (and_then (repository_get (ae_repositories s) (td_repo_id d)) (\<lambda>_.
          map_result (resolve_path (av_files av) (ae_repositories s) (td_repo_id d)) (td_exclusive_paths d)))
       (\<lambda>e. case e of RepositoryError m \<Rightarrow> Inl (bus_error ''BUS_E_REPO_SCOPE'') | _ \<Rightarrow> Inl e)"

definition validated_resolved_paths ::
  "authority_env \<Rightarrow> QueenTopicDelegationV1 \<Rightarrow> (AuthorityEngine, string list list) op" where
  "validated_resolved_paths av d s =
     (case resolved_exclusive_paths av s d of
        Inl e \<Rightarrow> (Inl e, s)
      | Inr resolved \<Rightarrow>
          if \<not> paths_apart [] resolved then (Inl (bus_error ''BUS_E_ACL_DENIED''), s)
          else op_bind (queen_check av (td_repo_id d) (td_topic_queen_principal_id d)) (\<lambda>_.
               op_bind (queen_check av (td_repo_id d) (td_integration_queen_principal_id d)) (\<lambda>_.
               op_lift (if td_topic_queen_principal_id d = td_integration_queen_principal_id d
                        then Inl (bus_error ''BUS_E_ACL_DENIED'') else Inr resolved))) s)"

definition validate_queen_topic_delegation_v1 ::
  "authority_env \<Rightarrow> QueenTopicDelegationV1 \<Rightarrow> (AuthorityEngine, QueenTopicDelegationV1) op" where
  "validate_queen_topic_delegation_v1 av d = op_bind (validated_resolved_paths av d) (\<lambda>_. op_lift (Inr d))"

fun resolved_all ::
  "authority_env \<Rightarrow> QueenTopicDelegationV1 list \<Rightarrow> (AuthorityEngine, string list list list) op" where
  "resolved_all av [] = op_lift (Inr [])"
| "resolved_all av (d # ds) =
     op_bind (validated_resolved_paths av d) (\<lambda>ps.
     op_bind (resolved_all av ds) (\<lambda>pss. op_lift (Inr (ps # pss))))"

text \<open>
  The loop over the delegations with their resolved paths. The second set of the code, of topics with
  their generation, holds a topic only if the first one does.
\<close>

fun disjoint_loop ::
  "(string \<times> string) list \<Rightarrow> (string \<times> string \<times> string) list \<Rightarrow> string list list \<Rightarrow>
   (QueenTopicDelegationV1 \<times> string list list) list \<Rightarrow> bool" where
  "disjoint_loop topics generations seen [] = True"
| "disjoint_loop topics generations seen ((d, ps) # rest) =
     (let topic_key = (td_repo_id d, td_topic_id d);
          generation_key = (td_repo_id d, td_topic_id d, td_authority_generation d)
      in topic_key \<notin> set topics \<and> generation_key \<notin> set generations \<and>
         list_all (\<lambda>p. list_all (apart p) seen) ps \<and>
         disjoint_loop (topic_key # topics) (generation_key # generations) (seen @ ps) rest)"

definition validate_active_queen_topic_delegations ::
  "authority_env \<Rightarrow> QueenTopicDelegationV1 list \<Rightarrow> (AuthorityEngine, QueenTopicDelegationV1 list) op" where
  "validate_active_queen_topic_delegations av ds =
     op_bind (resolved_all av ds) (\<lambda>pss.
       op_lift (if disjoint_loop [] [] [] (zip ds pss) then Inr ds else Inl (bus_error ''BUS_E_ACL_DENIED'')))"

subsection \<open>Disjointness\<close>

lemma apart_sym: "apart p q \<longleftrightarrow> apart q p"
  by (auto simp: apart_def)

lemma paths_apart_iff:
  "paths_apart previous ps \<longleftrightarrow> (\<forall>p \<in> set ps. list_all (apart p) previous) \<and> sorted_wrt apart ps"
  using apart_sym by (induction ps arbitrary: previous) (auto simp: list_all_iff)

lemma disjoint_loop_paths:
  assumes "disjoint_loop topics generations seen (zip ds pss)" and "length ds = length pss"
    and "list_all (sorted_wrt apart) pss" and "sorted_wrt apart seen"
  shows "sorted_wrt apart (seen @ concat pss)"
  using assms
proof (induction ds pss arbitrary: topics generations seen rule: list_induct2')
  case (4 d ds ps pss)
  have "\<forall>p \<in> set ps. \<forall>q \<in> set seen. apart p q" using 4(2) by (auto simp: Let_def list_all_iff)
  then have "\<forall>q \<in> set seen. \<forall>p \<in> set ps. apart q p" using apart_sym by blast
  then have "sorted_wrt apart (seen @ ps)" using 4(4,5) by (simp add: sorted_wrt_append)
  then show ?case using 4(1) [of _ _ "seen @ ps"] 4(2-4) by (auto simp: Let_def)
qed auto

lemma disjoint_loop_topics:
  assumes "disjoint_loop topics generations seen (zip ds pss)" and "length ds = length pss"
  shows "distinct (map (\<lambda>d. (td_repo_id d, td_topic_id d)) ds) \<and>
    (\<forall>d \<in> set ds. (td_repo_id d, td_topic_id d) \<notin> set topics)"
  using assms
proof (induction ds pss arbitrary: topics generations seen rule: list_induct2')
  case (4 d ds ps pss)
  then show ?case by (fastforce simp: Let_def)
qed auto

text \<open>A queen of a repository, as the engine reads her from its registry.\<close>

definition active_queen :: "authority_env \<Rightarrow> AuthorityEngine \<Rightarrow> string \<Rightarrow> string \<Rightarrow> bool" where
  "active_queen av s repo who =
     (case fst (registry_get (av_other av) (av_principal_io av) who (ae_principals s)) of
        Inl _ \<Rightarrow> False
      | Inr pn \<Rightarrow> pn_state pn = ''active'' \<and> pn_class_id pn \<in> set QUEEN_CLASSES \<and> pn_repo_id pn = Some repo)"

text \<open>A read of the registry leaves every later read with the same answer.\<close>

lemma load_registry_again:
  assumes "load_registry_locked other io st reg = (r, reg')"
  shows "load_registry_locked other io st reg' = load_registry_locked other io st reg"
proof -
  have "reg'\<lparr>pg_principals := [], pg_bindings := []\<rparr> = reg\<lparr>pg_principals := [], pg_bindings := []\<rparr>"
    using load_registry_state [OF assms] by (cases reg; cases reg') simp
  then show ?thesis by (simp add: load_registry_locked_def)
qed

lemma registry_get_again:
  assumes "registry_get other io who reg = (r, reg')"
  shows "registry_get other io who' reg' = registry_get other io who' reg"
proof (cases "pg_state reg")
  case None
  then show ?thesis using assms by (simp add: registry_get_def registry_transaction_def)
next
  case (Some st)
  obtain l reg1 where l: "load_registry_locked other io st reg = (l, reg1)" by force
  have "reg' = (if si_lock io = None then reg1 else reg)"
    using assms Some l by (auto simp: registry_get_def registry_transaction_def state_locked_def op_bind_def
        split: sum.splits option.splits prod.splits)
  moreover have "pg_state reg1 = Some st" using load_registry_state [OF l] Some by simp
  ultimately show ?thesis
    using Some load_registry_again [OF l] by (simp add: registry_get_def registry_transaction_def state_locked_def op_bind_def)
qed

lemma active_queen_again:
  "engine_principal av who s = (r, s') \<Longrightarrow> active_queen av s' = active_queen av s"
  by (auto simp: engine_principal_def active_queen_def fun_eq_iff registry_get_again split: prod.splits)

lemma queen_check_Inr:
  assumes "queen_check av repo who s = (Inr u, s')"
  shows "active_queen av s repo who \<and> active_queen av s' = active_queen av s \<and> ae_repositories s' = ae_repositories s"
proof -
  obtain r s1 where p: "engine_principal av who s = (r, s1)" by (cases "engine_principal av who s")
  show ?thesis
  proof (cases r)
    case (Inl e)
    then show ?thesis using assms p by (cases e) (auto simp: queen_check_def)
  next
    case (Inr pn)
    then show ?thesis
      using assms p engine_principal_frame [OF p] active_queen_again [OF p]
      by (auto simp: queen_check_def active_queen_def check_eq_Inr engine_principal_Inr)
  qed
qed

definition delegation_checked ::
  "authority_env \<Rightarrow> AuthorityEngine \<Rightarrow> QueenTopicDelegationV1 \<Rightarrow> string list list \<Rightarrow> bool" where
  "delegation_checked av s d ps =
     (map_result (resolve_path (av_files av) (ae_repositories s) (td_repo_id d)) (td_exclusive_paths d) = Inr ps \<and>
      sorted_wrt apart ps \<and> active_queen av s (td_repo_id d) (td_topic_queen_principal_id d) \<and>
      active_queen av s (td_repo_id d) (td_integration_queen_principal_id d) \<and>
      td_topic_queen_principal_id d \<noteq> td_integration_queen_principal_id d)"

lemma resolved_exclusive_paths_Inr:
  "resolved_exclusive_paths av s d = Inr ps \<Longrightarrow>
     map_result (resolve_path (av_files av) (ae_repositories s) (td_repo_id d)) (td_exclusive_paths d) = Inr ps"
  unfolding resolved_exclusive_paths_def
  by (cases "repository_get (ae_repositories s) (td_repo_id d)";
      cases "map_result (resolve_path (av_files av) (ae_repositories s) (td_repo_id d)) (td_exclusive_paths d)")
    (auto split: exn.splits)

lemma validated_resolved_paths_Inr:
  assumes "validated_resolved_paths av d s = (Inr ps, s')"
  shows "delegation_checked av s d ps \<and> active_queen av s' = active_queen av s \<and> ae_repositories s' = ae_repositories s"
proof -
  obtain resolved where r: "resolved_exclusive_paths av s d = Inr resolved" "paths_apart [] resolved"
    using assms by (auto simp: validated_resolved_paths_def split: sum.splits if_splits)
  then show ?thesis
    using assms
    by (auto simp: validated_resolved_paths_def op_bind_cases op_lift_def delegation_checked_def paths_apart_iff
        dest!: queen_check_Inr resolved_exclusive_paths_Inr split: if_splits)
qed

lemma resolved_all_Inr:
  "resolved_all av ds s = (Inr pss, s') \<Longrightarrow>
     list_all2 (delegation_checked av s) ds pss \<and> active_queen av s' = active_queen av s \<and>
     ae_repositories s' = ae_repositories s"
proof (induction ds arbitrary: s pss)
  case (Cons d ds)
  then obtain ps s1 pss' where "validated_resolved_paths av d s = (Inr ps, s1)"
      and rest: "resolved_all av ds s1 = (Inr pss', s')" and pss: "pss = ps # pss'"
    by (auto simp: op_bind_cases op_lift_def)
  moreover from this have "delegation_checked av s1 = delegation_checked av s"
    using validated_resolved_paths_Inr by (fastforce simp: delegation_checked_def fun_eq_iff)
  ultimately show ?case using validated_resolved_paths_Inr Cons.IH [OF rest] by fastforce
qed (simp add: op_lift_def)

text \<open>
  C21. Active delegations share nothing. When a set of delegations is accepted, no two have the same
  topic in the same repository; every exclusive path resolves inside its repository, and of all these
  resolved paths, within one delegation and across all of them, none is equal to or lies inside
  another; and each delegation names two different principals, each of which the engine's registry,
  read before the check, holds as an active queen of the delegation's repository. (The same queens may
  appear in several delegations.)
\<close>

theorem active_delegations_disjoint:
  assumes "validate_active_queen_topic_delegations av ds s = (Inr ds', s')"
  shows "ds' = ds \<and> distinct (map (\<lambda>d. (td_repo_id d, td_topic_id d)) ds) \<and>
    (\<exists>pss. list_all2 (\<lambda>d ps. map_result (resolve_path (av_files av) (ae_repositories s) (td_repo_id d))
              (td_exclusive_paths d) = Inr ps) ds pss \<and> sorted_wrt apart (concat pss)) \<and>
    (\<forall>d \<in> set ds. active_queen av s (td_repo_id d) (td_topic_queen_principal_id d) \<and>
       active_queen av s (td_repo_id d) (td_integration_queen_principal_id d) \<and>
       td_topic_queen_principal_id d \<noteq> td_integration_queen_principal_id d)"
proof -
  obtain pss where pss: "resolved_all av ds s = (Inr pss, s')" "disjoint_loop [] [] [] (zip ds pss)" "ds' = ds"
    using assms by (auto simp: validate_active_queen_topic_delegations_def op_bind_cases op_lift_def split: if_splits)
  have ok: "list_all2 (delegation_checked av s) ds pss" using resolved_all_Inr [OF pss(1)] by simp
  then have len: "length ds = length pss" by (rule list_all2_lengthD)
  have "list_all (sorted_wrt apart) pss"
    using ok by (auto simp: list_all2_conv_all_nth list_all_length delegation_checked_def)
  then have "sorted_wrt apart (concat pss)" using disjoint_loop_paths [OF pss(2) len] by simp
  moreover have "list_all2 (\<lambda>d ps. map_result (resolve_path (av_files av) (ae_repositories s) (td_repo_id d))
              (td_exclusive_paths d) = Inr ps) ds pss"
    using ok by (rule list_all2_mono) (simp add: delegation_checked_def)
  moreover have "\<exists>ps. delegation_checked av s d ps" if "d \<in> set ds" for d
    using ok that by (metis in_set_conv_nth list_all2_conv_all_nth)
  ultimately show ?thesis
    using pss(3) disjoint_loop_topics [OF pss(2) len] by (auto simp: delegation_checked_def)
qed

subsection \<open>Witness\<close>

definition topic_queen :: "string \<Rightarrow> Principal" where
  "topic_queen i =
     \<lparr>pn_principal_id = i, pn_class_id = ''queen'', pn_parent_principal_id = Some ''godbee-main'',
      pn_authority_profile = ''queen'', pn_scope_kind = ''repository'', pn_repo_id = Some ''repo'',
      pn_state = ''active'', pn_config_digest = sample_digest, pn_version = 1, pn_created_at_utc = None\<rparr>"

definition topic_engine :: AuthorityEngine where
  "topic_engine =
     sample_engine\<lparr>ae_principals := \<lparr>pg_principals = [(''q-a'', topic_queen ''q-a''), (''q-b'', topic_queen ''q-b'')],
       pg_bindings = [], pg_state = None\<rparr>\<rparr>"

definition sample_delegation :: "string \<Rightarrow> string list \<Rightarrow> QueenTopicDelegationV1" where
  "sample_delegation topic paths =
     \<lparr>td_schema_version = 1, td_repo_id = ''repo'', td_topic_id = ''repo/repo/topic/'' @ topic,
      td_plan_digest = sample_digest, td_exclusive_paths = paths, td_topic_queen_principal_id = ''q-a'',
      td_integration_queen_principal_id = ''q-b'', td_authority_generation = sample_digest,
      td_issued_at_utc = utc_at 100, td_expires_at_utc = utc_at 300\<rparr>"

lemma sample_delegation_valid:
  "QueenTopicDelegationV1_init (sample_delegation ''ui'' [''docs'', ''src/ui'']) =
     Inr (sample_delegation ''ui'' [''docs'', ''src/ui''])"
  by code_simp

lemma sample_delegations:
  "validate_active_queen_topic_delegations sample_authority
     [sample_delegation ''ui'' [''docs'', ''src/ui''], sample_delegation ''core'' [''src/core'']] topic_engine =
     (Inr [sample_delegation ''ui'' [''docs'', ''src/ui''], sample_delegation ''core'' [''src/core'']], topic_engine)"
  by code_simp

lemma sample_delegation_paths:
  "map_result (resolve_path (av_files sample_authority) (ae_repositories topic_engine) ''repo'') [''docs'', ''src/ui''] =
     Inr [[''srv'', ''repo'', ''docs''], [''srv'', ''repo'', ''src'', ''ui'']]"
  "map_result (resolve_path (av_files sample_authority) (ae_repositories topic_engine) ''repo'') [''src/core''] =
     Inr [[''srv'', ''repo'', ''src'', ''core'']]"
  by (code_simp, code_simp)

theorem active_delegations_disjoint_witness:
  "sorted_wrt apart [[''srv'', ''repo'', ''docs''], [''srv'', ''repo'', ''src'', ''ui''], [''srv'', ''repo'', ''src'', ''core'']] \<and>
   active_queen sample_authority topic_engine ''repo'' ''q-a''"
proof -
  obtain pss where pss: "list_all2 (\<lambda>d ps. map_result (resolve_path (av_files sample_authority)
        (ae_repositories topic_engine) (td_repo_id d)) (td_exclusive_paths d) = Inr ps)
      [sample_delegation ''ui'' [''docs'', ''src/ui''], sample_delegation ''core'' [''src/core'']] pss"
      "sorted_wrt apart (concat pss)" and queen: "active_queen sample_authority topic_engine ''repo'' ''q-a''"
    using active_delegations_disjoint [OF sample_delegations] by (auto simp: sample_delegation_def)
  have "pss = [[[''srv'', ''repo'', ''docs''], [''srv'', ''repo'', ''src'', ''ui'']], [[''srv'', ''repo'', ''src'', ''core'']]]"
    using pss(1) sample_delegation_paths by (auto simp: list_all2_Cons1 sample_delegation_def)
  then show ?thesis using pss(2) queen by simp
qed

end
