(* ===== verification/Spark_Retry.thy ===== *)
theory Spark_Retry
  imports Hive_Json
begin

text \<open>
  \<open>spark_retry.py\<close>: the capsule that carries the retry accounting of one session over restarts, its
  strict reader, and the transition for one event. Payloads are decoded JSON values.
\<close>

definition SCHEMA_VERSION :: int where "SCHEMA_VERSION = 1"

definition CAPACITY_RETRY_LIMIT :: int where "CAPACITY_RETRY_LIMIT = 50"

definition ACTIVE_WINDOW_MS :: int where "ACTIVE_WINDOW_MS = 300000"

definition SPARK_REQUIREMENT_TOKEN :: string where "SPARK_REQUIREMENT_TOKEN = ''explicit_spark''"

definition ACTIVE_EVENT_TYPES :: "string list" where
  "ACTIVE_EVENT_TYPES = [''provider'', ''tool'', ''progress'']"

definition ZERO_DURATION_EVENTS :: "string list" where
  "ZERO_DURATION_EVENTS = [''wait'', ''backoff'', ''poll'', ''liveness'']"

definition KNOWN_EVENT_TYPES :: "string list" where
  "KNOWN_EVENT_TYPES = ACTIVE_EVENT_TYPES @ ZERO_DURATION_EVENTS @ [''capacity'']"

definition BINDING_KEYS :: "string list" where
  "BINDING_KEYS = [''bee_id'', ''session_id'', ''spark_requirement'', ''model'', ''provider'', ''effort'', ''account_binding'']"

definition CAPSULE_KEYS :: "string list" where
  "CAPSULE_KEYS = [''schema_version'', ''retry_count'', ''event_sequence'', ''active_window_ms''] @ BINDING_KEYS"

definition is_capacity_retry_code :: "string \<Rightarrow> bool" where
  "is_capacity_retry_code code = False"

record ResumeCapsuleV1 =
  rc_bee_id :: string
  rc_session_id :: string
  rc_spark_requirement :: string
  rc_model :: string
  rc_provider :: string
  rc_effort :: string
  rc_account_binding :: string
  rc_retry_count :: int
  rc_event_sequence :: int
  rc_active_window_ms :: int

subsection \<open>Reading fields\<close>

type_synonym payload = "(string \<times> pyval) list"

definition require_str :: "payload \<Rightarrow> string \<Rightarrow> string result" where
  "require_str raw k =
     (case map_of raw k of Some (PStr s) \<Rightarrow> if s = '''' then Inl ValueError else Inr s | _ \<Rightarrow> Inl ValueError)"

definition require_int :: "payload \<Rightarrow> string \<Rightarrow> int result" where
  "require_int raw k = (case map_of raw k of Some (PInt i) \<Rightarrow> Inr i | _ \<Rightarrow> Inl ValueError)"

definition require_non_negative_int :: "payload \<Rightarrow> string \<Rightarrow> int result" where
  "require_non_negative_int raw k = and_then (require_int raw k) (\<lambda>i. if i < 0 then Inl ValueError else Inr i)"

definition require_account_binding :: "payload \<Rightarrow> string \<Rightarrow> string result" where
  "require_account_binding raw k =
     and_then (require_str raw k) (\<lambda>s. if is_sha256_digest s then Inr s else Inl ValueError)"

definition require_explicit_spark_requirement :: "payload \<Rightarrow> string \<Rightarrow> string result" where
  "require_explicit_spark_requirement raw k =
     and_then (require_str raw k) (\<lambda>s. if s = SPARK_REQUIREMENT_TOKEN then Inr s else Inl ValueError)"

definition require_exact_keys :: "payload \<Rightarrow> string list \<Rightarrow> unit result" where
  "require_exact_keys raw allowed = check (set (map fst raw) = set allowed) ValueError"

text \<open>The binding of an event: the seven identifying fields.\<close>

record spark_binding =
  bi_bee_id :: string
  bi_session_id :: string
  bi_spark_requirement :: string
  bi_model :: string
  bi_provider :: string
  bi_effort :: string
  bi_account_binding :: string

definition binding_fields :: "payload \<Rightarrow> spark_binding result" where
  "binding_fields raw =
     and_then (require_str raw ''bee_id'') (\<lambda>bee.
     and_then (require_str raw ''session_id'') (\<lambda>session.
     and_then (require_explicit_spark_requirement raw ''spark_requirement'') (\<lambda>spark.
     and_then (require_str raw ''model'') (\<lambda>model.
     and_then (require_str raw ''provider'') (\<lambda>provider.
     and_then (require_str raw ''effort'') (\<lambda>effort.
     and_then (require_account_binding raw ''account_binding'') (\<lambda>account.
       Inr \<lparr>bi_bee_id = bee, bi_session_id = session, bi_spark_requirement = spark, bi_model = model,
            bi_provider = provider, bi_effort = effort, bi_account_binding = account\<rparr>)))))))"

fun require_binding :: "pyval \<Rightarrow> spark_binding result" where
  "require_binding (PDict raw) = and_then (require_exact_keys raw BINDING_KEYS) (\<lambda>_. binding_fields raw)"
| "require_binding _ = Inl ValueError"

subsection \<open>The capsule\<close>

fun normalize_resume_capsule :: "pyval \<Rightarrow> ResumeCapsuleV1 result" where
  "normalize_resume_capsule (PDict raw) =
     and_then (require_exact_keys raw CAPSULE_KEYS) (\<lambda>_.
     and_then (require_int raw ''schema_version'') (\<lambda>schema_version.
     and_then (check (schema_version = SCHEMA_VERSION) ValueError) (\<lambda>_.
     and_then (require_non_negative_int raw ''retry_count'') (\<lambda>retry_count.
     and_then (check (retry_count \<le> CAPACITY_RETRY_LIMIT) ValueError) (\<lambda>_.
     and_then (require_non_negative_int raw ''event_sequence'') (\<lambda>event_sequence.
     and_then (require_non_negative_int raw ''active_window_ms'') (\<lambda>active_window_ms.
     and_then (check (active_window_ms < ACTIVE_WINDOW_MS) ValueError) (\<lambda>_.
     and_then (binding_fields raw) (\<lambda>b.
       Inr \<lparr>rc_bee_id = bi_bee_id b, rc_session_id = bi_session_id b,
            rc_spark_requirement = bi_spark_requirement b, rc_model = bi_model b, rc_provider = bi_provider b,
            rc_effort = bi_effort b, rc_account_binding = bi_account_binding b, rc_retry_count = retry_count,
            rc_event_sequence = event_sequence, rc_active_window_ms = active_window_ms\<rparr>)))))))))"
| "normalize_resume_capsule _ = Inl TypeError"

definition capsule_binding :: "ResumeCapsuleV1 \<Rightarrow> payload" where
  "capsule_binding c =
     [(''bee_id'', PStr (rc_bee_id c)), (''session_id'', PStr (rc_session_id c)),
      (''spark_requirement'', PStr (rc_spark_requirement c)), (''model'', PStr (rc_model c)),
      (''provider'', PStr (rc_provider c)), (''effort'', PStr (rc_effort c)),
      (''account_binding'', PStr (rc_account_binding c))]"

definition validate_capsule :: "ResumeCapsuleV1 \<Rightarrow> unit result" where
  "validate_capsule c =
     and_then (normalize_resume_capsule (PDict
       ([(''schema_version'', PInt SCHEMA_VERSION), (''retry_count'', PInt (rc_retry_count c)),
         (''event_sequence'', PInt (rc_event_sequence c)), (''active_window_ms'', PInt (rc_active_window_ms c))] @
        capsule_binding c))) (\<lambda>_. Inr ())"

definition capsule_payload :: "ResumeCapsuleV1 \<Rightarrow> pyval" where
  "capsule_payload c = PDict
     ([(''schema_version'', PInt SCHEMA_VERSION)] @ capsule_binding c @
      [(''retry_count'', PInt (rc_retry_count c)), (''event_sequence'', PInt (rc_event_sequence c)),
       (''active_window_ms'', PInt (rc_active_window_ms c))])"

text \<open>\<open>serialize_resume_capsule\<close> takes a capsule (\<open>Inl\<close>) or any other value.\<close>

fun serialize_resume_capsule :: "ResumeCapsuleV1 + pyval \<Rightarrow> pyval result" where
  "serialize_resume_capsule (Inl c) = and_then (validate_capsule c) (\<lambda>_. Inr (capsule_payload c))"
| "serialize_resume_capsule (Inr (PDict raw)) =
     and_then (normalize_resume_capsule (PDict raw)) (\<lambda>c. Inr (capsule_payload c))"
| "serialize_resume_capsule (Inr _) = Inl TypeError"

subsection \<open>Events\<close>

record ResumeEvent =
  re_event_sequence :: int
  re_event_type :: string
  re_active_duration_ms :: int
  re_error_code :: "string option"

definition event_of :: "int \<Rightarrow> string \<Rightarrow> int \<Rightarrow> string option \<Rightarrow> ResumeEvent" where
  "event_of sequence kind duration code =
     \<lparr>re_event_sequence = sequence, re_event_type = kind, re_active_duration_ms = duration, re_error_code = code\<rparr>"

fun normalize_event :: "pyval \<Rightarrow> ResumeEvent result" where
  "normalize_event (PDict p) =
     and_then (require_str p ''event_type'') (\<lambda>kind.
     and_then (check (kind \<in> set KNOWN_EVENT_TYPES) ValueError) (\<lambda>_.
     and_then (require_non_negative_int p ''event_sequence'') (\<lambda>sequence.
       if kind = ''capacity'' then
         and_then (require_exact_keys p [''event_sequence'', ''event_type'', ''binding'', ''error_code'']) (\<lambda>_.
         and_then (require_str p ''error_code'') (\<lambda>code.
         and_then (py_item p ''binding'') (\<lambda>b.
         and_then (require_binding b) (\<lambda>_. Inr (event_of sequence kind 0 (Some code))))))
       else if kind \<in> set ACTIVE_EVENT_TYPES then
         and_then (require_exact_keys p [''event_sequence'', ''event_type'', ''binding'', ''active_duration_ms'']) (\<lambda>_.
         and_then (require_non_negative_int p ''active_duration_ms'') (\<lambda>duration.
         and_then (py_item p ''binding'') (\<lambda>b.
         and_then (require_binding b) (\<lambda>_. Inr (event_of sequence kind duration None)))))
       else
         and_then (check (set (map fst p) = set [''event_sequence'', ''event_type'', ''binding'', ''active_duration_ms''] \<or>
                          set (map fst p) = set [''event_sequence'', ''event_type'', ''binding'']) ValueError) (\<lambda>_.
         and_then (if map_of p ''active_duration_ms'' = None then Inr 0
                   else require_non_negative_int p ''active_duration_ms'') (\<lambda>_.
         and_then (py_item p ''binding'') (\<lambda>b.
         and_then (require_binding b) (\<lambda>_. Inr (event_of sequence kind 0 None))))))))"
| "normalize_event _ = Inl TypeError"

definition apply_active_window :: "int \<Rightarrow> int \<Rightarrow> (int \<times> int) result" where
  "apply_active_window active_window_ms retry_count =
     (if active_window_ms < 0 then Inl ValueError
      else if active_window_ms < ACTIVE_WINDOW_MS then Inr (active_window_ms, retry_count) else Inr (0, 0))"

fun matching_binding :: "ResumeCapsuleV1 \<Rightarrow> pyval \<Rightarrow> bool" where
  "matching_binding c (PDict p) =
     (case and_then (py_item p ''binding'') require_binding of
        Inl e \<Rightarrow> False
      | Inr b \<Rightarrow> rc_bee_id c = bi_bee_id b \<and> rc_session_id c = bi_session_id b \<and>
          rc_spark_requirement c = bi_spark_requirement b \<and> rc_model c = bi_model b \<and>
          rc_provider c = bi_provider b \<and> rc_effort c = bi_effort b \<and> rc_account_binding c = bi_account_binding b)"
| "matching_binding c _ = False"

text \<open>
  \<open>apply_resume_event\<close>: whatever is malformed, foreign or old leaves the capsule as it is. Only the
  window arithmetic stands outside the \<open>try\<close> block; its error is a result here.
\<close>

definition apply_resume_event :: "ResumeCapsuleV1 \<Rightarrow> pyval \<Rightarrow> ResumeCapsuleV1 result" where
  "apply_resume_event c event =
     (case and_then (validate_capsule c) (\<lambda>_. normalize_event event) of
        Inl e \<Rightarrow> Inr c
      | Inr ev \<Rightarrow>
          if \<not> matching_binding c event \<or> re_event_sequence ev \<le> rc_event_sequence c then Inr c
          else and_then
            (if re_event_type ev \<in> set ACTIVE_EVENT_TYPES
             then apply_active_window (rc_active_window_ms c + re_active_duration_ms ev) (rc_retry_count c)
             else Inr (rc_active_window_ms c, rc_retry_count c)) (\<lambda>(window, retries).
            Inr (c\<lparr>rc_retry_count := retries, rc_event_sequence := re_event_sequence ev,
                   rc_active_window_ms := window\<rparr>)))"

subsection \<open>Valid capsules\<close>

definition capsule_ok :: "ResumeCapsuleV1 \<Rightarrow> bool" where
  "capsule_ok c =
     (0 \<le> rc_retry_count c \<and> rc_retry_count c \<le> CAPACITY_RETRY_LIMIT \<and> 0 \<le> rc_event_sequence c \<and>
      0 \<le> rc_active_window_ms c \<and> rc_active_window_ms c < ACTIVE_WINDOW_MS \<and>
      rc_bee_id c \<noteq> '''' \<and> rc_session_id c \<noteq> '''' \<and> rc_spark_requirement c = SPARK_REQUIREMENT_TOKEN \<and>
      rc_model c \<noteq> '''' \<and> rc_provider c \<noteq> '''' \<and> rc_effort c \<noteq> '''' \<and> is_sha256_digest (rc_account_binding c))"

lemma require_str_Inr: "require_str raw k = Inr s \<longleftrightarrow> map_of raw k = Some (PStr s) \<and> s \<noteq> ''''"
  by (auto simp: require_str_def split: option.splits pyval.splits)

lemma require_int_Inr: "require_int raw k = Inr i \<longleftrightarrow> map_of raw k = Some (PInt i)"
  by (auto simp: require_int_def split: option.splits pyval.splits)

lemma require_non_negative_int_Inr: "require_non_negative_int raw k = Inr i \<longleftrightarrow> map_of raw k = Some (PInt i) \<and> 0 \<le> i"
  by (auto simp: require_non_negative_int_def require_int_def split: option.splits pyval.splits)

lemma digest_nonempty: "is_sha256_digest s \<Longrightarrow> s \<noteq> ''''"
  by (auto simp: is_sha256_digest_def)

lemma binding_fields_Inr:
  "binding_fields raw = Inr b \<longleftrightarrow>
     map_of raw ''bee_id'' = Some (PStr (bi_bee_id b)) \<and> bi_bee_id b \<noteq> '''' \<and>
     map_of raw ''session_id'' = Some (PStr (bi_session_id b)) \<and> bi_session_id b \<noteq> '''' \<and>
     map_of raw ''spark_requirement'' = Some (PStr (bi_spark_requirement b)) \<and>
     bi_spark_requirement b = SPARK_REQUIREMENT_TOKEN \<and>
     map_of raw ''model'' = Some (PStr (bi_model b)) \<and> bi_model b \<noteq> '''' \<and>
     map_of raw ''provider'' = Some (PStr (bi_provider b)) \<and> bi_provider b \<noteq> '''' \<and>
     map_of raw ''effort'' = Some (PStr (bi_effort b)) \<and> bi_effort b \<noteq> '''' \<and>
     map_of raw ''account_binding'' = Some (PStr (bi_account_binding b)) \<and> is_sha256_digest (bi_account_binding b)"
  by (cases b) (auto simp: binding_fields_def and_then_eq_Inr require_str_Inr require_account_binding_def
      require_explicit_spark_requirement_def digest_nonempty SPARK_REQUIREMENT_TOKEN_def)

definition binding_of :: "ResumeCapsuleV1 \<Rightarrow> spark_binding" where
  "binding_of c = \<lparr>bi_bee_id = rc_bee_id c, bi_session_id = rc_session_id c,
    bi_spark_requirement = rc_spark_requirement c, bi_model = rc_model c, bi_provider = rc_provider c,
    bi_effort = rc_effort c, bi_account_binding = rc_account_binding c\<rparr>"

lemma normalize_Inr:
  "normalize_resume_capsule (PDict raw) = Inr c \<longleftrightarrow>
     set (map fst raw) = set CAPSULE_KEYS \<and> map_of raw ''schema_version'' = Some (PInt SCHEMA_VERSION) \<and>
     map_of raw ''retry_count'' = Some (PInt (rc_retry_count c)) \<and>
     map_of raw ''event_sequence'' = Some (PInt (rc_event_sequence c)) \<and>
     map_of raw ''active_window_ms'' = Some (PInt (rc_active_window_ms c)) \<and>
     0 \<le> rc_retry_count c \<and> rc_retry_count c \<le> CAPACITY_RETRY_LIMIT \<and> 0 \<le> rc_event_sequence c \<and>
     0 \<le> rc_active_window_ms c \<and> rc_active_window_ms c < ACTIVE_WINDOW_MS \<and>
     binding_fields raw = Inr (binding_of c)"
  by (cases c) (auto simp: and_then_eq_Inr check_eq_Inr require_int_Inr require_non_negative_int_Inr
      require_exact_keys_def binding_of_def)

lemma normalize_ok: "normalize_resume_capsule v = Inr c \<Longrightarrow> capsule_ok c"
  by (cases v) (simp_all only: normalize_Inr binding_fields_Inr, simp_all add: capsule_ok_def binding_of_def)

lemma capsule_keys: "set (map fst (capsule_binding c)) = set BINDING_KEYS"
  by (auto simp: capsule_binding_def BINDING_KEYS_def)

lemma capsule_read:
  assumes "capsule_ok c" and "set (map fst raw) = set CAPSULE_KEYS"
    and "map_of raw ''schema_version'' = Some (PInt SCHEMA_VERSION)"
    and "map_of raw ''retry_count'' = Some (PInt (rc_retry_count c))"
    and "map_of raw ''event_sequence'' = Some (PInt (rc_event_sequence c))"
    and "map_of raw ''active_window_ms'' = Some (PInt (rc_active_window_ms c))"
    and "\<And>k. k \<in> set BINDING_KEYS \<Longrightarrow> map_of raw k = map_of (capsule_binding c) k"
  shows "normalize_resume_capsule (PDict raw) = Inr c"
  unfolding normalize_Inr binding_fields_Inr
  using assms by (simp add: capsule_ok_def binding_of_def BINDING_KEYS_def capsule_binding_def)

lemma capsule_payload_read: "capsule_ok c \<Longrightarrow> normalize_resume_capsule (capsule_payload c) = Inr c"
  unfolding capsule_payload_def
  by (rule capsule_read) (auto simp: capsule_binding_def CAPSULE_KEYS_def BINDING_KEYS_def)

lemma validate_capsule_iff: "validate_capsule c = Inr () \<longleftrightarrow> capsule_ok c"
proof
  assume "validate_capsule c = Inr ()"
  then obtain d where "normalize_resume_capsule (PDict
       ([(''schema_version'', PInt SCHEMA_VERSION), (''retry_count'', PInt (rc_retry_count c)),
         (''event_sequence'', PInt (rc_event_sequence c)), (''active_window_ms'', PInt (rc_active_window_ms c))] @
        capsule_binding c)) = Inr d"
    by (auto simp: validate_capsule_def and_then_eq_Inr simp del: normalize_resume_capsule.simps)
  then show "capsule_ok c"
    unfolding normalize_Inr binding_fields_Inr by (simp add: capsule_ok_def binding_of_def capsule_binding_def)
next
  assume "capsule_ok c"
  then have "normalize_resume_capsule (PDict
       ([(''schema_version'', PInt SCHEMA_VERSION), (''retry_count'', PInt (rc_retry_count c)),
         (''event_sequence'', PInt (rc_event_sequence c)), (''active_window_ms'', PInt (rc_active_window_ms c))] @
        capsule_binding c)) = Inr c"
    by (rule capsule_read) (auto simp: capsule_binding_def CAPSULE_KEYS_def BINDING_KEYS_def)
  then show "validate_capsule c = Inr ()" by (simp add: validate_capsule_def del: normalize_resume_capsule.simps)
qed

text \<open>
  A capsule survives a restart: what is serialized reads back as the same capsule, and serializing
  the payload again gives the same payload.
\<close>

theorem capsule_roundtrip:
  assumes "serialize_resume_capsule (Inl c) = Inr v"
  shows "normalize_resume_capsule v = Inr c \<and> serialize_resume_capsule (Inr v) = Inr v \<and> capsule_ok c"
proof -
  have ok: "capsule_ok c" and v: "v = capsule_payload c"
    using assms by (auto simp: and_then_eq_Inr validate_capsule_iff)
  have "normalize_resume_capsule v = Inr c" using capsule_payload_read [OF ok] v by simp
  then show ?thesis using ok v by (simp add: capsule_payload_def del: normalize_resume_capsule.simps)
qed

subsection \<open>Replays\<close>

text \<open>An event that counts for a capsule: well formed, for the same session, and newer.\<close>

definition fresh_event :: "ResumeCapsuleV1 \<Rightarrow> pyval \<Rightarrow> bool" where
  "fresh_event c e =
     (\<exists>ev. normalize_event e = Inr ev \<and> matching_binding c e \<and> rc_event_sequence c < re_event_sequence ev)"

lemma apply_stale: "\<not> fresh_event c e \<Longrightarrow> apply_resume_event c e = Inr c"
  by (auto simp: apply_resume_event_def fresh_event_def and_then_eq_Inr split: sum.split)

lemma event_duration: "normalize_event e = Inr ev \<Longrightarrow> 0 \<le> re_active_duration_ms ev"
  by (cases e) (auto simp: and_then_eq_Inr require_non_negative_int_Inr event_of_def split: if_splits)

lemma apply_fresh:
  assumes "capsule_ok c" and "normalize_event e = Inr ev" and "matching_binding c e"
    and "rc_event_sequence c < re_event_sequence ev"
  obtains w r where "apply_resume_event c e =
      Inr (c\<lparr>rc_retry_count := r, rc_event_sequence := re_event_sequence ev, rc_active_window_ms := w\<rparr>)"
    "r = rc_retry_count c \<or> r = 0" "0 \<le> w" "w < ACTIVE_WINDOW_MS"
proof -
  have facts: "0 \<le> rc_active_window_ms c + re_active_duration_ms ev" "0 < ACTIVE_WINDOW_MS"
      "0 \<le> rc_active_window_ms c" "rc_active_window_ms c < ACTIVE_WINDOW_MS" "validate_capsule c = Inr ()"
    using assms(1) event_duration [OF assms(2)]
    by (auto simp: ACTIVE_WINDOW_MS_def capsule_ok_def validate_capsule_iff)
  consider "re_event_type ev \<notin> set ACTIVE_EVENT_TYPES"
    | "re_event_type ev \<in> set ACTIVE_EVENT_TYPES" "rc_active_window_ms c + re_active_duration_ms ev < ACTIVE_WINDOW_MS"
    | "re_event_type ev \<in> set ACTIVE_EVENT_TYPES" "\<not> rc_active_window_ms c + re_active_duration_ms ev < ACTIVE_WINDOW_MS"
    by blast
  then show ?thesis
  proof cases
    case 1
    then show ?thesis using that [of "rc_active_window_ms c" "rc_retry_count c"] facts assms(2-4) by (simp add: apply_resume_event_def)
  next
    case 2
    then show ?thesis
      using that [of "rc_active_window_ms c + re_active_duration_ms ev" "rc_retry_count c"] facts assms(2-4)
      by (simp add: apply_resume_event_def apply_active_window_def)
  next
    case 3
    then show ?thesis using that [of 0 0] facts assms(2-4) by (simp add: apply_resume_event_def apply_active_window_def)
  qed
qed

text \<open>A capsule of the same session that is no older.\<close>

definition succeeds :: "ResumeCapsuleV1 \<Rightarrow> ResumeCapsuleV1 \<Rightarrow> bool" where
  "succeeds c d =
     (binding_of d = binding_of c \<and> rc_event_sequence c \<le> rc_event_sequence d \<and>
      (rc_retry_count d = rc_retry_count c \<or> rc_retry_count d = 0))"

lemma succeeds_trans: "succeeds a b \<Longrightarrow> succeeds b c \<Longrightarrow> succeeds a c"
  by (auto simp: succeeds_def)

lemma matching_binding_of:
  assumes "binding_of d = binding_of c"
  shows "matching_binding d e = matching_binding c e"
proof -
  have "rc_bee_id d = rc_bee_id c" "rc_session_id d = rc_session_id c"
    "rc_spark_requirement d = rc_spark_requirement c" "rc_model d = rc_model c" "rc_provider d = rc_provider c"
    "rc_effort d = rc_effort c" "rc_account_binding d = rc_account_binding c"
    using assms by (simp_all add: binding_of_def)
  then show ?thesis by (cases e) (simp_all cong: sum.case_cong)
qed

lemma stale_stays: "succeeds c d \<Longrightarrow> \<not> fresh_event c e \<Longrightarrow> \<not> fresh_event d e"
  using matching_binding_of [of d c e] by (auto simp: fresh_event_def succeeds_def)

lemma apply_resume_event_step:
  assumes "capsule_ok c"
  obtains d where "apply_resume_event c e = Inr d" "capsule_ok d" "succeeds c d" "\<not> fresh_event d e"
proof (cases "fresh_event c e")
  case False
  then show ?thesis using that [of c] apply_stale assms by (simp add: succeeds_def)
next
  case True
  then obtain ev where ev: "normalize_event e = Inr ev" "matching_binding c e" "rc_event_sequence c < re_event_sequence ev"
    by (auto simp: fresh_event_def)
  from apply_fresh [OF assms ev] obtain w r where d: "apply_resume_event c e =
      Inr (c\<lparr>rc_retry_count := r, rc_event_sequence := re_event_sequence ev, rc_active_window_ms := w\<rparr>)"
    "r = rc_retry_count c \<or> r = 0" "0 \<le> w" "w < ACTIVE_WINDOW_MS" .
  let ?d = "c\<lparr>rc_retry_count := r, rc_event_sequence := re_event_sequence ev, rc_active_window_ms := w\<rparr>"
  have "0 \<le> CAPACITY_RETRY_LIMIT" by (simp add: CAPACITY_RETRY_LIMIT_def)
  then have ok: "capsule_ok ?d" using assms d(2-4) ev(3) by (elim disjE) (simp_all add: capsule_ok_def)
  have next_capsule: "succeeds c ?d" using d(2) ev(3) by (simp add: succeeds_def binding_of_def)
  have "\<not> fresh_event ?d e" unfolding fresh_event_def using ev(1) by simp
  then show ?thesis using that [OF d(1) ok next_capsule] by simp
qed

fun resume_run :: "ResumeCapsuleV1 \<Rightarrow> pyval list \<Rightarrow> ResumeCapsuleV1 result" where
  "resume_run c [] = Inr c"
| "resume_run c (e # es) = and_then (apply_resume_event c e) (\<lambda>d. resume_run d es)"

lemma resume_run_total:
  assumes "capsule_ok c"
  shows "\<exists>d. resume_run c es = Inr d \<and> capsule_ok d \<and> succeeds c d \<and> (\<forall>e \<in> set es. \<not> fresh_event d e)"
  using assms
proof (induction es arbitrary: c)
  case Nil
  then show ?case by (simp add: succeeds_def)
next
  case (Cons e es)
  obtain d where d: "apply_resume_event c e = Inr d" "capsule_ok d" "succeeds c d" "\<not> fresh_event d e"
    using apply_resume_event_step [OF Cons.prems] .
  obtain f where f: "resume_run d es = Inr f" "capsule_ok f" "succeeds d f" "\<forall>e \<in> set es. \<not> fresh_event f e"
    using Cons.IH [OF d(2)] by blast
  have "\<not> fresh_event f e" by (rule stale_stays [OF f(3) d(4)])
  moreover have "succeeds c f" by (rule succeeds_trans [OF d(3) f(3)])
  ultimately show ?case using d(1) f by simp
qed

lemma resume_run_stale: "\<forall>e \<in> set es. \<not> fresh_event c e \<Longrightarrow> resume_run c es = Inr c"
  by (induction es) (auto simp: apply_stale)

text \<open>
  C31. Accounting survives replays. From a valid capsule any sequence of events, malformed, foreign,
  repeated or out of order, is processed without an error and gives a valid capsule of the same
  session; its sequence number never goes back, its retry count is the old one or zero; and
  replaying any of these events afterwards, in any order, changes nothing.
\<close>

theorem resume_events_replay_safe:
  assumes "capsule_ok c"
  shows "\<exists>d. resume_run c es = Inr d \<and> capsule_ok d \<and> binding_of d = binding_of c \<and>
    rc_event_sequence c \<le> rc_event_sequence d \<and>
    (rc_retry_count d = rc_retry_count c \<or> rc_retry_count d = 0) \<and>
    (\<forall>fs. set fs \<subseteq> set es \<longrightarrow> resume_run d fs = Inr d)"
proof -
  obtain d where d: "resume_run c es = Inr d" "capsule_ok d" "succeeds c d" "\<forall>e \<in> set es. \<not> fresh_event d e"
    using resume_run_total [OF assms] by blast
  have "resume_run d fs = Inr d" if "set fs \<subseteq> set es" for fs
    using d(4) that by (intro resume_run_stale) auto
  then show ?thesis using d by (auto simp: succeeds_def)
qed

definition sample_capsule :: ResumeCapsuleV1 where
  "sample_capsule =
     \<lparr>rc_bee_id = ''bee'', rc_session_id = ''s'', rc_spark_requirement = ''explicit_spark'', rc_model = ''m'',
      rc_provider = ''p'', rc_effort = ''e'', rc_account_binding = ''sha256:'' @ replicate 64 (CHR ''0''),
      rc_retry_count = 4, rc_event_sequence = 1, rc_active_window_ms = 299999\<rparr>"

definition sample_event :: "int \<Rightarrow> pyval" where
  "sample_event n =
     PDict [(''event_sequence'', PInt n), (''event_type'', PStr ''tool''), (''binding'', PDict (capsule_binding sample_capsule)),
            (''active_duration_ms'', PInt 1)]"

lemma sample_capsule_ok: "capsule_ok sample_capsule"
  by code_simp

theorem resume_events_replay_safe_witness:
  "\<exists>d. resume_run sample_capsule [sample_event 3, sample_event 2] = Inr d \<and> capsule_ok d \<and>
     resume_run d [sample_event 2, sample_event 3] = Inr d"
proof -
  obtain d where "resume_run sample_capsule [sample_event 3, sample_event 2] = Inr d" "capsule_ok d"
      "\<forall>fs. set fs \<subseteq> set [sample_event 3, sample_event 2] \<longrightarrow> resume_run d fs = Inr d"
    using resume_events_replay_safe [OF sample_capsule_ok] by blast
  moreover have "set [sample_event 2, sample_event 3] \<subseteq> set [sample_event 3, sample_event 2]" by simp
  ultimately show ?thesis by blast
qed

end
