(* ===== verification/Reset_Anchor.thy ===== *)
theory Reset_Anchor
  imports Hive_Types
begin

text \<open>
  \<open>selection/reset_anchor.py\<close>: the passive reset-anchor state machine and the planner that may only
  plan, with its safety gates.
\<close>

definition ANCHOR_STATES :: "string list" where
  "ANCHOR_STATES = [''grace'', ''due'', ''reserved'', ''attempted'', ''pending_confirmation'', ''anchored'', ''cooldown'']"

definition anchor_error :: "string \<Rightarrow> exn" where
  "anchor_error m = AnchorError m"

record ProactiveAnchorSafetyStatus =
  as_allowlisted :: bool
  as_cooldown_clear :: bool
  as_attempts_available :: bool
  as_kill_switch_active :: bool
  as_execute_enabled :: bool
  as_hard_sandbox_verified :: bool
  as_token_budget_verified :: bool
  as_runtime_limit_verified :: bool
  as_no_tools_verified :: bool
  as_empty_workspace_verified :: bool
  as_no_repository_data_verified :: bool
  as_fixed_internal_task_verified :: bool

definition gate_ready :: "ProactiveAnchorSafetyStatus \<Rightarrow> bool" where
  "gate_ready a =
     (as_allowlisted a \<and> as_cooldown_clear a \<and> as_attempts_available a \<and> \<not> as_kill_switch_active a \<and>
      as_execute_enabled a \<and> as_hard_sandbox_verified a \<and> as_token_budget_verified a \<and>
      as_runtime_limit_verified a \<and> as_no_tools_verified a \<and> as_empty_workspace_verified a \<and>
      as_no_repository_data_verified a \<and> as_fixed_internal_task_verified a)"

definition safety_public :: "ProactiveAnchorSafetyStatus \<Rightarrow> pyval" where
  "safety_public a = PDict
     [(''allowlisted'', PBool (as_allowlisted a)), (''cooldown_clear'', PBool (as_cooldown_clear a)),
      (''attempts_available'', PBool (as_attempts_available a)),
      (''kill_switch_active'', PBool (as_kill_switch_active a)), (''execute_enabled'', PBool (as_execute_enabled a)),
      (''hard_sandbox_verified'', PBool (as_hard_sandbox_verified a)),
      (''token_budget_verified'', PBool (as_token_budget_verified a)),
      (''runtime_limit_verified'', PBool (as_runtime_limit_verified a)),
      (''no_tools_verified'', PBool (as_no_tools_verified a)),
      (''empty_workspace_verified'', PBool (as_empty_workspace_verified a)),
      (''no_repository_data_verified'', PBool (as_no_repository_data_verified a)),
      (''fixed_internal_task_verified'', PBool (as_fixed_internal_task_verified a)),
      (''gate_ready'', PBool (gate_ready a)), (''raw_output'', PStr ''not_returned'')]"

record ProactiveAnchorPlan =
  pa_anchor_key :: string
  pa_attempt_number :: int
  pa_state :: string
  pa_reason_code :: string

definition ProactiveAnchorPlan_init :: "ProactiveAnchorPlan \<Rightarrow> ProactiveAnchorPlan result" where
  "ProactiveAnchorPlan_init p =
     and_then (check (is_sha256_digest (pa_anchor_key p) \<and> pa_state p = ''due'')
                 (anchor_error ''invalid_proactive_anchor_plan'')) (\<lambda>_.
     and_then (check (1 \<le> pa_attempt_number p \<and> pa_attempt_number p \<le> 3)
                 (anchor_error ''invalid_proactive_anchor_plan'')) (\<lambda>_. Inr p))"

definition anchor_plan_public :: "ProactiveAnchorPlan \<Rightarrow> pyval" where
  "anchor_plan_public p = PDict
     [(''anchor_key'', PStr (pa_anchor_key p)), (''attempt_number'', PInt (pa_attempt_number p)),
      (''state'', PStr (pa_state p)), (''reason_code'', PStr (pa_reason_code p)),
      (''raw_output'', PStr ''not_returned'')]"

record LimitObservation =
  lo_semantics :: string
  lo_quantity_value :: int
  lo_reset_kind :: string
  lo_confidence :: string
  lo_observed_at_utc :: py_datetime

definition anchor_time :: "py_datetime \<Rightarrow> string \<Rightarrow> py_datetime result" where
  "anchor_time d m = rescue (validate_utc_datetime d ''anchor_time'') (\<lambda>_. Inl (anchor_error m))"

definition LimitObservation_init :: "LimitObservation \<Rightarrow> LimitObservation result" where
  "LimitObservation_init o' =
     and_then (check (lo_semantics o' \<in> set [''remaining'', ''consumed''] \<and> 0 \<le> lo_quantity_value o' \<and>
                      lo_quantity_value o' \<le> 100) (anchor_error ''invalid_anchor_observation'')) (\<lambda>_.
     and_then (check (lo_reset_kind o' \<in> set [''rolling_unanchored'', ''rolling_anchored'', ''fixed''] \<and>
                      lo_confidence o' \<in> set [''verified'', ''observed'', ''unknown''])
                 (anchor_error ''invalid_anchor_observation'')) (\<lambda>_.
     and_then (anchor_time (lo_observed_at_utc o') ''invalid_anchor_observation'') (\<lambda>_. Inr o')))"

record AnchorRecord =
  an_anchor_key :: string
  an_state :: string
  an_attempt_count :: int
  an_admission_id :: "string option"
  an_cooldown_until_utc :: "py_datetime option"
  an_last_observed_at_utc :: "py_datetime option"

definition anchor_stamp :: "py_datetime option \<Rightarrow> unit result" where
  "anchor_stamp d =
     (case d of None \<Rightarrow> Inr () | Some t \<Rightarrow> and_then (anchor_time t ''invalid_anchor_timestamp'') (\<lambda>_. Inr ()))"

definition AnchorRecord_init :: "AnchorRecord \<Rightarrow> AnchorRecord result" where
  "AnchorRecord_init r =
     and_then (check (is_sha256_digest (an_anchor_key r) \<and> an_state r \<in> set ANCHOR_STATES)
                 (anchor_error ''invalid_anchor_record'')) (\<lambda>_.
     and_then (check (0 \<le> an_attempt_count r \<and> an_attempt_count r \<le> 3) (anchor_error ''invalid_anchor_attempts'')) (\<lambda>_.
     and_then (check (an_admission_id r \<noteq> Some '''') (anchor_error ''invalid_anchor_admission'')) (\<lambda>_.
     and_then (anchor_stamp (an_cooldown_until_utc r)) (\<lambda>_.
     and_then (anchor_stamp (an_last_observed_at_utc r)) (\<lambda>_. Inr r)))))"

subsection \<open>The state machine\<close>

definition fully_remaining :: "LimitObservation \<Rightarrow> bool" where
  "fully_remaining o' =
     (lo_semantics o' = ''remaining'' \<and> lo_quantity_value o' = 100 \<and> lo_reset_kind o' = ''rolling_unanchored'' \<and>
      lo_confidence o' = ''verified'')"

definition anchor_transition :: "AnchorRecord \<Rightarrow> LimitObservation \<Rightarrow> py_datetime \<Rightarrow> AnchorRecord result" where
  "anchor_transition r o' now =
     and_then (anchor_time now ''invalid_anchor_time'') (\<lambda>now.
     and_then (check (instant (lo_observed_at_utc o') \<le> instant now) (anchor_error ''future_anchor_observation'')) (\<lambda>_.
       AnchorRecord_init (r\<lparr>an_state := (if fully_remaining o'
                               then (if 3 \<le> an_attempt_count r then ''cooldown'' else ''due'') else ''grace''),
                            an_last_observed_at_utc := Some (lo_observed_at_utc o')\<rparr>)))"

definition cooldown_over :: "AnchorRecord \<Rightarrow> py_datetime \<Rightarrow> bool" where
  "cooldown_over r now = (case an_cooldown_until_utc r of None \<Rightarrow> True | Some t \<Rightarrow> instant now \<ge> instant t)"

definition anchor_due :: "AnchorRecord \<Rightarrow> py_datetime \<Rightarrow> bool" where
  "anchor_due r now =
     (case validate_utc_datetime now ''anchor_time'' of
        Inl e \<Rightarrow> False
      | Inr now \<Rightarrow> an_state r = ''due'' \<and> cooldown_over r now)"

subsection \<open>The planner\<close>

record ResetAnchorPlanner =
  rp_record :: AnchorRecord
  rp_allowed :: "string list"
  rp_execute_enabled :: bool
  rp_kill_switch_active :: bool
  rp_safety_flags :: "bool \<times> bool \<times> bool \<times> bool \<times> bool \<times> bool \<times> bool"

definition ResetAnchorPlanner_init ::
  "AnchorRecord \<Rightarrow> string list \<Rightarrow> bool \<Rightarrow> bool \<Rightarrow> bool \<times> bool \<times> bool \<times> bool \<times> bool \<times> bool \<times> bool \<Rightarrow>
   ResetAnchorPlanner result" where
  "ResetAnchorPlanner_init r allowed execute_enabled kill_switch_active flags =
     and_then (check (card (set allowed) \<le> 256 \<and> list_all is_sha256_digest allowed)
                 (anchor_error ''invalid_anchor_allowlist'')) (\<lambda>_.
       Inr \<lparr>rp_record = r, rp_allowed = allowed, rp_execute_enabled = execute_enabled,
            rp_kill_switch_active = kill_switch_active, rp_safety_flags = flags\<rparr>)"

definition safety_status :: "ResetAnchorPlanner \<Rightarrow> py_datetime \<Rightarrow> ProactiveAnchorSafetyStatus result" where
  "safety_status pl now =
     and_then (anchor_time now ''invalid_anchor_time'') (\<lambda>now.
       case rp_safety_flags pl of
         (sandbox, budget, runtime, tools, workspace, repository, task) \<Rightarrow>
           Inr \<lparr>as_allowlisted = an_anchor_key (rp_record pl) \<in> set (rp_allowed pl),
                as_cooldown_clear = cooldown_over (rp_record pl) now,
                as_attempts_available = an_attempt_count (rp_record pl) < 3,
                as_kill_switch_active = rp_kill_switch_active pl, as_execute_enabled = rp_execute_enabled pl,
                as_hard_sandbox_verified = sandbox, as_token_budget_verified = budget,
                as_runtime_limit_verified = runtime, as_no_tools_verified = tools,
                as_empty_workspace_verified = workspace, as_no_repository_data_verified = repository,
                as_fixed_internal_task_verified = task\<rparr>)"

definition plan_due :: "ResetAnchorPlanner \<Rightarrow> py_datetime \<Rightarrow> ProactiveAnchorPlan option result" where
  "plan_due pl now =
     and_then (safety_status pl now) (\<lambda>status.
       if \<not> anchor_due (rp_record pl) now \<or> \<not> as_allowlisted status \<or> \<not> as_cooldown_clear status \<or>
          \<not> as_attempts_available status
       then Inr None
       else and_then (ProactiveAnchorPlan_init
              \<lparr>pa_anchor_key = an_anchor_key (rp_record pl), pa_attempt_number = an_attempt_count (rp_record pl) + 1,
               pa_state = an_state (rp_record pl), pa_reason_code = ''anchor_due''\<rparr>) (\<lambda>p. Inr (Some p)))"

definition dry_run :: "ResetAnchorPlanner \<Rightarrow> py_datetime \<Rightarrow> (string \<times> pyval) list result" where
  "dry_run pl now =
     and_then (safety_status pl now) (\<lambda>status.
     and_then (plan_due pl now) (\<lambda>plan.
       Inr [(''mode'', PStr ''dry_run''), (''allowed'', PBool (plan \<noteq> None)),
            (''reason_code'', PStr
               (if plan \<noteq> None then ''anchor_due'' else if an_state (rp_record pl) \<noteq> ''due'' then ''anchor_not_due''
                else if \<not> as_cooldown_clear status then ''anchor_cooldown''
                else if \<not> as_allowlisted status then ''anchor_allowlist_blocked'' else ''anchor_attempt_limit'')),
            (''plan'', case plan of None \<Rightarrow> PNone | Some p \<Rightarrow> anchor_plan_public p),
            (''safety'', safety_public status), (''mutation_performed'', PBool False),
            (''raw_output'', PStr ''not_returned'')]))"

text \<open>\<open>execute\<close>; \<open>wall\<close> is the clock that is read when nothing was observed yet.\<close>

definition anchor_execute :: "ResetAnchorPlanner \<Rightarrow> ProactiveAnchorPlan \<Rightarrow> py_datetime \<Rightarrow> (string \<times> pyval) list result" where
  "anchor_execute pl plan wall =
     and_then (check (pa_anchor_key plan = an_anchor_key (rp_record pl))
                 (anchor_error ''invalid_proactive_anchor_plan'')) (\<lambda>_.
     and_then (safety_status pl (case an_last_observed_at_utc (rp_record pl) of None \<Rightarrow> wall | Some t \<Rightarrow> t)) (\<lambda>status.
       Inr [(''allowed'', PBool False), (''reason_code'', PStr ''selection_proactive_anchor_safety_gate''),
            (''plan'', anchor_plan_public plan), (''safety'', safety_public status),
            (''mutation_performed'', PBool False), (''raw_output'', PStr ''not_returned'')]))"

subsection \<open>Anchors are planned, never executed\<close>

lemma safety_status_eq:
  assumes "validate_utc_datetime now ''anchor_time'' = Inr u"
  obtains st where "safety_status pl now = Inr st"
    "as_allowlisted st \<longleftrightarrow> an_anchor_key (rp_record pl) \<in> set (rp_allowed pl)"
    "as_cooldown_clear st \<longleftrightarrow> cooldown_over (rp_record pl) u"
    "as_attempts_available st \<longleftrightarrow> an_attempt_count (rp_record pl) < 3"
  using assms by (cases "rp_safety_flags pl") (auto simp: safety_status_def anchor_time_def)

text \<open>
  Anchors are planned within their limits and never executed. For a valid record and time the
  planner answers, and it plans exactly when the anchor is due, allow-listed, out of its cooldown and
  has an attempt left; the plan then has the next attempt number, at most three; the dry run reports
  the same decision. Whatever the safety flags say, execution is refused without a mutation.
\<close>

theorem anchors_only_planned:
  assumes "AnchorRecord_init (rp_record pl) = Inr (rp_record pl)"
    and "validate_utc_datetime now ''anchor_time'' = Inr u"
  shows "\<exists>plan out. plan_due pl now = Inr plan \<and> dry_run pl now = Inr out \<and>
    (plan \<noteq> None \<longleftrightarrow> an_state (rp_record pl) = ''due'' \<and> an_anchor_key (rp_record pl) \<in> set (rp_allowed pl) \<and>
       cooldown_over (rp_record pl) u \<and> an_attempt_count (rp_record pl) < 3) \<and>
    (\<forall>p. plan = Some p \<longrightarrow> pa_anchor_key p = an_anchor_key (rp_record pl) \<and>
       pa_attempt_number p = an_attempt_count (rp_record pl) + 1 \<and> pa_attempt_number p \<le> 3 \<and>
       (\<forall>wall r. anchor_execute pl p wall = Inr r \<longrightarrow>
          map_of r ''allowed'' = Some (PBool False) \<and> map_of r ''mutation_performed'' = Some (PBool False))) \<and>
    map_of out ''allowed'' = Some (PBool (plan \<noteq> None))"
proof -
  let ?r = "rp_record pl"
  obtain st where st: "safety_status pl now = Inr st" "as_allowlisted st \<longleftrightarrow> an_anchor_key ?r \<in> set (rp_allowed pl)"
    "as_cooldown_clear st \<longleftrightarrow> cooldown_over ?r u" "as_attempts_available st \<longleftrightarrow> an_attempt_count ?r < 3"
    by (rule safety_status_eq [OF assms(2)])
  have key: "is_sha256_digest (an_anchor_key ?r)" "0 \<le> an_attempt_count ?r"
    using assms(1) by (auto simp: AnchorRecord_init_def and_then_eq_Inr check_eq_Inr)
  have due: "anchor_due ?r now \<longleftrightarrow> an_state ?r = ''due'' \<and> cooldown_over ?r u"
    using assms(2) by (simp add: anchor_due_def)
  let ?ok = "an_state ?r = ''due'' \<and> an_anchor_key ?r \<in> set (rp_allowed pl) \<and> cooldown_over ?r u \<and> an_attempt_count ?r < 3"
  let ?plan = "\<lparr>pa_anchor_key = an_anchor_key ?r, pa_attempt_number = an_attempt_count ?r + 1,
     pa_state = an_state ?r, pa_reason_code = ''anchor_due''\<rparr>"
  have plan: "plan_due pl now = Inr (if ?ok then Some ?plan else None)"
    using st key due by (auto simp: plan_due_def ProactiveAnchorPlan_init_def)
  have refused: "map_of r ''allowed'' = Some (PBool False) \<and> map_of r ''mutation_performed'' = Some (PBool False)"
    if "anchor_execute pl p wall = Inr r" for p wall r
    using that by (auto simp: anchor_execute_def and_then_eq_Inr)
  obtain out where "dry_run pl now = Inr out" "map_of out ''allowed'' = Some (PBool ?ok)"
    using st(1) plan by (simp add: dry_run_def)
  then show ?thesis using plan refused by auto
qed

definition sample_anchor :: AnchorRecord where
  "sample_anchor =
     \<lparr>an_anchor_key = ''sha256:'' @ replicate 64 (CHR ''a''), an_state = ''due'', an_attempt_count = 2,
      an_admission_id = None, an_cooldown_until_utc = Some (utc_at 100), an_last_observed_at_utc = None\<rparr>"

definition sample_planner :: ResetAnchorPlanner where
  "sample_planner =
     \<lparr>rp_record = sample_anchor, rp_allowed = [an_anchor_key sample_anchor], rp_execute_enabled = True,
      rp_kill_switch_active = False, rp_safety_flags = (True, True, True, True, True, True, True)\<rparr>"

theorem anchors_only_planned_witness:
  "\<exists>p. plan_due sample_planner (utc_at 200) = Inr (Some p) \<and> pa_attempt_number p = 3 \<and>
     (\<forall>wall r. anchor_execute sample_planner p wall = Inr r \<longrightarrow> map_of r ''allowed'' = Some (PBool False))"
proof -
  have rec: "AnchorRecord_init (rp_record sample_planner) = Inr (rp_record sample_planner)" by code_simp
  have time: "validate_utc_datetime (utc_at 200) ''anchor_time'' = Inr (utc_at 200)" by code_simp
  have ok: "an_state (rp_record sample_planner) = ''due''" "an_anchor_key (rp_record sample_planner) \<in> set (rp_allowed sample_planner)"
    "cooldown_over (rp_record sample_planner) (utc_at 200)" "an_attempt_count (rp_record sample_planner) = 2"
    by (simp_all add: sample_planner_def sample_anchor_def cooldown_over_def)
  show ?thesis using anchors_only_planned [OF rec time] ok by auto
qed

end
