(* ===== verification/Task_Classification.thy ===== *)
theory Task_Classification
  imports Hive_Types
begin

text \<open>\<open>selection/task_classification.py\<close>: the conservative classifier of tasks.\<close>

record TaskClassificationRequest =
  tr_objective :: string
  tr_scope_kind :: string
  tr_changed_files :: "string list"
  tr_security_sensitive :: bool
  tr_migration :: bool
  tr_cross_repository :: bool
  tr_requires_subagents :: bool
  tr_ci_or_release :: bool
  tr_complexity_override :: "TaskComplexity option"
  tr_concurrency :: bool
  tr_data_change :: bool
  tr_architecture :: bool
  tr_task_phase :: string
  tr_fully_specified :: bool
  tr_reversible :: bool
  tr_low_risk :: bool
  tr_root_cause_known :: bool

definition task_error :: "string \<Rightarrow> exn" where
  "task_error m = TaskClassificationError m"

definition TaskClassificationRequest_init :: "TaskClassificationRequest \<Rightarrow> TaskClassificationRequest result" where
  "TaskClassificationRequest_init r =
     and_then (check (1 \<le> length (tr_objective r) \<and> length (tr_objective r) \<le> 8192) (task_error ''invalid_task_objective'')) (\<lambda>_.
     and_then (check (tr_scope_kind r \<in> set [''read'', ''write'', ''unknown'']) (task_error ''invalid_task_scope'')) (\<lambda>_.
     and_then (check (length (tr_changed_files r) \<le> 256) (task_error ''invalid_changed_files'')) (\<lambda>_.
     and_then (check (list_all (\<lambda>f. 1 \<le> length f \<and> length f \<le> 512) (tr_changed_files r))
                 (task_error ''invalid_changed_files'')) (\<lambda>_.
     and_then (check (tr_task_phase r \<in> set [''atomic_fix'', ''diagnosis'', ''unknown'']) (task_error ''invalid_task_phase'')) (\<lambda>_.
       Inr r)))))"

record TaskProfile =
  tp_complexity :: TaskComplexity
  tp_reason_codes :: "string list"
  tp_expected_usage_micro :: "int option"
  tp_required_capabilities :: "string list"
  tp_spark_eligible :: bool

definition hard_evidence :: "TaskClassificationRequest \<Rightarrow> (bool \<times> string) list" where
  "hard_evidence r =
     [(tr_security_sensitive r, ''security_sensitive''), (tr_concurrency r, ''concurrency''),
      (tr_migration r, ''migration''), (tr_data_change r, ''data_change''),
      (tr_cross_repository r, ''cross_repository''), (tr_architecture r, ''architecture''),
      (tr_ci_or_release r, ''ci_or_release''), (tr_requires_subagents r, ''subagents_required'')]"

definition hard_reasons :: "TaskClassificationRequest \<Rightarrow> string list" where
  "hard_reasons r =
     map snd (filter fst (hard_evidence r)) @ (if 8 < length (tr_changed_files r) then [''wide_change''] else [])"

definition is_positive_atomic_write :: "TaskClassificationRequest \<Rightarrow> bool" where
  "is_positive_atomic_write r =
     (tr_scope_kind r = ''write'' \<and> 1 \<le> length (tr_changed_files r) \<and> length (tr_changed_files r) \<le> 8 \<and>
      tr_task_phase r = ''atomic_fix'' \<and> tr_fully_specified r \<and> tr_reversible r \<and> tr_low_risk r \<and>
      tr_root_cause_known r \<and> tr_complexity_override r \<noteq> Some MEDIUM \<and> tr_complexity_override r \<noteq> Some COMPLEX \<and>
      \<not> (tr_security_sensitive r \<or> tr_concurrency r \<or> tr_migration r \<or> tr_data_change r \<or> tr_cross_repository r \<or>
         tr_architecture r \<or> tr_ci_or_release r \<or> tr_requires_subagents r))"

definition phase_reasons :: "TaskClassificationRequest \<Rightarrow> string list" where
  "phase_reasons r =
     (if tr_task_phase r = ''diagnosis'' then [''task_phase_diagnosis'']
      else if tr_task_phase r = ''unknown'' then [''task_phase_unknown''] else [])"

definition unknown_reasons :: "TaskClassificationRequest \<Rightarrow> string list" where
  "unknown_reasons r =
     (if tr_scope_kind r = ''unknown'' then [''scope_unknown''] else []) @
     (if tr_scope_kind r = ''read'' \<and> tr_changed_files r \<noteq> [] then [''read_scope_with_changed_files''] else []) @
     (if tr_scope_kind r = ''write''
      then (if tr_changed_files r = [] then [''write_paths_missing''] else []) @ phase_reasons r @
           (if \<not> tr_root_cause_known r then [''root_cause_unknown''] else []) @
           (if \<not> tr_fully_specified r then [''task_not_fully_specified''] else []) @
           (if \<not> tr_reversible r then [''not_reversible''] else []) @
           (if \<not> tr_low_risk r then [''risk_not_low''] else [])
      else phase_reasons r)"

definition task_complexity :: "TaskClassificationRequest \<Rightarrow> TaskComplexity \<times> string list" where
  "task_complexity r =
     (if hard_reasons r \<noteq> [] then (COMPLEX, hard_reasons r)
      else if tr_complexity_override r = Some COMPLEX then (COMPLEX, [''complexity_override''])
      else if tr_complexity_override r = Some MEDIUM then (MEDIUM, [''medium_complexity_override''])
      else if tr_scope_kind r = ''read'' \<and> tr_changed_files r = [] then (SIMPLE, [''positive_read_only_evidence''])
      else if tr_scope_kind r = ''write'' \<and> is_positive_atomic_write r
      then (SIMPLE, [''positive_atomic_low_risk_write_evidence''])
      else (UNKNOWN, unknown_reasons r))"

definition classify :: "TaskClassificationRequest \<Rightarrow> TaskProfile" where
  "classify r =
     (case task_complexity r of
        (complexity, reasons) \<Rightarrow>
          \<lparr>tp_complexity = complexity,
           tp_reason_codes = dict_fromkeys
             (reasons @ (if tr_complexity_override r = Some SIMPLE \<and> complexity \<noteq> SIMPLE
                         then [''simple_override_rejected''] else [])),
           tp_expected_usage_micro = None,
           tp_required_capabilities =
             (if tr_scope_kind r = ''read'' then [''read''] else [''write'', ''complex_task_eligible'']),
           tp_spark_eligible = False\<rparr>)"

text \<open>
  An override may make a task harder but never simple, and a task with hard evidence is complex
  whatever the override says.
\<close>

theorem override_never_simplifies:
  "(tp_complexity (classify r) = SIMPLE \<longrightarrow> tp_complexity (classify (r\<lparr>tr_complexity_override := None\<rparr>)) = SIMPLE) \<and>
   (hard_reasons r \<noteq> [] \<longrightarrow> tp_complexity (classify r) = COMPLEX) \<and> \<not> tp_spark_eligible (classify r)"
  by (simp add: classify_def task_complexity_def hard_reasons_def hard_evidence_def is_positive_atomic_write_def)

end
