(* ===== verification/Selection_State.thy ===== *)
theory Selection_State
  imports Selection_Planner Principals
begin

text \<open>
  The small modules around the planner: \<open>selection/policy.py\<close>, the typed facade;
  \<open>selection/state.py\<close>, the in-process state with compare-and-replace; and the eligibility decision
  of \<open>hive/capabilities.py\<close>.
\<close>

subsection \<open>The facade\<close>

record EligibilityResult =
  er_eligible :: bool
  er_reason_codes :: "string list"

type_synonym SelectionPriorityKey = "int \<times> int \<times> int \<times> int \<times> string"

record SelectionDecision =
  sd_selected :: "SelectionResult option"
  sd_eligible_count :: nat
  sd_reason_codes :: "string list"

definition evaluate_eligibility :: "SelectionCandidate \<Rightarrow> EligibilityResult" where
  "evaluate_eligibility c =
     (case eligibility_reason c of
        None \<Rightarrow> \<lparr>er_eligible = True, er_reason_codes = []\<rparr>
      | Some reason \<Rightarrow> \<lparr>er_eligible = False, er_reason_codes = [reason]\<rparr>)"

definition priority_key :: "SelectionCandidate \<Rightarrow> FairnessLedger \<Rightarrow> py_datetime \<Rightarrow> SelectionPriorityKey result" where
  "priority_key c state now =
     and_then (normalized_service state (sc_account_key c) now) (\<lambda>fairness.
       Inr (0, fairness, last_selected_epoch state (sc_account_key c), sc_rotation_distance c, sc_agent_id c))"

definition select_candidate ::
  "SelectionCandidate list \<Rightarrow> SelectionPolicy \<Rightarrow> py_datetime \<Rightarrow> FairnessLedger option \<Rightarrow> SelectionDecision result" where
  "select_candidate candidates policy now ledger =
     and_then (preview_selection candidates policy now ledger) (\<lambda>preview.
       Inr \<lparr>sd_selected = pv_selected preview, sd_eligible_count = pv_eligible_count preview,
            sd_reason_codes = map snd (pv_exclusions preview)\<rparr>)"

subsection \<open>Resource state\<close>

record ResourceState =
  rs_revision :: int
  rs_fairness :: FairnessLedger
  rs_selection_ids :: "string list"

definition ResourceState_init :: "ResourceState \<Rightarrow> ResourceState result" where
  "ResourceState_init s =
     and_then (check (0 \<le> rs_revision s \<and> rs_revision s \<le> 10 ^ 12) (ResourceStateError ''invalid_resource_revision'')) (\<lambda>_.
     and_then (check (length (rs_selection_ids s) \<le> 4096) (ResourceStateError ''invalid_selection_ids'')) (\<lambda>_.
     and_then (check (list_all (\<lambda>i. 1 \<le> length i \<and> length i \<le> 128) (rs_selection_ids s))
                 (ResourceStateError ''invalid_selection_ids'')) (\<lambda>_. Inr s)))"

definition ResourceStateStore_init :: "ResourceState option \<Rightarrow> ResourceState" where
  "ResourceStateStore_init s =
     (case s of None \<Rightarrow> \<lparr>rs_revision = 0, rs_fairness = [], rs_selection_ids = []\<rparr> | Some s \<Rightarrow> s)"

definition compare_and_replace :: "int \<Rightarrow> ResourceState \<Rightarrow> (ResourceState, ResourceState) op" where
  "compare_and_replace expected_revision new s =
     (if expected_revision \<noteq> rs_revision s then (Inl (ResourceStateError ''stale_resource_revision''), s)
      else if rs_revision new \<noteq> expected_revision + 1 then (Inl (ResourceStateError ''invalid_resource_revision''), s)
      else (Inr new, new))"

interpretation resource: versioned_store "\<lambda>(_ :: unit). compare_and_replace" "\<lambda>s _. Some (rs_revision s)" "\<lambda>_. True"
  by unfold_locales (auto simp: compare_and_replace_def split: if_splits)

text \<open>
  Of any number of writers that hold the same revision at most one succeeds, and the revision counts
  the successes.
\<close>

theorem resource_writers_serialized:
  assumes "run_puts (\<lambda>(_ :: unit). compare_and_replace) xs s = (rs, s')"
  shows "rs_revision s' = rs_revision s + int (successes () rs) \<and>
    ((\<exists>v. \<forall>(_, w, _) \<in> set xs. w = v) \<longrightarrow> successes () rs \<le> 1)"
proof -
  have "rs_revision s' = rs_revision s + int (successes () rs)"
    using resource.version_counts [OF _ _ assms, where i = "()" and n = "rs_revision s"] by simp
  moreover have "successes () rs \<le> 1" if "\<forall>(_, w, _) \<in> set xs. w = v" for v
    by (rule resource.at_most_one_success [OF _ assms, where v = v]) (use that in auto)
  ultimately show ?thesis by blast
qed

subsection \<open>Automatic reports of the root executive\<close>

definition GODDESS_REPORT_AUTO_CAPABILITY :: string where
  "GODDESS_REPORT_AUTO_CAPABILITY = ''goddess.report.auto''"

definition requires_goddess_auto_report ::
  "(string \<Rightarrow> py_datetime option) \<Rightarrow> state_io \<Rightarrow> Principal \<Rightarrow> string list \<Rightarrow> py_datetime \<Rightarrow> (PrincipalRegistry, bool) op" where
  "requires_goddess_auto_report other io p capabilities now reg =
     (case validate_utc_datetime now ''timestamp'' of
        Inl e \<Rightarrow> (Inl (CapabilityError ''invalid_capability_time''), reg)
      | Inr normalized \<Rightarrow>
          if pn_state p \<noteq> ''active'' \<or> pn_class_id p \<notin> set ROOT_EXECUTIVE_CLASSES \<or>
             GODDESS_REPORT_AUTO_CAPABILITY \<notin> set capabilities
          then (Inr False, reg)
          else case registry_get other io (pn_principal_id p) reg of
            (Inl e, reg) \<Rightarrow> (Inr False, reg)
          | (Inr authoritative, reg) \<Rightarrow>
              if authoritative \<noteq> p then (Inr False, reg)
              else case has_active_execution_binding other io (pn_principal_id p) normalized reg of
                (Inl e, reg) \<Rightarrow> (Inl (CapabilityError ''binding_check_unavailable''), reg)
              | (Inr b, reg) \<Rightarrow> (Inr b, reg))"

text \<open>
  A report is demanded only of an active root executive whose record is the one of the registry and
  who holds the capability.
\<close>

theorem auto_report_authoritative:
  assumes "requires_goddess_auto_report other io p capabilities now reg = (Inr True, reg')"
  shows "pn_state p = ''active'' \<and> pn_class_id p \<in> set ROOT_EXECUTIVE_CLASSES \<and>
    GODDESS_REPORT_AUTO_CAPABILITY \<in> set capabilities \<and>
    (\<exists>reg1. registry_get other io (pn_principal_id p) reg = (Inr p, reg1) \<and>
       (\<exists>u. instant u = instant now \<and>
          has_active_execution_binding other io (pn_principal_id p) u reg1 = (Inr True, reg')))"
  using assms
  by (auto simp: requires_goddess_auto_report_def dest: validate_utc_datetime_Inr
      split: sum.splits if_splits prod.splits)

end
