(* ===== verification/Model_Policy.thy ===== *)
theory Model_Policy
  imports Hive_Types
begin

text \<open>
  \<open>selection/model_policy.py\<close>: the definitions of models with their checks and the registry with its
  lookups. Retired models are never handed out.
\<close>

definition RETIRED_MODEL_SELECTORS :: "string list" where
  "RETIRED_MODEL_SELECTORS = [''gpt-5.3-codex-spark'', ''spark'']"

record ModelDefinition =
  md_model_id :: string
  md_aliases :: "string list"
  md_role :: string
  md_provider :: string
  md_capabilities :: "string list"
  md_budget_key :: string
  md_enabled :: bool
  md_family :: string
  md_rank :: int
  md_reasoning_levels :: "string list"
  md_default_reasoning :: string
  md_cost_tier :: string
  md_spawn_behavior :: string

definition policy_error :: "string \<Rightarrow> exn" where
  "policy_error m = ModelPolicyError m"

definition model_texts :: "ModelDefinition \<Rightarrow> (string \<times> string) list" where
  "model_texts m =
     [(md_model_id m, ''model_id''), (md_provider m, ''provider''), (md_budget_key m, ''budget_key''),
      (md_family m, ''family''), (md_cost_tier m, ''cost_tier'')]"

definition ModelDefinition_init :: "ModelDefinition \<Rightarrow> ModelDefinition result" where
  "ModelDefinition_init m =
     and_then (map_result (\<lambda>(v, f). check (text_ok 128 v) (policy_error (''invalid_'' @ f))) (model_texts m)) (\<lambda>_.
     and_then (check (md_role m \<in> set [''primary'', ''secondary_simple'']) (policy_error ''unknown_model_role'')) (\<lambda>_.
     and_then (check (length (md_aliases m) \<le> 32 \<and> distinct (md_aliases m)) (policy_error ''invalid_model_aliases'')) (\<lambda>_.
     and_then (check (length (md_capabilities m) \<le> 64) (policy_error ''invalid_model_capabilities'')) (\<lambda>_.
     and_then (check (list_all (text_ok 128) (md_aliases m @ md_capabilities m)) (policy_error ''invalid_model_value'')) (\<lambda>_.
     and_then (check (0 \<le> md_rank m \<and> md_rank m \<le> 10000) (policy_error ''invalid_model_rank'')) (\<lambda>_.
     and_then (check (md_reasoning_levels m \<noteq> [] \<and> distinct (md_reasoning_levels m) \<and>
                      set (md_reasoning_levels m) \<subseteq> set [''low'', ''medium'', ''high'', ''xhigh'', ''max''] \<and>
                      md_default_reasoning m \<in> set (md_reasoning_levels m))
                 (policy_error ''invalid_model_reasoning'')) (\<lambda>_.
     and_then (check (md_spawn_behavior m \<in> set [''manual'', ''autonomous'', ''required''])
                 (policy_error ''invalid_model_spawn_behavior'')) (\<lambda>_. Inr m))))))))"

record ModelPolicyRegistry =
  mr_definitions :: "(string, ModelDefinition) dict"
  mr_aliases :: "(string, ModelDefinition) dict"

definition ModelPolicyRegistry_init :: "ModelDefinition list \<Rightarrow> ModelPolicyRegistry result" where
  "ModelPolicyRegistry_init ms =
     (let ids = map md_model_id ms; aliases = concat (map md_aliases ms); budgets = map md_budget_key ms
      in and_then (check (distinct ids \<and> distinct aliases \<and> set ids \<inter> set aliases = {} \<and> distinct budgets)
                     (policy_error ''duplicate_model_id_or_alias'')) (\<lambda>_.
         and_then (check (list_ex (\<lambda>m. md_role m = ''primary'') ms) (policy_error ''primary_model_required'')) (\<lambda>_.
           Inr \<lparr>mr_definitions = map (\<lambda>m. (md_model_id m, m)) ms,
                mr_aliases = concat (map (\<lambda>m. map (\<lambda>a. (a, m)) (md_aliases m)) ms)\<rparr>)))"

definition not_retired :: "ModelDefinition option \<Rightarrow> ModelDefinition option" where
  "not_retired d = (case d of Some m \<Rightarrow> if md_family m \<noteq> ''spark'' then Some m else None | None \<Rightarrow> None)"

definition get_exact :: "ModelPolicyRegistry \<Rightarrow> string \<Rightarrow> ModelDefinition option" where
  "get_exact reg model_id =
     (if model_id \<in> set RETIRED_MODEL_SELECTORS then None else not_retired (map_of (mr_definitions reg) model_id))"

definition resolve_alias :: "ModelPolicyRegistry \<Rightarrow> string \<Rightarrow> ModelDefinition option" where
  "resolve_alias reg alias =
     (if alias \<in> set RETIRED_MODEL_SELECTORS then None else not_retired (map_of (mr_aliases reg) alias))"

text \<open>\<open>public\<close> yields one dictionary per definition; the definition itself has the same fields.\<close>

definition registry_public :: "ModelPolicyRegistry \<Rightarrow> ModelDefinition list" where
  "registry_public reg =
     filter (\<lambda>m. md_model_id m \<notin> set RETIRED_MODEL_SELECTORS \<and> md_family m \<noteq> ''spark'') (map snd (mr_definitions reg))"

lemma registry_of:
  assumes "ModelPolicyRegistry_init ms = Inr reg"
  shows "map snd (mr_definitions reg) = ms" "distinct (map md_model_id ms)" "distinct (concat (map md_aliases ms))"
    "set (map md_model_id ms) \<inter> set (concat (map md_aliases ms)) = {}"
    "mr_definitions reg = map (\<lambda>m. (md_model_id m, m)) ms"
    "mr_aliases reg = concat (map (\<lambda>m. map (\<lambda>a. (a, m)) (md_aliases m)) ms)"
  using assms by (auto simp: ModelPolicyRegistry_init_def Let_def result_simps comp_def)

lemma alias_lookup:
  assumes "distinct (concat (map md_aliases ms))"
  shows "map_of (concat (map (\<lambda>m. map (\<lambda>a. (a, m)) (md_aliases m)) ms)) a = Some m \<longleftrightarrow> m \<in> set ms \<and> a \<in> set (md_aliases m)"
proof -
  have "map fst (concat (map (\<lambda>m. map (\<lambda>a. (a, m)) (md_aliases m)) ms)) = concat (map md_aliases ms)"
    by (simp add: map_concat comp_def)
  then show ?thesis using assms by (subst map_of_eq_Some_iff) auto
qed

text \<open>
  A model that the registry hands out, by identifier or by alias, is one of its public models, and a
  name never means two models.
\<close>

theorem lookups_public:
  assumes "ModelPolicyRegistry_init ms = Inr reg"
  shows "(get_exact reg name = Some m \<longrightarrow> m \<in> set (registry_public reg) \<and> md_model_id m = name) \<and>
    (resolve_alias reg name = Some m \<and> md_model_id m \<notin> set RETIRED_MODEL_SELECTORS \<longrightarrow>
       m \<in> set (registry_public reg) \<and> name \<in> set (md_aliases m)) \<and>
    (get_exact reg name = None \<or> resolve_alias reg name = None)"
proof -
  note reg = registry_of [OF assms]
  have ids: "map_of (mr_definitions reg) name = Some m \<longleftrightarrow> m \<in> set ms \<and> md_model_id m = name" for m
    unfolding reg(5) using reg(2) by (subst map_of_eq_Some_iff) (auto simp: comp_def)
  have als: "map_of (mr_aliases reg) name = Some m \<longleftrightarrow> m \<in> set ms \<and> name \<in> set (md_aliases m)" for m
    unfolding reg(6) by (rule alias_lookup [OF reg(3)])
  have "map_of (mr_definitions reg) name = None \<or> map_of (mr_aliases reg) name = None"
  proof (rule ccontr)
    assume "\<not> ?thesis"
    then obtain m n where "m \<in> set ms" "md_model_id m = name" "n \<in> set ms" "name \<in> set (md_aliases n)"
      using ids als by auto
    then show False using reg(4) by auto
  qed
  moreover have "set (registry_public reg) = {m \<in> set ms. md_model_id m \<notin> set RETIRED_MODEL_SELECTORS \<and> md_family m \<noteq> ''spark''}"
    unfolding registry_public_def reg(1) by auto
  ultimately show ?thesis
    using ids als by (auto simp: get_exact_def resolve_alias_def not_retired_def split: option.splits if_splits) blast
qed

end
