(* ===== verification/Agent_Resolver.thy ===== *)
theory Agent_Resolver
  imports Model_Policy
begin

text \<open>
  \<open>agent_resolver.py\<close>: the policies of classes and models, the resolution of a request to a class,
  a lifecycle, a model and a reasoning level, the offer of all valid combinations and the check of a
  decision against an offer. \<open>sha256\<close> and \<open>dumps\<close> (the compact ASCII JSON text with sorted keys)
  are parameters.
\<close>

definition REASONING_RANK :: "(string \<times> int) list" where
  "REASONING_RANK = [(''low'', 10), (''medium'', 20), (''high'', 30), (''xhigh'', 40), (''max'', 50)]"

definition LIFECYCLE_ALIASES :: "(string \<times> string) list" where
  "LIFECYCLE_ALIASES = [(''invocation'', ''ephemeral'')]"

definition LEADERSHIP_CLASS_IDS :: "string list" where
  "LEADERSHIP_CLASS_IDS = [''goettin'', ''gottbiene'', ''koenigin'', ''teamleiterin'']"

definition LIFECYCLE_RANK :: "(string \<times> int) list" where
  "LIFECYCLE_RANK = [(''ephemeral'', 10), (''binding'', 20), (''persistent'', 30)]"

definition MAX_RESOLUTION_TEXT_LENGTH :: nat where
  "MAX_RESOLUTION_TEXT_LENGTH = 256"

definition MAX_REASON_CODES :: nat where
  "MAX_REASON_CODES = 64"

definition MAX_SELECTION_OPTIONS :: nat where
  "MAX_SELECTION_OPTIONS = 4096"

text \<open>
  \<open>REASONING_RANK[level]\<close>: the constructors of both policies admit known levels only, so the lookup
  does not fail where the code makes it.
\<close>

definition known_level :: "string \<Rightarrow> bool" where
  "known_level level = (level \<in> set (map fst REASONING_RANK))"

definition reasoning_rank :: "string \<Rightarrow> int" where
  "reasoning_rank level = (case map_of REASONING_RANK level of Some r \<Rightarrow> r | None \<Rightarrow> 0)"

subsection \<open>Policies, requests, decisions, offers\<close>

record ModelPolicy =
  mpol_model_id :: string
  mpol_family :: string
  mpol_rank :: int
  mpol_reasoning_levels :: "string list"
  mpol_capabilities :: "string list"

definition name_list :: "string list \<Rightarrow> bool" where
  "name_list xs = (list_all (\<lambda>x. x \<noteq> []) xs \<and> distinct xs)"

definition ModelPolicy_init :: "ModelPolicy \<Rightarrow> ModelPolicy result" where
  "ModelPolicy_init m =
     and_then (check (mpol_model_id m \<noteq> [] \<and> mpol_family m \<noteq> [] \<and> 0 \<le> mpol_rank m) (ValueErrorOf ''invalid_model_policy'')) (\<lambda>_.
     and_then (check (mpol_reasoning_levels m \<noteq> [] \<and> list_all known_level (mpol_reasoning_levels m))
                 (ValueErrorOf ''invalid_model_reasoning_levels'')) (\<lambda>_.
     and_then (check (length (mpol_capabilities m) \<le> 64 \<and> name_list (mpol_capabilities m))
                 (ValueErrorOf ''invalid_model_capabilities'')) (\<lambda>_. Inr m)))"

record AgentClassPolicy =
  acp_class_id :: string
  acp_default_lifecycle :: string
  acp_allowed_lifecycles :: "string list"
  acp_allowed_families :: "string list"
  acp_min_reasoning :: string
  acp_max_reasoning :: string
  acp_supported_scopes :: "string list"
  acp_allowed_model_ids :: "string list"

definition AgentClassPolicy_init :: "AgentClassPolicy \<Rightarrow> AgentClassPolicy result" where
  "AgentClassPolicy_init c =
     and_then (check (acp_class_id c \<noteq> [] \<and> acp_default_lifecycle c \<in> set (acp_allowed_lifecycles c) \<and>
                      known_level (acp_min_reasoning c) \<and> known_level (acp_max_reasoning c) \<and>
                      reasoning_rank (acp_min_reasoning c) \<le> reasoning_rank (acp_max_reasoning c) \<and>
                      name_list (acp_allowed_model_ids c))
                 (ValueErrorOf ''invalid_agent_class_policy'')) (\<lambda>_. Inr c)"

record ResolutionRequest =
  rreq_scope_kind :: string
  rreq_complexity :: string
  rreq_requested_class :: "string option"
  rreq_requested_lifecycle :: "string option"
  rreq_requested_model :: "string option"
  rreq_requested_reasoning :: "string option"
  rreq_required_capabilities :: "string list"
  rreq_spark_eligible :: bool

definition ResolutionRequest_init :: "ResolutionRequest \<Rightarrow> ResolutionRequest result" where
  "ResolutionRequest_init r =
     and_then (check (rreq_scope_kind r \<in> set [''read'', ''write'', ''unknown'']) (ValueErrorOf ''invalid_scope_kind'')) (\<lambda>_.
     and_then (check (rreq_complexity r \<in> set [''simple'', ''medium'', ''complex'', ''unknown''])
                 (ValueErrorOf ''invalid_complexity'')) (\<lambda>_.
     and_then (check (length (rreq_required_capabilities r) \<le> 64 \<and> name_list (rreq_required_capabilities r))
                 (ValueErrorOf ''invalid_required_capabilities'')) (\<lambda>_.
     and_then (check (rreq_requested_reasoning r \<noteq> Some ''ultra'') (ValueErrorOf ''invalid_requested_reasoning'')) (\<lambda>_.
       Inr r))))"

record ResolutionDecision =
  rdec_class_id :: string
  rdec_lifecycle :: string
  rdec_model :: string
  rdec_reasoning :: string
  rdec_reason_codes :: "string list"
  rdec_fallback :: bool
  rdec_requested_class :: "string option"
  rdec_requested_lifecycle :: "string option"
  rdec_requested_model :: "string option"
  rdec_requested_reasoning :: "string option"

text \<open>\<open>SelectionOption\<close>: class, lifecycle, model and reasoning level.\<close>

type_synonym SelectionOption = "string \<times> string \<times> string \<times> string"

record SelectionOffer =
  soff_generation :: string
  soff_classes :: "string list"
  soff_lifecycles :: "string list"
  soff_models :: "string list"
  soff_reasoning_levels :: "string list"
  soff_options :: "SelectionOption list"

subsection \<open>Digests\<close>

definition canonical_worker_lifecycle :: "string \<Rightarrow> string result" where
  "canonical_worker_lifecycle lifecycle =
     (let canonical = (case map_of LIFECYCLE_ALIASES lifecycle of Some l \<Rightarrow> l | None \<Rightarrow> lifecycle)
      in and_then (check (canonical \<in> set (map fst LIFECYCLE_RANK)) (ValueErrorOf ''invalid_worker_lifecycle'')) (\<lambda>_.
           Inr canonical))"

definition bounded_resolution_text :: "string \<Rightarrow> bool" where
  "bounded_resolution_text s = (s \<noteq> [] \<and> length s \<le> MAX_RESOLUTION_TEXT_LENGTH)"

definition lifecycle_check :: "string \<Rightarrow> exn \<Rightarrow> unit result" where
  "lifecycle_check lifecycle e =
     and_then (canonical_worker_lifecycle lifecycle) (\<lambda>l. check (l = lifecycle) e)"

definition decision_payload :: "ResolutionDecision \<Rightarrow> pyval" where
  "decision_payload d = PDict
     [(''class_id'', PStr (rdec_class_id d)), (''lifecycle'', PStr (rdec_lifecycle d)),
      (''model'', PStr (rdec_model d)), (''reasoning'', PStr (rdec_reasoning d)),
      (''reason_codes'', PList (map PStr (rdec_reason_codes d))), (''fallback'', PBool (rdec_fallback d)),
      (''requested_class'', opt_str (rdec_requested_class d)),
      (''requested_lifecycle'', opt_str (rdec_requested_lifecycle d)),
      (''requested_model'', opt_str (rdec_requested_model d)),
      (''requested_reasoning'', opt_str (rdec_requested_reasoning d))]"

definition canonical_resolution_decision_digest ::
  "(string \<Rightarrow> string) \<Rightarrow> (pyval \<Rightarrow> string) \<Rightarrow> ResolutionDecision \<Rightarrow> string result" where
  "canonical_resolution_decision_digest sha256 dumps d =
     (let bad = ValueErrorOf ''invalid_resolution_decision''
      in and_then (check (list_all bounded_resolution_text [rdec_class_id d, rdec_lifecycle d, rdec_model d, rdec_reasoning d]) bad) (\<lambda>_.
         and_then (lifecycle_check (rdec_lifecycle d) bad) (\<lambda>_.
         and_then (check (known_level (rdec_reasoning d)) bad) (\<lambda>_.
         and_then (check (length (rdec_reason_codes d) \<le> MAX_REASON_CODES \<and>
                          list_all bounded_resolution_text (rdec_reason_codes d) \<and> distinct (rdec_reason_codes d)) bad) (\<lambda>_.
         and_then (check (list_all (\<lambda>v. case v of None \<Rightarrow> True | Some t \<Rightarrow> bounded_resolution_text t)
                            [rdec_requested_class d, rdec_requested_lifecycle d, rdec_requested_model d,
                             rdec_requested_reasoning d]) bad) (\<lambda>_.
           Inr (''sha256:'' @ sha256 (dumps (decision_payload d)))))))))"

definition options_payload :: "SelectionOption list \<Rightarrow> pyval" where
  "options_payload options = PList (map (\<lambda>(c, l, m, r). PList [PStr c, PStr l, PStr m, PStr r]) options)"

definition generation_of :: "(string \<Rightarrow> string) \<Rightarrow> (pyval \<Rightarrow> string) \<Rightarrow> SelectionOption list \<Rightarrow> string" where
  "generation_of sha256 dumps options = ''sha256:'' @ sha256 (dumps (options_payload options))"

definition public_rows :: "SelectionOption list \<Rightarrow> string list \<times> string list \<times> string list \<times> string list" where
  "public_rows options =
     (dict_fromkeys (map fst options), dict_fromkeys (map (fst \<circ> snd) options),
      dict_fromkeys (map (fst \<circ> snd \<circ> snd) options), dict_fromkeys (map (snd \<circ> snd \<circ> snd) options))"

definition offered_row :: "ResolutionDecision \<Rightarrow> SelectionOption" where
  "offered_row d = (rdec_class_id d, rdec_lifecycle d, rdec_model d, rdec_reasoning d)"

fun option_check :: "SelectionOption \<Rightarrow> unit result" where
  "option_check (c, l, m, r) =
     (let bad = ValueErrorOf ''invalid_selection_offer''
      in and_then (check (list_all bounded_resolution_text [c, l, m, r]) bad) (\<lambda>_.
         and_then (lifecycle_check l bad) (\<lambda>_. check (known_level r) bad)))"

definition validate_resolution_decision_offer ::
  "(string \<Rightarrow> string) \<Rightarrow> (pyval \<Rightarrow> string) \<Rightarrow> ResolutionDecision \<Rightarrow> SelectionOffer \<Rightarrow> unit result" where
  "validate_resolution_decision_offer sha256 dumps d f =
     (let bad = ValueErrorOf ''invalid_selection_offer'';
          lists = [soff_classes f, soff_lifecycles f, soff_models f, soff_reasoning_levels f]
      in and_then (canonical_resolution_decision_digest sha256 dumps d) (\<lambda>_.
         and_then (check (is_sha256_digest (soff_generation f)) bad) (\<lambda>_.
         and_then (check (list_all (\<lambda>vs. length vs \<le> MAX_SELECTION_OPTIONS \<and> list_all bounded_resolution_text vs \<and> distinct vs) lists) bad) (\<lambda>_.
         and_then (check (length (soff_options f) \<le> MAX_SELECTION_OPTIONS) bad) (\<lambda>_.
         and_then (map_result option_check (soff_options f)) (\<lambda>_.
         and_then (check (distinct (soff_options f)) bad) (\<lambda>_.
         and_then (map_result (\<lambda>l. lifecycle_check l bad) (soff_lifecycles f)) (\<lambda>_.
         and_then (check ((soff_classes f, soff_lifecycles f, soff_models f, soff_reasoning_levels f) =
                          public_rows (soff_options f)) bad) (\<lambda>_.
         and_then (check (soff_generation f = generation_of sha256 dumps (soff_options f)) bad) (\<lambda>_.
           check (offered_row d \<in> set (soff_options f)) (ValueErrorOf ''resolution_decision_not_offered'')))))))))))"

subsection \<open>Resolution\<close>

text \<open>The reasons that the code appends to a list are returned by each stage.\<close>

definition class_key :: "ResolutionRequest \<Rightarrow> AgentClassPolicy \<Rightarrow> bool \<times> int \<times> int \<times> int \<times> string" where
  "class_key request c =
     (acp_class_id c \<noteq>
        (if rreq_complexity request \<in> set [''medium'', ''complex''] then ''spezialistin'' else ''arbeitsbiene''),
      (case map_of LIFECYCLE_RANK (acp_default_lifecycle c) of Some r \<Rightarrow> r | None \<Rightarrow> 100),
      reasoning_rank (acp_min_reasoning c), reasoning_rank (acp_max_reasoning c), acp_class_id c)"

definition select_class :: "ResolutionRequest \<Rightarrow> AgentClassPolicy list \<Rightarrow> (AgentClassPolicy \<times> string list) result" where
  "select_class request classes =
     (case and_then (need (rreq_requested_class request) ValueError) (\<lambda>k. need (last_by acp_class_id classes k) ValueError) of
        Inr c \<Rightarrow> Inr (c, [])
      | Inl _ \<Rightarrow>
          (case min_by (class_key request)
             (filter (\<lambda>c. acp_class_id c \<notin> set LEADERSHIP_CLASS_IDS \<and>
                (rreq_scope_kind request \<in> set (acp_supported_scopes c) \<or> rreq_scope_kind request = ''unknown'')) classes) of
             None \<Rightarrow> Inl (ValueErrorOf ''no_compatible_class'')
           | Some c \<Rightarrow>
               Inr (c, (if rreq_requested_class request \<noteq> None then [''requested_class_unavailable''] else []) @
                       [''class_auto_selected''])))"

definition default_reasoning :: "string \<Rightarrow> string" where
  "default_reasoning lifecycle =
     (if lifecycle = ''persistent'' then ''xhigh'' else if lifecycle = ''binding'' then ''high'' else ''medium'')"

definition model_allowed_for_class :: "ModelPolicy \<Rightarrow> AgentClassPolicy \<Rightarrow> bool" where
  "model_allowed_for_class m c =
     (mpol_family m \<in> set (acp_allowed_families c) \<and>
      (acp_allowed_model_ids c = [] \<or> mpol_model_id m \<in> set (acp_allowed_model_ids c)))"

definition model_supports_task :: "ModelPolicy \<Rightarrow> ResolutionRequest \<Rightarrow> bool" where
  "model_supports_task m request = (set (rreq_required_capabilities request) \<subseteq> set (mpol_capabilities m))"

definition allowed_reasoning_levels :: "ModelPolicy \<Rightarrow> AgentClassPolicy \<Rightarrow> string \<Rightarrow> string list" where
  "allowed_reasoning_levels m c lifecycle =
     (let minimum_rank = (if lifecycle = ''persistent'' then max (reasoning_rank (acp_min_reasoning c)) (reasoning_rank ''xhigh'')
                          else reasoning_rank (acp_min_reasoning c));
          maximum_rank = reasoning_rank (acp_max_reasoning c)
      in filter (\<lambda>level. minimum_rank \<le> reasoning_rank level \<and> reasoning_rank level \<le> maximum_rank) (mpol_reasoning_levels m))"

definition clamp_reasoning ::
  "string \<Rightarrow> ModelPolicy \<Rightarrow> AgentClassPolicy \<Rightarrow> string \<Rightarrow> (string \<times> string list) result" where
  "clamp_reasoning requested m c lifecycle =
     (let target = (if known_level requested then requested else default_reasoning lifecycle);
          key = (\<lambda>level. (\<bar>reasoning_rank level - reasoning_rank target\<bar>, reasoning_rank level))
      in case min_by key (allowed_reasoning_levels m c lifecycle) of
           None \<Rightarrow> Inl (ValueErrorOf ''no_compatible_reasoning_level'')
         | Some selected \<Rightarrow>
             Inr (selected, (if known_level requested then [] else [''requested_reasoning_unsupported'']) @
                            (if selected \<noteq> target then [''requested_reasoning_outside_limits''] else [])))"

definition validate_canonical_agent_tuple :: "AgentClassPolicy \<Rightarrow> ModelPolicy \<Rightarrow> string \<Rightarrow> string \<Rightarrow> unit result" where
  "validate_canonical_agent_tuple c m lifecycle reasoning =
     check (lifecycle \<in> set (acp_allowed_lifecycles c) \<and> model_allowed_for_class m c \<and>
            reasoning \<in> set (allowed_reasoning_levels m c lifecycle)) (ValueErrorOf ''invalid_canonical_agent_tuple'')"

text \<open>The stages of \<open>resolve_agent_selection\<close>.\<close>

definition current_models :: "ModelPolicy list \<Rightarrow> ModelPolicy list" where
  "current_models models =
     filter (\<lambda>m. mpol_model_id m \<notin> set RETIRED_MODEL_SELECTORS \<and> mpol_family m \<noteq> ''spark'') models"

definition explicit_leadership :: "ResolutionRequest \<Rightarrow> AgentClassPolicy \<Rightarrow> bool" where
  "explicit_leadership request c =
     (rreq_requested_class request = Some (acp_class_id c) \<and> acp_class_id c \<in> set LEADERSHIP_CLASS_IDS)"

definition lifecycle_wish :: "ResolutionRequest \<Rightarrow> string option" where
  "lifecycle_wish request =
     map_option (\<lambda>l. case map_of LIFECYCLE_ALIASES l of Some a \<Rightarrow> a | None \<Rightarrow> l) (rreq_requested_lifecycle request)"

definition lifecycle_stage :: "ResolutionRequest \<Rightarrow> AgentClassPolicy \<Rightarrow> (string \<times> string list) result" where
  "lifecycle_stage request c =
     (let wish = lifecycle_wish request;
          alias = (if wish \<noteq> rreq_requested_lifecycle request then [''lifecycle_alias_normalized''] else [])
      in if explicit_leadership request c \<and>
            (length (acp_allowed_lifecycles c) \<noteq> 1 \<or> acp_default_lifecycle c \<noteq> ''persistent'' \<or>
             wish \<notin> {None, Some (acp_default_lifecycle c)})
         then Inl (ValueErrorOf ''leadership_explicit_tuple_required'')
         else case wish of
                None \<Rightarrow> Inr (acp_default_lifecycle c, alias @ [''lifecycle_defaulted''])
              | Some l \<Rightarrow>
                  if l \<notin> set (acp_allowed_lifecycles c)
                  then Inr (acp_default_lifecycle c, alias @ [''requested_lifecycle_outside_class''])
                  else Inr (l, alias))"

definition wished_model_stage ::
  "ResolutionRequest \<Rightarrow> AgentClassPolicy \<Rightarrow> ModelPolicy list \<Rightarrow> string list \<Rightarrow> (ModelPolicy option \<times> string list) result" where
  "wished_model_stage request c models available =
     (case last_by mpol_model_id models (case rreq_requested_model request of None \<Rightarrow> '''' | Some m \<Rightarrow> m) of
        None \<Rightarrow>
          if rreq_requested_model request = None then Inr (None, [])
          else if explicit_leadership request c then Inl (ValueErrorOf ''leadership_explicit_tuple_required'')
          else Inr (None, [''requested_model_unknown''])
      | Some m \<Rightarrow>
          if explicit_leadership request c
          then (if rreq_requested_model request \<noteq> None \<and>
                   (\<not> model_allowed_for_class m c \<or> mpol_model_id m \<notin> set available \<or> \<not> model_supports_task m request)
                then Inl (ValueErrorOf ''leadership_explicit_tuple_required'') else Inr (Some m, []))
          else if \<not> model_allowed_for_class m c then Inr (None, [''requested_model_outside_class''])
          else if mpol_model_id m \<notin> set available then Inr (None, [''requested_model_unavailable''])
          else if \<not> model_supports_task m request then Inr (None, [''requested_model_capability_mismatch''])
          else Inr (Some m, []))"

definition minimum_family :: "AgentClassPolicy \<Rightarrow> string" where
  "minimum_family c = (if length (acp_allowed_families c) = 1 then hd (acp_allowed_families c) else ''luna'')"

definition minimum_rank :: "AgentClassPolicy \<Rightarrow> ModelPolicy list \<Rightarrow> int" where
  "minimum_rank c models =
     (if acp_allowed_model_ids c \<noteq> []
      then (let ranks = map mpol_rank (filter (\<lambda>m. mpol_model_id m \<in> set (acp_allowed_model_ids c)) models)
            in if ranks = [] then 0 else Min (set ranks))
      else case last_by mpol_family models (minimum_family c) of Some m \<Rightarrow> mpol_rank m | None \<Rightarrow> 0)"

definition model_candidates :: "ResolutionRequest \<Rightarrow> AgentClassPolicy \<Rightarrow> ModelPolicy list \<Rightarrow> string list \<Rightarrow> ModelPolicy list" where
  "model_candidates request c models available =
     sort_key mpol_rank (filter (\<lambda>m. model_allowed_for_class m c \<and> mpol_model_id m \<in> set available \<and>
       minimum_rank c models \<le> mpol_rank m \<and> model_supports_task m request) models)"

definition default_model ::
  "ResolutionRequest \<Rightarrow> AgentClassPolicy \<Rightarrow> ModelPolicy list \<Rightarrow> string list \<Rightarrow> string list \<Rightarrow>
   (ModelPolicy \<times> string list) result" where
  "default_model request c models available reasons =
     (case model_candidates request c models available of
        [] \<Rightarrow> Inl (ValueErrorOf
          (if acp_allowed_model_ids c \<noteq> [] then ''required_model_unavailable:'' @ join_with '','' (acp_allowed_model_ids c)
           else ''no_compatible_model''))
      | m # _ \<Rightarrow>
          Inr (m, reasons @
            (if rreq_requested_model request = None
             then [''model_defaulted''] @ (if mpol_family m \<noteq> minimum_family c then [''default_model_unavailable''] else [])
             else [])))"

definition model_stage ::
  "ResolutionRequest \<Rightarrow> AgentClassPolicy \<Rightarrow> ModelPolicy list \<Rightarrow> string list \<Rightarrow> ModelPolicy option \<Rightarrow>
   (ModelPolicy \<times> string list) result" where
  "model_stage request c models available wished =
     (case wished of
        Some m \<Rightarrow>
          if minimum_rank c models \<le> mpol_rank m then Inr (m, [])
          else default_model request c models available [''requested_model_below_task_minimum'']
      | None \<Rightarrow> default_model request c models available [])"

definition reasoning_stage ::
  "ResolutionRequest \<Rightarrow> AgentClassPolicy \<Rightarrow> ModelPolicy \<Rightarrow> string \<Rightarrow> (string \<times> string list) result" where
  "reasoning_stage request c m lifecycle =
     and_then (case rreq_requested_reasoning request of
         Some r \<Rightarrow>
           if explicit_leadership request c
           then rescue (validate_canonical_agent_tuple c m lifecycle r)
                  (\<lambda>_. Inl (ValueErrorOf ''leadership_explicit_tuple_required''))
           else Inr ()
       | None \<Rightarrow> Inr ()) (\<lambda>_.
       if acp_min_reasoning c = acp_max_reasoning c
       then and_then (check (acp_min_reasoning c \<in> set (allowed_reasoning_levels m c lifecycle)) (ValueErrorOf
              (if acp_allowed_model_ids c \<noteq> []
               then ''required_model_effort_unavailable:'' @ mpol_model_id m @ '':'' @ acp_min_reasoning c
               else ''no_compatible_reasoning_level''))) (\<lambda>_.
              Inr (acp_min_reasoning c,
                   if rreq_requested_reasoning request \<notin> {None, Some (acp_min_reasoning c)}
                   then [''requested_reasoning_outside_limits''] else []))
       else case rreq_requested_reasoning request of
              None \<Rightarrow> and_then (clamp_reasoning (default_reasoning lifecycle) m c lifecycle) (\<lambda>(r, reasons).
                        Inr (r, ''reasoning_defaulted'' # reasons))
            | Some r \<Rightarrow> clamp_reasoning r m c lifecycle)"

definition FALLBACK_CODES :: "string list" where
  "FALLBACK_CODES =
     [''requested_class_unavailable'', ''requested_lifecycle_outside_class'', ''requested_model_unknown'',
      ''requested_model_outside_class'', ''requested_model_unavailable'', ''requested_model_capability_mismatch'',
      ''requested_model_below_task_minimum'', ''requested_reasoning_unsupported'',
      ''requested_reasoning_outside_limits'', ''default_model_unavailable'']"

definition resolve_agent_selection ::
  "ResolutionRequest \<Rightarrow> AgentClassPolicy list \<Rightarrow> ModelPolicy list \<Rightarrow> string list \<Rightarrow> ResolutionDecision result" where
  "resolve_agent_selection request classes source_models available =
     (let models = current_models source_models
      in and_then (check (\<not> (case rreq_requested_model request of None \<Rightarrow> False | Some w \<Rightarrow>
             w \<in> set RETIRED_MODEL_SELECTORS \<or>
             list_ex (\<lambda>m. mpol_model_id m = w \<and> mpol_family m = ''spark'') source_models))
           (ValueErrorOf ''retired_model_unavailable'')) (\<lambda>_.
         and_then (select_class request classes) (\<lambda>(c, r1).
         and_then (lifecycle_stage request c) (\<lambda>(lifecycle, r2).
         and_then (wished_model_stage request c models available) (\<lambda>(wished, r3).
         and_then (model_stage request c models available wished) (\<lambda>(m, r4).
         and_then (reasoning_stage request c m lifecycle) (\<lambda>(reasoning, r5).
         and_then (validate_canonical_agent_tuple c m lifecycle reasoning) (\<lambda>_.
           let reasons = r1 @ r2 @ r3 @ r4 @ r5
           in Inr \<lparr>rdec_class_id = acp_class_id c, rdec_lifecycle = lifecycle, rdec_model = mpol_model_id m,
                   rdec_reasoning = reasoning, rdec_reason_codes = dict_fromkeys reasons,
                   rdec_fallback = list_ex (\<lambda>r. r \<in> set FALLBACK_CODES) reasons,
                   rdec_requested_class = rreq_requested_class request,
                   rdec_requested_lifecycle = rreq_requested_lifecycle request,
                   rdec_requested_model = rreq_requested_model request,
                   rdec_requested_reasoning = rreq_requested_reasoning request\<rparr>))))))))"

subsection \<open>Offers\<close>

definition compatible_models :: "AgentClassPolicy \<Rightarrow> ModelPolicy list \<Rightarrow> string list \<Rightarrow> ModelPolicy list" where
  "compatible_models c models available =
     filter (\<lambda>m. mpol_model_id m \<in> set available \<and> mpol_model_id m \<notin> set RETIRED_MODEL_SELECTORS \<and>
       mpol_family m \<noteq> ''spark'' \<and> model_allowed_for_class m c) (sort_key mpol_rank models)"

definition model_options :: "AgentClassPolicy \<Rightarrow> string \<Rightarrow> ModelPolicy \<Rightarrow> SelectionOption list result" where
  "model_options c lifecycle m =
     (let levels = allowed_reasoning_levels m c lifecycle
      in if acp_min_reasoning c = acp_max_reasoning c \<and> levels = []
         then (if acp_allowed_model_ids c \<noteq> []
               then Inl (ValueErrorOf (''required_model_effort_unavailable:'' @ mpol_model_id m @ '':'' @ acp_min_reasoning c))
               else Inr [])
         else map_result (\<lambda>r. and_then (validate_canonical_agent_tuple c m lifecycle r) (\<lambda>_.
                Inr (acp_class_id c, lifecycle, mpol_model_id m, r))) levels)"

definition class_options :: "ModelPolicy list \<Rightarrow> string list \<Rightarrow> AgentClassPolicy \<Rightarrow> SelectionOption list result" where
  "class_options models available c =
     (let compatible = compatible_models c models available
      in and_then (check (acp_allowed_model_ids c = [] \<or> compatible \<noteq> [])
             (ValueErrorOf (''required_model_unavailable:'' @ join_with '','' (acp_allowed_model_ids c)))) (\<lambda>_.
         and_then (map_result (\<lambda>l. map_result (model_options c l) compatible) (acp_allowed_lifecycles c)) (\<lambda>rows.
           Inr (concat (concat rows)))))"

definition build_selection_offer ::
  "(string \<Rightarrow> string) \<Rightarrow> (pyval \<Rightarrow> string) \<Rightarrow> AgentClassPolicy list \<Rightarrow> ModelPolicy list \<Rightarrow> string list \<Rightarrow> SelectionOffer result" where
  "build_selection_offer sha256 dumps classes models available =
     and_then (map_result (class_options models available) (sort_key acp_class_id classes)) (\<lambda>rows.
       let options = concat rows
       in case public_rows options of (cs, ls, ms, rs) \<Rightarrow>
            Inr \<lparr>soff_generation = generation_of sha256 dumps options, soff_classes = cs, soff_lifecycles = ls,
                 soff_models = ms, soff_reasoning_levels = rs, soff_options = options\<rparr>)"

text \<open>\<open>policies_from_catalogs\<close>, the half that reads the model registry.\<close>

definition model_policies :: "ModelPolicyRegistry \<Rightarrow> ModelPolicy list result" where
  "model_policies reg =
     map_result (\<lambda>m. ModelPolicy_init
         \<lparr>mpol_model_id = md_model_id m, mpol_family = md_family m, mpol_rank = md_rank m,
          mpol_reasoning_levels = md_reasoning_levels m, mpol_capabilities = md_capabilities m\<rparr>)
       (filter (\<lambda>m. md_enabled m \<and> md_spawn_behavior m = ''manual'' \<and>
          md_model_id m \<notin> set RETIRED_MODEL_SELECTORS \<and> md_family m \<noteq> ''spark'') (registry_public reg))"

end
