(* ===== verification/Agent_Resolver_Properties.thy ===== *)
theory Agent_Resolver_Properties
  imports Agent_Resolver
begin

text \<open>
  What the resolver promises: a decision is a valid combination that the offer of the same catalogs
  holds, and its fallback flag tells exactly whether a wish of the request was not met.
\<close>

subsection \<open>Well-formed catalogs\<close>

definition class_ok :: "AgentClassPolicy \<Rightarrow> bool" where
  "class_ok c =
     (AgentClassPolicy_init c = Inr c \<and> bounded_resolution_text (acp_class_id c) \<and> distinct (acp_allowed_lifecycles c) \<and>
      set (acp_allowed_lifecycles c) \<subseteq> set (map fst LIFECYCLE_RANK))"

definition model_ok :: "ModelPolicy \<Rightarrow> bool" where
  "model_ok m = (ModelPolicy_init m = Inr m \<and> bounded_resolution_text (mpol_model_id m) \<and> distinct (mpol_reasoning_levels m))"

definition catalog_ok :: "AgentClassPolicy list \<Rightarrow> ModelPolicy list \<Rightarrow> bool" where
  "catalog_ok classes models =
     (list_all class_ok classes \<and> list_all model_ok models \<and> distinct (map acp_class_id classes) \<and>
      distinct (map mpol_model_id models))"

definition wishes_bounded :: "ResolutionRequest \<Rightarrow> bool" where
  "wishes_bounded r =
     list_all (\<lambda>v. case v of None \<Rightarrow> True | Some t \<Rightarrow> bounded_resolution_text t)
       [rreq_requested_class r, rreq_requested_lifecycle r, rreq_requested_model r, rreq_requested_reasoning r]"

definition hex_digests :: "(string \<Rightarrow> string) \<Rightarrow> bool" where
  "hex_digests sha256 = (\<forall>t. length (sha256 t) = 64 \<and> list_all is_hex (sha256 t))"

lemma model_id_nonempty: "list_all model_ok models \<Longrightarrow> m \<in> set models \<Longrightarrow> mpol_model_id m \<noteq> []"
  by (auto simp: list_all_iff model_ok_def bounded_resolution_text_def)

lemma current_models_subset: "m \<in> set (current_models models) \<Longrightarrow> m \<in> set models"
  by (simp add: current_models_def)

lemma current_models_ok: "list_all model_ok models \<Longrightarrow> list_all model_ok (current_models models)"
  by (simp add: current_models_def list_all_iff)

lemma same_id_same_model:
  "distinct (map mpol_model_id models) \<Longrightarrow> m \<in> set models \<Longrightarrow> n \<in> set models \<Longrightarrow>
     mpol_model_id m = mpol_model_id n \<Longrightarrow> m = n"
  by (auto simp: distinct_map dest: inj_onD)

subsection \<open>What each stage yields\<close>

lemma select_class_Inr:
  assumes "select_class request classes = Inr (c, r)"
  shows "c \<in> set classes \<and>
    (rreq_requested_class request = Some (acp_class_id c) \<and> r = [] \<or>
     acp_class_id c \<notin> set LEADERSHIP_CLASS_IDS \<and>
     (case rreq_requested_class request of
        None \<Rightarrow> r = [''class_auto_selected'']
      | Some k \<Rightarrow> k \<notin> acp_class_id ` set classes \<and> r = [''requested_class_unavailable'', ''class_auto_selected'']))"
proof -
  consider k where "rreq_requested_class request = Some k" "last_by acp_class_id classes k = Some c" "r = []"
    | "\<forall>k. rreq_requested_class request = Some k \<longrightarrow> last_by acp_class_id classes k = None"
      "min_by (class_key request) (filter (\<lambda>c. acp_class_id c \<notin> set LEADERSHIP_CLASS_IDS \<and>
         (rreq_scope_kind request \<in> set (acp_supported_scopes c) \<or> rreq_scope_kind request = ''unknown'')) classes) = Some c"
      "r = (if rreq_requested_class request \<noteq> None then [''requested_class_unavailable''] else []) @ [''class_auto_selected'']"
    using assms unfolding select_class_def
    by (cases "rreq_requested_class request") (auto simp: need_def split: option.splits)
  then show ?thesis
  proof cases
    case 1
    then show ?thesis using last_by_Some by fastforce
  next
    case 2
    then show ?thesis
      using min_by_mem [OF 2(2)] last_by_None [of acp_class_id classes] by (auto split: option.splits)
  qed
qed

lemma wished_model_Inr:
  assumes "wished_model_stage request c models available = Inr (w, r)" and "list_all model_ok models"
    and "distinct (map mpol_model_id models)"
  shows "case rreq_requested_model request of
      None \<Rightarrow> w = None \<and> r = []
    | Some k \<Rightarrow>
        (case w of
           Some m \<Rightarrow> m \<in> set models \<and> mpol_model_id m = k \<and> model_allowed_for_class m c \<and> k \<in> set available \<and>
             model_supports_task m request \<and> r = []
         | None \<Rightarrow> (\<exists>x \<in> set FALLBACK_CODES. r = [x]) \<and>
             (\<forall>m \<in> set models. mpol_model_id m = k \<longrightarrow>
                \<not> (model_allowed_for_class m c \<and> k \<in> set available \<and> model_supports_task m request)))"
proof (cases "rreq_requested_model request")
  case None
  have "last_by mpol_model_id models '''' = None"
    unfolding last_by_None using model_id_nonempty [OF assms(2)] by force
  with None assms(1) show ?thesis by (simp add: wished_model_stage_def)
next
  case (Some k)
  show ?thesis
  proof (cases "last_by mpol_model_id models k")
    case None
    then show ?thesis
      using Some assms(1) last_by_None [of mpol_model_id models k]
      by (auto simp: wished_model_stage_def FALLBACK_CODES_def split: if_splits)
  next
    case (Some m)
    have m: "m \<in> set models" "mpol_model_id m = k" using last_by_Some [OF Some] by simp_all
    have "n = m" if "n \<in> set models" "mpol_model_id n = k" for n
      using same_id_same_model [OF assms(3) that(1) m(1)] that m by simp
    note only = this
    have "w = Some m \<and> r = [] \<and> model_allowed_for_class m c \<and> k \<in> set available \<and> model_supports_task m request \<or>
        w = None \<and> (\<exists>x \<in> set FALLBACK_CODES. r = [x]) \<and>
        \<not> (model_allowed_for_class m c \<and> k \<in> set available \<and> model_supports_task m request)"
      using assms(1) Some \<open>rreq_requested_model request = Some k\<close> m(2)
      by (simp add: wished_model_stage_def FALLBACK_CODES_def split: if_splits)
    then show ?thesis using \<open>rreq_requested_model request = Some k\<close> m by (auto dest: only)
  qed
qed

lemma candidates_iff:
  "m \<in> set (model_candidates request c models available) \<longleftrightarrow>
     m \<in> set models \<and> model_allowed_for_class m c \<and> mpol_model_id m \<in> set available \<and>
     minimum_rank c models \<le> mpol_rank m \<and> model_supports_task m request"
  by (auto simp: model_candidates_def)

lemma default_model_Inr:
  assumes "default_model request c models available r0 = Inr (m, r)"
  shows "m \<in> set (model_candidates request c models available) \<and>
    r = r0 @ (if rreq_requested_model request = None
      then [''model_defaulted''] @ (if mpol_family m \<noteq> minimum_family c then [''default_model_unavailable''] else []) else [])"
  using assms by (auto simp: default_model_def split: list.splits)

lemma model_stage_Inr:
  assumes "model_stage request c models available w = Inr (m, r)"
    and "\<forall>n. w = Some n \<longrightarrow> n \<in> set models \<and> model_allowed_for_class n c \<and> mpol_model_id n \<in> set available \<and>
      model_supports_task n request"
  shows "m \<in> set (model_candidates request c models available) \<and>
    (w = Some m \<and> r = [] \<or>
     (\<exists>r0. default_model request c models available r0 = Inr (m, r) \<and>
        (w = None \<and> r0 = [] \<or>
         (\<exists>n. w = Some n \<and> mpol_rank n < minimum_rank c models) \<and> r0 = [''requested_model_below_task_minimum''])))"
  using assms default_model_Inr [of request c models available _ m r]
  by (auto simp: model_stage_def candidates_iff split: option.splits if_splits)

lemma clamp_Inr:
  assumes "clamp_reasoning q m c l = Inr (s, r)" and "list_all known_level (mpol_reasoning_levels m)"
  shows "s \<in> set (allowed_reasoning_levels m c l) \<and> known_level s \<and> set r \<subseteq> set FALLBACK_CODES \<and> (s = q \<longleftrightarrow> r = [])"
proof -
  define target where "target = (if known_level q then q else default_reasoning l)"
  have min: "min_by (\<lambda>level. (\<bar>reasoning_rank level - reasoning_rank target\<bar>, reasoning_rank level))
      (allowed_reasoning_levels m c l) = Some s"
    and r: "r = (if known_level q then [] else [''requested_reasoning_unsupported'']) @
      (if s \<noteq> target then [''requested_reasoning_outside_limits''] else [])"
    using assms(1) by (auto simp: clamp_reasoning_def target_def Let_def split: option.splits)
  have mem: "s \<in> set (allowed_reasoning_levels m c l)" using min by (rule min_by_mem)
  then have "known_level s" using assms(2) by (auto simp: allowed_reasoning_levels_def Let_def list_all_iff)
  with mem r show ?thesis by (auto simp: target_def FALLBACK_CODES_def)
qed

lemma reasoning_stage_Inr:
  assumes "reasoning_stage request c m l = Inr (s, r)" and "list_all known_level (mpol_reasoning_levels m)"
  shows "s \<in> set (allowed_reasoning_levels m c l) \<and> known_level s \<and>
    set r \<subseteq> set (''reasoning_defaulted'' # FALLBACK_CODES) \<and>
    (rreq_requested_reasoning request = None \<or>
     (rreq_requested_reasoning request = Some s \<longleftrightarrow> r = []) \<and> set r \<subseteq> set FALLBACK_CODES)"
proof (cases "acp_min_reasoning c = acp_max_reasoning c")
  case True
  then have "s = acp_min_reasoning c" "s \<in> set (allowed_reasoning_levels m c l)"
    "r = (if rreq_requested_reasoning request \<notin> {None, Some s} then [''requested_reasoning_outside_limits''] else [])"
    using assms(1) by (auto simp: reasoning_stage_def result_simps)
  then show ?thesis
    using assms(2) by (auto simp: FALLBACK_CODES_def allowed_reasoning_levels_def Let_def list_all_iff)
next
  case False
  show ?thesis
  proof (cases "rreq_requested_reasoning request")
    case None
    then obtain r' where "clamp_reasoning (default_reasoning l) m c l = Inr (s, r')" "r = ''reasoning_defaulted'' # r'"
      using False assms(1) by (auto simp: reasoning_stage_def result_simps)
    then show ?thesis using clamp_Inr [OF _ assms(2)] None by fastforce
  next
    case (Some q)
    then have "clamp_reasoning q m c l = Inr (s, r)"
      using False assms(1) by (auto simp: reasoning_stage_def result_simps)
    then show ?thesis using clamp_Inr [OF _ assms(2)] Some by fastforce
  qed
qed

lemma lifecycle_stage_Inr:
  assumes "lifecycle_stage request c = Inr (l, r)" and "acp_default_lifecycle c \<in> set (acp_allowed_lifecycles c)"
  shows "l \<in> set (acp_allowed_lifecycles c) \<and>
    set r \<subseteq> {''lifecycle_alias_normalized'', ''lifecycle_defaulted'', ''requested_lifecycle_outside_class''} \<and>
    (''requested_lifecycle_outside_class'' \<in> set r \<longleftrightarrow> lifecycle_wish request \<notin> {None, Some l})"
proof (cases "lifecycle_wish request")
  case None
  then show ?thesis using assms by (simp add: lifecycle_stage_def Let_def split: if_splits) auto
next
  case (Some w)
  show ?thesis
  proof (cases "w \<in> set (acp_allowed_lifecycles c)")
    case True
    then show ?thesis using assms Some by (simp add: lifecycle_stage_def Let_def split: if_splits) auto
  next
    case False
    then have "w \<noteq> acp_default_lifecycle c" using assms(2) by blast
    then show ?thesis using False assms Some by (simp add: lifecycle_stage_def Let_def split: if_splits) auto
  qed
qed

subsection \<open>The offer holds exactly the valid combinations\<close>

definition valid_row ::
  "AgentClassPolicy list \<Rightarrow> ModelPolicy list \<Rightarrow> string list \<Rightarrow> SelectionOption \<Rightarrow> bool" where
  "valid_row classes models available row \<longleftrightarrow>
     (\<exists>c m l r. row = (acp_class_id c, l, mpol_model_id m, r) \<and> c \<in> set classes \<and> m \<in> set (current_models models) \<and>
        mpol_model_id m \<in> set available \<and> model_allowed_for_class m c \<and> l \<in> set (acp_allowed_lifecycles c) \<and>
        r \<in> set (allowed_reasoning_levels m c l))"

lemma compatible_iff:
  "m \<in> set (compatible_models c models available) \<longleftrightarrow>
     m \<in> set (current_models models) \<and> mpol_model_id m \<in> set available \<and> model_allowed_for_class m c"
  by (auto simp: compatible_models_def current_models_def)

lemma map_result_Inr_map:
  "map_result f xs = Inr ys \<Longrightarrow> (\<And>x y. x \<in> set xs \<Longrightarrow> f x = Inr y \<Longrightarrow> y = g x) \<Longrightarrow> ys = map g xs"
  by (induction xs arbitrary: ys) (auto simp: result_simps)

lemma model_options_Inr:
  assumes "model_options c l m = Inr rows"
  shows "rows = map (\<lambda>r. (acp_class_id c, l, mpol_model_id m, r)) (allowed_reasoning_levels m c l)"
  using assms
  by (auto simp: model_options_def Let_def result_simps split: if_splits intro: map_result_Inr_map)

lemma class_options_Inr:
  assumes "class_options models available c = Inr rows"
  shows "rows = concat (map (\<lambda>l. concat (map (\<lambda>m. map (\<lambda>r. (acp_class_id c, l, mpol_model_id m, r))
    (allowed_reasoning_levels m c l)) (compatible_models c models available))) (acp_allowed_lifecycles c))"
proof -
  obtain rs where rs: "map_result (\<lambda>l. map_result (model_options c l) (compatible_models c models available))
      (acp_allowed_lifecycles c) = Inr rs" "rows = concat (concat rs)"
    using assms by (auto simp: class_options_def Let_def result_simps)
  have "rs = map (\<lambda>l. map (\<lambda>m. map (\<lambda>r. (acp_class_id c, l, mpol_model_id m, r)) (allowed_reasoning_levels m c l))
      (compatible_models c models available)) (acp_allowed_lifecycles c)"
    using rs(1) by (rule map_result_Inr_map) (rule map_result_Inr_map, assumption, rule model_options_Inr)
  moreover have "concat (concat (map g xs)) = concat (map (\<lambda>x. concat (g x)) xs)" for g :: "string \<Rightarrow> SelectionOption list list" and xs
    by (induction xs) auto
  ultimately show ?thesis using rs(2) by simp
qed

lemma offer_fields:
  assumes "build_selection_offer sha256 dumps classes models available = Inr f"
  shows "soff_options f = concat (map (\<lambda>c. concat (map (\<lambda>l. concat (map (\<lambda>m.
      map (\<lambda>r. (acp_class_id c, l, mpol_model_id m, r)) (allowed_reasoning_levels m c l))
      (compatible_models c models available))) (acp_allowed_lifecycles c))) (sort_key acp_class_id classes))"
    and "(soff_classes f, soff_lifecycles f, soff_models f, soff_reasoning_levels f) = public_rows (soff_options f)"
    and "soff_generation f = generation_of sha256 dumps (soff_options f)"
proof -
  obtain rows where rows: "map_result (class_options models available) (sort_key acp_class_id classes) = Inr rows"
    "soff_options f = concat rows" and rest:
    "(soff_classes f, soff_lifecycles f, soff_models f, soff_reasoning_levels f) = public_rows (soff_options f)"
    "soff_generation f = generation_of sha256 dumps (soff_options f)"
    using assms unfolding build_selection_offer_def Let_def and_then_eq_Inr
    by (elim exE conjE) (auto split: prod.splits)
  show "soff_options f = concat (map (\<lambda>c. concat (map (\<lambda>l. concat (map (\<lambda>m.
      map (\<lambda>r. (acp_class_id c, l, mpol_model_id m, r)) (allowed_reasoning_levels m c l))
      (compatible_models c models available))) (acp_allowed_lifecycles c))) (sort_key acp_class_id classes))"
    unfolding rows(2) using map_result_Inr_map [OF rows(1) class_options_Inr] by simp
  show "(soff_classes f, soff_lifecycles f, soff_models f, soff_reasoning_levels f) = public_rows (soff_options f)"
    and "soff_generation f = generation_of sha256 dumps (soff_options f)"
    using rest by simp_all
qed

lemma offer_options:
  assumes "build_selection_offer sha256 dumps classes models available = Inr f"
  shows "row \<in> set (soff_options f) \<longleftrightarrow> valid_row classes models available row"
proof -
  have "row \<in> set (soff_options f) \<longleftrightarrow> (\<exists>c \<in> set classes. \<exists>l \<in> set (acp_allowed_lifecycles c).
      \<exists>m \<in> set (compatible_models c models available). \<exists>r \<in> set (allowed_reasoning_levels m c l).
        row = (acp_class_id c, l, mpol_model_id m, r))"
    unfolding offer_fields(1) [OF assms] by (simp add: image_iff)
  also have "\<dots> \<longleftrightarrow> valid_row classes models available row"
    unfolding valid_row_def compatible_iff Bex_def by metis
  finally show ?thesis .
qed

lemma distinct_concat_map:
  "distinct xs \<Longrightarrow> (\<And>x. x \<in> set xs \<Longrightarrow> distinct (f x)) \<Longrightarrow>
     (\<And>x y. x \<in> set xs \<Longrightarrow> y \<in> set xs \<Longrightarrow> x \<noteq> y \<Longrightarrow> set (f x) \<inter> set (f y) = {}) \<Longrightarrow> distinct (concat (map f xs))"
proof (induction xs)
  case (Cons x xs)
  then have "set (f x) \<inter> set (f y) = {}" if "y \<in> set xs" for y using that by auto
  with Cons show ?case by auto
qed simp

lemma offer_distinct:
  assumes "build_selection_offer sha256 dumps classes models available = Inr f" and "catalog_ok classes models"
  shows "distinct (soff_options f)"
proof -
  have cs: "distinct (sort_key acp_class_id classes)" "inj_on acp_class_id (set classes)"
    and ms: "distinct (compatible_models c models available)" "inj_on mpol_model_id (set models)" for c
    using assms(2) by (auto simp: catalog_ok_def distinct_map compatible_models_def)
  have ls: "distinct (acp_allowed_lifecycles c)" if "c \<in> set classes" for c
    using assms(2) that by (auto simp: catalog_ok_def list_all_iff class_ok_def)
  have rs: "distinct (allowed_reasoning_levels m c l)" if "m \<in> set models" for m c l
    using assms(2) that by (auto simp: catalog_ok_def list_all_iff model_ok_def allowed_reasoning_levels_def Let_def)
  have sub: "m \<in> set models" if "m \<in> set (compatible_models c models available)" for m c
    using that by (simp add: compatible_models_def)
  show ?thesis
    unfolding offer_fields(1) [OF assms(1)]
    using cs ms(1) ls rs sub inj_onD [OF ms(2)] inj_onD [OF cs(2)]
    by (intro distinct_concat_map) (auto simp: distinct_map inj_on_def)
qed

subsection \<open>Decisions\<close>

lemma resolve_Inr:
  assumes "resolve_agent_selection request classes models available = Inr d" and "catalog_ok classes models"
  obtains c m r1 r2 r3 r4 r5 w where
    "select_class request classes = Inr (c, r1)" "lifecycle_stage request c = Inr (rdec_lifecycle d, r2)"
    "wished_model_stage request c (current_models models) available = Inr (w, r3)"
    "model_stage request c (current_models models) available w = Inr (m, r4)"
    "reasoning_stage request c m (rdec_lifecycle d) = Inr (rdec_reasoning d, r5)"
    "c \<in> set classes" "class_ok c" "m \<in> set (model_candidates request c (current_models models) available)" "model_ok m"
    "rdec_lifecycle d \<in> set (acp_allowed_lifecycles c)"
    "rdec_reasoning d \<in> set (allowed_reasoning_levels m c (rdec_lifecycle d))"
    "d = \<lparr>rdec_class_id = acp_class_id c, rdec_lifecycle = rdec_lifecycle d, rdec_model = mpol_model_id m,
       rdec_reasoning = rdec_reasoning d, rdec_reason_codes = dict_fromkeys (r1 @ r2 @ r3 @ r4 @ r5),
       rdec_fallback = list_ex (\<lambda>r. r \<in> set FALLBACK_CODES) (r1 @ r2 @ r3 @ r4 @ r5),
       rdec_requested_class = rreq_requested_class request, rdec_requested_lifecycle = rreq_requested_lifecycle request,
       rdec_requested_model = rreq_requested_model request, rdec_requested_reasoning = rreq_requested_reasoning request\<rparr>"
proof -
  obtain c r1 l r2 w r3 m r4 s r5 where stages:
    "select_class request classes = Inr (c, r1)" "lifecycle_stage request c = Inr (l, r2)"
    "wished_model_stage request c (current_models models) available = Inr (w, r3)"
    "model_stage request c (current_models models) available w = Inr (m, r4)"
    "reasoning_stage request c m l = Inr (s, r5)" "validate_canonical_agent_tuple c m l s = Inr ()"
    and d: "d = \<lparr>rdec_class_id = acp_class_id c, rdec_lifecycle = l, rdec_model = mpol_model_id m,
       rdec_reasoning = s, rdec_reason_codes = dict_fromkeys (r1 @ r2 @ r3 @ r4 @ r5),
       rdec_fallback = list_ex (\<lambda>r. r \<in> set FALLBACK_CODES) (r1 @ r2 @ r3 @ r4 @ r5),
       rdec_requested_class = rreq_requested_class request, rdec_requested_lifecycle = rreq_requested_lifecycle request,
       rdec_requested_model = rreq_requested_model request, rdec_requested_reasoning = rreq_requested_reasoning request\<rparr>"
    using assms(1) unfolding resolve_agent_selection_def Let_def and_then_eq_Inr
    by (elim exE conjE) (auto split: prod.splits simp: and_then_eq_Inr)
  have c: "c \<in> set classes" using select_class_Inr [OF stages(1)] by simp
  have ms: "list_all model_ok (current_models models)" "distinct (map mpol_model_id (current_models models))"
    using assms(2) current_models_ok by (auto simp: catalog_ok_def current_models_def distinct_map_filter)
  have "\<forall>n. w = Some n \<longrightarrow> n \<in> set (current_models models) \<and> model_allowed_for_class n c \<and>
      mpol_model_id n \<in> set available \<and> model_supports_task n request"
    using wished_model_Inr [OF stages(3) ms] by (auto split: option.splits)
  then have m: "m \<in> set (model_candidates request c (current_models models) available)"
    using model_stage_Inr [OF stages(4)] by simp
  have "class_ok c" "model_ok m"
    using assms(2) c m ms(1) by (auto simp: catalog_ok_def list_all_iff candidates_iff)
  then show thesis
    using that stages c m d by (simp add: validate_canonical_agent_tuple_def check_eq_Inr)
qed

lemma decision_row_valid:
  assumes "resolve_agent_selection request classes models available = Inr d" and "catalog_ok classes models"
  shows "valid_row classes models available (offered_row d)"
proof -
  obtain c m where "c \<in> set classes" "m \<in> set (model_candidates request c (current_models models) available)"
    "rdec_lifecycle d \<in> set (acp_allowed_lifecycles c)" "rdec_class_id d = acp_class_id c" "rdec_model d = mpol_model_id m"
    "rdec_reasoning d \<in> set (allowed_reasoning_levels m c (rdec_lifecycle d))"
    by (rule resolve_Inr [OF assms]) (metis ResolutionDecision.select_convs(1,3))
  then show ?thesis unfolding valid_row_def offered_row_def by (auto simp: candidates_iff)
qed

definition REASON_CODES :: "string list" where
  "REASON_CODES = FALLBACK_CODES @
     [''class_auto_selected'', ''lifecycle_alias_normalized'', ''lifecycle_defaulted'', ''model_defaulted'',
      ''reasoning_defaulted'']"

lemma REASON_CODES_bounded: "list_all bounded_resolution_text REASON_CODES" "length REASON_CODES \<le> MAX_REASON_CODES"
  by (simp_all add: REASON_CODES_def FALLBACK_CODES_def bounded_resolution_text_def MAX_RESOLUTION_TEXT_LENGTH_def MAX_REASON_CODES_def)

lemma reason_members:
  "{''lifecycle_alias_normalized'', ''lifecycle_defaulted'', ''requested_lifecycle_outside_class''} \<subseteq> set REASON_CODES"
  "set FALLBACK_CODES \<subseteq> set REASON_CODES" "''reasoning_defaulted'' \<in> set REASON_CODES"
  "''model_defaulted'' \<in> set REASON_CODES" "''default_model_unavailable'' \<in> set REASON_CODES"
  "''requested_model_below_task_minimum'' \<in> set REASON_CODES"
  by (simp_all add: REASON_CODES_def FALLBACK_CODES_def)

lemma lifecycle_known:
  "l \<in> set (map fst LIFECYCLE_RANK) \<Longrightarrow> lifecycle_check l e = Inr () \<and> bounded_resolution_text l"
  by (auto simp: LIFECYCLE_RANK_def lifecycle_check_def canonical_worker_lifecycle_def LIFECYCLE_ALIASES_def
      bounded_resolution_text_def MAX_RESOLUTION_TEXT_LENGTH_def)

lemma known_level_bounded: "known_level r \<Longrightarrow> bounded_resolution_text r"
  by (auto simp: known_level_def REASONING_RANK_def bounded_resolution_text_def MAX_RESOLUTION_TEXT_LENGTH_def)

lemma model_levels_known: "model_ok m \<Longrightarrow> list_all known_level (mpol_reasoning_levels m)"
  by (auto simp: model_ok_def ModelPolicy_init_def result_simps)

lemma class_default_allowed: "class_ok c \<Longrightarrow> acp_default_lifecycle c \<in> set (acp_allowed_lifecycles c)"
  by (auto simp: class_ok_def AgentClassPolicy_init_def result_simps)

lemma allowed_level_known:
  "model_ok m \<Longrightarrow> r \<in> set (allowed_reasoning_levels m c l) \<Longrightarrow> known_level r"
  using model_levels_known by (auto simp: allowed_reasoning_levels_def Let_def list_all_iff)

lemma valid_row_bounded:
  assumes "catalog_ok classes models" and "valid_row classes models available (a, l, m, r)"
  shows "list_all bounded_resolution_text [a, l, m, r] \<and> lifecycle_check l e = Inr () \<and> known_level r"
proof -
  obtain c n where row: "a = acp_class_id c" "m = mpol_model_id n" "c \<in> set classes" "n \<in> set (current_models models)"
    "l \<in> set (acp_allowed_lifecycles c)" "r \<in> set (allowed_reasoning_levels n c l)"
    using assms(2) by (auto simp: valid_row_def)
  have ok: "class_ok c" "model_ok n"
    using assms(1) row current_models_subset by (auto simp: catalog_ok_def list_all_iff)
  then have l: "l \<in> set (map fst LIFECYCLE_RANK)" using row(5) by (auto simp: class_ok_def)
  have r: "known_level r" using allowed_level_known [OF ok(2) row(6)] .
  show ?thesis
    using ok row lifecycle_known [OF l] known_level_bounded [OF r] r by (simp add: class_ok_def model_ok_def)
qed

lemma decision_reasons:
  assumes "resolve_agent_selection request classes models available = Inr d" and "catalog_ok classes models"
  shows "set (rdec_reason_codes d) \<subseteq> set REASON_CODES \<and> distinct (rdec_reason_codes d)"
proof -
  obtain c m r1 r2 r3 r4 r5 w where
    st: "select_class request classes = Inr (c, r1)" "lifecycle_stage request c = Inr (rdec_lifecycle d, r2)"
      "wished_model_stage request c (current_models models) available = Inr (w, r3)"
      "model_stage request c (current_models models) available w = Inr (m, r4)"
      "reasoning_stage request c m (rdec_lifecycle d) = Inr (rdec_reasoning d, r5)" "class_ok c" "model_ok m"
    and codes: "rdec_reason_codes d = dict_fromkeys (r1 @ r2 @ r3 @ r4 @ r5)"
    by (rule resolve_Inr [OF assms]) (metis ResolutionDecision.select_convs(5))
  have ms: "list_all model_ok (current_models models)" "distinct (map mpol_model_id (current_models models))"
    using assms(2) current_models_ok by (auto simp: catalog_ok_def current_models_def distinct_map_filter)
  note wm = wished_model_Inr [OF st(3) ms]
  have "set r1 \<subseteq> set REASON_CODES"
    using select_class_Inr [OF st(1)] by (auto simp: REASON_CODES_def FALLBACK_CODES_def split: option.splits)
  moreover have "set r2 \<subseteq> set REASON_CODES"
    using lifecycle_stage_Inr [OF st(2) class_default_allowed [OF st(6)]] reason_members(1) by blast
  moreover have "set r3 \<subseteq> set REASON_CODES"
    using wm reason_members(2) by (auto split: option.splits)
  moreover have "set r4 \<subseteq> set REASON_CODES"
  proof -
    have dm: "set r4 \<subseteq> set REASON_CODES"
      if "default_model request c (current_models models) available r0 = Inr (m, r4)" "set r0 \<subseteq> set REASON_CODES" for r0
      using default_model_Inr [OF that(1)] that(2) reason_members(4,5) by (auto split: if_splits)
    show ?thesis
    proof (cases w)
      case None
      then show ?thesis using st(4) dm [of "[]"] by (simp add: model_stage_def)
    next
      case (Some n)
      then show ?thesis
        using st(4) dm [of "[''requested_model_below_task_minimum'']"] reason_members(6)
        by (simp add: model_stage_def split: if_splits)
    qed
  qed
  moreover have "set r5 \<subseteq> set REASON_CODES"
    using reasoning_stage_Inr [OF st(5) model_levels_known [OF st(7)]] reason_members(2,3) by auto
  ultimately show ?thesis using codes by simp
qed

lemma decision_digest_defined:
  assumes "resolve_agent_selection request classes models available = Inr d" and "catalog_ok classes models"
  shows "canonical_resolution_decision_digest sha256 dumps d =
    (if wishes_bounded request then Inr (''sha256:'' @ sha256 (dumps (decision_payload d)))
     else Inl (ValueErrorOf ''invalid_resolution_decision''))"
proof -
  have row: "list_all bounded_resolution_text [rdec_class_id d, rdec_lifecycle d, rdec_model d, rdec_reasoning d] \<and>
      lifecycle_check (rdec_lifecycle d) (ValueErrorOf ''invalid_resolution_decision'') = Inr () \<and> known_level (rdec_reasoning d)"
    using valid_row_bounded [OF assms(2) decision_row_valid [OF assms(1,2), unfolded offered_row_def]] .
  have sub: "set (rdec_reason_codes d) \<subseteq> set REASON_CODES" and dist: "distinct (rdec_reason_codes d)"
    using decision_reasons [OF assms(1,2)] by simp_all
  have "length (rdec_reason_codes d) \<le> length REASON_CODES"
    using card_mono [OF _ sub] card_length [of REASON_CODES] by (simp add: distinct_card [OF dist])
  then have codes: "list_all bounded_resolution_text (rdec_reason_codes d)" "length (rdec_reason_codes d) \<le> MAX_REASON_CODES"
    using sub REASON_CODES_bounded by (auto simp: list_all_iff)
  have "list_all (\<lambda>v. case v of None \<Rightarrow> True | Some t \<Rightarrow> bounded_resolution_text t)
      [rdec_requested_class d, rdec_requested_lifecycle d, rdec_requested_model d, rdec_requested_reasoning d] =
      wishes_bounded request"
    by (rule resolve_Inr [OF assms(1,2)]) (metis ResolutionDecision.select_convs(7-10) wishes_bounded_def)
  with row codes dist show ?thesis
    by (auto simp: canonical_resolution_decision_digest_def Let_def check_def)
qed

text \<open>
  C18. What the resolver decides, the offer built from the same catalogs holds. For well-formed
  catalogs and an offer of at most 4096 options, a decision for a request passes
  \<open>validate_resolution_decision_offer\<close> against that offer exactly when each wish of the request is
  absent or has between 1 and 256 characters; a request with an empty or longer wish is resolved all
  the same, and its decision is refused as invalid. The options of the offer are exactly the valid
  combinations of class, lifecycle, current model and reasoning level.
\<close>

theorem resolved_decision_offered:
  assumes "resolve_agent_selection request classes models available = Inr d"
    and "build_selection_offer sha256 dumps classes models available = Inr f"
    and "catalog_ok classes models" and "hex_digests sha256"
    and "length (soff_options f) \<le> MAX_SELECTION_OPTIONS"
  shows "validate_resolution_decision_offer sha256 dumps d f =
      (if wishes_bounded request then Inr () else Inl (ValueErrorOf ''invalid_resolution_decision'')) \<and>
    (\<forall>row. row \<in> set (soff_options f) \<longleftrightarrow> valid_row classes models available row)"
proof -
  note fields = offer_fields(2,3) [OF assms(2)] and rows = offer_options [OF assms(2)]
  have bounded: "list_all bounded_resolution_text [a, l, m, r] \<and> lifecycle_check l e = Inr () \<and> known_level r"
    if "(a, l, m, r) \<in> set (soff_options f)" for a l m r e
    using valid_row_bounded [OF assms(3)] rows that by blast
  have public: "soff_classes f = dict_fromkeys (map fst (soff_options f))"
    "soff_lifecycles f = dict_fromkeys (map (fst \<circ> snd) (soff_options f))"
    "soff_models f = dict_fromkeys (map (fst \<circ> snd \<circ> snd) (soff_options f))"
    "soff_reasoning_levels f = dict_fromkeys (map (snd \<circ> snd \<circ> snd) (soff_options f))"
    using fields(1) by (simp_all add: public_rows_def)
  have lens: "length (dict_fromkeys (map g (soff_options f))) \<le> MAX_SELECTION_OPTIONS" for g :: "SelectionOption \<Rightarrow> string"
    using length_dict_fromkeys [of "map g (soff_options f)"] assms(5) by simp
  have texts: "list_all bounded_resolution_text (dict_fromkeys (map g (soff_options f)))"
    if "\<And>a l m r. list_all bounded_resolution_text [a, l, m, r] \<Longrightarrow> bounded_resolution_text (g (a, l, m, r))" for g
    using bounded that by (auto simp: list_all_iff)
  have "map_result option_check (soff_options f) = Inr (map (\<lambda>_. ()) (soff_options f))"
    by (rule map_result_all_Inr) (use bounded in \<open>auto simp: Let_def\<close>)
  moreover have "map_result (\<lambda>l. lifecycle_check l e) (soff_lifecycles f) = Inr (map (\<lambda>_. ()) (soff_lifecycles f))" for e
    unfolding public by (rule map_result_all_Inr) (use bounded in auto)
  moreover have "is_sha256_digest (soff_generation f)"
    using assms(4) by (simp add: fields(2) generation_of_def hex_digests_def is_sha256_digest_def starts_with_def)
  moreover have "offered_row d \<in> set (soff_options f)"
    using rows decision_row_valid [OF assms(1,3)] by blast
  moreover have "list_all (\<lambda>vs. length vs \<le> MAX_SELECTION_OPTIONS \<and> list_all bounded_resolution_text vs \<and> distinct vs)
      [soff_classes f, soff_lifecycles f, soff_models f, soff_reasoning_levels f]"
    unfolding public using lens texts by simp
  ultimately have "validate_resolution_decision_offer sha256 dumps d f =
      (if wishes_bounded request then Inr () else Inl (ValueErrorOf ''invalid_resolution_decision''))"
    using decision_digest_defined [OF assms(1,3)] assms(5) offer_distinct [OF assms(2,3)] fields
    by (simp add: validate_resolution_decision_offer_def Let_def)
  with rows show ?thesis by blast
qed

subsection \<open>The fallback flag\<close>

text \<open>A wish of the request that the decision does not meet.\<close>

definition deviates :: "ResolutionRequest \<Rightarrow> ResolutionDecision \<Rightarrow> bool" where
  "deviates request d \<longleftrightarrow>
     rreq_requested_class request \<notin> {None, Some (rdec_class_id d)} \<or>
     lifecycle_wish request \<notin> {None, Some (rdec_lifecycle d)} \<or>
     rreq_requested_model request \<notin> {None, Some (rdec_model d)} \<or>
     rreq_requested_reasoning request \<notin> {None, Some (rdec_reasoning d)}"

definition fallback_in :: "string list \<Rightarrow> bool" where
  "fallback_in r = list_ex (\<lambda>x. x \<in> set FALLBACK_CODES) r"

lemma fallback_in_simps [simp]:
  "fallback_in [] = False" "fallback_in (r @ r') \<longleftrightarrow> fallback_in r \<or> fallback_in r'"
  by (simp_all add: fallback_in_def)

lemma fallback_in_codes:
  "set r \<subseteq> set FALLBACK_CODES \<Longrightarrow> fallback_in r \<longleftrightarrow> r \<noteq> []"
  by (cases r) (auto simp: fallback_in_def)

lemma class_fallback:
  assumes "select_class request classes = Inr (c, r)"
  shows "fallback_in r \<longleftrightarrow> rreq_requested_class request \<notin> {None, Some (acp_class_id c)}"
proof -
  have codes: "fallback_in [''requested_class_unavailable'', ''class_auto_selected'']" "\<not> fallback_in [''class_auto_selected'']"
    by (simp_all add: fallback_in_def FALLBACK_CODES_def)
  from select_class_Inr [OF assms] consider
      "rreq_requested_class request = Some (acp_class_id c)" "r = []"
    | "rreq_requested_class request = None" "r = [''class_auto_selected'']"
    | k where "rreq_requested_class request = Some k" "k \<notin> acp_class_id ` set classes" "c \<in> set classes"
        "r = [''requested_class_unavailable'', ''class_auto_selected'']"
    by (auto split: option.splits)
  then show ?thesis
  proof cases
    case (3 k)
    then have "k \<noteq> acp_class_id c" by blast
    with 3 codes show ?thesis by simp
  qed (simp_all add: codes)
qed

lemma lifecycle_fallback:
  assumes "lifecycle_stage request c = Inr (l, r)" and "acp_default_lifecycle c \<in> set (acp_allowed_lifecycles c)"
  shows "fallback_in r \<longleftrightarrow> lifecycle_wish request \<notin> {None, Some l}"
proof -
  have codes: "''requested_lifecycle_outside_class'' \<in> set FALLBACK_CODES"
    "''lifecycle_alias_normalized'' \<notin> set FALLBACK_CODES" "''lifecycle_defaulted'' \<notin> set FALLBACK_CODES"
    by (simp_all add: FALLBACK_CODES_def)
  have st: "set r \<subseteq> {''lifecycle_alias_normalized'', ''lifecycle_defaulted'', ''requested_lifecycle_outside_class''}"
    "''requested_lifecycle_outside_class'' \<in> set r \<longleftrightarrow> lifecycle_wish request \<notin> {None, Some l}"
    using lifecycle_stage_Inr [OF assms] by blast+
  have "fallback_in r \<longleftrightarrow> ''requested_lifecycle_outside_class'' \<in> set r"
    unfolding fallback_in_def list_ex_iff using st(1) codes by blast
  with st(2) show ?thesis by simp
qed

lemma model_fallback:
  assumes "wished_model_stage request c models available = Inr (w, r3)"
    and "model_stage request c models available w = Inr (m, r4)"
    and "list_all model_ok models" and "distinct (map mpol_model_id models)"
  shows "fallback_in (r3 @ r4) \<longleftrightarrow>
    (case rreq_requested_model request of None \<Rightarrow> mpol_family m \<noteq> minimum_family c | Some k \<Rightarrow> mpol_model_id m \<noteq> k)"
proof -
  have codes: "\<not> fallback_in [''model_defaulted'']" "fallback_in [''model_defaulted'', ''default_model_unavailable'']"
    "fallback_in [''requested_model_below_task_minimum'']"
    by (simp_all add: fallback_in_def FALLBACK_CODES_def)
  note wm = wished_model_Inr [OF assms(1,3,4)]
  show ?thesis
  proof (cases "rreq_requested_model request")
    case None
    then have "w = None" "r3 = []" using wm by simp_all
    then have "default_model request c models available [] = Inr (m, r4)" using assms(2) by (simp add: model_stage_def)
    then show ?thesis using default_model_Inr [of request c models available "[]" m r4] None \<open>r3 = []\<close> codes by auto
  next
    case (Some k)
    have plain: "r = r0" if "default_model request c models available r0 = Inr (m, r)" for r0 r
      using default_model_Inr [OF that] Some by simp
    show ?thesis
    proof (cases w)
      case None
      have no: "\<forall>n \<in> set models. mpol_model_id n = k \<longrightarrow>
          \<not> (model_allowed_for_class n c \<and> k \<in> set available \<and> model_supports_task n request)"
        and "\<exists>x \<in> set FALLBACK_CODES. r3 = [x]"
        using wm Some None by simp_all
      then have "fallback_in r3" by (auto simp: fallback_in_def)
      moreover have "m \<in> set (model_candidates request c models available)"
        using model_stage_Inr [OF assms(2)] None by simp
      then have "mpol_model_id m \<noteq> k" using no by (auto simp: candidates_iff)
      ultimately show ?thesis using Some by simp
    next
      case (Some n)
      have n: "n \<in> set models" "mpol_model_id n = k" "model_allowed_for_class n c" "k \<in> set available"
        "model_supports_task n request" "r3 = []"
        using wm Some \<open>rreq_requested_model request = Some k\<close> by simp_all
      show ?thesis
      proof (cases "minimum_rank c models \<le> mpol_rank n")
        case True
        then have "m = n" "r4 = []" using assms(2) Some by (simp_all add: model_stage_def)
        then show ?thesis using n \<open>rreq_requested_model request = Some k\<close> by simp
      next
        case False
        then have dm: "default_model request c models available [''requested_model_below_task_minimum''] = Inr (m, r4)"
          using assms(2) Some by (simp add: model_stage_def)
        then have m: "m \<in> set models" "minimum_rank c models \<le> mpol_rank m"
          using default_model_Inr [OF dm] by (simp_all add: candidates_iff)
        then have "mpol_model_id m \<noteq> k" using same_id_same_model [OF assms(4) m(1) n(1)] n(2) False by auto
        then show ?thesis using plain [OF dm] codes n(6) \<open>rreq_requested_model request = Some k\<close> by simp
      qed
    qed
  qed
qed

lemma reasoning_fallback:
  assumes "reasoning_stage request c m l = Inr (s, r)" and "list_all known_level (mpol_reasoning_levels m)"
  shows "fallback_in r \<longleftrightarrow>
    (case rreq_requested_reasoning request of
       None \<Rightarrow> acp_min_reasoning c \<noteq> acp_max_reasoning c \<and> s \<noteq> default_reasoning l
     | Some q \<Rightarrow> s \<noteq> q)"
proof (cases "rreq_requested_reasoning request")
  case (Some q)
  then show ?thesis
    using reasoning_stage_Inr [OF assms] fallback_in_codes [of r] by auto
next
  case None
  show ?thesis
  proof (cases "acp_min_reasoning c = acp_max_reasoning c")
    case True
    then show ?thesis using assms(1) None by (auto simp: reasoning_stage_def result_simps)
  next
    case False
    then obtain r' where r': "clamp_reasoning (default_reasoning l) m c l = Inr (s, r')" "r = [''reasoning_defaulted''] @ r'"
      using None assms(1) by (auto simp: reasoning_stage_def result_simps)
    have "\<not> fallback_in [''reasoning_defaulted'']" by (simp add: fallback_in_def FALLBACK_CODES_def)
    then have "fallback_in r \<longleftrightarrow> fallback_in r'" unfolding r'(2) fallback_in_simps(2) by simp
    then show ?thesis
      using clamp_Inr [OF r'(1) assms(2)] fallback_in_codes [of r'] None False by auto
  qed
qed

text \<open>
  C15. The fallback flag is exact. With the class and the model that were chosen, a decision is marked
  as a fallback exactly when it departs from an explicit wish of the request (up to the alias of a
  lifecycle), or leaves the default family of models or the default reasoning level where the request
  left the choice open.
\<close>

theorem fallback_iff_deviates:
  assumes "resolve_agent_selection request classes models available = Inr d" and "catalog_ok classes models"
  shows "\<exists>c m. c \<in> set classes \<and> acp_class_id c = rdec_class_id d \<and> m \<in> set models \<and> mpol_model_id m = rdec_model d \<and>
    (rdec_fallback d \<longleftrightarrow> deviates request d \<or>
       (rreq_requested_model request = None \<and> mpol_family m \<noteq> minimum_family c) \<or>
       (rreq_requested_reasoning request = None \<and> acp_min_reasoning c \<noteq> acp_max_reasoning c \<and>
        rdec_reasoning d \<noteq> default_reasoning (rdec_lifecycle d)))"
proof -
  obtain c m r1 r2 r3 r4 r5 w where
    st: "select_class request classes = Inr (c, r1)" "lifecycle_stage request c = Inr (rdec_lifecycle d, r2)"
      "wished_model_stage request c (current_models models) available = Inr (w, r3)"
      "model_stage request c (current_models models) available w = Inr (m, r4)"
      "reasoning_stage request c m (rdec_lifecycle d) = Inr (rdec_reasoning d, r5)" "class_ok c" "model_ok m"
    and mem: "c \<in> set classes" "m \<in> set (model_candidates request c (current_models models) available)"
    and d: "rdec_class_id d = acp_class_id c" "rdec_model d = mpol_model_id m"
      "rdec_fallback d = list_ex (\<lambda>r. r \<in> set FALLBACK_CODES) (r1 @ r2 @ r3 @ r4 @ r5)"
    by (rule resolve_Inr [OF assms]) (metis ResolutionDecision.select_convs(1,3,6))
  have ms: "list_all model_ok (current_models models)" "distinct (map mpol_model_id (current_models models))"
    using assms(2) current_models_ok by (auto simp: catalog_ok_def current_models_def distinct_map_filter)
  have "m \<in> set models" using mem(2) current_models_subset by (simp add: candidates_iff)
  moreover have "rdec_fallback d \<longleftrightarrow> fallback_in r1 \<or> fallback_in r2 \<or> fallback_in (r3 @ r4) \<or> fallback_in r5"
    unfolding d(3) fallback_in_def by simp
  then have "rdec_fallback d \<longleftrightarrow> deviates request d \<or>
       (rreq_requested_model request = None \<and> mpol_family m \<noteq> minimum_family c) \<or>
       (rreq_requested_reasoning request = None \<and> acp_min_reasoning c \<noteq> acp_max_reasoning c \<and>
        rdec_reasoning d \<noteq> default_reasoning (rdec_lifecycle d))"
    unfolding class_fallback [OF st(1)] lifecycle_fallback [OF st(2) class_default_allowed [OF st(6)]]
      model_fallback [OF st(3,4) ms] reasoning_fallback [OF st(5) model_levels_known [OF st(7)]] deviates_def d(1,2)
    by (auto split: option.splits)
  ultimately show ?thesis using mem(1) d(1,2) by metis
qed

subsection \<open>Witnesses\<close>

definition sample_class :: AgentClassPolicy where
  "sample_class =
     \<lparr>acp_class_id = ''arbeitsbiene'', acp_default_lifecycle = ''ephemeral'', acp_allowed_lifecycles = [''ephemeral'', ''binding''],
      acp_allowed_families = [''luna''], acp_min_reasoning = ''low'', acp_max_reasoning = ''high'',
      acp_supported_scopes = [''read'', ''write''], acp_allowed_model_ids = []\<rparr>"

definition sample_model :: ModelPolicy where
  "sample_model =
     \<lparr>mpol_model_id = ''luna-1'', mpol_family = ''luna'', mpol_rank = 10, mpol_reasoning_levels = [''low'', ''medium''],
      mpol_capabilities = []\<rparr>"

definition sample_wish :: ResolutionRequest where
  "sample_wish =
     \<lparr>rreq_scope_kind = ''read'', rreq_complexity = ''simple'', rreq_requested_class = Some ''arbeitsbiene'',
      rreq_requested_lifecycle = Some ''invocation'', rreq_requested_model = None, rreq_requested_reasoning = Some ''max'',
      rreq_required_capabilities = [], rreq_spark_eligible = False\<rparr>"

definition sample_decision :: ResolutionDecision where
  "sample_decision =
     \<lparr>rdec_class_id = ''arbeitsbiene'', rdec_lifecycle = ''ephemeral'', rdec_model = ''luna-1'', rdec_reasoning = ''medium'',
      rdec_reason_codes = [''lifecycle_alias_normalized'', ''model_defaulted'', ''requested_reasoning_outside_limits''],
      rdec_fallback = True, rdec_requested_class = Some ''arbeitsbiene'', rdec_requested_lifecycle = Some ''invocation'',
      rdec_requested_model = None, rdec_requested_reasoning = Some ''max''\<rparr>"

definition zero_digest :: "string \<Rightarrow> string" where
  "zero_digest _ = replicate 64 (CHR ''0'')"

lemma sample_resolved:
  "resolve_agent_selection sample_wish [sample_class] [sample_model] [''luna-1''] = Inr sample_decision"
  by code_simp

lemma sample_catalog: "catalog_ok [sample_class] [sample_model]"
  by code_simp

theorem resolved_decision_offered_witness:
  "\<exists>f. build_selection_offer zero_digest (\<lambda>_. '''') [sample_class] [sample_model] [''luna-1''] = Inr f \<and>
     validate_resolution_decision_offer zero_digest (\<lambda>_. '''') sample_decision f = Inr ()"
proof -
  obtain f where f: "build_selection_offer zero_digest (\<lambda>_. '''') [sample_class] [sample_model] [''luna-1''] = Inr f"
    "length (soff_options f) \<le> MAX_SELECTION_OPTIONS"
  proof -
    let ?f = "projr (build_selection_offer zero_digest (\<lambda>_. '''') [sample_class] [sample_model] [''luna-1''])"
    have "is_ok (build_selection_offer zero_digest (\<lambda>_. '''') [sample_class] [sample_model] [''luna-1''])"
      "length (soff_options ?f) \<le> MAX_SELECTION_OPTIONS" by (code_simp, code_simp)
    then show thesis using that by (auto simp: is_ok_iff)
  qed
  have "wishes_bounded sample_wish" by code_simp
  moreover have "hex_digests zero_digest" by (simp add: hex_digests_def zero_digest_def list_all_iff is_hex_def is_digit_def char_in_range_def)
  ultimately show ?thesis
    using resolved_decision_offered [OF sample_resolved f(1) sample_catalog] f by simp
qed

theorem fallback_iff_deviates_witness:
  "rdec_fallback sample_decision \<and> deviates sample_wish sample_decision \<and>
   (\<exists>c m. c \<in> set [sample_class] \<and> m \<in> set [sample_model] \<and> acp_class_id c = rdec_class_id sample_decision \<and>
      mpol_model_id m = rdec_model sample_decision)"
proof -
  have "deviates sample_wish sample_decision" by code_simp
  then show ?thesis using fallback_iff_deviates [OF sample_resolved sample_catalog] by blast
qed

end
