(* ===== verification/Account_Allocator.thy ===== *)
theory Account_Allocator
  imports Agent_Resolver
begin

text \<open>
  \<open>runtime_account_allocator.py\<close>: leases on accounts, bound to a validated ticket and fresh capacity
  evidence, their revocation through pending releases, and the receipts and verifications that hold a
  lease while a consumer commits it.

  The code compares many objects with \<open>is\<close>. An object is its identity with its (immutable) value;
  objects made here take the next free identity. Random tokens, the clock and the replies of the
  provider adapter are arguments of each call. The environment holds SHA-256, the compact JSON text
  with sorted keys, and the \<open>strftime\<close> text of a UTC time.
\<close>

type_synonym 'a obj = "nat \<times> 'a"

abbreviation same_object :: "'a obj \<Rightarrow> 'a obj \<Rightarrow> bool" where
  "same_object x y \<equiv> fst x = fst y"

record alloc_env =
  le_sha256 :: "string \<Rightarrow> string"
  le_dumps :: "pyval \<Rightarrow> string"
  le_stamp :: "py_datetime \<Rightarrow> string"

subsection \<open>Values\<close>

record ValidatedAllocationTicket =
  vt_ticket_id :: string
  vt_resolution_decision :: ResolutionDecision
  vt_selection_offer :: SelectionOffer
  vt_resolver_offer_generation :: string
  vt_policy_generation :: int
  vt_policy_digest :: string
  vt_capability_binding_digest :: string
  vt_ledger_revision :: int
  vt_phase :: string
  vt_fencing_token :: string
  vt_fence_epoch :: int

record CapacityEvidence =
  ce_ticket_id :: string
  ce_resolver_offer_generation :: string
  ce_policy_generation :: int
  ce_capability_binding_digest :: string
  ce_ledger_revision :: int
  ce_fencing_token :: string
  ce_fence_epoch :: int
  ce_provider_adapter_id :: string
  ce_capacity_units :: "int option"
  ce_quota_units :: "int option"
  ce_cost_units :: "int option"
  ce_resource_units :: "int option"
  ce_evidence_revision :: int
  ce_observed_at_utc :: py_datetime
  ce_expires_at_utc :: py_datetime

record TransactionEvidence =
  te_ticket_id :: string
  te_lease_id :: string
  te_lease_revision :: int
  te_ledger_revision :: int
  te_capability_binding_digest :: string
  te_account_binding_digest :: string
  te_profile_binding_digest :: string
  te_provider_adapter_id :: string
  te_fencing_token :: string
  te_phase :: string

record AccountReservation =
  rv_reservation_id :: string
  rv_account_binding_digest :: string
  rv_profile_binding_digest :: string
  rv_provider_adapter_id :: string
  rv_capacity_evidence :: "CapacityEvidence obj"
  rv_lease_revision :: int
  rv_evidence_revision :: int
  rv_fencing_token :: string
  rv_fence_epoch :: int
  rv_expires_at_utc :: py_datetime

record CredentialLease =
  cl_lease_id :: string
  cl_account_binding_digest :: string
  cl_profile_binding_digest :: string
  cl_provider_adapter_id :: string
  cl_lease_revision :: int
  cl_expires_at_utc :: py_datetime

datatype LeaseState = RESERVED | RELEASE_PENDING | REVOKED

text \<open>A receipt holds a digest; a reference is equal to another by its digest.\<close>

type_synonym LeaseBindingReceiptV1 = "string obj"

type_synonym LeaseBindingReferenceV1 = string

record LeaseRecord =
  lr_lease :: "CredentialLease obj"
  lr_reservation :: "AccountReservation obj"
  lr_ticket :: "ValidatedAllocationTicket obj"
  lr_capacity_evidence :: "CapacityEvidence obj"
  lr_adapter_id :: string
  lr_account_binding_digest :: string
  lr_profile_binding_digest :: string
  lr_ticket_id :: string
  lr_resolution_decision_digest :: string
  lr_resolver_offer_generation :: string
  lr_policy_generation :: int
  lr_policy_digest :: string
  lr_ledger_revision :: int
  lr_capability_binding_digest :: string
  lr_fencing_token :: string
  lr_fence_epoch :: int
  lr_ticket_phase :: string
  lr_phase :: string
  lr_capacity_units :: "int option"
  lr_quota_units :: "int option"
  lr_cost_units :: "int option"
  lr_resource_units :: "int option"
  lr_evidence_revision :: int
  lr_evidence_observed_at_utc :: string
  lr_evidence_expires_at_utc :: string
  lr_reservation_id :: string
  lr_lease_id :: string
  lr_lease_revision :: int
  lr_lease_expires_at_utc :: string
  lr_reservation_key :: string
  lr_state :: LeaseState
  lr_pending_release_id :: "string option"
  lr_receipt :: "LeaseBindingReceiptV1 option"

record LeaseBindingVerificationRecord =
  lv_verification :: nat
  lv_lease_record :: "LeaseRecord obj"
  lv_receipt :: LeaseBindingReceiptV1
  lv_lease :: "CredentialLease obj"
  lv_ticket :: "ValidatedAllocationTicket obj"
  lv_capacity_evidence :: "CapacityEvidence obj"
  lv_binding_reference :: LeaseBindingReferenceV1

record PendingRelease =
  pr_pending_release_id :: string
  pr_reservation_key :: string
  pr_reservation :: "AccountReservation obj"
  pr_active_account_key :: "string option"
  pr_active_key :: "string option"
  pr_fencing_token :: string
  pr_lease_id :: "string option"

record ReservationOwner =
  ro_reservation_key :: string
  ro_owner_id :: string
  ro_reservation :: "AccountReservation obj"
  ro_fencing_token :: string
  ro_phase :: LeaseState
  ro_lease_id :: "string option"

text \<open>\<open>al_next\<close> is the identity of the next object.\<close>

record RuntimeAccountAllocator =
  al_active_by_account :: "(string, (string, int \<times> int) dict) dict"
  al_verifications :: "(nat, LeaseBindingVerificationRecord) dict"
  al_deferred_revokes :: "(string, LeaseRecord obj) dict"
  al_latest_by_account :: "(string, int \<times> int) dict"
  al_pending_releases :: "(string, PendingRelease obj) dict"
  al_records :: "(string, LeaseRecord obj) dict"
  al_reservation_owners :: "(string, ReservationOwner) dict"
  al_next :: nat

definition RuntimeAccountAllocator_init :: RuntimeAccountAllocator where
  "RuntimeAccountAllocator_init =
     \<lparr>al_active_by_account = [], al_verifications = [], al_deferred_revokes = [], al_latest_by_account = [],
      al_pending_releases = [], al_records = [], al_reservation_owners = [], al_next = 0\<rparr>"

definition lease_binding_reference_to_document :: "LeaseBindingReferenceV1 \<Rightarrow> string result" where
  "lease_binding_reference_to_document r = (if is_sha256_digest r then Inr r else Inl AllocationDenied)"

definition lease_binding_reference_from_document :: "string \<Rightarrow> LeaseBindingReferenceV1 result" where
  "lease_binding_reference_from_document t = (if is_sha256_digest t then Inr t else Inl AllocationDenied)"

subsection \<open>Checks\<close>

definition positive :: "int option \<Rightarrow> bool" where
  "positive n = (case n of None \<Rightarrow> False | Some i \<Rightarrow> 0 < i)"

definition central_resolution_offer_invariant :: "alloc_env \<Rightarrow> ValidatedAllocationTicket \<Rightarrow> bool" where
  "central_resolution_offer_invariant env t =
     (let d = vt_resolution_decision t; f = vt_selection_offer t;
          generation = generation_of (le_sha256 env) (le_dumps env) (soff_options f)
      in list_all (\<lambda>v. v \<noteq> []) [rdec_class_id d, rdec_lifecycle d, rdec_model d, rdec_reasoning d] \<and>
         list_all (\<lambda>v. v \<noteq> []) (rdec_reason_codes d) \<and>
         list_all (\<lambda>v. v \<noteq> Some []) [rdec_requested_class d, rdec_requested_lifecycle d, rdec_requested_model d,
           rdec_requested_reasoning d] \<and>
         list_all (\<lambda>(c, l, m, r). c \<noteq> [] \<and> l \<noteq> [] \<and> m \<noteq> [] \<and> r \<noteq> []) (soff_options f) \<and>
         soff_generation f = generation \<and> vt_resolver_offer_generation t = generation \<and>
         (soff_classes f, soff_lifecycles f, soff_models f, soff_reasoning_levels f) = public_rows (soff_options f) \<and>
         offered_row d \<in> set (soff_options f))"

definition allocation_binding_invariant ::
  "alloc_env \<Rightarrow> py_datetime \<Rightarrow> ValidatedAllocationTicket \<Rightarrow> CapacityEvidence \<Rightarrow> bool" where
  "allocation_binding_invariant env now t e =
     (central_resolution_offer_invariant env t \<and> vt_phase t = ''OFFER_VALIDATED'' \<and>
      list_all positive [Some (vt_policy_generation t), Some (vt_fence_epoch t), Some (vt_ledger_revision t),
        Some (ce_policy_generation e), Some (ce_fence_epoch e), Some (ce_ledger_revision e), ce_capacity_units e,
        ce_quota_units e, ce_cost_units e, ce_resource_units e, Some (ce_evidence_revision e)] \<and>
      list_all (\<lambda>v. v \<noteq> []) [vt_ticket_id t, vt_resolver_offer_generation t, vt_policy_digest t,
        vt_capability_binding_digest t, vt_phase t, vt_fencing_token t, ce_ticket_id e, ce_resolver_offer_generation e,
        ce_capability_binding_digest e, ce_fencing_token e, ce_provider_adapter_id e] \<and>
      aware (ce_observed_at_utc e) \<and> aware (ce_expires_at_utc e) \<and>
      instant (ce_observed_at_utc e) \<le> instant now \<and> instant now \<le> instant (ce_expires_at_utc e) \<and>
      (ce_ticket_id e, ce_resolver_offer_generation e, ce_policy_generation e, ce_fence_epoch e,
       ce_capability_binding_digest e, ce_ledger_revision e, ce_fencing_token e) =
      (vt_ticket_id t, vt_resolver_offer_generation t, vt_policy_generation t, vt_fence_epoch t,
       vt_capability_binding_digest t, vt_ledger_revision t, vt_fencing_token t))"

definition transaction_evidence_is_valid :: "TransactionEvidence \<Rightarrow> bool" where
  "transaction_evidence_is_valid e =
     (0 < te_lease_revision e \<and> 0 < te_ledger_revision e \<and>
      list_all (\<lambda>v. v \<noteq> []) [te_ticket_id e, te_lease_id e, te_capability_binding_digest e, te_account_binding_digest e,
        te_profile_binding_digest e, te_provider_adapter_id e, te_fencing_token e, te_phase e])"

definition canonical_utc :: "alloc_env \<Rightarrow> py_datetime \<Rightarrow> string result" where
  "canonical_utc env d =
     (if \<not> aware d then Inl ValueError else and_then (as_utc d) (\<lambda>u. Inr (le_stamp env u)))"

definition lease_is_well_formed :: "CredentialLease \<Rightarrow> bool" where
  "lease_is_well_formed l =
     (list_all (\<lambda>v. v \<noteq> []) [cl_lease_id l, cl_account_binding_digest l, cl_profile_binding_digest l,
        cl_provider_adapter_id l] \<and> 0 < cl_lease_revision l \<and> aware (cl_expires_at_utc l))"

definition reservation_is_well_formed :: "AccountReservation \<Rightarrow> bool" where
  "reservation_is_well_formed r =
     (list_all (\<lambda>v. v \<noteq> []) [rv_reservation_id r, rv_account_binding_digest r, rv_profile_binding_digest r,
        rv_provider_adapter_id r, rv_fencing_token r] \<and>
      0 < rv_lease_revision r \<and> 0 < rv_evidence_revision r \<and> 0 < rv_fence_epoch r \<and> aware (rv_expires_at_utc r))"

definition reservation_matches_evidence :: "AccountReservation \<Rightarrow> CapacityEvidence obj \<Rightarrow> bool" where
  "reservation_matches_evidence r e =
     (reservation_is_well_formed r \<and> same_object (rv_capacity_evidence r) e \<and>
      rv_provider_adapter_id r = ce_provider_adapter_id (snd e) \<and>
      rv_evidence_revision r = ce_evidence_revision (snd e) \<and> rv_fencing_token r = ce_fencing_token (snd e) \<and>
      rv_fence_epoch r = ce_fence_epoch (snd e) \<and>
      aware (ce_expires_at_utc (snd e)) \<and> instant (rv_expires_at_utc r) = instant (ce_expires_at_utc (snd e)))"

text \<open>The key of a reservation without an identifier is made of \<open>id(reservation)\<close>.\<close>

fun decimal :: "nat \<Rightarrow> string" where
  "decimal n = (if n < 10 then [char_of (48 + n)] else decimal (n div 10) @ [char_of (48 + n mod 10)])"

declare decimal.simps [simp del]

definition reservation_key :: "alloc_env \<Rightarrow> AccountReservation obj \<Rightarrow> string" where
  "reservation_key env r =
     ''sha256:'' @ le_sha256 env
       (if rv_reservation_id (snd r) \<noteq> [] then rv_reservation_id (snd r) else ''reply-object:'' @ decimal (fst r))"

definition reservation_owner_invariant ::
  "ReservationOwner option \<Rightarrow> string \<Rightarrow> string \<Rightarrow> AccountReservation obj \<Rightarrow> string \<Rightarrow> LeaseState \<Rightarrow> string option \<Rightarrow> bool" where
  "reservation_owner_invariant owner key owner_id reservation token phase lease_id =
     (case owner of
        None \<Rightarrow> False
      | Some w \<Rightarrow>
          ro_reservation_key w = key \<and> ro_owner_id w = owner_id \<and> same_object (ro_reservation w) reservation \<and>
          ro_fencing_token w = token \<and> ro_phase w = phase \<and> ro_lease_id w = lease_id)"

subsection \<open>The binding of a lease and its digest\<close>

definition matches_text :: "'a result \<Rightarrow> 'a \<Rightarrow> bool" where
  "matches_text r t = (case r of Inl e \<Rightarrow> False | Inr x \<Rightarrow> x = t)"

definition receipt_binding_invariant ::
  "alloc_env \<Rightarrow> py_datetime \<Rightarrow> RuntimeAccountAllocator \<Rightarrow> LeaseRecord obj option \<Rightarrow> CredentialLease obj \<Rightarrow>
   ValidatedAllocationTicket obj \<Rightarrow> CapacityEvidence obj \<Rightarrow> bool" where
  "receipt_binding_invariant env now s record lease ticket evidence =
     (case record of
        None \<Rightarrow> False
      | Some (_, r) \<Rightarrow>
          (let l = snd lease; t = snd ticket; e = snd evidence; v = snd (lr_reservation r)
           in lr_state r = RESERVED \<and> lr_pending_release_id r = None \<and> same_object (lr_lease r) lease \<and>
              same_object (lr_ticket r) ticket \<and> same_object (lr_capacity_evidence r) evidence \<and>
              lease_is_well_formed l \<and> allocation_binding_invariant env now t e \<and>
              reservation_matches_evidence v evidence \<and>
              reservation_owner_invariant (map_of (al_reservation_owners s) (lr_reservation_key r)) (lr_reservation_key r)
                (lr_lease_id r) (lr_reservation r) (lr_fencing_token r) RESERVED (Some (lr_lease_id r)) \<and>
              (cl_lease_id l, cl_account_binding_digest l, cl_profile_binding_digest l, cl_provider_adapter_id l,
               cl_lease_revision l) =
              (lr_lease_id r, lr_account_binding_digest r, lr_profile_binding_digest r, lr_adapter_id r, lr_lease_revision r) \<and>
              matches_text (canonical_utc env (cl_expires_at_utc l)) (lr_lease_expires_at_utc r) \<and>
              vt_ticket_id t = lr_ticket_id r \<and>
              matches_text (canonical_resolution_decision_digest (le_sha256 env) (le_dumps env) (vt_resolution_decision t))
                (lr_resolution_decision_digest r) \<and>
              (vt_resolver_offer_generation t, vt_policy_generation t, vt_policy_digest t, vt_capability_binding_digest t,
               vt_ledger_revision t, vt_fencing_token t, vt_fence_epoch t, vt_phase t) =
              (lr_resolver_offer_generation r, lr_policy_generation r, lr_policy_digest r, lr_capability_binding_digest r,
               lr_ledger_revision r, lr_fencing_token r, lr_fence_epoch r, lr_ticket_phase r) \<and>
              (ce_ticket_id e, ce_resolver_offer_generation e, ce_policy_generation e, ce_capability_binding_digest e,
               ce_ledger_revision e, ce_fencing_token e, ce_fence_epoch e, ce_provider_adapter_id e) =
              (lr_ticket_id r, lr_resolver_offer_generation r, lr_policy_generation r, lr_capability_binding_digest r,
               lr_ledger_revision r, lr_fencing_token r, lr_fence_epoch r, lr_adapter_id r) \<and>
              (ce_capacity_units e, ce_quota_units e, ce_cost_units e, ce_resource_units e, ce_evidence_revision e) =
              (lr_capacity_units r, lr_quota_units r, lr_cost_units r, lr_resource_units r, lr_evidence_revision r) \<and>
              matches_text (canonical_utc env (ce_observed_at_utc e)) (lr_evidence_observed_at_utc r) \<and>
              matches_text (canonical_utc env (ce_expires_at_utc e)) (lr_evidence_expires_at_utc r) \<and>
              (rv_reservation_id v, rv_account_binding_digest v, rv_profile_binding_digest v, rv_provider_adapter_id v,
               rv_lease_revision v, rv_evidence_revision v, rv_fencing_token v, rv_fence_epoch v) =
              (lr_reservation_id r, lr_account_binding_digest r, lr_profile_binding_digest r, lr_adapter_id r,
               lr_lease_revision r, lr_evidence_revision r, lr_fencing_token r, lr_fence_epoch r) \<and>
              matches_text (canonical_utc env (rv_expires_at_utc v)) (lr_lease_expires_at_utc r)))"

definition lease_binding_payload :: "LeaseRecord \<Rightarrow> pyval" where
  "lease_binding_payload r = PDict
     [(''adapter_id'', PStr (lr_adapter_id r)), (''account_binding_digest'', PStr (lr_account_binding_digest r)),
      (''binding_schema'', PStr ''codex-master/lease-binding/v1''),
      (''capability_binding_digest'', PStr (lr_capability_binding_digest r)),
      (''capacity_evidence_revision'', PInt (lr_evidence_revision r)), (''fence_epoch'', PInt (lr_fence_epoch r)),
      (''fencing_token'', PStr (lr_fencing_token r)), (''lease_expires_at_utc'', PStr (lr_lease_expires_at_utc r)),
      (''lease_id'', PStr (lr_lease_id r)), (''lease_revision'', PInt (lr_lease_revision r)),
      (''ledger_revision'', PInt (lr_ledger_revision r)), (''policy_digest'', PStr (lr_policy_digest r)),
      (''policy_generation'', PInt (lr_policy_generation r)),
      (''profile_binding_digest'', PStr (lr_profile_binding_digest r)), (''reservation_id'', PStr (lr_reservation_id r)),
      (''resolution_decision_digest'', PStr (lr_resolution_decision_digest r)),
      (''resolver_offer_generation'', PStr (lr_resolver_offer_generation r)), (''ticket_id'', PStr (lr_ticket_id r))]"

definition lease_binding_canonical_json :: "alloc_env \<Rightarrow> LeaseRecord \<Rightarrow> string" where
  "lease_binding_canonical_json env r = le_dumps env (lease_binding_payload r)"

definition lease_binding_reference_for_record :: "alloc_env \<Rightarrow> LeaseRecord \<Rightarrow> LeaseBindingReferenceV1 result" where
  "lease_binding_reference_for_record env r =
     lease_binding_reference_from_document (''sha256:'' @ le_sha256 env (lease_binding_canonical_json env r))"

subsection \<open>Sections under the lock\<close>

definition set_active :: "string \<Rightarrow> string \<Rightarrow> int \<times> int \<Rightarrow> RuntimeAccountAllocator \<Rightarrow> RuntimeAccountAllocator" where
  "set_active account key revisions s =
     s\<lparr>al_active_by_account := AList.update account
         (AList.update key revisions (case map_of (al_active_by_account s) account of None \<Rightarrow> [] | Some d \<Rightarrow> d))
         (al_active_by_account s)\<rparr>"

definition queue_new_pending_release_locked ::
  "string \<Rightarrow> AccountReservation obj \<Rightarrow> string \<Rightarrow> string \<Rightarrow> RuntimeAccountAllocator \<Rightarrow> string \<times> RuntimeAccountAllocator" where
  "queue_new_pending_release_locked tok reservation key fencing_token s =
     (let well_formed = reservation_is_well_formed (snd reservation);
          pending = \<lparr>pr_pending_release_id = tok, pr_reservation_key = key, pr_reservation = reservation,
            pr_active_account_key = (if well_formed then Some (rv_account_binding_digest (snd reservation)) else None),
            pr_active_key = (if well_formed then Some tok else None), pr_fencing_token = fencing_token,
            pr_lease_id = None\<rparr>;
          owner = \<lparr>ro_reservation_key = key, ro_owner_id = tok, ro_reservation = reservation,
            ro_fencing_token = fencing_token, ro_phase = RELEASE_PENDING, ro_lease_id = None\<rparr>;
          s1 = s\<lparr>al_pending_releases := AList.update tok (al_next s, pending) (al_pending_releases s),
            al_reservation_owners := AList.update key owner (al_reservation_owners s), al_next := al_next s + 1\<rparr>
      in (tok,
          if well_formed
          then set_active (rv_account_binding_digest (snd reservation)) tok
                 (rv_evidence_revision (snd reservation), rv_lease_revision (snd reservation)) s1
          else s1))"

definition units_left :: "CapacityEvidence \<Rightarrow> int option" where
  "units_left e =
     (case (ce_capacity_units e, ce_quota_units e, ce_cost_units e, ce_resource_units e) of
        (Some a, Some b, Some c, Some d) \<Rightarrow> Some (min (min a b) (min c d))
      | _ \<Rightarrow> None)"

definition account_exhausted :: "RuntimeAccountAllocator \<Rightarrow> CapacityEvidence \<Rightarrow> AccountReservation \<Rightarrow> bool" where
  "account_exhausted s e v =
     ((case map_of (al_latest_by_account s) (rv_account_binding_digest v) of
         None \<Rightarrow> False
       | Some (evidence_revision, lease_revision) \<Rightarrow>
           ce_evidence_revision e \<le> evidence_revision \<or> rv_lease_revision v \<le> lease_revision) \<or>
      (case map_of (al_active_by_account s) (rv_account_binding_digest v) of
         None \<Rightarrow> False
       | Some active \<Rightarrow> active \<noteq> [] \<and> (case units_left e of None \<Rightarrow> False | Some n \<Rightarrow> n \<le> int (length active))))"

definition new_record ::
  "ValidatedAllocationTicket obj \<Rightarrow> CapacityEvidence obj \<Rightarrow> string \<Rightarrow> AccountReservation obj \<Rightarrow> string \<Rightarrow> CredentialLease obj \<Rightarrow>
   string \<Rightarrow> string \<Rightarrow> string \<Rightarrow> string \<Rightarrow> LeaseRecord" where
  "new_record ticket evidence adapter_id reservation key lease decision_digest lease_expires observed expires =
     (let t = snd ticket; e = snd evidence; l = snd lease
      in \<lparr>lr_lease = lease, lr_reservation = reservation, lr_ticket = ticket, lr_capacity_evidence = evidence,
          lr_adapter_id = adapter_id, lr_account_binding_digest = cl_account_binding_digest l,
          lr_profile_binding_digest = cl_profile_binding_digest l, lr_ticket_id = vt_ticket_id t,
          lr_resolution_decision_digest = decision_digest, lr_resolver_offer_generation = vt_resolver_offer_generation t,
          lr_policy_generation = vt_policy_generation t, lr_policy_digest = vt_policy_digest t,
          lr_ledger_revision = vt_ledger_revision t, lr_capability_binding_digest = vt_capability_binding_digest t,
          lr_fencing_token = vt_fencing_token t, lr_fence_epoch = vt_fence_epoch t, lr_ticket_phase = vt_phase t,
          lr_phase = ''LEASE_RESERVED'', lr_capacity_units = ce_capacity_units e, lr_quota_units = ce_quota_units e,
          lr_cost_units = ce_cost_units e, lr_resource_units = ce_resource_units e,
          lr_evidence_revision = ce_evidence_revision e, lr_evidence_observed_at_utc = observed,
          lr_evidence_expires_at_utc = expires, lr_reservation_id = rv_reservation_id (snd reservation),
          lr_lease_id = cl_lease_id l, lr_lease_revision = cl_lease_revision l, lr_lease_expires_at_utc = lease_expires,
          lr_reservation_key = key, lr_state = RESERVED, lr_pending_release_id = None, lr_receipt = None\<rparr>)"

text \<open>
  \<open>_bind_reservation_locked\<close>; \<open>lease_tok\<close> and \<open>pending_tok\<close> are the tokens that it draws. The result
  is the lease, or the pending release that its caller has to retry, or neither.
\<close>

definition bind_reservation_locked ::
  "alloc_env \<Rightarrow> py_datetime \<Rightarrow> string \<Rightarrow> string \<Rightarrow> ValidatedAllocationTicket obj \<Rightarrow> CapacityEvidence obj \<Rightarrow> string \<Rightarrow>
   AccountReservation obj option \<Rightarrow> RuntimeAccountAllocator \<Rightarrow>
   (CredentialLease obj option \<times> string option) \<times> RuntimeAccountAllocator" where
  "bind_reservation_locked env now lease_tok pending_tok ticket evidence adapter_id reply s =
     (case reply of
        None \<Rightarrow> ((None, None), s)
      | Some reservation \<Rightarrow>
          (let v = snd reservation; e = snd evidence; key = reservation_key env reservation;
               give_back = (case queue_new_pending_release_locked pending_tok reservation key
                              (vt_fencing_token (snd ticket)) s of (pid, s') \<Rightarrow> ((None, Some pid), s'))
           in if key \<in> set (map fst (al_reservation_owners s)) then ((None, None), s)
              else if \<not> (allocation_binding_invariant env now (snd ticket) e \<and> adapter_id = ce_provider_adapter_id e \<and>
                         reservation_matches_evidence v evidence)
              then give_back
              else if account_exhausted s e v then give_back
              else let lease = (al_next s, \<lparr>cl_lease_id = lease_tok, cl_account_binding_digest = rv_account_binding_digest v,
                         cl_profile_binding_digest = rv_profile_binding_digest v, cl_provider_adapter_id = adapter_id,
                         cl_lease_revision = rv_lease_revision v, cl_expires_at_utc = rv_expires_at_utc v\<rparr>)
                   in case and_then (canonical_resolution_decision_digest (le_sha256 env) (le_dumps env)
                                       (vt_resolution_decision (snd ticket))) (\<lambda>d.
                           and_then (canonical_utc env (rv_expires_at_utc v)) (\<lambda>x.
                           and_then (canonical_utc env (ce_observed_at_utc e)) (\<lambda>o'.
                           and_then (canonical_utc env (ce_expires_at_utc e)) (\<lambda>y. Inr (d, x, o', y))))) of
                        Inl _ \<Rightarrow> give_back
                      | Inr (d, x, o', y) \<Rightarrow>
                          ((Some lease, None),
                           set_active (rv_account_binding_digest v) lease_tok (ce_evidence_revision e, rv_lease_revision v)
                             (s\<lparr>al_records := AList.update lease_tok
                                  (al_next s + 1, new_record ticket evidence adapter_id reservation key lease d x o' y)
                                  (al_records s),
                                al_reservation_owners := AList.update key
                                  \<lparr>ro_reservation_key = key, ro_owner_id = lease_tok, ro_reservation = reservation,
                                   ro_fencing_token = vt_fencing_token (snd ticket), ro_phase = RESERVED,
                                   ro_lease_id = Some lease_tok\<rparr> (al_reservation_owners s),
                                al_latest_by_account := AList.update (rv_account_binding_digest v)
                                  (ce_evidence_revision e, rv_lease_revision v) (al_latest_by_account s),
                                al_next := al_next s + 2\<rparr>))))"

definition transition_lease_release_locked ::
  "string \<Rightarrow> LeaseRecord obj \<Rightarrow> RuntimeAccountAllocator \<Rightarrow> string option \<times> RuntimeAccountAllocator" where
  "transition_lease_release_locked tok record s =
     (let r = snd record; key = lr_reservation_key r; lease_id = cl_lease_id (snd (lr_lease r));
          owner = map_of (al_reservation_owners s) key
      in case owner of
           None \<Rightarrow> (None, s)
         | Some w \<Rightarrow>
             if \<not> reservation_owner_invariant owner key lease_id (lr_reservation r) (lr_fencing_token r) RESERVED (Some lease_id)
             then (None, s)
             else (Some tok,
               s\<lparr>al_pending_releases := AList.update tok
                   (al_next s, \<lparr>pr_pending_release_id = tok, pr_reservation_key = key, pr_reservation = lr_reservation r,
                     pr_active_account_key = Some (cl_account_binding_digest (snd (lr_lease r))),
                     pr_active_key = Some lease_id, pr_fencing_token = lr_fencing_token r,
                     pr_lease_id = Some lease_id\<rparr>) (al_pending_releases s),
                 al_reservation_owners := AList.update key (w\<lparr>ro_owner_id := tok, ro_phase := RELEASE_PENDING\<rparr>)
                   (al_reservation_owners s),
                 al_records := AList.update lease_id
                   (al_next s + 1, r\<lparr>lr_state := RELEASE_PENDING, lr_phase := ''RELEASE_PENDING'',
                     lr_pending_release_id := Some tok\<rparr>) (al_records s),
                 al_next := al_next s + 2\<rparr>))"

definition has_active_lease_binding_verification :: "RuntimeAccountAllocator \<Rightarrow> LeaseRecord obj \<Rightarrow> bool" where
  "has_active_lease_binding_verification s record =
     list_ex (\<lambda>(_, a). same_object (lv_lease_record a) record) (al_verifications s)"

definition revoke_locked ::
  "string \<Rightarrow> CredentialLease obj \<Rightarrow> RuntimeAccountAllocator \<Rightarrow> string option \<times> RuntimeAccountAllocator" where
  "revoke_locked tok lease s =
     (case map_of (al_records s) (cl_lease_id (snd lease)) of
        None \<Rightarrow> (None, s)
      | Some record \<Rightarrow>
          if \<not> same_object (lr_lease (snd record)) lease then (None, s)
          else case lr_state (snd record) of
            REVOKED \<Rightarrow> (None, s)
          | RESERVED \<Rightarrow>
              if has_active_lease_binding_verification s record
              then (None, (case map_of (al_deferred_revokes s) (lr_lease_id (snd record)) of
                             None \<Rightarrow> s\<lparr>al_deferred_revokes :=
                               AList.update (lr_lease_id (snd record)) record (al_deferred_revokes s)\<rparr>
                           | Some _ \<Rightarrow> s))
              else transition_lease_release_locked tok record s
          | RELEASE_PENDING \<Rightarrow> (lr_pending_release_id (snd record), s))"

subsection \<open>Releases\<close>

text \<open>
  \<open>_retry_pending_release\<close> looks the release up under the lock, calls the adapter without it (under
  the release lock), and settles the release under the lock again.
\<close>

definition pending_owned :: "RuntimeAccountAllocator \<Rightarrow> PendingRelease \<Rightarrow> bool" where
  "pending_owned s p =
     reservation_owner_invariant (map_of (al_reservation_owners s) (pr_reservation_key p)) (pr_reservation_key p)
       (pr_pending_release_id p) (pr_reservation p) (pr_fencing_token p) RELEASE_PENDING (pr_lease_id p)"

fun retry_begin :: "string \<Rightarrow> RuntimeAccountAllocator \<Rightarrow> bool + PendingRelease obj" where
  "retry_begin pid s =
     (case map_of (al_pending_releases s) pid of
        None \<Rightarrow> Inl True
      | Some p \<Rightarrow> if pending_owned s (snd p) then Inr p else Inl False)"

definition release_reservation :: "(AccountReservation obj \<Rightarrow> pyval result) \<Rightarrow> AccountReservation obj \<Rightarrow> bool" where
  "release_reservation release r = (release r = Inr (PBool True))"

definition drop_active :: "PendingRelease \<Rightarrow> RuntimeAccountAllocator \<Rightarrow> RuntimeAccountAllocator" where
  "drop_active p s =
     (case (pr_active_account_key p, pr_active_key p) of
        (Some account, Some key) \<Rightarrow>
          (case map_of (al_active_by_account s) account of
             None \<Rightarrow> s
           | Some active \<Rightarrow>
               s\<lparr>al_active_by_account := AList.update account (AList.delete key active) (al_active_by_account s)\<rparr>)
      | _ \<Rightarrow> s)"

definition revoked_record :: "LeaseRecord \<Rightarrow> LeaseRecord" where
  "revoked_record r = r\<lparr>lr_state := REVOKED, lr_phase := ''LEASE_REVOKED'', lr_pending_release_id := None\<rparr>"

definition settle_record :: "string \<Rightarrow> PendingRelease \<Rightarrow> RuntimeAccountAllocator \<Rightarrow> RuntimeAccountAllocator" where
  "settle_record pid p s =
     (case pr_lease_id p of
        None \<Rightarrow> s
      | Some lease_id \<Rightarrow>
          (case map_of (al_records s) lease_id of
             None \<Rightarrow> s
           | Some (_, r) \<Rightarrow>
               if same_object (lr_reservation r) (pr_reservation p) \<and> lr_reservation_key r = pr_reservation_key p \<and>
                  lr_pending_release_id r = Some pid
               then s\<lparr>al_records := AList.update lease_id (al_next s, revoked_record r) (al_records s), al_next := al_next s + 1\<rparr>
               else s))"

definition retry_finish :: "string \<Rightarrow> PendingRelease obj \<Rightarrow> RuntimeAccountAllocator \<Rightarrow> bool \<times> RuntimeAccountAllocator" where
  "retry_finish pid p s =
     (if \<not> (case map_of (al_pending_releases s) pid of None \<Rightarrow> False | Some q \<Rightarrow> same_object q p) \<or> \<not> pending_owned s (snd p)
      then (False, s)
      else (True,
        settle_record pid (snd p) (drop_active (snd p)
          (s\<lparr>al_pending_releases := AList.delete pid (al_pending_releases s),
             al_reservation_owners := AList.delete (pr_reservation_key (snd p)) (al_reservation_owners s)\<rparr>))))"

definition retry_pending_release ::
  "(AccountReservation obj \<Rightarrow> pyval result) \<Rightarrow> string \<Rightarrow> RuntimeAccountAllocator \<Rightarrow> bool \<times> RuntimeAccountAllocator" where
  "retry_pending_release release pid s =
     (case retry_begin pid s of
        Inl b \<Rightarrow> (b, s)
      | Inr p \<Rightarrow> if release_reservation release (pr_reservation (snd p)) then retry_finish pid p s else (False, s))"

definition retry_if :: "(AccountReservation obj \<Rightarrow> pyval result) \<Rightarrow> string option \<Rightarrow> RuntimeAccountAllocator \<Rightarrow> RuntimeAccountAllocator" where
  "retry_if release pid s = (case pid of None \<Rightarrow> s | Some p \<Rightarrow> snd (retry_pending_release release p s))"

subsection \<open>The methods\<close>

text \<open>
  The replies of the adapter to one call: its identifier, the reservation (\<open>None\<close> for a reply of
  another type), and the answers to releases.
\<close>

record adapter_replies =
  ad_adapter_id :: "string result"
  ad_reserve :: "string \<Rightarrow> CapacityEvidence obj \<Rightarrow> AccountReservation obj option result"
  ad_release :: "AccountReservation obj \<Rightarrow> pyval result"

text \<open>The clock is read before and after the adapter is asked.\<close>

definition allocate ::
  "alloc_env \<Rightarrow> adapter_replies \<Rightarrow> py_datetime \<Rightarrow> py_datetime \<Rightarrow> string \<Rightarrow> string \<Rightarrow> ValidatedAllocationTicket obj \<Rightarrow>
   CapacityEvidence obj \<Rightarrow> (RuntimeAccountAllocator, CredentialLease obj) op" where
  "allocate env ad now1 now2 lease_tok pending_tok ticket evidence s =
     (if \<not> allocation_binding_invariant env now1 (snd ticket) (snd evidence) then (Inl AllocationDenied, s)
      else case ad_adapter_id ad of
        Inl _ \<Rightarrow> (Inl AllocationDenied, s)
      | Inr adapter_id \<Rightarrow>
          if adapter_id = [] \<or> adapter_id \<noteq> ce_provider_adapter_id (snd evidence) then (Inl AllocationDenied, s)
          else case ad_reserve ad (vt_capability_binding_digest (snd ticket)) evidence of
            Inl _ \<Rightarrow> (Inl AllocationDenied, s)
          | Inr reply \<Rightarrow>
              (case bind_reservation_locked env now2 lease_tok pending_tok ticket evidence adapter_id reply s of
                 ((lease, pid), s1) \<Rightarrow>
                   (case lease of None \<Rightarrow> Inl AllocationDenied | Some l \<Rightarrow> Inr l, retry_if (ad_release ad) pid s1)))"

definition revoke ::
  "(AccountReservation obj \<Rightarrow> pyval result) \<Rightarrow> string \<Rightarrow> CredentialLease obj \<Rightarrow> RuntimeAccountAllocator \<Rightarrow> RuntimeAccountAllocator" where
  "revoke release tok lease s = (case revoke_locked tok lease s of (pid, s1) \<Rightarrow> retry_if release pid s1)"

definition evidence_of_record :: "TransactionEvidence \<Rightarrow> CredentialLease \<Rightarrow> LeaseRecord \<Rightarrow> bool" where
  "evidence_of_record e l r =
     ((te_ticket_id e, te_lease_id e, te_lease_revision e, te_ledger_revision e, te_capability_binding_digest e,
       te_account_binding_digest e, te_profile_binding_digest e, te_provider_adapter_id e, te_fencing_token e, te_phase e) =
      (lr_ticket_id r, cl_lease_id l, cl_lease_revision (snd (lr_lease r)), lr_ledger_revision r,
       lr_capability_binding_digest r, cl_account_binding_digest l, cl_profile_binding_digest l,
       cl_provider_adapter_id l, lr_fencing_token r, lr_phase r))"

definition recover ::
  "(AccountReservation obj \<Rightarrow> pyval result) \<Rightarrow> CredentialLease obj \<Rightarrow> TransactionEvidence \<Rightarrow>
   (RuntimeAccountAllocator, LeaseState) op" where
  "recover release lease e s =
     (if \<not> transaction_evidence_is_valid e then (Inl AllocationDenied, s)
      else case map_of (al_records s) (te_lease_id e) of
        None \<Rightarrow> (Inl AllocationDenied, s)
      | Some (_, r) \<Rightarrow>
          if \<not> same_object (lr_lease r) lease \<or> \<not> evidence_of_record e (snd lease) r then (Inl AllocationDenied, s)
          else if lr_state r = RESERVED
          then (if te_phase e \<noteq> ''LEASE_RESERVED'' then Inl AllocationDenied else Inr RESERVED, s)
          else case lr_pending_release_id r of
            None \<Rightarrow> (Inl AllocationDenied, s)
          | Some pid \<Rightarrow>
              if lr_state r \<noteq> RELEASE_PENDING \<or> te_phase e \<noteq> ''RELEASE_PENDING'' then (Inl AllocationDenied, s)
              else let s1 = snd (retry_pending_release release pid s)
                   in case map_of (al_records s1) (cl_lease_id (snd lease)) of
                        None \<Rightarrow> (Inl AllocationDenied, s1)
                      | Some (_, r1) \<Rightarrow>
                          (if same_object (lr_lease r1) lease then Inr (lr_state r1) else Inl AllocationDenied, s1))"

definition recover_pending_releases ::
  "(AccountReservation obj \<Rightarrow> pyval result) \<Rightarrow> RuntimeAccountAllocator \<Rightarrow> nat \<times> RuntimeAccountAllocator" where
  "recover_pending_releases release s =
     (let s1 = fold (\<lambda>pid s. snd (retry_pending_release release pid s)) (map fst (al_pending_releases s)) s
      in (length (al_pending_releases s1), s1))"

subsection \<open>Receipts and verifications\<close>

definition issue_lease_binding_receipt ::
  "alloc_env \<Rightarrow> py_datetime \<Rightarrow> CredentialLease obj \<Rightarrow> ValidatedAllocationTicket obj \<Rightarrow> CapacityEvidence obj \<Rightarrow>
   (RuntimeAccountAllocator, LeaseBindingReceiptV1) op" where
  "issue_lease_binding_receipt env now lease ticket evidence s =
     (let record = map_of (al_records s) (cl_lease_id (snd lease))
      in if \<not> receipt_binding_invariant env now s record lease ticket evidence then (Inl AllocationDenied, s)
         else case record of
           None \<Rightarrow> (Inl AllocationDenied, s)
         | Some (_, r) \<Rightarrow>
             (case lr_receipt r of
                Some receipt \<Rightarrow> (Inr receipt, s)
              | None \<Rightarrow>
                  (let receipt = (al_next s, ''sha256:'' @ le_sha256 env (lease_binding_canonical_json env r))
                   in (Inr receipt,
                       s\<lparr>al_records := AList.update (lr_lease_id r) (al_next s + 1, r\<lparr>lr_receipt := Some receipt\<rparr>)
                           (al_records s), al_next := al_next s + 2\<rparr>))))"

definition verify_lease_binding_receipt ::
  "alloc_env \<Rightarrow> py_datetime \<Rightarrow> LeaseBindingReceiptV1 \<Rightarrow> CredentialLease obj \<Rightarrow> ValidatedAllocationTicket obj \<Rightarrow>
   CapacityEvidence obj \<Rightarrow> (RuntimeAccountAllocator, nat) op" where
  "verify_lease_binding_receipt env now receipt lease ticket evidence s =
     (case map_of (al_records s) (cl_lease_id (snd lease)) of
        None \<Rightarrow> (Inl AllocationDenied, s)
      | Some record \<Rightarrow>
          if \<not> (case lr_receipt (snd record) of None \<Rightarrow> False | Some c \<Rightarrow> same_object c receipt) \<or>
             \<not> receipt_binding_invariant env now s (Some record) lease ticket evidence \<or>
             lr_state (snd record) \<noteq> RESERVED \<or> lr_pending_release_id (snd record) \<noteq> None \<or>
             has_active_lease_binding_verification s record
          then (Inl AllocationDenied, s)
          else case lease_binding_reference_for_record env (snd record) of
            Inl e \<Rightarrow> (Inl e, s)
          | Inr reference \<Rightarrow>
              (Inr (al_next s),
               s\<lparr>al_verifications := AList.update (al_next s)
                   \<lparr>lv_verification = al_next s, lv_lease_record = record, lv_receipt = receipt, lv_lease = lease,
                    lv_ticket = ticket, lv_capacity_evidence = evidence, lv_binding_reference = reference\<rparr>
                   (al_verifications s), al_next := al_next s + 1\<rparr>))"

definition active_verification_invariant ::
  "alloc_env \<Rightarrow> py_datetime \<Rightarrow> RuntimeAccountAllocator \<Rightarrow> LeaseBindingVerificationRecord \<Rightarrow> bool" where
  "active_verification_invariant env now s a =
     (let record = lv_lease_record a; r = snd record
      in map_of (al_verifications s) (lv_verification a) = Some a \<and>
         (case map_of (al_records s) (lr_lease_id r) of None \<Rightarrow> False | Some c \<Rightarrow> same_object c record) \<and>
         (case lr_receipt r of None \<Rightarrow> False | Some c \<Rightarrow> same_object c (lv_receipt a)) \<and>
         same_object (lr_lease r) (lv_lease a) \<and> same_object (lr_ticket r) (lv_ticket a) \<and>
         same_object (lr_capacity_evidence r) (lv_capacity_evidence a) \<and>
         receipt_binding_invariant env now s (Some record) (lv_lease a) (lv_ticket a) (lv_capacity_evidence a))"

definition lease_binding_reference_for ::
  "alloc_env \<Rightarrow> py_datetime \<Rightarrow> nat \<Rightarrow> (RuntimeAccountAllocator, LeaseBindingReferenceV1) op" where
  "lease_binding_reference_for env now verification s =
     (case map_of (al_verifications s) verification of
        None \<Rightarrow> (Inl AllocationDenied, s)
      | Some a \<Rightarrow>
          (if active_verification_invariant env now s a then Inr (lv_binding_reference a) else Inl AllocationDenied, s))"

text \<open>The section of \<open>close_lease_binding_verification\<close> under the lock: denied or not, and the release to retry.\<close>

definition close_locked ::
  "alloc_env \<Rightarrow> py_datetime \<Rightarrow> string \<Rightarrow> nat \<Rightarrow> RuntimeAccountAllocator \<Rightarrow> (bool \<times> string option) \<times> RuntimeAccountAllocator" where
  "close_locked env now tok verification s =
     (case map_of (al_verifications s) verification of
        None \<Rightarrow> ((True, None), s)
      | Some a \<Rightarrow>
          (let record = lv_lease_record a; lease_id = lr_lease_id (snd record);
               deferred = (case map_of (al_deferred_revokes s) lease_id of None \<Rightarrow> False | Some d \<Rightarrow> same_object d record);
               current = active_verification_invariant env now s a;
               s1 = s\<lparr>al_verifications := AList.delete verification (al_verifications s)\<rparr>;
               s2 = (if deferred then s1\<lparr>al_deferred_revokes := AList.delete lease_id (al_deferred_revokes s1)\<rparr> else s1)
           in if \<not> current then ((True, None), s2)
              else if deferred
              then (case transition_lease_release_locked tok record s2 of (pid, s3) \<Rightarrow> ((False, pid), s3))
              else ((False, None), s2)))"

definition close_lease_binding_verification ::
  "alloc_env \<Rightarrow> py_datetime \<Rightarrow> (AccountReservation obj \<Rightarrow> pyval result) \<Rightarrow> string \<Rightarrow> nat \<Rightarrow> (RuntimeAccountAllocator, unit) op" where
  "close_lease_binding_verification env now release tok verification s =
     (case close_locked env now tok verification s of
        ((True, _), s1) \<Rightarrow> (Inl AllocationDenied, s1)
      | ((False, pid), s1) \<Rightarrow> (Inr (), retry_if release pid s1))"

end
