(* ===== verification/Worker_Resume.thy ===== *)
theory Worker_Resume
  imports Hive_Types
begin

text \<open>
  \<open>worker_resume.py\<close>: the values of a worker resume, the evidence that a terminal phase needs, and
  the delegation of a resume to the ledger. The constructors check what \<open>__post_init__\<close> checks of values
  of the declared types.
\<close>

datatype WorkerLifecycle = EPHEMERAL | INVOCATION | BINDING | PERSISTENT

text \<open>\<open>ResumeRequestPhase\<close> has the one value \<open>REQUESTED\<close>.\<close>

datatype ResumeRequestPhase = RESUME_REQUESTED

definition resume_digest :: "string \<Rightarrow> string \<Rightarrow> unit result" where
  "resume_digest v field = check (is_sha256_digest v) (ResumeDenied (''invalid '' @ field))"

definition require_request_id :: "string \<Rightarrow> unit result" where
  "require_request_id v = check (v \<noteq> []) (ResumeDenied ''invalid new request id'')"

type_synonym CapsuleGeneration = int

definition CapsuleGeneration_init :: "int \<Rightarrow> CapsuleGeneration result" where
  "CapsuleGeneration_init n = (if n < 1 then Inl (ResumeDenied ''invalid capsule generation'') else Inr n)"

record WorkerResumeCapsuleV2 =
  rc_schema_version :: int
  rc_capsule_digest :: string
  rc_capsule_generation :: CapsuleGeneration
  rc_bee_digest :: string
  rc_session_digest :: string
  rc_topic_digest :: string
  rc_policy_digest :: string
  rc_account_binding_digest :: string

definition WorkerResumeCapsuleV2_init :: "WorkerResumeCapsuleV2 \<Rightarrow> WorkerResumeCapsuleV2 result" where
  "WorkerResumeCapsuleV2_init c =
     and_then (check (rc_schema_version c = 2) (ResumeDenied ''unsupported capsule schema'')) (\<lambda>_.
     and_then (resume_digest (rc_capsule_digest c) ''capsule_digest'') (\<lambda>_.
     and_then (resume_digest (rc_bee_digest c) ''bee_digest'') (\<lambda>_.
     and_then (resume_digest (rc_session_digest c) ''session_digest'') (\<lambda>_.
     and_then (resume_digest (rc_topic_digest c) ''topic_digest'') (\<lambda>_.
     and_then (resume_digest (rc_policy_digest c) ''policy_digest'') (\<lambda>_.
     and_then (resume_digest (rc_account_binding_digest c) ''account_binding_digest'') (\<lambda>_. Inr c)))))))"

record WorkerResumeRequestV2 =
  rr_request_id :: string
  rr_capsule_digest :: string
  rr_capsule_generation :: CapsuleGeneration
  rr_bee_digest :: string
  rr_session_digest :: string
  rr_topic_digest :: string
  rr_policy_digest :: string
  rr_account_binding_digest :: string
  rr_phase :: ResumeRequestPhase
  rr_requested_revision :: int
  rr_requires_new_lease :: bool
  rr_allows_in_place_credential_rotation :: bool

definition WorkerResumeRequestV2_init :: "WorkerResumeRequestV2 \<Rightarrow> WorkerResumeRequestV2 result" where
  "WorkerResumeRequestV2_init r =
     and_then (require_request_id (rr_request_id r)) (\<lambda>_.
     and_then (resume_digest (rr_capsule_digest r) ''capsule_digest'') (\<lambda>_.
     and_then (resume_digest (rr_bee_digest r) ''bee_digest'') (\<lambda>_.
     and_then (resume_digest (rr_session_digest r) ''session_digest'') (\<lambda>_.
     and_then (resume_digest (rr_topic_digest r) ''topic_digest'') (\<lambda>_.
     and_then (resume_digest (rr_policy_digest r) ''policy_digest'') (\<lambda>_.
     and_then (resume_digest (rr_account_binding_digest r) ''account_binding_digest'') (\<lambda>_.
     and_then (check (rr_requested_revision r = 1) (ResumeDenied ''resume must start at revision one'')) (\<lambda>_.
     and_then (check (rr_requires_new_lease r) (ResumeDenied ''resume must require a new lease'')) (\<lambda>_.
     and_then (check (\<not> rr_allows_in_place_credential_rotation r)
       (ResumeDenied ''in-place credential rotation forbidden'')) (\<lambda>_. Inr r))))))))))"

definition create_resume_capsule ::
  "string \<Rightarrow> CapsuleGeneration \<Rightarrow> string \<Rightarrow> string \<Rightarrow> string \<Rightarrow> string \<Rightarrow> string \<Rightarrow> WorkerResumeCapsuleV2 result" where
  "create_resume_capsule capsule_digest capsule_generation bee_digest session_digest topic_digest policy_digest
     account_binding_digest =
     and_then (resume_digest capsule_digest ''capsule_digest'') (\<lambda>_.
     and_then (resume_digest bee_digest ''bee_digest'') (\<lambda>_.
     and_then (resume_digest session_digest ''session_digest'') (\<lambda>_.
     and_then (resume_digest topic_digest ''topic_digest'') (\<lambda>_.
     and_then (resume_digest policy_digest ''policy_digest'') (\<lambda>_.
     and_then (resume_digest account_binding_digest ''account_binding_digest'') (\<lambda>_.
       WorkerResumeCapsuleV2_init
         \<lparr>rc_schema_version = 2, rc_capsule_digest = capsule_digest, rc_capsule_generation = capsule_generation,
          rc_bee_digest = bee_digest, rc_session_digest = session_digest, rc_topic_digest = topic_digest,
          rc_policy_digest = policy_digest, rc_account_binding_digest = account_binding_digest\<rparr>))))))"

definition capsule_required :: "WorkerLifecycle \<Rightarrow> bool \<Rightarrow> bool" where
  "capsule_required lifecycle resumable = (resumable \<or> lifecycle = BINDING \<or> lifecycle = PERSISTENT)"

definition require_terminal_capsule ::
  "WorkerLifecycle \<Rightarrow> bool \<Rightarrow> WorkerResumeCapsuleV2 option \<Rightarrow> string \<Rightarrow> string \<Rightarrow> string \<Rightarrow> WorkerResumeCapsuleV2 option result" where
  "require_terminal_capsule lifecycle resumable capsule topic_digest policy_digest account_binding_digest =
     and_then (resume_digest topic_digest ''topic_digest'') (\<lambda>_.
     and_then (resume_digest policy_digest ''policy_digest'') (\<lambda>_.
     and_then (resume_digest account_binding_digest ''account_binding_digest'') (\<lambda>_.
       case capsule of
         None \<Rightarrow> if capsule_required lifecycle resumable then Inl (ResumeDenied ''terminal capsule required'') else Inr None
       | Some c \<Rightarrow>
           if (rc_topic_digest c, rc_policy_digest c, rc_account_binding_digest c) \<noteq>
              (topic_digest, policy_digest, account_binding_digest)
           then Inl (ResumeDenied ''terminal capsule binding drift'') else Inr (Some c))))"

text \<open>The call of the ledger is the argument; \<open>SpawnDenied\<close> and \<open>ResumeDenied\<close> are the value errors it raises.\<close>

definition begin_resume_request :: "string \<Rightarrow> ('s, WorkerResumeRequestV2) op \<Rightarrow> ('s, WorkerResumeRequestV2) op" where
  "begin_resume_request new_request_id claim s =
     (case require_request_id new_request_id of
        Inl e \<Rightarrow> (Inl e, s)
      | Inr _ \<Rightarrow>
          (case claim s of
             (Inl (SpawnDenied _), s') \<Rightarrow> (Inl (ResumeDenied ''resume transaction denied''), s')
           | (Inl (ResumeDenied _), s') \<Rightarrow> (Inl (ResumeDenied ''resume transaction denied''), s')
           | r \<Rightarrow> r))"

lemma create_resume_capsule_wf:
  assumes "create_resume_capsule a g b c d e f = Inr x"
  shows "WorkerResumeCapsuleV2_init x = Inr x \<and> rc_capsule_digest x = a \<and> rc_capsule_generation x = g"
  using assms unfolding create_resume_capsule_def WorkerResumeCapsuleV2_init_def
  by (auto simp: result_simps)

end
