(* ===== verification/Spawn_Ledger.thy ===== *)
theory Spawn_Ledger
  imports Account_Allocator Worker_Resume
begin

text \<open>
  \<open>worker_spawn_ledger.py\<close>: the state machine of worker-spawn tickets. Every method reads the
  aggregate through the injected port, computes its replacement and commits it with one compare and
  swap; \<open>append_phase\<close> holds a lease verification of the account allocator around its commit.

  Arguments have their declared types, so the type tests of the code always pass. The port is an
  argument: a state \<open>'w\<close> with the answers to \<open>read\<close> and \<open>compare_and_swap\<close>.
\<close>

definition require_text :: "string \<Rightarrow> string \<Rightarrow> unit result" where
  "require_text v field = check (v \<noteq> []) (SpawnDenied (''invalid '' @ field))"

definition require_digest :: "string \<Rightarrow> string \<Rightarrow> unit result" where
  "require_digest v field = and_then (require_text v field) (\<lambda>_. check (is_sha256_digest v) (SpawnDenied (''invalid '' @ field)))"

definition require_counter :: "int \<Rightarrow> string \<Rightarrow> int result" where
  "require_counter n field = (if n < 0 then Inl (SpawnDenied (''invalid '' @ field)) else Inr n)"

subsection \<open>Values\<close>

datatype PrincipalRole = NON_LEADERSHIP | TEAMLEADER | QUEEN

datatype WorkerFailureCodeV1 = PRE_A3_FAILURE | A3_EXECUTION_FAILED_OR_UNKNOWN | START_STATE_UNKNOWN

datatype WorkerFailureOriginV1 = PRE_A3 | A3_ENTERED | RECOVERY_UNKNOWN

datatype CompensationStatusV1 =
    COMPENSATION_NONE
  | REGISTRY_RELEASE_PENDING
  | REGISTRY_RELEASED
  | HOME_RELEASE_FAILED
  | LEASE_RELEASE_FAILED
  | COMPENSATED
  | COMPENSATION_QUARANTINED

datatype SpawnPhase =
    REQUESTED
  | CLAIMED
  | OFFER_VALIDATED
  | LEASE_RESERVED
  | PROJECTED
  | HOME_COMMITTED
  | REGISTRY_RESERVED
  | START_GRANTED
  | RUNNING
  | DRAINING
  | CHECKPOINTED
  | STOPPED
  | DENIED
  | ROLLED_BACK
  | QUARANTINED

fun NEXT_PHASES :: "SpawnPhase \<Rightarrow> SpawnPhase list" where
  "NEXT_PHASES REQUESTED = [DENIED]"
| "NEXT_PHASES CLAIMED = [OFFER_VALIDATED, DENIED]"
| "NEXT_PHASES OFFER_VALIDATED = [LEASE_RESERVED, DENIED]"
| "NEXT_PHASES LEASE_RESERVED = [PROJECTED, ROLLED_BACK, QUARANTINED]"
| "NEXT_PHASES PROJECTED = [HOME_COMMITTED, ROLLED_BACK, QUARANTINED]"
| "NEXT_PHASES HOME_COMMITTED = [REGISTRY_RESERVED, ROLLED_BACK, QUARANTINED]"
| "NEXT_PHASES REGISTRY_RESERVED = [START_GRANTED, ROLLED_BACK, QUARANTINED]"
| "NEXT_PHASES START_GRANTED = [RUNNING, ROLLED_BACK, QUARANTINED]"
| "NEXT_PHASES RUNNING = [DRAINING, QUARANTINED]"
| "NEXT_PHASES DRAINING = [CHECKPOINTED, QUARANTINED]"
| "NEXT_PHASES CHECKPOINTED = [STOPPED, QUARANTINED]"
| "NEXT_PHASES _ = []"

type_synonym LedgerRevision = int

type_synonym FenceEpoch = int

type_synonym Generation = int

definition LedgerRevision_init :: "int \<Rightarrow> LedgerRevision result" where
  "LedgerRevision_init n = require_counter n ''ledger revision''"

definition FenceEpoch_init :: "int \<Rightarrow> FenceEpoch result" where
  "FenceEpoch_init n = require_counter n ''fence epoch''"

definition Generation_init :: "int \<Rightarrow> Generation result" where
  "Generation_init n = require_counter n ''generation''"

record WorkerRegistryIntentV1 =
  wi_ticket_id :: string
  wi_ledger_revision :: LedgerRevision
  wi_fence_epoch :: FenceEpoch

definition WorkerRegistryIntentV1_init :: "WorkerRegistryIntentV1 \<Rightarrow> WorkerRegistryIntentV1 result" where
  "WorkerRegistryIntentV1_init i = and_then (require_text (wi_ticket_id i) ''ticket_id'') (\<lambda>_. Inr i)"

record WorkerFailureJournalV1 =
  fj_primary_failure_code :: WorkerFailureCodeV1
  fj_primary_failure_origin :: WorkerFailureOriginV1
  fj_compensation_status :: CompensationStatusV1
  fj_ticket_id :: string
  fj_ledger_revision :: LedgerRevision
  fj_fence_epoch :: FenceEpoch

definition WorkerFailureJournalV1_init :: "WorkerFailureJournalV1 \<Rightarrow> WorkerFailureJournalV1 result" where
  "WorkerFailureJournalV1_init j = and_then (require_text (fj_ticket_id j) ''ticket_id'') (\<lambda>_. Inr j)"

record VerifiedPrincipalV2 =
  vp_principal_id :: string
  vp_role :: PrincipalRole
  vp_authority_digest :: string

definition VerifiedPrincipalV2_init :: "VerifiedPrincipalV2 \<Rightarrow> VerifiedPrincipalV2 result" where
  "VerifiedPrincipalV2_init p =
     and_then (require_text (vp_principal_id p) ''principal_id'') (\<lambda>_.
     and_then (require_digest (vp_authority_digest p) ''authority_digest'') (\<lambda>_. Inr p))"

record LeaseBindingConsumerInputV1 =
  bi_receipt :: LeaseBindingReceiptV1
  bi_lease :: "CredentialLease obj"
  bi_allocation_ticket :: "ValidatedAllocationTicket obj"
  bi_capacity_evidence :: "CapacityEvidence obj"

record WorkerSpawnTicketV2 =
  st_ticket_id :: string
  st_request_id :: string
  st_requester_principal_id :: string
  st_requester_authority_digest :: string
  st_work_package_id :: string
  st_topic_digest :: string
  st_target_class_id :: string
  st_authorized_teamlead_id :: string
  st_authorized_teamlead_authority_digest :: string
  st_resolution_decision_digest :: string
  st_resolution_generation :: Generation
  st_policy_digest :: string
  st_policy_generation :: Generation
  st_lifecycle :: WorkerLifecycle
  st_resume_requirement :: bool
  st_fence_epoch :: FenceEpoch
  st_ledger_revision :: LedgerRevision
  st_phase :: SpawnPhase
  st_claimed_by_principal_id :: "string option"
  st_lease_binding_reference :: "LeaseBindingReferenceV1 option"
  st_account_binding_digest :: "string option"
  st_source_resume_capsule_digest :: "string option"
  st_source_resume_capsule_generation :: "CapsuleGeneration option"
  st_topic_resume_binding :: "string option"
  st_source_resume_policy_digest :: "string option"
  st_source_resume_account_binding_digest :: "string option"
  st_resume_capsule_digest :: "string option"
  st_resume_capsule_generation :: "CapsuleGeneration option"

text \<open>\<open>_validate_optional_binding_pair\<close>: the lease pair checks its digest, the capsule pairs only their presence.\<close>

definition validate_optional_binding_pair :: "'a option \<Rightarrow> 'b option \<Rightarrow> string \<Rightarrow> unit result" where
  "validate_optional_binding_pair x y field =
     check ((x = None) = (y = None)) (SpawnDenied (''incomplete '' @ field @ '' binding''))"

definition validate_lease_binding_pair :: "LeaseBindingReferenceV1 option \<Rightarrow> string option \<Rightarrow> unit result" where
  "validate_lease_binding_pair reference account =
     and_then (validate_optional_binding_pair reference account ''lease'') (\<lambda>_.
       case account of None \<Rightarrow> Inr () | Some d \<Rightarrow> require_digest d ''account_binding_digest'')"

definition require_some_digest :: "string option \<Rightarrow> string \<Rightarrow> unit result" where
  "require_some_digest v field = (case v of None \<Rightarrow> Inl (SpawnDenied (''invalid '' @ field)) | Some d \<Rightarrow> require_digest d field)"

definition source_binding_check :: "WorkerSpawnTicketV2 \<Rightarrow> unit result" where
  "source_binding_check t =
     (case st_source_resume_capsule_digest t of
        None \<Rightarrow> check (st_topic_resume_binding t = None \<and> st_source_resume_policy_digest t = None \<and>
                      st_source_resume_account_binding_digest t = None) (SpawnDenied ''orphan source resume binding'')
      | Some _ \<Rightarrow>
          and_then (require_some_digest (st_topic_resume_binding t) ''topic_resume_binding'') (\<lambda>_.
          and_then (require_some_digest (st_source_resume_policy_digest t) ''source_resume_policy_digest'') (\<lambda>_.
            require_some_digest (st_source_resume_account_binding_digest t) ''source_resume_account_binding_digest'')))"

definition WorkerSpawnTicketV2_init :: "WorkerSpawnTicketV2 \<Rightarrow> WorkerSpawnTicketV2 result" where
  "WorkerSpawnTicketV2_init t =
     and_then (require_text (st_ticket_id t) ''ticket_id'') (\<lambda>_.
     and_then (require_text (st_request_id t) ''request_id'') (\<lambda>_.
     and_then (require_text (st_requester_principal_id t) ''requester_principal_id'') (\<lambda>_.
     and_then (require_digest (st_requester_authority_digest t) ''requester_authority_digest'') (\<lambda>_.
     and_then (require_text (st_work_package_id t) ''work_package_id'') (\<lambda>_.
     and_then (require_digest (st_topic_digest t) ''topic_digest'') (\<lambda>_.
     and_then (require_text (st_target_class_id t) ''target_class_id'') (\<lambda>_.
     and_then (require_text (st_authorized_teamlead_id t) ''authorized_teamlead_id'') (\<lambda>_.
     and_then (require_digest (st_authorized_teamlead_authority_digest t) ''authorized_teamlead_authority_digest'') (\<lambda>_.
     and_then (require_digest (st_resolution_decision_digest t) ''resolution_decision_digest'') (\<lambda>_.
     and_then (require_digest (st_policy_digest t) ''policy_digest'') (\<lambda>_.
     and_then (check (1 \<le> st_ledger_revision t) (SpawnDenied ''invalid ledger revision'')) (\<lambda>_.
     and_then (case st_claimed_by_principal_id t of
                 None \<Rightarrow> Inr () | Some p \<Rightarrow> require_text p ''claimed_by_principal_id'') (\<lambda>_.
     and_then (validate_lease_binding_pair (st_lease_binding_reference t) (st_account_binding_digest t)) (\<lambda>_.
     and_then (validate_optional_binding_pair (st_source_resume_capsule_digest t) (st_source_resume_capsule_generation t)
                 ''source resume capsule'') (\<lambda>_.
     and_then (source_binding_check t) (\<lambda>_.
     and_then (validate_optional_binding_pair (st_resume_capsule_digest t) (st_resume_capsule_generation t)
                 ''resume capsule'') (\<lambda>_. Inr t)))))))))))))))))"

record SpawnLedgerStateV2 =
  sl_state_revision :: LedgerRevision
  sl_tickets :: "WorkerSpawnTicketV2 list"
  sl_consumed_capsule_digests :: "string list"
  sl_used_lease_binding_references :: "LeaseBindingReferenceV1 list"
  sl_registry_intents :: "WorkerRegistryIntentV1 list"
  sl_failure_journals :: "WorkerFailureJournalV1 list"

definition SpawnLedgerStateV2_init :: "SpawnLedgerStateV2 \<Rightarrow> SpawnLedgerStateV2 result" where
  "SpawnLedgerStateV2_init s =
     and_then (check (distinct (map st_request_id (sl_tickets s))) (SpawnDenied ''duplicate request in ledger state'')) (\<lambda>_.
     and_then (map_result (\<lambda>d. require_digest d ''consumed capsule digests'') (sl_consumed_capsule_digests s)) (\<lambda>_.
     and_then (check (distinct (sl_consumed_capsule_digests s)) (SpawnDenied ''duplicate consumed capsule digests'')) (\<lambda>_.
     and_then (check (distinct (sl_used_lease_binding_references s)) (SpawnDenied ''duplicate used lease binding references'')) (\<lambda>_.
     and_then (check (distinct (map wi_ticket_id (sl_registry_intents s))) (SpawnDenied ''duplicate registry intents'')) (\<lambda>_.
     and_then (check (distinct (map fj_ticket_id (sl_failure_journals s))) (SpawnDenied ''duplicate failure journals'')) (\<lambda>_.
       Inr s))))))"

definition SpawnLedgerStateV2_empty :: SpawnLedgerStateV2 where
  "SpawnLedgerStateV2_empty =
     \<lparr>sl_state_revision = 0, sl_tickets = [], sl_consumed_capsule_digests = [], sl_used_lease_binding_references = [],
      sl_registry_intents = [], sl_failure_journals = []\<rparr>"

subsection \<open>The port\<close>

record 'w spawn_port =
  sp_read :: "('w, SpawnLedgerStateV2) op"
  sp_compare_and_swap :: "LedgerRevision \<Rightarrow> SpawnLedgerStateV2 \<Rightarrow> ('w, bool) op"

definition read_state :: "'w spawn_port \<Rightarrow> ('w, SpawnLedgerStateV2) op" where
  "read_state port w =
     (case sp_read port w of (Inl _, w') \<Rightarrow> (Inl (SpawnDenied ''ledger read failed''), w') | (Inr s, w') \<Rightarrow> (Inr s, w'))"

text \<open>\<open>_commit\<close> of the replacement's lists for the state that was read.\<close>

definition commit :: "'w spawn_port \<Rightarrow> SpawnLedgerStateV2 \<Rightarrow> SpawnLedgerStateV2 \<Rightarrow> ('w, unit) op" where
  "commit port state draft w =
     (case and_then (LedgerRevision_init (sl_state_revision state + 1)) (\<lambda>n. SpawnLedgerStateV2_init (draft\<lparr>sl_state_revision := n\<rparr>)) of
        Inl e \<Rightarrow> (Inl e, w)
      | Inr replacement \<Rightarrow>
          (case sp_compare_and_swap port (sl_state_revision state) replacement w of
             (Inl _, w') \<Rightarrow> (Inl (SpawnDenied ''ledger CAS failed''), w')
           | (Inr committed, w') \<Rightarrow> (check committed (SpawnDenied ''ledger CAS conflict''), w')))"

subsection \<open>Helpers\<close>

definition find_ticket :: "SpawnLedgerStateV2 \<Rightarrow> string \<Rightarrow> WorkerSpawnTicketV2 option" where
  "find_ticket s rid = find (\<lambda>t. st_request_id t = rid) (sl_tickets s)"

definition find_registry_intent :: "SpawnLedgerStateV2 \<Rightarrow> string \<Rightarrow> WorkerRegistryIntentV1 option" where
  "find_registry_intent s tid = find (\<lambda>i. wi_ticket_id i = tid) (sl_registry_intents s)"

definition find_failure_journal :: "SpawnLedgerStateV2 \<Rightarrow> string \<Rightarrow> WorkerFailureJournalV1 option" where
  "find_failure_journal s tid = find (\<lambda>j. fj_ticket_id j = tid) (sl_failure_journals s)"

definition require_ticket :: "SpawnLedgerStateV2 \<Rightarrow> string \<Rightarrow> WorkerSpawnTicketV2 result" where
  "require_ticket s rid = need (find_ticket s rid) (SpawnDenied ''unknown request'')"

definition require_current_ticket :: "SpawnLedgerStateV2 \<Rightarrow> WorkerSpawnTicketV2 \<Rightarrow> WorkerSpawnTicketV2 result" where
  "require_current_ticket s t =
     and_then (require_ticket s (st_request_id t)) (\<lambda>current.
       if current \<noteq> t then Inl (SpawnDenied ''ticket revision or phase drift'') else Inr current)"

definition require_principal :: "VerifiedPrincipalV2 \<Rightarrow> PrincipalRole \<Rightarrow> string \<Rightarrow> unit result" where
  "require_principal p role field = check (vp_role p = role) (SpawnDenied (''invalid '' @ field @ '' authority''))"

definition require_teamlead :: "WorkerSpawnTicketV2 \<Rightarrow> VerifiedPrincipalV2 \<Rightarrow> unit result" where
  "require_teamlead t p =
     and_then (check (vp_principal_id p = st_authorized_teamlead_id t \<and>
                      vp_authority_digest p = st_authorized_teamlead_authority_digest t)
                (SpawnDenied ''teamlead authority denied'')) (\<lambda>_.
       check (st_claimed_by_principal_id t = None \<or> st_claimed_by_principal_id t = Some (vp_principal_id p))
         (SpawnDenied ''ticket owner drift''))"

definition require_revision :: "WorkerSpawnTicketV2 \<Rightarrow> LedgerRevision \<Rightarrow> unit result" where
  "require_revision t n = check (st_ledger_revision t = n) (SpawnDenied ''ledger revision drift'')"

definition require_fence :: "WorkerSpawnTicketV2 \<Rightarrow> FenceEpoch \<Rightarrow> unit result" where
  "require_fence t n = check (st_fence_epoch t = n) (SpawnDenied ''fence drift'')"

definition replace_ticket :: "SpawnLedgerStateV2 \<Rightarrow> WorkerSpawnTicketV2 \<Rightarrow> WorkerSpawnTicketV2 list" where
  "replace_ticket s r = map (\<lambda>t. if st_request_id t = st_request_id r then r else t) (sl_tickets s)"

definition replace_failure_journal :: "SpawnLedgerStateV2 \<Rightarrow> WorkerFailureJournalV1 \<Rightarrow> WorkerFailureJournalV1 list" where
  "replace_failure_journal s r = map (\<lambda>j. if fj_ticket_id j = fj_ticket_id r then r else j) (sl_failure_journals s)"

text \<open>\<open>_advance_ticket\<close>, with the ticket after the changes.\<close>

definition advance_ticket :: "WorkerSpawnTicketV2 \<Rightarrow> WorkerSpawnTicketV2 result" where
  "advance_ticket t =
     and_then (LedgerRevision_init (st_ledger_revision t + 1)) (\<lambda>n. WorkerSpawnTicketV2_init (t\<lparr>st_ledger_revision := n\<rparr>))"

definition require_terminal_binding :: "WorkerSpawnTicketV2 \<Rightarrow> unit result" where
  "require_terminal_binding t =
     check (\<not> (capsule_required (st_lifecycle t) (st_resume_requirement t) \<and>
               (st_resume_capsule_digest t = None \<or> st_resume_capsule_generation t = None)))
       (SpawnDenied ''terminal capsule binding required'')"


subsection \<open>The methods\<close>

definition check_delegable_class_ids :: "string list \<Rightarrow> string list result" where
  "check_delegable_class_ids ids =
     (if ids = [] \<or> list_ex (\<lambda>c. c = []) ids then Inl (SpawnDenied ''invalid delegable class set'') else Inr ids)"

definition ledger_len :: "'w spawn_port \<Rightarrow> ('w, nat) op" where
  "ledger_len port = op_bind (read_state port) (\<lambda>s. op_lift (Inr (length (sl_tickets s))))"

definition ledger_read :: "'w spawn_port \<Rightarrow> string \<Rightarrow> ('w, WorkerSpawnTicketV2 option) op" where
  "ledger_read port rid =
     op_bind (op_lift (require_text rid ''request_id'')) (\<lambda>_.
     op_bind (read_state port) (\<lambda>s. op_lift (Inr (find_ticket s rid))))"

text \<open>The arguments of \<open>publish_requested\<close>.\<close>

record spawn_request =
  sr_request_id :: string
  sr_requester :: VerifiedPrincipalV2
  sr_work_package_id :: string
  sr_topic_digest :: string
  sr_target_class_id :: string
  sr_authorized_teamlead :: VerifiedPrincipalV2
  sr_resolution_decision_digest :: string
  sr_resolution_generation :: Generation
  sr_policy_digest :: string
  sr_policy_generation :: Generation
  sr_lifecycle :: WorkerLifecycle
  sr_resume_requirement :: bool
  sr_fence_epoch :: FenceEpoch

definition requested_ticket :: "spawn_request \<Rightarrow> WorkerSpawnTicketV2" where
  "requested_ticket q =
     \<lparr>st_ticket_id = ''ticket:'' @ sr_request_id q, st_request_id = sr_request_id q,
      st_requester_principal_id = vp_principal_id (sr_requester q),
      st_requester_authority_digest = vp_authority_digest (sr_requester q), st_work_package_id = sr_work_package_id q,
      st_topic_digest = sr_topic_digest q, st_target_class_id = sr_target_class_id q,
      st_authorized_teamlead_id = vp_principal_id (sr_authorized_teamlead q),
      st_authorized_teamlead_authority_digest = vp_authority_digest (sr_authorized_teamlead q),
      st_resolution_decision_digest = sr_resolution_decision_digest q,
      st_resolution_generation = sr_resolution_generation q, st_policy_digest = sr_policy_digest q,
      st_policy_generation = sr_policy_generation q, st_lifecycle = sr_lifecycle q,
      st_resume_requirement = sr_resume_requirement q, st_fence_epoch = sr_fence_epoch q, st_ledger_revision = 1,
      st_phase = REQUESTED, st_claimed_by_principal_id = None, st_lease_binding_reference = None,
      st_account_binding_digest = None, st_source_resume_capsule_digest = None, st_source_resume_capsule_generation = None,
      st_topic_resume_binding = None, st_source_resume_policy_digest = None,
      st_source_resume_account_binding_digest = None, st_resume_capsule_digest = None, st_resume_capsule_generation = None\<rparr>"

definition publish_requested :: "string list \<Rightarrow> 'w spawn_port \<Rightarrow> spawn_request \<Rightarrow> ('w, WorkerSpawnTicketV2) op" where
  "publish_requested delegable port q =
     op_bind (op_lift (and_then (require_text (sr_request_id q) ''request_id'') (\<lambda>_.
       and_then (require_principal (sr_requester q) NON_LEADERSHIP ''requester'') (\<lambda>_.
       and_then (require_principal (sr_authorized_teamlead q) TEAMLEADER ''teamlead'') (\<lambda>_.
       and_then (require_text (sr_target_class_id q) ''target_class_id'') (\<lambda>_.
         check (sr_target_class_id q \<in> set delegable) (SpawnDenied ''leadership target forbidden''))))))) (\<lambda>_.
     op_bind (read_state port) (\<lambda>s.
     op_bind (op_lift (and_then (check (find_ticket s (sr_request_id q) = None) (SpawnDenied ''request replay'')) (\<lambda>_.
       and_then (require_text (sr_work_package_id q) ''work_package_id'') (\<lambda>_.
       and_then (require_digest (sr_topic_digest q) ''topic_digest'') (\<lambda>_.
       and_then (require_digest (sr_resolution_decision_digest q) ''resolution_decision_digest'') (\<lambda>_.
       and_then (require_digest (sr_policy_digest q) ''policy_digest'') (\<lambda>_.
         WorkerSpawnTicketV2_init (requested_ticket q)))))))) (\<lambda>ticket.
     op_bind (commit port s (s\<lparr>sl_tickets := sl_tickets s @ [ticket]\<rparr>)) (\<lambda>_. op_lift (Inr ticket)))))"

definition claim :: "'w spawn_port \<Rightarrow> string \<Rightarrow> VerifiedPrincipalV2 \<Rightarrow> LedgerRevision \<Rightarrow> ('w, WorkerSpawnTicketV2) op" where
  "claim port rid teamlead expected_revision =
     op_bind (op_lift (and_then (require_text rid ''request_id'') (\<lambda>_. require_principal teamlead TEAMLEADER ''teamlead''))) (\<lambda>_.
     op_bind (read_state port) (\<lambda>s.
     op_bind (op_lift (and_then (require_ticket s rid) (\<lambda>t.
       and_then (require_revision t expected_revision) (\<lambda>_.
       and_then (require_teamlead t teamlead) (\<lambda>_.
       and_then (check (st_phase t = REQUESTED) (SpawnDenied ''request already claimed or terminal'')) (\<lambda>_.
         advance_ticket (t\<lparr>st_phase := CLAIMED, st_claimed_by_principal_id := Some (vp_principal_id teamlead)\<rparr>))))))) (\<lambda>claimed.
     op_bind (commit port s (s\<lparr>sl_tickets := replace_ticket s claimed\<rparr>)) (\<lambda>_. op_lift (Inr claimed)))))"

text \<open>The checks that the methods on a ticket start with, after the read.\<close>

definition ticket_checks ::
  "SpawnLedgerStateV2 \<Rightarrow> WorkerSpawnTicketV2 \<Rightarrow> LedgerRevision \<Rightarrow> FenceEpoch \<Rightarrow> VerifiedPrincipalV2 \<Rightarrow> unit result" where
  "ticket_checks s t revision fence teamlead =
     and_then (require_current_ticket s t) (\<lambda>current.
     and_then (require_revision current revision) (\<lambda>_.
     and_then (require_fence current fence) (\<lambda>_. require_teamlead current teamlead)))"

definition record_registry_intent ::
  "'w spawn_port \<Rightarrow> WorkerSpawnTicketV2 \<Rightarrow> LedgerRevision \<Rightarrow> FenceEpoch \<Rightarrow> VerifiedPrincipalV2 \<Rightarrow> ('w, WorkerSpawnTicketV2) op" where
  "record_registry_intent port t revision fence teamlead =
     op_bind (op_lift (require_principal teamlead TEAMLEADER ''teamlead'')) (\<lambda>_.
     op_bind (read_state port) (\<lambda>s.
     op_bind (op_lift (and_then (ticket_checks s t revision fence teamlead) (\<lambda>_.
       and_then (check (find_registry_intent s (st_ticket_id t) = None) (SpawnDenied ''intent replay'')) (\<lambda>_.
       and_then (advance_ticket t) (\<lambda>advanced.
       and_then (WorkerRegistryIntentV1_init \<lparr>wi_ticket_id = st_ticket_id advanced,
           wi_ledger_revision = st_ledger_revision advanced, wi_fence_epoch = st_fence_epoch advanced\<rparr>) (\<lambda>intent.
         Inr (advanced, intent))))))) (\<lambda>(advanced, intent).
     op_bind (commit port s (s\<lparr>sl_tickets := replace_ticket s advanced,
         sl_registry_intents := sl_registry_intents s @ [intent]\<rparr>)) (\<lambda>_. op_lift (Inr advanced)))))"

fun expected_origin :: "WorkerFailureCodeV1 \<Rightarrow> WorkerFailureOriginV1" where
  "expected_origin PRE_A3_FAILURE = PRE_A3"
| "expected_origin A3_EXECUTION_FAILED_OR_UNKNOWN = A3_ENTERED"
| "expected_origin START_STATE_UNKNOWN = RECOVERY_UNKNOWN"

definition initial_status :: "WorkerFailureOriginV1 \<Rightarrow> CompensationStatusV1" where
  "initial_status origin = (if origin = PRE_A3 then REGISTRY_RELEASE_PENDING else COMPENSATION_QUARANTINED)"

definition record_failure ::
  "'w spawn_port \<Rightarrow> WorkerSpawnTicketV2 \<Rightarrow> WorkerFailureCodeV1 \<Rightarrow> WorkerFailureOriginV1 \<Rightarrow> CompensationStatusV1 \<Rightarrow>
   LedgerRevision \<Rightarrow> FenceEpoch \<Rightarrow> VerifiedPrincipalV2 \<Rightarrow> ('w, WorkerSpawnTicketV2) op" where
  "record_failure port t code origin status revision fence teamlead =
     op_bind (op_lift (require_principal teamlead TEAMLEADER ''teamlead'')) (\<lambda>_.
     op_bind (read_state port) (\<lambda>s.
     op_bind (op_lift (and_then (ticket_checks s t revision fence teamlead) (\<lambda>_.
       and_then (check (find_failure_journal s (st_ticket_id t) = None) (SpawnDenied ''failure journal replay'')) (\<lambda>_.
       and_then (check (origin = expected_origin code) (SpawnDenied ''primary failure binding denied'')) (\<lambda>_.
       and_then (check (status = initial_status origin) (SpawnDenied ''invalid initial compensation status'')) (\<lambda>_.
       and_then (advance_ticket t) (\<lambda>advanced.
       and_then (WorkerFailureJournalV1_init \<lparr>fj_primary_failure_code = code, fj_primary_failure_origin = origin,
           fj_compensation_status = status, fj_ticket_id = st_ticket_id advanced,
           fj_ledger_revision = st_ledger_revision advanced, fj_fence_epoch = st_fence_epoch advanced\<rparr>) (\<lambda>journal.
         Inr (advanced, journal))))))))) (\<lambda>(advanced, journal).
     op_bind (commit port s (s\<lparr>sl_tickets := replace_ticket s advanced,
         sl_failure_journals := sl_failure_journals s @ [journal]\<rparr>)) (\<lambda>_. op_lift (Inr advanced)))))"

fun allowed_statuses :: "CompensationStatusV1 \<Rightarrow> CompensationStatusV1 list" where
  "allowed_statuses REGISTRY_RELEASE_PENDING = [REGISTRY_RELEASED, COMPENSATION_QUARANTINED]"
| "allowed_statuses REGISTRY_RELEASED = [COMPENSATED, HOME_RELEASE_FAILED, LEASE_RELEASE_FAILED, COMPENSATION_QUARANTINED]"
| "allowed_statuses HOME_RELEASE_FAILED = [COMPENSATION_QUARANTINED]"
| "allowed_statuses LEASE_RELEASE_FAILED = [COMPENSATION_QUARANTINED]"
| "allowed_statuses _ = []"

definition advance_compensation_status ::
  "'w spawn_port \<Rightarrow> WorkerSpawnTicketV2 \<Rightarrow> CompensationStatusV1 \<Rightarrow> LedgerRevision \<Rightarrow> FenceEpoch \<Rightarrow> VerifiedPrincipalV2 \<Rightarrow>
   ('w, WorkerSpawnTicketV2) op" where
  "advance_compensation_status port t status revision fence teamlead =
     op_bind (op_lift (require_principal teamlead TEAMLEADER ''teamlead'')) (\<lambda>_.
     op_bind (read_state port) (\<lambda>s.
     op_bind (op_lift (and_then (ticket_checks s t revision fence teamlead) (\<lambda>_.
       and_then (need (find_failure_journal s (st_ticket_id t)) (SpawnDenied ''failure journal required'')) (\<lambda>journal.
       and_then (check (fj_fence_epoch journal = st_fence_epoch t \<and> fj_ledger_revision journal \<le> st_ledger_revision t)
                   (SpawnDenied ''failure journal drift'')) (\<lambda>_.
       and_then (check (status \<in> set (allowed_statuses (fj_compensation_status journal)))
                   (SpawnDenied ''illegal compensation transition'')) (\<lambda>_.
       and_then (advance_ticket t) (\<lambda>advanced.
       and_then (WorkerFailureJournalV1_init (journal\<lparr>fj_compensation_status := status,
           fj_ledger_revision := st_ledger_revision advanced, fj_fence_epoch := st_fence_epoch advanced\<rparr>)) (\<lambda>replacement.
         Inr (advanced, replacement))))))))) (\<lambda>(advanced, replacement).
     op_bind (commit port s (s\<lparr>sl_tickets := replace_ticket s advanced,
         sl_failure_journals := replace_failure_journal s replacement\<rparr>)) (\<lambda>_. op_lift (Inr advanced)))))"

subsection \<open>\<open>append_phase\<close>\<close>

definition require_allocation_ticket ::
  "alloc_env \<Rightarrow> WorkerSpawnTicketV2 \<Rightarrow> LeaseBindingConsumerInputV1 \<Rightarrow> unit result" where
  "require_allocation_ticket env current b =
     (let a = snd (bi_allocation_ticket b); e = snd (bi_capacity_evidence b); denied = SpawnDenied ''lease binding verification denied''
      in case canonical_resolution_decision_digest (le_sha256 env) (le_dumps env) (vt_resolution_decision a) of
           Inl _ \<Rightarrow> Inl denied
         | Inr digest \<Rightarrow>
             check (st_phase current = OFFER_VALIDATED \<and> vt_phase a = ''OFFER_VALIDATED'' \<and>
                    vt_ticket_id a = st_ticket_id current \<and> vt_ledger_revision a = st_ledger_revision current \<and>
                    vt_fence_epoch a = st_fence_epoch current \<and> digest = st_resolution_decision_digest current \<and>
                    vt_resolver_offer_generation a = soff_generation (vt_selection_offer a) \<and>
                    rdec_class_id (vt_resolution_decision a) = st_target_class_id current \<and>
                    vt_policy_generation a = st_policy_generation current \<and> vt_policy_digest a = st_policy_digest current \<and>
                    ce_ticket_id e = vt_ticket_id a \<and> ce_ledger_revision e = vt_ledger_revision a \<and>
                    ce_fence_epoch e = vt_fence_epoch a) denied)"

definition journal_check :: "SpawnLedgerStateV2 \<Rightarrow> WorkerSpawnTicketV2 \<Rightarrow> SpawnPhase \<Rightarrow> unit result" where
  "journal_check s current phase =
     (case find_failure_journal s (st_ticket_id current) of
        None \<Rightarrow> Inr ()
      | Some j \<Rightarrow>
          (let bound = (fj_ledger_revision j = st_ledger_revision current \<and> fj_fence_epoch j = st_fence_epoch current)
           in if phase = ROLLED_BACK
              then check (bound \<and> fj_primary_failure_origin j = PRE_A3 \<and> fj_compensation_status j = COMPENSATED)
                     (SpawnDenied ''rollback failure journal denied'')
              else if phase = QUARANTINED
              then check (bound \<and> fj_compensation_status j = COMPENSATION_QUARANTINED)
                     (SpawnDenied ''quarantine failure journal denied'')
              else Inr ()))"

definition phase_checks ::
  "SpawnLedgerStateV2 \<Rightarrow> WorkerSpawnTicketV2 \<Rightarrow> SpawnPhase \<Rightarrow> LedgerRevision \<Rightarrow> FenceEpoch \<Rightarrow> VerifiedPrincipalV2 \<Rightarrow> unit result" where
  "phase_checks s t phase revision fence teamlead =
     and_then (ticket_checks s t revision fence teamlead) (\<lambda>_.
     and_then (check (phase \<in> set (NEXT_PHASES (st_phase t))) (SpawnDenied ''illegal phase transition'')) (\<lambda>_.
       journal_check s t phase))"

text \<open>The end of the \<open>try\<close> block: the terminal evidence, the ticket and the commit.\<close>

definition commit_phase ::
  "'w spawn_port \<Rightarrow> SpawnLedgerStateV2 \<Rightarrow> WorkerSpawnTicketV2 \<Rightarrow> SpawnPhase \<Rightarrow> (LeaseBindingReferenceV1 \<times> string) option \<Rightarrow>
   ('w, WorkerSpawnTicketV2) op" where
  "commit_phase port s t phase lease =
     op_bind (op_lift (and_then
       (if phase \<in> {ROLLED_BACK, CHECKPOINTED, STOPPED} then require_terminal_binding t else Inr ()) (\<lambda>_.
         advance_ticket (case lease of
           None \<Rightarrow> t\<lparr>st_phase := phase\<rparr>
         | Some (reference, account) \<Rightarrow>
             t\<lparr>st_phase := phase, st_lease_binding_reference := Some reference, st_account_binding_digest := Some account\<rparr>)))) (\<lambda>advanced.
     op_bind (commit port s (s\<lparr>sl_tickets := replace_ticket s advanced,
         sl_used_lease_binding_references := sl_used_lease_binding_references s @
           (case lease of None \<Rightarrow> [] | Some (reference, _) \<Rightarrow> [reference])\<rparr>)) (\<lambda>_. op_lift (Inr advanced)))"

text \<open>
  What the calls of the allocator in \<open>append_phase\<close> meet: the clock at each of them, the token a
  release draws and the adapter's answers to releases.
\<close>

record guard_replies =
  gr_verify_now :: py_datetime
  gr_reference_now :: py_datetime
  gr_close_now :: py_datetime
  gr_token :: string
  gr_release :: "AccountReservation obj \<Rightarrow> pyval result"

definition verify_guard ::
  "alloc_env \<Rightarrow> guard_replies \<Rightarrow> LeaseBindingConsumerInputV1 \<Rightarrow> (RuntimeAccountAllocator, nat) op" where
  "verify_guard env g b =
     verify_lease_binding_receipt env (gr_verify_now g) (bi_receipt b) (bi_lease b) (bi_allocation_ticket b) (bi_capacity_evidence b)"

text \<open>The work under a verification: the reference, its replay check and the commit.\<close>

definition reserve_under_guard ::
  "alloc_env \<Rightarrow> guard_replies \<Rightarrow> 'w spawn_port \<Rightarrow> SpawnLedgerStateV2 \<Rightarrow> WorkerSpawnTicketV2 \<Rightarrow> LeaseBindingConsumerInputV1 \<Rightarrow>
   nat \<Rightarrow> RuntimeAccountAllocator \<Rightarrow> ('w, WorkerSpawnTicketV2) op" where
  "reserve_under_guard env g port s t b verification a w =
     (case fst (lease_binding_reference_for env (gr_reference_now g) verification a) of
        Inl _ \<Rightarrow> (Inl (SpawnDenied ''lease binding verification denied''), w)
      | Inr reference \<Rightarrow>
          if reference \<in> set (sl_used_lease_binding_references s) then (Inl (SpawnDenied ''lease binding replay''), w)
          else commit_phase port s t LEASE_RESERVED (Some (reference, cl_account_binding_digest (snd (bi_lease b)))) w)"

definition append_phase ::
  "alloc_env \<Rightarrow> guard_replies \<Rightarrow> 'w spawn_port \<Rightarrow> WorkerSpawnTicketV2 \<Rightarrow> SpawnPhase \<Rightarrow> LedgerRevision \<Rightarrow> FenceEpoch \<Rightarrow>
   VerifiedPrincipalV2 \<Rightarrow> LeaseBindingConsumerInputV1 option \<Rightarrow> (RuntimeAccountAllocator \<times> 'w, WorkerSpawnTicketV2) op" where
  "append_phase env g port t phase revision fence teamlead lease_binding = (\<lambda>(a, w).
     (case op_bind (op_lift (require_principal teamlead TEAMLEADER ''teamlead'')) (\<lambda>_. read_state port) w of
        (Inl e, w) \<Rightarrow> (Inl e, (a, w))
      | (Inr s, w) \<Rightarrow>
          (case phase_checks s t phase revision fence teamlead of
             Inl e \<Rightarrow> (Inl e, (a, w))
           | Inr _ \<Rightarrow>
               if phase \<noteq> LEASE_RESERVED
               then (case lease_binding of
                       Some _ \<Rightarrow> (Inl (SpawnDenied ''unexpected lease binding''), (a, w))
                     | None \<Rightarrow> (case commit_phase port s t phase None w of (r, w') \<Rightarrow> (r, (a, w'))))
               else (case lease_binding of
                       None \<Rightarrow> (Inl (SpawnDenied ''lease binding verification denied''), (a, w))
                     | Some b \<Rightarrow>
                         (case require_allocation_ticket env t b of
                            Inl e \<Rightarrow> (Inl e, (a, w))
                          | Inr _ \<Rightarrow>
                              (case verify_guard env g b a of
                                 (Inl _, a) \<Rightarrow> (Inl (SpawnDenied ''lease binding verification denied''), (a, w))
                               | (Inr v, a) \<Rightarrow>
                                   (case reserve_under_guard env g port s t b v a w of
                                      (r, w') \<Rightarrow>
                                        (case close_lease_binding_verification env (gr_close_now g) (gr_release g) (gr_token g) v a of
                                           (outcome, a') \<Rightarrow>
                                             (and_then r (\<lambda>advanced. case outcome of
                                                Inl _ \<Rightarrow> Inl (SpawnDenied ''lease binding verification denied'')
                                              | Inr _ \<Rightarrow> Inr advanced), (a', w'))))))))))"

subsection \<open>Resume capsules\<close>

definition bind_resume_capsule ::
  "'w spawn_port \<Rightarrow> WorkerSpawnTicketV2 \<Rightarrow> WorkerResumeCapsuleV2 \<Rightarrow> LedgerRevision \<Rightarrow> FenceEpoch \<Rightarrow> VerifiedPrincipalV2 \<Rightarrow>
   ('w, WorkerSpawnTicketV2) op" where
  "bind_resume_capsule port t capsule revision fence teamlead =
     op_bind (op_lift (require_principal teamlead TEAMLEADER ''teamlead'')) (\<lambda>_.
     op_bind (read_state port) (\<lambda>s.
     op_bind (op_lift (and_then (ticket_checks s t revision fence teamlead) (\<lambda>_.
       and_then (check (st_phase t \<in> {LEASE_RESERVED, PROJECTED, HOME_COMMITTED, REGISTRY_RESERVED, START_GRANTED, RUNNING, DRAINING})
                   (SpawnDenied ''capsule cannot bind in current phase'')) (\<lambda>_.
       and_then (need (st_account_binding_digest t) (SpawnDenied ''account binding required before capsule'')) (\<lambda>account.
       and_then (rescue (and_then (require_terminal_capsule (st_lifecycle t) (st_resume_requirement t) (Some capsule)
                   (st_topic_digest t) (st_policy_digest t) account) (\<lambda>_. Inr ()))
                   (\<lambda>_. Inl (SpawnDenied ''resume capsule binding denied''))) (\<lambda>_.
       and_then (check (st_resume_capsule_digest t = None) (SpawnDenied ''ticket already has resume capsule'')) (\<lambda>_.
       and_then (check (rc_capsule_digest capsule \<notin> set (sl_consumed_capsule_digests s) \<and>
                        \<not> list_ex (\<lambda>other. st_resume_capsule_digest other = Some (rc_capsule_digest capsule)) (sl_tickets s))
                   (SpawnDenied ''resume capsule replay'')) (\<lambda>_.
         advance_ticket (t\<lparr>st_resume_capsule_digest := Some (rc_capsule_digest capsule),
           st_resume_capsule_generation := Some (rc_capsule_generation capsule)\<rparr>))))))))) (\<lambda>bound.
     op_bind (commit port s (s\<lparr>sl_tickets := replace_ticket s bound\<rparr>)) (\<lambda>_. op_lift (Inr bound)))))"

definition resumed_ticket :: "WorkerSpawnTicketV2 \<Rightarrow> WorkerResumeCapsuleV2 \<Rightarrow> string \<Rightarrow> FenceEpoch \<Rightarrow> WorkerSpawnTicketV2" where
  "resumed_ticket t capsule rid fence =
     t\<lparr>st_ticket_id := ''ticket:'' @ rid, st_request_id := rid, st_fence_epoch := fence, st_ledger_revision := 1,
       st_phase := REQUESTED, st_claimed_by_principal_id := None, st_lease_binding_reference := None,
       st_account_binding_digest := None, st_source_resume_capsule_digest := Some (rc_capsule_digest capsule),
       st_source_resume_capsule_generation := Some (rc_capsule_generation capsule),
       st_topic_resume_binding := Some (rc_topic_digest capsule), st_source_resume_policy_digest := Some (rc_policy_digest capsule),
       st_source_resume_account_binding_digest := Some (rc_account_binding_digest capsule),
       st_resume_capsule_digest := None, st_resume_capsule_generation := None\<rparr>"

definition resume_request :: "string \<Rightarrow> WorkerResumeCapsuleV2 \<Rightarrow> WorkerResumeRequestV2" where
  "resume_request rid capsule =
     \<lparr>rr_request_id = rid, rr_capsule_digest = rc_capsule_digest capsule, rr_capsule_generation = rc_capsule_generation capsule,
      rr_bee_digest = rc_bee_digest capsule, rr_session_digest = rc_session_digest capsule,
      rr_topic_digest = rc_topic_digest capsule, rr_policy_digest = rc_policy_digest capsule,
      rr_account_binding_digest = rc_account_binding_digest capsule, rr_phase = RESUME_REQUESTED,
      rr_requested_revision = 1, rr_requires_new_lease = True, rr_allows_in_place_credential_rotation = False\<rparr>"

definition claim_resume_capsule ::
  "'w spawn_port \<Rightarrow> WorkerSpawnTicketV2 \<Rightarrow> WorkerResumeCapsuleV2 \<Rightarrow> string \<Rightarrow> FenceEpoch \<Rightarrow> LedgerRevision \<Rightarrow> CapsuleGeneration \<Rightarrow>
   VerifiedPrincipalV2 \<Rightarrow> ('w, WorkerResumeRequestV2) op" where
  "claim_resume_capsule port t capsule rid fence revision generation teamlead =
     op_bind (op_lift (and_then (require_text rid ''new_request_id'') (\<lambda>_. require_principal teamlead TEAMLEADER ''teamlead''))) (\<lambda>_.
     op_bind (read_state port) (\<lambda>s.
     op_bind (op_lift (and_then (require_current_ticket s t) (\<lambda>_.
       and_then (require_revision t revision) (\<lambda>_.
       and_then (require_teamlead t teamlead) (\<lambda>_.
       and_then (check (st_phase t = CHECKPOINTED) (SpawnDenied ''resume requires checkpointed source'')) (\<lambda>_.
       and_then (check (st_fence_epoch t < fence) (SpawnDenied ''resume fence must advance'')) (\<lambda>_.
       and_then (check (find_ticket s rid = None) (SpawnDenied ''new request replay'')) (\<lambda>_.
       and_then (check (st_resume_capsule_digest t = Some (rc_capsule_digest capsule) \<and>
                        st_resume_capsule_generation t = Some (rc_capsule_generation capsule) \<and>
                        generation = rc_capsule_generation capsule \<and> st_topic_digest t = rc_topic_digest capsule \<and>
                        st_policy_digest t = rc_policy_digest capsule \<and>
                        st_account_binding_digest t = Some (rc_account_binding_digest capsule))
                   (SpawnDenied ''resume capsule binding drift'')) (\<lambda>_.
       and_then (check (rc_capsule_digest capsule \<notin> set (sl_consumed_capsule_digests s)) (SpawnDenied ''resume capsule already consumed'')) (\<lambda>_.
         WorkerSpawnTicketV2_init (resumed_ticket t capsule rid fence))))))))))) (\<lambda>requested.
     op_bind (commit port s (s\<lparr>sl_tickets := sl_tickets s @ [requested],
         sl_consumed_capsule_digests := sl_consumed_capsule_digests s @ [rc_capsule_digest capsule]\<rparr>)) (\<lambda>_.
       op_lift (WorkerResumeRequestV2_init (resume_request (st_request_id requested) capsule))))))"

end
