(* ===== verification/Spawn_Ledger_Properties.thy ===== *)
theory Spawn_Ledger_Properties
  imports Spawn_Ledger
begin

text \<open>
  The spawn ledger over a port that swaps atomically: whatever snapshots its clients work on and
  whatever faults the port raises, the aggregate only changes by whole, legal transitions of the
  current state; tickets follow their phases, and leases and capsules are used at most once.
\<close>

definition valid_state :: "SpawnLedgerStateV2 \<Rightarrow> bool" where
  "valid_state s \<longleftrightarrow> SpawnLedgerStateV2_init s = Inr s"

definition bumped :: "SpawnLedgerStateV2 \<Rightarrow> SpawnLedgerStateV2 \<Rightarrow> SpawnLedgerStateV2" where
  "bumped s draft = draft\<lparr>sl_state_revision := sl_state_revision s + 1\<rparr>"

lemma LedgerRevision_init_Inr [result_simps]: "LedgerRevision_init n = Inr m \<longleftrightarrow> m = n \<and> 0 \<le> n"
  by (auto simp: LedgerRevision_init_def require_counter_def)

lemma ticket_init_Inr: "WorkerSpawnTicketV2_init t = Inr t' \<Longrightarrow> t' = t"
  by (simp add: WorkerSpawnTicketV2_init_def result_simps)

lemma advance_ticket_Inr: "advance_ticket t = Inr t' \<Longrightarrow> t' = t\<lparr>st_ledger_revision := st_ledger_revision t + 1\<rparr>"
  by (auto simp: advance_ticket_def result_simps dest: ticket_init_Inr)

lemma state_init_Inr: "SpawnLedgerStateV2_init s = Inr s' \<Longrightarrow> s' = s"
  by (auto simp: SpawnLedgerStateV2_init_def result_simps)

lemma ticket_checks_Inr:
  "ticket_checks s t n k p = Inr u \<Longrightarrow> find_ticket s (st_request_id t) = Some t \<and> st_ledger_revision t = n \<and>
     st_fence_epoch t = k \<and> require_teamlead t p = Inr ()"
  by (auto simp: ticket_checks_def require_current_ticket_def require_ticket_def require_revision_def require_fence_def
      result_simps split: if_splits)

subsection \<open>The abstract ledger\<close>

text \<open>What one transition does to a ticket besides counting its revision.\<close>

definition same_order :: "WorkerSpawnTicketV2 \<Rightarrow> WorkerSpawnTicketV2 \<Rightarrow> bool" where
  "same_order t t' \<longleftrightarrow>
     t' = t\<lparr>st_ledger_revision := st_ledger_revision t', st_phase := st_phase t',
       st_claimed_by_principal_id := st_claimed_by_principal_id t', st_lease_binding_reference := st_lease_binding_reference t',
       st_account_binding_digest := st_account_binding_digest t', st_resume_capsule_digest := st_resume_capsule_digest t',
       st_resume_capsule_generation := st_resume_capsule_generation t'\<rparr>"

text \<open>
  A ticket moves along the phases; its claim, its lease and its capsule are set once, each at its place,
  and a terminal phase is entered with the capsule that the ticket requires.
\<close>

definition phase_move :: "SpawnPhase \<Rightarrow> SpawnPhase \<Rightarrow> bool" where
  "phase_move p q \<longleftrightarrow> q = p \<or> (p = REQUESTED \<and> q = CLAIMED) \<or> q \<in> set (NEXT_PHASES p)"

definition ticket_move :: "WorkerSpawnTicketV2 \<Rightarrow> WorkerSpawnTicketV2 \<Rightarrow> bool" where
  "ticket_move t t' \<longleftrightarrow>
     same_order t t' \<and> st_ledger_revision t' = st_ledger_revision t + 1 \<and> phase_move (st_phase t) (st_phase t') \<and>
     (st_claimed_by_principal_id t' = st_claimed_by_principal_id t \<or>
      st_phase t = REQUESTED \<and> st_phase t' = CLAIMED \<and> st_claimed_by_principal_id t' = Some (st_authorized_teamlead_id t)) \<and>
     ((st_lease_binding_reference t', st_account_binding_digest t') = (st_lease_binding_reference t, st_account_binding_digest t) \<or>
      st_phase t = OFFER_VALIDATED \<and> st_phase t' = LEASE_RESERVED) \<and>
     (st_resume_capsule_digest t' = st_resume_capsule_digest t \<or> st_resume_capsule_digest t = None) \<and>
     (st_phase t' \<noteq> st_phase t \<longrightarrow> st_phase t' \<in> {ROLLED_BACK, CHECKPOINTED, STOPPED} \<longrightarrow>
      capsule_required (st_lifecycle t) (st_resume_requirement t) \<longrightarrow> st_resume_capsule_digest t' \<noteq> None)"

text \<open>A fresh ticket.\<close>

definition fresh_ticket :: "WorkerSpawnTicketV2 \<Rightarrow> bool" where
  "fresh_ticket t \<longleftrightarrow> st_phase t = REQUESTED \<and> st_ledger_revision t = 1 \<and> st_claimed_by_principal_id t = None \<and>
     st_lease_binding_reference t = None \<and> st_account_binding_digest t = None \<and> st_resume_capsule_digest t = None"

definition journal_move :: "WorkerFailureJournalV1 list \<Rightarrow> WorkerFailureJournalV1 list \<Rightarrow> bool" where
  "journal_move js js' \<longleftrightarrow>
     js' = js \<or>
     (\<exists>j. js' = js @ [j] \<and> fj_primary_failure_origin j = expected_origin (fj_primary_failure_code j) \<and>
        fj_compensation_status j = initial_status (fj_primary_failure_origin j)) \<or>
     (\<exists>j k. j \<in> set js \<and> k = j\<lparr>fj_compensation_status := fj_compensation_status k, fj_ledger_revision := fj_ledger_revision k,
          fj_fence_epoch := fj_fence_epoch k\<rparr> \<and>
        fj_compensation_status k \<in> set (allowed_statuses (fj_compensation_status j)) \<and>
        js' = map (\<lambda>i. if fj_ticket_id i = fj_ticket_id k then k else i) js)"

inductive ledger_change :: "SpawnLedgerStateV2 \<Rightarrow> SpawnLedgerStateV2 \<Rightarrow> bool" where
  submit: "find_ticket s (st_request_id t) = None \<Longrightarrow> fresh_ticket t \<Longrightarrow> st_source_resume_capsule_digest t = None \<Longrightarrow>
    ledger_change s (bumped s (s\<lparr>sl_tickets := sl_tickets s @ [t]\<rparr>))"
| resume: "find_ticket s (st_request_id t) = None \<Longrightarrow> fresh_ticket t \<Longrightarrow> st_source_resume_capsule_digest t = Some d \<Longrightarrow>
    source \<in> set (sl_tickets s) \<Longrightarrow> st_phase source = CHECKPOINTED \<Longrightarrow> st_resume_capsule_digest source = Some d \<Longrightarrow>
    st_fence_epoch source < st_fence_epoch t \<Longrightarrow> d \<notin> set (sl_consumed_capsule_digests s) \<Longrightarrow>
    ledger_change s (bumped s (s\<lparr>sl_tickets := sl_tickets s @ [t],
      sl_consumed_capsule_digests := sl_consumed_capsule_digests s @ [d]\<rparr>))"
| move: "find_ticket s (st_request_id t) = Some t \<Longrightarrow> ticket_move t t' \<Longrightarrow>
    st_lease_binding_reference t' = st_lease_binding_reference t \<Longrightarrow> (st_phase t' = LEASE_RESERVED \<longrightarrow> st_phase t = LEASE_RESERVED) \<Longrightarrow>
    journal_move (sl_failure_journals s) js \<Longrightarrow>
    (st_resume_capsule_digest t' \<noteq> st_resume_capsule_digest t \<longrightarrow>
       (\<exists>d. st_resume_capsule_digest t' = Some d \<and> d \<notin> set (sl_consumed_capsule_digests s) \<and>
          (\<forall>x \<in> set (sl_tickets s). st_resume_capsule_digest x \<noteq> Some d))) \<Longrightarrow>
    is = sl_registry_intents s \<or> (\<exists>i. is = sl_registry_intents s @ [i]) \<Longrightarrow>
    ledger_change s (bumped s (s\<lparr>sl_tickets := replace_ticket s t', sl_registry_intents := is, sl_failure_journals := js\<rparr>))"
| reserve: "find_ticket s (st_request_id t) = Some t \<Longrightarrow> ticket_move t t' \<Longrightarrow> st_phase t' = LEASE_RESERVED \<Longrightarrow>
    st_lease_binding_reference t' = Some r \<Longrightarrow> r \<notin> set (sl_used_lease_binding_references s) \<Longrightarrow>
    st_resume_capsule_digest t' = st_resume_capsule_digest t \<Longrightarrow>
    ledger_change s (bumped s (s\<lparr>sl_tickets := replace_ticket s t',
      sl_used_lease_binding_references := sl_used_lease_binding_references s @ [r]\<rparr>))"

text \<open>The moves of the methods.\<close>

lemma ledger_change_ticket:
  assumes "find_ticket s (st_request_id t) = Some t" and "ticket_move t t'" and "st_lease_binding_reference t' = st_lease_binding_reference t"
    and "st_phase t' = LEASE_RESERVED \<longrightarrow> st_phase t = LEASE_RESERVED"
    and "st_resume_capsule_digest t' \<noteq> st_resume_capsule_digest t \<Longrightarrow>
      \<exists>d. st_resume_capsule_digest t' = Some d \<and> d \<notin> set (sl_consumed_capsule_digests s) \<and>
        (\<forall>x \<in> set (sl_tickets s). st_resume_capsule_digest x \<noteq> Some d)"
  shows "ledger_change s (bumped s (s\<lparr>sl_tickets := replace_ticket s t'\<rparr>))"
    and "ledger_change s (bumped s (s\<lparr>sl_tickets := replace_ticket s t', sl_registry_intents := sl_registry_intents s @ [i]\<rparr>))"
    and "journal_move (sl_failure_journals s) js \<Longrightarrow>
      ledger_change s (bumped s (s\<lparr>sl_tickets := replace_ticket s t', sl_failure_journals := js\<rparr>))"
  using ledger_change.move [OF assms(1-4) _ _ disjI1 [OF refl], of "sl_failure_journals s"]
    ledger_change.move [OF assms(1-4) _ _ disjI2, of "sl_failure_journals s" "sl_registry_intents s @ [i]"]
    ledger_change.move [OF assms(1-4) _ _ disjI1 [OF refl], of js] assms(5)
  by (auto simp: journal_move_def bumped_def)

lemma advance_move:
  "ticket_move t (t\<lparr>st_ledger_revision := st_ledger_revision t + 1\<rparr>)"
  "st_phase t = REQUESTED \<Longrightarrow> ticket_move t (t\<lparr>st_phase := CLAIMED, st_claimed_by_principal_id := Some (st_authorized_teamlead_id t),
     st_ledger_revision := st_ledger_revision t + 1\<rparr>)"
  "p \<in> set (NEXT_PHASES (st_phase t)) \<Longrightarrow>
     (p \<in> {ROLLED_BACK, CHECKPOINTED, STOPPED} \<Longrightarrow> require_terminal_binding t = Inr ()) \<Longrightarrow> ticket_move t (t\<lparr>st_phase := p, st_ledger_revision := st_ledger_revision t + 1\<rparr>)"
  "st_phase t = OFFER_VALIDATED \<Longrightarrow> ticket_move t (t\<lparr>st_phase := LEASE_RESERVED, st_lease_binding_reference := Some x,
     st_account_binding_digest := Some y, st_ledger_revision := st_ledger_revision t + 1\<rparr>)"
  "st_resume_capsule_digest t = None \<Longrightarrow> ticket_move t (t\<lparr>st_resume_capsule_digest := Some d,
     st_resume_capsule_generation := Some g, st_ledger_revision := st_ledger_revision t + 1\<rparr>)"
  by (auto simp: ticket_move_def same_order_def phase_move_def require_terminal_binding_def result_simps)

lemma teamlead_Inr: "require_teamlead t p = Inr u \<Longrightarrow> vp_principal_id p = st_authorized_teamlead_id t"
  by (simp add: require_teamlead_def result_simps)

lemma find_ticket_Some: "find_ticket s rid = Some t \<Longrightarrow> t \<in> set (sl_tickets s) \<and> st_request_id t = rid"
  by (auto simp: find_ticket_def find_Some_iff)

lemma found_ticket: "find_ticket s rid = Some t \<Longrightarrow> find_ticket s (st_request_id t) = Some t"
  using find_ticket_Some by fastforce

lemma find_journal_Some: "find_failure_journal s tid = Some j \<Longrightarrow> j \<in> set (sl_failure_journals s) \<and> fj_ticket_id j = tid"
  by (auto simp: find_failure_journal_def find_Some_iff)

lemma journal_advances:
  assumes "j \<in> set (sl_failure_journals s)" and "st \<in> set (allowed_statuses (fj_compensation_status j))"
  shows "journal_move (sl_failure_journals s)
    (replace_failure_journal s (j\<lparr>fj_compensation_status := st, fj_ledger_revision := n, fj_fence_epoch := k\<rparr>))"
  unfolding journal_move_def
  by (intro disjI2 exI [of _ j] exI [of _ "j\<lparr>fj_compensation_status := st, fj_ledger_revision := n, fj_fence_epoch := k\<rparr>"])
    (simp add: assms replace_failure_journal_def)

subsection \<open>Ports that swap atomically\<close>

text \<open>
  What the ledger relies on: \<open>read\<close> returns a state of the aggregate and changes nothing; a compare and
  swap replaces the aggregate only when it still has the expected revision, and answers with true only
  when it did. Either may raise.
\<close>

locale atomic_port =
  fixes port :: "'w spawn_port" and seen :: "'w \<Rightarrow> SpawnLedgerStateV2" and cell :: "'w \<Rightarrow> SpawnLedgerStateV2"
  assumes read_seen: "sp_read port w = (r, w') \<Longrightarrow> cell w' = cell w \<and> (\<forall>s. r = Inr s \<longrightarrow> s = seen w)"
    and swap_atomic: "sp_compare_and_swap port n x w = (answer, w') \<Longrightarrow>
      cell w' = cell w \<or> sl_state_revision (cell w) = n \<and> cell w' = x"
    and swap_answer: "sp_compare_and_swap port n x w = (Inr True, w') \<Longrightarrow> sl_state_revision (cell w) = n \<and> cell w' = x"
begin

definition swapped :: "'w \<Rightarrow> 'w \<Rightarrow> SpawnLedgerStateV2 \<Rightarrow> bool" where
  "swapped w w' draft \<longleftrightarrow> sl_state_revision (cell w) = sl_state_revision (seen w) \<and> cell w' = bumped (seen w) draft \<and>
     valid_state (bumped (seen w) draft)"

lemma commit_swaps:
  assumes "commit port (seen w0) draft w = (r, w')" and "cell w = cell w0"
  shows "cell w' = cell w0 \<or> swapped w0 w' draft" and "r = Inr () \<Longrightarrow> swapped w0 w' draft"
  using assms unfolding commit_def swapped_def valid_state_def bumped_def
  by (auto simp: result_simps split: sum.splits prod.splits dest!: state_init_Inr swap_answer dest: swap_atomic)

lemma plan_swaps:
  assumes "op_bind (op_lift q) (\<lambda>x. op_bind (commit port (seen w0) (draft x)) (\<lambda>_. op_lift (ret x))) w = (r, w')" and "cell w = cell w0"
  shows "cell w' = cell w0 \<or> (\<exists>x. q = Inr x \<and> swapped w0 w' (draft x))"
    and "r = Inr y \<Longrightarrow> \<exists>x. q = Inr x \<and> swapped w0 w' (draft x) \<and> ret x = Inr y"
proof -
  have *: "(cell w' = cell w0 \<and> (\<exists>e. r = Inl e)) \<or>
      (\<exists>x c. q = Inr x \<and> commit port (seen w0) (draft x) w = (c, w') \<and> r = and_then c (\<lambda>_. ret x))"
    using assms by (cases q; cases "commit port (seen w0) (draft (projr q)) w") (auto simp: op_bind_def op_lift_def split: sum.splits)
  then show "cell w' = cell w0 \<or> (\<exists>x. q = Inr x \<and> swapped w0 w' (draft x))"
    using commit_swaps(1) assms(2) by metis
  show "\<exists>x. q = Inr x \<and> swapped w0 w' (draft x) \<and> ret x = Inr y" if y: "r = Inr y"
  proof -
    obtain x c where x: "q = Inr x" "commit port (seen w0) (draft x) w = (c, w')" "and_then c (\<lambda>_. ret x) = Inr y"
      using * y by auto
    then have "c = Inr ()" by (cases c) auto
    then show ?thesis using x commit_swaps(2) [OF x(2) assms(2)] by auto
  qed
qed

lemma read_stateD:
  assumes "read_state port w = (q, w')"
  shows "cell w' = cell w" and "q = Inr s \<Longrightarrow> s = seen w"
  using assms read_seen [of w] unfolding read_state_def by (auto split: prod.splits sum.splits)

text \<open>All methods but \<open>append_phase\<close> check, read, plan and commit.\<close>

lemma method_swaps:
  assumes "op_bind (op_lift pre) (\<lambda>_. op_bind (read_state port) (\<lambda>s. op_bind (op_lift (plan s)) (\<lambda>x.
      op_bind (commit port s (draft s x)) (\<lambda>_. op_lift (ret s x))))) w = (r, w')"
  shows "cell w' = cell w \<or> (\<exists>u x. pre = Inr u \<and> plan (seen w) = Inr x \<and> swapped w w' (draft (seen w) x))"
    and "r = Inr y \<Longrightarrow> \<exists>u x. pre = Inr u \<and> plan (seen w) = Inr x \<and> swapped w w' (draft (seen w) x) \<and> ret (seen w) x = Inr y"
proof -
  have *: "(cell w' = cell w \<and> (\<exists>e. r = Inl e)) \<or> (\<exists>u w1. pre = Inr u \<and> cell w1 = cell w \<and>
      op_bind (op_lift (plan (seen w))) (\<lambda>x. op_bind (commit port (seen w) (draft (seen w) x)) (\<lambda>_. op_lift (ret (seen w) x))) w1 = (r, w'))"
  proof (cases pre)
    case (Inl e)
    then show ?thesis using assms by (auto simp: op_bind_def op_lift_def)
  next
    case (Inr u)
    obtain q w1 where rd: "read_state port w = (q, w1)" by fastforce
    note w1 = read_stateD [OF rd]
    show ?thesis
    proof (cases q)
      case (Inl e)
      then show ?thesis using assms \<open>pre = Inr u\<close> rd w1(1) by (auto simp: op_bind_def op_lift_def)
    next
      case (Inr s)
      then have "op_bind (op_lift (plan (seen w))) (\<lambda>x. op_bind (commit port (seen w) (draft (seen w) x)) (\<lambda>_. op_lift (ret (seen w) x))) w1 = (r, w')"
        using assms by (simp add: \<open>pre = Inr u\<close> rd w1(2) [OF Inr] op_bind_def [of "op_lift pre"] op_bind_def [of "read_state port"]
          op_bind_def [of "op_lift (Inr u)"] op_lift_def [of "Inr u"])
      then show ?thesis using \<open>pre = Inr u\<close> w1(1) by blast
    qed
  qed
  then show "cell w' = cell w \<or> (\<exists>u x. pre = Inr u \<and> plan (seen w) = Inr x \<and> swapped w w' (draft (seen w) x))"
  proof (elim disjE exE conjE)
    fix u w1
    assume "pre = Inr u" "cell w1 = cell w" "op_bind (op_lift (plan (seen w)))
        (\<lambda>x. op_bind (commit port (seen w) (draft (seen w) x)) (\<lambda>_. op_lift (ret (seen w) x))) w1 = (r, w')"
    then show ?thesis using plan_swaps(1) by blast
  qed simp
  show "\<exists>u x. pre = Inr u \<and> plan (seen w) = Inr x \<and> swapped w w' (draft (seen w) x) \<and> ret (seen w) x = Inr y" if y: "r = Inr y"
  proof -
    obtain u w1 where u: "pre = Inr u" "cell w1 = cell w" "op_bind (op_lift (plan (seen w)))
        (\<lambda>x. op_bind (commit port (seen w) (draft (seen w) x)) (\<lambda>_. op_lift (ret (seen w) x))) w1 = (r, w')"
      using * y by auto
    show ?thesis using plan_swaps(2) [OF u(3,2) y] u(1) by blast
  qed
qed

text \<open>A call leaves the aggregate alone, or moves it, when it is still the state that was read, to a legal successor.\<close>

definition legal :: "'w \<Rightarrow> 'w \<Rightarrow> bool" where
  "legal w w' \<longleftrightarrow> cell w' = cell w \<or>
     sl_state_revision (cell w) = sl_state_revision (seen w) \<and> ledger_change (seen w) (cell w') \<and> valid_state (cell w')"

lemma legal_kept: "cell w' = cell w \<Longrightarrow> legal w w'"
  by (simp add: legal_def)

lemma legal_swapped: "swapped w w' draft \<Longrightarrow> ledger_change (seen w) (bumped (seen w) draft) \<Longrightarrow> legal w w'"
  by (auto simp: legal_def swapped_def)

lemma publish_legal: "publish_requested delegable port q w = (r, w') \<Longrightarrow> legal w w'"
  unfolding publish_requested_def
  apply (drule method_swaps(1))
  apply (elim disjE exE conjE, erule legal_kept)
  apply (clarsimp simp: result_simps dest!: ticket_init_Inr)
  apply (erule legal_swapped, rule ledger_change.submit)
    apply (auto simp: fresh_ticket_def requested_ticket_def)
  done

lemma claim_legal: "claim port rid teamlead n w = (r, w') \<Longrightarrow> legal w w'"
  unfolding claim_def
  apply (drule method_swaps(1))
  apply (elim disjE exE conjE, erule legal_kept)
  apply (clarsimp simp: result_simps require_ticket_def dest!: advance_ticket_Inr teamlead_Inr)
  apply (erule legal_swapped, rule ledger_change_ticket(1), erule found_ticket)
    apply (auto intro: advance_move)
  done

lemma intent_legal: "record_registry_intent port t n k p w = (r, w') \<Longrightarrow> legal w w'"
  unfolding record_registry_intent_def split_beta
  apply (drule method_swaps(1))
  apply (elim disjE exE conjE, erule legal_kept)
  apply (clarsimp simp: result_simps WorkerRegistryIntentV1_init_def dest!: advance_ticket_Inr ticket_checks_Inr)
  apply (erule legal_swapped, erule ledger_change_ticket(2))
    apply (auto intro: advance_move)
  done

lemma failure_legal: "record_failure port t c g st n k p w = (r, w') \<Longrightarrow> legal w w'"
  unfolding record_failure_def split_beta
  apply (drule method_swaps(1))
  apply (elim disjE exE conjE, erule legal_kept)
  apply (clarsimp simp: result_simps WorkerFailureJournalV1_init_def dest!: advance_ticket_Inr ticket_checks_Inr)
  apply (erule legal_swapped, erule ledger_change_ticket(3))
     apply (auto simp: journal_move_def intro: advance_move)
  done

lemma compensation_legal: "advance_compensation_status port t st n k p w = (r, w') \<Longrightarrow> legal w w'"
  unfolding advance_compensation_status_def split_beta
  apply (drule method_swaps(1))
  apply (elim disjE exE conjE, erule legal_kept)
  apply (clarsimp simp: result_simps WorkerFailureJournalV1_init_def dest!: advance_ticket_Inr ticket_checks_Inr find_journal_Some)
  apply (erule legal_swapped, rule ledger_change_ticket(3))
     apply (auto intro: advance_move journal_advances)
  done

lemma bind_capsule_legal: "bind_resume_capsule port t c n k p w = (r, w') \<Longrightarrow> legal w w'"
  unfolding bind_resume_capsule_def
  apply (drule method_swaps(1))
  apply (elim disjE exE conjE, erule legal_kept)
  apply (clarsimp simp: result_simps dest!: advance_ticket_Inr ticket_checks_Inr)
  apply (erule legal_swapped, rule ledger_change_ticket(1))
     apply (auto simp: list_ex_iff intro: advance_move)
  done

lemma claim_resume_legal: "claim_resume_capsule port t c rid k n g p w = (r, w') \<Longrightarrow> legal w w'"
  unfolding claim_resume_capsule_def
  apply (drule method_swaps(1))
  apply (elim disjE exE conjE, erule legal_kept)
  apply (clarsimp simp: result_simps require_current_ticket_def require_ticket_def dest!: ticket_init_Inr split: if_splits)
  apply (erule legal_swapped, rule ledger_change.resume [where source = t])
         apply (auto simp: fresh_ticket_def resumed_ticket_def dest: find_ticket_Some)
  done

lemma commit_phase_legal:
  assumes "commit_phase port (seen w0) t phase lease w = (r, w')" and "cell w = cell w0"
    and "phase_checks (seen w0) t phase n k p = Inr u"
    and "case lease of None \<Rightarrow> phase \<noteq> LEASE_RESERVED
      | Some (reference, _) \<Rightarrow> phase = LEASE_RESERVED \<and> reference \<notin> set (sl_used_lease_binding_references (seen w0))"
  shows "legal w0 w'"
proof -
  have checks: "find_ticket (seen w0) (st_request_id t) = Some t" "phase \<in> set (NEXT_PHASES (st_phase t))"
    using assms(3) ticket_checks_Inr by (auto simp: phase_checks_def result_simps)
  from plan_swaps(1) [OF assms(1) [unfolded commit_phase_def] assms(2)] show ?thesis
  proof (elim disjE exE conjE)
    fix t'
    assume t': "and_then (if phase \<in> {ROLLED_BACK, CHECKPOINTED, STOPPED} then require_terminal_binding t else Inr ())
        (\<lambda>_. advance_ticket (case lease of None \<Rightarrow> t\<lparr>st_phase := phase\<rparr>
          | Some (reference, account) \<Rightarrow> t\<lparr>st_phase := phase, st_lease_binding_reference := Some reference,
              st_account_binding_digest := Some account\<rparr>)) = Inr t'"
      and sw: "swapped w0 w' (seen w0\<lparr>sl_tickets := replace_ticket (seen w0) t',
        sl_used_lease_binding_references := sl_used_lease_binding_references (seen w0) @
          (case lease of None \<Rightarrow> [] | Some (reference, _) \<Rightarrow> [reference])\<rparr>)"
    show "legal w0 w'"
    proof (cases lease)
      case None
      then have "t' = t\<lparr>st_phase := phase, st_ledger_revision := st_ledger_revision t + 1\<rparr>"
        using t' by (auto simp: result_simps dest: advance_ticket_Inr)
      moreover have "phase \<in> {ROLLED_BACK, CHECKPOINTED, STOPPED} \<Longrightarrow> require_terminal_binding t = Inr ()"
        using t' by (auto simp: result_simps)
      ultimately show ?thesis using None checks assms(4) ledger_change_ticket(1) [OF checks(1), of t'] advance_move(3) [of phase t]
        by (intro legal_swapped [OF sw]) simp
    next
      case (Some x)
      obtain y z where x: "lease = Some (y, z)" using Some by (cases x) auto
      then have t'_eq: "t' = t\<lparr>st_phase := LEASE_RESERVED, st_lease_binding_reference := Some y, st_account_binding_digest := Some z,
          st_ledger_revision := st_ledger_revision t + 1\<rparr>"
        using t' assms(4) by (auto simp: result_simps dest: advance_ticket_Inr)
      have "st_phase t = OFFER_VALIDATED" using checks(2) assms(4) x by (cases "st_phase t") auto
      then show ?thesis using x assms(4) t'_eq advance_move(4) [where t = t and x = y and y = z]
        by (intro legal_swapped [OF sw]) (simp add: ledger_change.reserve [OF checks(1)])
    qed
  qed (rule legal_kept)
qed

lemma append_legal:
  assumes "append_phase env g port t phase n k p b (a, w) = (r, (a', w'))"
  shows "legal w w'"
proof -
  obtain q w1 where rd: "op_bind (op_lift (require_principal p TEAMLEADER ''teamlead'')) (\<lambda>_. read_state port) w = (q, w1)" by fastforce
  have "w1 = w \<and> (\<exists>e. q = Inl e) \<or> read_state port w = (q, w1)"
    using rd by (cases "require_principal p TEAMLEADER ''teamlead''"; cases "read_state port w") (auto simp: op_bind_def op_lift_def)
  then have w1: "cell w1 = cell w" "\<And>s. q = Inr s \<Longrightarrow> s = seen w" by (auto dest: read_stateD(1)) (rule read_stateD(2), assumption, simp)
  show ?thesis
  proof (cases "\<exists>s. q = Inr s \<and> is_ok (phase_checks s t phase n k p)")
    case False
    then show ?thesis using assms rd w1(1) unfolding append_phase_def
      by (auto simp: is_ok_iff legal_def split: sum.splits)
  next
    case True
    then obtain u where q: "q = Inr (seen w)" and ok: "phase_checks (seen w) t phase n k p = Inr u"
      using w1(2) unfolding is_ok_iff by blast
    show ?thesis
    proof (cases "phase = LEASE_RESERVED")
      case False
      then show ?thesis
        using assms rd q ok w1(1) commit_phase_legal [OF _ w1(1) ok, where lease = None] unfolding append_phase_def
        by (auto simp: legal_def split: option.splits prod.splits)
    next
      case phase: True
      consider "cell w' = cell w" | b' v a1 r' where "b = Some b'"
        "reserve_under_guard env g port (seen w) t b' v a1 w1 = (r', w')"
        using assms rd q ok w1(1) phase unfolding append_phase_def by (auto split: option.splits sum.splits prod.splits)
      then show ?thesis
      proof cases
        case 2
        then show ?thesis
          using commit_phase_legal [OF _ w1(1) ok] phase w1(1) unfolding reserve_under_guard_def
          by (auto simp: legal_def split: sum.splits if_splits)
      qed (rule legal_kept)
    qed
  qed
qed

end

end
