(* ===== verification/Spawn_History.thy ===== *)
theory Spawn_History
  imports Spawn_Ledger_Properties
begin

text \<open>
  Histories of the spawn ledger: any number of clients that call its methods on snapshots of any age,
  with faults of the port.
\<close>

subsection \<open>A cell\<close>

text \<open>
  The world of one call: the state that its read returns, the cell that its compare and swap meets,
  and the faults of the port (a compare and swap that raises may have swapped or not).
\<close>

record port_cell =
  pc_seen :: SpawnLedgerStateV2
  pc_cell :: SpawnLedgerStateV2
  pc_read_fault :: bool
  pc_cas_fault :: "bool option"

definition cell_swap :: "LedgerRevision \<Rightarrow> SpawnLedgerStateV2 \<Rightarrow> port_cell \<Rightarrow> port_cell" where
  "cell_swap n x w = (if sl_state_revision (pc_cell w) = n then w\<lparr>pc_cell := x\<rparr> else w)"

definition cell_port :: "port_cell spawn_port" where
  "cell_port =
     \<lparr>sp_read = (\<lambda>w. (if pc_read_fault w then Inl (OtherError ''read'') else Inr (pc_seen w), w)),
      sp_compare_and_swap = (\<lambda>n x w.
        case pc_cas_fault w of
          None \<Rightarrow> (Inr (sl_state_revision (pc_cell w) = n), cell_swap n x w)
        | Some swapped \<Rightarrow> (Inl (OtherError ''cas''), if swapped then cell_swap n x w else w))\<rparr>"

interpretation cp: atomic_port cell_port pc_seen pc_cell
  by unfold_locales (auto simp: cell_port_def cell_swap_def split: if_splits option.splits)

text \<open>The calls; \<open>reserve\<close> is the section of \<open>append_phase\<close> that commits a lease binding.\<close>

inductive ledger_call :: "port_cell \<Rightarrow> port_cell \<Rightarrow> bool" where
  publish: "publish_requested delegable cell_port q w = (r, w') \<Longrightarrow> ledger_call w w'"
| claim: "claim cell_port rid p n w = (r, w') \<Longrightarrow> ledger_call w w'"
| intent: "record_registry_intent cell_port t n k p w = (r, w') \<Longrightarrow> ledger_call w w'"
| failure: "record_failure cell_port t c g x n k p w = (r, w') \<Longrightarrow> ledger_call w w'"
| compensation: "advance_compensation_status cell_port t x n k p w = (r, w') \<Longrightarrow> ledger_call w w'"
| append: "append_phase env g cell_port t phase n k p b (a, w) = (r, (a', w')) \<Longrightarrow> ledger_call w w'"
| reserve: "phase_checks (pc_seen w) t LEASE_RESERVED n k p = Inr u \<Longrightarrow> x \<notin> set (sl_used_lease_binding_references (pc_seen w)) \<Longrightarrow>
    commit_phase cell_port (pc_seen w) t LEASE_RESERVED (Some (x, y)) w = (r, w') \<Longrightarrow> ledger_call w w'"
| bind: "bind_resume_capsule cell_port t c n k p w = (r, w') \<Longrightarrow> ledger_call w w'"
| resume: "claim_resume_capsule cell_port t c rid k n g p w = (r, w') \<Longrightarrow> ledger_call w w'"

lemma ledger_call_legal: "ledger_call w w' \<Longrightarrow> cp.legal w w'"
  by (induction rule: ledger_call.induct)
    (auto dest: cp.publish_legal cp.claim_legal cp.intent_legal cp.failure_legal cp.compensation_legal cp.append_legal
      cp.bind_capsule_legal cp.claim_resume_legal cp.commit_phase_legal)

text \<open>The states that the cell has had, the newest first; a call may have read any of them.\<close>

inductive ledger_history :: "SpawnLedgerStateV2 list \<Rightarrow> bool" where
  start: "ledger_history [SpawnLedgerStateV2_empty]"
| call: "ledger_history (c # h) \<Longrightarrow> ledger_call w w' \<Longrightarrow> pc_cell w = c \<Longrightarrow> pc_seen w \<in> set (c # h) \<Longrightarrow>
    ledger_history (pc_cell w' # c # h)"

inductive_cases historyE: "ledger_history (d # e # h)"

lemma ledger_change_revision: "ledger_change s s' \<Longrightarrow> sl_state_revision s' = sl_state_revision s + 1"
  by (induction rule: ledger_change.induct) (simp_all add: bumped_def)

definition history_ok :: "SpawnLedgerStateV2 list \<Rightarrow> bool" where
  "history_ok h \<longleftrightarrow> h \<noteq> [] \<and> (\<forall>x \<in> set h. sl_state_revision x \<le> sl_state_revision (hd h)) \<and>
     (\<forall>x \<in> set h. \<forall>y \<in> set h. sl_state_revision x = sl_state_revision y \<longrightarrow> x = y)"

lemma call_on_current:
  assumes "history_ok (c # h)" and "ledger_call w w'" and "pc_cell w = c" and "pc_seen w \<in> set (c # h)"
  shows "pc_cell w' = c \<or> pc_seen w = c \<and> ledger_change c (pc_cell w')"
proof (cases "pc_cell w' = c")
  case False
  then have "sl_state_revision c = sl_state_revision (pc_seen w)" "ledger_change (pc_seen w) (pc_cell w')"
    using ledger_call_legal [OF assms(2)] assms(3) by (auto simp: cp.legal_def)
  moreover from this have "pc_seen w = c" using assms(1,4) by (auto simp: history_ok_def)
  ultimately show ?thesis by simp
qed simp

lemma history_is_ok: "ledger_history h \<Longrightarrow> history_ok h"
proof (induction rule: ledger_history.induct)
  case start
  then show ?case by (simp add: history_ok_def)
next
  case (call c h w w')
  from call_on_current [OF call.IH call.hyps(2-4)] show ?case
  proof
    assume "pc_cell w' = c"
    then show ?thesis using call.IH by (auto simp: history_ok_def)
  next
    assume "pc_seen w = c \<and> ledger_change c (pc_cell w')"
    then have "sl_state_revision (pc_cell w') = sl_state_revision c + 1" using ledger_change_revision by blast
    moreover have "\<forall>x \<in> set (c # h). sl_state_revision x \<le> sl_state_revision c" using call.IH by (simp add: history_ok_def)
    ultimately show ?thesis using call.IH by (fastforce simp: history_ok_def)
  qed
qed

lemma history_changes:
  assumes "ledger_history (h1 @ c # h2)"
  shows "ledger_change\<^sup>*\<^sup>* c (hd (h1 @ [c]))"
  using assms
proof (induction h1)
  case (Cons d h1)
  obtain e h where e: "h1 @ c # h2 = e # h" "hd (h1 @ [c]) = e" by (cases h1) auto
  then have "ledger_history (d # e # h)" using Cons.prems by simp
  then obtain w w' where hist: "ledger_history (h1 @ c # h2)"
    and w: "ledger_call w w'" "pc_cell w = e" "pc_seen w \<in> set (e # h)" "d = pc_cell w'"
    unfolding e(1) by (rule historyE) auto
  have "d = e \<or> ledger_change e d" using call_on_current [OF history_is_ok [OF hist [unfolded e(1)]] w(1-3)] w(4) by auto
  then show ?case using Cons.IH [OF hist] e(2) by (auto intro: rtranclp.rtrancl_into_rtrancl)
qed simp

lemma history_from_empty: "ledger_history (c # h) \<Longrightarrow> ledger_change\<^sup>*\<^sup>* SpawnLedgerStateV2_empty c"
proof (induction "c # h" arbitrary: c h rule: ledger_history.induct)
  case (call c h w w')
  then show ?case using call_on_current [OF history_is_ok [OF call.hyps(1)] call.hyps(3-5)]
    by (auto intro: rtranclp.rtrancl_into_rtrancl)
qed simp

subsection \<open>Every change is a transition of the current state\<close>

text \<open>
  C7. The ledger refines the abstract one with atomic transitions: in any history, with snapshots of any
  age and with faults, the state is reached from the empty ledger by legal transitions, and a call that
  changes it has read exactly the state that it changes.
\<close>

theorem ledger_refines_atomic_transitions:
  assumes "ledger_history (c # h)" and "ledger_call w w'" and "pc_cell w = c" and "pc_seen w \<in> set (c # h)"
  shows "ledger_change\<^sup>*\<^sup>* SpawnLedgerStateV2_empty c \<and> (pc_cell w' = c \<or> pc_seen w = c \<and> ledger_change c (pc_cell w'))"
  using history_from_empty [OF assms(1)] call_on_current [OF history_is_ok [OF assms(1)] assms(2-4)] by blast

subsection \<open>Leases and capsules\<close>

text \<open>The phases before a lease is bound, and after a request is denied.\<close>

definition unleased :: "SpawnPhase \<Rightarrow> bool" where
  "unleased p \<longleftrightarrow> p \<in> {REQUESTED, CLAIMED, OFFER_VALIDATED, DENIED}"

definition terminal_bound :: "WorkerSpawnTicketV2 \<Rightarrow> bool" where
  "terminal_bound t \<longleftrightarrow>
     (st_phase t \<in> {ROLLED_BACK, CHECKPOINTED, STOPPED} \<longrightarrow> capsule_required (st_lifecycle t) (st_resume_requirement t) \<longrightarrow>
        st_resume_capsule_digest t \<noteq> None)"

definition unique_by :: "('a \<Rightarrow> 'b option) \<Rightarrow> 'a list \<Rightarrow> bool" where
  "unique_by f ts \<longleftrightarrow> (\<forall>t \<in> set ts. \<forall>u \<in> set ts. f t \<noteq> None \<longrightarrow> f t = f u \<longrightarrow> t = u)"

definition ticket_ok :: "SpawnLedgerStateV2 \<Rightarrow> WorkerSpawnTicketV2 \<Rightarrow> bool" where
  "ticket_ok s t \<longleftrightarrow>
     set_option (st_lease_binding_reference t) \<subseteq> set (sl_used_lease_binding_references s) \<and>
     set_option (st_source_resume_capsule_digest t) \<subseteq> set (sl_consumed_capsule_digests s) \<and>
     (st_lease_binding_reference t = None \<longleftrightarrow> unleased (st_phase t)) \<and> terminal_bound t"

definition spawn_ledger_ok :: "SpawnLedgerStateV2 \<Rightarrow> bool" where
  "spawn_ledger_ok s \<longleftrightarrow>
     unique_by (\<lambda>t. Some (st_request_id t)) (sl_tickets s) \<and> unique_by st_lease_binding_reference (sl_tickets s) \<and>
     unique_by st_source_resume_capsule_digest (sl_tickets s) \<and> unique_by st_resume_capsule_digest (sl_tickets s) \<and>
     (\<forall>t \<in> set (sl_tickets s). ticket_ok s t)"

lemma unique_by_added: "unique_by f ts \<Longrightarrow> (\<And>u. u \<in> set ts \<Longrightarrow> f t \<noteq> None \<Longrightarrow> f u \<noteq> f t) \<Longrightarrow> unique_by f (ts @ [t])"
  unfolding unique_by_def by fastforce

lemma set_replace_ticket: "set (replace_ticket s t') \<subseteq> {x \<in> set (sl_tickets s). st_request_id x \<noteq> st_request_id t'} \<union> {t'}"
  by (auto simp: replace_ticket_def)

lemma unique_by_replaced:
  assumes "unique_by f (sl_tickets s)"
    and "\<And>u. u \<in> set (sl_tickets s) \<Longrightarrow> st_request_id u \<noteq> st_request_id t' \<Longrightarrow> f t' \<noteq> None \<Longrightarrow> f u \<noteq> f t'"
  shows "unique_by f (replace_ticket s t')"
  unfolding unique_by_def
proof (intro ballI impI)
  fix x y
  assume "x \<in> set (replace_ticket s t')" "y \<in> set (replace_ticket s t')" and eq: "f x \<noteq> None" "f x = f y"
  then have "x = t' \<or> x \<in> set (sl_tickets s) \<and> st_request_id x \<noteq> st_request_id t'"
    "y = t' \<or> y \<in> set (sl_tickets s) \<and> st_request_id y \<noteq> st_request_id t'"
    using set_replace_ticket [of s t'] by blast+
  then show "x = y" using assms(2) [of x] assms(2) [of y] assms(1) [unfolded unique_by_def, rule_format, of x y] eq by metis
qed

lemma same_order_fields:
  assumes "same_order t t'"
  shows "st_request_id t' = st_request_id t" "st_ticket_id t' = st_ticket_id t"
    "st_source_resume_capsule_digest t' = st_source_resume_capsule_digest t" "st_lifecycle t' = st_lifecycle t"
    "st_resume_requirement t' = st_resume_requirement t" "st_fence_epoch t' = st_fence_epoch t"
    "st_authorized_teamlead_id t' = st_authorized_teamlead_id t"
  by (subst assms [unfolded same_order_def], simp)+

lemma phase_move_unleased: "phase_move p q \<Longrightarrow> \<not> (p = OFFER_VALIDATED \<and> q = LEASE_RESERVED) \<Longrightarrow> unleased q \<longleftrightarrow> unleased p"
  by (cases p) (auto simp: phase_move_def unleased_def)

lemma ledger_ok_added:
  assumes ok: "spawn_ledger_ok s" and "find_ticket s (st_request_id t) = None" and "fresh_ticket t"
    and src: "set_option (st_source_resume_capsule_digest t) \<subseteq> set d" "set d \<inter> set (sl_consumed_capsule_digests s) = {}"
  shows "spawn_ledger_ok (bumped s (s\<lparr>sl_tickets := sl_tickets s @ [t],
    sl_consumed_capsule_digests := sl_consumed_capsule_digests s @ d\<rparr>))" (is "spawn_ledger_ok ?s")
  unfolding spawn_ledger_ok_def
proof (intro conjI ballI)
  have new: "st_request_id u \<noteq> st_request_id t" if "u \<in> set (sl_tickets s)" for u
    using assms(2) that by (auto simp: find_ticket_def find_None_iff)
  have source: "st_source_resume_capsule_digest u \<noteq> st_source_resume_capsule_digest t"
    if "u \<in> set (sl_tickets s)" "st_source_resume_capsule_digest t \<noteq> None" for u
    using ok src that unfolding spawn_ledger_ok_def ticket_ok_def by (cases "st_source_resume_capsule_digest t") fastforce+
  have tk: "sl_tickets ?s = sl_tickets s @ [t]" by (simp add: bumped_def)
  note parts = ok [unfolded spawn_ledger_ok_def] assms(3) [unfolded fresh_ticket_def]
  show "unique_by (\<lambda>t. Some (st_request_id t)) (sl_tickets ?s)" "unique_by st_lease_binding_reference (sl_tickets ?s)"
    "unique_by st_source_resume_capsule_digest (sl_tickets ?s)" "unique_by st_resume_capsule_digest (sl_tickets ?s)"
    unfolding tk using parts new source by (auto intro!: unique_by_added)
  fix u
  assume "u \<in> set (sl_tickets ?s)"
  then consider "u \<in> set (sl_tickets s)" | "u = t" by (auto simp: bumped_def)
  then show "ticket_ok ?s u"
  proof cases
    case 1
    then show ?thesis using parts by (auto simp: ticket_ok_def bumped_def)
  next
    case 2
    then show ?thesis using parts src(1) by (auto simp: ticket_ok_def bumped_def unleased_def terminal_bound_def)
  qed
qed

lemma ledger_ok_moved:
  assumes ok: "spawn_ledger_ok s" and t: "find_ticket s (st_request_id t) = Some t" and move: "ticket_move t t'"
    and lease: "st_lease_binding_reference t' = st_lease_binding_reference t \<and> st_phase t' \<noteq> LEASE_RESERVED \<or>
      st_lease_binding_reference t' = st_lease_binding_reference t \<and> st_phase t' = st_phase t \<or>
      st_phase t' = LEASE_RESERVED \<and> (\<exists>r. st_lease_binding_reference t' = Some r \<and> r \<notin> set (sl_used_lease_binding_references s) \<and> r \<in> set rs)"
    and capsule: "st_resume_capsule_digest t' \<noteq> st_resume_capsule_digest t \<Longrightarrow>
      \<exists>d. st_resume_capsule_digest t' = Some d \<and> (\<forall>x \<in> set (sl_tickets s). st_resume_capsule_digest x \<noteq> Some d)"
  shows "spawn_ledger_ok (bumped s (s\<lparr>sl_tickets := replace_ticket s t', sl_used_lease_binding_references := sl_used_lease_binding_references s @ rs,
    sl_registry_intents := is, sl_failure_journals := js\<rparr>))" (is "spawn_ledger_ok ?s")
  unfolding spawn_ledger_ok_def
proof (intro conjI ballI)
  note parts = ok [unfolded spawn_ledger_ok_def]
  have tk: "sl_tickets ?s = replace_ticket s t'" by (simp add: bumped_def)
  have mem: "t \<in> set (sl_tickets s)" using find_ticket_Some [OF t] by simp
  have so: "same_order t t'" using move by (simp add: ticket_move_def)
  note f = same_order_fields [OF so]
  have keep: "g u \<noteq> g t'" if "unique_by g (sl_tickets s)" "u \<in> set (sl_tickets s)" "st_request_id u \<noteq> st_request_id t'"
      "g t' \<noteq> None" "g t' = g t" for g :: "WorkerSpawnTicketV2 \<Rightarrow> string option" and u
    using that mem f(1) unfolding unique_by_def by metis
  show "unique_by (\<lambda>t. Some (st_request_id t)) (sl_tickets ?s)"
    unfolding tk by (rule unique_by_replaced) (use parts in auto)
  show "unique_by st_source_resume_capsule_digest (sl_tickets ?s)"
    unfolding tk by (rule unique_by_replaced) (use parts keep f(3) in blast)+
  have "st_resume_capsule_digest u \<noteq> st_resume_capsule_digest t'" if "u \<in> set (sl_tickets s)"
      "st_request_id u \<noteq> st_request_id t'" "st_resume_capsule_digest t' \<noteq> None" for u
    using keep [of st_resume_capsule_digest u] that parts capsule by (cases "st_resume_capsule_digest t' = st_resume_capsule_digest t") auto
  then show "unique_by st_resume_capsule_digest (sl_tickets ?s)"
    unfolding tk by (intro unique_by_replaced) (use parts in blast)+
  have "st_lease_binding_reference u \<noteq> st_lease_binding_reference t'" if "u \<in> set (sl_tickets s)"
      "st_request_id u \<noteq> st_request_id t'" "st_lease_binding_reference t' \<noteq> None" for u
  proof (cases "st_lease_binding_reference t' = st_lease_binding_reference t")
    case True
    then show ?thesis using keep [of st_lease_binding_reference u] that parts by auto
  next
    case False
    then show ?thesis using lease that(1) parts by (auto simp: ticket_ok_def)
  qed
  then show "unique_by st_lease_binding_reference (sl_tickets ?s)"
    unfolding tk by (intro unique_by_replaced) (use parts in blast)+
  fix u
  assume "u \<in> set (sl_tickets ?s)"
  then consider "u \<in> set (sl_tickets s)" | "u = t'" using set_replace_ticket [of s t'] by (auto simp: bumped_def)
  then show "ticket_ok ?s u"
  proof cases
    case 1
    then show ?thesis using parts by (auto simp: ticket_ok_def bumped_def)
  next
    case 2
    have old: "ticket_ok s t" using parts mem by blast
    have "st_lease_binding_reference t' = None \<longleftrightarrow> unleased (st_phase t')"
    proof (cases "st_lease_binding_reference t' = st_lease_binding_reference t \<and> (st_phase t' = LEASE_RESERVED \<longrightarrow> st_phase t = LEASE_RESERVED)")
      case True
      have "phase_move (st_phase t) (st_phase t')" using move by (simp add: ticket_move_def)
      then have "unleased (st_phase t') = unleased (st_phase t)" using phase_move_unleased True by fastforce
      then show ?thesis using True old by (simp add: ticket_ok_def)
    next
      case False
      then have "st_phase t' = LEASE_RESERVED" "st_lease_binding_reference t' \<noteq> None" using lease by auto
      then show ?thesis by (simp add: unleased_def)
    qed
    moreover have "set_option (st_lease_binding_reference t') \<subseteq> set (sl_used_lease_binding_references s) \<union> set rs"
      using lease old by (auto simp: ticket_ok_def)
    moreover have "terminal_bound t'"
    proof (cases "st_phase t' = st_phase t")
      case True
      moreover have "st_resume_capsule_digest t \<noteq> None \<longrightarrow> st_resume_capsule_digest t' \<noteq> None"
        using move unfolding ticket_move_def by metis
      moreover have "terminal_bound t" using old by (simp add: ticket_ok_def)
      ultimately show ?thesis by (simp add: terminal_bound_def f(4,5))
    next
      case False
      then show ?thesis using move unfolding ticket_move_def terminal_bound_def f(4,5) by blast
    qed
    ultimately show ?thesis using 2 old f(3) by (simp add: ticket_ok_def bumped_def)
  qed
qed

lemma ledger_ok_change: "ledger_change s s' \<Longrightarrow> spawn_ledger_ok s \<Longrightarrow> spawn_ledger_ok s'"
proof (induction rule: ledger_change.induct)
  case (submit s t)
  then show ?case using ledger_ok_added [of s t "[]"] by simp
next
  case (resume s t d source)
  then show ?case by (intro ledger_ok_added) auto
next
  case (move s t t' js "is")
  have "st_phase t' \<noteq> LEASE_RESERVED \<or> st_phase t' = st_phase t"
    using move(4) by auto
  then show ?case using ledger_ok_moved [OF \<open>spawn_ledger_ok s\<close> move(1,2), of "[]" js "is"] move(3,6) by auto
next
  case (reserve s t t' r)
  then show ?case using ledger_ok_moved [OF \<open>spawn_ledger_ok s\<close> reserve(1,2), of "[r]" "sl_failure_journals s" "sl_registry_intents s"] by auto
qed

lemma reachable_ledger_ok: "ledger_change\<^sup>*\<^sup>* SpawnLedgerStateV2_empty s \<Longrightarrow> spawn_ledger_ok s"
proof (induction rule: rtranclp_induct)
  case base
  then show ?case by (simp add: spawn_ledger_ok_def unique_by_def SpawnLedgerStateV2_empty_def)
qed (rule ledger_ok_change)

text \<open>
  C11. In any history, two tickets of the ledger never share a request, a lease binding, the capsule they
  resume from or the capsule they leave; a ticket holds a lease binding exactly when it is past the
  validation of its offer and not denied, and that binding is recorded as used; a source capsule is
  recorded as consumed; and a ticket that is rolled back, checkpointed or stopped has the capsule that
  its life cycle or its resume requirement demands.
\<close>

theorem lease_and_capsule_used_once:
  assumes "ledger_history (c # h)" and "t \<in> set (sl_tickets c)"
  shows "(\<forall>u \<in> set (sl_tickets c).
      (st_request_id t = st_request_id u \<or>
       st_lease_binding_reference t \<noteq> None \<and> st_lease_binding_reference t = st_lease_binding_reference u \<or>
       st_source_resume_capsule_digest t \<noteq> None \<and> st_source_resume_capsule_digest t = st_source_resume_capsule_digest u \<or>
       st_resume_capsule_digest t \<noteq> None \<and> st_resume_capsule_digest t = st_resume_capsule_digest u) \<longrightarrow> t = u) \<and>
    (st_lease_binding_reference t = None \<longleftrightarrow> st_phase t \<in> {REQUESTED, CLAIMED, OFFER_VALIDATED, DENIED}) \<and>
    set_option (st_lease_binding_reference t) \<subseteq> set (sl_used_lease_binding_references c) \<and>
    set_option (st_source_resume_capsule_digest t) \<subseteq> set (sl_consumed_capsule_digests c) \<and>
    (st_phase t \<in> {ROLLED_BACK, CHECKPOINTED, STOPPED} \<longrightarrow> capsule_required (st_lifecycle t) (st_resume_requirement t) \<longrightarrow>
       st_resume_capsule_digest t \<noteq> None)"
proof -
  have ok: "spawn_ledger_ok c" by (rule reachable_ledger_ok [OF history_from_empty [OF assms(1)]])
  then have "ticket_ok c t" using assms(2) by (simp add: spawn_ledger_ok_def)
  moreover have "t = u" if "u \<in> set (sl_tickets c)" "st_request_id t = st_request_id u \<or>
       st_lease_binding_reference t \<noteq> None \<and> st_lease_binding_reference t = st_lease_binding_reference u \<or>
       st_source_resume_capsule_digest t \<noteq> None \<and> st_source_resume_capsule_digest t = st_source_resume_capsule_digest u \<or>
       st_resume_capsule_digest t \<noteq> None \<and> st_resume_capsule_digest t = st_resume_capsule_digest u" for u
    using ok assms(2) that unfolding spawn_ledger_ok_def unique_by_def by blast
  ultimately show ?thesis unfolding ticket_ok_def terminal_bound_def unleased_def by blast
qed

subsection \<open>The life of a ticket\<close>

lemma change_keeps_ticket:
  assumes "ledger_change s s'" and "spawn_ledger_ok s" and "t \<in> set (sl_tickets s)"
  shows "\<exists>t' \<in> set (sl_tickets s'). t' = t \<or> ticket_move t t'"
proof -
  have replaced: "\<exists>x' \<in> set (replace_ticket s y'). x' = t \<or> ticket_move t x'"
    if "find_ticket s (st_request_id y) = Some y" "ticket_move y y'" for y y'
  proof (cases "t = y")
    case True
    then have "y' \<in> set (replace_ticket s y')" using that same_order_fields(1) [of y y'] assms(3)
      by (auto simp: replace_ticket_def ticket_move_def)
    then show ?thesis using True that(2) by blast
  next
    case False
    then have "st_request_id t \<noteq> st_request_id y'"
      using that find_ticket_Some [OF that(1)] same_order_fields(1) [of y y'] assms(2,3)
      by (auto simp: spawn_ledger_ok_def unique_by_def ticket_move_def)
    then have "t \<in> set (replace_ticket s y')" using assms(3) by (auto simp: replace_ticket_def)
    then show ?thesis by blast
  qed
  show ?thesis using assms(1) by cases (use assms(3) replaced in \<open>auto simp: bumped_def\<close>)
qed

lemma changes_keep_ticket:
  assumes "ledger_change\<^sup>*\<^sup>* s s'" and "spawn_ledger_ok s" and "t \<in> set (sl_tickets s)"
  shows "spawn_ledger_ok s' \<and> (\<exists>t' \<in> set (sl_tickets s'). ticket_move\<^sup>*\<^sup>* t t')"
  using assms
proof (induction rule: rtranclp_induct)
  case (step y z)
  then obtain u where u: "u \<in> set (sl_tickets y)" "ticket_move\<^sup>*\<^sup>* t u" "spawn_ledger_ok y" by blast
  then obtain u' where "u' \<in> set (sl_tickets z)" "u' = u \<or> ticket_move u u'" using change_keeps_ticket [OF step.hyps(2)] by blast
  then show ?case using u ledger_ok_change [OF step.hyps(2)] by (auto intro: rtranclp.rtrancl_into_rtrancl)
qed blast

definition final_phase :: "SpawnPhase \<Rightarrow> bool" where
  "final_phase p \<longleftrightarrow> p \<in> {STOPPED, DENIED, ROLLED_BACK, QUARANTINED}"

lemma phase_move_cases:
  "phase_move p q \<Longrightarrow> final_phase p \<Longrightarrow> q = p"
  "phase_move p q \<Longrightarrow> p \<noteq> REQUESTED \<Longrightarrow> q \<noteq> REQUESTED"
  by (cases p; auto simp: phase_move_def final_phase_def)+

lemma ticket_moves:
  assumes "ticket_move\<^sup>*\<^sup>* t t'"
  shows "same_order t t' \<and> phase_move\<^sup>*\<^sup>* (st_phase t) (st_phase t') \<and> st_ledger_revision t \<le> st_ledger_revision t' \<and>
    (st_ledger_revision t = st_ledger_revision t' \<longrightarrow> t' = t) \<and> (final_phase (st_phase t) \<longrightarrow> st_phase t' = st_phase t) \<and>
    (st_phase t \<noteq> REQUESTED \<longrightarrow> st_phase t' \<noteq> REQUESTED \<and> st_claimed_by_principal_id t' = st_claimed_by_principal_id t) \<and>
    (\<not> unleased (st_phase t) \<longrightarrow> \<not> unleased (st_phase t') \<and> st_lease_binding_reference t' = st_lease_binding_reference t \<and>
       st_account_binding_digest t' = st_account_binding_digest t) \<and>
    (st_resume_capsule_digest t \<noteq> None \<longrightarrow> st_resume_capsule_digest t' = st_resume_capsule_digest t)"
  using assms
proof (induction rule: rtranclp_induct)
  case base
  then show ?case by (simp add: same_order_def)
next
  case (step y z)
  note IH = step.IH and m = step.hyps(2) [unfolded ticket_move_def]
  have so: "same_order t y" "same_order y z" using IH m by blast+
  have "same_order t z" unfolding same_order_def
    by (subst so(2) [unfolded same_order_def], subst so(1) [unfolded same_order_def]) simp
  moreover have pm: "phase_move (st_phase y) (st_phase z)" using m by blast
  moreover have "\<not> unleased (st_phase y) \<longrightarrow> \<not> unleased (st_phase z) \<and> st_lease_binding_reference z = st_lease_binding_reference y \<and>
       st_account_binding_digest z = st_account_binding_digest y"
    using m phase_move_unleased [OF pm] by (auto simp: unleased_def)
  moreover have "st_phase y \<noteq> REQUESTED \<longrightarrow> st_phase z \<noteq> REQUESTED \<and> st_claimed_by_principal_id z = st_claimed_by_principal_id y"
    using m phase_move_cases(2) [OF pm] by blast
  moreover have "final_phase (st_phase y) \<longrightarrow> st_phase z = st_phase y" using phase_move_cases(1) [OF pm] by blast
  moreover have "st_ledger_revision z = st_ledger_revision y + 1" "st_resume_capsule_digest y \<noteq> None \<longrightarrow> st_resume_capsule_digest z = st_resume_capsule_digest y"
    using m by (blast, metis)
  ultimately show ?case using IH by (auto intro: rtranclp.rtrancl_into_rtrancl)
qed

text \<open>
  C23. Between any two states of a history, the older one \<open>c\<close> and the newer one, no ticket disappears: a
  ticket of the older state is in the newer one with the same order, fence and authority, its phases lie
  on a path of the phase graph, its revision has grown unless it is unchanged, a final phase is kept,
  and so are the principal that claimed it, its lease binding and its capsule once they are set.
\<close>

theorem tickets_follow_phases:
  assumes "ledger_history (h1 @ c # h2)" and "t \<in> set (sl_tickets c)"
  shows "\<exists>t' \<in> set (sl_tickets (hd (h1 @ [c]))).
    same_order t t' \<and> phase_move\<^sup>*\<^sup>* (st_phase t) (st_phase t') \<and>
    st_ledger_revision t \<le> st_ledger_revision t' \<and> (st_ledger_revision t = st_ledger_revision t' \<longrightarrow> t' = t) \<and>
    (final_phase (st_phase t) \<longrightarrow> st_phase t' = st_phase t) \<and>
    (st_phase t \<noteq> REQUESTED \<longrightarrow> st_claimed_by_principal_id t' = st_claimed_by_principal_id t) \<and>
    (st_lease_binding_reference t \<noteq> None \<longrightarrow> st_lease_binding_reference t' = st_lease_binding_reference t \<and>
       st_account_binding_digest t' = st_account_binding_digest t) \<and>
    (st_resume_capsule_digest t \<noteq> None \<longrightarrow> st_resume_capsule_digest t' = st_resume_capsule_digest t)"
proof -
  have "ledger_history (c # h2)" using assms(1)
  proof (induction h1)
    case (Cons d h1)
    then show ?case by (cases h1) (auto elim: historyE)
  qed simp
  then have ok: "spawn_ledger_ok c" by (rule reachable_ledger_ok [OF history_from_empty])
  then obtain t' where t': "t' \<in> set (sl_tickets (hd (h1 @ [c])))" "ticket_move\<^sup>*\<^sup>* t t'"
    using changes_keep_ticket [OF history_changes [OF assms(1)] _ assms(2)] by blast
  have "st_lease_binding_reference t \<noteq> None \<longrightarrow> \<not> unleased (st_phase t)"
    using ok assms(2) by (simp add: spawn_ledger_ok_def ticket_ok_def)
  then show ?thesis using ticket_moves [OF t'(2)] t'(1) by blast
qed

subsection \<open>Witnesses\<close>

definition zero_text :: string where
  "zero_text = ''sha256:'' @ replicate 64 (CHR ''0'')"

definition sample_lead :: VerifiedPrincipalV2 where
  "sample_lead = \<lparr>vp_principal_id = ''lead'', vp_role = TEAMLEADER, vp_authority_digest = zero_text\<rparr>"

definition sample_spawn :: "string \<Rightarrow> spawn_request" where
  "sample_spawn rid =
     \<lparr>sr_request_id = rid, sr_requester = \<lparr>vp_principal_id = ''bee'', vp_role = NON_LEADERSHIP, vp_authority_digest = zero_text\<rparr>,
      sr_work_package_id = ''wp'', sr_topic_digest = zero_text, sr_target_class_id = ''arbeitsbiene'',
      sr_authorized_teamlead = sample_lead, sr_resolution_decision_digest = zero_text, sr_resolution_generation = 1,
      sr_policy_digest = zero_text, sr_policy_generation = 1, sr_lifecycle = EPHEMERAL, sr_resume_requirement = False,
      sr_fence_epoch = 1\<rparr>"

definition port_world :: "SpawnLedgerStateV2 \<Rightarrow> SpawnLedgerStateV2 \<Rightarrow> port_cell" where
  "port_world s c = \<lparr>pc_seen = s, pc_cell = c, pc_read_fault = False, pc_cas_fault = None\<rparr>"

definition sample_spawned :: "LedgerRevision \<Rightarrow> SpawnPhase \<Rightarrow> string option \<Rightarrow> WorkerSpawnTicketV2" where
  "sample_spawned n phase c =
     (requested_ticket (sample_spawn ''1''))\<lparr>st_ledger_revision := n, st_phase := phase, st_claimed_by_principal_id := c\<rparr>"

definition sample_ledger :: "LedgerRevision \<Rightarrow> WorkerSpawnTicketV2 \<Rightarrow> SpawnLedgerStateV2" where
  "sample_ledger n t = SpawnLedgerStateV2_empty\<lparr>sl_state_revision := n, sl_tickets := [t]\<rparr>"

definition ledger1 :: SpawnLedgerStateV2 where
  "ledger1 = sample_ledger 1 (sample_spawned 1 REQUESTED None)"

definition ledger2 :: SpawnLedgerStateV2 where
  "ledger2 = sample_ledger 2 (sample_spawned 2 CLAIMED (Some ''lead''))"

definition ledger3 :: SpawnLedgerStateV2 where
  "ledger3 = sample_ledger 3 (sample_spawned 3 OFFER_VALIDATED (Some ''lead''))"

definition no_alloc_env :: alloc_env where
  "no_alloc_env = \<lparr>le_sha256 = id, le_dumps = (\<lambda>_. ''''), le_stamp = (\<lambda>_. '''')\<rparr>"

definition sample_guard :: guard_replies where
  "sample_guard =
     (let d = \<lparr>local_us = 22 * us_per_second, utc_offset_us = Some 0\<rparr>
      in \<lparr>gr_verify_now = d, gr_reference_now = d, gr_close_now = d, gr_token = ''tok'', gr_release = (\<lambda>_. Inr (PBool True))\<rparr>)"

definition sample_publish :: "string \<Rightarrow> port_cell \<Rightarrow> port_cell" where
  "sample_publish rid w = snd (publish_requested [''arbeitsbiene''] cell_port (sample_spawn rid) w)"

definition sample_claim :: "port_cell \<Rightarrow> port_cell" where
  "sample_claim w = snd (claim cell_port ''1'' sample_lead 1 w)"

definition sample_offer_validated :: "port_cell \<Rightarrow> port_cell" where
  "sample_offer_validated w =
     snd (snd (append_phase no_alloc_env sample_guard cell_port (sample_spawned 2 CLAIMED (Some ''lead'')) OFFER_VALIDATED 2 1
       sample_lead None (RuntimeAccountAllocator_init, w)))"

lemma sample_runs:
  "pc_cell (sample_publish ''1'' (port_world SpawnLedgerStateV2_empty SpawnLedgerStateV2_empty)) = ledger1"
  "pc_cell (sample_claim (port_world ledger1 ledger1)) = ledger2"
  "pc_cell (sample_offer_validated (port_world ledger2 ledger2)) = ledger3"
  by (code_simp, code_simp, code_simp)

lemma sample_calls:
  "ledger_call w (sample_publish rid w)" "ledger_call w (sample_claim w)" "ledger_call w (sample_offer_validated w)"
  unfolding sample_publish_def sample_claim_def sample_offer_validated_def
  by (rule ledger_call.publish, rule prod.collapse [symmetric]) (rule ledger_call.claim, rule prod.collapse [symmetric],
    rule ledger_call.append, subst prod.collapse, rule prod.collapse [symmetric])

lemma sample_ledger_history:
  "ledger_history [ledger1, SpawnLedgerStateV2_empty]" "ledger_history [ledger3, ledger2, ledger1, SpawnLedgerStateV2_empty]"
proof -
  show 1: "ledger_history [ledger1, SpawnLedgerStateV2_empty]"
    unfolding sample_runs(1) [symmetric] by (rule ledger_history.call [OF ledger_history.start sample_calls(1)]) (simp_all add: port_world_def)
  have 2: "ledger_history [ledger2, ledger1, SpawnLedgerStateV2_empty]"
    unfolding sample_runs(2) [symmetric] by (rule ledger_history.call [OF 1 sample_calls(2)]) (simp_all add: port_world_def)
  show "ledger_history [ledger3, ledger2, ledger1, SpawnLedgerStateV2_empty]"
    unfolding sample_runs(3) [symmetric] by (rule ledger_history.call [OF 2 sample_calls(3)]) (simp_all add: port_world_def)
qed

lemmas ledger_values = ledger1_def ledger2_def ledger3_def sample_ledger_def sample_spawned_def requested_ticket_def

theorem ledger_refines_atomic_transitions_witness:
  "pc_cell (sample_publish ''2'' (port_world SpawnLedgerStateV2_empty ledger1)) = ledger1"
proof -
  have "ledger1 \<noteq> SpawnLedgerStateV2_empty" by (simp add: ledger_values SpawnLedgerStateV2_empty_def)
  then show ?thesis
    using ledger_refines_atomic_transitions [OF sample_ledger_history(1) sample_calls(1) [of "port_world SpawnLedgerStateV2_empty ledger1" "''2''"]]
    by (simp add: port_world_def)
qed

theorem lease_and_capsule_used_once_witness:
  "st_lease_binding_reference (hd (sl_tickets ledger3)) = None"
proof -
  have "sl_tickets ledger3 \<noteq> [] \<and> st_phase (hd (sl_tickets ledger3)) = OFFER_VALIDATED" by (simp add: ledger_values)
  then show ?thesis using lease_and_capsule_used_once [OF sample_ledger_history(2), of "hd (sl_tickets ledger3)"] by simp
qed

theorem tickets_follow_phases_witness:
  "\<exists>t' \<in> set (sl_tickets ledger3). same_order (hd (sl_tickets ledger1)) t' \<and> phase_move\<^sup>*\<^sup>* REQUESTED (st_phase t')"
proof -
  have "sl_tickets ledger1 \<noteq> [] \<and> st_phase (hd (sl_tickets ledger1)) = REQUESTED" by (simp add: ledger_values)
  then show ?thesis
    using tickets_follow_phases [of "[ledger3, ledger2]" ledger1 "[SpawnLedgerStateV2_empty]" "hd (sl_tickets ledger1)"] sample_ledger_history(2)
    by auto
qed

end
