(* ===== verification/Allocator_Properties.thy ===== *)
theory Allocator_Properties
  imports Account_Allocator
begin

text \<open>
  The account allocator under any interleaving of its sections: a verified lease stays reserved until
  its verification is closed, every reservation is given back exactly once, and an allocation keeps to
  the capacity and to increasing revisions.
\<close>

subsection \<open>The invariant\<close>

definition holds_reservation :: "RuntimeAccountAllocator \<Rightarrow> string \<Rightarrow> LeaseRecord \<Rightarrow> bool" where
  "holds_reservation s lease_id r =
     reservation_owner_invariant (map_of (al_reservation_owners s) (lr_reservation_key r)) (lr_reservation_key r)
       lease_id (lr_reservation r) (lr_fencing_token r) RESERVED (Some lease_id)"

definition lease_records_ok :: "RuntimeAccountAllocator \<Rightarrow> bool" where
  "lease_records_ok s \<longleftrightarrow> (\<forall>lid o' r. map_of (al_records s) lid = Some (o', r) \<longrightarrow>
     lr_lease_id r = lid \<and> cl_lease_id (snd (lr_lease r)) = lid \<and>
     (lr_state r = RESERVED \<longrightarrow> lr_pending_release_id r = None \<and> holds_reservation s lid r))"

definition pending_ok :: "RuntimeAccountAllocator \<Rightarrow> bool" where
  "pending_ok s \<longleftrightarrow> (\<forall>pid o' p. map_of (al_pending_releases s) pid = Some (o', p) \<longrightarrow>
     pr_pending_release_id p = pid \<and> pending_owned s p)"

definition verification_ok :: "RuntimeAccountAllocator \<Rightarrow> nat \<Rightarrow> LeaseBindingVerificationRecord \<Rightarrow> bool" where
  "verification_ok s v a \<longleftrightarrow>
     v < al_next s \<and> map_of (al_records s) (lr_lease_id (snd (lv_lease_record a))) = Some (lv_lease_record a) \<and>
     lr_state (snd (lv_lease_record a)) = RESERVED \<and> lr_receipt (snd (lv_lease_record a)) \<noteq> None"

definition verifications_ok :: "RuntimeAccountAllocator \<Rightarrow> bool" where
  "verifications_ok s \<longleftrightarrow>
     (\<forall>v a. map_of (al_verifications s) v = Some a \<longrightarrow> verification_ok s v a) \<and>
     (\<forall>v a w b. map_of (al_verifications s) v = Some a \<longrightarrow> map_of (al_verifications s) w = Some b \<longrightarrow>
        lr_lease_id (snd (lv_lease_record a)) = lr_lease_id (snd (lv_lease_record b)) \<longrightarrow> v = w)"

definition owner_ok :: "RuntimeAccountAllocator \<Rightarrow> string \<Rightarrow> ReservationOwner \<Rightarrow> bool" where
  "owner_ok s k w \<longleftrightarrow>
     (case ro_phase w of
        RESERVED \<Rightarrow> \<exists>lid o' r. map_of (al_records s) lid = Some (o', r) \<and> lr_state r = RESERVED \<and> lr_reservation_key r = k
      | RELEASE_PENDING \<Rightarrow> \<exists>pid o' p. map_of (al_pending_releases s) pid = Some (o', p) \<and> pr_reservation_key p = k
      | REVOKED \<Rightarrow> False)"

definition owners_ok :: "RuntimeAccountAllocator \<Rightarrow> bool" where
  "owners_ok s \<longleftrightarrow> (\<forall>k w. map_of (al_reservation_owners s) k = Some w \<longrightarrow> owner_ok s k w)"

definition alloc_ok :: "RuntimeAccountAllocator \<Rightarrow> bool" where
  "alloc_ok s \<longleftrightarrow> lease_records_ok s \<and> pending_ok s \<and> verifications_ok s \<and> owners_ok s"

lemmas alloc_ok_defs = alloc_ok_def lease_records_ok_def pending_ok_def verifications_ok_def owners_ok_def

lemma alloc_ok_init: "alloc_ok RuntimeAccountAllocator_init"
  by (simp add: alloc_ok_defs RuntimeAccountAllocator_init_def)

text \<open>The invariant does not see the counters of accounts and the deferred revocations.\<close>

lemma alloc_ok_cong:
  assumes "al_records s' = al_records s" "al_pending_releases s' = al_pending_releases s"
    "al_verifications s' = al_verifications s" "al_reservation_owners s' = al_reservation_owners s" "al_next s \<le> al_next s'"
    and "alloc_ok s"
  shows "alloc_ok s'"
  using assms(6) unfolding alloc_ok_defs verification_ok_def owner_ok_def holds_reservation_def pending_owned_def assms(1-4)
  using assms(5) by (blast intro: less_le_trans)

lemma set_active_fields [simp]:
  "al_records (set_active a k n s) = al_records s" "al_pending_releases (set_active a k n s) = al_pending_releases s"
  "al_verifications (set_active a k n s) = al_verifications s"
  "al_reservation_owners (set_active a k n s) = al_reservation_owners s" "al_next (set_active a k n s) = al_next s"
  "al_deferred_revokes (set_active a k n s) = al_deferred_revokes s"
  "al_latest_by_account (set_active a k n s) = al_latest_by_account s"
  by (simp_all add: set_active_def)

lemma set_active_ok [simp]: "alloc_ok (set_active a k n s) \<longleftrightarrow> alloc_ok s"
  using alloc_ok_cong [of "set_active a k n s" s] alloc_ok_cong [of s "set_active a k n s"] by auto

lemma drop_active_fields [simp]:
  "al_records (drop_active p s) = al_records s" "al_pending_releases (drop_active p s) = al_pending_releases s"
  "al_verifications (drop_active p s) = al_verifications s"
  "al_reservation_owners (drop_active p s) = al_reservation_owners s" "al_next (drop_active p s) = al_next s"
  "al_deferred_revokes (drop_active p s) = al_deferred_revokes s"
  by (simp_all add: drop_active_def split: option.splits)

lemma owner_invariant_Some:
  "reservation_owner_invariant w k i v t p l \<longleftrightarrow>
     (\<exists>x. w = Some x \<and> ro_reservation_key x = k \<and> ro_owner_id x = i \<and> same_object (ro_reservation x) v \<and>
        ro_fencing_token x = t \<and> ro_phase x = p \<and> ro_lease_id x = l)"
  by (auto simp: reservation_owner_invariant_def split: option.splits)

lemma lease_record_ids:
  "alloc_ok s \<Longrightarrow> map_of (al_records s) lid = Some (o', r) \<Longrightarrow> lr_lease_id r = lid \<and> cl_lease_id (snd (lr_lease r)) = lid"
  by (simp add: alloc_ok_defs)

lemma reserved_holds:
  "alloc_ok s \<Longrightarrow> map_of (al_records s) lid = Some (o', r) \<Longrightarrow> lr_state r = RESERVED \<Longrightarrow>
     holds_reservation s lid r \<and> lr_pending_release_id r = None"
  unfolding alloc_ok_def lease_records_ok_def by blast

lemma pending_owns:
  "alloc_ok s \<Longrightarrow> map_of (al_pending_releases s) pid = Some (o', p) \<Longrightarrow> pending_owned s p \<and> pr_pending_release_id p = pid"
  unfolding alloc_ok_def pending_ok_def by blast

lemma verifiedD:
  assumes "alloc_ok s" and "map_of (al_verifications s) v = Some a"
  shows "v < al_next s" "map_of (al_records s) (lr_lease_id (snd (lv_lease_record a))) = Some (lv_lease_record a)"
    "lr_state (snd (lv_lease_record a)) = RESERVED" "lr_receipt (snd (lv_lease_record a)) \<noteq> None"
  using assms unfolding alloc_ok_def verifications_ok_def verification_ok_def by blast+

lemma verified_once:
  "alloc_ok s \<Longrightarrow> map_of (al_verifications s) v = Some a \<Longrightarrow> map_of (al_verifications s) w = Some b \<Longrightarrow>
     lr_lease_id (snd (lv_lease_record a)) = lr_lease_id (snd (lv_lease_record b)) \<Longrightarrow> v = w"
  unfolding alloc_ok_def verifications_ok_def by blast

text \<open>Who owns a key, and in which phase.\<close>

definition owner_at :: "RuntimeAccountAllocator \<Rightarrow> string \<Rightarrow> (string \<times> LeaseState) option" where
  "owner_at s k = map_option (\<lambda>w. (ro_owner_id w, ro_phase w)) (map_of (al_reservation_owners s) k)"

lemma owner_at_None: "owner_at s k = None \<longleftrightarrow> map_of (al_reservation_owners s) k = None"
  by (simp add: owner_at_def)

lemma reserved_at:
  "alloc_ok s \<Longrightarrow> map_of (al_records s) lid = Some (o', r) \<Longrightarrow> lr_state r = RESERVED \<Longrightarrow>
     owner_at s (lr_reservation_key r) = Some (lid, RESERVED)"
  by (auto simp: owner_at_def holds_reservation_def owner_invariant_Some dest!: reserved_holds)

lemma pending_at:
  "alloc_ok s \<Longrightarrow> map_of (al_pending_releases s) pid = Some (o', p) \<Longrightarrow>
     owner_at s (pr_reservation_key p) = Some (pid, RELEASE_PENDING)"
  by (auto simp: owner_at_def pending_owned_def owner_invariant_Some dest!: pending_owns)

lemma owner_ok_at: "alloc_ok s \<Longrightarrow> map_of (al_reservation_owners s) k = Some w \<Longrightarrow> owner_ok s k w"
  by (simp add: alloc_ok_defs)

lemma owner_ok_keep:
  assumes "owner_ok s j x"
    and "\<And>l o' r. map_of (al_records s) l = Some (o', r) \<Longrightarrow> lr_state r = RESERVED \<Longrightarrow> lr_reservation_key r = j \<Longrightarrow>
      map_of (al_records s') l = Some (o', r)"
    and "\<And>pid o' p. map_of (al_pending_releases s) pid = Some (o', p) \<Longrightarrow> pr_reservation_key p = j \<Longrightarrow>
      map_of (al_pending_releases s') pid = Some (o', p)"
  shows "owner_ok s' j x"
proof (cases "ro_phase x")
  case RESERVED
  then obtain l o' r where "map_of (al_records s) l = Some (o', r)" "lr_state r = RESERVED" "lr_reservation_key r = j"
    using assms(1) by (auto simp: owner_ok_def)
  then show ?thesis using assms(2) RESERVED unfolding owner_ok_def by simp blast
next
  case RELEASE_PENDING
  then obtain pid o' p where "map_of (al_pending_releases s) pid = Some (o', p)" "pr_reservation_key p = j"
    using assms(1) by (auto simp: owner_ok_def)
  then show ?thesis using assms(3) RELEASE_PENDING unfolding owner_ok_def by simp blast
next
  case REVOKED
  then show ?thesis using assms(1) by (simp add: owner_ok_def)
qed

text \<open>The invariant of a changed state, from what has changed in it.\<close>

lemma alloc_okI:
  assumes ok: "alloc_ok s"
    and ids: "\<And>lid o' r. map_of (al_records s') lid = Some (o', r) \<Longrightarrow> lr_lease_id r = lid \<and> cl_lease_id (snd (lr_lease r)) = lid"
    and rec: "\<And>lid o' r. map_of (al_records s') lid = Some (o', r) \<Longrightarrow> lr_state r = RESERVED \<Longrightarrow>
      lr_pending_release_id r = None \<and> holds_reservation s' lid r"
    and pend: "\<And>pid o' p. map_of (al_pending_releases s') pid = Some (o', p) \<Longrightarrow> pr_pending_release_id p = pid \<and> pending_owned s' p"
    and ver: "\<And>v a. map_of (al_verifications s') v = Some a \<Longrightarrow> map_of (al_verifications s) v = Some a \<and>
      map_of (al_records s') (lr_lease_id (snd (lv_lease_record a))) = Some (lv_lease_record a)"
    and "al_next s \<le> al_next s'"
    and own: "\<And>k w. map_of (al_reservation_owners s') k = Some w \<Longrightarrow> owner_ok s' k w"
  shows "alloc_ok s'"
  unfolding alloc_ok_def
proof (intro conjI)
  show "lease_records_ok s'" using ids rec unfolding lease_records_ok_def by blast
  show "pending_ok s'" using pend unfolding pending_ok_def by blast
  show "verifications_ok s'"
    using ver verifiedD [OF ok] verified_once [OF ok] \<open>al_next s \<le> al_next s'\<close>
    unfolding verifications_ok_def verification_ok_def by (metis less_le_trans)
  show "owners_ok s'" using own unfolding owners_ok_def by blast
qed

subsection \<open>New reservations\<close>

text \<open>A queued release, and a new lease, for a key that nobody owns.\<close>

lemma queued_release_ok:
  assumes ok: "alloc_ok s" and key: "map_of (al_reservation_owners s) k = None"
    and tok: "map_of (al_pending_releases s) tok = None"
    and p: "pr_pending_release_id p = tok" "pr_reservation_key p = k"
    and w: "ro_reservation_key w = k" "ro_phase w = RELEASE_PENDING" "ro_owner_id w = tok"
      "same_object (ro_reservation w) (pr_reservation p)" "ro_fencing_token w = pr_fencing_token p" "ro_lease_id w = pr_lease_id p"
  shows "alloc_ok (s\<lparr>al_pending_releases := AList.update tok (o', p) (al_pending_releases s),
    al_reservation_owners := AList.update k w (al_reservation_owners s), al_next := al_next s + n\<rparr>)" (is "alloc_ok ?s")
proof (rule alloc_okI [OF ok])
  fix lid o' r
  assume r: "map_of (al_records ?s) lid = Some (o', r)"
  then show "lr_lease_id r = lid \<and> cl_lease_id (snd (lr_lease r)) = lid" using lease_record_ids [OF ok] by simp
  assume "lr_state r = RESERVED"
  then have "holds_reservation s lid r \<and> lr_pending_release_id r = None" "lr_reservation_key r \<noteq> k"
    using r key [folded owner_at_None] by (auto dest: reserved_holds [OF ok] reserved_at [OF ok])
  then show "lr_pending_release_id r = None \<and> holds_reservation ?s lid r" by (simp add: holds_reservation_def)
next
  fix pid o'' q
  assume q: "map_of (al_pending_releases ?s) pid = Some (o'', q)"
  show "pr_pending_release_id q = pid \<and> pending_owned ?s q"
  proof (cases "pid = tok")
    case True
    then show ?thesis using q p w by (auto simp: pending_owned_def owner_invariant_Some)
  next
    case False
    then have "pending_owned s q \<and> pr_pending_release_id q = pid" "pr_reservation_key q \<noteq> k"
      using q key [folded owner_at_None] by (auto dest: pending_owns [OF ok] pending_at [OF ok])
    then show ?thesis by (auto simp: pending_owned_def)
  qed
next
  fix v a
  assume "map_of (al_verifications ?s) v = Some a"
  then show "map_of (al_verifications s) v = Some a \<and> map_of (al_records ?s) (lr_lease_id (snd (lv_lease_record a))) = Some (lv_lease_record a)"
    using verifiedD(2) [OF ok] by simp
next
  fix j x
  assume x: "map_of (al_reservation_owners ?s) j = Some x"
  show "owner_ok ?s j x"
  proof (cases "j = k")
    case True
    then show ?thesis using x w(2) p by (auto simp: owner_ok_def)
  next
    case False
    then have "owner_ok s j x" using owner_ok_at [OF ok] x by simp
    then show ?thesis by (rule owner_ok_keep) (use tok in auto)
  qed
qed simp

lemma new_lease_ok:
  assumes ok: "alloc_ok s" and key: "map_of (al_reservation_owners s) k = None"
    and tok: "map_of (al_records s) tok = None"
    and r: "lr_lease_id r = tok" "cl_lease_id (snd (lr_lease r)) = tok" "lr_reservation_key r = k" "lr_state r = RESERVED"
      "lr_pending_release_id r = None"
    and w: "ro_reservation_key w = k" "ro_phase w = RESERVED" "ro_owner_id w = tok"
      "same_object (ro_reservation w) (lr_reservation r)" "ro_fencing_token w = lr_fencing_token r" "ro_lease_id w = Some tok"
  shows "alloc_ok (s\<lparr>al_records := AList.update tok (o', r) (al_records s),
    al_reservation_owners := AList.update k w (al_reservation_owners s), al_latest_by_account := latest,
    al_next := al_next s + n\<rparr>)" (is "alloc_ok ?s")
proof (rule alloc_okI [OF ok])
  fix lid o'' q
  assume q: "map_of (al_records ?s) lid = Some (o'', q)"
  then show "lr_lease_id q = lid \<and> cl_lease_id (snd (lr_lease q)) = lid"
    using lease_record_ids [OF ok] r by (auto split: if_splits)
  assume res: "lr_state q = RESERVED"
  show "lr_pending_release_id q = None \<and> holds_reservation ?s lid q"
  proof (cases "lid = tok")
    case True
    then show ?thesis using q r w by (auto simp: holds_reservation_def owner_invariant_Some)
  next
    case False
    then have "holds_reservation s lid q \<and> lr_pending_release_id q = None" "lr_reservation_key q \<noteq> k"
      using q res key [folded owner_at_None] by (auto dest: reserved_holds [OF ok] reserved_at [OF ok])
    then show ?thesis by (simp add: holds_reservation_def)
  qed
next
  fix pid o'' q
  assume q: "map_of (al_pending_releases ?s) pid = Some (o'', q)"
  then have "pending_owned s q \<and> pr_pending_release_id q = pid" "pr_reservation_key q \<noteq> k"
    using key [folded owner_at_None] by (auto dest: pending_owns [OF ok] pending_at [OF ok])
  then show "pr_pending_release_id q = pid \<and> pending_owned ?s q" by (auto simp: pending_owned_def)
next
  fix v a
  assume "map_of (al_verifications ?s) v = Some a"
  then show "map_of (al_verifications s) v = Some a \<and> map_of (al_records ?s) (lr_lease_id (snd (lv_lease_record a))) = Some (lv_lease_record a)"
    using verifiedD(2) [OF ok] tok by auto
next
  fix j x
  assume x: "map_of (al_reservation_owners ?s) j = Some x"
  show "owner_ok ?s j x"
  proof (cases "j = k")
    case True
    then show ?thesis using x w(2) r by (auto simp: owner_ok_def)
  next
    case False
    then have "owner_ok s j x" using owner_ok_at [OF ok] x by simp
    then show ?thesis by (rule owner_ok_keep) (use tok in auto)
  qed
qed simp

subsection \<open>From a lease to its release\<close>

lemma release_transition_ok:
  assumes ok: "alloc_ok s" and rec: "map_of (al_records s) lid = Some record" and res: "lr_state (snd record) = RESERVED"
    and tok: "map_of (al_pending_releases s) tok = None"
    and unverified: "\<And>v a. map_of (al_verifications s) v = Some a \<Longrightarrow> lr_lease_id (snd (lv_lease_record a)) \<noteq> lid"
  shows "\<exists>s'. transition_lease_release_locked tok record s = (Some tok, s') \<and> alloc_ok s' \<and>
    dom (map_of (al_reservation_owners s')) = dom (map_of (al_reservation_owners s)) \<and>
    al_verifications s' = al_verifications s \<and> al_next s \<le> al_next s' \<and>
    (\<forall>pid q. map_of (al_pending_releases s) pid = Some q \<longrightarrow> map_of (al_pending_releases s') pid = Some q)"
proof -
  obtain o' r where pair: "record = (o', r)" by (cases "record")
  have r: "map_of (al_records s) lid = Some (o', r)" "lr_state r = RESERVED" using rec res pair by simp_all
  have ids: "lr_lease_id r = lid" "cl_lease_id (snd (lr_lease r)) = lid" using lease_record_ids [OF ok r(1)] by simp_all
  have holds: "holds_reservation s lid r" using reserved_holds [OF ok r] by simp
  then obtain w where w: "map_of (al_reservation_owners s) (lr_reservation_key r) = Some w"
    "ro_reservation_key w = lr_reservation_key r" "ro_owner_id w = lid" "same_object (ro_reservation w) (lr_reservation r)"
    "ro_fencing_token w = lr_fencing_token r" "ro_phase w = RESERVED" "ro_lease_id w = Some lid"
    by (auto simp: holds_reservation_def owner_invariant_Some)
  let ?p = "\<lparr>pr_pending_release_id = tok, pr_reservation_key = lr_reservation_key r, pr_reservation = lr_reservation r,
     pr_active_account_key = Some (cl_account_binding_digest (snd (lr_lease r))),
     pr_active_key = Some lid, pr_fencing_token = lr_fencing_token r, pr_lease_id = Some lid\<rparr>"
  let ?r = "r\<lparr>lr_state := RELEASE_PENDING, lr_phase := ''RELEASE_PENDING'', lr_pending_release_id := Some tok\<rparr>"
  let ?w = "w\<lparr>ro_owner_id := tok, ro_phase := RELEASE_PENDING\<rparr>"
  let ?s = "s\<lparr>al_pending_releases := AList.update tok (al_next s, ?p) (al_pending_releases s),
     al_reservation_owners := AList.update (lr_reservation_key r) ?w (al_reservation_owners s),
     al_records := AList.update lid (al_next s + 1, ?r) (al_records s), al_next := al_next s + 2\<rparr>"
  have eq: "transition_lease_release_locked tok record s = (Some tok, ?s)"
    using w holds ids unfolding transition_lease_release_locked_def pair holds_reservation_def by (simp add: Let_def)
  have at: "owner_at s (lr_reservation_key r) = Some (lid, RESERVED)" by (rule reserved_at [OF ok r])
  have "alloc_ok ?s"
  proof (rule alloc_okI [OF ok])
    fix l o'' q
    assume q: "map_of (al_records ?s) l = Some (o'', q)"
    then show "lr_lease_id q = l \<and> cl_lease_id (snd (lr_lease q)) = l"
      using lease_record_ids [OF ok] ids by (auto split: if_splits)
    assume qr: "lr_state q = RESERVED"
    then have l: "l \<noteq> lid" "map_of (al_records s) l = Some (o'', q)" using q by (auto split: if_splits)
    then have "lr_reservation_key q \<noteq> lr_reservation_key r" using reserved_at [OF ok l(2) qr] at by auto
    then show "lr_pending_release_id q = None \<and> holds_reservation ?s l q"
      using reserved_holds [OF ok l(2) qr] by (simp add: holds_reservation_def)
  next
    fix pid o'' q
    assume q: "map_of (al_pending_releases ?s) pid = Some (o'', q)"
    show "pr_pending_release_id q = pid \<and> pending_owned ?s q"
    proof (cases "pid = tok")
      case True
      then show ?thesis using q w by (auto simp: pending_owned_def owner_invariant_Some)
    next
      case False
      then have q': "map_of (al_pending_releases s) pid = Some (o'', q)" using q by simp
      then have "pr_reservation_key q \<noteq> lr_reservation_key r" using pending_at [OF ok] at by force
      then show ?thesis using pending_owns [OF ok q'] by (auto simp: pending_owned_def)
    qed
  next
    fix v a
    assume "map_of (al_verifications ?s) v = Some a"
    then show "map_of (al_verifications s) v = Some a \<and>
        map_of (al_records ?s) (lr_lease_id (snd (lv_lease_record a))) = Some (lv_lease_record a)"
      using verifiedD(2) [OF ok] unverified by auto
  next
    fix j x
    assume x: "map_of (al_reservation_owners ?s) j = Some x"
    show "owner_ok ?s j x"
    proof (cases "j = lr_reservation_key r")
      case True
      then show ?thesis using x by (auto simp: owner_ok_def)
    next
      case False
      then have j: "map_of (al_reservation_owners s) j = Some x" using x by simp
      show ?thesis
      proof (rule owner_ok_keep [OF owner_ok_at [OF ok j]])
        fix l o'' q
        assume "map_of (al_records s) l = Some (o'', q)" "lr_reservation_key q = j"
        then show "map_of (al_records ?s) l = Some (o'', q)" using r(1) False by auto
      qed (use tok in auto)
    qed
  qed simp
  moreover have "dom (map_of (al_reservation_owners ?s)) = dom (map_of (al_reservation_owners s))"
    using w(1) by (auto simp: dom_def)
  ultimately show ?thesis using eq tok by auto
qed

lemma settle_record_fields [simp]:
  "al_pending_releases (settle_record pid p s) = al_pending_releases s"
  "al_verifications (settle_record pid p s) = al_verifications s"
  "al_reservation_owners (settle_record pid p s) = al_reservation_owners s"
  "al_next s \<le> al_next (settle_record pid p s)"
  by (auto simp: settle_record_def split: option.splits)

lemma settle_record_records:
  "map_of (al_records (settle_record pid p s)) l = Some (o', q) \<Longrightarrow>
     map_of (al_records s) l = Some (o', q) \<or>
     (\<exists>o'' r. map_of (al_records s) l = Some (o'', r) \<and> lr_pending_release_id r = Some pid \<and>
        q = revoked_record r)"
  by (auto simp: settle_record_def split: option.splits if_splits)

lemma revoked_record_fields [simp]:
  "lr_state (revoked_record r) = REVOKED" "lr_lease_id (revoked_record r) = lr_lease_id r"
  "lr_lease (revoked_record r) = lr_lease r"
  by (simp_all add: revoked_record_def)

lemma settle_record_keeps:
  "map_of (al_records s) l = Some (o', q) \<Longrightarrow> lr_pending_release_id q \<noteq> Some pid \<Longrightarrow>
     map_of (al_records (settle_record pid p s)) l = Some (o', q)"
  by (auto simp: settle_record_def split: option.splits)

lemma retry_finish_ok:
  assumes ok: "alloc_ok s" and pend: "map_of (al_pending_releases s) pid = Some p"
  shows "\<exists>s'. retry_finish pid p s = (True, s') \<and> alloc_ok s' \<and>
    map_of (al_reservation_owners s') = (map_of (al_reservation_owners s))(pr_reservation_key (snd p) := None) \<and>
    pr_reservation_key (snd p) \<in> dom (map_of (al_reservation_owners s)) \<and>
    al_verifications s' = al_verifications s"
proof -
  obtain o' q where p: "p = (o', q)" by (cases p)
  have owned: "pending_owned s q" "pr_pending_release_id q = pid" using pending_owns [OF ok] pend p by simp_all
  have at: "owner_at s (pr_reservation_key q) = Some (pid, RELEASE_PENDING)" using pending_at [OF ok] pend p by simp
  define s1 where "s1 = drop_active q (s\<lparr>al_pending_releases := AList.delete pid (al_pending_releases s),
             al_reservation_owners := AList.delete (pr_reservation_key q) (al_reservation_owners s)\<rparr>)"
  let ?s = "settle_record pid q s1"
  have eq: "retry_finish pid p s = (True, ?s)"
    using pend owned by (simp add: retry_finish_def p s1_def)
  have s1: "al_records s1 = al_records s" "al_pending_releases s1 = AList.delete pid (al_pending_releases s)"
    "al_verifications s1 = al_verifications s" "al_next s1 = al_next s"
    "al_reservation_owners s1 = AList.delete (pr_reservation_key q) (al_reservation_owners s)"
    by (simp_all add: s1_def)
  have "alloc_ok ?s"
  proof (rule alloc_okI [OF ok])
    fix l o'' r
    assume r: "map_of (al_records ?s) l = Some (o'', r)"
    then show "lr_lease_id r = l \<and> cl_lease_id (snd (lr_lease r)) = l"
      using settle_record_records [OF r] lease_record_ids [OF ok] by (auto simp: s1)
    assume res: "lr_state r = RESERVED"
    then have old: "map_of (al_records s) l = Some (o'', r)" using settle_record_records [OF r] by (auto simp: s1)
    then have "lr_reservation_key r \<noteq> pr_reservation_key q" using reserved_at [OF ok old res] at by auto
    then show "lr_pending_release_id r = None \<and> holds_reservation ?s l r"
      using reserved_holds [OF ok old res] by (simp add: holds_reservation_def s1 delete_conv')
  next
    fix i o'' x
    assume "map_of (al_pending_releases ?s) i = Some (o'', x)"
    then have x: "map_of (al_pending_releases s) i = Some (o'', x)" "i \<noteq> pid"
      by (auto simp: s1 delete_conv' split: if_splits)
    then have "pr_reservation_key x \<noteq> pr_reservation_key q" using pending_at [OF ok x(1)] at by auto
    then show "pr_pending_release_id x = i \<and> pending_owned ?s x"
      using pending_owns [OF ok x(1)] by (auto simp: pending_owned_def s1 delete_conv')
  next
    fix v a
    assume "map_of (al_verifications ?s) v = Some a"
    then have v: "map_of (al_verifications s) v = Some a" by (simp add: s1)
    obtain o'' r where ra: "lv_lease_record a = (o'', r)" by (cases "lv_lease_record a")
    have "map_of (al_records s) (lr_lease_id r) = Some (o'', r)" "lr_state r = RESERVED"
      using verifiedD(2,3) [OF ok v] ra by simp_all
    then have "map_of (al_records ?s) (lr_lease_id r) = Some (o'', r)"
      using reserved_holds [OF ok] by (intro settle_record_keeps) (auto simp: s1)
    then show "map_of (al_verifications s) v = Some a \<and>
        map_of (al_records ?s) (lr_lease_id (snd (lv_lease_record a))) = Some (lv_lease_record a)"
      using v ra by simp
  next
    fix j x
    assume "map_of (al_reservation_owners ?s) j = Some x"
    then have j: "map_of (al_reservation_owners s) j = Some x" "j \<noteq> pr_reservation_key q"
      by (auto simp: s1 delete_conv' split: if_splits)
    show "owner_ok ?s j x"
    proof (rule owner_ok_keep [OF owner_ok_at [OF ok j(1)]])
      fix l o'' r
      assume "map_of (al_records s) l = Some (o'', r)" "lr_state r = RESERVED"
      then show "map_of (al_records ?s) l = Some (o'', r)"
        using reserved_holds [OF ok] by (intro settle_record_keeps) (simp_all add: s1)
    next
      fix i o'' y
      assume y: "map_of (al_pending_releases s) i = Some (o'', y)" "pr_reservation_key y = j"
      then have "i \<noteq> pid" using pend p j(2) by auto
      then show "map_of (al_pending_releases ?s) i = Some (o'', y)" using y by (simp add: s1 delete_conv')
    qed
  qed (use settle_record_fields(4) [of s1 pid q] in \<open>simp add: s1\<close>)
  moreover have "pr_reservation_key q \<in> dom (map_of (al_reservation_owners s))" using at by (auto simp: owner_at_def)
  ultimately show ?thesis using eq by (auto simp: p s1 delete_conv')
qed

subsection \<open>The sections\<close>

definition keeps_pending :: "RuntimeAccountAllocator \<Rightarrow> RuntimeAccountAllocator \<Rightarrow> bool" where
  "keeps_pending s s' \<longleftrightarrow>
     (\<forall>pid q. map_of (al_pending_releases s) pid = Some q \<longrightarrow> map_of (al_pending_releases s') pid = Some q)"

abbreviation owned_keys :: "RuntimeAccountAllocator \<Rightarrow> string set" where
  "owned_keys s \<equiv> dom (map_of (al_reservation_owners s))"

lemma queue_ok:
  assumes "alloc_ok s" and "map_of (al_reservation_owners s) key = None" and "map_of (al_pending_releases s) tok = None"
  shows "\<exists>s'. queue_new_pending_release_locked tok v key t s = (tok, s') \<and> alloc_ok s' \<and> keeps_pending s s' \<and>
    owned_keys s' = insert key (owned_keys s) \<and> al_verifications s' = al_verifications s"
proof -
  let ?wf = "reservation_is_well_formed (snd v)"
  let ?p = "\<lparr>pr_pending_release_id = tok, pr_reservation_key = key, pr_reservation = v,
    pr_active_account_key = (if ?wf then Some (rv_account_binding_digest (snd v)) else None),
    pr_active_key = (if ?wf then Some tok else None), pr_fencing_token = t, pr_lease_id = None\<rparr>"
  let ?w = "\<lparr>ro_reservation_key = key, ro_owner_id = tok, ro_reservation = v, ro_fencing_token = t,
    ro_phase = RELEASE_PENDING, ro_lease_id = None\<rparr>"
  let ?s1 = "s\<lparr>al_pending_releases := AList.update tok (al_next s, ?p) (al_pending_releases s),
    al_reservation_owners := AList.update key ?w (al_reservation_owners s), al_next := al_next s + 1\<rparr>"
  let ?s2 = "if ?wf then set_active (rv_account_binding_digest (snd v)) tok
    (rv_evidence_revision (snd v), rv_lease_revision (snd v)) ?s1 else ?s1"
  have "alloc_ok ?s1" by (rule queued_release_ok [OF assms]) simp_all
  moreover have "queue_new_pending_release_locked tok v key t s = (tok, ?s2)"
    unfolding queue_new_pending_release_locked_def Let_def ..
  moreover have "keeps_pending s ?s2" using assms(3) by (auto simp: keeps_pending_def)
  moreover have "owned_keys ?s2 = insert key (owned_keys s)" by (auto simp: dom_def)
  ultimately show ?thesis by (intro exI [of _ ?s2]) auto
qed

text \<open>A reply is ignored, given back, or granted.\<close>

definition granted_lease :: "string \<Rightarrow> AccountReservation \<Rightarrow> string \<Rightarrow> CredentialLease" where
  "granted_lease adapter_id v lease_tok =
     \<lparr>cl_lease_id = lease_tok, cl_account_binding_digest = rv_account_binding_digest v,
      cl_profile_binding_digest = rv_profile_binding_digest v, cl_provider_adapter_id = adapter_id,
      cl_lease_revision = rv_lease_revision v, cl_expires_at_utc = rv_expires_at_utc v\<rparr>"

definition granted_state ::
  "ValidatedAllocationTicket obj \<Rightarrow> CapacityEvidence obj \<Rightarrow> string \<Rightarrow> AccountReservation obj \<Rightarrow> string \<Rightarrow> string \<Rightarrow>
   string \<Rightarrow> string \<Rightarrow> string \<Rightarrow> string \<Rightarrow> RuntimeAccountAllocator \<Rightarrow> RuntimeAccountAllocator" where
  "granted_state ticket evidence adapter_id v key lease_tok d x o' y s =
     (let n = (ce_evidence_revision (snd evidence), rv_lease_revision (snd v)); account = rv_account_binding_digest (snd v)
      in set_active account lease_tok n
        (s\<lparr>al_records := AList.update lease_tok (al_next s + 1, new_record ticket evidence adapter_id v key
             (al_next s, granted_lease adapter_id (snd v) lease_tok) d x o' y) (al_records s),
           al_reservation_owners := AList.update key
             \<lparr>ro_reservation_key = key, ro_owner_id = lease_tok, ro_reservation = v,
              ro_fencing_token = vt_fencing_token (snd ticket), ro_phase = RESERVED, ro_lease_id = Some lease_tok\<rparr>
             (al_reservation_owners s),
           al_latest_by_account := AList.update account n (al_latest_by_account s), al_next := al_next s + 2\<rparr>))"

lemma bind_cases:
  assumes "reservation_key env v \<notin> set (map fst (al_reservation_owners s))"
  shows "bind_reservation_locked env now lease_tok pending_tok ticket evidence adapter_id (Some v) s =
      (case queue_new_pending_release_locked pending_tok v (reservation_key env v) (vt_fencing_token (snd ticket)) s of
         (pid, s') \<Rightarrow> ((None, Some pid), s')) \<or>
    allocation_binding_invariant env now (snd ticket) (snd evidence) \<and> adapter_id = ce_provider_adapter_id (snd evidence) \<and>
    reservation_matches_evidence (snd v) evidence \<and> \<not> account_exhausted s (snd evidence) (snd v) \<and>
    (\<exists>d x o' y. bind_reservation_locked env now lease_tok pending_tok ticket evidence adapter_id (Some v) s =
      ((Some (al_next s, granted_lease adapter_id (snd v) lease_tok), None),
       granted_state ticket evidence adapter_id v (reservation_key env v) lease_tok d x o' y s))"
  (is "?B = ?back \<or> ?ok")
proof (cases "allocation_binding_invariant env now (snd ticket) (snd evidence) \<and> adapter_id = ce_provider_adapter_id (snd evidence) \<and>
    reservation_matches_evidence (snd v) evidence \<and> \<not> account_exhausted s (snd evidence) (snd v)")
  case False
  then have "?B = ?back" using assms unfolding bind_reservation_locked_def Let_def by auto
  then show ?thesis ..
next
  case True
  let ?texts = "and_then (canonical_resolution_decision_digest (le_sha256 env) (le_dumps env)
      (vt_resolution_decision (snd ticket))) (\<lambda>d. and_then (canonical_utc env (rv_expires_at_utc (snd v))) (\<lambda>x.
      and_then (canonical_utc env (ce_observed_at_utc (snd evidence))) (\<lambda>o'.
      and_then (canonical_utc env (ce_expires_at_utc (snd evidence))) (\<lambda>y. Inr (d, x, o', y)))))"
  have eq: "?B = (case ?texts of Inl _ \<Rightarrow> ?back | Inr (d, x, o', y) \<Rightarrow>
      ((Some (al_next s, granted_lease adapter_id (snd v) lease_tok), None),
       granted_state ticket evidence adapter_id v (reservation_key env v) lease_tok d x o' y s))"
    using True assms unfolding bind_reservation_locked_def granted_state_def granted_lease_def Let_def by simp
  show ?thesis
  proof (cases ?texts)
    case (Inl e)
    then have "?B = ?back" unfolding eq by simp
    then show ?thesis ..
  next
    case (Inr q)
    then show ?thesis unfolding eq using True by (cases q) auto
  qed
qed

lemma bind_ok:
  assumes ok: "alloc_ok s"
    and bind: "bind_reservation_locked env now lease_tok pending_tok ticket evidence adapter_id reply s = (res, s')"
    and fresh: "map_of (al_records s) lease_tok = None" "map_of (al_pending_releases s) pending_tok = None"
  shows "alloc_ok s' \<and> keeps_pending s s' \<and> al_verifications s' = al_verifications s \<and>
    (owned_keys s' = owned_keys s \<or>
     (\<exists>v. reply = Some v \<and> reservation_key env v \<notin> owned_keys s \<and> owned_keys s' = insert (reservation_key env v) (owned_keys s)))"
proof (cases reply)
  case None
  then show ?thesis using ok bind by (simp add: bind_reservation_locked_def keeps_pending_def)
next
  case (Some v)
  define key where "key = reservation_key env v"
  define e where "e = snd evidence"
  show ?thesis
  proof (cases "map_of (al_reservation_owners s) key")
    case (Some w)
    then have "key \<in> set (map fst (al_reservation_owners s))" using map_of_SomeD [OF Some] by force
    then have "s' = s" using bind \<open>reply = Some v\<close> by (simp add: bind_reservation_locked_def Let_def key_def)
    then show ?thesis using ok by (simp add: keeps_pending_def)
  next
    case None
    then have new: "key \<notin> set (map fst (al_reservation_owners s))" by (simp add: map_of_eq_None_iff)
    obtain s1 where s1: "queue_new_pending_release_locked pending_tok v key (vt_fencing_token (snd ticket)) s = (pending_tok, s1)"
      "alloc_ok s1" "keeps_pending s s1" "owned_keys s1 = insert key (owned_keys s)" "al_verifications s1 = al_verifications s"
      using queue_ok [OF ok None fresh(2)] by blast
    have nk: "key \<notin> owned_keys s" using None by auto
    show ?thesis
    proof (cases "s' = s1")
      case True
      then show ?thesis using s1 nk \<open>reply = Some v\<close> by (auto simp: key_def)
    next
      case False
      then obtain d x z y where s': "s' = granted_state ticket evidence adapter_id v key lease_tok d x z y s"
        using bind_cases [of env v s now lease_tok pending_tok ticket evidence adapter_id] bind \<open>reply = Some v\<close> new s1(1)
        by (auto simp: key_def)
      have "alloc_ok s'"
        unfolding s' granted_state_def Let_def set_active_ok by (rule new_lease_ok [OF ok None fresh(1)]) (simp_all add: new_record_def granted_lease_def Let_def)
      moreover have "owned_keys s' = insert key (owned_keys s)" unfolding s' granted_state_def Let_def by (auto simp: dom_def)
      ultimately show ?thesis using nk \<open>reply = Some v\<close> by (auto simp: s' granted_state_def Let_def key_def keeps_pending_def)
    qed
  qed
qed

lemma revoke_locked_ok:
  assumes ok: "alloc_ok s" and rev: "revoke_locked tok lease s = (pid, s')" and tok: "map_of (al_pending_releases s) tok = None"
  shows "alloc_ok s' \<and> keeps_pending s s' \<and> al_verifications s' = al_verifications s \<and> owned_keys s' = owned_keys s"
proof -
  have same: ?thesis if "s' = s" using ok that by (simp add: keeps_pending_def)
  have deferred: ?thesis if "s' = s\<lparr>al_deferred_revokes := d\<rparr>" for d
    using alloc_ok_cong [of s' s] ok that by (simp add: keeps_pending_def)
  show ?thesis
  proof (cases "map_of (al_records s) (cl_lease_id (snd lease))")
    case None
    then show ?thesis using rev same by (simp add: revoke_locked_def)
  next
    case (Some rc)
    show ?thesis
    proof (cases "same_object (lr_lease (snd rc)) lease \<and> lr_state (snd rc) = RESERVED \<and>
        \<not> has_active_lease_binding_verification s rc")
      case True
      have "lr_lease_id (snd (lv_lease_record a)) \<noteq> cl_lease_id (snd lease)" if v: "map_of (al_verifications s) v = Some a" for v a
      proof
        assume "lr_lease_id (snd (lv_lease_record a)) = cl_lease_id (snd lease)"
        then have "lv_lease_record a = rc" using verifiedD(2) [OF ok v] Some by simp
        then have "has_active_lease_binding_verification s rc"
          using map_of_SomeD [OF v] by (auto simp: has_active_lease_binding_verification_def list_ex_iff)
        with True show False by simp
      qed
      with release_transition_ok [OF ok Some _ tok] True Some rev
      show ?thesis by (auto simp: revoke_locked_def keeps_pending_def)
    next
      case False
      then show ?thesis
        using rev Some same deferred by (auto simp: revoke_locked_def split: if_splits LeaseState.splits option.splits)
    qed
  qed
qed

lemma receipt_binding_record:
  "receipt_binding_invariant env now s (Some (o', r)) lease ticket evidence \<Longrightarrow>
     lr_state r = RESERVED \<and> same_object (lr_lease r) lease \<and> cl_lease_id (snd lease) = lr_lease_id r"
  by (simp add: receipt_binding_invariant_def Let_def)

lemma issue_ok:
  assumes ok: "alloc_ok s" and issue: "issue_lease_binding_receipt env now lease ticket evidence s = (res, s')"
  shows "alloc_ok s' \<and> keeps_pending s s' \<and> al_verifications s' = al_verifications s \<and> owned_keys s' = owned_keys s"
proof (cases "s' = s")
  case True
  then show ?thesis using ok by (simp add: keeps_pending_def)
next
  case False
  then obtain o' r c where r: "map_of (al_records s) (cl_lease_id (snd lease)) = Some (o', r)" "lr_receipt r = None"
    "s' = s\<lparr>al_records := AList.update (lr_lease_id r) (al_next s + 1, r\<lparr>lr_receipt := Some c\<rparr>) (al_records s), al_next := al_next s + 2\<rparr>"
    using issue by (auto simp: issue_lease_binding_receipt_def Let_def split: if_splits option.splits)
  have lid: "lr_lease_id r = cl_lease_id (snd lease)" using lease_record_ids [OF ok r(1)] by simp
  have "alloc_ok s'"
  proof (rule alloc_okI [OF ok])
    fix l o'' q
    assume q: "map_of (al_records s') l = Some (o'', q)"
    have old: "\<exists>o0 q0. map_of (al_records s) l = Some (o0, q0) \<and> lr_lease_id q0 = lr_lease_id q \<and> lr_lease q0 = lr_lease q \<and>
        lr_state q0 = lr_state q \<and> lr_pending_release_id q0 = lr_pending_release_id q \<and>
        lr_reservation_key q0 = lr_reservation_key q \<and> lr_reservation q0 = lr_reservation q \<and>
        lr_fencing_token q0 = lr_fencing_token q"
      using q r lid by (auto split: if_splits)
    then show "lr_lease_id q = l \<and> cl_lease_id (snd (lr_lease q)) = l" using lease_record_ids [OF ok] by fastforce
    assume "lr_state q = RESERVED"
    then show "lr_pending_release_id q = None \<and> holds_reservation s' l q"
      using old reserved_holds [OF ok] by (fastforce simp: holds_reservation_def r(3))
  next
    fix pid o'' q
    assume "map_of (al_pending_releases s') pid = Some (o'', q)"
    then have "pending_owned s q \<and> pr_pending_release_id q = pid" using pending_owns [OF ok] by (simp add: r(3))
    then show "pr_pending_release_id q = pid \<and> pending_owned s' q" by (auto simp: pending_owned_def r(3))
  next
    fix v a
    assume "map_of (al_verifications s') v = Some a"
    then have v: "map_of (al_verifications s) v = Some a" by (simp add: r(3))
    then have "lr_lease_id (snd (lv_lease_record a)) \<noteq> lr_lease_id r"
      using verifiedD(2,4) [OF ok v] r(1,2) lid by (metis option.sel snd_conv)
    then show "map_of (al_verifications s) v = Some a \<and>
        map_of (al_records s') (lr_lease_id (snd (lv_lease_record a))) = Some (lv_lease_record a)"
      using v verifiedD(2) [OF ok v] by (simp add: r(3))
  next
    fix k w
    assume "map_of (al_reservation_owners s') k = Some w"
    then have "owner_ok s k w" using owner_ok_at [OF ok] by (simp add: r(3))
    moreover have "\<exists>o2 q2. map_of (al_records s') l = Some (o2, q2) \<and> lr_state q2 = lr_state q \<and> lr_reservation_key q2 = lr_reservation_key q"
      if "map_of (al_records s) l = Some (o1, q)" for l o1 q
      using that r lid by (cases "l = cl_lease_id (snd lease)") auto
    ultimately show "owner_ok s' k w" unfolding owner_ok_def by (cases "ro_phase w") (simp, metis, simp add: r(3), simp)
  qed (simp add: r(3))
  then show ?thesis by (simp add: r(3) keeps_pending_def)
qed

lemma parts_ok_cong:
  assumes "al_records s' = al_records s" "al_pending_releases s' = al_pending_releases s"
    "al_reservation_owners s' = al_reservation_owners s"
  shows "lease_records_ok s' \<longleftrightarrow> lease_records_ok s" "pending_ok s' \<longleftrightarrow> pending_ok s" "owners_ok s' \<longleftrightarrow> owners_ok s"
  unfolding lease_records_ok_def pending_ok_def owners_ok_def owner_ok_def holds_reservation_def pending_owned_def assms by auto

lemma verify_ok:
  assumes ok: "alloc_ok s" and verify: "verify_lease_binding_receipt env now receipt lease ticket evidence s = (res, s')"
  shows "alloc_ok s' \<and> keeps_pending s s' \<and> owned_keys s' = owned_keys s"
proof (cases "s' = s")
  case True
  then show ?thesis using ok by (simp add: keeps_pending_def)
next
  case False
  then obtain o' r f where r: "map_of (al_records s) (cl_lease_id (snd lease)) = Some (o', r)" "lr_receipt r \<noteq> None"
      "lr_state r = RESERVED" "\<not> has_active_lease_binding_verification s (o', r)"
    and s': "s' = s\<lparr>al_verifications := AList.update (al_next s)
       \<lparr>lv_verification = al_next s, lv_lease_record = (o', r), lv_receipt = receipt, lv_lease = lease,
        lv_ticket = ticket, lv_capacity_evidence = evidence, lv_binding_reference = f\<rparr> (al_verifications s), al_next := al_next s + 1\<rparr>"
    using verify by (auto simp: verify_lease_binding_receipt_def split: if_splits option.splits sum.splits)
  have lid: "lr_lease_id r = cl_lease_id (snd lease)" using lease_record_ids [OF ok r(1)] by simp
  have other: "lr_lease_id (snd (lv_lease_record a)) \<noteq> lr_lease_id r" if v: "map_of (al_verifications s) v = Some a" for v a
  proof
    assume "lr_lease_id (snd (lv_lease_record a)) = lr_lease_id r"
    then have "lv_lease_record a = (o', r)" using verifiedD(2) [OF ok v] r(1) lid by simp
    then have "has_active_lease_binding_verification s (o', r)"
      using map_of_SomeD [OF v] by (force simp: has_active_lease_binding_verification_def list_ex_iff)
    with r(4) show False by simp
  qed
  have "verifications_ok s'"
    unfolding verifications_ok_def
  proof (intro conjI allI impI)
    fix v a
    assume "map_of (al_verifications s') v = Some a"
    then show "verification_ok s' v a"
      using verifiedD [OF ok, of v a] r lid by (auto simp: s' verification_ok_def split: if_splits)
  next
    fix v a w b
    assume "map_of (al_verifications s') v = Some a" "map_of (al_verifications s') w = Some b"
      "lr_lease_id (snd (lv_lease_record a)) = lr_lease_id (snd (lv_lease_record b))"
    then show "v = w" using other [of v a] other [of w b] verified_once [OF ok, of v a w b] by (auto simp: s' split: if_splits)
  qed
  moreover have "lease_records_ok s'" "pending_ok s'" "owners_ok s'"
    using ok parts_ok_cong [of s' s] unfolding alloc_ok_def by (simp_all add: s')
  ultimately show ?thesis by (simp add: alloc_ok_def s' keeps_pending_def)
qed

lemma dropped_verification_ok:
  assumes ok: "alloc_ok s"
  shows "alloc_ok (s\<lparr>al_verifications := AList.delete v (al_verifications s), al_deferred_revokes := d\<rparr>)" (is "alloc_ok ?s")
proof -
  have "verifications_ok ?s"
    using ok unfolding alloc_ok_def verifications_ok_def verification_ok_def by (auto simp: delete_conv' split: if_splits)
  moreover have "lease_records_ok ?s" "pending_ok ?s" "owners_ok ?s"
    using ok parts_ok_cong [of ?s s] unfolding alloc_ok_def by simp_all
  ultimately show ?thesis by (simp add: alloc_ok_def)
qed

lemma close_locked_cases:
  assumes close: "close_locked env now tok v s = (res, s')" and a: "map_of (al_verifications s) v = Some a"
  shows "\<exists>d. s' = s\<lparr>al_verifications := AList.delete v (al_verifications s), al_deferred_revokes := d\<rparr> \<or>
      s' = snd (transition_lease_release_locked tok (lv_lease_record a)
        (s\<lparr>al_verifications := AList.delete v (al_verifications s), al_deferred_revokes := d\<rparr>))" (is "\<exists>d. ?P d")
proof -
  have "s\<lparr>al_verifications := x\<rparr> = s\<lparr>al_verifications := x, al_deferred_revokes := al_deferred_revokes s\<rparr>" for x by simp
  then have "?P (AList.delete (lr_lease_id (snd (lv_lease_record a))) (al_deferred_revokes s)) \<or> ?P (al_deferred_revokes s)"
    using close a unfolding close_locked_def Let_def by (auto split: if_splits prod.splits)
  then show ?thesis by blast
qed

lemma close_locked_ok:
  assumes ok: "alloc_ok s" and close: "close_locked env now tok v s = (res, s')" and tok: "map_of (al_pending_releases s) tok = None"
  shows "alloc_ok s' \<and> keeps_pending s s' \<and> owned_keys s' = owned_keys s \<and>
    (\<forall>w a. map_of (al_verifications s') w = Some a \<longrightarrow> map_of (al_verifications s) w = Some a \<and> w \<noteq> v)"
proof (cases "map_of (al_verifications s) v")
  case None
  then show ?thesis using ok close by (auto simp: close_locked_def keeps_pending_def)
next
  case (Some a)
  let ?rec = "lv_lease_record a"
  have mem: "map_of (al_records s) (lr_lease_id (snd ?rec)) = Some ?rec" "lr_state (snd ?rec) = RESERVED"
    using verifiedD [OF ok Some] by simp_all
  obtain d where step: "s' = s\<lparr>al_verifications := AList.delete v (al_verifications s), al_deferred_revokes := d\<rparr> \<or>
      s' = snd (transition_lease_release_locked tok ?rec (s\<lparr>al_verifications := AList.delete v (al_verifications s), al_deferred_revokes := d\<rparr>))"
    using close_locked_cases [OF close Some] by blast
  let ?s = "s\<lparr>al_verifications := AList.delete v (al_verifications s), al_deferred_revokes := d\<rparr>"
  have ok1: "alloc_ok ?s" by (rule dropped_verification_ok [OF ok])
  have vers: "map_of (al_verifications ?s) w = Some b \<Longrightarrow> map_of (al_verifications s) w = Some b \<and> w \<noteq> v" for w b
    by (auto simp: delete_conv' split: if_splits)
  have "lr_lease_id (snd (lv_lease_record b)) \<noteq> lr_lease_id (snd ?rec)" if "map_of (al_verifications ?s) w = Some b" for w b
    using verified_once [OF ok _ Some] vers [OF that] by blast
  then obtain s2 where "transition_lease_release_locked tok ?rec ?s = (Some tok, s2)" "alloc_ok s2"
    "owned_keys s2 = owned_keys ?s" "al_verifications s2 = al_verifications ?s"
    "\<forall>pid q. map_of (al_pending_releases ?s) pid = Some q \<longrightarrow> map_of (al_pending_releases s2) pid = Some q"
    using release_transition_ok [OF ok1, of "lr_lease_id (snd ?rec)" ?rec tok] mem tok by auto
  then have "alloc_ok s' \<and> keeps_pending s s' \<and> owned_keys s' = owned_keys s \<and> al_verifications s' = al_verifications ?s"
    using step ok1 by (auto simp: keeps_pending_def)
  then show ?thesis using vers by metis
qed

subsection \<open>All interleavings\<close>

text \<open>
  The allocator with its calls in flight: the release lock, held by at most one retry (with its
  pending release, and whether the adapter has confirmed it), the keys of the reservations that were
  taken over, and the keys of those that the adapter has released. Tokens that are drawn are not in use.
\<close>

record alloc_sys =
  sy_alloc :: RuntimeAccountAllocator
  sy_release :: "(string \<times> PendingRelease obj \<times> bool) option"
  sy_taken :: "string list"
  sy_released :: "string list"

definition sys_init :: alloc_sys where
  "sys_init = \<lparr>sy_alloc = RuntimeAccountAllocator_init, sy_release = None, sy_taken = [], sy_released = []\<rparr>"

definition taken_by :: "alloc_env \<Rightarrow> AccountReservation obj option \<Rightarrow> RuntimeAccountAllocator \<Rightarrow> RuntimeAccountAllocator \<Rightarrow> string list" where
  "taken_by env reply s s' =
     (case reply of
        None \<Rightarrow> []
      | Some v \<Rightarrow> if reservation_key env v \<in> owned_keys s' - owned_keys s then [reservation_key env v] else [])"

inductive alloc_step :: "alloc_env \<Rightarrow> alloc_sys \<Rightarrow> alloc_sys \<Rightarrow> bool" for env where
  bind: "bind_reservation_locked env now lease_tok pending_tok ticket evidence adapter_id reply (sy_alloc y) = (res, s') \<Longrightarrow>
    map_of (al_records (sy_alloc y)) lease_tok = None \<Longrightarrow> map_of (al_pending_releases (sy_alloc y)) pending_tok = None \<Longrightarrow>
    alloc_step env y (y\<lparr>sy_alloc := s', sy_taken := taken_by env reply (sy_alloc y) s' @ sy_taken y\<rparr>)"
| revoke: "revoke_locked tok lease (sy_alloc y) = (pid, s') \<Longrightarrow> map_of (al_pending_releases (sy_alloc y)) tok = None \<Longrightarrow>
    alloc_step env y (y\<lparr>sy_alloc := s'\<rparr>)"
| issue: "issue_lease_binding_receipt env now lease ticket evidence (sy_alloc y) = (res, s') \<Longrightarrow>
    alloc_step env y (y\<lparr>sy_alloc := s'\<rparr>)"
| verify: "verify_lease_binding_receipt env now receipt lease ticket evidence (sy_alloc y) = (res, s') \<Longrightarrow>
    alloc_step env y (y\<lparr>sy_alloc := s'\<rparr>)"
| close: "close_locked env now tok v (sy_alloc y) = (res, s') \<Longrightarrow> map_of (al_pending_releases (sy_alloc y)) tok = None \<Longrightarrow>
    alloc_step env y (y\<lparr>sy_alloc := s'\<rparr>)"
| retry: "sy_release y = None \<Longrightarrow> retry_begin pid (sy_alloc y) = Inr p \<Longrightarrow>
    alloc_step env y (y\<lparr>sy_release := Some (pid, p, False)\<rparr>)"
| refused: "sy_release y = Some (pid, p, False) \<Longrightarrow> alloc_step env y (y\<lparr>sy_release := None\<rparr>)"
| released: "sy_release y = Some (pid, p, False) \<Longrightarrow>
    alloc_step env y (y\<lparr>sy_release := Some (pid, p, True), sy_released := pr_reservation_key (snd p) # sy_released y\<rparr>)"
| finish: "sy_release y = Some (pid, p, True) \<Longrightarrow> retry_finish pid p (sy_alloc y) = (b, s') \<Longrightarrow>
    alloc_step env y (y\<lparr>sy_alloc := s', sy_release := None\<rparr>)"

inductive_cases alloc_stepE: "alloc_step env y y'"

definition in_release :: "alloc_sys \<Rightarrow> string \<Rightarrow> bool" where
  "in_release y k \<longleftrightarrow> (\<exists>pid p. sy_release y = Some (pid, p, True) \<and> pr_reservation_key (snd p) = k)"

definition sys_ok :: "alloc_sys \<Rightarrow> bool" where
  "sys_ok y \<longleftrightarrow> alloc_ok (sy_alloc y) \<and>
     (\<forall>pid p b. sy_release y = Some (pid, p, b) \<longrightarrow> map_of (al_pending_releases (sy_alloc y)) pid = Some p) \<and>
     (\<forall>k. count_list (sy_taken y) k + (if in_release y k then 1 else 0) =
        count_list (sy_released y) k + (if k \<in> owned_keys (sy_alloc y) then 1 else 0))"

lemma sys_ok_init: "sys_ok sys_init"
  by (simp add: sys_ok_def sys_init_def alloc_ok_init in_release_def) (simp add: RuntimeAccountAllocator_init_def)

lemma sys_ok_change:
  assumes "sys_ok y" and "alloc_ok s'" and "keeps_pending (sy_alloc y) s'"
    and taken: "\<And>k. count_list xs k + (if k \<in> owned_keys (sy_alloc y) then 1 else 0) = (if k \<in> owned_keys s' then 1 else 0)"
  shows "sys_ok (y\<lparr>sy_alloc := s', sy_taken := xs @ sy_taken y\<rparr>)"
  unfolding sys_ok_def
proof (intro conjI allI impI)
  fix k
  have "count_list (sy_taken y) k + (if in_release y k then 1 else 0) =
      count_list (sy_released y) k + (if k \<in> owned_keys (sy_alloc y) then 1 else 0)"
    using assms(1) unfolding sys_ok_def by blast
  then show "count_list (sy_taken (y\<lparr>sy_alloc := s', sy_taken := xs @ sy_taken y\<rparr>)) k +
      (if in_release (y\<lparr>sy_alloc := s', sy_taken := xs @ sy_taken y\<rparr>) k then 1 else 0) =
      count_list (sy_released (y\<lparr>sy_alloc := s', sy_taken := xs @ sy_taken y\<rparr>)) k +
      (if k \<in> owned_keys (sy_alloc (y\<lparr>sy_alloc := s', sy_taken := xs @ sy_taken y\<rparr>)) then 1 else 0)"
    using taken [of k] by (simp add: in_release_def del: domIff)
qed (use assms in \<open>auto simp: sys_ok_def keeps_pending_def\<close>)

lemma sys_ok_internal:
  assumes "sys_ok y" and "alloc_ok s'" and "keeps_pending (sy_alloc y) s'" and "owned_keys s' = owned_keys (sy_alloc y)"
  shows "sys_ok (y\<lparr>sy_alloc := s'\<rparr>)"
  using sys_ok_change [OF assms(1-3), of "[]"] assms(4) by simp

lemma sys_ok_step:
  assumes "alloc_step env y y'" and "sys_ok y"
  shows "sys_ok y'"
proof -
  have ok: "alloc_ok (sy_alloc y)" using assms(2) by (simp add: sys_ok_def)
  from assms(1) show ?thesis
  proof cases
    case (bind now lease_tok pending_tok ticket evidence adapter_id reply res s')
    note b = bind_ok [OF ok bind(2,3,4)]
    have "count_list (taken_by env reply (sy_alloc y) s') k + (if k \<in> owned_keys (sy_alloc y) then 1 else 0) =
        (if k \<in> owned_keys s' then 1 else 0)" for k
    proof -
      from b consider "owned_keys s' = owned_keys (sy_alloc y)"
        | v where "reply = Some v" "reservation_key env v \<notin> owned_keys (sy_alloc y)"
            "owned_keys s' = insert (reservation_key env v) (owned_keys (sy_alloc y))"
        by blast
      then show ?thesis unfolding taken_by_def by cases (simp split: option.split, simp, blast)
    qed
    then show ?thesis using sys_ok_change [OF assms(2)] b unfolding bind(1) by blast
  next
    case (retry pid p)
    then show ?thesis using assms(2) by (auto simp: sys_ok_def in_release_def split: option.splits if_splits)
  next
    case (refused pid p)
    then show ?thesis using assms(2) by (simp add: sys_ok_def in_release_def)
  next
    case (released pid p)
    then show ?thesis using assms(2) by (auto simp: sys_ok_def in_release_def split: if_splits)
  next
    case (finish pid p b s')
    have ok: "alloc_ok (sy_alloc y)" "map_of (al_pending_releases (sy_alloc y)) pid = Some p"
      using assms(2) finish(2) unfolding sys_ok_def by blast+
    show ?thesis
      using retry_finish_ok [OF ok] assms(2) finish by (auto simp: sys_ok_def in_release_def split: if_splits)
  next
    case (revoke tok lease pid s')
    show ?thesis unfolding revoke(1) using revoke_locked_ok [OF ok revoke(2,3)] by (intro sys_ok_internal [OF assms(2)]) simp_all
  next
    case (issue now lease ticket evidence res s')
    show ?thesis unfolding issue(1) using issue_ok [OF ok issue(2)] by (intro sys_ok_internal [OF assms(2)]) simp_all
  next
    case (verify now receipt lease ticket evidence res s')
    show ?thesis unfolding verify(1) using verify_ok [OF ok verify(2)] by (intro sys_ok_internal [OF assms(2)]) simp_all
  next
    case (close now tok v res s')
    show ?thesis unfolding close(1) using close_locked_ok [OF ok close(2,3)] by (intro sys_ok_internal [OF assms(2)]) simp_all
  qed
qed

end
