(* ===== verification/Lease_Properties.thy ===== *)
theory Lease_Properties
  imports Allocator_Properties
begin

text \<open>
  What the account allocator guarantees in every state that its sections reach in any order: verified
  leases are held, reservations are given back exactly once, and allocations keep to the capacity.
\<close>

lemma reachable_ok: "(alloc_step env)\<^sup>*\<^sup>* sys_init y \<Longrightarrow> sys_ok y"
  by (induction rule: rtranclp_induct) (auto intro: sys_ok_init sys_ok_step)

lemma sys_okD:
  assumes "sys_ok y"
  shows "alloc_ok (sy_alloc y)"
    and "sy_release y = Some (pid, p, b) \<Longrightarrow> map_of (al_pending_releases (sy_alloc y)) pid = Some p"
    and "count_list (sy_taken y) k + (if in_release y k then 1 else 0) =
      count_list (sy_released y) k + (if k \<in> owned_keys (sy_alloc y) then 1 else 0)"
  using assms unfolding sys_ok_def by blast+

lemma in_release_pending: "sys_ok y \<Longrightarrow> in_release y k \<Longrightarrow> \<exists>pid. owner_at (sy_alloc y) k = Some (pid, RELEASE_PENDING)"
  unfolding in_release_def using pending_at sys_okD(1,2) by (metis prod.collapse)

lemma owner_at_owned: "owner_at s k = Some x \<Longrightarrow> k \<in> owned_keys s"
  by (auto simp: owner_at_def)

lemma length_AList_update: "length (AList.update k v al) \<le> Suc (length al)"
  by (induction al) auto

lemma verified_held:
  assumes ok: "sys_ok y" and "map_of (al_verifications (sy_alloc y)) v = Some a"
  shows "let r = snd (lv_lease_record a); k = lr_reservation_key r
    in map_of (al_records (sy_alloc y)) (lr_lease_id r) = Some (lv_lease_record a) \<and> lr_state r = RESERVED \<and>
       owner_at (sy_alloc y) k = Some (lr_lease_id r, RESERVED) \<and> \<not> in_release y k \<and>
       count_list (sy_taken y) k = Suc (count_list (sy_released y) k)"
proof -
  let ?r = "snd (lv_lease_record a)"
  have rec: "map_of (al_records (sy_alloc y)) (lr_lease_id ?r) = Some (lv_lease_record a)" "lr_state ?r = RESERVED"
    using verifiedD [OF sys_okD(1) [OF ok] assms(2)] by blast+
  then have own: "owner_at (sy_alloc y) (lr_reservation_key ?r) = Some (lr_lease_id ?r, RESERVED)"
    using reserved_at [OF sys_okD(1) [OF ok]] by (metis prod.collapse)
  moreover from this have "\<not> in_release y (lr_reservation_key ?r)" using in_release_pending [OF ok] by fastforce
  ultimately show ?thesis
    using sys_okD(3) [OF ok, of "lr_reservation_key ?r"] owner_at_owned [OF own] rec by (simp add: Let_def)
qed

text \<open>
  C24. As long as a verification of a lease is open, in every interleaving of allocations, revocations,
  receipts, verifications, closings and releases, the verified record is the current record of its
  lease, it is reserved and owns its reservation, no release of it is under way, and the adapter has
  been asked for one release fewer than there were reservations under its key.
\<close>

theorem verified_lease_held:
  assumes "(alloc_step env)\<^sup>*\<^sup>* sys_init y" and "map_of (al_verifications (sy_alloc y)) v = Some a"
  shows "let r = snd (lv_lease_record a); k = lr_reservation_key r
    in map_of (al_records (sy_alloc y)) (lr_lease_id r) = Some (lv_lease_record a) \<and> lr_state r = RESERVED \<and>
       owner_at (sy_alloc y) k = Some (lr_lease_id r, RESERVED) \<and> \<not> in_release y k \<and>
       count_list (sy_taken y) k = Suc (count_list (sy_released y) k)"
  using verified_held [OF reachable_ok [OF assms(1)] assms(2)] .

text \<open>Who holds a key: a reserved lease, or a pending release.\<close>

definition holder :: "RuntimeAccountAllocator \<Rightarrow> string \<Rightarrow> string + string \<Rightarrow> bool" where
  "holder s k h =
     (case h of
        Inl lid \<Rightarrow> (case map_of (al_records s) lid of
                      None \<Rightarrow> False | Some r \<Rightarrow> lr_state (snd r) = RESERVED \<and> lr_reservation_key (snd r) = k)
      | Inr pid \<Rightarrow> (case map_of (al_pending_releases s) pid of None \<Rightarrow> False | Some p \<Rightarrow> pr_reservation_key (snd p) = k))"

lemma holder_owns:
  assumes "alloc_ok s" and "holder s k h"
  shows "owner_at s k = Some (case h of Inl lid \<Rightarrow> (lid, RESERVED) | Inr pid \<Rightarrow> (pid, RELEASE_PENDING))"
  using assms(2) reserved_at [OF assms(1)] pending_at [OF assms(1)]
  by (auto simp: holder_def split: sum.splits option.splits)

lemma holder_unique: "alloc_ok s \<Longrightarrow> holder s k g \<Longrightarrow> holder s k h \<Longrightarrow> g = h"
  using holder_owns [of s k g] holder_owns [of s k h] by (simp split: sum.splits)

lemma owned_holder:
  assumes "owner_ok s k w"
  shows "\<exists>h. holder s k h"
proof (cases "ro_phase w")
  case RESERVED
  then obtain lid o' r where "map_of (al_records s) lid = Some (o', r)" "lr_state r = RESERVED" "lr_reservation_key r = k"
    using assms by (auto simp: owner_ok_def)
  then have "holder s k (Inl lid)" by (simp add: holder_def)
  then show ?thesis ..
next
  case RELEASE_PENDING
  then obtain pid o' p where "map_of (al_pending_releases s) pid = Some (o', p)" "pr_reservation_key p = k"
    using assms by (auto simp: owner_ok_def)
  then have "holder s k (Inr pid)" by (simp add: holder_def)
  then show ?thesis ..
qed (use assms in \<open>simp add: owner_ok_def\<close>)

text \<open>
  C8. In every interleaving: a reservation that has been taken over is either still owned or has been
  released through the adapter, and released once per taking over: apart from a release that the
  adapter has confirmed and that is not settled yet, the number of times a key was taken over is the
  number of its releases, plus one while it is owned. A confirmed release is always settled. An owned
  key is held by a reserved lease or by a pending release, and by one of them only.
\<close>

theorem reservations_released_once:
  assumes "(alloc_step env)\<^sup>*\<^sup>* sys_init y"
  shows "count_list (sy_taken y) k + (if in_release y k then 1 else 0) =
      count_list (sy_released y) k + (if k \<in> owned_keys (sy_alloc y) then 1 else 0) \<and>
    (\<forall>pid p b. sy_release y = Some (pid, p, b) \<longrightarrow> fst (retry_finish pid p (sy_alloc y))) \<and>
    (k \<in> owned_keys (sy_alloc y) \<longleftrightarrow> (\<exists>!h. holder (sy_alloc y) k h))"
proof (intro conjI allI impI)
  have ok: "sys_ok y" by (rule reachable_ok [OF assms(1)])
  note aok = sys_okD(1) [OF ok]
  show "count_list (sy_taken y) k + (if in_release y k then 1 else 0) =
      count_list (sy_released y) k + (if k \<in> owned_keys (sy_alloc y) then 1 else 0)"
    by (rule sys_okD(3) [OF ok])
  show "fst (retry_finish pid p (sy_alloc y))" if "sy_release y = Some (pid, p, b)" for pid p b
    using retry_finish_ok [OF aok sys_okD(2) [OF ok that]] by auto
  show "k \<in> owned_keys (sy_alloc y) \<longleftrightarrow> (\<exists>!h. holder (sy_alloc y) k h)"
  proof
    assume "k \<in> owned_keys (sy_alloc y)"
    then obtain w where w: "map_of (al_reservation_owners (sy_alloc y)) k = Some w" by blast
    have "\<exists>h. holder (sy_alloc y) k h" by (rule owned_holder [OF owner_ok_at [OF aok w]])
    then show "\<exists>!h. holder (sy_alloc y) k h" using holder_unique [OF aok] by blast
  next
    assume "\<exists>!h. holder (sy_alloc y) k h"
    then show "k \<in> owned_keys (sy_alloc y)" using holder_owns [OF aok] owner_at_owned by blast
  qed
qed

subsection \<open>Allocation\<close>

text \<open>The leases and pending releases that count against an account.\<close>

definition active_on :: "RuntimeAccountAllocator \<Rightarrow> string \<Rightarrow> (string, int \<times> int) dict" where
  "active_on s account = (case map_of (al_active_by_account s) account of None \<Rightarrow> [] | Some d \<Rightarrow> d)"

lemma active_on_granted [simp]:
  "active_on (granted_state ticket evidence adapter_id v key tok d x o' y s) (rv_account_binding_digest (snd v)) =
     AList.update tok (ce_evidence_revision (snd evidence), rv_lease_revision (snd v))
       (active_on s (rv_account_binding_digest (snd v)))"
  by (simp add: active_on_def granted_state_def set_active_def Let_def)

lemma binding_units:
  assumes "allocation_binding_invariant env now t e"
  obtains n where "units_left e = Some n" "0 < n"
  using assms by (auto simp: allocation_binding_invariant_def positive_def units_left_def split: option.splits)

lemma not_exhausted_room:
  assumes "\<not> account_exhausted s e v" and "units_left e = Some n" and "0 < n"
  shows "int (length (active_on s (rv_account_binding_digest v))) < n"
  using assms by (auto simp: account_exhausted_def active_on_def split: option.splits)

lemma allocate_granted:
  assumes "allocate env ad now1 now2 tok pending_tok ticket evidence s = (Inr lease, s')"
  obtains v d x o' y where "ad_reserve ad (vt_capability_binding_digest (snd ticket)) evidence = Inr (Some v)"
    "allocation_binding_invariant env now2 (snd ticket) (snd evidence)" "reservation_matches_evidence (snd v) evidence"
    "\<not> account_exhausted s (snd evidence) (snd v)" "reservation_key env v \<notin> owned_keys s"
    "lease = (al_next s, granted_lease (ce_provider_adapter_id (snd evidence)) (snd v) tok)"
    "s' = granted_state ticket evidence (ce_provider_adapter_id (snd evidence)) v (reservation_key env v) tok d x o' y s"
proof -
  obtain adapter_id reply pid s1 where ad: "ad_reserve ad (vt_capability_binding_digest (snd ticket)) evidence = Inr reply"
    and b: "bind_reservation_locked env now2 tok pending_tok ticket evidence adapter_id reply s = ((Some lease, pid), s1)"
    and s': "s' = retry_if (ad_release ad) pid s1"
    using assms unfolding allocate_def by (auto split: if_splits sum.splits prod.splits option.splits)
  obtain v where v: "reply = Some v" using b by (cases reply) (simp_all add: bind_reservation_locked_def)
  have new: "reservation_key env v \<notin> set (map fst (al_reservation_owners s))"
    using b unfolding v bind_reservation_locked_def Let_def by (auto split: if_splits)
  then have "reservation_key env v \<notin> owned_keys s" by (simp add: dom_map_of_conv_image_fst)
  moreover obtain d x o' y where "allocation_binding_invariant env now2 (snd ticket) (snd evidence)"
      "adapter_id = ce_provider_adapter_id (snd evidence)" "reservation_matches_evidence (snd v) evidence"
      "\<not> account_exhausted s (snd evidence) (snd v)" "lease = (al_next s, granted_lease adapter_id (snd v) tok)" "pid = None"
      "s1 = granted_state ticket evidence adapter_id v (reservation_key env v) tok d x o' y s"
    using bind_cases [OF new, of now2 tok pending_tok ticket evidence adapter_id] b unfolding v by (auto split: prod.splits)
  ultimately show thesis using that [of v d x o' y] ad s' v by (simp add: retry_if_def)
qed

text \<open>
  C19. An allocation that succeeds rests on evidence that is valid for the ticket when the reply is
  bound, observed before and not expired; the reservation is new and expires with the evidence; the
  lease is recorded as reserved under a key of its own; with it the account has at most as many active
  leases and pending releases as the least of the four units of the evidence; and the revisions of the
  evidence and of the lease are above the latest ones of the account.
\<close>

theorem allocation_within_capacity:
  assumes "allocate env ad now1 now2 tok pending_tok ticket evidence s = (Inr lease, s')"
  shows "let e = snd evidence; account = cl_account_binding_digest (snd lease)
    in (\<exists>n. units_left e = Some n \<and> int (length (active_on s' account)) \<le> n) \<and>
       (\<forall>a b. map_of (al_latest_by_account s) account = Some (a, b) \<longrightarrow> a < ce_evidence_revision e \<and> b < cl_lease_revision (snd lease)) \<and>
       map_of (al_latest_by_account s') account = Some (ce_evidence_revision e, cl_lease_revision (snd lease)) \<and>
       instant (ce_observed_at_utc e) \<le> instant now2 \<and> instant now2 \<le> instant (ce_expires_at_utc e) \<and>
       instant (cl_expires_at_utc (snd lease)) = instant (ce_expires_at_utc e) \<and> ce_ticket_id e = vt_ticket_id (snd ticket) \<and>
       (\<exists>o' r. map_of (al_records s') tok = Some (o', r) \<and> lr_lease r = lease \<and> lr_state r = RESERVED \<and>
          owner_at s (lr_reservation_key r) = None \<and> owner_at s' (lr_reservation_key r) = Some (tok, RESERVED))"
proof -
  obtain v d x o' y where g: "allocation_binding_invariant env now2 (snd ticket) (snd evidence)"
    "reservation_matches_evidence (snd v) evidence" "\<not> account_exhausted s (snd evidence) (snd v)"
    "reservation_key env v \<notin> owned_keys s" "lease = (al_next s, granted_lease (ce_provider_adapter_id (snd evidence)) (snd v) tok)"
    "s' = granted_state ticket evidence (ce_provider_adapter_id (snd evidence)) v (reservation_key env v) tok d x o' y s"
    using allocate_granted [OF assms] by metis
  obtain n where n: "units_left (snd evidence) = Some n" "0 < n" using binding_units [OF g(1)] .
  have acc: "cl_account_binding_digest (snd lease) = rv_account_binding_digest (snd v)" "cl_lease_revision (snd lease) = rv_lease_revision (snd v)"
      "cl_expires_at_utc (snd lease) = rv_expires_at_utc (snd v)" by (simp_all add: g(5) granted_lease_def)
  have "int (length (active_on s' (rv_account_binding_digest (snd v)))) \<le> n"
    using not_exhausted_room [OF g(3) n]
      length_AList_update [of tok "(ce_evidence_revision (snd evidence), rv_lease_revision (snd v))" "active_on s (rv_account_binding_digest (snd v))"]
    unfolding g(6) active_on_granted by linarith
  moreover have "a < ce_evidence_revision (snd evidence) \<and> b < rv_lease_revision (snd v)"
    if "map_of (al_latest_by_account s) (rv_account_binding_digest (snd v)) = Some (a, b)" for a b
    using g(3) that by (simp add: account_exhausted_def)
  moreover have "\<exists>o' r. map_of (al_records s') tok = Some (o', r) \<and> lr_lease r = lease \<and> lr_state r = RESERVED \<and>
      owner_at s (lr_reservation_key r) = None \<and> owner_at s' (lr_reservation_key r) = Some (tok, RESERVED)"
    using g(4) by (auto simp: g(5,6) granted_state_def new_record_def owner_at_def Let_def)
  moreover have "map_of (al_latest_by_account s') (rv_account_binding_digest (snd v)) =
      Some (ce_evidence_revision (snd evidence), rv_lease_revision (snd v))"
    by (simp add: g(6) granted_state_def Let_def)
  moreover have "instant (ce_observed_at_utc (snd evidence)) \<le> instant now2" "instant now2 \<le> instant (ce_expires_at_utc (snd evidence))"
      "ce_ticket_id (snd evidence) = vt_ticket_id (snd ticket)"
    using g(1) unfolding allocation_binding_invariant_def prod.inject by blast+
  moreover have "instant (rv_expires_at_utc (snd v)) = instant (ce_expires_at_utc (snd evidence))"
    using g(2) by (simp add: reservation_matches_evidence_def)
  ultimately show ?thesis using n(1) unfolding Let_def acc by blast
qed

subsection \<open>Closing an outdated verification\<close>

lemma expired_not_current:
  "active_verification_invariant env now s a \<Longrightarrow> instant now \<le> instant (ce_expires_at_utc (snd (lv_capacity_evidence a)))"
  by (simp add: active_verification_invariant_def receipt_binding_invariant_def allocation_binding_invariant_def Let_def split_beta)

text \<open>
  Closing a verification whose evidence has expired is denied and gives nothing back: the
  verification is gone, a revocation of the lease that was deferred to the closing is dropped with it,
  and the lease stays reserved with its reservation, with no pending release.
\<close>

theorem expired_close_keeps_lease:
  assumes "(alloc_step env)\<^sup>*\<^sup>* sys_init y" and "map_of (al_verifications (sy_alloc y)) v = Some a"
    and "map_of (al_deferred_revokes (sy_alloc y)) (lr_lease_id (snd (lv_lease_record a))) = Some (lv_lease_record a)"
    and "instant (ce_expires_at_utc (snd (lv_capacity_evidence a))) < instant now"
    and "close_lease_binding_verification env now release tok v (sy_alloc y) = (res, s')"
  shows "res = Inl AllocationDenied \<and> map_of (al_verifications s') v = None \<and>
    map_of (al_deferred_revokes s') (lr_lease_id (snd (lv_lease_record a))) = None \<and>
    map_of (al_records s') (lr_lease_id (snd (lv_lease_record a))) = Some (lv_lease_record a) \<and>
    lr_state (snd (lv_lease_record a)) = RESERVED \<and>
    al_pending_releases s' = al_pending_releases (sy_alloc y) \<and> al_reservation_owners s' = al_reservation_owners (sy_alloc y)"
proof -
  have rec: "map_of (al_records (sy_alloc y)) (lr_lease_id (snd (lv_lease_record a))) = Some (lv_lease_record a)"
    "lr_state (snd (lv_lease_record a)) = RESERVED"
    using verifiedD [OF sys_okD(1) [OF reachable_ok [OF assms(1)]] assms(2)] by blast+
  have "\<not> active_verification_invariant env now (sy_alloc y) a"
    using assms(4) expired_not_current by fastforce
  then have "res = Inl AllocationDenied \<and> s' = (sy_alloc y)\<lparr>al_verifications := AList.delete v (al_verifications (sy_alloc y)),
      al_deferred_revokes := AList.delete (lr_lease_id (snd (lv_lease_record a))) (al_deferred_revokes (sy_alloc y))\<rparr>"
    using assms(2,3,5) by (auto simp: close_lease_binding_verification_def close_locked_def Let_def)
  then show ?thesis using rec by (simp add: delete_conv')
qed

subsection \<open>Witnesses\<close>

definition at_second :: "int \<Rightarrow> py_datetime" where
  "at_second n = \<lparr>local_us = n * us_per_second, utc_offset_us = Some 0\<rparr>"

definition sample_env :: alloc_env where
  "sample_env = \<lparr>le_sha256 = (\<lambda>_. replicate 64 (CHR ''0'')), le_dumps = (\<lambda>_. ''''), le_stamp = (\<lambda>_. ''stamp'')\<rparr>"

definition sample_generation :: string where
  "sample_generation = ''sha256:'' @ replicate 64 (CHR ''0'')"

definition sample_ticket :: "ValidatedAllocationTicket obj" where
  "sample_ticket = (100,
     \<lparr>vt_ticket_id = ''ticket:1'',
      vt_resolution_decision =
        \<lparr>rdec_class_id = ''arbeitsbiene'', rdec_lifecycle = ''ephemeral'', rdec_model = ''luna-1'', rdec_reasoning = ''low'',
         rdec_reason_codes = [], rdec_fallback = False, rdec_requested_class = None, rdec_requested_lifecycle = None,
         rdec_requested_model = None, rdec_requested_reasoning = None\<rparr>,
      vt_selection_offer =
        \<lparr>soff_generation = sample_generation, soff_classes = [''arbeitsbiene''], soff_lifecycles = [''ephemeral''],
         soff_models = [''luna-1''], soff_reasoning_levels = [''low''],
         soff_options = [(''arbeitsbiene'', ''ephemeral'', ''luna-1'', ''low'')]\<rparr>,
      vt_resolver_offer_generation = sample_generation, vt_policy_generation = 1, vt_policy_digest = sample_generation,
      vt_capability_binding_digest = ''c'', vt_ledger_revision = 3, vt_phase = ''OFFER_VALIDATED'', vt_fencing_token = ''f'',
      vt_fence_epoch = 1\<rparr>)"

definition sample_evidence :: "CapacityEvidence obj" where
  "sample_evidence = (101,
     \<lparr>ce_ticket_id = ''ticket:1'', ce_resolver_offer_generation = sample_generation, ce_policy_generation = 1,
      ce_capability_binding_digest = ''c'', ce_ledger_revision = 3, ce_fencing_token = ''f'', ce_fence_epoch = 1,
      ce_provider_adapter_id = ''a'', ce_capacity_units = Some 1, ce_quota_units = Some 2, ce_cost_units = Some 2,
      ce_resource_units = Some 2, ce_evidence_revision = 1, ce_observed_at_utc = at_second 10, ce_expires_at_utc = at_second 60\<rparr>)"

definition sample_reservation :: "AccountReservation obj" where
  "sample_reservation = (102,
     \<lparr>rv_reservation_id = ''r'', rv_account_binding_digest = sample_generation, rv_profile_binding_digest = ''prof'',
      rv_provider_adapter_id = ''a'', rv_capacity_evidence = sample_evidence, rv_lease_revision = 1, rv_evidence_revision = 1,
      rv_fencing_token = ''f'', rv_fence_epoch = 1, rv_expires_at_utc = at_second 60\<rparr>)"

definition sample_adapter :: adapter_replies where
  "sample_adapter =
     \<lparr>ad_adapter_id = Inr ''a'', ad_reserve = (\<lambda>_ _. Inr (Some sample_reservation)), ad_release = (\<lambda>_. Inr (PBool True))\<rparr>"

definition sample_lease :: "CredentialLease obj" where
  "sample_lease = (0, granted_lease ''a'' (snd sample_reservation) ''lease'')"

definition sample_bound :: RuntimeAccountAllocator where
  "sample_bound =
     snd (bind_reservation_locked sample_env (at_second 20) ''lease'' ''pend'' sample_ticket sample_evidence ''a''
       (Some sample_reservation) RuntimeAccountAllocator_init)"

definition sample_issued :: RuntimeAccountAllocator where
  "sample_issued = snd (issue_lease_binding_receipt sample_env (at_second 21) sample_lease sample_ticket sample_evidence sample_bound)"

definition sample_verified :: RuntimeAccountAllocator where
  "sample_verified =
     snd (verify_lease_binding_receipt sample_env (at_second 22) (2, sample_generation) sample_lease sample_ticket
       sample_evidence sample_issued)"

definition sample_deferred :: RuntimeAccountAllocator where
  "sample_deferred = snd (revoke_locked ''rev'' sample_lease sample_verified)"

definition sample_sys :: "RuntimeAccountAllocator \<Rightarrow> alloc_sys" where
  "sample_sys s = \<lparr>sy_alloc = s, sy_release = None, sy_taken = [sample_generation], sy_released = []\<rparr>"

lemma sample_reached: "(alloc_step sample_env)\<^sup>*\<^sup>* sys_init (sample_sys sample_verified)"
  and sample_reached_issued: "(alloc_step sample_env)\<^sup>*\<^sup>* sys_init (sample_sys sample_issued)"
  and sample_reached_deferred: "(alloc_step sample_env)\<^sup>*\<^sup>* sys_init (sample_sys sample_deferred)"
proof -
  have "taken_by sample_env (Some sample_reservation) RuntimeAccountAllocator_init sample_bound = [sample_generation]"
  proof -
    have "reservation_key sample_env sample_reservation = sample_generation"
      "map_of (al_reservation_owners sample_bound) sample_generation \<noteq> None" by (code_simp, code_simp)
    then show ?thesis by (simp add: taken_by_def RuntimeAccountAllocator_init_def domIff)
  qed
  moreover have "alloc_step sample_env sys_init (sys_init\<lparr>sy_alloc := sample_bound,
      sy_taken := taken_by sample_env (Some sample_reservation) (sy_alloc sys_init) sample_bound @ sy_taken sys_init\<rparr>)"
    by (rule alloc_step.bind [of _ "at_second 20" "''lease''" "''pend''" sample_ticket sample_evidence "''a''" _ _
          "fst (bind_reservation_locked sample_env (at_second 20) ''lease'' ''pend'' sample_ticket sample_evidence ''a''
            (Some sample_reservation) RuntimeAccountAllocator_init)"])
      (simp_all add: sys_init_def sample_bound_def, simp_all add: RuntimeAccountAllocator_init_def)
  ultimately have 1: "(alloc_step sample_env)\<^sup>*\<^sup>* sys_init (sample_sys sample_bound)"
    by (auto simp: sys_init_def sample_sys_def)
  have "alloc_step sample_env (sample_sys sample_bound) (sample_sys sample_bound\<lparr>sy_alloc := sample_issued\<rparr>)"
    by (rule alloc_step.issue) (simp add: sample_sys_def sample_issued_def prod_eq_iff)
  with 1 show 2: "(alloc_step sample_env)\<^sup>*\<^sup>* sys_init (sample_sys sample_issued)" by (simp add: sample_sys_def)
  have "alloc_step sample_env (sample_sys sample_issued) (sample_sys sample_issued\<lparr>sy_alloc := sample_verified\<rparr>)"
    by (rule alloc_step.verify) (simp add: sample_sys_def sample_verified_def prod_eq_iff)
  with 2 show 3: "(alloc_step sample_env)\<^sup>*\<^sup>* sys_init (sample_sys sample_verified)" by (simp add: sample_sys_def)
  have "map_of (al_pending_releases sample_verified) ''rev'' = None" by code_simp
  then have "alloc_step sample_env (sample_sys sample_verified) (sample_sys sample_verified\<lparr>sy_alloc := sample_deferred\<rparr>)"
    by (intro alloc_step.revoke) (simp_all add: sample_sys_def sample_deferred_def prod_eq_iff)
  with 3 show "(alloc_step sample_env)\<^sup>*\<^sup>* sys_init (sample_sys sample_deferred)" by (simp add: sample_sys_def)
qed

lemma sample_allocated:
  "fst (allocate sample_env sample_adapter (at_second 19) (at_second 20) ''lease'' ''pend'' sample_ticket sample_evidence
      RuntimeAccountAllocator_init) = Inr sample_lease"
  by code_simp

theorem verified_lease_held_witness:
  "\<exists>a. map_of (al_verifications sample_verified) 4 = Some a \<and>
     map_of (al_records sample_verified) (lr_lease_id (snd (lv_lease_record a))) = Some (lv_lease_record a) \<and>
     lr_state (snd (lv_lease_record a)) = RESERVED"
proof -
  have "map_of (al_verifications sample_verified) 4 \<noteq> None" by code_simp
  then obtain a where "map_of (al_verifications (sy_alloc (sample_sys sample_verified))) 4 = Some a" by (auto simp: sample_sys_def)
  from verified_lease_held [OF sample_reached this] this show ?thesis by (auto simp: sample_sys_def Let_def)
qed

theorem reservations_released_once_witness:
  "\<exists>!h. holder sample_verified sample_generation h"
proof -
  have "map_of (al_reservation_owners sample_verified) sample_generation \<noteq> None" by code_simp
  then have "sample_generation \<in> owned_keys (sy_alloc (sample_sys sample_verified))" by (auto simp: sample_sys_def)
  then show ?thesis using reservations_released_once [OF sample_reached, of sample_generation] by (simp add: sample_sys_def)
qed

theorem allocation_within_capacity_witness:
  "\<exists>s'. allocate sample_env sample_adapter (at_second 19) (at_second 20) ''lease'' ''pend'' sample_ticket sample_evidence
     RuntimeAccountAllocator_init = (Inr sample_lease, s') \<and> length (active_on s' sample_generation) \<le> 1"
proof -
  let ?a = "allocate sample_env sample_adapter (at_second 19) (at_second 20) ''lease'' ''pend'' sample_ticket sample_evidence
    RuntimeAccountAllocator_init"
  have eq: "?a = (Inr sample_lease, snd ?a)" by (simp add: prod_eq_iff sample_allocated)
  have "cl_account_binding_digest (snd sample_lease) = sample_generation" "units_left (snd sample_evidence) = Some 1" by (code_simp, code_simp)
  then have "length (active_on (snd ?a) sample_generation) \<le> 1" using allocation_within_capacity [OF eq] unfolding Let_def by auto
  with eq show ?thesis by blast
qed

theorem expired_close_keeps_lease_witness:
  "fst (close_lease_binding_verification sample_env (at_second 61) (\<lambda>_. Inr (PBool True)) ''tok'' 4 sample_deferred) = Inl AllocationDenied"
proof -
  have "map_of (al_verifications sample_deferred) 4 \<noteq> None \<and>
    (let a = the (map_of (al_verifications sample_deferred) 4)
     in map_of (al_deferred_revokes sample_deferred) (lr_lease_id (snd (lv_lease_record a))) = Some (lv_lease_record a) \<and>
        instant (ce_expires_at_utc (snd (lv_capacity_evidence a))) < instant (at_second 61))" by code_simp
  then obtain a where "map_of (al_verifications (sy_alloc (sample_sys sample_deferred))) 4 = Some a"
    "map_of (al_deferred_revokes (sy_alloc (sample_sys sample_deferred))) (lr_lease_id (snd (lv_lease_record a))) = Some (lv_lease_record a)"
    "instant (ce_expires_at_utc (snd (lv_capacity_evidence a))) < instant (at_second 61)"
    by (auto simp: sample_sys_def Let_def)
  from expired_close_keeps_lease [OF sample_reached_deferred this prod.collapse [symmetric]]
  show ?thesis by (simp add: sample_sys_def)
qed

end
