(* ===== verification/Spawn_Lease.thy ===== *)
theory Spawn_Lease
  imports Spawn_History Lease_Properties
begin

text \<open>
  The spawn ledger and the account allocator together: clients of \<open>append_phase\<close> that verify a lease,
  fetch its reference, commit the lease binding and close the verification, each at its own time,
  between any other calls of both components.
\<close>

subsection \<open>The joint system\<close>

text \<open>A client between its verification and its closing, with what it has read and fetched.\<close>

record guard_client =
  gc_verification :: nat
  gc_state :: SpawnLedgerStateV2
  gc_ticket :: WorkerSpawnTicketV2
  gc_binding :: LeaseBindingConsumerInputV1
  gc_reference :: "LeaseBindingReferenceV1 option"

record guarded_sys =
  gs_alloc :: alloc_sys
  gs_history :: "SpawnLedgerStateV2 list"
  gs_clients :: "guard_client list"

definition guarded_init :: guarded_sys where
  "guarded_init = \<lparr>gs_alloc = sys_init, gs_history = [SpawnLedgerStateV2_empty], gs_clients = []\<rparr>"

text \<open>The ledger call of a client that commits.\<close>

definition client_commit :: "guard_client \<Rightarrow> LeaseBindingReferenceV1 \<Rightarrow> (port_cell, WorkerSpawnTicketV2) op" where
  "client_commit c x =
     commit_phase cell_port (gc_state c) (gc_ticket c) LEASE_RESERVED
       (Some (x, cl_account_binding_digest (snd (bi_lease (gc_binding c)))))"

text \<open>
  A verification is known only to the client that opened it, so other calls of the allocator do not
  close it; lease bindings are committed by clients only.
\<close>

inductive guarded_step :: "alloc_env \<Rightarrow> guarded_sys \<Rightarrow> guarded_sys \<Rightarrow> bool" for env where
  alloc: "alloc_step env (gs_alloc z) y \<Longrightarrow>
    (\<forall>c \<in> set (gs_clients z). map_of (al_verifications (sy_alloc y)) (gc_verification c) =
       map_of (al_verifications (sy_alloc (gs_alloc z))) (gc_verification c)) \<Longrightarrow>
    guarded_step env z (z\<lparr>gs_alloc := y\<rparr>)"
| ledger: "gs_history z = x # h \<Longrightarrow> ledger_call w w' \<Longrightarrow> pc_cell w = x \<Longrightarrow> pc_seen w \<in> set (x # h) \<Longrightarrow>
    sl_used_lease_binding_references (pc_cell w') = sl_used_lease_binding_references x \<Longrightarrow>
    guarded_step env z (z\<lparr>gs_history := pc_cell w' # x # h\<rparr>)"
| verify: "s \<in> set (gs_history z) \<Longrightarrow> phase_checks s t LEASE_RESERVED n k p = Inr u \<Longrightarrow> require_allocation_ticket env t b = Inr u \<Longrightarrow>
    verify_guard env g b (sy_alloc (gs_alloc z)) = (Inr v, a) \<Longrightarrow>
    guarded_step env z (z\<lparr>gs_alloc := gs_alloc z\<lparr>sy_alloc := a\<rparr>,
      gs_clients := \<lparr>gc_verification = v, gc_state = s, gc_ticket = t, gc_binding = b, gc_reference = None\<rparr> # gs_clients z\<rparr>)"
| reference: "c \<in> set (gs_clients z) \<Longrightarrow> fst (lease_binding_reference_for env now (gc_verification c) (sy_alloc (gs_alloc z))) = Inr x \<Longrightarrow>
    x \<notin> set (sl_used_lease_binding_references (gc_state c)) \<Longrightarrow>
    guarded_step env z (z\<lparr>gs_clients := map (\<lambda>d. if d = c then c\<lparr>gc_reference := Some x\<rparr> else d) (gs_clients z)\<rparr>)"
| commit: "c \<in> set (gs_clients z) \<Longrightarrow> gc_reference c = Some x \<Longrightarrow> gs_history z = s # h \<Longrightarrow> pc_cell w = s \<Longrightarrow> pc_seen w = gc_state c \<Longrightarrow>
    client_commit c x w = (r, w') \<Longrightarrow> guarded_step env z (z\<lparr>gs_history := pc_cell w' # s # h\<rparr>)"
| close: "c \<in> set (gs_clients z) \<Longrightarrow> close_locked env now tok (gc_verification c) (sy_alloc (gs_alloc z)) = (r, a) \<Longrightarrow>
    map_of (al_pending_releases (sy_alloc (gs_alloc z))) tok = None \<Longrightarrow>
    guarded_step env z (z\<lparr>gs_alloc := gs_alloc z\<lparr>sy_alloc := a\<rparr>, gs_clients := removeAll c (gs_clients z)\<rparr>)"

subsection \<open>The invariant\<close>

text \<open>What the verification of a client says about its lease.\<close>

definition guard_of :: "alloc_env \<Rightarrow> guard_client \<Rightarrow> LeaseBindingVerificationRecord \<Rightarrow> bool" where
  "guard_of env c a \<longleftrightarrow>
     (let r = snd (lv_lease_record a); l = bi_lease (gc_binding c)
      in same_object (lr_lease r) l \<and> lr_lease_id r = cl_lease_id (snd l) \<and>
         lr_account_binding_digest r = cl_account_binding_digest (snd l) \<and>
         lease_binding_reference_for_record env r = Inr (lv_binding_reference a) \<and>
         (\<forall>x. gc_reference c = Some x \<longrightarrow> x = lv_binding_reference a))"

definition client_ok :: "alloc_env \<Rightarrow> guarded_sys \<Rightarrow> guard_client \<Rightarrow> bool" where
  "client_ok env z c \<longleftrightarrow>
     (\<exists>a. map_of (al_verifications (sy_alloc (gs_alloc z))) (gc_verification c) = Some a \<and> guard_of env c a) \<and>
     gc_state c \<in> set (gs_history z) \<and> (\<exists>n k p u. phase_checks (gc_state c) (gc_ticket c) LEASE_RESERVED n k p = Inr u) \<and>
     (\<forall>x. gc_reference c = Some x \<longrightarrow> x \<notin> set (sl_used_lease_binding_references (gc_state c)))"

definition guarded_ok :: "alloc_env \<Rightarrow> guarded_sys \<Rightarrow> bool" where
  "guarded_ok env z \<longleftrightarrow> sys_ok (gs_alloc z) \<and> ledger_history (gs_history z) \<and>
     distinct (map gc_verification (gs_clients z)) \<and> (\<forall>c \<in> set (gs_clients z). client_ok env z c)"

lemma verified_guard:
  assumes "verify_guard env g b s = (Inr v, s')"
  obtains a where "v = al_next s" "al_verifications s' = AList.update v a (al_verifications s)"
    "guard_of env \<lparr>gc_verification = v, gc_state = x, gc_ticket = t, gc_binding = b, gc_reference = None\<rparr> a"
proof -
  from assms obtain rc f where rc: "receipt_binding_invariant env (gr_verify_now g) s (Some rc) (bi_lease b) (bi_allocation_ticket b) (bi_capacity_evidence b)"
    and f: "lease_binding_reference_for_record env (snd rc) = Inr f" and v: "v = al_next s"
    and s': "al_verifications s' = AList.update v \<lparr>lv_verification = al_next s, lv_lease_record = rc, lv_receipt = bi_receipt b,
      lv_lease = bi_lease b, lv_ticket = bi_allocation_ticket b, lv_capacity_evidence = bi_capacity_evidence b, lv_binding_reference = f\<rparr> (al_verifications s)"
    unfolding verify_guard_def verify_lease_binding_receipt_def by (auto split: option.splits if_splits sum.splits)
  have "same_object (lr_lease (snd rc)) (bi_lease b) \<and> lr_lease_id (snd rc) = cl_lease_id (snd (bi_lease b)) \<and>
      lr_account_binding_digest (snd rc) = cl_account_binding_digest (snd (bi_lease b))"
    using rc by (cases rc) (simp add: receipt_binding_invariant_def Let_def)
  then show thesis using that [OF v s'] f by (simp add: guard_of_def)
qed

lemma close_keeps_others:
  assumes "close_locked env now tok v s = (r, s')" and "w \<noteq> v"
  shows "map_of (al_verifications s') w = map_of (al_verifications s) w"
proof -
  have tr: "al_verifications (snd (transition_lease_release_locked tok x y)) = al_verifications y" for x y
    by (auto simp: transition_lease_release_locked_def Let_def split: option.splits)
  show ?thesis
  proof (cases "map_of (al_verifications s) v")
    case None
    then show ?thesis using assms by (simp add: close_locked_def)
  next
    case (Some a)
    have "al_verifications s' = AList.delete v (al_verifications s)"
      using close_locked_cases [OF assms(1) Some] by (auto simp: tr)
    then show ?thesis using assms(2) by (simp add: delete_conv')
  qed
qed

lemma client_ok_cong:
  assumes "client_ok env z c"
    and "map_of (al_verifications (sy_alloc (gs_alloc z'))) (gc_verification c) = map_of (al_verifications (sy_alloc (gs_alloc z))) (gc_verification c)"
    and "set (gs_history z) \<subseteq> set (gs_history z')"
  shows "client_ok env z' c"
  using assms unfolding client_ok_def by (metis subsetD)

lemma client_commit_call:
  assumes "client_ok env z c" and "gc_reference c = Some x" and "pc_seen w = gc_state c" and "client_commit c x w = (r, w')"
  shows "ledger_call w w'"
proof -
  obtain n k p u where "phase_checks (pc_seen w) (gc_ticket c) LEASE_RESERVED n k p = Inr u"
    using assms(1,3) by (auto simp: client_ok_def)
  then show ?thesis
    by (rule ledger_call.reserve) (use assms in \<open>auto simp: client_ok_def client_commit_def\<close>)
qed

lemma guarded_ok_init: "guarded_ok env guarded_init"
  by (simp add: guarded_ok_def guarded_init_def sys_ok_init ledger_history.start)

lemma guarded_ok_step:
  assumes "guarded_step env z z'" and "guarded_ok env z"
  shows "guarded_ok env z'"
  using assms
proof cases
  case (alloc y)
  then show ?thesis using assms(2) sys_ok_step [OF alloc(2)] client_ok_cong [of env z _ z'] by (auto simp: guarded_ok_def)
next
  case (ledger x h w w')
  then have "ledger_history (pc_cell w' # x # h)" using assms(2) ledger_history.call [of x h w w'] by (simp add: guarded_ok_def)
  then show ?thesis using assms(2) ledger client_ok_cong [of env z _ z'] by (auto simp: guarded_ok_def)
next
  case (verify s t n k p u b g v a)
  let ?c = "\<lparr>gc_verification = v, gc_state = s, gc_ticket = t, gc_binding = b, gc_reference = None\<rparr>"
  obtain g' where g': "v = al_next (sy_alloc (gs_alloc z))" "al_verifications a = AList.update v g' (al_verifications (sy_alloc (gs_alloc z)))"
    "guard_of env ?c g'" using verified_guard [OF verify(5)] .
  have ok: "sys_ok (gs_alloc z)" using assms(2) by (simp add: guarded_ok_def)
  have "alloc_step env (gs_alloc z) (gs_alloc z\<lparr>sy_alloc := a\<rparr>)"
    using verify(5) unfolding verify_guard_def by (rule alloc_step.verify)
  then have "sys_ok (gs_alloc z\<lparr>sy_alloc := a\<rparr>)" using ok by (rule sys_ok_step)
  moreover have old: "gc_verification c \<noteq> v" if "c \<in> set (gs_clients z)" for c
  proof -
    have "client_ok env z c" using assms(2) that by (simp add: guarded_ok_def)
    then show ?thesis using verifiedD(1) [OF sys_okD(1) [OF ok]] g'(1) unfolding client_ok_def by (metis less_irrefl)
  qed
  moreover have "client_ok env z' ?c" using g' verify by (auto simp: client_ok_def)
  moreover have "client_ok env z' c" if "c \<in> set (gs_clients z)" for c
    using assms(2) that old g'(2) verify(1) client_ok_cong [of env z c z'] by (auto simp: guarded_ok_def)
  ultimately show ?thesis using assms(2) verify(1) by (auto simp: guarded_ok_def)
next
  case (reference c now x)
  have ok: "client_ok env z d" if "d \<in> set (gs_clients z)" for d using assms(2) that by (simp add: guarded_ok_def)
  obtain a where a: "map_of (al_verifications (sy_alloc (gs_alloc z))) (gc_verification c) = Some a" "guard_of env c a"
    using ok [OF reference(2)] by (auto simp: client_ok_def)
  then have "x = lv_binding_reference a" using reference(3) by (auto simp: lease_binding_reference_for_def split: if_splits)
  then have "client_ok env z (c\<lparr>gc_reference := Some x\<rparr>)"
    using ok [OF reference(2)] a reference(4) by (auto simp: client_ok_def guard_of_def Let_def)
  then have "client_ok env z' d" if "d \<in> set (gs_clients z')" for d
    using that ok reference(1) client_ok_cong [of env z d z'] by (auto split: if_splits)
  moreover have "map gc_verification (map (\<lambda>d. if d = c then c\<lparr>gc_reference := Some x\<rparr> else d) (gs_clients z)) = map gc_verification (gs_clients z)"
    by simp
  ultimately show ?thesis using assms(2) reference(1) by (simp add: guarded_ok_def del: map_map)
next
  case (commit c x s h w r w')
  have "ledger_call w w'" using client_commit_call commit assms(2) by (auto simp: guarded_ok_def)
  moreover have "pc_seen w \<in> set (s # h)" using assms(2) commit by (auto simp: guarded_ok_def client_ok_def)
  ultimately have "ledger_history (pc_cell w' # s # h)"
    using assms(2) commit ledger_history.call [of s h w w'] by (simp add: guarded_ok_def)
  then show ?thesis using assms(2) commit client_ok_cong [of env z _ z'] by (auto simp: guarded_ok_def)
next
  case (close c now tok r a)
  have "alloc_step env (gs_alloc z) (gs_alloc z\<lparr>sy_alloc := a\<rparr>)" using close(3,4) by (rule alloc_step.close)
  then have "sys_ok (gs_alloc z\<lparr>sy_alloc := a\<rparr>)" using sys_ok_step assms(2) by (simp add: guarded_ok_def)
  moreover have "client_ok env z' d" if "d \<in> set (gs_clients z)" "d \<noteq> c" for d
  proof -
    have "gc_verification d \<noteq> gc_verification c"
      using assms(2) that close(2) by (auto simp: guarded_ok_def distinct_map inj_on_def)
    then show ?thesis using assms(2) that close_keeps_others [OF close(3)] close(1) client_ok_cong [of env z d z']
      by (auto simp: guarded_ok_def)
  qed
  ultimately show ?thesis using assms(2) close(1) by (auto simp: guarded_ok_def distinct_map inj_on_def distinct_removeAll)
qed

lemma guarded_reachable: "(guarded_step env)\<^sup>*\<^sup>* guarded_init z \<Longrightarrow> guarded_ok env z"
  by (induction rule: rtranclp_induct) (auto intro: guarded_ok_init guarded_ok_step)

subsection \<open>The lease at the commit\<close>

lemma commit_phase_lease:
  assumes "commit_phase cell_port s t LEASE_RESERVED (Some (x, y)) w = (Inr t', w')"
  shows "st_lease_binding_reference t' = Some x \<and> st_account_binding_digest t' = Some y \<and> st_phase t' = LEASE_RESERVED \<and>
    st_request_id t' = st_request_id t"
  using assms unfolding commit_phase_def
  by (auto simp: op_bind_def op_lift_def result_simps dest!: advance_ticket_Inr split: sum.splits prod.splits)

text \<open>
  C4. Whatever else the ledger and the allocator do in between, when a client of \<open>append_phase\<close> that has
  verified a lease and fetched its reference commits the lease binding, the lease is held: its current
  record is reserved and owns its reservation, no release of it is under way, the committed reference is
  the digest of that record and the committed account is the account of that record. The states of the
  ledger form a history of legal transitions.
\<close>

theorem lease_held_at_commit:
  assumes "(guarded_step env)\<^sup>*\<^sup>* guarded_init z" and "c \<in> set (gs_clients z)" and "gc_reference c = Some x"
    and "client_commit c x w = (Inr t', w')"
  shows "ledger_history (gs_history z) \<and>
    (\<exists>o' r. map_of (al_records (sy_alloc (gs_alloc z))) (cl_lease_id (snd (bi_lease (gc_binding c)))) = Some (o', r) \<and>
       same_object (lr_lease r) (bi_lease (gc_binding c)) \<and> lr_state r = RESERVED \<and>
       owner_at (sy_alloc (gs_alloc z)) (lr_reservation_key r) = Some (lr_lease_id r, RESERVED) \<and>
       \<not> in_release (gs_alloc z) (lr_reservation_key r) \<and>
       lease_binding_reference_for_record env r = Inr x \<and> st_lease_binding_reference t' = Some x \<and>
       st_account_binding_digest t' = Some (lr_account_binding_digest r))"
proof -
  have ok: "guarded_ok env z" by (rule guarded_reachable [OF assms(1)])
  then obtain a where a: "map_of (al_verifications (sy_alloc (gs_alloc z))) (gc_verification c) = Some a" "guard_of env c a"
    using assms(2) by (auto simp: guarded_ok_def client_ok_def)
  obtain o' r where r: "lv_lease_record a = (o', r)" by (cases "lv_lease_record a")
  have "sys_ok (gs_alloc z)" using ok by (simp add: guarded_ok_def)
  note held = verified_held [OF this a(1)]
  have "st_lease_binding_reference t' = Some x" "st_account_binding_digest t' = Some (cl_account_binding_digest (snd (bi_lease (gc_binding c))))"
    using commit_phase_lease assms(4) by (auto simp: client_commit_def)
  then show ?thesis using ok held a(2) assms(3) r by (auto simp: guarded_ok_def guard_of_def Let_def)
qed

subsection \<open>Witness\<close>

definition sample_binding :: LeaseBindingConsumerInputV1 where
  "sample_binding =
     \<lparr>bi_receipt = (2, sample_generation), bi_lease = sample_lease, bi_allocation_ticket = sample_ticket,
      bi_capacity_evidence = sample_evidence\<rparr>"

definition sample_client :: "LeaseBindingReferenceV1 option \<Rightarrow> guard_client" where
  "sample_client x =
     \<lparr>gc_verification = 4, gc_state = ledger3, gc_ticket = sample_spawned 3 OFFER_VALIDATED (Some ''lead''),
      gc_binding = sample_binding, gc_reference = x\<rparr>"

lemma guarded_alloc_steps:
  "(alloc_step env)\<^sup>*\<^sup>* y y' \<Longrightarrow> (guarded_step env)\<^sup>*\<^sup>* \<lparr>gs_alloc = y, gs_history = h, gs_clients = []\<rparr> \<lparr>gs_alloc = y', gs_history = h, gs_clients = []\<rparr>"
proof (induction rule: rtranclp_induct)
  case (step u v)
  have "guarded_step env \<lparr>gs_alloc = u, gs_history = h, gs_clients = []\<rparr> (\<lparr>gs_alloc = u, gs_history = h, gs_clients = []\<rparr>\<lparr>gs_alloc := v\<rparr>)"
    by (rule guarded_step.alloc) (use step in auto)
  then show ?case using step.IH by (auto intro: rtranclp.rtrancl_into_rtrancl)
qed simp

lemma guarded_ledger_call:
  assumes "ledger_call w w'" and "pc_cell w = x" and "pc_seen w = x" and "pc_cell w' = x'"
    and "sl_used_lease_binding_references x' = sl_used_lease_binding_references x"
  shows "guarded_step env \<lparr>gs_alloc = y, gs_history = x # h, gs_clients = []\<rparr> \<lparr>gs_alloc = y, gs_history = x' # x # h, gs_clients = []\<rparr>"
  using guarded_step.ledger [of "\<lparr>gs_alloc = y, gs_history = x # h, gs_clients = []\<rparr>" x h w w' env] assms by simp

lemma sample_checks:
  "phase_checks ledger3 (sample_spawned 3 OFFER_VALIDATED (Some ''lead'')) LEASE_RESERVED 3 1 sample_lead = Inr ()"
  "require_allocation_ticket sample_env (sample_spawned 3 OFFER_VALIDATED (Some ''lead'')) sample_binding = Inr ()"
  "fst (verify_guard sample_env sample_guard sample_binding sample_issued) = Inr 4"
  "fst (lease_binding_reference_for sample_env (at_second 23) 4 sample_verified) = Inr sample_generation"
  "is_ok (fst (client_commit (sample_client (Some sample_generation)) sample_generation (port_world ledger3 ledger3)))"
  by (code_simp, code_simp, code_simp, code_simp, code_simp)

lemma sample_guarded:
  "(guarded_step sample_env)\<^sup>*\<^sup>* guarded_init \<lparr>gs_alloc = sample_sys sample_verified,
     gs_history = [ledger3, ledger2, ledger1, SpawnLedgerStateV2_empty], gs_clients = [sample_client (Some sample_generation)]\<rparr>"
proof -
  let ?z = "\<lambda>a h cs. \<lparr>gs_alloc = sample_sys a, gs_history = h, gs_clients = cs\<rparr>"
  let ?h3 = "[ledger3, ledger2, ledger1, SpawnLedgerStateV2_empty]"
  have 0: "(guarded_step sample_env)\<^sup>*\<^sup>* guarded_init (?z sample_issued [SpawnLedgerStateV2_empty] [])"
    using guarded_alloc_steps [OF sample_reached_issued] by (simp add: guarded_init_def)
  have 1: "guarded_step sample_env (?z sample_issued [SpawnLedgerStateV2_empty] []) (?z sample_issued [ledger1, SpawnLedgerStateV2_empty] [])"
    by (rule guarded_ledger_call [OF sample_calls(1) _ _ sample_runs(1)]) (simp_all add: port_world_def ledger_values)
  have 2: "guarded_step sample_env (?z sample_issued [ledger1, SpawnLedgerStateV2_empty] [])
      (?z sample_issued [ledger2, ledger1, SpawnLedgerStateV2_empty] [])"
    by (rule guarded_ledger_call [OF sample_calls(2) _ _ sample_runs(2)]) (simp_all add: port_world_def ledger_values)
  have 3: "guarded_step sample_env (?z sample_issued [ledger2, ledger1, SpawnLedgerStateV2_empty] []) (?z sample_issued ?h3 [])"
    by (rule guarded_ledger_call [OF sample_calls(3) _ _ sample_runs(3)]) (simp_all add: port_world_def ledger_values)
  have "verify_guard sample_env sample_guard sample_binding sample_issued = (Inr 4, sample_verified)"
    using sample_checks(3) unfolding prod_eq_iff
    by (simp add: verify_guard_def sample_verified_def sample_guard_def sample_binding_def at_second_def Let_def)
  then have 4: "guarded_step sample_env (?z sample_issued ?h3 []) (?z sample_verified ?h3 [sample_client None])"
    using guarded_step.verify [of ledger3 "?z sample_issued ?h3 []", OF _ sample_checks(1,2)]
    by (simp add: sample_client_def sample_sys_def)
  have 5: "guarded_step sample_env (?z sample_verified ?h3 [sample_client None]) (?z sample_verified ?h3 [sample_client (Some sample_generation)])"
    using guarded_step.reference [of "sample_client None" "?z sample_verified ?h3 [sample_client None]" sample_env "at_second 23" sample_generation]
      sample_checks(4) by (simp add: sample_client_def sample_sys_def ledger_values SpawnLedgerStateV2_empty_def)
  from 0 1 2 3 4 5 show ?thesis by (meson rtranclp.rtrancl_into_rtrancl)
qed

theorem lease_held_at_commit_witness:
  "\<exists>t' w' o' r. client_commit (sample_client (Some sample_generation)) sample_generation (port_world ledger3 ledger3) = (Inr t', w') \<and>
     st_lease_binding_reference t' = Some sample_generation \<and> map_of (al_records sample_verified) ''lease'' = Some (o', r) \<and>
     lr_state r = RESERVED \<and> st_account_binding_digest t' = Some (lr_account_binding_digest r)"
proof -
  obtain t' w' where c: "client_commit (sample_client (Some sample_generation)) sample_generation (port_world ledger3 ledger3) = (Inr t', w')"
    using sample_checks(5) unfolding is_ok_iff by (metis prod.collapse)
  have "cl_lease_id (snd (bi_lease (gc_binding (sample_client (Some sample_generation))))) = ''lease''"
    by (simp add: sample_client_def sample_binding_def sample_lease_def granted_lease_def)
  then show ?thesis using lease_held_at_commit [OF sample_guarded _ _ c] c by (auto simp: sample_client_def sample_sys_def)
qed

end
