(* ===== verification/Spec2Isabelle.thy ===== *)
theory Spec2Isabelle
  imports Service_Cleanup Dispatch_Properties Dispatch_Saga Work_Queue_Properties Hive_Admission
    Decisions Bus_Policy Spark_Retry Reset_Anchor Task_Classification Selection_State
    Agent_Resolver_Properties Spawn_Lease
begin

text \<open>
  A verification library for the core of the hive: the components that decide who may work on what,
  with which account and model, under which authority, and that keep those decisions exclusive and
  durable. Python sources are named relative to \<open>src/src/the_hive/\<close>.

  \<^bold>\<open>Parts and how they interact.\<close> A request is ranked by the selection planner
  (\<open>selection.py\<close>), reserved as an admission record (\<open>admission.py\<close>) in an in-process or file
  store, optionally bound to a dynamic account pool (\<open>dynamic_pool.py\<close>), and run by the selection
  service (\<open>selection_service.py\<close>), which revalidates, executes, finalizes or compensates it. The
  hive keeps its principals and their execution bindings (\<open>hive/principals.py\<close>), the repositories
  they work in (\<open>hive/repositories.py\<close>) and the grants by which one principal lets another act
  (\<open>hive/authority.py\<close>) in private JSON documents (\<open>hive/state.py\<close>). Above them a global
  request is planned over several repositories and run as a saga, and the work packages of a
  dispatch go through their states (\<open>hive/dispatch.py\<close>), driven by messages from below
  (\<open>hive/messages.py\<close>). The work queue (\<open>hive/queue.py\<close>) chooses the next package, an assignment plan
  hands it to a specialist, and \<open>hive/admission.py\<close> turns plan, package, intent and grant into the
  admission record with which the circle closes. Beside this circle principals record decisions in a
  hash chain (\<open>hive/decisions.py\<close>), queens divide their repository into topics (\<open>hive/bus_policy.py\<close>),
  and a bee that runs out of capacity resumes from a capsule (\<open>spark_retry.py\<close>).
  A worker is spawned along a second path: the resolver (\<open>agent_resolver.py\<close>) turns a request into one
  class, lifecycle, model (of the registry \<open>selection/model_policy.py\<close>) and reasoning level of an offer;
  the spawn ledger (\<open>worker_spawn_ledger.py\<close>) carries the ticket of the worker through its phases by
  compare and swap; the account allocator (\<open>runtime_account_allocator.py\<close>) reserves an account for the
  ticket and keeps the lease, which the ledger binds under an open verification; and a checkpointed
  worker is resumed from its capsule (\<open>worker_resume.py\<close>).

  \<^bold>\<open>Theories.\<close>
  \<^item> \<open>Hive_Prelude\<close>: Python values, results (\<open>exn + 'a\<close>), state-passing operations, dictionaries as
    association lists, strings. \<open>Hive_Time\<close> and \<open>Hive_Iso\<close>: \<open>datetime\<close> and its ISO 8601 text.
    \<open>Hive_Json\<close>: JSON documents and their size. \<open>Hive_Types\<close>: \<open>hive/types.py\<close>.
  \<^item> \<open>Hive_Contracts\<close>: the contracts of the stores as locales. \<open>Hive_Documents\<close>: the contract of a
    component that keeps its dictionaries in one document, interpreted for the principal registry
    and for the grants.
  \<^item> \<open>Dynamic_Pool\<close>, \<open>Selection\<close>, \<open>Selection_Planner\<close>: \<open>dynamic_pool.py\<close> and \<open>selection.py\<close>, with
    decay of recorded service, eligibility and optimality of the selection.
  \<^item> \<open>Admission\<close>, \<open>Admission_Properties\<close>, \<open>File_Admission\<close>: \<open>admission.py\<close>, with the exclusiveness
    invariant for one process and for several on one file, compare-and-set, the expiry sweep and the
    round trip of the private payload.
  \<^item> \<open>Selection_Service\<close>, \<open>Service_Backend\<close>, \<open>Service_Safety\<close>, \<open>Service_Cleanup\<close>:
    \<open>selection_service.py\<close>, over both stores, with the guard of every execution, the absence of
    leaked claims, compensation and reconciliation.
  \<^item> \<open>Hive_State\<close>: JSON documents and bounded logs of \<open>hive/state.py\<close>.
  \<^item> \<open>Principals\<close>, \<open>Principals_Properties\<close>: \<open>hive/principals.py\<close>, with the hierarchy and binding
    invariant over any history, and durability.
  \<^item> \<open>Repositories\<close>: \<open>hive/repositories.py\<close>, with path isolation and scope digests.
  \<^item> \<open>Authority\<close>, \<open>Authority_Properties\<close>: \<open>hive/authority.py\<close>, with the refinement of the life cycle
    of grants, single use, attenuation and exact validation.
  \<^item> \<open>Messages\<close>: \<open>hive/messages.py\<close>, with the round trip of the envelope and what an accepted message
    guarantees.
  \<^item> \<open>Dispatch\<close>, \<open>Dispatch_Properties\<close>: the data and the three state machines of \<open>hive/dispatch.py\<close>;
    admission before execution, no dead ends, the checkpoint transition. \<open>Dispatch_Saga\<close>: the planner
    and the saga of global requests, with compensation in reverse order exactly after a failure, and the
    gates.
  \<^item> \<open>Work_Queue\<close>, \<open>Work_Queue_Properties\<close>: \<open>hive/queue.py\<close>, with the best-first order and the
    balance of the cost ledger.
  \<^item> \<open>Queen_Assignment\<close>, \<open>Hive_Admission\<close>: the assignment plans of \<open>hive/dispatch.py\<close> and the adapter
    \<open>hive/admission.py\<close>; an admission rests on a living grant over any history of the engine.
  \<^item> \<open>Decisions\<close>: \<open>hive/decisions.py\<close>; what is recorded extends the chain, and the last hash fixes
    the history. \<open>Bus_Policy\<close>: \<open>hive/bus_policy.py\<close> with the topic grammar of \<open>hive/bus_types.py\<close>;
    accepted delegations are disjoint.
  \<^item> \<open>Spark_Retry\<close>: \<open>spark_retry.py\<close>; events are accounted once under replay and reordering, and
    the capsule has its round trip.
  \<^item> \<open>Reset_Anchor\<close>, \<open>Task_Classification\<close>, \<open>Selection_State\<close>: the modules of \<open>selection/\<close> around
    the planner and \<open>hive/capabilities.py\<close>; anchors are planned and never executed, an override never
    makes a task simple, writers of the resource state are serialized.
  \<^item> \<open>Model_Policy\<close>, \<open>Agent_Resolver\<close>, \<open>Agent_Resolver_Properties\<close>: \<open>selection/model_policy.py\<close> and
    \<open>agent_resolver.py\<close>; a decision passes the check against the offer of the same catalogs exactly when
    the wishes of the request are bounded, the offer holds exactly the valid combinations, and the
    fallback flag is exact.
  \<^item> \<open>Account_Allocator\<close>, \<open>Allocator_Properties\<close>, \<open>Lease_Properties\<close>: \<open>runtime_account_allocator.py\<close>; the
    sections under its locks as a step relation, with the invariant of owners, leases, pending releases
    and verifications; verified leases are held, reservations are released once, allocations keep to the
    capacity, an outdated verification closes without a release.
  \<^item> \<open>Worker_Resume\<close>, \<open>Spawn_Ledger\<close>, \<open>Spawn_Ledger_Properties\<close>, \<open>Spawn_History\<close>: \<open>worker_resume.py\<close> and
    \<open>worker_spawn_ledger.py\<close>; the port as a locale, the refinement of atomic transitions by clients with
    stale snapshots and faults, single use of leases and capsules, the life of a ticket. \<open>Spawn_Lease\<close>:
    ledger and allocator together; a lease is held when it is bound.

  \<^bold>\<open>Conventions.\<close> A Python class is a record with one definition per method, named after it where
  HOL allows (a prefix separates equal names); \<open>X_init\<close> is the constructor with its checks. A method
  that may raise returns \<open>exn + 'a\<close>; a method with side effects is an operation that returns the
  result and the new state, so the state after an exception is explicit. Dynamic values from JSON are
  \<open>pyval\<close>s. Loops are structural recursions; the retry loop of the service runs over the fixed list
  of its three attempts, so no fuel is needed anywhere. An \<open>Iterable\<close> argument is a list, which can be
  read more than once; whole seconds of a time are exact integers.

  \<^bold>\<open>Environment.\<close> Clocks, the runtime, the sleeper, SHA-256, git, path resolution, the evidence
  reader, the callbacks of sagas and of the work queue, and the canonical JSON text under a digest are
  parameters, and so are the provider adapter, the tokens and the texts of times of the allocator and the
  state port of the spawn ledger. Every file operation takes a record of faults, one for each step that
  the code guards, so the theorems hold for failures at any of them: a write that fails up to the
  rename leaves the old file, and one whose directory cannot be synced after the rename
  (\<open>hive/state.py\<close>; \<open>admission.py\<close> ends with the rename) raises with the new file in place. An operation
  that raised may therefore have taken effect, and the histories of the authority engine count what the
  calls did, answered or not. Closing a descriptor is taken not to fail. Times that \<open>datetime.fromisoformat\<close> accepts beyond the spelling the code writes are given by
  the parameter \<open>other\<close>.

  \<^bold>\<open>Not modelled.\<close> Descriptor-level file handling, process and cgroup control, the MCP and HTTP
  surfaces, the SQLite-backed stores, clients of external services and remote execution: they are
  sequences of system calls or third-party protocol I/O around the components above. Of the facade of
  the planner \<open>generate_candidates\<close> and \<open>migrate_resource_state\<close> are left out: they inspect objects of
  any type; so do the readers of the model policy file and the class half of \<open>policies_from_catalogs\<close>.
\<close>

end
